(* ===== verification/Prelude.thy ===== *)
theory Prelude
  imports Complex_Main "HOL-Library.AList"
begin

text \<open>
  Shared vocabulary of the development: the values of the TypeScript program as HOL
  types, the few operations of the JavaScript standard library that the modelled code
  calls, and the generic lemmas about them.

  \<^item> A JavaScript \<open>number\<close> that the program computes with is a \<open>real\<close>; rounding of
    doubles is not modelled. At the native bridge, where \<open>NaN\<close> and the infinities can
    arrive, a number is a \<open>jsnum\<close> and every comparison follows IEEE 754.
  \<^item> A value of type \<open>unknown\<close> is a \<open>jsval\<close>; objects are association lists.
  \<^item> A \<open>Map\<close> is an association list in insertion order (\<open>map_set\<close> replaces the value
    of an existing key in place and appends a new key), a \<open>Set\<close> is a list without
    repetitions in insertion order.
  \<^item> A \<open>string\<close> is a list of characters.
\<close>

named_theorems js_defs \<open>definitions of the JavaScript operations\<close>

subsection \<open>Numbers\<close>

type_synonym number = real

datatype jsnum = Fin number | NaN | PosInf | NegInf

fun isFinite :: "jsnum \<Rightarrow> bool" where
  "isFinite (Fin _) = True"
| "isFinite _ = False"

text \<open>The number behind a finite value (only used under an \<open>isFinite\<close> guard).\<close>

fun fin_val :: "jsnum \<Rightarrow> number" where
  "fin_val (Fin r) = r"
| "fin_val _ = 0"

text \<open>Every comparison with \<open>NaN\<close> is false.\<close>

fun num_le :: "jsnum \<Rightarrow> jsnum \<Rightarrow> bool" where
  "num_le NaN _ = False"
| "num_le _ NaN = False"
| "num_le NegInf _ = True"
| "num_le _ PosInf = True"
| "num_le (Fin a) (Fin b) = (a \<le> b)"
| "num_le (Fin _) NegInf = False"
| "num_le PosInf _ = False"

definition num_lt :: "jsnum \<Rightarrow> jsnum \<Rightarrow> bool" where
  "num_lt a b \<longleftrightarrow> num_le a b \<and> \<not> num_le b a"

definition isInteger :: "jsnum \<Rightarrow> bool" where
  "isInteger n \<longleftrightarrow> isFinite n \<and> of_int \<lfloor>fin_val n\<rfloor> = fin_val n"

subsection \<open>Values of type unknown\<close>

datatype jsval =
    JUndefined
  | JNull
  | JBool bool
  | JNum jsnum
  | JStr string
  | JArr "jsval list"
  | JObj "(string \<times> jsval) list"

text \<open>\<open>typeof v === 'object' && v !== null\<close>: an array is an object too.\<close>

fun is_object :: "jsval \<Rightarrow> bool" where
  "is_object (JObj _) = True"
| "is_object (JArr _) = True"
| "is_object _ = False"

text \<open>Reading a named property of an object; a missing property is \<open>undefined\<close>.\<close>

fun prop_of :: "jsval \<Rightarrow> string \<Rightarrow> jsval" where
  "prop_of (JObj fs) k = (case map_of fs k of None \<Rightarrow> JUndefined | Some v \<Rightarrow> v)"
| "prop_of _ k = JUndefined"

fun as_string :: "jsval \<Rightarrow> string option" where
  "as_string (JStr s) = Some s"
| "as_string _ = None"

fun as_number :: "jsval \<Rightarrow> jsnum option" where
  "as_number (JNum n) = Some n"
| "as_number _ = None"

text \<open>\<open>typeof v === 'string' ? v : ''\<close>\<close>

definition string_or_empty :: "jsval \<Rightarrow> string" where
  "string_or_empty v = (case as_string v of Some s \<Rightarrow> s | None \<Rightarrow> [])"

text \<open>\<open>typeof v === 'string' && v ? v : undefined\<close>\<close>

definition nonempty_string :: "jsval \<Rightarrow> string option" where
  "nonempty_string v = (case as_string v of
       Some s \<Rightarrow> (if s = [] then None else Some s) | None \<Rightarrow> None)"

text \<open>\<open>typeof v === 'number' && Number.isFinite(v) && v >= 0 ? v : 0\<close>\<close>

definition nonneg_or_zero :: "jsval \<Rightarrow> number" where
  "nonneg_or_zero v = (case as_number v of
       Some n \<Rightarrow> (if isFinite n \<and> 0 \<le> fin_val n then fin_val n else 0) | None \<Rightarrow> 0)"

subsection \<open>Strings\<close>

definition startsWith :: "string \<Rightarrow> string \<Rightarrow> bool" where
  "startsWith s p \<longleftrightarrow> take (length p) s = p"

definition endsWith :: "string \<Rightarrow> string \<Rightarrow> bool" where
  "endsWith s p \<longleftrightarrow> length p \<le> length s \<and> drop (length s - length p) s = p"

definition lower_char :: "char \<Rightarrow> char" where
  "lower_char c = (if 65 \<le> (of_char c :: nat) \<and> (of_char c :: nat) \<le> 90
                   then char_of ((of_char c :: nat) + 32) else c)"

definition toLowerCase :: "string \<Rightarrow> string" where
  "toLowerCase s = map lower_char s"

definition is_space :: "char \<Rightarrow> bool" where
  "is_space c \<longleftrightarrow> (of_char c :: nat) = 32 \<or> (9 \<le> (of_char c :: nat) \<and> (of_char c :: nat) \<le> 13)"

definition trimStart :: "string \<Rightarrow> string" where
  "trimStart s = dropWhile is_space s"

definition trim :: "string \<Rightarrow> string" where
  "trim s = rev (dropWhile is_space (rev (dropWhile is_space s)))"

text \<open>The decimal notation of a natural number, as in a template literal.\<close>

definition digit_char :: "nat \<Rightarrow> char" where
  "digit_char d = char_of (48 + d)"

fun show_nat :: "nat \<Rightarrow> string" where
  "show_nat n = (if n < 10 then [digit_char n] else show_nat (n div 10) @ [digit_char (n mod 10)])"

declare show_nat.simps [simp del]

subsection \<open>Maps and sets in insertion order\<close>

type_synonym ('k, 'v) jsmap = "('k \<times> 'v) list"

abbreviation map_get :: "('k, 'v) jsmap \<Rightarrow> 'k \<Rightarrow> 'v option" where
  "map_get \<equiv> map_of"

abbreviation map_set :: "'k \<Rightarrow> 'v \<Rightarrow> ('k, 'v) jsmap \<Rightarrow> ('k, 'v) jsmap" where
  "map_set \<equiv> AList.update"

definition map_has :: "('k, 'v) jsmap \<Rightarrow> 'k \<Rightarrow> bool" where
  "map_has m k \<longleftrightarrow> map_of m k \<noteq> None"

text \<open>\<open>new Map(entries)\<close>: a later entry replaces the value of an earlier one.\<close>

definition map_from :: "('k \<times> 'v) list \<Rightarrow> ('k, 'v) jsmap" where
  "map_from entries = fold (\<lambda>(k, v). map_set k v) entries []"

definition set_add :: "'a \<Rightarrow> 'a list \<Rightarrow> 'a list" where
  "set_add x xs = (if x \<in> set xs then xs else xs @ [x])"

text \<open>\<open>new Set(xs)\<close> and adding every element of a second collection.\<close>

definition set_add_all :: "'a list \<Rightarrow> 'a list \<Rightarrow> 'a list" where
  "set_add_all ys xs = fold set_add ys xs"

text \<open>
  The idiom \<open>const group = groups.get(k) ?? []; group.push(x); groups.set(k, group)\<close>.
\<close>

definition group_of :: "('k, 'v list) jsmap \<Rightarrow> 'k \<Rightarrow> 'v list" where
  "group_of m k = (case map_of m k of None \<Rightarrow> [] | Some g \<Rightarrow> g)"

definition group_push :: "'k \<Rightarrow> 'v \<Rightarrow> ('k, 'v list) jsmap \<Rightarrow> ('k, 'v list) jsmap" where
  "group_push k x m = map_set k (group_of m k @ [x]) m"

text \<open>\<open>xs.slice(index, index + n)\<close> for \<open>index = 0, n, 2n, ...\<close>: the batches of a loop.\<close>

function chunks :: "nat \<Rightarrow> 'a list \<Rightarrow> 'a list list" where
  "chunks n xs = (if n = 0 \<or> xs = [] then [] else take n xs # chunks n (drop n xs))"
  by pat_completeness auto
termination
  by (relation "measure (\<lambda>(n, xs). length xs)") auto

declare chunks.simps [simp del]

subsection \<open>Lemmas: numbers and values\<close>

lemma num_le_refl_iff: "num_le a a \<longleftrightarrow> a \<noteq> NaN"
  by (cases a) simp_all

lemma num_le_Fin_Fin [simp]: "num_lt (Fin a) (Fin b) \<longleftrightarrow> a < b"
  by (auto simp: num_lt_def)

lemma nonneg_or_zero_nonneg [simp]: "0 \<le> nonneg_or_zero v"
  by (auto simp: nonneg_or_zero_def split: option.splits)

lemma nonempty_string_SomeD [dest]: "nonempty_string v = Some s \<Longrightarrow> v = JStr s \<and> s \<noteq> []"
  by (cases v) (auto simp: nonempty_string_def split: if_splits)

lemma string_or_empty_JStr [simp]: "string_or_empty (JStr s) = s"
  by (simp add: string_or_empty_def)

lemma string_or_empty_nonempty: "string_or_empty v \<noteq> [] \<Longrightarrow> v = JStr (string_or_empty v)"
  by (cases v) (auto simp: string_or_empty_def)

subsection \<open>Lemmas: decimal notation\<close>

lemma of_char_digit_char: "d < 10 \<Longrightarrow> (of_char (digit_char d) :: nat) = 48 + d"
  by (simp add: digit_char_def)

lemma digit_char_inj: "a < 10 \<Longrightarrow> b < 10 \<Longrightarrow> digit_char a = digit_char b \<longleftrightarrow> a = b"
  by (metis add_left_cancel of_char_digit_char)

lemma show_nat_small: "n < 10 \<Longrightarrow> show_nat n = [digit_char n]"
  by (simp add: show_nat.simps)

lemma show_nat_step: "\<not> n < 10 \<Longrightarrow> show_nat n = show_nat (n div 10) @ [digit_char (n mod 10)]"
  by (simp add: show_nat.simps [of n])

lemma show_nat_not_Nil [simp]: "show_nat n \<noteq> []" "[] \<noteq> show_nat n"
  by (cases "n < 10"; simp add: show_nat_small show_nat_step)+

lemma show_nat_inj: "show_nat m = show_nat n \<Longrightarrow> m = n"
proof (induction m arbitrary: n rule: show_nat.induct)
  case (1 m)
  show ?case
  proof (cases "m < 10"; cases "n < 10")
    assume "m < 10" "n < 10"
    with "1.prems" show ?thesis by (simp add: show_nat_small digit_char_inj)
  next
    assume "m < 10" "\<not> n < 10"
    with "1.prems" show ?thesis by (simp add: show_nat_small show_nat_step)
  next
    assume "\<not> m < 10" "n < 10"
    with "1.prems" show ?thesis by (simp add: show_nat_small show_nat_step)
  next
    assume m: "\<not> m < 10" and n: "\<not> n < 10"
    with "1.prems" have "show_nat (m div 10) = show_nat (n div 10)"
      and "m mod 10 = n mod 10" by (simp_all add: show_nat_step digit_char_inj)
    moreover from this(1) have "m div 10 = n div 10" using "1.IH" m by blast
    ultimately show ?thesis by (metis div_mult_mod_eq)
  qed
qed

lemma show_nat_inj_iff [simp]: "show_nat m = show_nat n \<longleftrightarrow> m = n"
  using show_nat_inj by blast

subsection \<open>Lemmas: insertion-ordered maps and sets\<close>

lemma map_get_set [simp]: "map_get (map_set k v m) k' = (if k' = k then Some v else map_get m k')"
  by (simp add: update_conv')

lemma map_has_set [simp]: "map_has (map_set k v m) k' \<longleftrightarrow> k' = k \<or> map_has m k'"
  by (simp add: map_has_def)

lemma map_has_Nil [simp]: "\<not> map_has [] k"
  by (simp add: map_has_def)

lemma map_get_fold_set:
  "map_get (fold (\<lambda>x. map_set (key x) (val x)) xs m) k =
     (case filter (\<lambda>x. key x = k) xs of [] \<Rightarrow> map_get m k | y # ys \<Rightarrow> Some (val (last (y # ys))))"
  by (induction xs arbitrary: m) (auto split: list.splits)

lemma map_from_conv: "map_from entries = fold (\<lambda>e. map_set (fst e) (snd e)) entries []"
  by (simp add: map_from_def split_def)

lemma map_get_from_distinct:
  assumes "distinct (map fst entries)"
  shows "map_get (map_from entries) k = map_of entries k"
proof -
  have "(case filter (\<lambda>e. fst e = k) entries of [] \<Rightarrow> map_get [] k | y # ys \<Rightarrow> Some (snd (last (y # ys)))) =
      map_of entries k"
    using assms by (induction entries) (auto split: list.splits simp: filter_empty_conv image_iff)
  then show ?thesis by (simp only: map_from_conv map_get_fold_set)
qed

lemma set_set_add [simp]: "set (set_add x xs) = insert x (set xs)"
  by (auto simp: set_add_def)

lemma distinct_set_add [simp]: "distinct xs \<Longrightarrow> distinct (set_add x xs)"
  by (simp add: set_add_def)

lemma set_set_add_all [simp]: "set (set_add_all ys xs) = set xs \<union> set ys"
  by (induction ys arbitrary: xs) (auto simp: set_add_all_def)

lemma distinct_set_add_all [simp]: "distinct xs \<Longrightarrow> distinct (set_add_all ys xs)"
  by (induction ys arbitrary: xs) (auto simp: set_add_all_def)

lemma set_add_all_Nil_Cons [simp]:
  "set_add_all [] xs = xs" "set_add_all (y # ys) xs = set_add_all ys (set_add y xs)"
  by (simp_all add: set_add_all_def)

lemma group_of_push [simp]:
  "group_of (group_push k x m) k' = (if k' = k then group_of m k @ [x] else group_of m k')"
  by (simp add: group_of_def group_push_def)

lemma group_of_Nil [simp]: "group_of [] k = []"
  by (simp add: group_of_def)

subsection \<open>Lemmas: batches\<close>

lemma chunks_Nil [simp]: "chunks n [] = []"
  by (simp add: chunks.simps)

lemma chunks_step: "0 < n \<Longrightarrow> xs \<noteq> [] \<Longrightarrow> chunks n xs = take n xs # chunks n (drop n xs)"
  by (simp add: chunks.simps [of n xs])

lemma concat_chunks [simp]: "0 < n \<Longrightarrow> concat (chunks n xs) = xs"
proof (induction n xs rule: chunks.induct)
  case (1 n xs)
  then show ?case by (cases "xs = []") (simp_all add: chunks_step)
qed

lemma chunks_length: "b \<in> set (chunks n xs) \<Longrightarrow> 0 < length b \<and> length b \<le> n"
proof (induction n xs rule: chunks.induct)
  case (1 n xs)
  then show ?case by (cases "n = 0 \<or> xs = []") (auto simp: chunks.simps [of n xs])
qed

lemma chunks_subset: "b \<in> set (chunks n xs) \<Longrightarrow> set b \<subseteq> set xs"
proof (induction n xs rule: chunks.induct)
  case (1 n xs)
  then show ?case
    by (cases "n = 0 \<or> xs = []") (auto simp: chunks.simps [of n xs] dest: in_set_takeD in_set_dropD)
qed

subsection \<open>Lemmas: sums over lists\<close>

lemma sum_list_nonneg_map: "(\<And>x. x \<in> set xs \<Longrightarrow> 0 \<le> f x) \<Longrightarrow> (0::number) \<le> sum_list (map f xs)"
  by (induction xs) auto

lemma fold_sum: "fold (\<lambda>x acc. acc + f x) xs (a::number) = a + sum_list (map f xs)"
  by (induction xs arbitrary: a) auto

lemma sum_list_update_nth:
  fixes f :: "'a \<Rightarrow> 'b :: ab_group_add"
  shows "i < length xs \<Longrightarrow> sum_list (map f (xs[i := x])) = sum_list (map f xs) - f (xs ! i) + f x"
proof (induction xs arbitrary: i)
  case Nil
  then show ?case by simp
next
  case (Cons y ys)
  then show ?case by (cases i) simp_all
qed

end
