(* ===== verification/Interfaces.thy ===== *)
theory Interfaces
  imports Prelude
begin

text \<open>
  The contracts that several components share, as locales.

  \<^item> \<open>guarded_machine\<close>: a component as a step function over events, an invariant that
    every permitted event keeps; its invariant holds after every permitted run.
    \<open>event_machine\<close> is the case where the environment is not restricted.
  \<^item> \<open>transition_inv\<close>: the same for a step relation.
  \<^item> \<open>grouping\<close>: collecting values under keys; the group of a key is the subsequence of
    the values that have the key. \<open>group_push\<close> provides it.
  \<^item> \<open>outcome_ledger\<close>: what the transfer session relies on when it records the terminal
    outcome of an item: the first outcome of an identifier counts, later ones do not.
  \<^item> \<open>ready_queue\<close>: what the session relies on in the queue between preparation and
    upload: values leave in the order in which they were accepted, none is lost.
  Every locale is interpreted on the model's own definitions in the theory of the
  component that provides it.
\<close>

subsection \<open>Runs of event machines\<close>

fun run_ok :: "('e \<Rightarrow> 's \<Rightarrow> bool) \<Rightarrow> ('e \<Rightarrow> 's \<Rightarrow> 's) \<Rightarrow> 'e list \<Rightarrow> 's \<Rightarrow> bool" where
  "run_ok ok step [] s = True"
| "run_ok ok step (e # es) s = (ok e s \<and> run_ok ok step es (step e s))"

lemma run_ok_True [simp]: "run_ok (\<lambda>_ _. True) step es s"
  by (induction es arbitrary: s) simp_all

locale guarded_machine =
  fixes step :: "'e \<Rightarrow> 's \<Rightarrow> 's"
    and inv :: "'s \<Rightarrow> bool"
    and ok :: "'e \<Rightarrow> 's \<Rightarrow> bool"
  assumes guarded_step: "inv s \<Longrightarrow> ok e s \<Longrightarrow> inv (step e s)"
begin

lemma guarded_run: "inv s \<Longrightarrow> run_ok ok step es s \<Longrightarrow> inv (fold step es s)"
  by (induction es arbitrary: s) (auto intro: guarded_step)

end

locale event_machine =
  fixes step :: "'e \<Rightarrow> 's \<Rightarrow> 's"
    and inv :: "'s \<Rightarrow> bool"
  assumes step_inv: "inv s \<Longrightarrow> inv (step e s)"

sublocale event_machine \<subseteq> guarded_machine step inv "\<lambda>_ _. True"
  by unfold_locales (rule step_inv)

context event_machine
begin

lemma run_inv: "inv s \<Longrightarrow> inv (fold step es s)"
  by (rule guarded_run) simp_all

end

locale transition_inv =
  fixes tr :: "'s \<Rightarrow> 's \<Rightarrow> bool"
    and inv :: "'s \<Rightarrow> bool"
  assumes tr_inv: "tr s t \<Longrightarrow> inv s \<Longrightarrow> inv t"
begin

lemma reach_inv: "tr\<^sup>*\<^sup>* s t \<Longrightarrow> inv s \<Longrightarrow> inv t"
  by (induction rule: rtranclp_induct) (auto intro: tr_inv)

end

subsection \<open>Grouping by key\<close>

locale grouping =
  fixes look :: "'m \<Rightarrow> 'k \<Rightarrow> 'v list"
    and add :: "'k \<Rightarrow> 'v \<Rightarrow> 'm \<Rightarrow> 'm"
  assumes look_add: "look (add k x m) k' = (if k' = k then look m k @ [x] else look m k')"
begin

lemma look_fold_add:
  "look (fold (\<lambda>x. add (key x) x) xs m) k = look m k @ filter (\<lambda>x. key x = k) xs"
  by (induction xs arbitrary: m) (auto simp: look_add)

end

interpretation js_groups: grouping group_of group_push
  by unfold_locales simp

subsection \<open>Recording outcomes\<close>

locale outcome_ledger =
  fixes recorded :: "'s \<Rightarrow> 'id set"
    and total :: "'s \<Rightarrow> nat"
    and mark :: "'e \<Rightarrow> 's \<Rightarrow> 's"
    and ident :: "'e \<Rightarrow> 'id"
  assumes recorded_mark: "recorded (mark e s) = insert (ident e) (recorded s)"
    and total_mark: "total (mark e s) = (if ident e \<in> recorded s then total s else Suc (total s))"
begin

lemma recorded_marks: "recorded (fold mark es s) = recorded s \<union> ident ` set es"
  by (induction es arbitrary: s) (auto simp: recorded_mark)

lemma total_marks_fresh:
  "distinct (map ident es) \<Longrightarrow> (\<And>e. e \<in> set es \<Longrightarrow> ident e \<notin> recorded s)
    \<Longrightarrow> total (fold mark es s) = total s + length es"
proof (induction es arbitrary: s)
  case Nil
  then show ?case by simp
next
  case (Cons e es)
  have "total (fold mark es (mark e s)) = total (mark e s) + length es"
    using Cons.prems by (intro Cons.IH) (auto simp: recorded_mark image_iff)
  then show ?case using Cons.prems by (simp add: total_mark)
qed

lemma total_marks: "finite (recorded s) \<Longrightarrow> total s = card (recorded s)
    \<Longrightarrow> total (fold mark es s) = card (recorded s \<union> ident ` set es)"
proof (induction es arbitrary: s)
  case Nil
  then show ?case by simp
next
  case (Cons e es)
  have "total (mark e s) = card (recorded (mark e s))"
    using Cons.prems by (simp add: recorded_mark total_mark card_insert_if)
  then have "total (fold mark es (mark e s)) = card (recorded (mark e s) \<union> ident ` set es)"
    using Cons.prems by (intro Cons.IH) (simp_all add: recorded_mark)
  then show ?case by (simp add: recorded_mark insert_commute)
qed

end

subsection \<open>The queue between preparation and upload\<close>

locale ready_queue = event_machine step inv
  for step :: "'e \<Rightarrow> 's \<Rightarrow> 's" and inv :: "'s \<Rightarrow> bool" +
  fixes accepted :: "'s \<Rightarrow> 'a list"
    and delivered :: "'s \<Rightarrow> 'a list"
    and pending :: "'s \<Rightarrow> 'a list"
  assumes conserve: "inv s \<Longrightarrow> accepted s = delivered s @ pending s"
begin

lemma run_conserve: "inv s \<Longrightarrow> t = fold step es s \<Longrightarrow> accepted t = delivered t @ pending t"
  by (simp add: conserve run_inv)

lemma run_delivered_once:
  "inv s \<Longrightarrow> t = fold step es s \<Longrightarrow> distinct (accepted t) \<Longrightarrow>
    distinct (delivered t) \<and> set (delivered t) \<inter> set (pending t) = {}"
  using run_conserve by fastforce

lemma run_drained: "inv s \<Longrightarrow> t = fold step es s \<Longrightarrow> pending t = [] \<Longrightarrow> delivered t = accepted t"
  by (simp add: run_conserve)

end

end
