(* ===== verification/ConnectionSecurity.thy ===== *)
theory ConnectionSecurity
  imports Interfaces
begin

text \<open>
  \<open>security/ConnectionSecurity.ts\<close> (certificate fingerprints, the pairing payload of the
  QR code, legacy connection URLs), \<open>config/runtimeEnvironment.ts\<close> and
  \<open>config/storageKeys.ts\<close> (production and test profiles), and the connection types of
  \<open>app/types.ts\<close>. What \<open>JSON.parse\<close> and the \<open>URL\<close> constructor return for the input is an
  argument (\<open>None\<close> when they throw); the build variables are arguments.
\<close>

subsection \<open>runtimeEnvironment.ts and storageKeys.ts\<close>

datatype IosClientEnvironment = Production | Test

fun env_name :: "IosClientEnvironment \<Rightarrow> string" where
  "env_name Production = ''production''"
| "env_name Test = ''test''"

definition configuredIosEnvironment :: "string option \<Rightarrow> IosClientEnvironment option" where
  "configuredIosEnvironment configuredEnvironment =
     (if configuredEnvironment = Some ''production'' then Some Production
      else if configuredEnvironment = Some ''test'' then Some Test else None)"

definition iosClientEnvironment :: "string option \<Rightarrow> bool \<Rightarrow> IosClientEnvironment" where
  "iosClientEnvironment configuredEnvironment nativeAvailable =
     (if \<not> nativeAvailable then Test
      else case configuredIosEnvironment configuredEnvironment of Some e \<Rightarrow> e | None \<Rightarrow> Production)"

definition discoveryPortForEnvironment :: "IosClientEnvironment \<Rightarrow> nat" where
  "discoveryPortForEnvironment environment = (if environment = Test then 45893 else 45892)"

definition environmentStorageKeyForProfile :: "string \<Rightarrow> IosClientEnvironment \<Rightarrow> bool \<Rightarrow> string" where
  "environmentStorageKeyForProfile key environment nativeAvailable =
     (if environment = Production \<and> nativeAvailable then key
      else key @ ''_'' @ env_name environment @ ''_'' @
           (if nativeAvailable then ''installed'' else ''expo-go''))"

definition environmentStorageKey :: "string option \<Rightarrow> string option \<Rightarrow> string \<Rightarrow> bool \<Rightarrow> string" where
  "environmentStorageKey nodeEnv configuredEnvironment key nativeAvailable =
     (if nodeEnv = Some ''test'' then key
      else environmentStorageKeyForProfile key
             (iosClientEnvironment configuredEnvironment nativeAvailable) nativeAvailable)"

definition connectionStorageKeys :: "string list" where
  "connectionStorageKeys =
     [''lmt_device_identity'', ''lmt_device_id'', ''lmt_device_credential'', ''lmt_last_server'',
      ''lmt_nearby_discovery'', ''lmt_allow_insecure_http'', ''lmt_preparation_mode'',
      ''lmt_skip_exact_duplicates'', ''lmt_include_additional_media_components'']"

subsection \<open>ConnectionSecurity.ts\<close>

record PairingPayload =
  pp_environment :: IosClientEnvironment
  pp_serverId :: string
  pp_name :: string
  pp_httpsUrl :: string
  pp_certificateFingerprint :: string
  pp_token :: string
  pp_httpUrl :: "string option"

text \<open>Membership in the character class \<open>[0-9a-f]\<close>.\<close>

definition is_hex :: "char \<Rightarrow> bool" where
  "is_hex c \<longleftrightarrow> (48 \<le> (of_char c :: nat) \<and> (of_char c :: nat) \<le> 57) \<or>
                (97 \<le> (of_char c :: nat) \<and> (of_char c :: nat) \<le> 102)"

definition normalizeFingerprint :: "string \<Rightarrow> string" where
  "normalizeFingerprint s = filter is_hex (toLowerCase s)"

definition optionalString :: "jsval \<Rightarrow> string option" where
  "optionalString v = nonempty_string v"

definition looksLikeJson :: "string \<Rightarrow> bool" where
  "looksLikeJson s \<longleftrightarrow> startsWith (trimStart s) ''{'' \<or> startsWith (trimStart s) ''[''"

definition parse_environment :: "jsval \<Rightarrow> IosClientEnvironment option" where
  "parse_environment v =
     (if v = JStr ''production'' then Some Production
      else if v = JStr ''test'' then Some Test else None)"

text \<open>
  The outcome of \<open>parsePairingPayload\<close>: \<open>Inl version\<close> when it throws
  \<open>UnsupportedPairingPayloadVersionError\<close>.
\<close>

definition parsePairingPayload :: "jsval option \<Rightarrow> jsnum + PairingPayload option" where
  "parsePairingPayload json =
     (case json of
        None \<Rightarrow> Inr None
      | Some parsed \<Rightarrow>
          if \<not> is_object parsed then Inr None
          else if prop_of parsed ''type'' \<noteq> JStr ''lmt-pair'' then Inr None
          else case prop_of parsed ''version'' of
            JNum v \<Rightarrow>
              (if v \<noteq> Fin 3 then Inl v
               else
                 (let fingerprint = normalizeFingerprint
                        (case optionalString (prop_of parsed ''certificateFingerprint'') of
                           Some f \<Rightarrow> f | None \<Rightarrow> []);
                      name = (case optionalString (prop_of parsed ''name'') of
                                Some n \<Rightarrow> n | None \<Rightarrow> ''Desktop'');
                      httpUrl = optionalString (prop_of parsed ''httpUrl'')
                  in case (parse_environment (prop_of parsed ''environment''),
                           optionalString (prop_of parsed ''serverId''),
                           optionalString (prop_of parsed ''httpsUrl''),
                           optionalString (prop_of parsed ''token'')) of
                       (Some environment, Some serverId, Some httpsUrl, Some token) \<Rightarrow>
                         (if \<not> startsWith httpsUrl ''https://'' \<or> length fingerprint \<noteq> 64 \<or>
                             (case httpUrl of Some u \<Rightarrow> \<not> startsWith u ''http://'' | None \<Rightarrow> False)
                          then Inr None
                          else Inr (Some \<lparr>pp_environment = environment, pp_serverId = serverId,
                                          pp_name = name, pp_httpsUrl = httpsUrl,
                                          pp_certificateFingerprint = fingerprint,
                                          pp_token = token, pp_httpUrl = httpUrl\<rparr>))
                     | _ \<Rightarrow> Inr None))
          | _ \<Rightarrow> Inr None)"

text \<open>
  \<open>parseLegacyConnectionUrl\<close>: \<open>url\<close> is what \<open>new URL(value)\<close> gives: the protocol, the
  value of the parameter \<open>token\<close>, and the text of the URL once its search and hash are
  cleared.
\<close>

record LegacyConnectionUrl =
  lc_baseUrl :: string
  lc_token :: string

record parsed_url =
  url_protocol :: string
  url_token :: "string option"
  url_cleared :: string

definition strip_slash :: "string \<Rightarrow> string" where
  "strip_slash s = (if endsWith s ''/'' then butlast s else s)"

definition parseLegacyConnectionUrl ::
  "(string \<Rightarrow> parsed_url option) \<Rightarrow> string \<Rightarrow> LegacyConnectionUrl option" where
  "parseLegacyConnectionUrl new_URL s =
     (if \<not> startsWith s ''http://'' \<and> \<not> startsWith s ''https://'' then None
      else case new_URL s of
             None \<Rightarrow> None
           | Some parsed \<Rightarrow>
               (if url_protocol parsed \<noteq> ''http:'' \<and> url_protocol parsed \<noteq> ''https:'' then None
                else case url_token parsed of
                       None \<Rightarrow> None
                     | Some token \<Rightarrow>
                         (if token = [] then None
                          else Some \<lparr>lc_baseUrl = strip_slash (url_cleared parsed), lc_token = token\<rparr>)))"

subsection \<open>app/types.ts\<close>

datatype ConnectionHealthStatus = H_idle | H_checking | H_connected | H_retrying | H_disconnected

datatype SecurityMode = Mode_disconnected | Mode_https | Mode_http

record ConnectionSecurityState =
  cs_mode :: SecurityMode
  cs_tlsVersion :: "string option"
  cs_certificateVerified :: bool

record SavedConnection =
  sc_environment :: IosClientEnvironment
  sc_serverId :: string
  sc_httpsUrl :: string
  sc_httpUrl :: "string option"
  sc_certificateFingerprint :: string
  sc_name :: "string option"

subsection \<open>Lemmas\<close>

text \<open>A well-formed payload, and the object that the desktop encodes for it.\<close>

definition payload_wf :: "PairingPayload \<Rightarrow> bool" where
  "payload_wf p \<longleftrightarrow>
     pp_serverId p \<noteq> [] \<and> pp_name p \<noteq> [] \<and> startsWith (pp_httpsUrl p) ''https://'' \<and>
     pp_token p \<noteq> [] \<and> length (pp_certificateFingerprint p) = 64 \<and>
     list_all is_hex (pp_certificateFingerprint p) \<and>
     (case pp_httpUrl p of Some u \<Rightarrow> startsWith u ''http://'' | None \<Rightarrow> True)"

definition payload_json :: "PairingPayload \<Rightarrow> jsval" where
  "payload_json p =
     JObj ([(''type'', JStr ''lmt-pair''), (''version'', JNum (Fin 3)),
            (''environment'', JStr (env_name (pp_environment p))),
            (''serverId'', JStr (pp_serverId p)), (''name'', JStr (pp_name p)),
            (''httpsUrl'', JStr (pp_httpsUrl p)),
            (''certificateFingerprint'', JStr (pp_certificateFingerprint p)),
            (''token'', JStr (pp_token p))] @
           (case pp_httpUrl p of Some u \<Rightarrow> [(''httpUrl'', JStr u)] | None \<Rightarrow> []))"

lemma lower_char_hex [simp]: "is_hex c \<Longrightarrow> lower_char c = c"
  by (auto simp: is_hex_def lower_char_def)

lemma normalize_hex: "list_all is_hex (normalizeFingerprint s)"
  by (simp add: normalizeFingerprint_def list_all_iff)

lemma normalize_id: "list_all is_hex s \<Longrightarrow> normalizeFingerprint s = s"
  by (induction s) (simp_all add: normalizeFingerprint_def toLowerCase_def)

lemma optionalString_simps [simp]:
  "optionalString (JStr s) = (if s = [] then None else Some s)" "optionalString JUndefined = None"
  by (simp_all add: optionalString_def nonempty_string_def)

lemma optionalString_SomeD [dest]: "optionalString v = Some s \<Longrightarrow> v = JStr s \<and> s \<noteq> []"
  by (auto simp: optionalString_def)

lemma parse_environment_name [simp]: "parse_environment (JStr (env_name e)) = Some e"
  by (cases e) (simp_all add: parse_environment_def)

lemma parse_environment_SomeD: "parse_environment v = Some e \<Longrightarrow> v = JStr (env_name e)"
  by (auto simp: parse_environment_def split: if_splits)

lemma startsWith_nonempty: "startsWith s p \<Longrightarrow> p \<noteq> [] \<Longrightarrow> s \<noteq> []"
  by (auto simp: startsWith_def)

lemma parsed_payload:
  assumes "parsePairingPayload (Some v) = Inr (Some p)"
  shows "payload_wf p \<and> prop_of v ''type'' = JStr ''lmt-pair'' \<and> prop_of v ''version'' = JNum (Fin 3) \<and>
    prop_of v ''environment'' = JStr (env_name (pp_environment p)) \<and>
    prop_of v ''serverId'' = JStr (pp_serverId p) \<and> prop_of v ''httpsUrl'' = JStr (pp_httpsUrl p) \<and>
    prop_of v ''token'' = JStr (pp_token p)"
  using assms
  by (auto simp: parsePairingPayload_def Let_def payload_wf_def normalize_hex parse_environment_SomeD
      split: if_splits jsval.splits option.splits)

subsection \<open>Properties\<close>

text \<open>
  A pairing payload that is accepted is well formed: whatever \<open>JSON.parse\<close> returned,
  the result has a server identifier, a token, an \<open>https://\<close> address, a fingerprint of
  exactly 64 lower-case hexadecimal digits, at most an \<open>http://\<close> fallback address, and the
  environment, identifier, address and token are those of the scanned object.
\<close>

theorem pairing_payload_accepted:
  assumes "parsePairingPayload (Some v) = Inr (Some p)"
  shows "payload_wf p \<and>
    prop_of v ''environment'' = JStr (env_name (pp_environment p)) \<and>
    prop_of v ''serverId'' = JStr (pp_serverId p) \<and> prop_of v ''httpsUrl'' = JStr (pp_httpsUrl p) \<and>
    prop_of v ''token'' = JStr (pp_token p)"
  using parsed_payload [OF assms] by blast

text \<open>
  Round trip: a payload is well formed exactly if the object that encodes it parses
  back to it; normalizing a fingerprint is idempotent; and an object of another numeric
  version is reported as unsupported instead of being ignored.
\<close>

theorem pairing_payload_roundtrip:
  "(parsePairingPayload (Some (payload_json p)) = Inr (Some p) \<longleftrightarrow> payload_wf p) \<and>
   normalizeFingerprint (normalizeFingerprint s) = normalizeFingerprint s \<and>
   (parsePairingPayload (Some (JObj [(''type'', JStr ''lmt-pair''), (''version'', JNum n)])) =
      (if n = Fin 3 then Inr None else Inl n))"
proof (intro conjI iffI)
  assume "payload_wf p"
  then show "parsePairingPayload (Some (payload_json p)) = Inr (Some p)"
    by (cases "pp_httpUrl p")
      (auto simp: parsePairingPayload_def payload_json_def payload_wf_def Let_def normalize_id
        startsWith_nonempty dest: startsWith_nonempty)
next
  assume "parsePairingPayload (Some (payload_json p)) = Inr (Some p)"
  then show "payload_wf p" using parsed_payload by blast
next
  show "normalizeFingerprint (normalizeFingerprint s) = normalizeFingerprint s"
    by (simp add: normalize_id normalize_hex)
qed (simp add: parsePairingPayload_def Let_def parse_environment_def normalizeFingerprint_def)

text \<open>
  Profiles are isolated: the stored settings of a production app, a test app and Expo
  Go never share a key, and within a profile different settings have different keys.
\<close>

theorem storage_keys_isolated:
  assumes "k \<in> set connectionStorageKeys" and "k' \<in> set connectionStorageKeys"
    and "environmentStorageKeyForProfile k e n = environmentStorageKeyForProfile k' e' n'"
  shows "k = k' \<and> e = e' \<and> n = n'"
  using assms
  by (cases e; cases e'; cases n; cases n')
    (auto simp: connectionStorageKeys_def environmentStorageKeyForProfile_def)

theorem storage_keys_isolated_witness:
  "environmentStorageKeyForProfile ''lmt_last_server'' Test True \<noteq>
   environmentStorageKeyForProfile ''lmt_last_server'' Production True"
proof
  assume "environmentStorageKeyForProfile ''lmt_last_server'' Test True =
    environmentStorageKeyForProfile ''lmt_last_server'' Production True"
  from storage_keys_isolated [OF _ _ this] show False by (simp add: connectionStorageKeys_def)
qed

theorem pairing_payload_accepted_witness:
  "let p = \<lparr>pp_environment = Test, pp_serverId = ''s'', pp_name = ''n'', pp_httpsUrl = ''https://h'',
            pp_certificateFingerprint = replicate 64 CHR ''a'', pp_token = ''t'', pp_httpUrl = None\<rparr>
   in parsePairingPayload (Some (payload_json p)) = Inr (Some p) \<and> payload_wf p"
proof -
  let ?p = "\<lparr>pp_environment = Test, pp_serverId = ''s'', pp_name = ''n'', pp_httpsUrl = ''https://h'',
     pp_certificateFingerprint = replicate 64 CHR ''a'', pp_token = ''t'', pp_httpUrl = None\<rparr>"
  have "list_all is_hex (replicate 64 CHR ''a'')" by (simp add: list_all_iff is_hex_def)
  then have "parsePairingPayload (Some (payload_json ?p)) = Inr (Some ?p)"
    using normalize_id [of "replicate 64 CHR ''a''"]
    by (simp add: parsePairingPayload_def payload_json_def Let_def parse_environment_def startsWith_def)
  with pairing_payload_accepted [OF this] show ?thesis by simp
qed

end
