(* ===== verification/UploadTypes.thy ===== *)
theory UploadTypes
  imports Interfaces
begin

text \<open>
  The data of the upload services: \<open>services/upload/errors.ts\<close>, \<open>mediaVariants.ts\<close>,
  \<open>types.ts\<close>, \<open>api/errors.ts\<close>, the preflight types of \<open>api/types.ts\<close> and
  \<open>MediaAsset\<close> of \<open>MediaScanner.ts\<close>. A union of string literals is a datatype with one
  constructor per literal; an object type is a record whose field names carry a short
  prefix (Isabelle fields share one name space); an optional property is an \<open>option\<close>.
\<close>

subsection \<open>errors.ts\<close>

datatype TransferStage =
    Stage_rendition | Stage_metadata | Stage_filename | Stage_preflight
  | Stage_upload | Stage_network | Stage_server

datatype TransferErrorCode =
    Asset_info_unavailable
  | File_missing
  | File_size_unavailable
  | Temporary_storage_limit
  | Invalid_prepared_file
  | Icloud_resource_unavailable
  | Prepared_file_not_owned
  | File_changed
  | Native_hashing_unavailable
  | Asset_not_found
  | Resource_not_found
  | Invalid_filename_request
  | Filename_resolution_failed
  | Preflight_unavailable
  | File_empty
  | File_read_failed
  | Request_timeout
  | Unauthorized
  | Server_rejected
  | Upload_failed
  | Cancelled
  | Unexpected

fun userMessages :: "TransferErrorCode \<Rightarrow> string" where
  "userMessages Asset_info_unavailable = ''The selected item could not be loaded from Photos.''"
| "userMessages File_missing = ''The selected item is not currently available on this iPhone.''"
| "userMessages File_size_unavailable = ''The selected item size could not be read.''"
| "userMessages Temporary_storage_limit = ''This iPhone does not have enough free space to prepare this media item. Free storage, then retry. For smaller selections, Settings > Transfer while preparing reduces temporary storage use.''"
| "userMessages Invalid_prepared_file = ''The prepared media item could not be registered safely. Try selecting it again.''"
| "userMessages Icloud_resource_unavailable = ''The original is stored in iCloud. Download it in Photos, then retry the transfer.''"
| "userMessages Prepared_file_not_owned = ''The prepared file is no longer part of this transfer. Prepare the selection again.''"
| "userMessages File_changed = ''The prepared file changed while duplicates were being checked. Prepare it again.''"
| "userMessages Native_hashing_unavailable = ''Native duplicate checking is unavailable in this installed app. Reinstall or update the app before retrying.''"
| "userMessages Asset_not_found = ''Photos could not find the selected item.''"
| "userMessages Resource_not_found = ''Photos did not provide the original filename for this item.''"
| "userMessages Invalid_filename_request = ''The selected item had invalid filename information.''"
| "userMessages Filename_resolution_failed = ''The original filename could not be verified.''"
| "userMessages Preflight_unavailable = ''The desktop duplicate check was unavailable.''"
| "userMessages File_empty = ''The selected item contains no transferable data.''"
| "userMessages File_read_failed = ''The selected item could not be read.''"
| "userMessages Request_timeout = ''The desktop did not respond in time.''"
| "userMessages Unauthorized = ''The desktop session changed. Scan the current QR code to reconnect.''"
| "userMessages Server_rejected = ''The desktop rejected this file.''"
| "userMessages Upload_failed = ''The file could not be uploaded.''"
| "userMessages Cancelled = ''The transfer was cancelled.''"
| "userMessages Unexpected = ''An unexpected transfer error occurred.''"

record TransferFailure =
  tf_stage :: TransferStage
  tf_code :: TransferErrorCode
  tf_fatal :: bool

definition new_TransferFailure :: "TransferStage \<Rightarrow> TransferErrorCode \<Rightarrow> bool \<Rightarrow> TransferFailure" where
  "new_TransferFailure stage code fatal = \<lparr>tf_stage = stage, tf_code = code, tf_fatal = fatal\<rparr>"

text \<open>
  What a \<open>catch\<close> clause can receive: a \<open>TransferFailure\<close>, an \<open>ApiRequestError\<close> (its
  message and HTTP status), or any other \<open>Error\<close> (its message).
\<close>

datatype thrown =
    Thrown_failure TransferFailure
  | Thrown_api string int
  | Thrown_error string

fun transferFailure :: "thrown \<Rightarrow> TransferStage \<Rightarrow> TransferErrorCode \<Rightarrow> TransferFailure" where
  "transferFailure (Thrown_failure f) stage fallbackCode = f"
| "transferFailure _ stage fallbackCode = new_TransferFailure stage fallbackCode False"

definition transferErrorMessage :: "TransferErrorCode \<Rightarrow> string" where
  "transferErrorMessage code = userMessages code"

fun isUnauthorizedError :: "thrown \<Rightarrow> bool" where
  "isUnauthorizedError (Thrown_api message status) = (status = 401)"
| "isUnauthorizedError _ = False"

subsection \<open>mediaVariants.ts\<close>

datatype MediaVariantRole =
    Original_photo | Original_video | Raw_original | Jpeg_companion | Live_photo_still
  | Live_photo_motion | Edited_photo | Edited_video | Edited_live_photo_still
  | Expo_fallback | Unknown_role

datatype MediaComponentSemantics = Primary | Optional

datatype MediaMaterializationPath =
    Photo_resource | Video_resource | Raw_resource | Live_photo_motion_path
  | Current_image | Current_video | Expo_direct

definition ROLE_SET :: "(string \<times> MediaVariantRole) list" where
  "ROLE_SET =
     [(''original-photo'', Original_photo),
      (''original-video'', Original_video),
      (''raw-original'', Raw_original),
      (''jpeg-companion'', Jpeg_companion),
      (''live-photo-still'', Live_photo_still),
      (''live-photo-motion'', Live_photo_motion),
      (''edited-photo'', Edited_photo),
      (''edited-video'', Edited_video),
      (''edited-live-photo-still'', Edited_live_photo_still),
      (''expo-fallback'', Expo_fallback),
      (''unknown'', Unknown_role)]"

text \<open>The type guard together with the narrowed value.\<close>

fun isMediaVariantRole :: "jsval \<Rightarrow> MediaVariantRole option" where
  "isMediaVariantRole (JStr s) = map_of ROLE_SET s"
| "isMediaVariantRole _ = None"

fun mediaVariantLabel :: "MediaVariantRole \<Rightarrow> string" where
  "mediaVariantLabel Original_photo = ''Original photo''"
| "mediaVariantLabel Original_video = ''Original video''"
| "mediaVariantLabel Raw_original = ''RAW original''"
| "mediaVariantLabel Jpeg_companion = ''JPEG companion''"
| "mediaVariantLabel Live_photo_still = ''Live Photo still''"
| "mediaVariantLabel Live_photo_motion = ''Live Photo motion''"
| "mediaVariantLabel Edited_photo = ''Current edited photo''"
| "mediaVariantLabel Edited_video = ''Current edited video''"
| "mediaVariantLabel Edited_live_photo_still = ''Current edited Live Photo still''"
| "mediaVariantLabel Expo_fallback = ''Expo compatibility file''"
| "mediaVariantLabel Unknown_role = ''Media file''"

definition mediaComponentFailureMessage ::
  "MediaVariantRole \<Rightarrow> MediaComponentSemantics \<Rightarrow> string \<Rightarrow> string" where
  "mediaComponentFailureMessage role semantics message =
     (let component = mediaVariantLabel role
      in if semantics = Optional
         then ''Optional '' @ toLowerCase component @
              '' failed. The main media can still transfer. '' @ message
         else message)"

subsection \<open>MediaAsset, api/types.ts and types.ts\<close>

datatype MediaType = Photo | Video

record MediaAsset =
  ma_id :: string
  ma_uri :: string
  ma_type :: MediaType
  ma_duration :: "number option"
  ma_modificationTime :: number
  ma_width :: number
  ma_height :: number
  ma_filename :: string

datatype PreflightAction = Upload | Skip | Hash_required

record PreflightFile =
  pff_id :: string
  pff_name :: string
  pff_size :: number

record PreflightVerifyFile = PreflightFile +
  pvf_sha256 :: string

record PreflightFileResult =
  pfr_id :: string
  pfr_action :: PreflightAction
  pfr_filename :: "string option"
  pfr_inconclusive :: bool

type_synonym PreflightResponse = "PreflightFileResult list"

datatype FileStatus = St_pending | St_uploading | St_success | St_error | St_skipped

datatype ThermalState = Nominal | Fair | Serious | Critical

datatype ThermalPolicy = Monitor_only | Adaptive

datatype PreparationMode = Prepare_first | Streaming

datatype TransferCompletionStatus = Completed | Mixed | Cancelled_status | Fatal

datatype PreparationActivity = Act_preparing | Act_checking | Act_waiting | Act_complete

datatype DuplicateCheckStage = Finding_matches | Checking_contents | Verifying_windows

datatype FilenameSource = Apple_resource | Expo_fallback_name

datatype DuplicateSource = Receiver_preflight | Outgoing_selection

record PreparedUploadFile =
  puf_asset :: MediaAsset
  puf_variantId :: string
  puf_mediaRole :: MediaVariantRole
  puf_componentSemantics :: MediaComponentSemantics
  puf_originalFilename :: string
  puf_fileRef :: nat
  puf_windowIndex :: nat
  puf_nativeUri :: string
  puf_size :: number
  puf_computedHash :: string
  puf_transferFilename :: string
  puf_filenameSource :: FilenameSource
  puf_temporary :: bool
  puf_contentType :: "string option"
  puf_materializationPath :: "MediaMaterializationPath option"
  puf_materializationDurationMs :: "number option"
  puf_temporaryBytesWritten :: "number option"
  puf_preflightAction :: "PreflightAction option"
  puf_duplicateMatchedFilename :: "string option"
  puf_duplicateSource :: "DuplicateSource option"
  puf_preflightFailureCode :: "TransferErrorCode option"

record PreparationFailure =
  pfl_asset :: MediaAsset
  pfl_itemId :: string
  pfl_mediaRole :: "MediaVariantRole option"
  pfl_componentSemantics :: "MediaComponentSemantics option"
  pfl_originalFilename :: "string option"
  pfl_fileRef :: nat
  pfl_windowIndex :: nat
  pfl_stage :: TransferStage
  pfl_code :: TransferErrorCode

record PreparedWindow =
  pw_windowIndex :: nat
  pw_files :: "PreparedUploadFile list"
  pw_failures :: "PreparationFailure list"
  pw_preparationDurationMs :: number
  pw_filenameResolutionDurationMs :: number
  pw_filenameResolutionAppleCount :: nat
  pw_discoveredBytes :: number
  pw_selectedMediaBytes :: number
  pw_additionalComponentsBytes :: number
  pw_selectedMediaFiles :: nat
  pw_additionalComponentsFiles :: nat

record PreparationResult =
  prs_fileInfos :: "PreparedUploadFile list"
  prs_preparationDurationMs :: number
  prs_filenameResolutionDurationMs :: number
  prs_filenameResolutionBatchCount :: nat
  prs_filenameResolutionAppleCount :: nat
  prs_filenameResolutionFallbackCount :: int
  prs_filenameResolutionMaxBatchSize :: nat
  prs_totalBytesToUpload :: number
  prs_selectedMediaBytes :: number
  prs_additionalComponentsBytes :: number
  prs_selectedMediaFiles :: nat
  prs_additionalComponentsFiles :: nat

record DuplicatePreflightMetrics =
  componentsConsidered :: number
  bypassedFiles :: number
  metadataUploadFiles :: number
  metadataFallbackFiles :: number
  receiverCandidateFiles :: number
  localCandidateFiles :: number
  hashCandidateFiles :: number
  hashedFiles :: number
  hashAttemptCount :: number
  hashCacheHits :: number
  hashFailureFiles :: number
  hashedBytes :: number
  hashedThenUploadedFiles :: number
  hashedThenUploadedBytes :: number
  receiverSkippedFiles :: number
  receiverSkippedBytes :: number
  outgoingSkippedFiles :: number
  outgoingSkippedBytes :: number
  metadataRequestCount :: number
  metadataFailureCount :: number
  verificationRequestCount :: number
  verificationFailureCount :: number
  verificationInconclusiveFiles :: number
  metadataDurationMs :: number
  hashingDurationMs :: number
  verificationDurationMs :: number
  candidateResolutionDurationMs :: number
  totalHashWorkerDurationMs :: number
  longestHashDurationMs :: number
  largestHashedFileBytes :: number
  nonCandidateFilesBlockedByHash :: number
  nonCandidateBytesBlockedByHash :: number
  preparedBytesHeldDuringPreflight :: number
  temporaryBytesHeldDuringPreflight :: number

record PreflightResult =
  pr_preflightResults :: "(string, PreflightAction) jsmap"
  pr_matchedFilenames :: "(string, string) jsmap"
  pr_duplicateSources :: "(string, DuplicateSource) jsmap"
  pr_computedHashes :: "(string, string) jsmap"
  pr_hashFailureCodes :: "(string, TransferErrorCode) jsmap"
  pr_preflightDurationMs :: number
  pr_failureCount :: nat
  pr_candidateCount :: nat
  pr_checkedCount :: nat
  pr_metrics :: DuplicatePreflightMetrics

datatype ProgressStatus =
    Pg_preparing | Pg_checking | Pg_waiting | Pg_uploading | Pg_skipped | Pg_failed

datatype ThermalControl = Control_normal | Control_reduced | Control_paused

record GlobalProgress =
  gp_bytesSent :: number
  gp_totalBytes :: number
  gp_acknowledgedMediaBytes :: number
  gp_plannedUploadMediaBytes :: number
  gp_rateSampledAt :: number
  gp_currentMediaMBps :: number
  gp_averageMediaMBps :: number
  gp_peakMediaMBps :: number
  gp_currentEncodedMBps :: number
  gp_currentIndex :: nat
  gp_currentAsset :: MediaAsset
  gp_status :: "ProgressStatus option"
  gp_preparationActivity :: "PreparationActivity option"
  gp_preparedFiles :: "nat option"
  gp_readyFiles :: "nat option"
  gp_preparationComplete :: "bool option"
  gp_discoveredBytes :: "number option"
  gp_totalFiles :: "nat option"
  gp_checkedFiles :: "nat option"
  gp_duplicateCandidates :: "nat option"
  gp_duplicateCheckStage :: "DuplicateCheckStage option"
  gp_batchIndex :: "nat option"
  gp_totalBatches :: "nat option"
  gp_thermalState :: "ThermalState option"
  gp_thermalControl :: "ThermalControl option"
  gp_preparationMode :: "PreparationMode option"
  gp_automaticallyStreamsLargeSelection :: "bool option"

record UploadSummary =
  us_sessionId :: string
  us_selectedAssets :: nat
  us_expandedFiles :: nat
  us_selectedFiles :: nat
  us_uploadedFiles :: nat
  us_skippedFiles :: nat
  us_failedFiles :: nat
  us_selectedBytes :: number
  us_selectedMediaBytes :: number
  us_additionalComponentsBytes :: number
  us_selectedMediaFiles :: nat
  us_additionalComponentsFiles :: nat
  us_byteTotalComplete :: bool
  us_uploadedBytes :: number
  us_skippedBytes :: number
  us_avoidedBytes :: number
  us_finalizationDuplicateBytes :: number
  us_preparationDurationMs :: "number option"
  us_uploadDurationMs :: number
  us_averageMediaMBps :: number
  us_peakMediaMBps :: number
  us_completionStatus :: TransferCompletionStatus
  us_diagnosticReportAvailable :: bool

record FileStatusUpdate =
  fsu_assetId :: string
  fsu_itemId :: "string option"
  fsu_mediaRole :: "MediaVariantRole option"
  fsu_componentSemantics :: "MediaComponentSemantics option"
  fsu_fileRef :: "nat option"
  fsu_status :: FileStatus
  fsu_transferFilename :: string
  fsu_savedFilename :: "string option"
  fsu_message :: "string option"
  fsu_stage :: "TransferStage option"
  fsu_errorCode :: "TransferErrorCode option"

text \<open>\<open>UploadObserver\<close>: each callback invocation is one observable event.\<close>

datatype UploadObserver =
    OnProgress GlobalProgress
  | OnComplete UploadSummary
  | OnError thrown "UploadSummary option"
  | OnFileStatusChange FileStatusUpdate
  | OnThermalStateChange ThermalState

record UploadOptions =
  uo_preparationMode :: PreparationMode
  uo_thermalPolicy :: "ThermalPolicy option"
  uo_skipExactDuplicates :: "bool option"
  uo_includeAdditionalMediaComponents :: "bool option"

subsection \<open>transferLimits.ts\<close>

definition MaxChunksPerFile :: nat where "MaxChunksPerFile = 10000"
definition MaxFileBytes :: number where "MaxFileBytes = 107374182400"
definition MaxQueuedFiles :: nat where "MaxQueuedFiles = 1000"
definition NativeChunkBytes :: number where "NativeChunkBytes = 8388608"
definition CompatibilityChunkBytes :: number where "CompatibilityChunkBytes = 4194304"
definition WholeFileBytes :: number where "WholeFileBytes = 104857600"
definition MaxChunkBytes :: number where "MaxChunkBytes = 67108864"
definition MaxEncodedChunkBytes :: number where "MaxEncodedChunkBytes = 94371840"

lemmas limit_defs = MaxChunksPerFile_def MaxFileBytes_def MaxQueuedFiles_def NativeChunkBytes_def
  CompatibilityChunkBytes_def WholeFileBytes_def MaxChunkBytes_def MaxEncodedChunkBytes_def

subsection \<open>Lemmas\<close>

lemma transferFailure_keeps_failure:
  "transferFailure e stage code = f \<Longrightarrow>
    (\<exists>g. e = Thrown_failure g \<and> f = g) \<or> f = new_TransferFailure stage code False"
  by (cases e) auto

lemma not_unauthorized_failure [simp]: "\<not> isUnauthorizedError (Thrown_failure f)"
  by simp

lemma lower_char_lower_char [simp]: "lower_char (lower_char c) = lower_char c"
proof (cases "65 \<le> (of_char c :: nat) \<and> (of_char c :: nat) \<le> 90")
  case True
  then have "(of_char (char_of ((of_char c :: nat) + 32) :: char) :: nat) = of_char c + 32"
    by simp
  with True show ?thesis by (simp add: lower_char_def)
next
  case False
  then show ?thesis by (auto simp: lower_char_def)
qed

lemma toLowerCase_idem [simp]: "toLowerCase (toLowerCase s) = toLowerCase s"
  by (simp add: toLowerCase_def)

lemma mediaVariantLabel_inj: "mediaVariantLabel r = mediaVariantLabel r' \<Longrightarrow> r = r'"
  by (cases r; cases r') simp_all

lemma userMessages_not_Nil: "userMessages c \<noteq> []"
  by (cases c) simp_all

end
