(* ===== verification/NativeBridge.thy ===== *)
theory NativeBridge
  imports UploadTypes ConnectionSecurity
begin

text \<open>
  \<open>services/NativeCapabilities.ts\<close> and \<open>services/nativeEvents.ts\<close>: the validation of the
  untyped values that cross the bridge from the installed app's Swift module. The module
  is a parameter (\<open>None\<close> where it is not installed); its answers are \<open>jsval\<close>s. A number
  that is only checked to be a \<open>number\<close> stays a \<open>jsnum\<close>, because \<open>NaN\<close> and the
  infinities pass such a check.
\<close>

subsection \<open>nativeEvents.ts\<close>

record NativeProgressEvent =
  npe_fileId :: string
  npe_bytesSent :: number
  npe_totalBytes :: number

definition nativeEventRecord :: "jsval \<Rightarrow> jsval" where
  "nativeEventRecord v = (if is_object v then v else JObj [])"

definition parseNativeProgressEvent :: "jsval \<Rightarrow> NativeProgressEvent option" where
  "parseNativeProgressEvent v =
     (let event = nativeEventRecord v
      in case (as_string (prop_of event ''fileId''), as_number (prop_of event ''bytesSent''),
               as_number (prop_of event ''totalBytes'')) of
           (Some fileId, Some bytesSent, Some totalBytes) \<Rightarrow>
             (if \<not> isFinite bytesSent \<or> \<not> isFinite totalBytes \<or>
                 fin_val bytesSent < 0 \<or> fin_val totalBytes < 0
              then None
              else Some \<lparr>npe_fileId = fileId, npe_bytesSent = fin_val bytesSent,
                         npe_totalBytes = fin_val totalBytes\<rparr>)
         | _ \<Rightarrow> None)"

subsection \<open>Types\<close>

record DiscoveredServer =
  ds_serverId :: string
  ds_name :: string
  ds_address :: string
  ds_httpsPort :: nat
  ds_certificateFingerprint :: string
  ds_httpPort :: "nat option"
  ds_approvalRequired :: bool
  ds_environment :: IosClientEnvironment

record NativeUploadSuccessResult =
  nus_bytesSent :: jsnum
  nus_skipped :: bool
  nus_chunkCount :: jsnum
  nus_chunkSizeBytes :: jsnum
  nus_fileReadDurationMs :: jsnum
  nus_httpRequestDurationMs :: jsnum
  nus_interChunkGapDurationMs :: jsnum
  nus_retryCount :: jsnum
  nus_peakResidentMemoryBytes :: jsnum
  nus_serverWriteDurationMs :: jsnum
  nus_serverFinalizeDurationMs :: jsnum
  nus_transferFilename :: string
  nus_savedFilename :: "string option"

record NativeUploadFailureResult =
  nuf_errorCode :: TransferErrorCode
  nuf_httpStatus :: jsnum
  nuf_bytesSent :: jsnum
  nuf_transferFilename :: string

datatype NativeUploadResult =
    Upload_success NativeUploadSuccessResult
  | Upload_failure NativeUploadFailureResult

record NativeFilenameResolutionRequest =
  nfq_assetId :: string
  nfq_uri :: string
  nfq_fallbackFilename :: string

datatype NativeFilenameResolution =
    Filename_resolved string string FilenameSource
  | Filename_failed string TransferErrorCode

record NativePreparationRequest =
  npq_fileRef :: nat
  npq_assetId :: string

record NativeReleaseMetrics =
  nrm_materializationPath :: MediaMaterializationPath
  nrm_temporaryBytesWritten :: number
  nrm_temporaryLifetimeMs :: number

text \<open>The part that both alternatives of \<open>NativePreparationResult\<close> share, and the rest.\<close>

record native_component =
  nc_fileRef :: nat
  nc_assetId :: "string option"
  nc_variantId :: string
  nc_mediaRole :: MediaVariantRole
  nc_componentSemantics :: MediaComponentSemantics
  nc_originalFilename :: string

record native_ready =
  nr_localUri :: string
  nr_sizeBytes :: jsnum
  nr_transferFilename :: string
  nr_contentType :: "string option"
  nr_temporary :: bool
  nr_materializationPath :: MediaMaterializationPath
  nr_materializationDurationMs :: number
  nr_temporaryBytesWritten :: number

datatype NativePreparationResult =
    Prep_ready native_component native_ready
  | Prep_failed native_component TransferStage TransferErrorCode

record NativeHashRequest =
  nhq_variantId :: string
  nhq_localUri :: string
  nhq_expectedSizeBytes :: number

record hash_cost =
  hc_bytesRead :: number
  hc_durationMs :: number

datatype NativeHashResult =
    Hash_success string string hash_cost bool
  | Hash_failed string TransferErrorCode hash_cost

fun hash_variantId :: "NativeHashResult \<Rightarrow> string" where
  "hash_variantId (Hash_success i _ _ _) = i"
| "hash_variantId (Hash_failed i _ _) = i"

fun hash_cost_of :: "NativeHashResult \<Rightarrow> hash_cost" where
  "hash_cost_of (Hash_success _ _ c _) = c"
| "hash_cost_of (Hash_failed _ _ c) = c"

subsection \<open>Validation\<close>

definition parseFilenameResolution :: "jsval \<Rightarrow> NativeFilenameResolution option" where
  "parseFilenameResolution v =
     (if \<not> is_object v then None
      else
        (let assetId = string_or_empty (prop_of v ''assetId'')
         in if assetId = [] then None
            else if prop_of v ''status'' = JStr ''failed''
            then map_option (Filename_failed assetId)
                   (map_of [(JStr ''invalid-filename-request'', Invalid_filename_request),
                            (JStr ''asset-not-found'', Asset_not_found),
                            (JStr ''resource-not-found'', Resource_not_found)]
                      (prop_of v ''errorCode''))
            else
              (let filename = string_or_empty (prop_of v ''filename'')
               in case map_of [(JStr ''apple-resource'', Apple_resource),
                               (JStr ''expo-fallback'', Expo_fallback_name)]
                         (prop_of v ''source'') of
                    Some source \<Rightarrow>
                      (if prop_of v ''status'' \<noteq> JStr ''resolved'' \<or> filename = [] then None
                       else Some (Filename_resolved assetId filename source))
                  | None \<Rightarrow> None)))"

definition materializationPaths :: "(string \<times> MediaMaterializationPath) list" where
  "materializationPaths =
     [(''photo-resource'', Photo_resource), (''video-resource'', Video_resource),
      (''raw-resource'', Raw_resource), (''live-photo-motion'', Live_photo_motion_path),
      (''current-image'', Current_image), (''current-video'', Current_video),
      (''expo-direct'', Expo_direct)]"

definition materialization_path :: "jsval \<Rightarrow> MediaMaterializationPath option" where
  "materialization_path v = (case as_string v of Some s \<Rightarrow> map_of materializationPaths s | None \<Rightarrow> None)"

definition prep_stages :: "(jsval \<times> TransferStage) list" where
  "prep_stages = [(JStr ''rendition'', Stage_rendition), (JStr ''metadata'', Stage_metadata),
                  (JStr ''filename'', Stage_filename)]"

definition prep_codes :: "(jsval \<times> TransferErrorCode) list" where
  "prep_codes =
     [(JStr ''invalid-filename-request'', Invalid_filename_request),
      (JStr ''asset-not-found'', Asset_not_found),
      (JStr ''resource-not-found'', Resource_not_found),
      (JStr ''asset-info-unavailable'', Asset_info_unavailable),
      (JStr ''file-missing'', File_missing),
      (JStr ''file-empty'', File_empty),
      (JStr ''file-size-unavailable'', File_size_unavailable),
      (JStr ''temporary-storage-limit'', Temporary_storage_limit),
      (JStr ''invalid-prepared-file'', Invalid_prepared_file),
      (JStr ''icloud-resource-unavailable'', Icloud_resource_unavailable),
      (JStr ''cancelled'', Cancelled)]"

definition parse_fileRef :: "jsval \<Rightarrow> nat" where
  "parse_fileRef v = (case as_number v of Some n \<Rightarrow> (if isInteger n then nat \<lfloor>fin_val n\<rfloor> else 0) | None \<Rightarrow> 0)"

definition parse_ready :: "jsval \<Rightarrow> native_component \<Rightarrow> NativePreparationResult option" where
  "parse_ready v c =
     (let localUri = string_or_empty (prop_of v ''localUri'');
          sizeBytes = (case as_number (prop_of v ''sizeBytes'') of Some n \<Rightarrow> n | None \<Rightarrow> Fin 0);
          transferFilename = string_or_empty (prop_of v ''transferFilename'')
      in if localUri = [] \<or> num_le sizeBytes (Fin 0) \<or> transferFilename = [] then None
         else Some (Prep_ready
                (c\<lparr>nc_originalFilename := (if nc_originalFilename c = [] then transferFilename
                                          else nc_originalFilename c)\<rparr>)
                \<lparr>nr_localUri = localUri, nr_sizeBytes = sizeBytes, nr_transferFilename = transferFilename,
                 nr_contentType = as_string (prop_of v ''contentType''),
                 nr_temporary = (prop_of v ''temporary'' = JBool True),
                 nr_materializationPath =
                   (case materialization_path (prop_of v ''materializationPath'') of
                      Some p \<Rightarrow> p | None \<Rightarrow> Photo_resource),
                 nr_materializationDurationMs = nonneg_or_zero (prop_of v ''materializationDurationMs''),
                 nr_temporaryBytesWritten = nonneg_or_zero (prop_of v ''temporaryBytesWritten'')\<rparr>))"

definition parseNativePreparationResult :: "jsval \<Rightarrow> NativePreparationResult option" where
  "parseNativePreparationResult v =
     (if \<not> is_object v then None
      else
        (let fileRef = parse_fileRef (prop_of v ''fileRef'')
         in if fileRef = 0 then None
            else
              (let c = \<lparr>nc_fileRef = fileRef,
                        nc_assetId = nonempty_string (prop_of v ''assetId''),
                        nc_variantId = (case nonempty_string (prop_of v ''variantId'') of
                                          Some s \<Rightarrow> s | None \<Rightarrow> ''prepared-'' @ show_nat fileRef),
                        nc_mediaRole = (case isMediaVariantRole (prop_of v ''mediaRole'') of
                                          Some r \<Rightarrow> r | None \<Rightarrow> Unknown_role),
                        nc_componentSemantics =
                          (if prop_of v ''componentSemantics'' = JStr ''optional'' then Optional else Primary),
                        nc_originalFilename = string_or_empty (prop_of v ''originalFilename'')\<rparr>
               in if prop_of v ''status'' = JStr ''ready'' then parse_ready v c
                  else if prop_of v ''status'' \<noteq> JStr ''failed'' then None
                  else case (map_of prep_stages (prop_of v ''stage''),
                             map_of prep_codes (prop_of v ''errorCode'')) of
                         (Some stage, Some code) \<Rightarrow> Some (Prep_failed c stage code)
                       | _ \<Rightarrow> None)))"

definition is_sha256 :: "string \<Rightarrow> bool" where
  "is_sha256 s \<longleftrightarrow> length s = 64 \<and> list_all is_hex s"

definition parseNativeHashResult :: "jsval \<Rightarrow> NativeHashResult option" where
  "parseNativeHashResult v =
     (if \<not> is_object v then None
      else
        (let variantId = string_or_empty (prop_of v ''variantId'');
             cost = \<lparr>hc_bytesRead = nonneg_or_zero (prop_of v ''bytesRead''),
                     hc_durationMs = nonneg_or_zero (prop_of v ''durationMs'')\<rparr>
         in if variantId = [] then None
            else if prop_of v ''status'' = JStr ''success''
            then (let sha256 = toLowerCase (string_or_empty (prop_of v ''sha256''))
                  in if is_sha256 sha256
                     then Some (Hash_success variantId sha256 cost (prop_of v ''cacheHit'' = JBool True))
                     else None)
            else if prop_of v ''status'' = JStr ''failed''
            then map_option (\<lambda>code. Hash_failed variantId code cost)
                   (map_of [(JStr ''prepared-file-not-owned'', Prepared_file_not_owned),
                            (JStr ''file-changed'', File_changed),
                            (JStr ''file-read-failed'', File_read_failed),
                            (JStr ''cancelled'', Cancelled)]
                      (prop_of v ''errorCode''))
            else None))"

definition parseThermalState :: "jsval \<Rightarrow> ThermalState" where
  "parseThermalState v =
     (if v = JStr ''fair'' then Fair else if v = JStr ''serious'' then Serious
      else if v = JStr ''critical'' then Critical else Nominal)"

definition upload_bytesSent :: "jsval \<Rightarrow> jsnum" where
  "upload_bytesSent v = (case as_number v of Some n \<Rightarrow> (if num_le (Fin 0) n then n else Fin 0) | None \<Rightarrow> Fin 0)"

definition numericFields :: "string list" where
  "numericFields = [''chunkCount'', ''chunkSizeBytes'', ''fileReadDurationMs'', ''httpRequestDurationMs'',
     ''interChunkGapDurationMs'', ''retryCount'', ''peakResidentMemoryBytes'', ''serverWriteDurationMs'',
     ''serverFinalizeDurationMs'']"

definition num_field :: "jsval \<Rightarrow> string \<Rightarrow> jsnum" where
  "num_field v k = (case as_number (prop_of v k) of Some n \<Rightarrow> n | None \<Rightarrow> NaN)"

definition parseNativeUploadResult :: "jsval \<Rightarrow> string + NativeUploadResult" where
  "parseNativeUploadResult v =
     (if \<not> is_object v then Inl ''Native upload returned an invalid result''
      else
        (let bytesSent = upload_bytesSent (prop_of v ''bytesSent'');
             transferFilename = string_or_empty (prop_of v ''transferFilename'')
         in if prop_of v ''status'' = JStr ''failed''
            then (case map_of [(JStr ''unauthorized'', Unauthorized), (JStr ''server-rejected'', Server_rejected)]
                         (prop_of v ''errorCode'') of
                    Some errorCode \<Rightarrow>
                      (if transferFilename = [] then Inl ''Native upload returned an invalid failure''
                       else Inr (Upload_failure
                         \<lparr>nuf_errorCode = errorCode,
                          nuf_httpStatus = (case as_number (prop_of v ''httpStatus'') of
                                              Some n \<Rightarrow> n | None \<Rightarrow> Fin 0),
                          nuf_bytesSent = bytesSent, nuf_transferFilename = transferFilename\<rparr>))
                  | None \<Rightarrow> Inl ''Native upload returned an invalid failure'')
            else if prop_of v ''status'' \<noteq> JStr ''success'' \<or> transferFilename = [] \<or>
                    list_ex (\<lambda>k. as_number (prop_of v k) = None) numericFields
            then Inl ''Native upload returned an invalid success result''
            else Inr (Upload_success
                   \<lparr>nus_bytesSent = bytesSent, nus_skipped = (prop_of v ''skipped'' = JBool True),
                    nus_chunkCount = num_field v ''chunkCount'',
                    nus_chunkSizeBytes = num_field v ''chunkSizeBytes'',
                    nus_fileReadDurationMs = num_field v ''fileReadDurationMs'',
                    nus_httpRequestDurationMs = num_field v ''httpRequestDurationMs'',
                    nus_interChunkGapDurationMs = num_field v ''interChunkGapDurationMs'',
                    nus_retryCount = num_field v ''retryCount'',
                    nus_peakResidentMemoryBytes = num_field v ''peakResidentMemoryBytes'',
                    nus_serverWriteDurationMs = num_field v ''serverWriteDurationMs'',
                    nus_serverFinalizeDurationMs = num_field v ''serverFinalizeDurationMs'',
                    nus_transferFilename = transferFilename,
                    nus_savedFilename = nonempty_string (prop_of v ''savedFilename'')\<rparr>)))"

definition validPort :: "jsval \<Rightarrow> nat option" where
  "validPort v =
     (case as_number v of
        Some n \<Rightarrow> (if isInteger n \<and> fin_val n > 0 \<and> fin_val n \<le> 65535 then Some (nat \<lfloor>fin_val n\<rfloor>) else None)
      | None \<Rightarrow> None)"

definition parseDiscoveredServer :: "jsval \<Rightarrow> DiscoveredServer option" where
  "parseDiscoveredServer v =
     (if \<not> is_object v then None
      else
        (let serverId = string_or_empty (prop_of v ''serverId'');
             name = (case nonempty_string (prop_of v ''name'') of Some n \<Rightarrow> n | None \<Rightarrow> ''Desktop'');
             address = string_or_empty (prop_of v ''address'');
             httpPort = validPort (prop_of v ''httpPort'');
             certificateFingerprint =
               normalizeFingerprint (string_or_empty (prop_of v ''certificateFingerprint''))
         in case (validPort (prop_of v ''httpsPort''), parse_environment (prop_of v ''environment'')) of
              (Some httpsPort, Some environment) \<Rightarrow>
                (if serverId = [] \<or> address = [] \<or> length certificateFingerprint \<noteq> 64 then None
                 else Some \<lparr>ds_serverId = serverId, ds_name = name, ds_address = address,
                            ds_httpsPort = httpsPort,
                            ds_certificateFingerprint = certificateFingerprint,
                            ds_httpPort = httpPort,
                            ds_approvalRequired = (prop_of v ''approvalRequired'' = JBool True),
                            ds_environment = environment\<rparr>)
            | _ \<Rightarrow> None))"

subsection \<open>nativeCapabilities\<close>

text \<open>
  The parameter \<open>nativeModule\<close> of each function is the native module's function it calls, where
  the module is installed. A rejected call is \<open>Inl\<close> of its message.
\<close>

definition expectedServerEnvironment :: "string option \<Rightarrow> bool \<Rightarrow> IosClientEnvironment" where
  "expectedServerEnvironment configured available = iosClientEnvironment configured available"

text \<open>\<open>map(parse).filter(result => result !== null)\<close>\<close>

definition keep_valid :: "('a \<Rightarrow> 'b option) \<Rightarrow> 'a list \<Rightarrow> 'b list" where
  "keep_valid parse = List.map_filter parse"

definition is_base64_char :: "char \<Rightarrow> bool" where
  "is_base64_char c \<longleftrightarrow>
     (let n = (of_char c :: nat) in
      (65 \<le> n \<and> n \<le> 90) \<or> (97 \<le> n \<and> n \<le> 122) \<or> (48 \<le> n \<and> n \<le> 57) \<or> c = CHR ''+'' \<or> c = CHR ''/'')"

text \<open>The pattern \<open>/^[A-Za-z0-9+/]+={0,2}$/\<close>.\<close>

definition is_base64 :: "string \<Rightarrow> bool" where
  "is_base64 s \<longleftrightarrow>
     (let body = takeWhile is_base64_char s; rest = dropWhile is_base64_char s
      in body \<noteq> [] \<and> rest \<in> {[], ''='', ''==''})"

definition parse_thumbnail :: "string list \<Rightarrow> jsval \<Rightarrow> (string \<times> string) option" where
  "parse_thumbnail ids v =
     (if \<not> is_object v then None
      else case (as_string (prop_of v ''assetId''), as_string (prop_of v ''jpegBase64'')) of
             (Some assetId, Some jpegBase64) \<Rightarrow>
               (if assetId \<in> set ids \<and> length jpegBase64 \<le> 32000 \<and> is_base64 jpegBase64
                then Some (assetId, jpegBase64) else None)
           | _ \<Rightarrow> None)"

definition historyThumbnails :: "(string list \<Rightarrow> jsval) option \<Rightarrow> string list \<Rightarrow> (string \<times> string) list" where
  "historyThumbnails nativeModule assetIds =
     (case nativeModule of
        None \<Rightarrow> []
      | Some call \<Rightarrow>
          (let ids = set_add_all (take 20 assetIds) []
           in case call ids of
                JArr raw \<Rightarrow> take 20 (keep_valid (parse_thumbnail ids) raw)
              | _ \<Rightarrow> []))"

definition discover ::
  "string option \<Rightarrow> (number \<Rightarrow> nat \<Rightarrow> IosClientEnvironment \<Rightarrow> jsval list) option \<Rightarrow> number option
     \<Rightarrow> DiscoveredServer list" where
  "discover configured nativeModule timeoutMs =
     (case nativeModule of
        None \<Rightarrow> []
      | Some call \<Rightarrow>
          (let environment = expectedServerEnvironment configured True;
               rawServers = call (case timeoutMs of Some t \<Rightarrow> t | None \<Rightarrow> 1500)
                              (discoveryPortForEnvironment environment) environment
           in filter (\<lambda>server. ds_environment server = environment)
                (keep_valid parseDiscoveredServer rawServers)))"

definition resolveAssetFilenames ::
  "(NativeFilenameResolutionRequest list \<Rightarrow> string + jsval list) option
     \<Rightarrow> NativeFilenameResolutionRequest list \<Rightarrow> string + NativeFilenameResolution list" where
  "resolveAssetFilenames nativeModule requests =
     (case nativeModule of
        None \<Rightarrow> Inr (map (\<lambda>request. Filename_resolved (nfq_assetId request)
                            (nfq_fallbackFilename request) Expo_fallback_name) requests)
      | Some call \<Rightarrow>
          (case call requests of
             Inl e \<Rightarrow> Inl e
           | Inr rawResults \<Rightarrow> Inr (keep_valid parseFilenameResolution rawResults)))"

definition native_prepareAssetWindow ::
  "(string \<Rightarrow> NativePreparationRequest list \<Rightarrow> bool \<Rightarrow> string + jsval list) option \<Rightarrow> string
     \<Rightarrow> NativePreparationRequest list \<Rightarrow> bool \<Rightarrow> string + NativePreparationResult list" where
  "native_prepareAssetWindow nativeModule sessionRef requests includeAdditional =
     (case nativeModule of
        None \<Rightarrow> Inl ''Native Photos preparation is unavailable in Expo Go''
      | Some call \<Rightarrow>
          (case call sessionRef requests includeAdditional of
             Inl e \<Rightarrow> Inl e
           | Inr rawResults \<Rightarrow> Inr (keep_valid parseNativePreparationResult rawResults)))"

text \<open>The listener of \<open>onPreparationProgress\<close>: the counts it forwards, if any.\<close>

definition preparation_progress :: "string \<Rightarrow> jsval \<Rightarrow> (jsnum \<times> jsnum) option" where
  "preparation_progress sessionRef v =
     (let event = nativeEventRecord v
      in if prop_of event ''sessionRef'' \<noteq> JStr sessionRef then None
         else case (as_number (prop_of event ''completedAssets''), as_number (prop_of event ''totalAssets'')) of
                (Some completedAssets, Some totalAssets) \<Rightarrow> Some (completedAssets, totalAssets)
              | _ \<Rightarrow> None)"

definition hashPreparedFiles ::
  "(string \<Rightarrow> NativeHashRequest list \<Rightarrow> string + jsval list) option \<Rightarrow> string
     \<Rightarrow> NativeHashRequest list \<Rightarrow> string + NativeHashResult list" where
  "hashPreparedFiles nativeModule sessionRef requests =
     (case nativeModule of
        None \<Rightarrow> Inl ''Native duplicate hashing is unavailable in Expo Go''
      | Some call \<Rightarrow>
          (case call sessionRef requests of
             Inl e \<Rightarrow> Inl e
           | Inr rawResults \<Rightarrow> Inr (keep_valid parseNativeHashResult rawResults)))"

definition releasePreparedFile :: "jsval \<Rightarrow> NativeReleaseMetrics option" where
  "releasePreparedFile raw =
     (if \<not> is_object raw then None
      else map_option
             (\<lambda>path. \<lparr>nrm_materializationPath = path,
                      nrm_temporaryBytesWritten = nonneg_or_zero (prop_of raw ''temporaryBytesWritten''),
                      nrm_temporaryLifetimeMs = nonneg_or_zero (prop_of raw ''temporaryLifetimeMs'')\<rparr>)
             (materialization_path (prop_of raw ''materializationPath'')))"

definition getThermalState :: "jsval option \<Rightarrow> ThermalState" where
  "getThermalState nativeModule = (case nativeModule of Some v \<Rightarrow> parseThermalState v | None \<Rightarrow> Nominal)"

definition native_uploadFile :: "(string + jsval) option \<Rightarrow> string + NativeUploadResult" where
  "native_uploadFile nativeModule =
     (case nativeModule of
        None \<Rightarrow> Inl ''Native transfer is unavailable in Expo Go''
      | Some (Inl e) \<Rightarrow> Inl e
      | Some (Inr v) \<Rightarrow> parseNativeUploadResult v)"

text \<open>The events that reach the callbacks of \<open>addProgressListener\<close> and \<open>addThermalStateListener\<close>.\<close>

definition progress_events :: "jsval list \<Rightarrow> NativeProgressEvent list" where
  "progress_events vs = keep_valid parseNativeProgressEvent vs"

definition thermal_events :: "jsval list \<Rightarrow> ThermalState list" where
  "thermal_events vs = map (\<lambda>v. parseThermalState (prop_of (nativeEventRecord v) ''state'')) vs"

subsection \<open>Lemmas\<close>

text \<open>What each accepted value satisfies.\<close>

definition server_ok :: "DiscoveredServer \<Rightarrow> bool" where
  "server_ok d \<longleftrightarrow>
     ds_serverId d \<noteq> [] \<and> ds_name d \<noteq> [] \<and> ds_address d \<noteq> [] \<and>
     1 \<le> ds_httpsPort d \<and> ds_httpsPort d \<le> 65535 \<and> is_sha256 (ds_certificateFingerprint d) \<and>
     (\<forall>p. ds_httpPort d = Some p \<longrightarrow> 1 \<le> p \<and> p \<le> 65535)"

fun hash_ok :: "NativeHashResult \<Rightarrow> bool" where
  "hash_ok (Hash_success i sha cost _) =
     (i \<noteq> [] \<and> is_sha256 sha \<and> 0 \<le> hc_bytesRead cost \<and> 0 \<le> hc_durationMs cost)"
| "hash_ok (Hash_failed i code cost) =
     (i \<noteq> [] \<and> code \<in> {Prepared_file_not_owned, File_changed, File_read_failed, Cancelled} \<and>
      0 \<le> hc_bytesRead cost \<and> 0 \<le> hc_durationMs cost)"

fun preparation_ok :: "NativePreparationResult \<Rightarrow> bool" where
  "preparation_ok (Prep_ready c r) =
     (1 \<le> nc_fileRef c \<and> nc_variantId c \<noteq> [] \<and> nc_assetId c \<noteq> Some [] \<and> nc_originalFilename c \<noteq> [] \<and>
      nr_localUri r \<noteq> [] \<and> nr_transferFilename r \<noteq> [] \<and> \<not> num_le (nr_sizeBytes r) (Fin 0) \<and>
      0 \<le> nr_materializationDurationMs r \<and> 0 \<le> nr_temporaryBytesWritten r)"
| "preparation_ok (Prep_failed c stage code) =
     (1 \<le> nc_fileRef c \<and> nc_variantId c \<noteq> [] \<and> nc_assetId c \<noteq> Some [] \<and>
      stage \<in> {Stage_rendition, Stage_metadata, Stage_filename})"

lemma keep_valid_set: "x \<in> set (keep_valid parse vs) \<longleftrightarrow> (\<exists>v \<in> set vs. parse v = Some x)"
  by (auto simp: keep_valid_def List.map_filter_def image_iff)

lemma validPort_bounds: "validPort v = Some p \<Longrightarrow> 1 \<le> p \<and> p \<le> 65535"
proof (cases v)
  case (JNum n)
  assume "validPort v = Some p"
  with JNum have "isInteger n" "fin_val n > 0" "fin_val n \<le> 65535" and p: "p = nat \<lfloor>fin_val n\<rfloor>"
    by (auto simp: validPort_def split: if_splits)
  then have "1 \<le> \<lfloor>fin_val n\<rfloor>" "\<lfloor>fin_val n\<rfloor> \<le> 65535"
    by (auto simp: isInteger_def le_floor_iff floor_le_iff)
  then show ?thesis unfolding p by linarith
qed (auto simp: validPort_def)

lemma parsed_server_ok: "parseDiscoveredServer v = Some d \<Longrightarrow> server_ok d"
  using validPort_bounds [of "prop_of v ''httpsPort''"] validPort_bounds [of "prop_of v ''httpPort''"]
  by (auto simp: parseDiscoveredServer_def Let_def server_ok_def is_sha256_def normalize_hex
      split: if_splits option.splits)

lemma parsed_hash_ok: "parseNativeHashResult v = Some r \<Longrightarrow> hash_ok r"
  by (auto simp: parseNativeHashResult_def Let_def split: if_splits)

lemma parse_ready_ok:
  "parse_ready v c = Some r \<Longrightarrow> 1 \<le> nc_fileRef c \<Longrightarrow> nc_variantId c \<noteq> [] \<Longrightarrow> nc_assetId c \<noteq> Some []
    \<Longrightarrow> preparation_ok r"
  by (auto simp: parse_ready_def Let_def split: if_splits)

lemma parsed_preparation_ok: "parseNativePreparationResult v = Some r \<Longrightarrow> preparation_ok r"
proof -
  assume r: "parseNativePreparationResult v = Some r"
  have assetId: "nonempty_string (prop_of v ''assetId'') \<noteq> Some []" by auto
  have variantId: "(case nonempty_string (prop_of v ''variantId'') of
      Some s \<Rightarrow> s | None \<Rightarrow> ''prepared-'' @ show_nat n) \<noteq> []" for n
    by (auto split: option.splits)
  from r assetId variantId show ?thesis
    by (auto simp: parseNativePreparationResult_def Let_def prep_stages_def
        intro: parse_ready_ok split: if_splits option.splits)
qed

subsection \<open>Properties\<close>



text \<open>
  The size check of a prepared file lets \<open>NaN\<close> and \<open>Infinity\<close> through: an otherwise
  complete ready result is accepted exactly if its size is not at most 0, a comparison
  that is false for \<open>NaN\<close>, whereas the duration and the temporary bytes of the same value
  are checked to be finite.
\<close>

theorem preparation_size_unchecked:
  "let v = (\<lambda>n. JObj [(''fileRef'', JNum (Fin 1)), (''status'', JStr ''ready''), (''localUri'', JStr ''u''),
                      (''transferFilename'', JStr ''f''), (''sizeBytes'', JNum n),
                      (''temporaryBytesWritten'', JNum n)])
   in (parseNativePreparationResult (v n) \<noteq> None \<longleftrightarrow> \<not> num_le n (Fin 0)) \<and>
      (\<exists>c r. parseNativePreparationResult (v NaN) = Some (Prep_ready c r) \<and>
             nr_sizeBytes r = NaN \<and> nr_temporaryBytesWritten r = 0) \<and>
      (\<exists>c r. parseNativePreparationResult (v PosInf) = Some (Prep_ready c r) \<and>
             nr_sizeBytes r = PosInf \<and> nr_temporaryBytesWritten r = 0)"
  by (simp add: Let_def parseNativePreparationResult_def parse_ready_def parse_fileRef_def isInteger_def
      nonneg_or_zero_def)

text \<open>
  History thumbnails are bounded and were asked for: at most 20, each for one of the
  first 20 requested assets, each at most 32000 base-64 characters.
\<close>

theorem thumbnails_bounded:
  "length (historyThumbnails nativeModule assetIds) \<le> 20 \<and>
   (\<forall>(i, jpeg) \<in> set (historyThumbnails nativeModule assetIds).
      i \<in> set (take 20 assetIds) \<and> length jpeg \<le> 32000 \<and> is_base64 jpeg)"
proof (cases nativeModule)
  case (Some call)
  let ?ids = "set_add_all (take 20 assetIds) []"
  have "(i, jpeg) \<in> set (keep_valid (parse_thumbnail ?ids) raw) \<Longrightarrow>
      i \<in> set (take 20 assetIds) \<and> length jpeg \<le> 32000 \<and> is_base64 jpeg" for i jpeg raw
    by (auto simp: keep_valid_set parse_thumbnail_def split: if_splits option.splits)
  then show ?thesis
    using Some by (auto simp: historyThumbnails_def Let_def dest!: in_set_takeD split: jsval.splits)
qed (simp add: historyThumbnails_def)

theorem thumbnails_bounded_witness:
  "let call = (\<lambda>_. JArr [JObj [(''assetId'', JStr ''a''), (''jpegBase64'', JStr ''AAAA'')],
                         JObj [(''assetId'', JStr ''b''), (''jpegBase64'', JStr ''AAAA'')]])
   in (''a'', ''AAAA'') \<in> set (historyThumbnails (Some call) [''a'']) \<and> is_base64 ''AAAA''"
  using thumbnails_bounded [of "Some (\<lambda>_. JArr [JObj [(''assetId'', JStr ''a''), (''jpegBase64'', JStr ''AAAA'')],
      JObj [(''assetId'', JStr ''b''), (''jpegBase64'', JStr ''AAAA'')]])" "[''a'']"]
  by (simp add: historyThumbnails_def keep_valid_def List.map_filter_def parse_thumbnail_def set_add_def
      is_base64_def is_base64_char_def)

end
