(* ===== verification/DiagnosticAggregation.thy ===== *)
theory DiagnosticAggregation
  imports NativeBridge
begin

text \<open>
  \<open>services/diagnostics/DiagnosticTypes.ts\<close> and \<open>DiagnosticAggregation.ts\<close>: the diagnostic
  report and the functions that build up its summaries. An intersection type is a record
  extension. The sort of an array is stable, so a comparator that compares a score and
  then the window index is a sort by the index followed by a sort by the score.
\<close>

subsection \<open>DiagnosticTypes.ts\<close>

record DiagnosticFailure =
  df_fileRef :: nat
  df_stage :: TransferStage
  df_code :: TransferErrorCode
  df_retryCount :: nat

record DiagnosticFailureCount =
  dfc_stage :: TransferStage
  dfc_code :: TransferErrorCode
  dfc_count :: nat

record DiagnosticUploadTiming =
  dut_measuredFiles :: number
  dut_fileReadDurationMs :: number
  dut_httpRequestDurationMs :: number
  dut_interChunkGapDurationMs :: number
  dut_serverWriteDurationMs :: number
  dut_serverFinalizeDurationMs :: number
  dut_maxServerFinalizeDurationMs :: number

record DiagnosticWindowPreflight = DuplicatePreflightMetrics +
  dwp_allUploadWorkersIdleDuringPreflightMs :: number
  dwp_queueDepthAtStart :: nat
  dwp_queueDepthAtEnd :: nat
  dwp_activeUploadWorkersAtStart :: nat
  dwp_activeUploadWorkersAtEnd :: nat

record DiagnosticPreflightSummary = DuplicatePreflightMetrics +
  dps_windowCount :: number
  dps_totalWindowDurationMs :: number
  dps_maxWindowDurationMs :: number
  dps_windowsWithHashing :: number
  dps_windowsWithBlockedNonCandidates :: number
  dps_windowsWithAllUploadWorkersIdle :: number
  dps_allUploadWorkersIdleDuringPreflightMs :: number
  dps_maxPreparedBytesHeldDuringPreflight :: number
  dps_maxTemporaryBytesHeldDuringPreflight :: number

datatype WindowStatus = Window_preparing | Window_ready | Window_enqueued

record DiagnosticWindow =
  dw_windowIndex :: nat
  dw_status :: WindowStatus
  dw_selectedCount :: number
  dw_preparedCount :: number
  dw_failedCount :: number
  dw_discoveredBytes :: number
  dw_selectedMediaBytes :: number
  dw_additionalComponentsBytes :: number
  dw_selectedMediaFiles :: number
  dw_additionalComponentsFiles :: number
  dw_plannedUploadBytes :: number
  dw_preflightSkippedFiles :: number
  dw_preflightSkippedBytes :: number
  dw_appleFilenameCount :: number
  dw_fallbackFilenameCount :: number
  dw_startedElapsedMs :: number
  dw_readyElapsedMs :: "number option"
  dw_enqueueCompletedElapsedMs :: "number option"
  dw_uploadCapacityWaitDurationMs :: number
  dw_uploadCapacityWaitCount :: number
  dw_preparationDurationMs :: number
  dw_filenameDurationMs :: number
  dw_preflightDurationMs :: number
  dw_preflight :: "DiagnosticWindowPreflight option"
  dw_firstUploadStartedElapsedMs :: "number option"
  dw_uploadTiming :: "DiagnosticUploadTiming option"

record DiagnosticPreflightWindowSample =
  ds_windowIndex :: nat
  ds_preparationDurationMs :: number
  ds_preflightDurationMs :: number
  ds_plannedUploadBytes :: number
  ds_startedElapsedMs :: number
  ds_readyElapsedMs :: "number option"
  ds_enqueueCompletedElapsedMs :: "number option"
  ds_uploadCapacityWaitDurationMs :: number
  ds_uploadCapacityWaitCount :: number
  ds_firstUploadStartedElapsedMs :: "number option"
  ds_preflight :: DiagnosticWindowPreflight
  ds_uploadTiming :: DiagnosticUploadTiming

record DiagnosticThermalTransition =
  dtt_state :: ThermalState
  dtt_elapsedMs :: number

record DiagnosticMaterializationSummary =
  dm_path :: MediaMaterializationPath
  dm_preparedFiles :: number
  dm_temporaryFiles :: number
  dm_temporaryBytesWritten :: number
  dm_totalMaterializationDurationMs :: number
  dm_maxMaterializationDurationMs :: number
  dm_maxTemporaryFileBytes :: number
  dm_releasedFiles :: number
  dm_totalTemporaryLifetimeMs :: number
  dm_maxTemporaryLifetimeMs :: number

datatype ReportStatus = Running | Finished TransferCompletionStatus

datatype AppEnvironment = Env_production | Env_test

datatype Transport = Native_raw | Expo_base64

record TransferDiagnosticReport =
  rp_schemaVersion :: nat
  rp_sessionRef :: string
  rp_appVersion :: string
  rp_environment :: AppEnvironment
  rp_transport :: Transport
  rp_requestedPreparationMode :: "PreparationMode option"
  rp_preparationMode :: "PreparationMode option"
  rp_automaticPreparationReason :: "unit option"
  rp_includeAdditionalMediaComponents :: bool
  rp_startedAt :: number
  rp_updatedAt :: number
  rp_completedAt :: "number option"
  rp_sessionDurationMs :: "number option"
  rp_firstUploadStartedElapsedMs :: "number option"
  rp_firstAcknowledgementElapsedMs :: "number option"
  rp_preparationCompletedElapsedMs :: "number option"
  rp_uploadPhaseDurationMs :: "number option"
  rp_completionStatus :: ReportStatus
  rp_selectedAssets :: number
  rp_preparedAssets :: number
  rp_expandedFiles :: number
  rp_selectedFiles :: number
  rp_preparedFiles :: number
  rp_uploadedFiles :: number
  rp_skippedFiles :: number
  rp_failedFiles :: number
  rp_discoveredBytes :: number
  rp_selectedMediaBytes :: number
  rp_additionalComponentsBytes :: number
  rp_selectedMediaFiles :: number
  rp_additionalComponentsFiles :: number
  rp_plannedUploadBytes :: number
  rp_acknowledgedBytes :: number
  rp_skippedBytes :: number
  rp_preflightSkippedFiles :: number
  rp_preflightSkippedBytes :: number
  rp_serverSkippedFiles :: number
  rp_serverSkippedBytes :: number
  rp_retryCount :: number
  rp_averageMediaMBps :: number
  rp_peakMediaMBps :: number
  rp_queueMaxDepth :: nat
  rp_uploadCapacityWaitDurationMs :: number
  rp_uploadCapacityWaitCount :: number
  rp_maxUploadCapacityWaitDurationMs :: number
  rp_maxActiveUploadWorkers :: nat
  rp_filenameResolvedAppleFiles :: number
  rp_filenameFallbackFiles :: number
  rp_peakNativeResidentMemoryBytes :: number
  rp_preflight :: DiagnosticPreflightSummary
  rp_uploadTiming :: DiagnosticUploadTiming
  rp_materialization :: "DiagnosticMaterializationSummary list"
  rp_windows :: "DiagnosticWindow list"
  rp_preflightWindowSamples :: "DiagnosticPreflightWindowSample list"
  rp_failures :: "DiagnosticFailure list"
  rp_failureCounts :: "DiagnosticFailureCount list"
  rp_omittedFailureDetails :: nat
  rp_thermalTransitions :: "DiagnosticThermalTransition list"

record DiagnosticReportSummary =
  drs_path :: string
  drs_schemaVersion :: jsnum
  drs_startedAt :: jsnum
  drs_completedAt :: "jsnum option"
  drs_completionStatus :: ReportStatus
  drs_selectedAssets :: jsnum
  drs_selectedFiles :: jsnum
  drs_environment :: AppEnvironment

subsection \<open>DiagnosticAggregation.ts\<close>

definition MAX_PREFLIGHT_WINDOW_SAMPLES :: nat where "MAX_PREFLIGHT_WINDOW_SAMPLES = 64"

definition MATERIALIZATION_PATHS :: "MediaMaterializationPath list" where
  "MATERIALIZATION_PATHS =
     [Photo_resource, Video_resource, Raw_resource, Live_photo_motion_path, Current_image,
      Current_video, Expo_direct]"

definition emptyMaterializationSummary :: "MediaMaterializationPath \<Rightarrow> DiagnosticMaterializationSummary" where
  "emptyMaterializationSummary path =
     \<lparr>dm_path = path, dm_preparedFiles = 0, dm_temporaryFiles = 0, dm_temporaryBytesWritten = 0,
      dm_totalMaterializationDurationMs = 0, dm_maxMaterializationDurationMs = 0,
      dm_maxTemporaryFileBytes = 0, dm_releasedFiles = 0, dm_totalTemporaryLifetimeMs = 0,
      dm_maxTemporaryLifetimeMs = 0\<rparr>"

definition emptyPreflightMetrics :: DuplicatePreflightMetrics where
  "emptyPreflightMetrics =
     \<lparr>componentsConsidered = 0, bypassedFiles = 0, metadataUploadFiles = 0,
      metadataFallbackFiles = 0, receiverCandidateFiles = 0, localCandidateFiles = 0,
      hashCandidateFiles = 0, hashedFiles = 0, hashAttemptCount = 0, hashCacheHits = 0,
      hashFailureFiles = 0, hashedBytes = 0, hashedThenUploadedFiles = 0,
      hashedThenUploadedBytes = 0, receiverSkippedFiles = 0, receiverSkippedBytes = 0,
      outgoingSkippedFiles = 0, outgoingSkippedBytes = 0, metadataRequestCount = 0,
      metadataFailureCount = 0, verificationRequestCount = 0, verificationFailureCount = 0,
      verificationInconclusiveFiles = 0, metadataDurationMs = 0, hashingDurationMs = 0,
      verificationDurationMs = 0, candidateResolutionDurationMs = 0,
      totalHashWorkerDurationMs = 0, longestHashDurationMs = 0, largestHashedFileBytes = 0,
      nonCandidateFilesBlockedByHash = 0, nonCandidateBytesBlockedByHash = 0,
      preparedBytesHeldDuringPreflight = 0, temporaryBytesHeldDuringPreflight = 0\<rparr>"

definition emptyPreflightSummary :: DiagnosticPreflightSummary where
  "emptyPreflightSummary =
     DuplicatePreflightMetrics.extend emptyPreflightMetrics
       (DiagnosticPreflightSummary.fields 0 0 0 0 0 0 0 0 0)"

text \<open>The object literal that stands for a window without preflight values.\<close>

definition emptyWindowPreflight :: DiagnosticWindowPreflight where
  "emptyWindowPreflight =
     DuplicatePreflightMetrics.extend emptyPreflightMetrics (DiagnosticWindowPreflight.fields 0 0 0 0 0)"

definition emptyUploadTiming :: DiagnosticUploadTiming where
  "emptyUploadTiming =
     \<lparr>dut_measuredFiles = 0, dut_fileReadDurationMs = 0, dut_httpRequestDurationMs = 0,
      dut_interChunkGapDurationMs = 0, dut_serverWriteDurationMs = 0,
      dut_serverFinalizeDurationMs = 0, dut_maxServerFinalizeDurationMs = 0\<rparr>"

definition copyPreflightMetrics :: "'a DuplicatePreflightMetrics_scheme \<Rightarrow> DuplicatePreflightMetrics" where
  "copyPreflightMetrics metrics =
     \<lparr>componentsConsidered = componentsConsidered metrics,
      bypassedFiles = bypassedFiles metrics,
      metadataUploadFiles = metadataUploadFiles metrics,
      metadataFallbackFiles = metadataFallbackFiles metrics,
      receiverCandidateFiles = receiverCandidateFiles metrics,
      localCandidateFiles = localCandidateFiles metrics,
      hashCandidateFiles = hashCandidateFiles metrics, hashedFiles = hashedFiles metrics,
      hashAttemptCount = hashAttemptCount metrics, hashCacheHits = hashCacheHits metrics,
      hashFailureFiles = hashFailureFiles metrics, hashedBytes = hashedBytes metrics,
      hashedThenUploadedFiles = hashedThenUploadedFiles metrics,
      hashedThenUploadedBytes = hashedThenUploadedBytes metrics,
      receiverSkippedFiles = receiverSkippedFiles metrics,
      receiverSkippedBytes = receiverSkippedBytes metrics,
      outgoingSkippedFiles = outgoingSkippedFiles metrics,
      outgoingSkippedBytes = outgoingSkippedBytes metrics,
      metadataRequestCount = metadataRequestCount metrics,
      metadataFailureCount = metadataFailureCount metrics,
      verificationRequestCount = verificationRequestCount metrics,
      verificationFailureCount = verificationFailureCount metrics,
      verificationInconclusiveFiles = verificationInconclusiveFiles metrics,
      metadataDurationMs = metadataDurationMs metrics,
      hashingDurationMs = hashingDurationMs metrics,
      verificationDurationMs = verificationDurationMs metrics,
      candidateResolutionDurationMs = candidateResolutionDurationMs metrics,
      totalHashWorkerDurationMs = totalHashWorkerDurationMs metrics,
      longestHashDurationMs = longestHashDurationMs metrics,
      largestHashedFileBytes = largestHashedFileBytes metrics,
      nonCandidateFilesBlockedByHash = nonCandidateFilesBlockedByHash metrics,
      nonCandidateBytesBlockedByHash = nonCandidateBytesBlockedByHash metrics,
      preparedBytesHeldDuringPreflight = preparedBytesHeldDuringPreflight metrics,
      temporaryBytesHeldDuringPreflight = temporaryBytesHeldDuringPreflight metrics\<rparr>"

definition copyUploadTiming :: "DiagnosticUploadTiming \<Rightarrow> DiagnosticUploadTiming" where
  "copyUploadTiming timing =
     \<lparr>dut_measuredFiles = dut_measuredFiles timing,
      dut_fileReadDurationMs = dut_fileReadDurationMs timing,
      dut_httpRequestDurationMs = dut_httpRequestDurationMs timing,
      dut_interChunkGapDurationMs = dut_interChunkGapDurationMs timing,
      dut_serverWriteDurationMs = dut_serverWriteDurationMs timing,
      dut_serverFinalizeDurationMs = dut_serverFinalizeDurationMs timing,
      dut_maxServerFinalizeDurationMs = dut_maxServerFinalizeDurationMs timing\<rparr>"

definition copyWindowPreflight :: "DiagnosticWindowPreflight \<Rightarrow> DiagnosticWindowPreflight" where
  "copyWindowPreflight p =
     DuplicatePreflightMetrics.extend (copyPreflightMetrics p)
       (DiagnosticWindowPreflight.fields (dwp_allUploadWorkersIdleDuringPreflightMs p)
          (dwp_queueDepthAtStart p) (dwp_queueDepthAtEnd p)
          (dwp_activeUploadWorkersAtStart p) (dwp_activeUploadWorkersAtEnd p))"

text \<open>The type guard of \<open>selectPreflightWindowSamples\<close>, with the narrowed values.\<close>

type_synonym eligible_window = "DiagnosticWindow \<times> DiagnosticWindowPreflight \<times> DiagnosticUploadTiming"

fun eligible :: "DiagnosticWindow list \<Rightarrow> eligible_window list" where
  "eligible [] = []"
| "eligible (w # ws) =
     (case (dw_preflight w, dw_uploadTiming w) of
        (Some p, Some t) \<Rightarrow> (w, p, t) # eligible ws
      | _ \<Rightarrow> eligible ws)"

definition window_key :: "eligible_window \<Rightarrow> nat" where
  "window_key e = dw_windowIndex (fst e)"

definition by_score :: "(eligible_window \<Rightarrow> number) \<Rightarrow> eligible_window list \<Rightarrow> eligible_window list" where
  "by_score score es = sort_key (\<lambda>e. - score e) (sort_key window_key es)"

definition take_windows ::
  "eligible_window list \<Rightarrow> nat \<Rightarrow> (eligible_window \<Rightarrow> number) \<Rightarrow> (nat, eligible_window) jsmap \<Rightarrow>
   (nat, eligible_window) jsmap" where
  "take_windows es count score selected =
     fold (\<lambda>e m. if length m \<ge> MAX_PREFLIGHT_WINDOW_SAMPLES then m else map_set (window_key e) e m)
       (take count (by_score score es)) selected"

definition window_sample :: "eligible_window \<Rightarrow> DiagnosticPreflightWindowSample" where
  "window_sample e =
     (case e of (w, p, t) \<Rightarrow>
        \<lparr>ds_windowIndex = dw_windowIndex w,
         ds_preparationDurationMs = dw_preparationDurationMs w,
         ds_preflightDurationMs = dw_preflightDurationMs w,
         ds_plannedUploadBytes = dw_plannedUploadBytes w,
         ds_startedElapsedMs = dw_startedElapsedMs w,
         ds_readyElapsedMs = dw_readyElapsedMs w,
         ds_enqueueCompletedElapsedMs = dw_enqueueCompletedElapsedMs w,
         ds_uploadCapacityWaitDurationMs = dw_uploadCapacityWaitDurationMs w,
         ds_uploadCapacityWaitCount = dw_uploadCapacityWaitCount w,
         ds_firstUploadStartedElapsedMs = dw_firstUploadStartedElapsedMs w,
         ds_preflight = copyWindowPreflight p,
         ds_uploadTiming = copyUploadTiming t\<rparr>)"

definition selected_windows :: "DiagnosticWindow list \<Rightarrow> (nat, eligible_window) jsmap" where
  "selected_windows windows =
     (let es = eligible windows;
          m1 = take_windows es 24 (\<lambda>(w, p, t). dw_preflightDurationMs w) [];
          m2 = take_windows es 16 (\<lambda>(w, p, t). dwp_allUploadWorkersIdleDuringPreflightMs p) m1;
          m3 = take_windows es 16 (\<lambda>(w, p, t). temporaryBytesHeldDuringPreflight p) m2
      in take_windows es 8 (\<lambda>(w, p, t). dut_maxServerFinalizeDurationMs t) m3)"

definition selectPreflightWindowSamples :: "DiagnosticWindow list \<Rightarrow> DiagnosticPreflightWindowSample list" where
  "selectPreflightWindowSamples windows =
     map window_sample (sort_key window_key (map snd (selected_windows windows)))"

text \<open>The loop over the 32 additive metrics and the two maxima of \<open>accumulatePreflightSummary\<close>.\<close>

definition add_metrics ::
  "DiagnosticWindowPreflight \<Rightarrow> DiagnosticWindowPreflight \<Rightarrow> DiagnosticPreflightSummary \<Rightarrow>
   DiagnosticPreflightSummary" where
  "add_metrics current before summary =
     summary\<lparr>componentsConsidered := componentsConsidered summary + (componentsConsidered current - componentsConsidered before),
       bypassedFiles := bypassedFiles summary + (bypassedFiles current - bypassedFiles before),
       metadataUploadFiles := metadataUploadFiles summary + (metadataUploadFiles current - metadataUploadFiles before),
       metadataFallbackFiles := metadataFallbackFiles summary + (metadataFallbackFiles current - metadataFallbackFiles before),
       receiverCandidateFiles := receiverCandidateFiles summary + (receiverCandidateFiles current - receiverCandidateFiles before),
       localCandidateFiles := localCandidateFiles summary + (localCandidateFiles current - localCandidateFiles before),
       hashCandidateFiles := hashCandidateFiles summary + (hashCandidateFiles current - hashCandidateFiles before),
       hashedFiles := hashedFiles summary + (hashedFiles current - hashedFiles before),
       hashAttemptCount := hashAttemptCount summary + (hashAttemptCount current - hashAttemptCount before),
       hashCacheHits := hashCacheHits summary + (hashCacheHits current - hashCacheHits before),
       hashFailureFiles := hashFailureFiles summary + (hashFailureFiles current - hashFailureFiles before),
       hashedBytes := hashedBytes summary + (hashedBytes current - hashedBytes before),
       hashedThenUploadedFiles := hashedThenUploadedFiles summary + (hashedThenUploadedFiles current - hashedThenUploadedFiles before),
       hashedThenUploadedBytes := hashedThenUploadedBytes summary + (hashedThenUploadedBytes current - hashedThenUploadedBytes before),
       receiverSkippedFiles := receiverSkippedFiles summary + (receiverSkippedFiles current - receiverSkippedFiles before),
       receiverSkippedBytes := receiverSkippedBytes summary + (receiverSkippedBytes current - receiverSkippedBytes before),
       outgoingSkippedFiles := outgoingSkippedFiles summary + (outgoingSkippedFiles current - outgoingSkippedFiles before),
       outgoingSkippedBytes := outgoingSkippedBytes summary + (outgoingSkippedBytes current - outgoingSkippedBytes before),
       metadataRequestCount := metadataRequestCount summary + (metadataRequestCount current - metadataRequestCount before),
       metadataFailureCount := metadataFailureCount summary + (metadataFailureCount current - metadataFailureCount before),
       verificationRequestCount := verificationRequestCount summary + (verificationRequestCount current - verificationRequestCount before),
       verificationFailureCount := verificationFailureCount summary + (verificationFailureCount current - verificationFailureCount before),
       verificationInconclusiveFiles := verificationInconclusiveFiles summary + (verificationInconclusiveFiles current - verificationInconclusiveFiles before),
       metadataDurationMs := metadataDurationMs summary + (metadataDurationMs current - metadataDurationMs before),
       hashingDurationMs := hashingDurationMs summary + (hashingDurationMs current - hashingDurationMs before),
       verificationDurationMs := verificationDurationMs summary + (verificationDurationMs current - verificationDurationMs before),
       candidateResolutionDurationMs := candidateResolutionDurationMs summary + (candidateResolutionDurationMs current - candidateResolutionDurationMs before),
       totalHashWorkerDurationMs := totalHashWorkerDurationMs summary + (totalHashWorkerDurationMs current - totalHashWorkerDurationMs before),
       nonCandidateFilesBlockedByHash := nonCandidateFilesBlockedByHash summary + (nonCandidateFilesBlockedByHash current - nonCandidateFilesBlockedByHash before),
       nonCandidateBytesBlockedByHash := nonCandidateBytesBlockedByHash summary + (nonCandidateBytesBlockedByHash current - nonCandidateBytesBlockedByHash before),
       preparedBytesHeldDuringPreflight := preparedBytesHeldDuringPreflight summary + (preparedBytesHeldDuringPreflight current - preparedBytesHeldDuringPreflight before),
       temporaryBytesHeldDuringPreflight := temporaryBytesHeldDuringPreflight summary + (temporaryBytesHeldDuringPreflight current - temporaryBytesHeldDuringPreflight before),
       longestHashDurationMs := max (longestHashDurationMs summary) (longestHashDurationMs current),
       largestHashedFileBytes := max (largestHashedFileBytes summary) (largestHashedFileBytes current)\<rparr>"

definition blocked_idle :: "DiagnosticWindowPreflight \<Rightarrow> bool" where
  "blocked_idle p \<longleftrightarrow>
     nonCandidateFilesBlockedByHash p > 0 \<and> dwp_allUploadWorkersIdleDuringPreflightMs p > 0"

definition accumulatePreflightSummary ::
  "DiagnosticWindowPreflight \<Rightarrow> number \<Rightarrow> DiagnosticWindowPreflight option \<Rightarrow> number \<Rightarrow>
   DiagnosticPreflightSummary \<Rightarrow> DiagnosticPreflightSummary" where
  "accumulatePreflightSummary current durationMs previous previousDurationMs summary =
     (let before = (case previous of Some p \<Rightarrow> p | None \<Rightarrow> emptyWindowPreflight);
          s = add_metrics current before summary
      in s\<lparr>dps_windowCount := dps_windowCount s + of_bool (previous = None),
           dps_totalWindowDurationMs := dps_totalWindowDurationMs s + (durationMs - previousDurationMs),
           dps_maxWindowDurationMs := max (dps_maxWindowDurationMs s) durationMs,
           dps_windowsWithHashing :=
             dps_windowsWithHashing s + (of_bool (hashedFiles current > 0) - of_bool (hashedFiles before > 0)),
           dps_windowsWithBlockedNonCandidates :=
             dps_windowsWithBlockedNonCandidates s +
             (of_bool (nonCandidateFilesBlockedByHash current > 0) -
              of_bool (nonCandidateFilesBlockedByHash before > 0)),
           dps_windowsWithAllUploadWorkersIdle :=
             dps_windowsWithAllUploadWorkersIdle s +
             (of_bool (blocked_idle current) - of_bool (blocked_idle before)),
           dps_allUploadWorkersIdleDuringPreflightMs :=
             dps_allUploadWorkersIdleDuringPreflightMs s +
             (dwp_allUploadWorkersIdleDuringPreflightMs current -
              dwp_allUploadWorkersIdleDuringPreflightMs before),
           dps_maxPreparedBytesHeldDuringPreflight :=
             max (dps_maxPreparedBytesHeldDuringPreflight s) (preparedBytesHeldDuringPreflight current),
           dps_maxTemporaryBytesHeldDuringPreflight :=
             max (dps_maxTemporaryBytesHeldDuringPreflight s) (temporaryBytesHeldDuringPreflight current)\<rparr>)"

text \<open>The timing argument is a \<open>DiagnosticUploadTiming\<close> without its first and last field.\<close>

record upload_timing =
  ut_fileReadDurationMs :: number
  ut_httpRequestDurationMs :: number
  ut_interChunkGapDurationMs :: number
  ut_serverWriteDurationMs :: number
  ut_serverFinalizeDurationMs :: number

definition addUploadTiming :: "upload_timing \<Rightarrow> DiagnosticUploadTiming \<Rightarrow> DiagnosticUploadTiming" where
  "addUploadTiming timing target =
     target\<lparr>dut_measuredFiles := dut_measuredFiles target + 1,
            dut_fileReadDurationMs := dut_fileReadDurationMs target + ut_fileReadDurationMs timing,
            dut_httpRequestDurationMs := dut_httpRequestDurationMs target + ut_httpRequestDurationMs timing,
            dut_interChunkGapDurationMs := dut_interChunkGapDurationMs target + ut_interChunkGapDurationMs timing,
            dut_serverWriteDurationMs := dut_serverWriteDurationMs target + ut_serverWriteDurationMs timing,
            dut_serverFinalizeDurationMs := dut_serverFinalizeDurationMs target + ut_serverFinalizeDurationMs timing,
            dut_maxServerFinalizeDurationMs :=
              max (dut_maxServerFinalizeDurationMs target) (ut_serverFinalizeDurationMs timing)\<rparr>"

subsection \<open>Lemmas: window samples\<close>

lemma eligible_set: "(w, p, t) \<in> set (eligible ws) \<longleftrightarrow>
    w \<in> set ws \<and> dw_preflight w = Some p \<and> dw_uploadTiming w = Some t"
  by (induction ws) (auto split: option.splits)

lemma eligible_keys: "distinct (map dw_windowIndex ws) \<Longrightarrow> distinct (map window_key (eligible ws))"
proof (induction ws)
  case (Cons w ws)
  have "dw_windowIndex w \<notin> window_key ` set (eligible ws)"
    using Cons.prems by (auto simp: window_key_def eligible_set)
  with Cons show ?case by (auto simp: window_key_def split: option.splits)
qed simp

lemma by_score_set [simp]: "set (by_score score es) = set es"
  by (simp add: by_score_def)

lemma by_score_length [simp]: "length (by_score score es) = length es"
  by (simp add: by_score_def)

lemma by_score_distinct: "distinct (map window_key es) \<Longrightarrow> distinct (map window_key (by_score score es))"
  by (simp add: by_score_def distinct_map)

lemma by_score_sorted: "sorted_wrt (\<lambda>a b. score b \<le> score a) (by_score score es)"
proof -
  have "sorted (map (\<lambda>e. - score e) (by_score score es))" by (simp add: by_score_def)
  then show ?thesis by (simp add: sorted_map)
qed

text \<open>What the selected map holds: eligible windows under their own index.\<close>

definition selection_ok :: "eligible_window list \<Rightarrow> (nat, eligible_window) jsmap \<Rightarrow> bool" where
  "selection_ok es m \<longleftrightarrow> distinct (map fst m) \<and> (\<forall>(k, e) \<in> set m. k = window_key e \<and> e \<in> set es)"

lemma set_update_subset: "set (AList.update k v m) \<subseteq> insert (k, v) (set m)"
  by (induction m) auto

lemma keys_update: "fst ` set (AList.update k v m) = insert k (fst ` set m)"
  by (induction m) auto

lemma length_update: "length (AList.update k v m) \<le> Suc (length m)"
  by (induction m) auto

lemma selection_ok_update:
  "selection_ok es m \<Longrightarrow> e \<in> set es \<Longrightarrow> selection_ok es (map_set (window_key e) e m)"
  using set_update_subset [of "window_key e" e m] by (auto simp: selection_ok_def distinct_update)

lemma selection_fold:
  assumes "selection_ok es m" and "set xs \<subseteq> set es"
    and "m' = fold (\<lambda>e m. if length m \<ge> n then m else map_set (window_key e) e m) xs m"
  shows "selection_ok es m' \<and> length m' \<le> length m + length xs \<and> fst ` set m \<subseteq> fst ` set m' \<and>
    (length m + length xs \<le> n \<longrightarrow> window_key ` set xs \<subseteq> fst ` set m')"
  using assms
proof (induction xs arbitrary: m)
  case (Cons x xs)
  let ?m = "if length m \<ge> n then m else map_set (window_key x) x m"
  have ok: "selection_ok es ?m" using Cons.prems by (simp add: selection_ok_update)
  have keys: "fst ` set m \<subseteq> fst ` set ?m"
    and new: "length m < n \<Longrightarrow> window_key x \<in> fst ` set ?m"
    by (auto simp add: keys_update)
  have len: "length ?m \<le> Suc (length m)" by (simp add: length_update)
  have "m' = fold (\<lambda>e m. if length m \<ge> n then m else map_set (window_key e) e m) xs ?m"
    using Cons.prems by simp
  with Cons.IH [OF ok] Cons.prems(2) have
    IH: "selection_ok es m'" "length m' \<le> length ?m + length xs" "fst ` set ?m \<subseteq> fst ` set m'"
      "length ?m + length xs \<le> n \<longrightarrow> window_key ` set xs \<subseteq> fst ` set m'" by simp_all
  show ?case
  proof (intro conjI impI)
    assume "length m + length (x # xs) \<le> n"
    then show "window_key ` set (x # xs) \<subseteq> fst ` set m'" using IH(3,4) new len by auto
  qed (use IH(1-3) keys len in auto)
qed simp

lemma take_windows_ok:
  assumes "selection_ok es m" and "m' = take_windows es n score m"
  shows "selection_ok es m'" "length m' \<le> length m + n" "fst ` set m \<subseteq> fst ` set m'"
    and "length m + n \<le> 64 \<Longrightarrow> window_key ` set (take n (by_score score es)) \<subseteq> fst ` set m'"
  using selection_fold [OF assms(1), of "take n (by_score score es)" m' MAX_PREFLIGHT_WINDOW_SAMPLES]
    assms(2) set_take_subset [of n "by_score score es"]
  by (auto simp: take_windows_def MAX_PREFLIGHT_WINDOW_SAMPLES_def)

lemma selected_windows_ok:
  fixes ws :: "DiagnosticWindow list"
  defines "es \<equiv> eligible ws" and "m \<equiv> selected_windows ws"
  shows "selection_ok es m" "length m \<le> 64"
    and "window_key ` set (take 24 (by_score (\<lambda>(w, p, t). dw_preflightDurationMs w) es)) \<subseteq> fst ` set m"
proof -
  define m1 where "m1 = take_windows es 24 (\<lambda>(w, p, t). dw_preflightDurationMs w) []"
  define m2 where "m2 = take_windows es 16 (\<lambda>(w, p, t). dwp_allUploadWorkersIdleDuringPreflightMs p) m1"
  define m3 where "m3 = take_windows es 16 (\<lambda>(w, p, t). temporaryBytesHeldDuringPreflight p) m2"
  have m: "m = take_windows es 8 (\<lambda>(w, p, t). dut_maxServerFinalizeDurationMs t) m3"
    by (simp add: m_def selected_windows_def es_def m1_def m2_def m3_def Let_def)
  have "selection_ok es []" by (simp add: selection_ok_def)
  note 1 = take_windows_ok [OF this m1_def]
  note 2 = take_windows_ok [OF 1(1) m2_def]
  note 3 = take_windows_ok [OF 2(1) m3_def]
  note 4 = take_windows_ok [OF 3(1) m]
  show "selection_ok es m" by (rule 4)
  show "length m \<le> 64" using 1(2) 2(2) 3(2) 4(2) by simp
  show "window_key ` set (take 24 (by_score (\<lambda>(w, p, t). dw_preflightDurationMs w) es)) \<subseteq> fst ` set m"
    using 1(4) 2(3) 3(3) 4(3) by simp
qed

lemma selection_values:
  "selection_ok es m \<Longrightarrow> distinct (map window_key (map snd m)) \<and> set (map snd m) \<subseteq> set es"
proof -
  assume ok: "selection_ok es m"
  then have "map window_key (map snd m) = map fst m" by (auto simp: selection_ok_def)
  with ok show ?thesis by (auto simp: selection_ok_def simp del: map_map)
qed

lemma sample_index [simp]: "ds_windowIndex (window_sample e) = window_key e"
  by (cases e) (simp add: window_sample_def window_key_def)

lemma sample_duration [simp]: "ds_preflightDurationMs (window_sample (w, p, t)) = dw_preflightDurationMs w"
  by (simp add: window_sample_def)

lemma top_in_selection:
  assumes d: "distinct (map dw_windowIndex windows)"
    and e: "e \<in> set (take 24 (by_score (\<lambda>(w, p, t). dw_preflightDurationMs w) (eligible windows)))"
  shows "e \<in> snd ` set (selected_windows windows)"
proof -
  note ok = selected_windows_ok [of windows]
  have inj: "inj_on window_key (set (eligible windows))"
    using eligible_keys [OF d] by (simp add: distinct_map)
  have "window_key e \<in> fst ` set (selected_windows windows)" using ok(3) e by blast
  then obtain e' where e': "(window_key e, e') \<in> set (selected_windows windows)" by force
  then have "window_key e = window_key e'" "e' \<in> set (eligible windows)"
    using ok(1) by (auto simp: selection_ok_def)
  moreover have "e \<in> set (eligible windows)" using e by (auto dest: in_set_takeD)
  ultimately have "e = e'" using inj by (simp add: inj_on_def)
  then show ?thesis using e' by force
qed

lemma left_out_top:
  assumes e: "(w, p, t) \<in> set (eligible windows)" and d: "distinct (map dw_windowIndex windows)"
    and out: "(w, p, t) \<notin> snd ` set (selected_windows windows)"
  shows "24 \<le> length (filter (\<lambda>s. dw_preflightDurationMs w \<le> ds_preflightDurationMs s)
           (map window_sample (sort_key window_key (map snd (selected_windows windows)))))"
proof -
  let ?score = "\<lambda>(w, p, t). dw_preflightDurationMs w"
  let ?xs = "by_score ?score (eligible windows)"
  let ?ys = "sort_key window_key (map snd (selected_windows windows))"
  have notin: "(w, p, t) \<notin> set (take 24 ?xs)" using top_in_selection [OF d] out by blast
  have "(w, p, t) \<in> set (take 24 ?xs @ drop 24 ?xs)" using e by (simp only: append_take_drop_id by_score_set)
  with notin have rest: "(w, p, t) \<in> set (drop 24 ?xs)" by (metis Un_iff set_append)
  then have len: "length (take 24 ?xs) = 24" by (cases "24 \<le> length ?xs") simp_all
  have "sorted_wrt (\<lambda>a b. ?score b \<le> ?score a) (take 24 ?xs @ drop 24 ?xs)"
    by (simp only: append_take_drop_id by_score_sorted)
  then have "\<forall>x \<in> set (take 24 ?xs). \<forall>y \<in> set (drop 24 ?xs). ?score y \<le> ?score x"
    unfolding sorted_wrt_append by blast
  with rest have ge: "\<forall>x \<in> set (take 24 ?xs). dw_preflightDurationMs w \<le> ?score x" by force
  have "distinct (map window_key ?xs)" using eligible_keys [OF d] by (rule by_score_distinct)
  then have dx: "distinct (take 24 ?xs)" by (simp only: distinct_map distinct_take)
  let ?P = "\<lambda>e. dw_preflightDurationMs w \<le> ?score e"
  have dy: "distinct ?ys"
    using selection_values [OF selected_windows_ok(1)] by (simp only: distinct_map [of window_key] distinct_sort)
  have "set (take 24 ?xs) \<subseteq> set (filter ?P ?ys)"
    using top_in_selection [OF d] ge by auto
  then have "card (set (take 24 ?xs)) \<le> card (set (filter ?P ?ys))" by (intro card_mono) simp_all
  moreover have "card (set (take 24 ?xs)) = 24" using distinct_card [OF dx] len by simp
  moreover have "card (set (filter ?P ?ys)) = length (filter ?P ?ys)"
    by (rule distinct_card) (rule distinct_filter [OF dy])
  ultimately have "24 \<le> length (filter ?P ?ys)" by simp
  also have "\<dots> = length (filter (\<lambda>s. dw_preflightDurationMs w \<le> ds_preflightDurationMs s)
      (map window_sample ?ys))"
    by (simp add: filter_map o_def split_def window_sample_def)
  finally show ?thesis .
qed

subsection \<open>Properties\<close>

text \<open>
  The windows kept in a report are few and the relevant ones: there are at most 64
  samples, in strictly increasing order of their window, each of a recorded window; and
  when the windows have distinct indices, a completed window that is left out had a
  preflight no longer than that of at least 24 of the samples.
\<close>

theorem preflight_samples:
  fixes windows :: "DiagnosticWindow list"
  defines "samples \<equiv> selectPreflightWindowSamples windows"
  shows "length samples \<le> 64 \<and> sorted_wrt (<) (map ds_windowIndex samples) \<and>
    (\<forall>s \<in> set samples. \<exists>(w, p, t) \<in> set (eligible windows). w \<in> set windows \<and> s = window_sample (w, p, t)) \<and>
    (\<forall>(w, p, t) \<in> set (eligible windows).
       distinct (map dw_windowIndex windows) \<longrightarrow> window_sample (w, p, t) \<notin> set samples \<longrightarrow>
       24 \<le> length (filter (\<lambda>s. dw_preflightDurationMs w \<le> ds_preflightDurationMs s) samples))"
proof -
  let ?es = "eligible windows" and ?m = "selected_windows windows"
  let ?score = "\<lambda>(w, p, t). dw_preflightDurationMs w"
  note ok = selected_windows_ok [of windows]
  have vals: "distinct (map window_key (map snd ?m))" "set (map snd ?m) \<subseteq> set ?es"
    using selection_values [OF ok(1)] by simp_all
  have samples: "samples = map window_sample (sort_key window_key (map snd ?m))"
    by (simp add: samples_def selectPreflightWindowSamples_def)
  then have idx: "map ds_windowIndex samples = map window_key (sort_key window_key (map snd ?m))"
    by simp
  have "sorted (map window_key (sort_key window_key (map snd ?m)))" by simp
  moreover have "distinct (map window_key (sort_key window_key (map snd ?m)))"
    using vals(1) by (simp only: distinct_map [of window_key] distinct_sort set_sort)
  ultimately have sorted: "sorted_wrt (<) (map ds_windowIndex samples)"
    by (simp only: idx strict_sorted_iff)
  have len: "length samples \<le> 64" using ok(2) by (simp add: samples)
  have origin: "\<forall>s \<in> set samples. \<exists>(w, p, t) \<in> set ?es. w \<in> set windows \<and> s = window_sample (w, p, t)"
  proof
    fix s assume "s \<in> set samples"
    then obtain e where "e \<in> set ?es" "s = window_sample e" using vals(2) by (auto simp: samples)
    moreover obtain w p t where e: "e = (w, p, t)" using prod_cases3 by blast
    moreover have "w \<in> set windows" using calculation by (simp add: eligible_set)
    ultimately show "\<exists>(w, p, t) \<in> set ?es. w \<in> set windows \<and> s = window_sample (w, p, t)"
      by (intro bexI [of _ e]) simp_all
  qed
  have top: "24 \<le> length (filter (\<lambda>s. dw_preflightDurationMs w \<le> ds_preflightDurationMs s) samples)"
    if e: "(w, p, t) \<in> set ?es" and d: "distinct (map dw_windowIndex windows)"
      and out: "window_sample (w, p, t) \<notin> set samples" for w p t
  proof -
    have "(w, p, t) \<notin> snd ` set ?m" using out by (auto simp: samples)
    from left_out_top [OF e d this] show ?thesis by (simp only: samples)
  qed
  show ?thesis using len sorted origin top by auto
qed

definition sample_window :: "nat \<Rightarrow> number \<Rightarrow> DiagnosticWindow" where
  "sample_window i ms =
     \<lparr>dw_windowIndex = i, dw_status = Window_ready, dw_selectedCount = 1, dw_preparedCount = 1,
      dw_failedCount = 0, dw_discoveredBytes = 5, dw_selectedMediaBytes = 5,
      dw_additionalComponentsBytes = 0, dw_selectedMediaFiles = 1, dw_additionalComponentsFiles = 0,
      dw_plannedUploadBytes = 5, dw_preflightSkippedFiles = 0, dw_preflightSkippedBytes = 0,
      dw_appleFilenameCount = 1, dw_fallbackFilenameCount = 0, dw_startedElapsedMs = 0,
      dw_readyElapsedMs = Some 3, dw_enqueueCompletedElapsedMs = None,
      dw_uploadCapacityWaitDurationMs = 0, dw_uploadCapacityWaitCount = 0,
      dw_preparationDurationMs = 1, dw_filenameDurationMs = 0, dw_preflightDurationMs = ms,
      dw_preflight = Some emptyWindowPreflight, dw_firstUploadStartedElapsedMs = None,
      dw_uploadTiming = Some emptyUploadTiming\<rparr>"

theorem preflight_samples_witness:
  "let windows = [sample_window 3 7, sample_window 1 9] in
     distinct (map dw_windowIndex windows) \<and> length (eligible windows) = 2 \<and>
     map ds_windowIndex (selectPreflightWindowSamples windows) = [1, 3] \<and>
     sorted_wrt (<) (map ds_windowIndex (selectPreflightWindowSamples windows))"
proof -
  let ?ws = "[sample_window 3 7, sample_window 1 9]"
  have "map ds_windowIndex (selectPreflightWindowSamples ?ws) = [1, 3]"
    by (simp add: selectPreflightWindowSamples_def selected_windows_def take_windows_def by_score_def
        window_key_def sample_window_def Let_def MAX_PREFLIGHT_WINDOW_SAMPLES_def
        emptyWindowPreflight_def emptyPreflightMetrics_def emptyUploadTiming_def
        DuplicatePreflightMetrics.extend_def DiagnosticWindowPreflight.fields_def)
  then show ?thesis using preflight_samples [of ?ws] by (simp add: sample_window_def)
qed

end
