(* ===== verification/TransferDiagnostics.thy ===== *)
theory TransferDiagnostics
  imports DiagnosticAggregation
begin

text \<open>
  \<open>services/diagnostics/TransferDiagnostics.ts\<close>: the report of one transfer and its
  coalesced writes. Every method takes the object's state and returns the new one; the
  clock reading of a synchronous method is its argument \<open>now\<close>. The asynchronous writer that
  \<open>queueWrite\<close> chains is modelled by its synchronous segments in \<open>diag_sys\<close>: it starts, it
  takes a snapshot, the write settles, and it looks again.
\<close>

subsection \<open>The class\<close>

definition MAX_FAILURE_DETAILS :: nat where "MAX_FAILURE_DETAILS = 1000"
definition WINDOW_PERSIST_INTERVAL :: nat where "WINDOW_PERSIST_INTERVAL = 8"

record TransferDiagnostics =
  td_report :: TransferDiagnosticReport
  td_windowIndexById :: "(nat, nat) jsmap"
  td_revision :: nat
  td_persistedRevision :: nat
  td_writeScheduled :: bool
  td_hasPersistedReport :: bool

definition new_report ::
  "string \<Rightarrow> number \<Rightarrow> PreparationMode option \<Rightarrow> PreparationMode option \<Rightarrow> unit option \<Rightarrow> bool option \<Rightarrow>
   string \<Rightarrow> AppEnvironment \<Rightarrow> bool \<Rightarrow> number \<Rightarrow> TransferDiagnosticReport" where
  "new_report sessionRef selectedAssets preparationMode requestedPreparationMode reason additional
     appVersion environment nativeAvailable now =
     (let mode = (case preparationMode of Some m \<Rightarrow> m | None \<Rightarrow> Prepare_first)
      in \<lparr>rp_schemaVersion = 6, rp_sessionRef = sessionRef, rp_appVersion = appVersion,
          rp_environment = environment,
          rp_transport = (if nativeAvailable then Native_raw else Expo_base64),
          rp_requestedPreparationMode =
            Some (case requestedPreparationMode of Some m \<Rightarrow> m | None \<Rightarrow> mode),
          rp_preparationMode = Some mode, rp_automaticPreparationReason = reason,
          rp_includeAdditionalMediaComponents = (additional = Some True),
          rp_startedAt = now, rp_updatedAt = now, rp_completedAt = None,
          rp_sessionDurationMs = None, rp_firstUploadStartedElapsedMs = None,
          rp_firstAcknowledgementElapsedMs = None, rp_preparationCompletedElapsedMs = None,
          rp_uploadPhaseDurationMs = None, rp_completionStatus = Running,
          rp_selectedAssets = selectedAssets, rp_preparedAssets = 0, rp_expandedFiles = 0,
          rp_selectedFiles = selectedAssets, rp_preparedFiles = 0, rp_uploadedFiles = 0,
          rp_skippedFiles = 0, rp_failedFiles = 0, rp_discoveredBytes = 0,
          rp_selectedMediaBytes = 0, rp_additionalComponentsBytes = 0, rp_selectedMediaFiles = 0,
          rp_additionalComponentsFiles = 0, rp_plannedUploadBytes = 0, rp_acknowledgedBytes = 0,
          rp_skippedBytes = 0, rp_preflightSkippedFiles = 0, rp_preflightSkippedBytes = 0,
          rp_serverSkippedFiles = 0, rp_serverSkippedBytes = 0, rp_retryCount = 0,
          rp_averageMediaMBps = 0, rp_peakMediaMBps = 0, rp_queueMaxDepth = 0,
          rp_uploadCapacityWaitDurationMs = 0, rp_uploadCapacityWaitCount = 0,
          rp_maxUploadCapacityWaitDurationMs = 0, rp_maxActiveUploadWorkers = 0,
          rp_filenameResolvedAppleFiles = 0, rp_filenameFallbackFiles = 0,
          rp_peakNativeResidentMemoryBytes = 0, rp_preflight = emptyPreflightSummary,
          rp_uploadTiming = emptyUploadTiming,
          rp_materialization = map emptyMaterializationSummary MATERIALIZATION_PATHS,
          rp_windows = [], rp_preflightWindowSamples = [], rp_failures = [],
          rp_failureCounts = [], rp_omittedFailureDetails = 0, rp_thermalTransitions = []\<rparr>)"

definition new_TransferDiagnostics :: "TransferDiagnosticReport \<Rightarrow> TransferDiagnostics" where
  "new_TransferDiagnostics report =
     \<lparr>td_report = report, td_windowIndexById = [], td_revision = 0, td_persistedRevision = 0,
      td_writeScheduled = False, td_hasPersistedReport = False\<rparr>"

definition upd_report ::
  "(TransferDiagnosticReport \<Rightarrow> TransferDiagnosticReport) \<Rightarrow> TransferDiagnostics \<Rightarrow> TransferDiagnostics" where
  "upd_report f s = s\<lparr>td_report := f (td_report s)\<rparr>"

text \<open>The synchronous part of \<open>queueWrite\<close>; the chained writer is below.\<close>

definition queueWrite :: "number \<Rightarrow> TransferDiagnostics \<Rightarrow> TransferDiagnostics" where
  "queueWrite now s =
     (upd_report (rp_updatedAt_update (\<lambda>_. now)) s)
       \<lparr>td_revision := td_revision s + 1, td_writeScheduled := True\<rparr>"

definition diagnostics_start :: "number \<Rightarrow> TransferDiagnostics \<Rightarrow> TransferDiagnostics" where
  "diagnostics_start now s = queueWrite now s"

definition elapsedMs :: "number \<Rightarrow> TransferDiagnostics \<Rightarrow> number" where
  "elapsedMs now s = max 0 (now - rp_startedAt (td_report s))"

definition begun_window :: "nat \<Rightarrow> number \<Rightarrow> number \<Rightarrow> DiagnosticWindow" where
  "begun_window windowIndex selectedCount elapsed =
     \<lparr>dw_windowIndex = windowIndex, dw_status = Window_preparing,
      dw_selectedCount = selectedCount, dw_preparedCount = 0, dw_failedCount = 0,
      dw_discoveredBytes = 0, dw_selectedMediaBytes = 0, dw_additionalComponentsBytes = 0,
      dw_selectedMediaFiles = 0, dw_additionalComponentsFiles = 0, dw_plannedUploadBytes = 0,
      dw_preflightSkippedFiles = 0, dw_preflightSkippedBytes = 0, dw_appleFilenameCount = 0,
      dw_fallbackFilenameCount = 0, dw_startedElapsedMs = elapsed, dw_readyElapsedMs = None,
      dw_enqueueCompletedElapsedMs = None, dw_uploadCapacityWaitDurationMs = 0,
      dw_uploadCapacityWaitCount = 0, dw_preparationDurationMs = 0, dw_filenameDurationMs = 0,
      dw_preflightDurationMs = 0, dw_preflight = Some emptyWindowPreflight,
      dw_firstUploadStartedElapsedMs = None, dw_uploadTiming = Some emptyUploadTiming\<rparr>"

definition push_window :: "DiagnosticWindow \<Rightarrow> TransferDiagnostics \<Rightarrow> TransferDiagnostics" where
  "push_window w s =
     (upd_report (\<lambda>r. r\<lparr>rp_windows := rp_windows r @ [w]\<rparr>) s)
       \<lparr>td_windowIndexById := map_set (dw_windowIndex w) (length (rp_windows (td_report s)))
          (td_windowIndexById s)\<rparr>"

definition beginWindow :: "nat \<Rightarrow> number \<Rightarrow> number \<Rightarrow> TransferDiagnostics \<Rightarrow> TransferDiagnostics" where
  "beginWindow windowIndex selectedCount now s =
     (if map_has (td_windowIndexById s) windowIndex then s
      else push_window (begun_window windowIndex selectedCount (elapsedMs now s)) s)"

text \<open>The window that \<open>windowIndexById\<close> points to, with its position.\<close>

definition known_window :: "nat \<Rightarrow> TransferDiagnostics \<Rightarrow> (nat \<times> DiagnosticWindow) option" where
  "known_window windowIndex s =
     (case map_get (td_windowIndexById s) windowIndex of
        None \<Rightarrow> None
      | Some i \<Rightarrow>
          (if i < length (rp_windows (td_report s)) then Some (i, rp_windows (td_report s) ! i) else None))"

definition existing_or_zero :: "(DiagnosticWindow \<Rightarrow> number) \<Rightarrow> DiagnosticWindow option \<Rightarrow> number" where
  "existing_or_zero f existing = (case existing of Some w \<Rightarrow> f w | None \<Rightarrow> 0)"

definition completed_window ::
  "DiagnosticWindow \<Rightarrow> DiagnosticWindow option \<Rightarrow> number \<Rightarrow> DiagnosticWindow" where
  "completed_window window existing elapsed =
     window\<lparr>dw_status := Window_ready,
            dw_startedElapsedMs :=
              (case existing of Some e \<Rightarrow> dw_startedElapsedMs e | None \<Rightarrow> dw_startedElapsedMs window),
            dw_readyElapsedMs :=
              Some (case dw_readyElapsedMs window of Some t \<Rightarrow> t | None \<Rightarrow> elapsed),
            dw_preflight :=
              Some (case dw_preflight window of Some p \<Rightarrow> p | None \<Rightarrow> emptyWindowPreflight),
            dw_uploadTiming :=
              Some (case dw_uploadTiming window of Some t \<Rightarrow> t | None \<Rightarrow> emptyUploadTiming)\<rparr>"

text \<open>The totals that \<open>checkpointWindow\<close> moves by the difference to the replaced window.\<close>

definition checkpoint_totals ::
  "DiagnosticWindow \<Rightarrow> DiagnosticWindow option \<Rightarrow> TransferDiagnosticReport \<Rightarrow> TransferDiagnosticReport" where
  "checkpoint_totals w existing r =
     (let before = (\<lambda>f. existing_or_zero f existing) in
      r\<lparr>rp_preparedFiles := rp_preparedFiles r + (dw_preparedCount w - before dw_preparedCount),
        rp_preparedAssets := rp_preparedAssets r + (dw_selectedCount w - before dw_selectedCount),
        rp_expandedFiles := rp_expandedFiles r +
          (dw_preparedCount w + dw_failedCount w - (before dw_preparedCount + before dw_failedCount)),
        rp_discoveredBytes := rp_discoveredBytes r + (dw_discoveredBytes w - before dw_discoveredBytes),
        rp_selectedMediaBytes :=
          rp_selectedMediaBytes r + (dw_selectedMediaBytes w - before dw_selectedMediaBytes),
        rp_additionalComponentsBytes :=
          rp_additionalComponentsBytes r +
          (dw_additionalComponentsBytes w - before dw_additionalComponentsBytes),
        rp_selectedMediaFiles :=
          rp_selectedMediaFiles r + (dw_selectedMediaFiles w - before dw_selectedMediaFiles),
        rp_additionalComponentsFiles :=
          rp_additionalComponentsFiles r +
          (dw_additionalComponentsFiles w - before dw_additionalComponentsFiles),
        rp_plannedUploadBytes :=
          rp_plannedUploadBytes r + (dw_plannedUploadBytes w - before dw_plannedUploadBytes),
        rp_preflightSkippedFiles :=
          rp_preflightSkippedFiles r + (dw_preflightSkippedFiles w - before dw_preflightSkippedFiles),
        rp_preflightSkippedBytes :=
          rp_preflightSkippedBytes r + (dw_preflightSkippedBytes w - before dw_preflightSkippedBytes),
        rp_filenameResolvedAppleFiles :=
          rp_filenameResolvedAppleFiles r + (dw_appleFilenameCount w - before dw_appleFilenameCount),
        rp_filenameFallbackFiles :=
          rp_filenameFallbackFiles r + (dw_fallbackFilenameCount w - before dw_fallbackFilenameCount)\<rparr>)"

definition checkpoint_preflight ::
  "DiagnosticWindow \<Rightarrow> DiagnosticWindow option \<Rightarrow> TransferDiagnosticReport \<Rightarrow> TransferDiagnosticReport" where
  "checkpoint_preflight w existing r =
     (let earlier = (case existing of
                       Some e \<Rightarrow> (if dw_status e = Window_preparing then None else Some e) | None \<Rightarrow> None)
      in r\<lparr>rp_preflight :=
             accumulatePreflightSummary
               (case dw_preflight w of Some p \<Rightarrow> p | None \<Rightarrow> emptyWindowPreflight)
               (dw_preflightDurationMs w) (Option.bind earlier dw_preflight)
               (existing_or_zero dw_preflightDurationMs earlier) (rp_preflight r)\<rparr>)"

definition checkpointWindow :: "DiagnosticWindow \<Rightarrow> number \<Rightarrow> TransferDiagnostics \<Rightarrow> TransferDiagnostics" where
  "checkpointWindow window now s =
     (let known = known_window (dw_windowIndex window) s;
          existing = map_option snd known;
          w = completed_window window existing (elapsedMs now s);
          s1 = (case known of
                  Some (i, e) \<Rightarrow> upd_report (\<lambda>r. r\<lparr>rp_windows := (rp_windows r)[i := w]\<rparr>) s
                | None \<Rightarrow> push_window w s);
          s2 = upd_report (checkpoint_preflight w existing \<circ> checkpoint_totals w existing) s1
      in if (dw_windowIndex window + 1) mod WINDOW_PERSIST_INTERVAL = 0 then queueWrite now s2 else s2)"

definition update_window ::
  "nat \<Rightarrow> (DiagnosticWindow \<Rightarrow> DiagnosticWindow) \<Rightarrow> TransferDiagnostics \<Rightarrow> TransferDiagnostics" where
  "update_window windowIndex f s =
     (case known_window windowIndex s of
        Some (i, w) \<Rightarrow> upd_report (\<lambda>r. r\<lparr>rp_windows := (rp_windows r)[i := f w]\<rparr>) s
      | None \<Rightarrow> s)"

definition raise_queueMaxDepth :: "nat \<Rightarrow> TransferDiagnosticReport \<Rightarrow> TransferDiagnosticReport" where
  "raise_queueMaxDepth queueMaxDepth r =
     r\<lparr>rp_queueMaxDepth := max (rp_queueMaxDepth r) queueMaxDepth\<rparr>"

definition markWindowEnqueued :: "nat \<Rightarrow> nat \<Rightarrow> number \<Rightarrow> TransferDiagnostics \<Rightarrow> TransferDiagnostics" where
  "markWindowEnqueued windowIndex queueMaxDepth now s =
     upd_report (raise_queueMaxDepth queueMaxDepth)
       (update_window windowIndex
          (\<lambda>w. w\<lparr>dw_status := Window_enqueued, dw_enqueueCompletedElapsedMs := Some (elapsedMs now s)\<rparr>) s)"

definition recordUploadCapacityWait :: "nat \<Rightarrow> jsnum \<Rightarrow> TransferDiagnostics \<Rightarrow> TransferDiagnostics" where
  "recordUploadCapacityWait windowIndex durationMs s =
     (let boundedDuration = (if isFinite durationMs then max 0 (fin_val durationMs) else 0)
      in if boundedDuration \<le> 0 then s
         else upd_report
                (\<lambda>r. r\<lparr>rp_uploadCapacityWaitDurationMs := rp_uploadCapacityWaitDurationMs r + boundedDuration,
                       rp_uploadCapacityWaitCount := rp_uploadCapacityWaitCount r + 1,
                       rp_maxUploadCapacityWaitDurationMs :=
                         max (rp_maxUploadCapacityWaitDurationMs r) boundedDuration\<rparr>)
                (update_window windowIndex
                   (\<lambda>w. w\<lparr>dw_uploadCapacityWaitDurationMs :=
                            dw_uploadCapacityWaitDurationMs w + boundedDuration,
                          dw_uploadCapacityWaitCount := dw_uploadCapacityWaitCount w + 1\<rparr>) s))"

definition recordWindowUploadStarted :: "nat \<Rightarrow> number \<Rightarrow> TransferDiagnostics \<Rightarrow> TransferDiagnostics" where
  "recordWindowUploadStarted windowIndex now s =
     update_window windowIndex
       (\<lambda>w. if dw_firstUploadStartedElapsedMs w \<noteq> None then w
            else w\<lparr>dw_firstUploadStartedElapsedMs := Some (elapsedMs now s)\<rparr>) s"

definition recordNativeUploadTiming :: "nat \<Rightarrow> upload_timing \<Rightarrow> TransferDiagnostics \<Rightarrow> TransferDiagnostics" where
  "recordNativeUploadTiming windowIndex timing s =
     update_window windowIndex
       (\<lambda>w. w\<lparr>dw_uploadTiming :=
                Some (addUploadTiming timing
                        (case dw_uploadTiming w of Some t \<Rightarrow> t | None \<Rightarrow> emptyUploadTiming))\<rparr>)
       (upd_report (\<lambda>r. r\<lparr>rp_uploadTiming := addUploadTiming timing (rp_uploadTiming r)\<rparr>) s)"

fun update_first :: "('a \<Rightarrow> bool) \<Rightarrow> ('a \<Rightarrow> 'a) \<Rightarrow> 'a list \<Rightarrow> 'a list" where
  "update_first P f [] = []"
| "update_first P f (x # xs) = (if P x then f x # xs else x # update_first P f xs)"

definition add_materialization ::
  "number \<Rightarrow> number \<Rightarrow> DiagnosticMaterializationSummary \<Rightarrow> DiagnosticMaterializationSummary" where
  "add_materialization durationMs temporaryBytes m =
     (let m1 = m\<lparr>dm_preparedFiles := dm_preparedFiles m + 1,
                 dm_totalMaterializationDurationMs := dm_totalMaterializationDurationMs m + durationMs,
                 dm_maxMaterializationDurationMs := max (dm_maxMaterializationDurationMs m) durationMs\<rparr>
      in if temporaryBytes > 0
         then m1\<lparr>dm_temporaryFiles := dm_temporaryFiles m1 + 1,
                 dm_temporaryBytesWritten := dm_temporaryBytesWritten m1 + temporaryBytes,
                 dm_maxTemporaryFileBytes := max (dm_maxTemporaryFileBytes m1) temporaryBytes\<rparr>
         else m1)"

definition nonneg_option :: "number option \<Rightarrow> number" where
  "nonneg_option v = (case v of Some x \<Rightarrow> max 0 x | None \<Rightarrow> 0)"

definition recordMaterialization :: "PreparedUploadFile \<Rightarrow> TransferDiagnostics \<Rightarrow> TransferDiagnostics" where
  "recordMaterialization f s =
     (let path = (case puf_materializationPath f of Some p \<Rightarrow> p | None \<Rightarrow> Expo_direct)
      in upd_report
           (\<lambda>r. r\<lparr>rp_materialization :=
                    update_first (\<lambda>m. dm_path m = path)
                      (add_materialization (nonneg_option (puf_materializationDurationMs f))
                         (nonneg_option (puf_temporaryBytesWritten f)))
                      (rp_materialization r)\<rparr>) s)"

definition add_release :: "number \<Rightarrow> DiagnosticMaterializationSummary \<Rightarrow> DiagnosticMaterializationSummary" where
  "add_release lifetimeMs m =
     m\<lparr>dm_releasedFiles := dm_releasedFiles m + 1,
       dm_totalTemporaryLifetimeMs := dm_totalTemporaryLifetimeMs m + lifetimeMs,
       dm_maxTemporaryLifetimeMs := max (dm_maxTemporaryLifetimeMs m) lifetimeMs\<rparr>"

definition recordTemporaryRelease :: "NativeReleaseMetrics \<Rightarrow> TransferDiagnostics \<Rightarrow> TransferDiagnostics" where
  "recordTemporaryRelease release s =
     (if nrm_temporaryBytesWritten release \<le> 0 then s
      else upd_report
             (\<lambda>r. r\<lparr>rp_materialization :=
                      update_first (\<lambda>m. dm_path m = nrm_materializationPath release)
                        (add_release (max 0 (nrm_temporaryLifetimeMs release))) (rp_materialization r)\<rparr>) s)"

definition markPreparationComplete :: "nat \<Rightarrow> number \<Rightarrow> TransferDiagnostics \<Rightarrow> TransferDiagnostics" where
  "markPreparationComplete queueMaxDepth now s =
     queueWrite now
       (upd_report
          (\<lambda>r. raise_queueMaxDepth queueMaxDepth
                 (r\<lparr>rp_preparationCompletedElapsedMs := Some (elapsedMs now s)\<rparr>)) s)"

definition recordUploadWorkerStarted :: "nat \<Rightarrow> number \<Rightarrow> TransferDiagnostics \<Rightarrow> TransferDiagnostics" where
  "recordUploadWorkerStarted activeWorkers now s =
     (let r = td_report s;
          first = (rp_firstUploadStartedElapsedMs r = None);
          more = (activeWorkers > rp_maxActiveUploadWorkers r);
          s1 = upd_report
                 (\<lambda>r. r\<lparr>rp_firstUploadStartedElapsedMs :=
                          (if first then Some (elapsedMs now s) else rp_firstUploadStartedElapsedMs r),
                        rp_maxActiveUploadWorkers :=
                          (if more then activeWorkers else rp_maxActiveUploadWorkers r)\<rparr>) s
      in if first \<or> more then queueWrite now s1 else s1)"

definition recordFirstAcknowledgement :: "number \<Rightarrow> TransferDiagnostics \<Rightarrow> TransferDiagnostics" where
  "recordFirstAcknowledgement now s =
     (if rp_firstAcknowledgementElapsedMs (td_report s) \<noteq> None then s
      else queueWrite now
             (upd_report (\<lambda>r. r\<lparr>rp_firstAcknowledgementElapsedMs := Some (elapsedMs now s)\<rparr>) s))"

definition count_failure :: "DiagnosticFailure \<Rightarrow> DiagnosticFailureCount list \<Rightarrow> DiagnosticFailureCount list" where
  "count_failure failure counts =
     (let same = (\<lambda>c. dfc_stage c = df_stage failure \<and> dfc_code c = df_code failure)
      in if \<exists>c \<in> set counts. same c
         then update_first same (\<lambda>c. c\<lparr>dfc_count := dfc_count c + 1\<rparr>) counts
         else counts @ [\<lparr>dfc_stage = df_stage failure, dfc_code = df_code failure, dfc_count = 1\<rparr>])"

definition recordFailure :: "DiagnosticFailure \<Rightarrow> TransferDiagnostics \<Rightarrow> TransferDiagnostics" where
  "recordFailure failure s =
     upd_report
       (\<lambda>r. (if length (rp_failures r) < MAX_FAILURE_DETAILS
             then r\<lparr>rp_failures := rp_failures r @ [failure]\<rparr>
             else r\<lparr>rp_omittedFailureDetails := rp_omittedFailureDetails r + 1\<rparr>)
            \<lparr>rp_failureCounts := count_failure failure (rp_failureCounts r),
             rp_failedFiles := rp_failedFiles r + 1\<rparr>) s"

definition recordThermal :: "ThermalState \<Rightarrow> number \<Rightarrow> TransferDiagnostics \<Rightarrow> TransferDiagnostics" where
  "recordThermal st now s =
     (let transitions = rp_thermalTransitions (td_report s)
      in if transitions \<noteq> [] \<and> dtt_state (last transitions) = st then s
         else queueWrite now
                (upd_report
                   (\<lambda>r. r\<lparr>rp_thermalTransitions :=
                            transitions @ [\<lparr>dtt_state = st, dtt_elapsedMs = now - rp_startedAt r\<rparr>]\<rparr>) s))"

record transfer_values =
  tv_preparedAssets :: number
  tv_expandedFiles :: number
  tv_uploadedFiles :: number
  tv_skippedFiles :: number
  tv_failedFiles :: number
  tv_selectedMediaBytes :: number
  tv_additionalComponentsBytes :: number
  tv_selectedMediaFiles :: number
  tv_additionalComponentsFiles :: number
  tv_plannedUploadBytes :: number
  tv_acknowledgedBytes :: number
  tv_skippedBytes :: number
  tv_preflightSkippedFiles :: number
  tv_preflightSkippedBytes :: number
  tv_serverSkippedFiles :: number
  tv_serverSkippedBytes :: number
  tv_retryCount :: number
  tv_averageMediaMBps :: number
  tv_peakMediaMBps :: number
  tv_queueMaxDepth :: nat
  tv_maxActiveUploadWorkers :: nat
  tv_filenameResolvedAppleFiles :: number
  tv_filenameFallbackFiles :: number
  tv_peakNativeResidentMemoryBytes :: number

definition assign_values :: "transfer_values \<Rightarrow> TransferDiagnosticReport \<Rightarrow> TransferDiagnosticReport" where
  "assign_values v r =
     r\<lparr>rp_preparedAssets := tv_preparedAssets v, rp_expandedFiles := tv_expandedFiles v,
       rp_uploadedFiles := tv_uploadedFiles v, rp_skippedFiles := tv_skippedFiles v,
       rp_failedFiles := tv_failedFiles v, rp_selectedMediaBytes := tv_selectedMediaBytes v,
       rp_additionalComponentsBytes := tv_additionalComponentsBytes v,
       rp_selectedMediaFiles := tv_selectedMediaFiles v,
       rp_additionalComponentsFiles := tv_additionalComponentsFiles v,
       rp_plannedUploadBytes := tv_plannedUploadBytes v,
       rp_acknowledgedBytes := tv_acknowledgedBytes v, rp_skippedBytes := tv_skippedBytes v,
       rp_preflightSkippedFiles := tv_preflightSkippedFiles v,
       rp_preflightSkippedBytes := tv_preflightSkippedBytes v,
       rp_serverSkippedFiles := tv_serverSkippedFiles v,
       rp_serverSkippedBytes := tv_serverSkippedBytes v, rp_retryCount := tv_retryCount v,
       rp_averageMediaMBps := tv_averageMediaMBps v, rp_peakMediaMBps := tv_peakMediaMBps v,
       rp_queueMaxDepth := tv_queueMaxDepth v,
       rp_maxActiveUploadWorkers := tv_maxActiveUploadWorkers v,
       rp_filenameResolvedAppleFiles := tv_filenameResolvedAppleFiles v,
       rp_filenameFallbackFiles := tv_filenameFallbackFiles v,
       rp_peakNativeResidentMemoryBytes := tv_peakNativeResidentMemoryBytes v\<rparr>"

definition updateTransfer :: "transfer_values \<Rightarrow> number \<Rightarrow> TransferDiagnostics \<Rightarrow> TransferDiagnostics" where
  "updateTransfer v now s = queueWrite now (upd_report (assign_values v) s)"

definition diagnostics_finish :: "ReportStatus \<Rightarrow> number \<Rightarrow> TransferDiagnostics \<Rightarrow> TransferDiagnostics" where
  "diagnostics_finish status now s =
     queueWrite now
       (upd_report
          (\<lambda>r. r\<lparr>rp_completionStatus := status, rp_completedAt := Some now,
                 rp_sessionDurationMs := Some (elapsedMs now s),
                 rp_uploadPhaseDurationMs :=
                   (case rp_firstUploadStartedElapsedMs r of
                      Some t \<Rightarrow> Some (max 0 (elapsedMs now s - t))
                    | None \<Rightarrow> rp_uploadPhaseDurationMs r)\<rparr>) s)"

subsection \<open>Calls and the writer\<close>

datatype diag_op =
    D_start number
  | D_beginWindow nat number number
  | D_checkpointWindow DiagnosticWindow number
  | D_markWindowEnqueued nat nat number
  | D_recordUploadCapacityWait nat jsnum
  | D_recordWindowUploadStarted nat number
  | D_recordNativeUploadTiming nat upload_timing
  | D_recordMaterialization PreparedUploadFile
  | D_recordTemporaryRelease NativeReleaseMetrics
  | D_markPreparationComplete nat number
  | D_recordUploadWorkerStarted nat number
  | D_recordFirstAcknowledgement number
  | D_recordFailure DiagnosticFailure
  | D_recordThermal ThermalState number
  | D_updateTransfer transfer_values number
  | D_finish ReportStatus number

fun diag_step :: "diag_op \<Rightarrow> TransferDiagnostics \<Rightarrow> TransferDiagnostics" where
  "diag_step (D_start now) = diagnostics_start now"
| "diag_step (D_beginWindow i n now) = beginWindow i n now"
| "diag_step (D_checkpointWindow w now) = checkpointWindow w now"
| "diag_step (D_markWindowEnqueued i d now) = markWindowEnqueued i d now"
| "diag_step (D_recordUploadCapacityWait i d) = recordUploadCapacityWait i d"
| "diag_step (D_recordWindowUploadStarted i now) = recordWindowUploadStarted i now"
| "diag_step (D_recordNativeUploadTiming i t) = recordNativeUploadTiming i t"
| "diag_step (D_recordMaterialization f) = recordMaterialization f"
| "diag_step (D_recordTemporaryRelease m) = recordTemporaryRelease m"
| "diag_step (D_markPreparationComplete d now) = markPreparationComplete d now"
| "diag_step (D_recordUploadWorkerStarted n now) = recordUploadWorkerStarted n now"
| "diag_step (D_recordFirstAcknowledgement now) = recordFirstAcknowledgement now"
| "diag_step (D_recordFailure f) = recordFailure f"
| "diag_step (D_recordThermal st now) = recordThermal st now"
| "diag_step (D_updateTransfer v now) = updateTransfer v now"
| "diag_step (D_finish status now) = diagnostics_finish status now"

text \<open>
  The writer of \<open>queueWrite\<close>: not scheduled, chained but not started, or suspended in
  \<open>persistDiagnosticReport\<close> with its target revision and snapshot. \<open>dg_saved\<close> holds the
  snapshots whose writes succeeded.
\<close>

datatype writer = Writer_idle | Writer_queued | Writer_saving nat TransferDiagnosticReport

record diag_sys =
  dg_state :: TransferDiagnostics
  dg_writer :: writer
  dg_saved :: "TransferDiagnosticReport list"

definition init_diag :: "TransferDiagnosticReport \<Rightarrow> diag_sys" where
  "init_diag report =
     \<lparr>dg_state = new_TransferDiagnostics report, dg_writer = Writer_idle, dg_saved = []\<rparr>"

text \<open>The \<open>while\<close> loop up to its \<open>await\<close> or to the end, with \<open>filesystem\<close> available or not.\<close>

definition writer_loop :: "bool \<Rightarrow> diag_sys \<Rightarrow> diag_sys" where
  "writer_loop filesystem s =
     (let d = dg_state s in
      if td_persistedRevision d < td_revision d \<and> filesystem
      then s\<lparr>dg_writer := Writer_saving (td_revision d) (td_report d)\<rparr>
      else s\<lparr>dg_writer := Writer_idle,
             dg_state := d\<lparr>td_persistedRevision := max (td_persistedRevision d) (td_revision d),
                            td_writeScheduled := False\<rparr>\<rparr>)"

datatype diag_event = Ev_op diag_op | Ev_write_starts | Ev_write_succeeds | Ev_write_fails

fun diag_sys_step :: "bool \<Rightarrow> diag_event \<Rightarrow> diag_sys \<Rightarrow> diag_sys" where
  "diag_sys_step filesystem (Ev_op op) s =
     (let d = diag_step op (dg_state s)
      in s\<lparr>dg_state := d,
           dg_writer := (if td_writeScheduled d \<and> \<not> td_writeScheduled (dg_state s)
                         then Writer_queued else dg_writer s)\<rparr>)"
| "diag_sys_step filesystem Ev_write_starts s =
     (if dg_writer s = Writer_queued then writer_loop filesystem s else s)"
| "diag_sys_step filesystem Ev_write_succeeds s =
     (case dg_writer s of
        Writer_saving revision snapshot \<Rightarrow>
          writer_loop filesystem
            (s\<lparr>dg_saved := dg_saved s @ [snapshot],
               dg_state := (dg_state s)\<lparr>td_hasPersistedReport := True, td_persistedRevision := revision\<rparr>\<rparr>)
      | _ \<Rightarrow> s)"
| "diag_sys_step filesystem Ev_write_fails s =
     (case dg_writer s of
        Writer_saving revision snapshot \<Rightarrow>
          s\<lparr>dg_writer := Writer_idle, dg_state := (dg_state s)\<lparr>td_writeScheduled := False\<rparr>\<rparr>
      | _ \<Rightarrow> s)"

subsection \<open>Lemmas: windows and totals\<close>

text \<open>The totals of the report that are sums over its windows.\<close>

definition window_sums :: "TransferDiagnosticReport \<Rightarrow> bool" where
  "window_sums r \<longleftrightarrow>
     (let total = (\<lambda>f. sum_list (map f (rp_windows r))) in
      rp_preparedFiles r = total dw_preparedCount \<and>
      rp_expandedFiles r = total dw_preparedCount + total dw_failedCount \<and>
      rp_discoveredBytes r = total dw_discoveredBytes \<and>
      rp_selectedMediaBytes r = total dw_selectedMediaBytes \<and>
      rp_additionalComponentsBytes r = total dw_additionalComponentsBytes \<and>
      rp_selectedMediaFiles r = total dw_selectedMediaFiles \<and>
      rp_additionalComponentsFiles r = total dw_additionalComponentsFiles \<and>
      rp_plannedUploadBytes r = total dw_plannedUploadBytes \<and>
      rp_preflightSkippedFiles r = total dw_preflightSkippedFiles \<and>
      rp_preflightSkippedBytes r = total dw_preflightSkippedBytes \<and>
      rp_filenameResolvedAppleFiles r = total dw_appleFilenameCount \<and>
      rp_filenameFallbackFiles r = total dw_fallbackFilenameCount)"

definition window_index_ok :: "TransferDiagnostics \<Rightarrow> bool" where
  "window_index_ok s \<longleftrightarrow>
     (\<forall>k i. map_get (td_windowIndexById s) k = Some i \<longleftrightarrow>
        i < length (rp_windows (td_report s)) \<and> dw_windowIndex (rp_windows (td_report s) ! i) = k)"

definition diag_inv :: "TransferDiagnostics \<Rightarrow> bool" where
  "diag_inv s \<longleftrightarrow> window_index_ok s \<and> window_sums (td_report s)"

text \<open>What the invariant reads of a report and of a window.\<close>

definition report_view :: "TransferDiagnosticReport \<Rightarrow> number list" where
  "report_view r =
     [rp_preparedFiles r, rp_expandedFiles r, rp_discoveredBytes r, rp_selectedMediaBytes r,
      rp_additionalComponentsBytes r, rp_selectedMediaFiles r, rp_additionalComponentsFiles r,
      rp_plannedUploadBytes r, rp_preflightSkippedFiles r, rp_preflightSkippedBytes r,
      rp_filenameResolvedAppleFiles r, rp_filenameFallbackFiles r]"

definition window_view :: "DiagnosticWindow \<Rightarrow> nat \<times> number list" where
  "window_view w =
     (dw_windowIndex w,
      [dw_preparedCount w, dw_failedCount w, dw_discoveredBytes w, dw_selectedMediaBytes w,
       dw_additionalComponentsBytes w, dw_selectedMediaFiles w, dw_additionalComponentsFiles w,
       dw_plannedUploadBytes w, dw_preflightSkippedFiles w, dw_preflightSkippedBytes w,
       dw_appleFilenameCount w, dw_fallbackFilenameCount w])"

lemma td_report_upd [simp]: "td_report (upd_report f s) = f (td_report s)"
  "td_windowIndexById (upd_report f s) = td_windowIndexById s"
  by (simp_all add: upd_report_def)

lemma diag_inv_view:
  assumes "diag_inv s" and "td_windowIndexById t = td_windowIndexById s"
    and "map window_view (rp_windows (td_report t)) = map window_view (rp_windows (td_report s))"
    and "report_view (td_report t) = report_view (td_report s)"
  shows "diag_inv t"
proof -
  let ?ws = "rp_windows (td_report s)" and ?ws' = "rp_windows (td_report t)"
  have len: "length ?ws' = length ?ws" using arg_cong [OF assms(3), of length] by simp
  have "window_view (?ws' ! i) = window_view (?ws ! i)" if "i < length ?ws" for i
    using assms(3) that len by (metis nth_map)
  then have "dw_windowIndex (?ws' ! i) = dw_windowIndex (?ws ! i)" if "i < length ?ws" for i
    using that by (simp add: window_view_def)
  with assms(1,2) len have "window_index_ok t" by (auto simp: diag_inv_def window_index_ok_def)
  moreover have "map (\<lambda>w. snd (window_view w) ! k) ?ws' = map (\<lambda>w. snd (window_view w) ! k) ?ws" for k
    using arg_cong [OF assms(3), of "map (\<lambda>v. snd v ! k)"] by (simp add: o_def)
  from this [of 0] this [of 1] this [of 2] this [of 3] this [of 4] this [of 5]
    this [of 6] this [of 7] this [of 8] this [of 9] this [of 10] this [of 11]
  have "window_sums (td_report t) = window_sums (td_report s)"
    using assms(4) by (simp add: window_sums_def report_view_def window_view_def)
  ultimately show ?thesis using assms(1) by (simp add: diag_inv_def)
qed

lemma diag_inv_upd:
  assumes "diag_inv s" and "\<And>r. rp_windows (f r) = rp_windows r" and "\<And>r. report_view (f r) = report_view r"
  shows "diag_inv (upd_report f s)"
  by (rule diag_inv_view [OF assms(1)]) (simp_all add: assms)

lemma known_window_SomeD:
  "known_window k s = Some (i, w) \<Longrightarrow> i < length (rp_windows (td_report s)) \<and>
     w = rp_windows (td_report s) ! i \<and> map_get (td_windowIndexById s) k = Some i"
  by (auto simp: known_window_def split: option.splits if_splits)

lemma diag_inv_update_window:
  assumes "diag_inv s" and "\<And>w. window_view (f w) = window_view w"
  shows "diag_inv (update_window k f s)"
proof (cases "known_window k s")
  case None
  then show ?thesis using assms by (simp add: update_window_def)
next
  case (Some iw)
  obtain i w where iw: "iw = (i, w)" by (cases iw)
  note known = known_window_SomeD [OF Some [unfolded iw]]
  have "map window_view ((rp_windows (td_report s))[i := f w]) = map window_view (rp_windows (td_report s))"
    using known by (simp add: map_update assms(2)) (simp add: list_update_same_conv)
  then show ?thesis using Some iw known
    by (intro diag_inv_view [OF assms(1)]) (simp_all add: update_window_def report_view_def)
qed

lemma diag_inv_queueWrite: "diag_inv s \<Longrightarrow> diag_inv (queueWrite now s)"
  by (rule diag_inv_view) (simp_all add: queueWrite_def report_view_def)

lemma window_index_push:
  assumes "window_index_ok s" and "map_get (td_windowIndexById s) (dw_windowIndex w) = None"
  shows "window_index_ok (push_window w s)"
proof -
  have "i < length (rp_windows (td_report s)) \<Longrightarrow> dw_windowIndex (rp_windows (td_report s) ! i) \<noteq> dw_windowIndex w" for i
    using assms by (metis (full_types) option.distinct(1) window_index_ok_def)
  then show ?thesis using assms(1)
    by (auto simp: window_index_ok_def push_window_def nth_append less_Suc_eq)
qed

lemma diag_inv_beginWindow: "diag_inv s \<Longrightarrow> diag_inv (beginWindow k n now s)"
  using window_index_push [of s "begun_window k n (elapsedMs now s)"]
  by (auto simp: beginWindow_def diag_inv_def map_has_def)
     (simp_all add: push_window_def window_sums_def begun_window_def Let_def)

lemma window_index_replace:
  assumes "window_index_ok s" and "map_get (td_windowIndexById s) (dw_windowIndex w) = Some i"
    and "td_windowIndexById t = td_windowIndexById s"
    and "rp_windows (td_report t) = (rp_windows (td_report s))[i := w]"
  shows "window_index_ok t"
  using assms unfolding window_index_ok_def by (metis length_list_update nth_list_update_eq nth_list_update_neq)

lemma window_sums_push:
  "window_sums r \<Longrightarrow> rp_windows q = rp_windows r @ [w] \<Longrightarrow> report_view q = report_view r \<Longrightarrow>
    window_sums (checkpoint_preflight w None (checkpoint_totals w None q))"
  by (simp add: window_sums_def checkpoint_preflight_def checkpoint_totals_def existing_or_zero_def
      report_view_def Let_def)

lemma window_sums_replace:
  "window_sums r \<Longrightarrow> i < length (rp_windows r) \<Longrightarrow> rp_windows q = (rp_windows r)[i := w] \<Longrightarrow>
    report_view q = report_view r \<Longrightarrow> e = rp_windows r ! i \<Longrightarrow>
    window_sums (checkpoint_preflight w (Some e) (checkpoint_totals w (Some e) q))"
  by (simp add: window_sums_def checkpoint_preflight_def checkpoint_totals_def existing_or_zero_def
      report_view_def Let_def sum_list_update_nth)

lemma completed_window_index [simp]: "dw_windowIndex (completed_window w e t) = dw_windowIndex w"
  by (simp add: completed_window_def)

lemma diag_inv_checkpoint:
  assumes "diag_inv s"
  shows "diag_inv (checkpointWindow window now s)"
proof -
  let ?k = "dw_windowIndex window"
  let ?existing = "map_option snd (known_window ?k s)"
  let ?w = "completed_window window ?existing (elapsedMs now s)"
  have ok: "window_index_ok s" and sums: "window_sums (td_report s)" using assms by (simp_all add: diag_inv_def)
  define s1 where "s1 = (case known_window ?k s of
      Some (i, e) \<Rightarrow> upd_report (\<lambda>r. r\<lparr>rp_windows := (rp_windows r)[i := ?w]\<rparr>) s
    | None \<Rightarrow> push_window ?w s)"
  define s2 where "s2 = upd_report (checkpoint_preflight ?w ?existing \<circ> checkpoint_totals ?w ?existing) s1"
  have keep: "rp_windows (checkpoint_preflight w e (checkpoint_totals w e r)) = rp_windows r" for w e r
    by (simp add: checkpoint_preflight_def checkpoint_totals_def Let_def)
  have "diag_inv s2"
  proof (cases "known_window ?k s")
    case None
    have "map_get (td_windowIndexById s) ?k = None"
    proof (rule ccontr)
      assume "map_get (td_windowIndexById s) ?k \<noteq> None"
      then obtain i where "map_get (td_windowIndexById s) ?k = Some i" by blast
      with ok None show False unfolding window_index_ok_def by (auto simp: known_window_def)
    qed
    then have "window_index_ok s1" using window_index_push [OF ok, of ?w] None by (simp add: s1_def)
    moreover have "window_sums (td_report s2)"
      using window_sums_push [OF sums, of "td_report s1" ?w] None
      by (simp add: s2_def s1_def push_window_def report_view_def)
    ultimately show ?thesis by (simp add: diag_inv_def s2_def window_index_ok_def keep)
  next
    case (Some iw)
    obtain i e where iw: "iw = (i, e)" by (cases iw)
    note known = known_window_SomeD [OF Some [unfolded iw]]
    have "window_index_ok s2"
      using window_index_replace [OF ok, of ?w i s2] known Some iw by (simp add: s2_def s1_def keep)
    moreover have "window_sums (td_report s2)"
      using window_sums_replace [OF sums, of i "td_report s1" ?w e] known Some iw
      by (simp add: s2_def s1_def report_view_def)
    ultimately show ?thesis by (simp add: diag_inv_def)
  qed
  then show ?thesis
    by (simp add: checkpointWindow_def Let_def s1_def s2_def diag_inv_queueWrite)
qed

lemma diag_inv_step:
  assumes "diag_inv s" and "\<forall>v now. op \<noteq> D_updateTransfer v now"
  shows "diag_inv (diag_step op s)"
proof (cases op)
  case (D_recordUploadCapacityWait i d)
  then show ?thesis using assms(1)
    by (auto simp: recordUploadCapacityWait_def Let_def report_view_def window_view_def
        intro!: diag_inv_upd diag_inv_update_window)
next
  case (D_updateTransfer v now)
  then show ?thesis using assms(2) by simp
qed (use assms(1) in \<open>auto simp: diagnostics_start_def markWindowEnqueued_def recordWindowUploadStarted_def
    recordNativeUploadTiming_def recordMaterialization_def recordTemporaryRelease_def
    markPreparationComplete_def recordUploadWorkerStarted_def recordFirstAcknowledgement_def
    recordFailure_def recordThermal_def diagnostics_finish_def raise_queueMaxDepth_def Let_def
    report_view_def window_view_def
    intro!: diag_inv_queueWrite diag_inv_beginWindow diag_inv_checkpoint diag_inv_upd diag_inv_update_window\<close>)

lemma diag_inv_new: "diag_inv (new_TransferDiagnostics (new_report a b c d e f g h i j))"
  by (simp add: diag_inv_def window_index_ok_def window_sums_def new_TransferDiagnostics_def new_report_def Let_def)

interpretation diagnostics: guarded_machine diag_step diag_inv "\<lambda>op _. \<forall>v now. op \<noteq> D_updateTransfer v now"
  by unfold_locales (rule diag_inv_step)

lemma window_index_distinct:
  assumes "window_index_ok s"
  shows "distinct (map dw_windowIndex (rp_windows (td_report s)))"
proof -
  have "i = j" if "i < length (rp_windows (td_report s))" "j < length (rp_windows (td_report s))"
    "dw_windowIndex (rp_windows (td_report s) ! i) = dw_windowIndex (rp_windows (td_report s) ! j)" for i j
    using assms that unfolding window_index_ok_def by (metis option.inject)
  then show ?thesis by (auto simp: distinct_conv_nth)
qed

subsection \<open>Lemmas: failures\<close>

fun recorded_failures :: "diag_op list \<Rightarrow> DiagnosticFailure list" where
  "recorded_failures [] = []"
| "recorded_failures (D_recordFailure f # ops) = f # recorded_failures ops"
| "recorded_failures (_ # ops) = recorded_failures ops"

definition failure_count :: "TransferStage \<Rightarrow> TransferErrorCode \<Rightarrow> DiagnosticFailureCount list \<Rightarrow> nat" where
  "failure_count stage code counts =
     sum_list (map dfc_count (filter (\<lambda>c. dfc_stage c = stage \<and> dfc_code c = code) counts))"

definition failures_of :: "TransferDiagnostics \<Rightarrow> DiagnosticFailure list \<times> nat \<times> DiagnosticFailureCount list" where
  "failures_of s = (rp_failures (td_report s), rp_omittedFailureDetails (td_report s), rp_failureCounts (td_report s))"

lemma failure_count_add:
  "failure_count stage code (count_failure f counts) =
     failure_count stage code counts + of_bool (df_stage f = stage \<and> df_code f = code)"
proof -
  let ?same = "\<lambda>c. dfc_stage c = df_stage f \<and> dfc_code c = df_code f"
  have "\<exists>c \<in> set counts. ?same c \<Longrightarrow>
      failure_count stage code (update_first ?same (\<lambda>c. c\<lparr>dfc_count := dfc_count c + 1\<rparr>) counts) =
      failure_count stage code counts + of_bool (df_stage f = stage \<and> df_code f = code)"
  proof (induction counts)
    case (Cons c counts)
    then show ?case by (cases "?same c") (auto simp: failure_count_def)
  qed simp
  then show ?thesis by (auto simp: count_failure_def Let_def failure_count_def)
qed

definition same_failure :: "TransferStage \<times> TransferErrorCode \<Rightarrow> DiagnosticFailureCount \<Rightarrow> bool" where
  "same_failure k c \<longleftrightarrow> (dfc_stage c, dfc_code c) = k"

lemma keys_update_first:
  "map (\<lambda>c. (dfc_stage c, dfc_code c)) (update_first P (\<lambda>c. c\<lparr>dfc_count := g c\<rparr>) counts) =
     map (\<lambda>c. (dfc_stage c, dfc_code c)) counts"
  by (induction counts) auto

lemma count_failure_distinct:
  "distinct (map (\<lambda>c. (dfc_stage c, dfc_code c)) counts) \<Longrightarrow>
    distinct (map (\<lambda>c. (dfc_stage c, dfc_code c)) (count_failure f counts))"
  by (auto simp: count_failure_def Let_def keys_update_first)

lemma failures_of_queueWrite [simp]: "failures_of (queueWrite now s) = failures_of s"
  by (simp add: failures_of_def queueWrite_def)

lemma failures_of_update_window [simp]: "failures_of (update_window k f s) = failures_of s"
  by (auto simp: failures_of_def update_window_def split: option.splits)

lemma failures_of_push [simp]: "failures_of (push_window w s) = failures_of s"
  by (simp add: failures_of_def push_window_def)

lemma failures_of_upd:
  "(\<And>r. (rp_failures (f r), rp_omittedFailureDetails (f r), rp_failureCounts (f r)) =
          (rp_failures r, rp_omittedFailureDetails r, rp_failureCounts r)) \<Longrightarrow>
    failures_of (upd_report f s) = failures_of s"
  by (simp add: failures_of_def)

lemma failures_of_checkpoint [simp]: "failures_of (checkpointWindow w now s) = failures_of s"
  by (auto simp: checkpointWindow_def Let_def checkpoint_preflight_def checkpoint_totals_def
      split: option.splits intro!: trans [OF failures_of_upd])

lemma failures_of_step:
  "(\<And>f. op \<noteq> D_recordFailure f) \<Longrightarrow> failures_of (diag_step op s) = failures_of s"
  by (cases op)
    (auto simp: diagnostics_start_def beginWindow_def markWindowEnqueued_def recordUploadCapacityWait_def
      recordWindowUploadStarted_def recordNativeUploadTiming_def recordMaterialization_def
      recordTemporaryRelease_def markPreparationComplete_def recordUploadWorkerStarted_def
      recordFirstAcknowledgement_def recordThermal_def updateTransfer_def diagnostics_finish_def
      raise_queueMaxDepth_def assign_values_def Let_def intro!: trans [OF failures_of_upd])

text \<open>The failure part of a report, as a function of all recorded failures.\<close>

definition failures_match :: "DiagnosticFailure list \<Rightarrow> DiagnosticFailure list \<times> nat \<times> DiagnosticFailureCount list \<Rightarrow> bool" where
  "failures_match fs v \<longleftrightarrow>
     (case v of (failures, omitted, counts) \<Rightarrow>
        failures = take MAX_FAILURE_DETAILS fs \<and> omitted = length fs - MAX_FAILURE_DETAILS \<and>
        distinct (map (\<lambda>c. (dfc_stage c, dfc_code c)) counts) \<and>
        (\<forall>stage code. failure_count stage code counts =
           length (filter (\<lambda>f. df_stage f = stage \<and> df_code f = code) fs)))"

lemma failures_match_record:
  assumes "failures_match fs (failures_of s)"
  shows "failures_match (fs @ [f]) (failures_of (recordFailure f s))"
  using assms count_failure_distinct [of "rp_failureCounts (td_report s)" f]
  by (auto simp: failures_match_def failures_of_def recordFailure_def failure_count_add)

lemma failures_match_run:
  "failures_match fs (failures_of s) \<Longrightarrow>
    failures_match (fs @ recorded_failures ops) (failures_of (fold diag_step ops s))"
proof (induction ops arbitrary: fs s)
  case (Cons op ops)
  show ?case
  proof (cases "\<exists>f. op = D_recordFailure f")
    case True
    then obtain f where op: "op = D_recordFailure f" by blast
    have "failures_match (fs @ [f]) (failures_of (diag_step op s))"
      using failures_match_record [OF Cons.prems] by (simp add: op)
    from Cons.IH [OF this] show ?thesis by (simp add: op)
  next
    case False
    then have "recorded_failures (op # ops) = recorded_failures ops" by (cases op) auto
    moreover have "failures_match fs (failures_of (diag_step op s))"
      using Cons.prems failures_of_step [of op s] False by simp
    ultimately show ?thesis using Cons.IH by simp
  qed
qed simp

subsection \<open>Lemmas: coalesced writes\<close>

definition write_view :: "TransferDiagnostics \<Rightarrow> nat \<times> nat \<times> bool \<times> bool" where
  "write_view s = (td_revision s, td_persistedRevision s, td_writeScheduled s, td_hasPersistedReport s)"

lemma write_view_simps [simp]:
  "write_view (upd_report f s) = write_view s"
  "write_view (push_window w s) = write_view s"
  "write_view (update_window k g s) = write_view s"
  by (auto simp: write_view_def upd_report_def push_window_def update_window_def split: option.splits)

lemma write_view_queueWrite:
  "write_view (queueWrite now s) = (td_revision s + 1, td_persistedRevision s, True, td_hasPersistedReport s)"
  by (simp add: write_view_def queueWrite_def upd_report_def)

definition queued_or_same :: "TransferDiagnostics \<Rightarrow> TransferDiagnostics \<Rightarrow> bool" where
  "queued_or_same s t \<longleftrightarrow> write_view t = write_view s \<or>
     write_view t = (td_revision s + 1, td_persistedRevision s, True, td_hasPersistedReport s)"

lemma queued_or_same_same [simp]: "write_view t = write_view s \<Longrightarrow> queued_or_same s t"
  by (simp add: queued_or_same_def)

lemma queued_or_same_queued [simp]: "write_view t = write_view s \<Longrightarrow> queued_or_same s (queueWrite now t)"
  by (simp add: queued_or_same_def write_view_queueWrite) (simp add: write_view_def)

lemma diag_step_queues: "queued_or_same s (diag_step op s)"
  by (cases op)
    (auto simp: diagnostics_start_def beginWindow_def checkpointWindow_def markWindowEnqueued_def
      recordUploadCapacityWait_def recordWindowUploadStarted_def recordNativeUploadTiming_def
      recordMaterialization_def recordTemporaryRelease_def markPreparationComplete_def
      recordUploadWorkerStarted_def recordFirstAcknowledgement_def recordFailure_def recordThermal_def
      updateTransfer_def diagnostics_finish_def Let_def split: option.splits)

definition writer_inv :: "diag_sys \<Rightarrow> bool" where
  "writer_inv s \<longleftrightarrow>
     (let d = dg_state s in
      td_persistedRevision d \<le> td_revision d \<and>
      (td_writeScheduled d \<longleftrightarrow> dg_writer s \<noteq> Writer_idle) \<and>
      (\<forall>n r. dg_writer s = Writer_saving n r \<longrightarrow> n \<le> td_revision d) \<and>
      (td_hasPersistedReport d \<longleftrightarrow> dg_saved s \<noteq> []))"

lemma writer_inv_step: "writer_inv s \<Longrightarrow> writer_inv (diag_sys_step filesystem e s)"
proof (cases e)
  case (Ev_op op)
  then show "writer_inv s \<Longrightarrow> ?thesis"
    using diag_step_queues [of "dg_state s" op]
    by (auto simp: writer_inv_def queued_or_same_def write_view_def Let_def)
qed (auto simp: writer_inv_def writer_loop_def Let_def split: writer.splits)

interpretation diag_writer: event_machine "diag_sys_step filesystem" writer_inv for filesystem
  by unfold_locales (rule writer_inv_step)

lemma writer_inv_init: "writer_inv (init_diag report)"
  by (simp add: writer_inv_def init_diag_def new_TransferDiagnostics_def)

text \<open>Progress of the writer towards a revision \<open>n\<close> with content \<open>r\<close>.\<close>

definition writing_towards :: "nat \<Rightarrow> TransferDiagnosticReport \<Rightarrow> diag_sys \<Rightarrow> bool" where
  "writing_towards n r s \<longleftrightarrow>
     td_revision (dg_state s) = n \<and> td_report (dg_state s) = r \<and>
     (if td_persistedRevision (dg_state s) < n
      then dg_writer s \<noteq> Writer_idle \<and>
           (\<forall>k q. dg_writer s = Writer_saving k q \<longrightarrow> k \<le> n \<and> (k = n \<longrightarrow> q = r))
      else td_persistedRevision (dg_state s) = n \<and> dg_writer s = Writer_idle \<and>
           dg_saved s \<noteq> [] \<and> last (dg_saved s) = r)"

lemma writing_towards_step:
  "writing_towards n r s \<Longrightarrow> e \<in> {Ev_write_starts, Ev_write_succeeds} \<Longrightarrow>
    writing_towards n r (diag_sys_step True e s)"
  by (auto simp: writing_towards_def writer_loop_def Let_def split: writer.splits if_splits)

interpretation final_write: guarded_machine "diag_sys_step True" "writing_towards n r"
    "\<lambda>e _. e \<in> {Ev_write_starts, Ev_write_succeeds}" for n r
  by unfold_locales (rule writing_towards_step)

lemma run_ok_constant: "set es \<subseteq> S \<Longrightarrow> run_ok (\<lambda>e _. e \<in> S) step es s"
  by (induction es arbitrary: s) auto

lemma finish_view:
  "td_report (diagnostics_finish status now s) = (td_report s)
     \<lparr>rp_completionStatus := status, rp_completedAt := Some now, rp_sessionDurationMs := Some (elapsedMs now s),
      rp_uploadPhaseDurationMs :=
        (case rp_firstUploadStartedElapsedMs (td_report s) of
           Some t \<Rightarrow> Some (max 0 (elapsedMs now s - t))
         | None \<Rightarrow> rp_uploadPhaseDurationMs (td_report s)),
      rp_updatedAt := now\<rparr>"
  "write_view (diagnostics_finish status now s) =
     (td_revision s + 1, td_persistedRevision s, True, td_hasPersistedReport s)"
  by (simp_all add: diagnostics_finish_def queueWrite_def upd_report_def write_view_def)

lemma finish_writing_towards:
  assumes "writer_inv s" and "t = diag_sys_step True (Ev_op (D_finish status now)) s"
  shows "writing_towards (td_revision (dg_state s) + 1) (td_report (dg_state t)) t"
  using assms finish_view(2) [of status now "dg_state s"]
  by (auto simp: writer_inv_def writing_towards_def write_view_def Let_def)

subsection \<open>Properties\<close>


definition example_report :: TransferDiagnosticReport where
  "example_report = new_report ''ref'' 2 None None None None ''2.0.0'' Env_test True 0"


text \<open>
  \<open>preparedAssets\<close> is not such a total: the difference to the begun window, which
  already carries the number of selected assets, is zero, so a window that is begun and
  then completed as the session does it leaves \<open>preparedAssets\<close> unchanged, while the
  other counters move. Reports written before the final update show no prepared assets.
\<close>

theorem preparedAssets_not_counted:
  "let s = beginWindow k n now (new_TransferDiagnostics report);
       t = checkpointWindow w now' s
   in rp_windows report = [] \<longrightarrow> dw_windowIndex w = k \<longrightarrow> dw_selectedCount w = n \<longrightarrow>
      rp_preparedAssets (td_report t) = rp_preparedAssets report \<and>
      rp_preparedFiles (td_report t) = rp_preparedFiles report + dw_preparedCount w"
  by (simp add: Let_def beginWindow_def checkpointWindow_def known_window_def push_window_def
      new_TransferDiagnostics_def begun_window_def completed_window_def checkpoint_totals_def
      checkpoint_preflight_def existing_or_zero_def queueWrite_def map_has_def)

theorem preparedAssets_not_counted_witness:
  "let s = beginWindow 3 1 5 (new_TransferDiagnostics example_report);
       t = checkpointWindow (sample_window 3 7) 9 s
   in rp_preparedAssets (td_report t) = 0 \<and> rp_preparedFiles (td_report t) = 1"
  using preparedAssets_not_counted [where k = 3 and n = 1 and now = 5 and report = example_report
      and w = "sample_window 3 7" and now' = 9]
  by (simp add: Let_def sample_window_def example_report_def new_report_def)

text \<open>
  Failures are never lost: after any calls the report holds the details of the first
  1000 recorded failures, counts how many details it left out, and for every stage and
  code its one counter is the number of failures recorded with them.
\<close>

theorem failure_details_bounded:
  "let r = td_report (fold diag_step ops
             (new_TransferDiagnostics (new_report ref selected mode requested reason additional ver env native t0)));
       fs = recorded_failures ops
   in rp_failures r = take 1000 fs \<and> length (rp_failures r) + rp_omittedFailureDetails r = length fs \<and>
      distinct (map (\<lambda>c. (dfc_stage c, dfc_code c)) (rp_failureCounts r)) \<and>
      (\<forall>stage code. failure_count stage code (rp_failureCounts r) =
         length (filter (\<lambda>f. df_stage f = stage \<and> df_code f = code) fs))"
proof -
  have "failures_match [] (failures_of (new_TransferDiagnostics
      (new_report ref selected mode requested reason additional ver env native t0)))"
    by (simp add: failures_match_def failures_of_def new_TransferDiagnostics_def new_report_def Let_def
        failure_count_def)
  from failures_match_run [OF this, of ops] show ?thesis
    by (auto simp: failures_match_def failures_of_def Let_def MAX_FAILURE_DETAILS_def)
qed

text \<open>
  The final state of a report reaches the disk: whatever happened before, failed
  writes and a write in progress included, once \<open>finish\<close> has been called and writes succeed,
  the writer is done after at most two of them, and whenever it is done, the last written
  snapshot is the final report with its completion status.
\<close>

theorem finish_persists:
  assumes "s = fold (diag_sys_step True) es (init_diag report)"
    and "t = diag_sys_step True (Ev_op (D_finish status now)) s"
    and "set ws \<subseteq> {Ev_write_starts, Ev_write_succeeds}"
    and "u = fold (diag_sys_step True) ws t"
  shows "dg_writer (fold (diag_sys_step True) [Ev_write_starts, Ev_write_succeeds, Ev_write_succeeds] t) = Writer_idle \<and>
    (dg_writer u = Writer_idle \<longrightarrow>
       dg_saved u \<noteq> [] \<and> last (dg_saved u) = td_report (dg_state t) \<and>
       rp_completionStatus (last (dg_saved u)) = status \<and>
       td_persistedRevision (dg_state u) = td_revision (dg_state u))"
proof -
  let ?n = "td_revision (dg_state s) + 1" and ?r = "td_report (dg_state t)"
  have inv: "writer_inv s" unfolding assms(1) by (intro diag_writer.run_inv writer_inv_init)
  have t: "writing_towards ?n ?r t" using finish_writing_towards [OF inv assms(2)] .
  have u: "writing_towards ?n ?r u"
    unfolding assms(4) using t run_ok_constant [OF assms(3)] by (rule final_write.guarded_run)
  have st: "rp_completionStatus ?r = status" by (simp add: assms(2) finish_view Let_def)
  have "td_persistedRevision (dg_state t) < ?n"
    using inv finish_view(2) [of status now "dg_state s"]
    by (simp add: assms(2) writer_inv_def write_view_def Let_def)
  moreover have "\<forall>k q. dg_writer t = Writer_saving k q \<longrightarrow> k < ?n"
    using inv finish_view(2) [of status now "dg_state s"]
    by (auto simp: assms(2) writer_inv_def write_view_def Let_def less_Suc_eq_le)
  ultimately have "dg_writer (fold (diag_sys_step True) [Ev_write_starts, Ev_write_succeeds, Ev_write_succeeds] t) = Writer_idle"
    using t by (cases "dg_writer t") (auto simp: writing_towards_def writer_loop_def Let_def)
  then show ?thesis using u st by (auto simp: writing_towards_def split: if_splits)
qed

theorem finish_persists_witness:
  "let t = diag_sys_step True (Ev_op (D_finish (Finished Completed) 9)) (init_diag example_report);
       u = fold (diag_sys_step True) [Ev_write_starts, Ev_write_succeeds] t
   in dg_writer u = Writer_idle \<and> rp_completionStatus (last (dg_saved u)) = Finished Completed"
proof -
  let ?t = "diag_sys_step True (Ev_op (D_finish (Finished Completed) 9)) (init_diag example_report)"
  let ?u = "fold (diag_sys_step True) [Ev_write_starts, Ev_write_succeeds] ?t"
  have "dg_writer ?u = Writer_idle"
    by (simp add: init_diag_def new_TransferDiagnostics_def diagnostics_finish_def queueWrite_def upd_report_def
        writer_loop_def Let_def)
  moreover have "init_diag example_report = fold (diag_sys_step True) [] (init_diag example_report)" by simp
  ultimately show ?thesis
    using finish_persists [of "init_diag example_report" "[]" example_report ?t "Finished Completed" 9
        "[Ev_write_starts, Ev_write_succeeds]" ?u]
    unfolding Let_def by (metis (no_types, lifting) empty_subsetI insertCI insert_subset list.set)
qed

end
