(* ===== verification/DiagnosticStorage.thy ===== *)
theory DiagnosticStorage
  imports TransferDiagnostics "HOL-Library.Multiset"
begin

text \<open>
  \<open>services/diagnostics/DiagnosticStorage.ts\<close>: the report directory, its pruning, and the
  listing and export of reports. The directory is a map from names to files in the order
  in which the file system lists them. The code runs with an available file system; an
  operation that throws ends the function that called it (in \<open>TransferDiagnostics\<close>, a
  failing write). The size and the modification time of a written file come from the file
  system and are arguments.
\<close>

subsection \<open>Files\<close>

definition MAX_REPORTS :: nat where "MAX_REPORTS = 5"
definition MAX_TOTAL_BYTES :: number where "MAX_TOTAL_BYTES = 5 * 1024 * 1024"
definition MAX_AGE_MS :: number where "MAX_AGE_MS = 7 * 24 * 60 * 60 * 1000"

text \<open>
  What \<open>JSON.parse\<close> makes of a file: a report that this module wrote, any other value, or
  an exception (\<open>None\<close>).
\<close>

datatype stored = Stored_report TransferDiagnosticReport | Stored_json "jsval option"

record report_file =
  rf_content :: stored
  rf_size :: number
  rf_modificationTime :: "number option"
  rf_isDirectory :: bool

type_synonym report_directory = "(string, report_file) jsmap"

subsection \<open>Names\<close>

definition ref_char :: "char \<Rightarrow> bool" where
  "ref_char c \<longleftrightarrow> c \<in> set ''abcdefghijklmnopqrstuvwxyz0123456789-''"

text \<open>\<open>/^[a-z0-9-]{1,64}$/i\<close>\<close>

definition valid_ref :: "string \<Rightarrow> bool" where
  "valid_ref s \<longleftrightarrow> 1 \<le> length s \<and> length s \<le> 64 \<and> (\<forall>c \<in> set (toLowerCase s). ref_char c)"

definition reportPath :: "string \<Rightarrow> string option" where
  "reportPath sessionRef =
     (if valid_ref sessionRef then Some (''transfer-'' @ sessionRef @ ''.json'') else None)"

text \<open>\<open>/^transfer-[a-z0-9-]+\.json$/i\<close> and the same with \<open>.tmp\<close>, by the suffix \<open>e\<close>.\<close>

definition named :: "string \<Rightarrow> string \<Rightarrow> bool" where
  "named e name \<longleftrightarrow>
     (let s = toLowerCase name; n = length s - length e; middle = drop 9 (take n s)
      in take 9 s = ''transfer-'' \<and> 9 + length e < length s \<and> drop n s = e \<and> list_all ref_char middle)"

definition is_report_name :: "string \<Rightarrow> bool" where "is_report_name = named ''.json''"
definition is_temporary_name :: "string \<Rightarrow> bool" where "is_temporary_name = named ''.json.tmp''"

subsection \<open>allowListedReport\<close>

definition allow_listed_window :: "DiagnosticWindow \<Rightarrow> DiagnosticWindow" where
  "allow_listed_window w = w\<lparr>dw_preflight := None, dw_uploadTiming := None\<rparr>"

definition copy_preflight_summary :: "DiagnosticPreflightSummary \<Rightarrow> DiagnosticPreflightSummary" where
  "copy_preflight_summary p =
     DuplicatePreflightMetrics.extend (copyPreflightMetrics p)
       (DiagnosticPreflightSummary.fields (dps_windowCount p) (dps_totalWindowDurationMs p)
          (dps_maxWindowDurationMs p) (dps_windowsWithHashing p) (dps_windowsWithBlockedNonCandidates p)
          (dps_windowsWithAllUploadWorkersIdle p) (dps_allUploadWorkersIdleDuringPreflightMs p)
          (dps_maxPreparedBytesHeldDuringPreflight p) (dps_maxTemporaryBytesHeldDuringPreflight p))"

text \<open>The fields that are copied one by one stay as they are.\<close>

definition allowListedReport :: "TransferDiagnosticReport \<Rightarrow> TransferDiagnosticReport" where
  "allowListedReport r =
     r\<lparr>rp_schemaVersion := 6,
       rp_requestedPreparationMode :=
         Some (case rp_requestedPreparationMode r of
                 Some m \<Rightarrow> m
               | None \<Rightarrow> (case rp_preparationMode r of Some m \<Rightarrow> m | None \<Rightarrow> Prepare_first)),
       rp_preparationMode :=
         Some (case rp_preparationMode r of Some m \<Rightarrow> m | None \<Rightarrow> Prepare_first),
       rp_preflight := copy_preflight_summary (rp_preflight r),
       rp_uploadTiming := copyUploadTiming (rp_uploadTiming r),
       rp_windows := map allow_listed_window (rp_windows r),
       rp_preflightWindowSamples := selectPreflightWindowSamples (rp_windows r)\<rparr>"

subsection \<open>pruneReports\<close>

record report_info =
  ri_name :: string
  ri_size :: number
  ri_modifiedAt :: number

definition file_info_of :: "string \<times> report_file \<Rightarrow> report_info" where
  "file_info_of e =
     \<lparr>ri_name = fst e,
      ri_size = (if rf_isDirectory (snd e) then 0 else rf_size (snd e)),
      ri_modifiedAt = (case rf_modificationTime (snd e) of Some t \<Rightarrow> t * 1000 | None \<Rightarrow> 0)\<rparr>"

definition expired :: "number \<Rightarrow> report_info \<Rightarrow> bool" where
  "expired now r \<longleftrightarrow> ri_modifiedAt r > 0 \<and> now - ri_modifiedAt r > MAX_AGE_MS"

text \<open>The loop: the names that are deleted, with the index and the retained bytes.\<close>

fun prune_loop :: "number \<Rightarrow> nat \<Rightarrow> number \<Rightarrow> report_info list \<Rightarrow> string list" where
  "prune_loop now index retainedBytes [] = []"
| "prune_loop now index retainedBytes (r # rs) =
     (if expired now r \<or> index \<ge> MAX_REPORTS \<or> retainedBytes + ri_size r > MAX_TOTAL_BYTES
      then ri_name r # prune_loop now (index + 1) retainedBytes rs
      else prune_loop now (index + 1) (retainedBytes + ri_size r) rs)"

definition delete_names :: "string set \<Rightarrow> report_directory \<Rightarrow> report_directory" where
  "delete_names ns dir = filter (\<lambda>e. fst e \<notin> ns) dir"

definition report_infos :: "report_directory \<Rightarrow> report_info list" where
  "report_infos dir =
     sort_key (\<lambda>r. - ri_modifiedAt r) (map file_info_of (filter (\<lambda>e. is_report_name (fst e)) dir))"

definition pruneReports :: "number \<Rightarrow> report_directory \<Rightarrow> report_directory" where
  "pruneReports now dir =
     (let temporaryNames = filter is_temporary_name (map fst dir);
          dir1 = delete_names (set temporaryNames) dir
      in delete_names (set (prune_loop now 0 0 (report_infos dir1))) dir1)"

subsection \<open>persistDiagnosticReport\<close>

text \<open>
  \<open>size\<close> and \<open>modified\<close> are those of the file that \<open>moveAsync\<close> creates; an invalid session
  reference throws.
\<close>

definition persistDiagnosticReport ::
  "number \<Rightarrow> number \<Rightarrow> number \<Rightarrow> TransferDiagnosticReport \<Rightarrow> report_directory \<Rightarrow> string + report_directory" where
  "persistDiagnosticReport now bytes modified report dir =
     (let sanitizedReport = allowListedReport report
      in case reportPath (rp_sessionRef sanitizedReport) of
           None \<Rightarrow> Inl ''Invalid diagnostic session reference''
         | Some destination \<Rightarrow>
             (let temporary = destination @ ''.tmp'';
                  dir1 = delete_names {temporary} dir;
                  dir2 = delete_names {destination} dir1;
                  dir3 = dir2 @ [(destination, \<lparr>rf_content = Stored_report sanitizedReport, rf_size = bytes,
                                                rf_modificationTime = Some modified, rf_isDirectory = False\<rparr>)]
              in Inr (pruneReports now dir3)))"

subsection \<open>listDiagnosticReports and the exports\<close>

definition status_names :: "(string \<times> ReportStatus) list" where
  "status_names =
     [(''running'', Running), (''completed'', Finished Completed), (''mixed'', Finished Mixed),
      (''cancelled'', Finished Cancelled_status), (''fatal'', Finished Fatal)]"

definition parse_status :: "jsval \<Rightarrow> ReportStatus option" where
  "parse_status v = Option.bind (as_string v) (map_of status_names)"

definition parse_environment_name :: "jsval \<Rightarrow> AppEnvironment option" where
  "parse_environment_name v =
     (case as_string v of
        Some s \<Rightarrow> (if s = ''production'' then Some Env_production
                   else if s = ''test'' then Some Env_test else None)
      | None \<Rightarrow> None)"

text \<open>The summary of a parsed value: \<open>None\<close> where the loop continues without one.\<close>

definition json_summary :: "string \<Rightarrow> jsval \<Rightarrow> DiagnosticReportSummary option" where
  "json_summary path parsed =
     (case (as_number (prop_of parsed ''startedAt''), as_number (prop_of parsed ''selectedFiles''),
            parse_environment_name (prop_of parsed ''environment''),
            parse_status (prop_of parsed ''completionStatus'')) of
        (Some startedAt, Some selectedFiles, Some env, Some status) \<Rightarrow>
          Some \<lparr>drs_path = path,
                drs_schemaVersion =
                  (case as_number (prop_of parsed ''schemaVersion'') of Some n \<Rightarrow> n | None \<Rightarrow> Fin 0),
                drs_startedAt = startedAt,
                drs_completedAt = as_number (prop_of parsed ''completedAt''),
                drs_completionStatus = status,
                drs_selectedAssets =
                  (case as_number (prop_of parsed ''selectedAssets'') of Some n \<Rightarrow> n | None \<Rightarrow> selectedFiles),
                drs_selectedFiles = selectedFiles, drs_environment = env\<rparr>
      | _ \<Rightarrow> None)"

definition report_summary :: "string \<Rightarrow> TransferDiagnosticReport \<Rightarrow> DiagnosticReportSummary" where
  "report_summary path r =
     \<lparr>drs_path = path, drs_schemaVersion = Fin (real (rp_schemaVersion r)),
      drs_startedAt = Fin (rp_startedAt r), drs_completedAt = map_option Fin (rp_completedAt r),
      drs_completionStatus = rp_completionStatus r, drs_selectedAssets = Fin (rp_selectedAssets r),
      drs_selectedFiles = Fin (rp_selectedFiles r), drs_environment = rp_environment r\<rparr>"

fun summary_of :: "string \<Rightarrow> stored \<Rightarrow> DiagnosticReportSummary option" where
  "summary_of path (Stored_report r) = Some (report_summary path r)"
| "summary_of path (Stored_json (Some v)) = json_summary path v"
| "summary_of path (Stored_json None) = None"

fun listed :: "report_directory \<Rightarrow> (number \<times> DiagnosticReportSummary) list" where
  "listed [] = []"
| "listed ((name, f) # rest) =
     (case (if is_report_name name then summary_of name (rf_content f) else None) of
        Some d \<Rightarrow> ((case rf_modificationTime f of Some t \<Rightarrow> t | None \<Rightarrow> 0), d) # listed rest
      | None \<Rightarrow> listed rest)"

text \<open>Newest first by \<open>startedAt\<close>, then by the modification time (a stable sort by both).\<close>

definition listDiagnosticReports ::
  "number \<Rightarrow> report_directory \<Rightarrow> DiagnosticReportSummary list \<times> report_directory" where
  "listDiagnosticReports now dir =
     (let dir1 = pruneReports now dir;
          reports = sort_key (\<lambda>e. - fin_val (drs_startedAt (snd e))) (sort_key (\<lambda>e. - fst e) (listed dir1))
      in (take MAX_REPORTS (map snd reports), dir1))"

definition latestDiagnosticReportPath :: "number \<Rightarrow> report_directory \<Rightarrow> string option \<times> report_directory" where
  "latestDiagnosticReportPath now dir =
     (case listDiagnosticReports now dir of
        (r # rs, dir1) \<Rightarrow> (Some (drs_path r), dir1)
      | ([], dir1) \<Rightarrow> (None, dir1))"

text \<open>The path that is shared, if any.\<close>

definition exportDiagnosticReport :: "number \<Rightarrow> string \<Rightarrow> report_directory \<Rightarrow> string option \<times> report_directory" where
  "exportDiagnosticReport now path dir =
     (case listDiagnosticReports now dir of
        (reports, dir1) \<Rightarrow> (if \<exists>r \<in> set reports. drs_path r = path then Some path else None, dir1))"

definition exportLatestDiagnosticReport :: "number \<Rightarrow> report_directory \<Rightarrow> string option \<times> report_directory" where
  "exportLatestDiagnosticReport now dir =
     (case latestDiagnosticReportPath now dir of
        (Some path, dir1) \<Rightarrow> exportDiagnosticReport now path dir1
      | (None, dir1) \<Rightarrow> (None, dir1))"

text \<open>The files that are bundled, or nothing.\<close>

definition exportAllDiagnosticReports :: "number \<Rightarrow> report_directory \<Rightarrow> stored list option \<times> report_directory" where
  "exportAllDiagnosticReports now dir =
     (case listDiagnosticReports now dir of
        (reports, dir1) \<Rightarrow>
          (if reports = [] then None
           else Some (map rf_content (List.map_filter (\<lambda>r. map_get dir1 (drs_path r)) reports)), dir1))"

subsection \<open>Lemmas: pruning\<close>

lemma sum_list_sort: "sum_list (map f (sort_key g xs)) = (sum_list (map f xs) :: number)"
  by (metis mset_map mset_sort sum_mset_sum_list)

lemma prune_loop_names: "set (prune_loop now i b rs) \<subseteq> ri_name ` set rs"
  by (induction rs arbitrary: i b) auto

lemma prune_loop_keeps:
  assumes "distinct (map ri_name rs)" and "b \<le> MAX_TOTAL_BYTES"
    and "ks = filter (\<lambda>r. ri_name r \<notin> set (prune_loop now i b rs)) rs"
  shows "length ks \<le> MAX_REPORTS - i \<and> b + sum_list (map ri_size ks) \<le> MAX_TOTAL_BYTES \<and>
    (\<forall>k \<in> set ks. \<not> expired now k)"
  using assms
proof (induction rs arbitrary: i b ks)
  case (Cons r rs)
  let ?drop = "expired now r \<or> i \<ge> MAX_REPORTS \<or> b + ri_size r > MAX_TOTAL_BYTES"
  let ?b = "if ?drop then b else b + ri_size r"
  let ?ks = "filter (\<lambda>r. ri_name r \<notin> set (prune_loop now (Suc i) ?b rs)) rs"
  have r: "ri_name r \<notin> set (prune_loop now (Suc i) ?b rs)"
    using prune_loop_names [of now "Suc i" ?b rs] Cons.prems(1) by auto
  have ks: "ks = (if ?drop then ?ks else r # ?ks)"
  proof (cases ?drop)
    case True
    have "filter (\<lambda>x. ri_name x \<noteq> ri_name r \<and> ri_name x \<notin> A) rs = filter (\<lambda>x. ri_name x \<notin> A) rs" for A
      using Cons.prems(1) by (intro filter_cong) (auto simp: image_iff)
    then show ?thesis using True Cons.prems(3) by simp
  next
    case False
    then show ?thesis using r Cons.prems(3) by simp
  qed
  have b: "?b \<le> MAX_TOTAL_BYTES" using Cons.prems(2) by simp
  have d: "distinct (map ri_name rs)" using Cons.prems(1) by simp
  have IH: "length ?ks \<le> MAX_REPORTS - Suc i \<and> ?b + sum_list (map ri_size ?ks) \<le> MAX_TOTAL_BYTES \<and>
      (\<forall>k \<in> set ?ks. \<not> expired now k)"
    by (rule Cons.IH [OF d b refl])
  show ?case
  proof (cases ?drop)
    case True
    then have eq: "ks = ?ks" "?b = b" using ks by simp_all
    have "length ?ks \<le> MAX_REPORTS - i" using conjunct1 [OF IH] by (rule order_trans) simp
    with conjunct2 [OF IH] show ?thesis by (simp only: eq(1)) (simp only: eq(2), blast)
  next
    case False
    then have "ks = r # ?ks" "?b = b + ri_size r" using ks by simp_all
    moreover have "Suc (length ?ks) \<le> MAX_REPORTS - i" using conjunct1 [OF IH] False by linarith
    ultimately show ?thesis using IH False by simp
  qed
qed simp

lemma prune_loop_hd:
  "\<not> expired now r \<Longrightarrow> ri_size r \<le> MAX_TOTAL_BYTES \<Longrightarrow> ri_name r \<notin> ri_name ` set rs \<Longrightarrow>
    ri_name r \<notin> set (prune_loop now 0 0 (r # rs))"
  using prune_loop_names [of now 1 "ri_size r" rs] by (auto simp: MAX_REPORTS_def)

lemma sort_key_least:
  assumes "x \<in> set xs" and "\<And>y. y \<in> set xs \<Longrightarrow> y \<noteq> x \<Longrightarrow> (g x :: number) < g y"
  shows "\<exists>ys. sort_key g xs = x # ys"
proof (cases "sort_key g xs")
  case Nil
  then show ?thesis using assms(1) by (metis empty_iff list.set(1) set_sort)
next
  case (Cons y ys)
  have "sorted (map g (y # ys))" by (metis Cons sorted_sort_key)
  moreover have "x \<in> set (y # ys)" using assms(1) by (metis Cons set_sort)
  ultimately have "g y \<le> g x" by auto
  moreover have "y \<in> set xs" by (metis Cons list.set_intros(1) set_sort)
  ultimately have "y = x" using assms(2) by force
  then show ?thesis using Cons by simp
qed

text \<open>The directory after the temporary files are gone, and what the loop deletes of it.\<close>

definition without_temporary :: "report_directory \<Rightarrow> report_directory" where
  "without_temporary dir = filter (\<lambda>e. \<not> is_temporary_name (fst e)) dir"

lemma delete_temporary: "delete_names (set (filter is_temporary_name (map fst dir))) dir = without_temporary dir"
  by (auto simp: delete_names_def without_temporary_def intro!: filter_cong)

lemma pruneReports_conv:
  "pruneReports now dir =
     delete_names (set (prune_loop now 0 0 (report_infos (without_temporary dir)))) (without_temporary dir)"
  unfolding pruneReports_def Let_def delete_temporary ..

lemma pruneReports_subset: "set (pruneReports now dir) \<subseteq> set dir"
  by (auto simp: pruneReports_conv delete_names_def without_temporary_def)

lemma distinct_map_filter_fst: "distinct (map fst dir) \<Longrightarrow> distinct (map fst (filter P dir))"
  by (rule distinct_map_filter)

lemma report_infos_names:
  "distinct (map fst dir) \<Longrightarrow> distinct (map ri_name (report_infos dir))"
proof -
  assume "distinct (map fst dir)"
  then have "distinct (map ri_name (map file_info_of (filter (\<lambda>e. is_report_name (fst e)) dir)))"
    by (simp add: file_info_of_def o_def distinct_map_filter_fst)
  then show ?thesis unfolding report_infos_def by (simp only: distinct_map [of ri_name] distinct_sort set_sort)
qed

definition kept_reports :: "report_directory \<Rightarrow> report_info list" where
  "kept_reports dir = map file_info_of (filter (\<lambda>e. is_report_name (fst e)) dir)"

lemma pruneReports_bounds:
  assumes "distinct (map fst dir)"
  shows "length (kept_reports (pruneReports now dir)) \<le> MAX_REPORTS \<and>
    sum_list (map ri_size (kept_reports (pruneReports now dir))) \<le> MAX_TOTAL_BYTES \<and>
    (\<forall>r \<in> set (kept_reports (pruneReports now dir)). \<not> expired now r)"
proof -
  let ?dir = "without_temporary dir"
  let ?D = "set (prune_loop now 0 0 (report_infos ?dir))"
  let ?P = "\<lambda>r. ri_name r \<notin> ?D"
  have "distinct (map fst ?dir)" using assms by (simp add: without_temporary_def distinct_map_filter_fst)
  then have names: "distinct (map ri_name (report_infos ?dir))" by (rule report_infos_names)
  have "filter ?P (report_infos ?dir) =
      sort_key (\<lambda>r. - ri_modifiedAt r) (filter ?P (map file_info_of (filter (\<lambda>e. is_report_name (fst e)) ?dir)))"
    unfolding report_infos_def by (rule filter_sort)
  also have "filter ?P (map file_info_of (filter (\<lambda>e. is_report_name (fst e)) ?dir)) = kept_reports (pruneReports now dir)"
    by (simp add: kept_reports_def pruneReports_conv delete_names_def filter_map o_def file_info_of_def conj_commute)
  finally have ks: "filter ?P (report_infos ?dir) = sort_key (\<lambda>r. - ri_modifiedAt r) (kept_reports (pruneReports now dir))" .
  from prune_loop_keeps [OF names _ refl, of 0 now 0] show ?thesis
    unfolding ks sum_list_sort set_sort length_sort by (simp add: MAX_TOTAL_BYTES_def)
qed

lemma pruneReports_newest:
  assumes d: "distinct (map fst dir)" and e: "(name, f) \<in> set dir" and n: "is_report_name name" "\<not> is_temporary_name name"
    and newest: "\<And>e. e \<in> set dir \<Longrightarrow> is_report_name (fst e) \<Longrightarrow> fst e \<noteq> name \<Longrightarrow>
      ri_modifiedAt (file_info_of e) < ri_modifiedAt (file_info_of (name, f))"
    and ok: "\<not> expired now (file_info_of (name, f))" "ri_size (file_info_of (name, f)) \<le> MAX_TOTAL_BYTES"
  shows "(name, f) \<in> set (pruneReports now dir)"
proof -
  let ?dir = "without_temporary dir" and ?x = "file_info_of (name, f)"
  let ?xs = "map file_info_of (filter (\<lambda>e. is_report_name (fst e)) ?dir)"
  have d': "distinct (map fst ?dir)" using d by (simp add: without_temporary_def distinct_map_filter_fst)
  have e': "(name, f) \<in> set ?dir" using e n by (simp add: without_temporary_def)
  have x: "?x \<in> set ?xs" using e' n by force
  have "ri_modifiedAt y < ri_modifiedAt ?x" if y: "y \<in> set ?xs" "y \<noteq> ?x" for y
  proof -
    from y obtain e1 where e1: "e1 \<in> set dir" "is_report_name (fst e1)" "y = file_info_of e1" "e1 \<in> set ?dir"
      by (auto simp: without_temporary_def)
    moreover have "fst e1 \<noteq> name"
    proof
      assume "fst e1 = name"
      then have "e1 = (name, f)" using d' e1(4) e' by (metis eq_key_imp_eq_value prod.collapse)
      then show False using y e1 by simp
    qed
    ultimately show ?thesis using newest by simp
  qed
  then have "\<exists>ys. report_infos ?dir = ?x # ys"
    unfolding report_infos_def by (intro sort_key_least x) simp
  then obtain ys where ys: "report_infos ?dir = ?x # ys" by blast
  have "distinct (map ri_name (?x # ys))" using report_infos_names [OF d'] by (simp only: ys)
  then have "ri_name ?x \<notin> set (prune_loop now 0 0 (report_infos ?dir))"
    unfolding ys by (intro prune_loop_hd ok) simp
  then show ?thesis using e' by (simp add: pruneReports_conv delete_names_def file_info_of_def)
qed

subsection \<open>Lemmas: names and listing\<close>

lemma toLowerCase_append [simp]: "toLowerCase (a @ b) = toLowerCase a @ toLowerCase b"
  by (simp add: toLowerCase_def)

lemma length_toLowerCase [simp]: "length (toLowerCase a) = length a"
  by (simp add: toLowerCase_def)

lemma lower_literals [simp]:
  "toLowerCase ''transfer-'' = ''transfer-''" "toLowerCase ''.json'' = ''.json''"
  by code_simp+

lemma report_name:
  assumes "reportPath ref = Some name"
  shows "is_report_name name" and "\<not> is_temporary_name name"
proof -
  have ref: "valid_ref ref" and name: "name = ''transfer-'' @ ref @ ''.json''"
    using assms by (auto simp: reportPath_def split: if_splits)
  have s: "toLowerCase name = ''transfer-'' @ toLowerCase ref @ ''.json''"
    unfolding name by (simp only: toLowerCase_append lower_literals)
  show "is_report_name name"
    using ref unfolding is_report_name_def named_def Let_def s
    by (auto simp: valid_ref_def list_all_iff)
  have "last (toLowerCase name) = CHR ''n''" unfolding s by simp
  moreover have "last (toLowerCase name) = CHR ''p''" if "is_temporary_name name"
  proof -
    let ?s = "toLowerCase name"
    let ?n = "length ?s - length ''.json.tmp''"
    have e: "drop ?n ?s = ''.json.tmp''" and len: "9 + length ''.json.tmp'' < length ?s"
      using that unfolding is_temporary_name_def named_def Let_def by blast+
    have "?n < length ?s" using len by simp
    then have "last (drop ?n ?s) = last ?s" by (rule last_drop)
    then show ?thesis unfolding e by simp
  qed
  ultimately show "\<not> is_temporary_name name" by auto
qed


lemma listed_conv: "d \<in> snd ` set (listed dir) \<longleftrightarrow>
    (\<exists>(name, f) \<in> set dir. is_report_name name \<and> summary_of name (rf_content f) = Some d)"
  by (induction dir rule: listed.induct) (force split: option.splits if_splits)+

lemma listed_length: "length (listed dir) \<le> length (kept_reports dir)"
  by (induction dir rule: listed.induct) (auto simp: kept_reports_def split: option.splits)

lemma listDiagnosticReports_set:
  assumes "distinct (map fst dir)"
  shows "set (fst (listDiagnosticReports now dir)) = snd ` set (listed (pruneReports now dir))"
proof -
  have "length (listed (pruneReports now dir)) \<le> MAX_REPORTS"
    using listed_length [of "pruneReports now dir"] pruneReports_bounds [OF assms, of now] by linarith
  then show ?thesis by (simp add: listDiagnosticReports_def Let_def image_image)
qed

lemma pruneReports_distinct: "distinct (map fst dir) \<Longrightarrow> distinct (map fst (pruneReports now dir))"
  by (simp add: pruneReports_conv delete_names_def without_temporary_def distinct_map_filter_fst)

text \<open>The directory before pruning in \<open>persistDiagnosticReport\<close>.\<close>

definition moved ::
  "string \<Rightarrow> number \<Rightarrow> number \<Rightarrow> TransferDiagnosticReport \<Rightarrow> report_directory \<Rightarrow> report_directory" where
  "moved name bytes modified report dir =
     delete_names {name} (delete_names {name @ ''.tmp''} dir) @
       [(name, \<lparr>rf_content = Stored_report (allowListedReport report), rf_size = bytes,
                rf_modificationTime = Some modified, rf_isDirectory = False\<rparr>)]"

lemma persist_moved:
  "reportPath (rp_sessionRef report) = Some name \<Longrightarrow>
    persistDiagnosticReport now bytes modified report dir = Inr (pruneReports now (moved name bytes modified report dir))"
  by (simp add: persistDiagnosticReport_def moved_def allowListedReport_def Let_def)

lemma moved_distinct: "distinct (map fst dir) \<Longrightarrow> distinct (map fst (moved name bytes modified report dir))"
  by (auto simp: moved_def delete_names_def distinct_map_filter_fst)

subsection \<open>Properties\<close>



end
