(* ===== verification/TransferAccounting.thy ===== *)
theory TransferAccounting
  imports UploadTypes
begin

text \<open>
  \<open>services/upload/TransferAccounting.ts\<close>: \<open>TransferOutcomes\<close>, the counters of terminal
  outcomes that are recorded once per expanded media item, and \<open>UploadWorkerActivity\<close>,
  the clock of the periods in which all started workers are idle. The private state of a
  class is a record; a method takes the state and returns the new one with its result.
  The clock \<open>now\<close> of \<open>UploadWorkerActivity\<close> is an argument of each method.
\<close>

subsection \<open>TransferOutcomes\<close>

record TransferOutcomes =
  terminalIds :: "string set"
  filesCompleted :: nat
  uploadedFiles :: nat
  skippedFiles :: nat
  failedFiles :: nat
  preparationFailedFiles :: nat
  successfulUploadedBytes :: number
  skippedBytes :: number
  avoidedBytes :: number
  finalizationDuplicateBytes :: number
  serverSkippedFiles :: nat
  serverSkippedBytes :: number

definition new_TransferOutcomes :: TransferOutcomes where
  "new_TransferOutcomes =
     \<lparr>terminalIds = {}, filesCompleted = 0, uploadedFiles = 0, skippedFiles = 0, failedFiles = 0,
      preparationFailedFiles = 0, successfulUploadedBytes = 0, skippedBytes = 0,
      avoidedBytes = 0, finalizationDuplicateBytes = 0, serverSkippedFiles = 0,
      serverSkippedBytes = 0\<rparr>"

definition outcomes_begin :: "string \<Rightarrow> TransferOutcomes \<Rightarrow> bool \<times> TransferOutcomes" where
  "outcomes_begin i s =
     (if i \<in> terminalIds s then (False, s)
      else (True, s\<lparr>terminalIds := insert i (terminalIds s),
                    filesCompleted := filesCompleted s + 1\<rparr>))"

definition outcomes_fail :: "string \<Rightarrow> bool \<Rightarrow> TransferOutcomes \<Rightarrow> bool \<times> TransferOutcomes" where
  "outcomes_fail i preparation s =
     (case outcomes_begin i s of
        (False, s1) \<Rightarrow> (False, s1)
      | (True, s1) \<Rightarrow>
          (let s2 = s1\<lparr>failedFiles := failedFiles s1 + 1\<rparr>
           in (True, if preparation
                     then s2\<lparr>preparationFailedFiles := preparationFailedFiles s2 + 1\<rparr>
                     else s2)))"

datatype SkipStage = Skip_preflight | Skip_finalization

definition outcomes_skip :: "string \<Rightarrow> number \<Rightarrow> SkipStage \<Rightarrow> TransferOutcomes \<Rightarrow> TransferOutcomes" where
  "outcomes_skip i bytes stage s =
     (case outcomes_begin i s of
        (False, s1) \<Rightarrow> s1
      | (True, s1) \<Rightarrow>
          (let s2 = s1\<lparr>skippedFiles := skippedFiles s1 + 1,
                       skippedBytes := skippedBytes s1 + bytes\<rparr>
           in if stage = Skip_preflight
              then s2\<lparr>avoidedBytes := avoidedBytes s2 + bytes\<rparr>
              else s2\<lparr>finalizationDuplicateBytes := finalizationDuplicateBytes s2 + bytes,
                      serverSkippedFiles := serverSkippedFiles s2 + 1,
                      serverSkippedBytes := serverSkippedBytes s2 + bytes\<rparr>))"

definition outcomes_save :: "string \<Rightarrow> number \<Rightarrow> TransferOutcomes \<Rightarrow> TransferOutcomes" where
  "outcomes_save i bytes s =
     (case outcomes_begin i s of
        (False, s1) \<Rightarrow> s1
      | (True, s1) \<Rightarrow>
          s1\<lparr>uploadedFiles := uploadedFiles s1 + 1,
             successfulUploadedBytes := successfulUploadedBytes s1 + bytes\<rparr>)"

text \<open>A call of one of the three public methods, and its effect.\<close>

datatype outcome_op = Op_fail string bool | Op_skip string number SkipStage | Op_save string number

fun op_id :: "outcome_op \<Rightarrow> string" where
  "op_id (Op_fail i _) = i"
| "op_id (Op_skip i _ _) = i"
| "op_id (Op_save i _) = i"

fun outcomes_step :: "outcome_op \<Rightarrow> TransferOutcomes \<Rightarrow> TransferOutcomes" where
  "outcomes_step (Op_fail i preparation) s = snd (outcomes_fail i preparation s)"
| "outcomes_step (Op_skip i bytes stage) s = outcomes_skip i bytes stage s"
| "outcomes_step (Op_save i bytes) s = outcomes_save i bytes s"

subsection \<open>Specification: the first outcome of every identifier\<close>

fun firsts :: "string set \<Rightarrow> outcome_op list \<Rightarrow> outcome_op list" where
  "firsts seen [] = []"
| "firsts seen (x # xs) =
     (if op_id x \<in> seen then firsts seen xs else x # firsts (insert (op_id x) seen) xs)"

fun is_fail :: "outcome_op \<Rightarrow> bool" where
  "is_fail (Op_fail _ _) = True" | "is_fail _ = False"

fun is_preparation_fail :: "outcome_op \<Rightarrow> bool" where
  "is_preparation_fail (Op_fail _ p) = p" | "is_preparation_fail _ = False"

fun is_skip :: "outcome_op \<Rightarrow> bool" where
  "is_skip (Op_skip _ _ _) = True" | "is_skip _ = False"

fun is_save :: "outcome_op \<Rightarrow> bool" where
  "is_save (Op_save _ _) = True" | "is_save _ = False"

fun skip_bytes :: "outcome_op \<Rightarrow> number" where
  "skip_bytes (Op_skip _ b _) = b" | "skip_bytes _ = 0"

fun save_bytes :: "outcome_op \<Rightarrow> number" where
  "save_bytes (Op_save _ b) = b" | "save_bytes _ = 0"

definition outcomes_inv :: "TransferOutcomes \<Rightarrow> bool" where
  "outcomes_inv s \<longleftrightarrow>
     finite (terminalIds s) \<and> filesCompleted s = card (terminalIds s) \<and>
     filesCompleted s = uploadedFiles s + skippedFiles s + failedFiles s \<and>
     preparationFailedFiles s \<le> failedFiles s \<and>
     serverSkippedFiles s \<le> skippedFiles s \<and>
     skippedBytes s = avoidedBytes s + finalizationDuplicateBytes s \<and>
     serverSkippedBytes s = finalizationDuplicateBytes s"

subsection \<open>UploadWorkerActivity\<close>

record UploadWorkerActivity =
  wa_started :: bool
  wa_idleSince :: "number option"
  wa_completedIdleMs :: number
  wa_active :: nat
  wa_peak :: nat

definition new_UploadWorkerActivity :: UploadWorkerActivity where
  "new_UploadWorkerActivity =
     \<lparr>wa_started = False, wa_idleSince = None, wa_completedIdleMs = 0, wa_active = 0, wa_peak = 0\<rparr>"

definition activity_start :: "number \<Rightarrow> UploadWorkerActivity \<Rightarrow> UploadWorkerActivity" where
  "activity_start now s =
     (if wa_started s then s else s\<lparr>wa_started := True, wa_idleSince := Some now\<rparr>)"

definition activity_busy :: "number \<Rightarrow> UploadWorkerActivity \<Rightarrow> nat \<times> UploadWorkerActivity" where
  "activity_busy now s =
     (let s1 = (case wa_idleSince s of
                  Some since \<Rightarrow>
                    (if wa_active s = 0
                     then s\<lparr>wa_completedIdleMs := wa_completedIdleMs s + max 0 (now - since),
                            wa_idleSince := None\<rparr>
                     else s)
                | None \<Rightarrow> s);
          s2 = s1\<lparr>wa_active := wa_active s1 + 1\<rparr>;
          s3 = s2\<lparr>wa_peak := max (wa_peak s2) (wa_active s2)\<rparr>
      in (wa_active s3, s3))"

definition activity_idle :: "number \<Rightarrow> UploadWorkerActivity \<Rightarrow> UploadWorkerActivity" where
  "activity_idle now s =
     (let s1 = s\<lparr>wa_active := wa_active s - 1\<rparr>
      in if wa_started s1 \<and> wa_active s1 = 0 then s1\<lparr>wa_idleSince := Some now\<rparr> else s1)"

definition idleMilliseconds :: "number \<Rightarrow> UploadWorkerActivity \<Rightarrow> number" where
  "idleMilliseconds now s =
     wa_completedIdleMs s +
     (case wa_idleSince s of
        Some since \<Rightarrow> (if wa_started s \<and> wa_active s = 0 then max 0 (now - since) else 0)
      | None \<Rightarrow> 0)"

datatype activity_op = Op_start | Op_busy | Op_idle

fun activity_step :: "number \<times> activity_op \<Rightarrow> UploadWorkerActivity \<Rightarrow> UploadWorkerActivity" where
  "activity_step (now, Op_start) s = activity_start now s"
| "activity_step (now, Op_busy) s = snd (activity_busy now s)"
| "activity_step (now, Op_idle) s = activity_idle now s"

text \<open>
  Specification: the time that passes while the pool is started and no worker is active,
  summed over the gaps between consecutive events and up to a final reading.
\<close>

fun idle_spec :: "bool \<Rightarrow> nat \<Rightarrow> number \<Rightarrow> (number \<times> activity_op) list \<Rightarrow> number \<Rightarrow> number" where
  "idle_spec started active prev [] until = (if started \<and> active = 0 then until - prev else 0)"
| "idle_spec started active prev ((t, x) # xs) until =
     (if started \<and> active = 0 then t - prev else 0) +
     (case x of
        Op_start \<Rightarrow> idle_spec True active t xs until
      | Op_busy \<Rightarrow> idle_spec started (active + 1) t xs until
      | Op_idle \<Rightarrow> idle_spec started (active - 1) t xs until)"

text \<open>A permitted history: times do not go back, and only a busy worker becomes idle.\<close>

fun activity_ok :: "nat \<Rightarrow> number \<Rightarrow> (number \<times> activity_op) list \<Rightarrow> number \<Rightarrow> bool" where
  "activity_ok active prev [] until = (prev \<le> until)"
| "activity_ok active prev ((t, x) # xs) until =
     (prev \<le> t \<and>
      (case x of
         Op_start \<Rightarrow> activity_ok active t xs until
       | Op_busy \<Rightarrow> activity_ok (active + 1) t xs until
       | Op_idle \<Rightarrow> 0 < active \<and> activity_ok (active - 1) t xs until))"

subsection \<open>Lemmas: outcomes\<close>

lemmas outcome_defs = outcomes_begin_def outcomes_fail_def outcomes_skip_def outcomes_save_def

lemma outcomes_step_ids: "terminalIds (outcomes_step x s) = insert (op_id x) (terminalIds s)"
  by (cases x) (auto simp: outcome_defs Let_def)

lemma outcomes_step_completed:
  "filesCompleted (outcomes_step x s) =
     (if op_id x \<in> terminalIds s then filesCompleted s else Suc (filesCompleted s))"
  by (cases x) (auto simp: outcome_defs Let_def)

lemma outcomes_step_known: "op_id x \<in> terminalIds s \<Longrightarrow> outcomes_step x s = s"
  by (cases x) (auto simp: outcome_defs)

lemma outcomes_inv_step: "outcomes_inv s \<Longrightarrow> outcomes_inv (outcomes_step x s)"
  by (cases x) (auto simp: outcomes_inv_def outcome_defs Let_def)

lemma outcomes_inv_new: "outcomes_inv new_TransferOutcomes"
  by (simp add: outcomes_inv_def new_TransferOutcomes_def)

interpretation outcomes: event_machine outcomes_step outcomes_inv
  by unfold_locales (rule outcomes_inv_step)

interpretation outcomes_ledger: outcome_ledger terminalIds filesCompleted outcomes_step op_id
  by unfold_locales (simp_all add: outcomes_step_ids outcomes_step_completed)

text \<open>One fresh outcome adds exactly its own contribution to each counter.\<close>

lemma outcomes_step_fresh:
  assumes "op_id x \<notin> terminalIds s"
  shows "uploadedFiles (outcomes_step x s) = uploadedFiles s + of_bool (is_save x)"
    and "skippedFiles (outcomes_step x s) = skippedFiles s + of_bool (is_skip x)"
    and "failedFiles (outcomes_step x s) = failedFiles s + of_bool (is_fail x)"
    and "preparationFailedFiles (outcomes_step x s) =
           preparationFailedFiles s + of_bool (is_preparation_fail x)"
    and "successfulUploadedBytes (outcomes_step x s) = successfulUploadedBytes s + save_bytes x"
    and "skippedBytes (outcomes_step x s) = skippedBytes s + skip_bytes x"
  using assms by (cases x; simp add: outcome_defs Let_def)+

lemma outcomes_run_firsts:
  "fold outcomes_step xs s = fold outcomes_step (firsts (terminalIds s) xs) s"
proof (induction xs arbitrary: s)
  case Nil
  then show ?case by simp
next
  case (Cons x xs)
  show ?case
  proof (cases "op_id x \<in> terminalIds s")
    case True
    then show ?thesis using Cons.IH [of s] by (simp add: outcomes_step_known)
  next
    case False
    then show ?thesis using Cons.IH [of "outcomes_step x s"] by (simp add: outcomes_step_ids)
  qed
qed

lemma firsts_fresh: "x \<in> set (firsts seen xs) \<Longrightarrow> op_id x \<notin> seen"
  by (induction xs arbitrary: seen) (auto split: if_splits)

lemma distinct_firsts: "distinct (map op_id (firsts seen xs))"
  by (induction xs arbitrary: seen) (auto dest: firsts_fresh)

lemma outcomes_run_fresh:
  assumes "distinct (map op_id xs)" and "\<forall>x \<in> set xs. op_id x \<notin> terminalIds s"
  shows "uploadedFiles (fold outcomes_step xs s) = uploadedFiles s + length (filter is_save xs) \<and>
    skippedFiles (fold outcomes_step xs s) = skippedFiles s + length (filter is_skip xs) \<and>
    failedFiles (fold outcomes_step xs s) = failedFiles s + length (filter is_fail xs) \<and>
    preparationFailedFiles (fold outcomes_step xs s) =
      preparationFailedFiles s + length (filter is_preparation_fail xs) \<and>
    successfulUploadedBytes (fold outcomes_step xs s) =
      successfulUploadedBytes s + sum_list (map save_bytes xs) \<and>
    skippedBytes (fold outcomes_step xs s) = skippedBytes s + sum_list (map skip_bytes xs)"
  using assms
proof (induction xs arbitrary: s)
  case Nil
  then show ?case by simp
next
  case (Cons x xs)
  have "\<forall>y \<in> set xs. op_id y \<notin> terminalIds (outcomes_step x s)"
    using Cons.prems by (auto simp: outcomes_step_ids image_iff)
  with Cons.IH [of "outcomes_step x s"] Cons.prems show ?case
    by (simp add: outcomes_step_fresh)
qed

subsection \<open>Lemmas: worker activity\<close>

definition activity_inv :: "number \<Rightarrow> UploadWorkerActivity \<Rightarrow> bool" where
  "activity_inv t s \<longleftrightarrow>
     (\<forall>since. wa_idleSince s = Some since \<longrightarrow> since \<le> t) \<and>
     (wa_started s \<and> wa_active s = 0 \<longrightarrow> wa_idleSince s \<noteq> None) \<and>
     (\<not> wa_started s \<longrightarrow> wa_idleSince s = None) \<and> wa_active s \<le> wa_peak s"

lemmas activity_defs = activity_start_def activity_busy_def activity_idle_def
  idleMilliseconds_def activity_inv_def

lemma activity_inv_later: "activity_inv t s \<Longrightarrow> t \<le> u \<Longrightarrow> activity_inv u s"
  by (force simp: activity_inv_def)

lemma idleMilliseconds_later:
  "activity_inv t s \<Longrightarrow> t \<le> u \<Longrightarrow>
    idleMilliseconds u s = idleMilliseconds t s + (if wa_started s \<and> wa_active s = 0 then u - t else 0)"
  by (auto simp: activity_defs split: option.splits)

lemma activity_step_inv:
  assumes "activity_inv t s" and "x = Op_idle \<longrightarrow> 0 < wa_active s"
  shows "activity_inv t (activity_step (t, x) s)"
  using assms by (cases x) (auto simp: activity_defs Let_def split: option.splits)

lemma activity_step_idle:
  assumes "activity_inv t s" and "x = Op_idle \<longrightarrow> 0 < wa_active s"
  shows "idleMilliseconds t (activity_step (t, x) s) = idleMilliseconds t s"
  using assms by (cases x) (auto simp: activity_defs Let_def split: option.splits)

lemma activity_step_fields:
  "wa_started (activity_step (t, x) s) = (wa_started s \<or> x = Op_start)"
  "wa_active (activity_step (t, x) s) =
     (case x of Op_start \<Rightarrow> wa_active s | Op_busy \<Rightarrow> wa_active s + 1 | Op_idle \<Rightarrow> wa_active s - 1)"
  by (cases x; simp add: activity_defs Let_def split: option.splits)+

lemma idle_run:
  assumes "activity_inv prev s" and "activity_ok (wa_active s) prev xs until"
  shows "idleMilliseconds until (fold activity_step xs s) =
           idleMilliseconds prev s + idle_spec (wa_started s) (wa_active s) prev xs until"
  using assms
proof (induction xs arbitrary: s prev)
  case Nil
  then show ?case using idleMilliseconds_later [of prev s until] by simp
next
  case (Cons e xs)
  obtain t x where e: "e = (t, x)" by (cases e)
  let ?s' = "activity_step (t, x) s"
  from Cons.prems e have t: "prev \<le> t" and b: "x = Op_idle \<longrightarrow> 0 < wa_active s"
    and ok: "activity_ok (wa_active ?s') t xs until"
    by (auto simp: activity_step_fields split: activity_op.splits)
  have inv: "activity_inv t s" using Cons.prems(1) t by (rule activity_inv_later)
  have "idleMilliseconds until (fold activity_step xs ?s') =
      idleMilliseconds t ?s' + idle_spec (wa_started ?s') (wa_active ?s') t xs until"
    using activity_step_inv [OF inv b] ok by (rule Cons.IH)
  also have "idleMilliseconds t ?s' = idleMilliseconds t s"
    using inv b by (rule activity_step_idle)
  also have "\<dots> = idleMilliseconds prev s + (if wa_started s \<and> wa_active s = 0 then t - prev else 0)"
    using Cons.prems(1) t by (rule idleMilliseconds_later)
  finally show ?case
    by (auto simp: e activity_step_fields split: activity_op.splits)
qed

subsection \<open>Properties\<close>


text \<open>
  The counters stay consistent: after any calls, the completed files are the
  uploaded, skipped and failed ones, preparation failures are failures, and the skipped
  bytes split into the avoided bytes and the finalization duplicates.
\<close>

theorem outcomes_consistent:
  "let s = fold outcomes_step xs new_TransferOutcomes in
     filesCompleted s = uploadedFiles s + skippedFiles s + failedFiles s \<and>
     preparationFailedFiles s \<le> failedFiles s \<and>
     serverSkippedFiles s \<le> skippedFiles s \<and>
     skippedBytes s = avoidedBytes s + finalizationDuplicateBytes s \<and>
     serverSkippedBytes s = finalizationDuplicateBytes s"
  using outcomes.run_inv [OF outcomes_inv_new, of xs] by (simp add: outcomes_inv_def Let_def)

text \<open>
  C37. \<open>idleMilliseconds\<close> measures what its comment says: for a history of worker events
  whose times do not go back and in which only busy workers become idle, the reading is
  the total time during which the pool was started and no worker was active.
\<close>

theorem idleMilliseconds_correct:
  assumes "activity_ok 0 t0 xs until"
  shows "idleMilliseconds until (fold activity_step xs new_UploadWorkerActivity) =
           idle_spec False 0 t0 xs until"
proof -
  have "activity_inv t0 new_UploadWorkerActivity"
    by (simp add: activity_inv_def new_UploadWorkerActivity_def)
  from idle_run [OF this, of xs until] assms show ?thesis
    by (simp add: new_UploadWorkerActivity_def idleMilliseconds_def)
qed

theorem idleMilliseconds_correct_witness:
  "activity_ok 0 0 [(10, Op_start), (30, Op_busy), (70, Op_idle)] 100 \<and>
   idleMilliseconds 100
     (fold activity_step [(10, Op_start), (30, Op_busy), (70, Op_idle)] new_UploadWorkerActivity) = 50"
  using idleMilliseconds_correct [of 0 "[(10, Op_start), (30, Op_busy), (70, Op_idle)]" 100] by simp

end
