(* ===== verification/ReadyQueue.thy ===== *)
theory ReadyQueue
  imports UploadTypes
begin

text \<open>
  \<open>services/upload/BoundedAsyncQueue.ts\<close>. The class keeps the queued items, the resolvers
  of parked consumers and producers, the closed flag and the largest observed depth. The
  program is single-threaded: between two \<open>await\<close>s a method runs without interruption,
  so each method is modelled as its synchronous segments, and the interleaving of calls
  as a sequence of events of a system \<open>qsys\<close> that holds the queue, the suspended \<open>push\<close>
  calls that were resolved but have not resumed yet, and the history of accepted and
  delivered values. A resolver is represented by the suspended call: the number and the
  value of a \<open>push\<close>, the number of a \<open>shift\<close>.
\<close>

subsection \<open>The class\<close>

record ('a, 'p, 'c) BoundedAsyncQueue =
  q_items :: "'a list"
  q_waitingConsumers :: "'c list"
  q_waitingProducers :: "'p list"
  q_closed :: bool
  q_observedMaxDepth :: nat
  q_capacity :: nat

definition new_BoundedAsyncQueue :: "jsnum \<Rightarrow> string + ('a, 'p, 'c) BoundedAsyncQueue" where
  "new_BoundedAsyncQueue capacity =
     (if \<not> isInteger capacity \<or> num_le capacity (Fin 0)
      then Inl ''Queue capacity must be a positive integer''
      else Inr \<lparr>q_items = [], q_waitingConsumers = [], q_waitingProducers = [], q_closed = False,
                q_observedMaxDepth = 0, q_capacity = nat \<lfloor>fin_val capacity\<rfloor>\<rparr>)"

definition queue_maxDepth :: "('a, 'p, 'c) BoundedAsyncQueue \<Rightarrow> nat" where
  "queue_maxDepth q = q_observedMaxDepth q"

definition queue_depth :: "('a, 'p, 'c) BoundedAsyncQueue \<Rightarrow> nat" where
  "queue_depth q = length (q_items q)"

text \<open>
  One segment of \<open>push\<close>, from its first statement or from the \<open>await\<close> of a parked call:
  either the call parks, or it finds the queue closed, hands its value to the first
  parked consumer, or enqueues it. \<open>waiting\<close> is the local flag of the call; the list of
  booleans are the invocations of \<open>onCapacityWaitChange\<close>.
\<close>

datatype 'c push_outcome = Push_parked | Push_closed | Push_handed 'c | Push_enqueued

definition queue_push :: "bool \<Rightarrow> 'p \<Rightarrow> 'a \<Rightarrow> ('a, 'p, 'c) BoundedAsyncQueue
    \<Rightarrow> 'c push_outcome \<times> bool list \<times> ('a, 'p, 'c) BoundedAsyncQueue" where
  "queue_push waiting call x q =
     (if \<not> q_closed q \<and> length (q_items q) \<ge> q_capacity q
      then (Push_parked, if waiting then [] else [True],
            q\<lparr>q_waitingProducers := q_waitingProducers q @ [call]\<rparr>)
      else
        (let callbacks = (if waiting then [False] else [])
         in if q_closed q then (Push_closed, callbacks, q)
            else case q_waitingConsumers q of
                   c # cs \<Rightarrow> (Push_handed c, callbacks, q\<lparr>q_waitingConsumers := cs\<rparr>)
                 | [] \<Rightarrow>
                     (let q1 = q\<lparr>q_items := q_items q @ [x]\<rparr>
                      in (Push_enqueued, callbacks,
                          q1\<lparr>q_observedMaxDepth := max (q_observedMaxDepth q1) (length (q_items q1))\<rparr>))))"

text \<open>\<open>shift\<close>: a value, with the parked producer that is resolved; \<open>null\<close>; or the call parks.\<close>

datatype ('a, 'p) shift_outcome = Shift_item 'a "'p option" | Shift_null | Shift_parked

definition queue_shift :: "'c \<Rightarrow> ('a, 'p, 'c) BoundedAsyncQueue
    \<Rightarrow> ('a, 'p) shift_outcome \<times> ('a, 'p, 'c) BoundedAsyncQueue" where
  "queue_shift call q =
     (case q_items q of
        x # xs \<Rightarrow>
          (case q_waitingProducers q of
             p # ps \<Rightarrow> (Shift_item x (Some p), q\<lparr>q_items := xs, q_waitingProducers := ps\<rparr>)
           | [] \<Rightarrow> (Shift_item x None, q\<lparr>q_items := xs\<rparr>))
      | [] \<Rightarrow>
          (if q_closed q then (Shift_null, q)
           else (Shift_parked, q\<lparr>q_waitingConsumers := q_waitingConsumers q @ [call]\<rparr>)))"

text \<open>\<open>close\<close>: the consumers resolved with \<open>null\<close> and the producers resolved.\<close>

definition queue_close :: "('a, 'p, 'c) BoundedAsyncQueue
    \<Rightarrow> 'c list \<times> 'p list \<times> ('a, 'p, 'c) BoundedAsyncQueue" where
  "queue_close q =
     (if q_closed q then ([], [], q)
      else (q_waitingConsumers q, q_waitingProducers q,
            q\<lparr>q_closed := True, q_waitingConsumers := [], q_waitingProducers := []\<rparr>))"

subsection \<open>The system of interleaved calls\<close>

record 'a qsys =
  qs_queue :: "('a, nat \<times> 'a, nat) BoundedAsyncQueue"
  qs_woken :: "(nat \<times> 'a) list"
  qs_accepted :: "'a list"
  qs_delivered :: "(nat \<times> 'a) list"
  qs_nulls :: "nat list"
  qs_rejected :: "(nat \<times> 'a) list"
  qs_waitEvents :: "(nat \<times> bool) list"

definition init_qsys :: "('a, nat \<times> 'a, nat) BoundedAsyncQueue \<Rightarrow> 'a qsys" where
  "init_qsys q = \<lparr>qs_queue = q, qs_woken = [], qs_accepted = [], qs_delivered = [],
                  qs_nulls = [], qs_rejected = [], qs_waitEvents = []\<rparr>"

datatype 'a queue_event =
    Call_push nat 'a
  | Resume_push nat
  | Call_shift nat
  | Call_close

definition run_push :: "bool \<Rightarrow> nat \<times> 'a \<Rightarrow> 'a qsys \<Rightarrow> 'a qsys" where
  "run_push waiting call s =
     (case queue_push waiting call (snd call) (qs_queue s) of (r, callbacks, q) \<Rightarrow>
        (let s1 = s\<lparr>qs_queue := q,
                    qs_waitEvents := qs_waitEvents s @ map (\<lambda>b. (fst call, b)) callbacks\<rparr>
         in case r of
              Push_parked \<Rightarrow> s1
            | Push_closed \<Rightarrow> s1\<lparr>qs_rejected := qs_rejected s1 @ [call]\<rparr>
            | Push_handed c \<Rightarrow> s1\<lparr>qs_accepted := qs_accepted s1 @ [snd call],
                                  qs_delivered := qs_delivered s1 @ [(c, snd call)]\<rparr>
            | Push_enqueued \<Rightarrow> s1\<lparr>qs_accepted := qs_accepted s1 @ [snd call]\<rparr>))"

fun queue_step :: "'a queue_event \<Rightarrow> 'a qsys \<Rightarrow> 'a qsys" where
  "queue_step (Call_push n x) s = run_push False (n, x) s"
| "queue_step (Resume_push i) s =
     (if i < length (qs_woken s)
      then run_push True (qs_woken s ! i)
             (s\<lparr>qs_woken := take i (qs_woken s) @ drop (Suc i) (qs_woken s)\<rparr>)
      else s)"
| "queue_step (Call_shift c) s =
     (case queue_shift c (qs_queue s) of
        (Shift_item x None, q) \<Rightarrow>
          s\<lparr>qs_queue := q, qs_delivered := qs_delivered s @ [(c, x)]\<rparr>
      | (Shift_item x (Some p), q) \<Rightarrow>
          s\<lparr>qs_queue := q, qs_delivered := qs_delivered s @ [(c, x)],
            qs_woken := qs_woken s @ [p]\<rparr>
      | (Shift_null, q) \<Rightarrow> s\<lparr>qs_queue := q, qs_nulls := qs_nulls s @ [c]\<rparr>
      | (Shift_parked, q) \<Rightarrow> s\<lparr>qs_queue := q\<rparr>)"
| "queue_step Call_close s =
     (case queue_close (qs_queue s) of (cs, ps, q) \<Rightarrow>
        s\<lparr>qs_queue := q, qs_nulls := qs_nulls s @ cs, qs_woken := qs_woken s @ ps\<rparr>)"

definition queue_inv :: "'a qsys \<Rightarrow> bool" where
  "queue_inv s \<longleftrightarrow>
     (let q = qs_queue s in
      0 < q_capacity q \<and>
      length (q_items q) \<le> q_observedMaxDepth q \<and> q_observedMaxDepth q \<le> q_capacity q \<and>
      (q_waitingConsumers q \<noteq> [] \<longrightarrow> q_items q = []) \<and>
      (q_closed q \<longrightarrow> q_waitingConsumers q = [] \<and> q_waitingProducers q = []) \<and>
      qs_accepted s = map snd (qs_delivered s) @ q_items q)"

text \<open>
  The discipline of the transfer session: one producer, which awaits each \<open>push\<close> before
  the next one.
\<close>

fun one_producer :: "'a queue_event \<Rightarrow> 'a qsys \<Rightarrow> bool" where
  "one_producer (Call_push n x) s = (q_waitingProducers (qs_queue s) = [] \<and> qs_woken s = [])"
| "one_producer _ s = True"

definition one_producer_inv :: "'a qsys \<Rightarrow> bool" where
  "one_producer_inv s \<longleftrightarrow>
     queue_inv s \<and>
     length (q_waitingProducers (qs_queue s)) + length (qs_woken s) \<le> 1 \<and>
     (q_waitingProducers (qs_queue s) \<noteq> [] \<longrightarrow>
        length (q_items (qs_queue s)) = q_capacity (qs_queue s))"

text \<open>
  A stuck state: a producer and a consumer are both parked and nothing is about to run.
\<close>

definition queue_stuck :: "'a qsys \<Rightarrow> bool" where
  "queue_stuck s \<longleftrightarrow>
     q_waitingProducers (qs_queue s) \<noteq> [] \<and> q_waitingConsumers (qs_queue s) \<noteq> [] \<and>
     qs_woken s = [] \<and> \<not> q_closed (qs_queue s)"

subsection \<open>Lemmas\<close>

lemmas queue_defs = queue_push_def queue_shift_def queue_close_def run_push_def Let_def

lemma new_queue_inv:
  assumes "new_BoundedAsyncQueue capacity = Inr q"
  shows "queue_inv (init_qsys q)" and "one_producer_inv (init_qsys q)"
proof -
  from assms obtain r where r: "capacity = Fin r" and "0 < r" and int: "of_int \<lfloor>r\<rfloor> = r"
    and q: "q = \<lparr>q_items = [], q_waitingConsumers = [], q_waitingProducers = [], q_closed = False,
                 q_observedMaxDepth = 0, q_capacity = nat \<lfloor>r\<rfloor>\<rparr>"
    by (cases capacity) (auto simp: new_BoundedAsyncQueue_def isInteger_def split: if_splits)
  then have "0 < nat \<lfloor>r\<rfloor>" by linarith
  then show "queue_inv (init_qsys q)" and "one_producer_inv (init_qsys q)"
    by (simp_all add: q queue_inv_def one_producer_inv_def init_qsys_def)
qed

text \<open>A fresh queue of a given capacity, for evaluation on concrete inputs.\<close>

definition fresh_queue :: "nat \<Rightarrow> ('a, 'p, 'c) BoundedAsyncQueue" where
  "fresh_queue n = \<lparr>q_items = [], q_waitingConsumers = [], q_waitingProducers = [], q_closed = False,
                    q_observedMaxDepth = 0, q_capacity = n\<rparr>"

lemma new_queue_fresh: "0 < n \<Longrightarrow> new_BoundedAsyncQueue (Fin (of_nat n)) = Inr (fresh_queue n)"
  by (simp add: new_BoundedAsyncQueue_def isInteger_def fresh_queue_def)

lemmas queue_eval = fresh_queue_def init_qsys_def queue_defs numeral_2_eq_2

lemma run_push_inv: "queue_inv s \<Longrightarrow> queue_inv (run_push waiting call s)"
  by (auto simp: queue_inv_def queue_defs split: list.splits)

lemma queue_inv_woken [simp]: "queue_inv (s\<lparr>qs_woken := w\<rparr>) = queue_inv s"
  by (simp add: queue_inv_def)

lemma queue_step_inv: "queue_inv s \<Longrightarrow> queue_inv (queue_step e s)"
proof (cases e)
  case (Call_shift c)
  moreover assume "queue_inv s"
  ultimately show ?thesis
    by (auto simp: queue_inv_def queue_defs split: list.splits)
next
  case Call_close
  moreover assume "queue_inv s"
  ultimately show ?thesis by (auto simp: queue_inv_def queue_defs)
qed (simp_all add: run_push_inv)

interpretation rq: ready_queue queue_step queue_inv qs_accepted "\<lambda>s. map snd (qs_delivered s)"
    "\<lambda>s. q_items (qs_queue s)"
  by unfold_locales (auto simp: queue_step_inv, simp add: queue_inv_def Let_def)

lemma one_producer_step:
  assumes "one_producer_inv s" and "one_producer e s"
  shows "one_producer_inv (queue_step e s)"
proof -
  have inv: "queue_inv (queue_step e s)"
    using assms(1) by (simp add: one_producer_inv_def queue_step_inv)
  show ?thesis
  proof (cases e)
    case (Call_push n x)
    with assms inv show ?thesis
      by (auto simp: one_producer_inv_def queue_defs queue_inv_def split: list.splits)
  next
    case (Resume_push i)
    show ?thesis
    proof (cases "i < length (qs_woken s)")
      case True
      moreover have "length (q_waitingProducers (qs_queue s)) + length (qs_woken s) \<le> 1"
        using assms by (simp add: one_producer_inv_def)
      ultimately have "i = 0" and "length (q_waitingProducers (qs_queue s)) = 0"
        and "length (qs_woken s) = 1" by linarith+
      with Resume_push assms inv show ?thesis
        by (auto simp: one_producer_inv_def queue_defs queue_inv_def length_Suc_conv split: list.splits)
    next
      case False
      with Resume_push assms show ?thesis by simp
    qed
  next
    case (Call_shift c)
    with assms inv show ?thesis
      by (auto simp: one_producer_inv_def queue_defs split: list.splits)
  next
    case Call_close
    with assms inv show ?thesis
      by (auto simp: one_producer_inv_def queue_defs)
  qed
qed

interpretation rq1: guarded_machine queue_step one_producer_inv one_producer
  by unfold_locales (rule one_producer_step)

lemma close_closes: "q_closed (qs_queue (queue_step Call_close s))"
  by (simp add: queue_close_def)

lemma run_push_closed:
  "q_closed (qs_queue s) \<Longrightarrow> q_closed (qs_queue (run_push w call s)) \<and>
    qs_accepted (run_push w call s) = qs_accepted s"
  by (simp add: queue_defs)

lemma step_closed:
  "q_closed (qs_queue s) \<Longrightarrow> q_closed (qs_queue (queue_step e s)) \<and>
    qs_accepted (queue_step e s) = qs_accepted s"
  by (cases e) (auto simp: run_push_closed queue_shift_def queue_close_def split: list.splits)

lemma run_closed:
  "q_closed (qs_queue s) \<Longrightarrow> q_closed (qs_queue (fold queue_step es s)) \<and>
    qs_accepted (fold queue_step es s) = qs_accepted s"
  by (induction es arbitrary: s) (simp_all add: step_closed)

lemma drain_shifts:
  assumes "q_closed (qs_queue s)" and "queue_inv s"
  shows "length cs = length (q_items (qs_queue s)) \<Longrightarrow>
    qs_delivered (fold queue_step (map Call_shift cs) s) =
      qs_delivered s @ zip cs (q_items (qs_queue s)) \<and>
    q_items (qs_queue (fold queue_step (map Call_shift cs) s)) = []"
  using assms
proof (induction cs arbitrary: s)
  case Nil
  then show ?case by simp
next
  case (Cons c cs)
  then obtain x xs where items: "q_items (qs_queue s) = x # xs"
    by (cases "q_items (qs_queue s)") auto
  have none: "q_waitingProducers (qs_queue s) = []"
    using Cons.prems by (simp add: queue_inv_def Let_def)
  let ?s = "queue_step (Call_shift c) s"
  have "q_items (qs_queue ?s) = xs" "qs_delivered ?s = qs_delivered s @ [(c, x)]"
    using items none by (simp_all add: queue_shift_def)
  moreover have "q_closed (qs_queue ?s)" using step_closed Cons.prems(2) by blast
  moreover have "queue_inv ?s" using queue_step_inv Cons.prems(3) by blast
  ultimately show ?case using Cons.IH [of ?s] Cons.prems(1) items by simp
qed

subsection \<open>Properties\<close>

text \<open>
  C6. The queue is bounded and loses nothing: from a queue made by the constructor, after
  any interleaving of \<open>push\<close>, \<open>shift\<close>, resumed and \<open>close\<close> calls, the number of queued
  items and the reported maximum depth never exceed the capacity, and the accepted values
  are exactly the delivered ones, in order, followed by the queued ones.
\<close>

theorem queue_bounded_fifo:
  fixes q :: "('a, nat \<times> 'a, nat) BoundedAsyncQueue" and es :: "'a queue_event list"
  assumes "new_BoundedAsyncQueue capacity = Inr q"
  defines "s \<equiv> fold queue_step es (init_qsys q)"
  shows "queue_depth (qs_queue s) \<le> q_capacity (qs_queue s) \<and>
         queue_maxDepth (qs_queue s) \<le> q_capacity (qs_queue s) \<and>
         qs_accepted s = map snd (qs_delivered s) @ q_items (qs_queue s)"
proof -
  have "queue_inv s" unfolding s_def
    using new_queue_inv(1) [OF assms(1)] by (rule rq.run_inv)
  then show ?thesis by (auto simp: queue_inv_def queue_depth_def queue_maxDepth_def Let_def)
qed

theorem queue_bounded_fifo_witness:
  "new_BoundedAsyncQueue (Fin (of_nat 2)) = Inr (fresh_queue 2) \<and>
   (let s = fold queue_step [Call_push 0 ''a'', Call_push 0 ''b'', Call_shift 1] (init_qsys (fresh_queue 2))
    in qs_delivered s = [(1, ''a'')] \<and> qs_accepted s = [''a'', ''b''])"
  using new_queue_fresh [of 2]
    queue_bounded_fifo [of "Fin (of_nat 2)" "fresh_queue 2" "[Call_push 0 ''a'', Call_push 0 ''b'', Call_shift 1]"]
  by (simp add: queue_eval)

text \<open>
  The discipline of the session rules out a lost wake-up: when a single producer awaits
  each \<open>push\<close>, then in every reachable state a parked producer means a full queue and no
  parked consumer, so the next \<open>shift\<close> returns a value and wakes the producer.
\<close>

theorem one_producer_not_stuck:
  fixes q :: "('a, nat \<times> 'a, nat) BoundedAsyncQueue" and es :: "'a queue_event list"
  assumes "new_BoundedAsyncQueue capacity = Inr q"
    and "run_ok one_producer queue_step es (init_qsys q)"
  defines "s \<equiv> fold queue_step es (init_qsys q)"
  assumes "q_waitingProducers (qs_queue s) \<noteq> []"
  shows "q_waitingConsumers (qs_queue s) = [] \<and>
         (\<exists>x p q'. queue_shift c (qs_queue s) = (Shift_item x (Some p), q'))"
proof -
  have inv: "one_producer_inv s" unfolding s_def
    using new_queue_inv(2) [OF assms(1)] assms(2) by (rule rq1.guarded_run)
  then have "0 < length (q_items (qs_queue s))"
    using assms(4) by (simp add: one_producer_inv_def queue_inv_def Let_def)
  then obtain x xs where "q_items (qs_queue s) = x # xs"
    by (cases "q_items (qs_queue s)") auto
  moreover obtain p ps where "q_waitingProducers (qs_queue s) = p # ps"
    using assms(4) by (cases "q_waitingProducers (qs_queue s)") auto
  ultimately show ?thesis
    using inv by (auto simp: one_producer_inv_def queue_inv_def queue_shift_def Let_def)
qed

theorem one_producer_not_stuck_witness:
  "let s = fold queue_step [Call_push 0 ''a'', Call_push 1 ''b''] (init_qsys (fresh_queue 1)) in
     q_waitingProducers (qs_queue s) \<noteq> [] \<and> q_waitingConsumers (qs_queue s) = []"
  using new_queue_fresh [of 1]
    one_producer_not_stuck [of "Fin (of_nat 1)" "fresh_queue 1" "[Call_push 0 ''a'', Call_push 1 ''b'']"]
  by (simp add: queue_eval)

text \<open>
  With two concurrent producers the class can lose a wake-up: there is an interleaving
  after which a producer and a consumer are both parked, nothing is about to run, and the
  queue is open, so both wait for ever.
\<close>

theorem two_producers_can_get_stuck:
  "\<exists>(q :: (string, nat \<times> string, nat) BoundedAsyncQueue) es.
     new_BoundedAsyncQueue (Fin (of_nat 1)) = Inr q \<and> queue_stuck (fold queue_step es (init_qsys q))"
proof (intro exI conjI)
  show "new_BoundedAsyncQueue (Fin (of_nat 1)) = Inr (fresh_queue 1)"
    by (rule new_queue_fresh) simp
  show "queue_stuck (fold queue_step [Call_push 0 ''a'', Call_push 1 ''b'', Call_push 2 ''c'',
          Call_shift 5, Call_shift 6, Resume_push 0, Call_shift 5] (init_qsys (fresh_queue 1)))"
    by (simp add: queue_eval queue_stuck_def)
qed

text \<open>
  \<open>close\<close> is final and drains: after it no value is accepted whatever is called next, no
  call stays parked, and as many \<open>shift\<close> calls as there are queued items deliver exactly
  those items in order.
\<close>

theorem close_drains:
  fixes q :: "('a, nat \<times> 'a, nat) BoundedAsyncQueue" and es :: "'a queue_event list"
  assumes "new_BoundedAsyncQueue capacity = Inr q"
  defines "s \<equiv> queue_step Call_close (fold queue_step es (init_qsys q))"
  shows "qs_accepted (fold queue_step es' s) = qs_accepted s \<and>
         q_waitingConsumers (qs_queue s) = [] \<and> q_waitingProducers (qs_queue s) = [] \<and>
         (length cs = length (q_items (qs_queue s)) \<longrightarrow>
            qs_delivered (fold queue_step (map Call_shift cs) s) =
              qs_delivered s @ zip cs (q_items (qs_queue s)))"
proof -
  have inv: "queue_inv s" unfolding s_def
    by (intro queue_step_inv rq.run_inv new_queue_inv(1) [OF assms(1)])
  have closed: "q_closed (qs_queue s)" unfolding s_def by (rule close_closes)
  show ?thesis
    using run_closed [OF closed, of es'] drain_shifts [OF closed inv, of cs] inv closed
    by (auto simp: queue_inv_def Let_def)
qed

theorem close_drains_witness:
  "let s = queue_step Call_close (fold queue_step [Call_push 0 ''a''] (init_qsys (fresh_queue 1))) in
     qs_accepted (fold queue_step [Call_push 1 ''b''] s) = [''a''] \<and>
     qs_delivered (fold queue_step (map Call_shift [4]) s) = [(4, ''a'')]"
  using new_queue_fresh [of 1]
    close_drains [of "Fin (of_nat 1)" "fresh_queue 1" "[Call_push 1 ''b'']" "[Call_push 0 ''a'']" "[4]"]
  by (simp add: queue_eval)

end
