(* ===== verification/Thermal.thy ===== *)
theory Thermal
  imports UploadTypes
begin

text \<open>
  \<open>services/upload/ThermalController.ts\<close>: the gate that upload workers pass before each
  file. A worker that must wait is parked until the thermal state changes or the transfer
  is cancelled. As in \<open>ReadyQueue\<close>, \<open>waitForUpload\<close> is modelled by its synchronous
  segment, and a system state holds the parked and the resumed calls and the answers
  that were given.
\<close>

subsection \<open>The class\<close>

record ThermalController =
  tc_state :: ThermalState
  tc_cancelled :: bool
  tc_waiters :: "nat list"
  tc_policy :: ThermalPolicy

definition new_ThermalController :: "ThermalPolicy option \<Rightarrow> ThermalController" where
  "new_ThermalController policy =
     \<lparr>tc_state = Nominal, tc_cancelled = False, tc_waiters = [],
      tc_policy = (case policy of Some p \<Rightarrow> p | None \<Rightarrow> Adaptive)\<rparr>"

definition controlMode :: "ThermalController \<Rightarrow> ThermalControl" where
  "controlMode c =
     (if tc_policy c = Monitor_only then Control_normal
      else if tc_state c = Serious \<or> tc_state c = Critical then Control_reduced
      else Control_normal)"

text \<open>\<open>wake\<close>: the resumed calls, and the empty set of waiters.\<close>

definition thermal_wake :: "ThermalController \<Rightarrow> nat list \<times> ThermalController" where
  "thermal_wake c = (tc_waiters c, c\<lparr>tc_waiters := []\<rparr>)"

definition thermal_update :: "ThermalState \<Rightarrow> ThermalController \<Rightarrow> nat list \<times> ThermalController" where
  "thermal_update st c =
     (if st = tc_state c then ([], c) else thermal_wake (c\<lparr>tc_state := st\<rparr>))"

definition thermal_cancel :: "ThermalController \<Rightarrow> nat list \<times> ThermalController" where
  "thermal_cancel c = thermal_wake (c\<lparr>tc_cancelled := True\<rparr>)"

definition waitForPreparation :: "ThermalController \<Rightarrow> bool" where
  "waitForPreparation c \<longleftrightarrow> \<not> tc_cancelled c"

text \<open>
  One segment of \<open>waitForUpload\<close>, at the call or after a resumption: the answer, or
  \<open>None\<close> when the call parks (\<open>wait\<close> adds its resolver).
\<close>

definition waitForUpload :: "nat \<Rightarrow> ThermalController \<Rightarrow> bool option \<times> ThermalController" where
  "waitForUpload workerIndex c =
     (if tc_policy c = Monitor_only then (Some (\<not> tc_cancelled c), c)
      else if \<not> tc_cancelled c \<and> (tc_state c = Serious \<or> tc_state c = Critical) \<and> 0 < workerIndex
      then (None, c\<lparr>tc_waiters := tc_waiters c @ [workerIndex]\<rparr>)
      else (Some (\<not> tc_cancelled c), c))"

subsection \<open>The system of interleaved calls\<close>

record thermal_sys =
  ts_ctl :: ThermalController
  ts_woken :: "nat list"
  ts_answers :: "(nat \<times> bool) list"

datatype thermal_event =
    Ev_update ThermalState
  | Ev_cancel
  | Ev_wait nat
  | Ev_resume nat

definition run_wait :: "nat \<Rightarrow> thermal_sys \<Rightarrow> thermal_sys" where
  "run_wait w s =
     (case waitForUpload w (ts_ctl s) of
        (None, c) \<Rightarrow> s\<lparr>ts_ctl := c\<rparr>
      | (Some b, c) \<Rightarrow> s\<lparr>ts_ctl := c, ts_answers := ts_answers s @ [(w, b)]\<rparr>)"

fun thermal_step :: "thermal_event \<Rightarrow> thermal_sys \<Rightarrow> thermal_sys" where
  "thermal_step (Ev_update st) s =
     (case thermal_update st (ts_ctl s) of (ws, c) \<Rightarrow> s\<lparr>ts_ctl := c, ts_woken := ts_woken s @ ws\<rparr>)"
| "thermal_step Ev_cancel s =
     (case thermal_cancel (ts_ctl s) of (ws, c) \<Rightarrow> s\<lparr>ts_ctl := c, ts_woken := ts_woken s @ ws\<rparr>)"
| "thermal_step (Ev_wait w) s = run_wait w s"
| "thermal_step (Ev_resume i) s =
     (if i < length (ts_woken s)
      then run_wait (ts_woken s ! i)
             (s\<lparr>ts_woken := take i (ts_woken s) @ drop (Suc i) (ts_woken s)\<rparr>)
      else s)"

definition init_thermal :: "ThermalPolicy option \<Rightarrow> thermal_sys" where
  "init_thermal policy =
     \<lparr>ts_ctl = new_ThermalController policy, ts_woken = [], ts_answers = []\<rparr>"

definition thermal_inv :: "thermal_sys \<Rightarrow> bool" where
  "thermal_inv s \<longleftrightarrow>
     (tc_waiters (ts_ctl s) \<noteq> [] \<longrightarrow>
        controlMode (ts_ctl s) = Control_reduced \<and> \<not> tc_cancelled (ts_ctl s)) \<and>
     0 \<notin> set (tc_waiters (ts_ctl s)) \<and>
     (tc_cancelled (ts_ctl s) \<or> (\<forall>(w, b) \<in> set (ts_answers s). b))"

subsection \<open>Lemmas\<close>

lemmas thermal_defs = thermal_update_def thermal_cancel_def thermal_wake_def waitForUpload_def
  run_wait_def thermal_inv_def controlMode_def

lemma thermal_inv_woken [simp]: "thermal_inv (s\<lparr>ts_woken := ws\<rparr>) = thermal_inv s"
  by (simp add: thermal_inv_def)

lemma run_wait_inv: "thermal_inv s \<Longrightarrow> thermal_inv (run_wait w s)"
  by (auto simp: thermal_defs split: if_splits)

lemma thermal_step_inv: "thermal_inv s \<Longrightarrow> thermal_inv (thermal_step e s)"
  by (cases e) (auto simp: run_wait_inv, auto simp: thermal_defs split: if_splits)

interpretation thermal: event_machine thermal_step thermal_inv
  by unfold_locales (rule thermal_step_inv)

lemma thermal_init_inv: "thermal_inv (init_thermal policy)"
  by (simp add: thermal_inv_def init_thermal_def new_ThermalController_def)

lemma thermal_policy_step: "tc_policy (ts_ctl (thermal_step e s)) = tc_policy (ts_ctl s)"
  by (cases e) (auto simp: thermal_defs)

lemma thermal_policy_run: "tc_policy (ts_ctl (fold thermal_step es s)) = tc_policy (ts_ctl s)"
  by (induction es arbitrary: s) (simp_all add: thermal_policy_step)

lemma run_wait_answers:
  "controlMode (ts_ctl s) \<noteq> Control_reduced \<or> tc_cancelled (ts_ctl s) \<or> w = 0 \<Longrightarrow>
    ts_answers (run_wait w s) = ts_answers s @ [(w, \<not> tc_cancelled (ts_ctl s))]"
  by (auto simp: run_wait_def waitForUpload_def controlMode_def split: if_splits)

subsection \<open>Properties\<close>

text \<open>
  Heat never stops the transfer: after any interleaving of thermal updates, waits,
  resumptions and cancellation, a call can only be parked while an adaptive policy sees a
  serious or critical state, the transfer is not cancelled and the call is not that of
  worker 0; worker 0 is answered at once in every reachable state; and no worker is told
  to stop unless the transfer was cancelled.
\<close>

theorem thermal_never_stops:
  "let s = fold thermal_step es (init_thermal policy) in
     0 \<notin> set (tc_waiters (ts_ctl s)) \<and>
     (tc_waiters (ts_ctl s) = [] \<or>
        tc_policy (ts_ctl s) = Adaptive \<and> tc_state (ts_ctl s) \<in> {Serious, Critical} \<and>
        \<not> tc_cancelled (ts_ctl s)) \<and>
     fst (waitForUpload 0 (ts_ctl s)) = Some (\<not> tc_cancelled (ts_ctl s)) \<and>
     (tc_cancelled (ts_ctl s) \<or> False \<notin> snd ` set (ts_answers s))"
proof -
  have "thermal_inv (fold thermal_step es (init_thermal policy))"
    by (rule thermal.run_inv [OF thermal_init_inv])
  then show ?thesis
    by (cases "tc_policy (ts_ctl (fold thermal_step es (init_thermal policy)))")
      (auto simp: Let_def thermal_inv_def controlMode_def waitForUpload_def split: if_splits)
qed

theorem thermal_never_stops_witness:
  "let s = fold thermal_step [Ev_update Critical, Ev_wait 0, Ev_wait 1] (init_thermal None) in
     tc_waiters (ts_ctl s) = [1] \<and> ts_answers s = [(0, True)] \<and>
     fst (waitForUpload 0 (ts_ctl s)) = Some True"
  using thermal_never_stops [of "[Ev_update Critical, Ev_wait 0, Ev_wait 1]" None]
  by (simp add: init_thermal_def new_ThermalController_def thermal_defs)

text \<open>
  Cooling down and cancelling release everybody: both an update to a nominal or fair
  state and a cancellation leave no call parked, every call that was parked is resumed,
  and it is then answered, with \<open>false\<close> exactly after a cancellation.
\<close>

theorem thermal_releases:
  fixes es :: "thermal_event list" and policy :: "ThermalPolicy option"
  defines "s \<equiv> fold thermal_step es (init_thermal policy)"
  assumes "e = Ev_cancel \<or> e = Ev_update Nominal \<or> e = Ev_update Fair"
  shows "tc_waiters (ts_ctl (thermal_step e s)) = [] \<and>
         ts_woken (thermal_step e s) = ts_woken s @ tc_waiters (ts_ctl s) \<and>
         ts_answers (run_wait w (thermal_step e s)) =
           ts_answers s @ [(w, e \<noteq> Ev_cancel \<and> \<not> tc_cancelled (ts_ctl s))]"
proof -
  let ?t = "thermal_step e s"
  have "thermal_inv s" unfolding s_def by (rule thermal.run_inv [OF thermal_init_inv])
  then have rel: "tc_waiters (ts_ctl ?t) = []" "ts_woken ?t = ts_woken s @ tc_waiters (ts_ctl s)"
    using assms(2) by (auto simp: thermal_defs split: if_splits)
  have "ts_answers ?t = ts_answers s"
    "tc_cancelled (ts_ctl ?t) = (e = Ev_cancel \<or> tc_cancelled (ts_ctl s))"
    "controlMode (ts_ctl ?t) \<noteq> Control_reduced \<or> tc_cancelled (ts_ctl ?t)"
    using assms(2)
    by (auto simp: thermal_update_def thermal_cancel_def thermal_wake_def controlMode_def split: if_splits)
  then show ?thesis using rel by (auto simp: run_wait_answers)
qed

theorem thermal_releases_witness:
  "let s = fold thermal_step [Ev_update Critical, Ev_wait 1] (init_thermal None) in
     tc_waiters (ts_ctl s) = [1] \<and> ts_woken (thermal_step (Ev_update Fair) s) = [1] \<and>
     ts_answers (thermal_step (Ev_resume 0) (thermal_step (Ev_update Fair) s)) = [(1, True)]"
  using thermal_releases [of "Ev_update Fair" "[Ev_update Critical, Ev_wait 1]" None 1]
  by (simp add: init_thermal_def new_ThermalController_def thermal_defs)

end
