(* ===== verification/Throughput.thy ===== *)
theory Throughput
  imports UploadTypes
begin

text \<open>
  \<open>services/upload/ThroughputTracker.ts\<close> and \<open>rateFreshness.ts\<close>: the sliding window of
  acknowledged bytes, the rates derived from it, and how long a rate counts as fresh.
  The clock reading of \<open>recordAcknowledgement\<close> is its argument.
\<close>

subsection \<open>ThroughputTracker\<close>

record ThroughputSample =
  acknowledgedAt :: number
  sm_mediaBytes :: number
  sm_encodedBytes :: number

definition BYTES_PER_MB :: number where "BYTES_PER_MB = 1000000"

record ThroughputRates =
  tr_currentMediaMBps :: number
  tr_averageMediaMBps :: number
  tr_peakMediaMBps :: number
  tr_currentEncodedMBps :: number
  tr_uploadedMediaBytes :: number
  tr_acknowledgedEncodedBytes :: number
  tr_sampledAt :: number

record ThroughputTracker =
  tt_samples :: "ThroughputSample list"
  tt_firstActiveSampleIndex :: nat
  tt_activeMediaBytes :: number
  tt_activeEncodedBytes :: number
  tt_uploadedMediaBytes :: number
  tt_acknowledgedEncodedBytes :: number
  tt_peakMediaMBps :: number
  tt_rates :: ThroughputRates
  tt_startedAt :: number
  tt_windowMs :: number

definition new_ThroughputTracker :: "number \<Rightarrow> number option \<Rightarrow> ThroughputTracker" where
  "new_ThroughputTracker startedAt windowMs =
     \<lparr>tt_samples = [], tt_firstActiveSampleIndex = 0, tt_activeMediaBytes = 0,
      tt_activeEncodedBytes = 0, tt_uploadedMediaBytes = 0, tt_acknowledgedEncodedBytes = 0,
      tt_peakMediaMBps = 0,
      tt_rates = \<lparr>tr_currentMediaMBps = 0, tr_averageMediaMBps = 0, tr_peakMediaMBps = 0,
                  tr_currentEncodedMBps = 0, tr_uploadedMediaBytes = 0,
                  tr_acknowledgedEncodedBytes = 0, tr_sampledAt = 0\<rparr>,
      tt_startedAt = startedAt,
      tt_windowMs = (case windowMs of Some w \<Rightarrow> w | None \<Rightarrow> 5000)\<rparr>"

text \<open>The \<open>while\<close> loop of \<open>recordAcknowledgement\<close>: samples at or before the cutoff leave the window.\<close>

function expire :: "number \<Rightarrow> ThroughputTracker \<Rightarrow> ThroughputTracker" where
  "expire cutoff s =
     (let i = tt_firstActiveSampleIndex s in
      if i < length (tt_samples s) \<and> acknowledgedAt (tt_samples s ! i) \<le> cutoff
      then expire cutoff
             (s\<lparr>tt_activeMediaBytes := tt_activeMediaBytes s - sm_mediaBytes (tt_samples s ! i),
                tt_activeEncodedBytes := tt_activeEncodedBytes s - sm_encodedBytes (tt_samples s ! i),
                tt_firstActiveSampleIndex := i + 1\<rparr>)
      else s)"
  by pat_completeness auto
termination
  by (relation "measure (\<lambda>(c, s). length (tt_samples s) - tt_firstActiveSampleIndex s)") auto

declare expire.simps [simp del]

definition compact_samples :: "ThroughputTracker \<Rightarrow> ThroughputTracker" where
  "compact_samples s =
     (if tt_firstActiveSampleIndex s > 1024 \<and>
         real (tt_firstActiveSampleIndex s) > real (length (tt_samples s)) / 2
      then s\<lparr>tt_samples := drop (tt_firstActiveSampleIndex s) (tt_samples s),
             tt_firstActiveSampleIndex := 0\<rparr>
      else s)"

definition elapsedSeconds :: "ThroughputTracker \<Rightarrow> number \<Rightarrow> number" where
  "elapsedSeconds s now = max (1 / 1000) ((now - tt_startedAt s) / 1000)"

definition windowSeconds :: "ThroughputTracker \<Rightarrow> number \<Rightarrow> number" where
  "windowSeconds s now = max (1 / 1000) (min (tt_windowMs s / 1000) (elapsedSeconds s now))"

definition recordAcknowledgement ::
  "number \<Rightarrow> number \<Rightarrow> number \<Rightarrow> ThroughputTracker \<Rightarrow> ThroughputTracker" where
  "recordAcknowledgement mediaBytes encodedBytes now s =
     (let s1 = s\<lparr>tt_uploadedMediaBytes := tt_uploadedMediaBytes s + mediaBytes,
                 tt_acknowledgedEncodedBytes := tt_acknowledgedEncodedBytes s + encodedBytes,
                 tt_activeMediaBytes := tt_activeMediaBytes s + mediaBytes,
                 tt_activeEncodedBytes := tt_activeEncodedBytes s + encodedBytes,
                 tt_samples := tt_samples s @
                   [\<lparr>acknowledgedAt = now, sm_mediaBytes = mediaBytes, sm_encodedBytes = encodedBytes\<rparr>]\<rparr>;
          s2 = compact_samples (expire (now - tt_windowMs s1) s1);
          currentMediaMBps = tt_activeMediaBytes s2 / BYTES_PER_MB / windowSeconds s2 now;
          s3 = s2\<lparr>tt_peakMediaMBps := max (tt_peakMediaMBps s2) currentMediaMBps\<rparr>
      in s3\<lparr>tt_rates :=
              \<lparr>tr_currentMediaMBps = currentMediaMBps,
               tr_averageMediaMBps = tt_uploadedMediaBytes s3 / BYTES_PER_MB / elapsedSeconds s3 now,
               tr_peakMediaMBps = tt_peakMediaMBps s3,
               tr_currentEncodedMBps = tt_activeEncodedBytes s3 / BYTES_PER_MB / windowSeconds s3 now,
               tr_uploadedMediaBytes = tt_uploadedMediaBytes s3,
               tr_acknowledgedEncodedBytes = tt_acknowledgedEncodedBytes s3,
               tr_sampledAt = now\<rparr>\<rparr>)"

text \<open>A history of acknowledgements, oldest first.\<close>

definition acknowledge :: "ThroughputSample \<Rightarrow> ThroughputTracker \<Rightarrow> ThroughputTracker" where
  "acknowledge a = recordAcknowledgement (sm_mediaBytes a) (sm_encodedBytes a) (acknowledgedAt a)"

text \<open>Specification: the bytes acknowledged after a cutoff.\<close>

definition bytes_after :: "(ThroughputSample \<Rightarrow> number) \<Rightarrow> number \<Rightarrow> ThroughputSample list \<Rightarrow> number" where
  "bytes_after f cutoff as = sum_list (map f (filter (\<lambda>a. cutoff < acknowledgedAt a) as))"

subsection \<open>rateFreshness.ts\<close>

definition MAX_NATIVE_PROGRESS_BYTES :: number where "MAX_NATIVE_PROGRESS_BYTES = 8 * 1024 * 1024"

definition rateStaleAfterMs :: "jsnum \<Rightarrow> number" where
  "rateStaleAfterMs currentMediaMBps =
     (if \<not> isFinite currentMediaMBps \<or> num_le currentMediaMBps (Fin 0) then 5000
      else max 5000 (min 30000
             (2 * MAX_NATIVE_PROGRESS_BYTES / (fin_val currentMediaMBps * BYTES_PER_MB) * 1000)))"

definition isRateFresh :: "number \<Rightarrow> jsnum \<Rightarrow> number \<Rightarrow> bool" where
  "isRateFresh sampledAt currentMediaMBps now \<longleftrightarrow>
     sampledAt > 0 \<and> num_lt (Fin 0) currentMediaMBps \<and>
     now \<ge> sampledAt \<and> now - sampledAt \<le> rateStaleAfterMs currentMediaMBps"

subsection \<open>Lemmas\<close>

text \<open>The active part of the samples, and what a tracker knows of its history \<open>as\<close>.\<close>

definition active_samples :: "ThroughputTracker \<Rightarrow> ThroughputSample list" where
  "active_samples s = drop (tt_firstActiveSampleIndex s) (tt_samples s)"

definition tracks :: "ThroughputSample list \<Rightarrow> ThroughputTracker \<Rightarrow> bool" where
  "tracks as s \<longleftrightarrow>
     tt_activeMediaBytes s = sum_list (map sm_mediaBytes (active_samples s)) \<and>
     tt_activeEncodedBytes s = sum_list (map sm_encodedBytes (active_samples s)) \<and>
     tt_firstActiveSampleIndex s \<le> length (tt_samples s) \<and>
     tt_uploadedMediaBytes s = sum_list (map sm_mediaBytes as) \<and>
     tt_acknowledgedEncodedBytes s = sum_list (map sm_encodedBytes as) \<and>
     active_samples s = filter (\<lambda>a. acknowledgedAt (last as) - tt_windowMs s < acknowledgedAt a) as"

lemma expire_fields [simp]:
  "tt_samples (expire c s) = tt_samples s"
  "tt_uploadedMediaBytes (expire c s) = tt_uploadedMediaBytes s"
  "tt_acknowledgedEncodedBytes (expire c s) = tt_acknowledgedEncodedBytes s"
  "tt_peakMediaMBps (expire c s) = tt_peakMediaMBps s"
  "tt_windowMs (expire c s) = tt_windowMs s"
  "tt_startedAt (expire c s) = tt_startedAt s"
  by (induction c s rule: expire.induct; subst expire.simps; auto simp: Let_def)+

lemma expire_active:
  assumes "tt_firstActiveSampleIndex s \<le> length (tt_samples s)"
    and "tt_activeMediaBytes s = sum_list (map sm_mediaBytes (active_samples s))"
    and "tt_activeEncodedBytes s = sum_list (map sm_encodedBytes (active_samples s))"
  shows "active_samples (expire c s) = dropWhile (\<lambda>a. acknowledgedAt a \<le> c) (active_samples s) \<and>
         tt_firstActiveSampleIndex (expire c s) \<le> length (tt_samples s) \<and>
         tt_activeMediaBytes (expire c s) = sum_list (map sm_mediaBytes (active_samples (expire c s))) \<and>
         tt_activeEncodedBytes (expire c s) = sum_list (map sm_encodedBytes (active_samples (expire c s)))"
  using assms
proof (induction c s rule: expire.induct)
  case (1 c s)
  let ?i = "tt_firstActiveSampleIndex s"
  show ?case
  proof (cases "?i < length (tt_samples s)")
    case True
    then have split: "active_samples s = tt_samples s ! ?i # drop (Suc ?i) (tt_samples s)"
      by (simp add: active_samples_def Cons_nth_drop_Suc)
    show ?thesis
    proof (cases "acknowledgedAt (tt_samples s ! ?i) \<le> c")
      case le: True
      with True "1.IH" [OF refl] "1.prems" split show ?thesis
        by (subst (1 2 3 4 5 6) expire.simps) (simp add: Let_def active_samples_def)
    next
      case False
      with "1.prems" split show ?thesis by (subst (1 2 3 4 5 6) expire.simps) simp
    qed
  next
    case False
    with "1.prems" show ?thesis
      by (subst (1 2 3 4 5 6) expire.simps) (simp add: active_samples_def)
  qed
qed

lemma compact_fields [simp]:
  "active_samples (compact_samples s) = active_samples s"
  "tt_activeMediaBytes (compact_samples s) = tt_activeMediaBytes s"
  "tt_activeEncodedBytes (compact_samples s) = tt_activeEncodedBytes s"
  "tt_uploadedMediaBytes (compact_samples s) = tt_uploadedMediaBytes s"
  "tt_acknowledgedEncodedBytes (compact_samples s) = tt_acknowledgedEncodedBytes s"
  "tt_peakMediaMBps (compact_samples s) = tt_peakMediaMBps s"
  "tt_windowMs (compact_samples s) = tt_windowMs s"
  "tt_startedAt (compact_samples s) = tt_startedAt s"
  by (simp_all add: compact_samples_def active_samples_def)

lemma compact_index:
  "tt_firstActiveSampleIndex s \<le> length (tt_samples s) \<Longrightarrow>
    tt_firstActiveSampleIndex (compact_samples s) \<le> length (tt_samples (compact_samples s))"
  by (simp add: compact_samples_def)

lemma dropWhile_sorted:
  "sorted (map f xs) \<Longrightarrow> dropWhile (\<lambda>a. f a \<le> (c :: number)) xs = filter (\<lambda>a. c < f a) xs"
proof (induction xs)
  case (Cons x xs)
  then show ?case
    by (cases "f x \<le> c") (auto simp: not_le intro!: filter_True [symmetric])
qed simp

text \<open>The state after the window was advanced, before the rates are computed.\<close>

definition advanced :: "ThroughputSample \<Rightarrow> ThroughputTracker \<Rightarrow> ThroughputTracker" where
  "advanced a s =
     (let s1 = s\<lparr>tt_uploadedMediaBytes := tt_uploadedMediaBytes s + sm_mediaBytes a,
                 tt_acknowledgedEncodedBytes := tt_acknowledgedEncodedBytes s + sm_encodedBytes a,
                 tt_activeMediaBytes := tt_activeMediaBytes s + sm_mediaBytes a,
                 tt_activeEncodedBytes := tt_activeEncodedBytes s + sm_encodedBytes a,
                 tt_samples := tt_samples s @ [a]\<rparr>
      in compact_samples (expire (acknowledgedAt a - tt_windowMs s) s1))"

lemma advanced_tracks:
  assumes "tracks as s" and "sorted (map acknowledgedAt (as @ [a]))"
  shows "tracks (as @ [a]) (advanced a s)"
proof -
  define s1 where "s1 = s\<lparr>tt_uploadedMediaBytes := tt_uploadedMediaBytes s + sm_mediaBytes a,
      tt_acknowledgedEncodedBytes := tt_acknowledgedEncodedBytes s + sm_encodedBytes a,
      tt_activeMediaBytes := tt_activeMediaBytes s + sm_mediaBytes a,
      tt_activeEncodedBytes := tt_activeEncodedBytes s + sm_encodedBytes a,
      tt_samples := tt_samples s @ [a]\<rparr>"
  let ?c = "acknowledgedAt a - tt_windowMs s"
  let ?old = "\<lambda>b. acknowledgedAt (last as) - tt_windowMs s < acknowledgedAt b"
  have adv: "advanced a s = compact_samples (expire ?c s1)"
    by (simp add: advanced_def s1_def Let_def)
  have act1: "active_samples s1 = filter ?old as @ [a]"
    using assms(1) by (simp add: tracks_def active_samples_def s1_def)
  have pre: "tt_firstActiveSampleIndex s1 \<le> length (tt_samples s1)"
    "tt_activeMediaBytes s1 = sum_list (map sm_mediaBytes (active_samples s1))"
    "tt_activeEncodedBytes s1 = sum_list (map sm_encodedBytes (active_samples s1))"
    using assms(1) by (auto simp: tracks_def active_samples_def s1_def)
  have sorted: "sorted (map acknowledgedAt (filter ?old as @ [a]))"
    using assms(2) sorted_filter [of acknowledgedAt as] by (auto simp: sorted_append)
  have newer: "?c < acknowledgedAt b \<Longrightarrow> ?old b" if "b \<in> set as" for b
  proof -
    have "last as \<in> set as" using that by (cases as) auto
    then have "acknowledgedAt (last as) \<le> acknowledgedAt a"
      using assms(2) by (auto simp: sorted_append)
    then show "?c < acknowledgedAt b \<Longrightarrow> ?old b" by simp
  qed
  have "active_samples (expire ?c s1) = filter (\<lambda>b. ?c < acknowledgedAt b) (filter ?old as @ [a])"
    using expire_active [OF pre] dropWhile_sorted [OF sorted] by (simp add: act1)
  also have "\<dots> = filter (\<lambda>b. ?c < acknowledgedAt b) (as @ [a])"
    using newer by (auto intro: filter_cong)
  finally have act: "active_samples (expire ?c s1) = filter (\<lambda>b. ?c < acknowledgedAt b) (as @ [a])" .
  have "tt_firstActiveSampleIndex (compact_samples (expire ?c s1)) \<le>
      length (tt_samples (compact_samples (expire ?c s1)))"
    using expire_active [OF pre, of ?c] by (intro compact_index) simp
  moreover have "tt_windowMs s1 = tt_windowMs s"
    "tt_uploadedMediaBytes s1 = sum_list (map sm_mediaBytes (as @ [a]))"
    "tt_acknowledgedEncodedBytes s1 = sum_list (map sm_encodedBytes (as @ [a]))"
    using assms(1) by (simp_all add: tracks_def s1_def)
  moreover note conjunct2 [OF expire_active [OF pre, of ?c], unfolded act]
  ultimately show ?thesis using act unfolding tracks_def adv by simp
qed

lemma acknowledge_advanced:
  "acknowledge a s =
     (let s2 = advanced a s; now = acknowledgedAt a;
          cur = tt_activeMediaBytes s2 / BYTES_PER_MB / windowSeconds s2 now;
          s3 = s2\<lparr>tt_peakMediaMBps := max (tt_peakMediaMBps s2) cur\<rparr>
      in s3\<lparr>tt_rates :=
              \<lparr>tr_currentMediaMBps = cur,
               tr_averageMediaMBps = tt_uploadedMediaBytes s3 / BYTES_PER_MB / elapsedSeconds s3 now,
               tr_peakMediaMBps = tt_peakMediaMBps s3,
               tr_currentEncodedMBps = tt_activeEncodedBytes s3 / BYTES_PER_MB / windowSeconds s3 now,
               tr_uploadedMediaBytes = tt_uploadedMediaBytes s3,
               tr_acknowledgedEncodedBytes = tt_acknowledgedEncodedBytes s3,
               tr_sampledAt = now\<rparr>\<rparr>)"
  by (cases a) (simp add: acknowledge_def recordAcknowledgement_def advanced_def Let_def)

lemma advanced_fields [simp]:
  "tt_windowMs (advanced a s) = tt_windowMs s"
  "tt_startedAt (advanced a s) = tt_startedAt s"
  "tt_peakMediaMBps (advanced a s) = tt_peakMediaMBps s"
  by (simp_all add: advanced_def Let_def)

lemma tracks_rates [simp]:
  "tracks as (s\<lparr>tt_peakMediaMBps := p, tt_rates := r\<rparr>) = tracks as s"
  by (simp add: tracks_def active_samples_def)

lemma acknowledge_tracks:
  "tracks as s \<Longrightarrow> sorted (map acknowledgedAt (as @ [a])) \<Longrightarrow> tracks (as @ [a]) (acknowledge a s)"
  using advanced_tracks by (simp add: acknowledge_advanced Let_def)

lemma acknowledge_fields [simp]:
  "tt_windowMs (acknowledge a s) = tt_windowMs s"
  "tt_startedAt (acknowledge a s) = tt_startedAt s"
  "tr_peakMediaMBps (tt_rates (acknowledge a s)) = tt_peakMediaMBps (acknowledge a s)"
  by (simp_all add: acknowledge_advanced Let_def)

lemma window_cong:
  "tt_windowMs s = tt_windowMs t \<Longrightarrow> tt_startedAt s = tt_startedAt t \<Longrightarrow>
    windowSeconds s now = windowSeconds t now \<and> elapsedSeconds s now = elapsedSeconds t now"
  by (simp add: windowSeconds_def elapsedSeconds_def)

lemma history_tracks:
  "sorted (map acknowledgedAt as) \<Longrightarrow> tracks as (fold acknowledge as (new_ThroughputTracker t0 w))"
proof (induction as rule: rev_induct)
  case Nil
  show ?case by (simp add: tracks_def active_samples_def new_ThroughputTracker_def)
next
  case (snoc a as)
  then show ?case by (simp add: acknowledge_tracks sorted_append)
qed

lemma history_peak:
  "tr_peakMediaMBps (tt_rates (fold acknowledge as (new_ThroughputTracker t0 w))) =
   tt_peakMediaMBps (fold acknowledge as (new_ThroughputTracker t0 w))"
  by (induction as rule: rev_induct) (simp_all add: new_ThroughputTracker_def)

lemma history_fields [simp]:
  "tt_windowMs (fold acknowledge as s) = tt_windowMs s"
  "tt_startedAt (fold acknowledge as s) = tt_startedAt s"
  by (induction as arbitrary: s) simp_all

subsection \<open>Properties\<close>



text \<open>
  A rate stays fresh for between 5 and 30 seconds, for longer the slower it is, and
  long enough for two of the largest native acknowledgements at that rate unless that
  exceeds 30 seconds.
\<close>

theorem rate_freshness_bounds:
  "5000 \<le> rateStaleAfterMs r \<and> rateStaleAfterMs r \<le> 30000 \<and>
   (0 < x \<and> x \<le> y \<longrightarrow> rateStaleAfterMs (Fin y) \<le> rateStaleAfterMs (Fin x)) \<and>
   (isRateFresh t r now \<longrightarrow> 0 \<le> now - t \<and> now - t \<le> 30000) \<and>
   (0 < x \<and> 0 < t \<and> 0 \<le> d \<and> d \<le> 30000 \<and> d / 1000 * (x * BYTES_PER_MB) \<le> 2 * MAX_NATIVE_PROGRESS_BYTES
      \<longrightarrow> isRateFresh t (Fin x) (t + d))"
proof (intro conjI impI)
  show low: "5000 \<le> rateStaleAfterMs r" and high: "rateStaleAfterMs r \<le> 30000"
    by (simp_all add: rateStaleAfterMs_def)
  show "isRateFresh t r now \<Longrightarrow> now - t \<le> 30000" "isRateFresh t r now \<Longrightarrow> 0 \<le> now - t"
    using high by (auto simp: isRateFresh_def)
  assume x: "0 < x \<and> x \<le> y"
  then have "2 * MAX_NATIVE_PROGRESS_BYTES / (y * BYTES_PER_MB) \<le> 2 * MAX_NATIVE_PROGRESS_BYTES / (x * BYTES_PER_MB)"
    by (intro divide_left_mono) (auto simp: MAX_NATIVE_PROGRESS_BYTES_def BYTES_PER_MB_def)
  then show "rateStaleAfterMs (Fin y) \<le> rateStaleAfterMs (Fin x)"
    using x by (auto simp: rateStaleAfterMs_def)
next
  assume d: "0 < x \<and> 0 < t \<and> 0 \<le> d \<and> d \<le> 30000 \<and>
    d / 1000 * (x * BYTES_PER_MB) \<le> 2 * MAX_NATIVE_PROGRESS_BYTES"
  then have "0 < x * BYTES_PER_MB" by (simp add: BYTES_PER_MB_def)
  with d have "d / 1000 \<le> 2 * MAX_NATIVE_PROGRESS_BYTES / (x * BYTES_PER_MB)"
    by (simp add: pos_le_divide_eq)
  with d show "isRateFresh t (Fin x) (t + d)"
    by (auto simp: isRateFresh_def rateStaleAfterMs_def)
qed

theorem rate_freshness_bounds_witness:
  "isRateFresh 1 (Fin 1) (1 + 16000) \<and> rateStaleAfterMs (Fin 2) \<le> rateStaleAfterMs (Fin 1)"
  using rate_freshness_bounds [of "Fin 1" 1 2 1 1 16000] by (simp add: BYTES_PER_MB_def MAX_NATIVE_PROGRESS_BYTES_def)

end
