(* ===== verification/ClientMetrics.thy ===== *)
theory ClientMetrics
  imports Throughput
begin

text \<open>
  \<open>services/upload/ClientMetricsReporter.ts\<close>: coalescing of rate samples. The serialized
  \<open>sendChain\<close> is the list of the values whose sends were chained, with the clock reading
  at which each was chained (the final send of \<open>finish\<close> has no reading); a pending timer
  is the time at which it becomes due.
\<close>

record ClientMetricsReporter =
  cm_intervalMs :: number
  cm_lastSentAt :: "number option"
  cm_pendingBytesPerSecond :: "number option"
  cm_timer :: "number option"
  cm_sendChain :: "(number option \<times> number) list"
  cm_stopped :: bool

definition new_ClientMetricsReporter :: "number option \<Rightarrow> ClientMetricsReporter" where
  "new_ClientMetricsReporter intervalMs =
     \<lparr>cm_intervalMs = (case intervalMs of Some i \<Rightarrow> i | None \<Rightarrow> 1000), cm_lastSentAt = None,
      cm_pendingBytesPerSecond = None, cm_timer = None, cm_sendChain = [], cm_stopped = False\<rparr>"

definition reporter_enqueue :: "number option \<Rightarrow> number \<Rightarrow> ClientMetricsReporter \<Rightarrow> ClientMetricsReporter" where
  "reporter_enqueue sentAt bytesPerSecond s = s\<lparr>cm_sendChain := cm_sendChain s @ [(sentAt, bytesPerSecond)]\<rparr>"

definition reporter_flush :: "number \<Rightarrow> ClientMetricsReporter \<Rightarrow> ClientMetricsReporter" where
  "reporter_flush now s =
     (if cm_stopped s then s
      else case cm_pendingBytesPerSecond s of
             None \<Rightarrow> s
           | Some bytesPerSecond \<Rightarrow>
               reporter_enqueue (Some now) bytesPerSecond
                 (s\<lparr>cm_pendingBytesPerSecond := None, cm_lastSentAt := Some now\<rparr>))"

definition recordCurrentMediaRate :: "number \<Rightarrow> number \<Rightarrow> ClientMetricsReporter \<Rightarrow> ClientMetricsReporter" where
  "recordCurrentMediaRate currentMediaMBps now s =
     (if cm_stopped s then s
      else
        (let s1 = s\<lparr>cm_pendingBytesPerSecond := Some (max 0 currentMediaMBps * BYTES_PER_MB)\<rparr>
         in case cm_lastSentAt s1 of
              None \<Rightarrow> reporter_flush now s1
            | Some lastSentAt \<Rightarrow>
                (if now - lastSentAt \<ge> cm_intervalMs s1 then reporter_flush now s1
                 else if cm_timer s1 = None
                 then s1\<lparr>cm_timer := Some (now + (cm_intervalMs s1 - (now - lastSentAt)))\<rparr>
                 else s1)))"

text \<open>The callback of the timer.\<close>

definition reporter_timer :: "number \<Rightarrow> ClientMetricsReporter \<Rightarrow> ClientMetricsReporter" where
  "reporter_timer now s = reporter_flush now (s\<lparr>cm_timer := None\<rparr>)"

definition reporter_finish :: "ClientMetricsReporter \<Rightarrow> ClientMetricsReporter" where
  "reporter_finish s =
     (if cm_stopped s then s
      else reporter_enqueue None 0
             (s\<lparr>cm_stopped := True, cm_timer := None, cm_pendingBytesPerSecond := None\<rparr>))"

subsection \<open>Events\<close>

datatype reporter_event =
    Rate number number
  | Timer_fires number
  | Finish

fun reporter_step :: "reporter_event \<Rightarrow> ClientMetricsReporter \<Rightarrow> ClientMetricsReporter" where
  "reporter_step (Rate r now) s = recordCurrentMediaRate r now s"
| "reporter_step (Timer_fires now) s = (case cm_timer s of None \<Rightarrow> s | Some _ \<Rightarrow> reporter_timer now s)"
| "reporter_step Finish s = reporter_finish s"

text \<open>A timer does not fire before it is due.\<close>

fun timer_not_early :: "reporter_event \<Rightarrow> ClientMetricsReporter \<Rightarrow> bool" where
  "timer_not_early (Timer_fires now) s = (case cm_timer s of None \<Rightarrow> True | Some due \<Rightarrow> due \<le> now)"
| "timer_not_early _ s = True"

text \<open>In addition, a due timer runs before the next rate is recorded.\<close>

fun timer_prompt :: "reporter_event \<Rightarrow> ClientMetricsReporter \<Rightarrow> bool" where
  "timer_prompt (Rate r now) s = (case cm_timer s of None \<Rightarrow> True | Some due \<Rightarrow> now < due)"
| "timer_prompt e s = timer_not_early e s"

text \<open>The times of the rate sends, and that they are at least an interval apart.\<close>

definition rate_times :: "(number option \<times> number) list \<Rightarrow> number list" where
  "rate_times chain = map the (filter (\<lambda>t. t \<noteq> None) (map fst chain))"

definition spaced :: "number \<Rightarrow> number list \<Rightarrow> bool" where
  "spaced d ts \<longleftrightarrow> successively (\<lambda>a b. d \<le> b - a) ts"

definition chain_shape :: "ClientMetricsReporter \<Rightarrow> bool" where
  "chain_shape s \<longleftrightarrow>
     (\<forall>(t, b) \<in> set (cm_sendChain s). 0 \<le> b) \<and>
     (if cm_stopped s
      then cm_timer s = None \<and> cm_pendingBytesPerSecond s = None \<and>
           (\<exists>rest. cm_sendChain s = rest @ [(None, 0)] \<and> None \<notin> fst ` set rest)
      else None \<notin> fst ` set (cm_sendChain s)) \<and>
     (\<forall>b. cm_pendingBytesPerSecond s = Some b \<longrightarrow> 0 \<le> b)"

definition spaced_inv :: "ClientMetricsReporter \<Rightarrow> bool" where
  "spaced_inv s \<longleftrightarrow>
     spaced (cm_intervalMs s) (rate_times (cm_sendChain s)) \<and>
     (cm_lastSentAt s = (if rate_times (cm_sendChain s) = [] then None
                         else Some (last (rate_times (cm_sendChain s))))) \<and>
     (\<forall>due. cm_timer s = Some due \<longrightarrow>
        (\<exists>last. cm_lastSentAt s = Some last \<and> due = last + cm_intervalMs s))"

subsection \<open>Lemmas\<close>

lemmas reporter_defs = reporter_enqueue_def reporter_flush_def recordCurrentMediaRate_def
  reporter_timer_def reporter_finish_def

lemma rate_times_append [simp]:
  "rate_times (xs @ [(Some t, b)]) = rate_times xs @ [t]"
  "rate_times (xs @ [(None, b)]) = rate_times xs"
  "rate_times [] = []"
  by (simp_all add: rate_times_def)

lemma spaced_append:
  "spaced d (ts @ [t]) \<longleftrightarrow> spaced d ts \<and> (ts \<noteq> [] \<longrightarrow> d \<le> t - last ts)"
  by (auto simp: spaced_def successively_append_iff)

lemma chain_shape_step: "chain_shape s \<Longrightarrow> chain_shape (reporter_step e s)"
  by (cases e) (auto simp: chain_shape_def reporter_defs Let_def BYTES_PER_MB_def split: option.splits if_splits)

interpretation reporter: event_machine reporter_step chain_shape
  by unfold_locales (rule chain_shape_step)

lemma flush_spaced:
  "spaced_inv s \<Longrightarrow> cm_timer s = None \<Longrightarrow>
    (\<forall>last. cm_lastSentAt s = Some last \<longrightarrow> last + cm_intervalMs s \<le> now) \<Longrightarrow>
    spaced_inv (reporter_flush now s)"
  by (auto simp: spaced_inv_def reporter_flush_def reporter_enqueue_def spaced_append
      split: option.splits if_splits)

lemma spaced_inv_pending [simp]:
  "spaced_inv (s\<lparr>cm_pendingBytesPerSecond := p\<rparr>) = spaced_inv s"
  by (simp add: spaced_inv_def)

lemma spaced_inv_no_timer: "spaced_inv s \<Longrightarrow> spaced_inv (s\<lparr>cm_timer := None\<rparr>)"
  by (simp add: spaced_inv_def)

lemma timer_due:
  "spaced_inv s \<Longrightarrow> cm_timer s = Some due \<Longrightarrow> \<exists>last. cm_lastSentAt s = Some last \<and> due = last + cm_intervalMs s"
  by (auto simp: spaced_inv_def)

lemma spaced_step: "spaced_inv s \<Longrightarrow> timer_prompt e s \<Longrightarrow> spaced_inv (reporter_step e s)"
proof (cases e)
  case (Rate r now)
  assume inv: "spaced_inv s" and ok: "timer_prompt e s"
  let ?s1 = "s\<lparr>cm_pendingBytesPerSecond := Some (max 0 r * BYTES_PER_MB)\<rparr>"
  show ?thesis
  proof (cases "\<forall>last. cm_lastSentAt s = Some last \<longrightarrow> cm_intervalMs s \<le> now - last")
    case True
    have "cm_timer s = None"
    proof (rule ccontr)
      assume "cm_timer s \<noteq> None"
      then obtain due where due: "cm_timer s = Some due" by blast
      from timer_due [OF inv this] True ok Rate due show False by auto
    qed
    with True inv have "spaced_inv (reporter_flush now ?s1)" by (intro flush_spaced) auto
    with True inv Rate show ?thesis by (simp add: recordCurrentMediaRate_def Let_def split: option.splits)
  next
    case False
    with inv Rate show ?thesis
      by (auto simp: recordCurrentMediaRate_def Let_def spaced_inv_def split: option.splits)
  qed
next
  case (Timer_fires now)
  assume inv: "spaced_inv s" and ok: "timer_prompt e s"
  show ?thesis
  proof (cases "cm_timer s")
    case (Some due)
    with timer_due [OF inv Some] ok Timer_fires spaced_inv_no_timer [OF inv] show ?thesis
      by (auto simp: reporter_timer_def intro!: flush_spaced)
  qed (use inv Timer_fires in simp)
next
  case Finish
  then show "spaced_inv s \<Longrightarrow> ?thesis"
    by (auto simp: spaced_inv_def reporter_finish_def reporter_enqueue_def)
qed

interpretation prompt_reporter: guarded_machine reporter_step spaced_inv timer_prompt
  by unfold_locales (rule spaced_step)

lemma interval_step [simp]: "cm_intervalMs (reporter_step e s) = cm_intervalMs s"
  by (cases e) (auto simp: reporter_defs Let_def split: option.splits)

lemma interval_run [simp]: "cm_intervalMs (fold reporter_step es s) = cm_intervalMs s"
  by (induction es arbitrary: s) simp_all

lemma new_reporter_inv:
  "spaced_inv (new_ClientMetricsReporter i)" "chain_shape (new_ClientMetricsReporter i)"
  by (simp_all add: spaced_inv_def chain_shape_def new_ClientMetricsReporter_def spaced_def)

subsection \<open>Properties\<close>

text \<open>
  When a due timer runs before the next rate is recorded, the reporter keeps its
  promise: rate samples are sent at least \<open>intervalMs\<close> apart, whatever the rates and the
  readings of the clock.
\<close>

theorem reporter_spaced:
  assumes "run_ok timer_prompt reporter_step es (new_ClientMetricsReporter i)"
  shows "spaced (cm_intervalMs (new_ClientMetricsReporter i))
           (rate_times (cm_sendChain (fold reporter_step es (new_ClientMetricsReporter i))))"
  using prompt_reporter.guarded_run [OF new_reporter_inv(1) assms] by (simp add: spaced_inv_def)

theorem reporter_spaced_witness:
  "spaced 1000 (rate_times (cm_sendChain (fold reporter_step
      [Rate 1 5000, Rate 2 5400, Timer_fires 6000] (new_ClientMetricsReporter None))))"
  using reporter_spaced [of "[Rate 1 5000, Rate 2 5400, Timer_fires 6000]" None]
  by (simp add: new_ClientMetricsReporter_def reporter_defs)

text \<open>
  Without that scheduling assumption the promise of the class comment fails: a due
  timer that is overtaken by a newly recorded rate is not cancelled by the flush, and it
  sends the following rate 2 milliseconds after the previous sample.
\<close>

theorem reporter_can_send_twice:
  "\<exists>es. run_ok timer_not_early reporter_step es (new_ClientMetricsReporter (Some 1000)) \<and>
        rate_times (cm_sendChain (fold reporter_step es (new_ClientMetricsReporter (Some 1000)))) =
          [0, 1001, 1003]"
  by (rule exI [of _ "[Rate 1 0, Rate 2 500, Rate 3 1001, Rate 4 1002, Timer_fires 1003]"])
    (simp add: new_ClientMetricsReporter_def reporter_defs rate_times_def)

text \<open>
  \<open>finish\<close> is final: after any events, a finished reporter has sent a last sample of
  0 and only rate samples before it, no timer is pending, and further events send nothing.
\<close>

theorem reporter_finish_final:
  "let s = reporter_finish (fold reporter_step es (new_ClientMetricsReporter i)) in
     (\<exists>rest. cm_sendChain s = rest @ [(None, 0)] \<and> None \<notin> fst ` set rest) \<and>
     cm_timer s = None \<and> fold reporter_step es' s = s"
proof -
  define s where "s = reporter_finish (fold reporter_step es (new_ClientMetricsReporter i))"
  have "chain_shape (fold reporter_step (es @ [Finish]) (new_ClientMetricsReporter i))"
    by (rule reporter.run_inv [OF new_reporter_inv(2)])
  then have inv: "chain_shape s" and "cm_stopped s"
    by (simp_all add: s_def reporter_finish_def reporter_enqueue_def)
  then have "cm_timer s = None" by (simp add: chain_shape_def)
  then have "reporter_step e s = s" for e
    using \<open>cm_stopped s\<close> by (cases e) (simp_all add: recordCurrentMediaRate_def reporter_finish_def)
  then have "fold reporter_step es' s = s" by (induction es') simp_all
  with inv \<open>cm_stopped s\<close> show ?thesis by (simp add: s_def [symmetric] chain_shape_def)
qed

end
