(* ===== verification/Pipeline.thy ===== *)
theory Pipeline
  imports UploadTypes
begin

text \<open>
  \<open>services/upload/preparationPolicy.ts\<close>, the choice between prepare-first and streaming,
  and \<open>transferPipeline.ts\<close>, the scheduling of preparation and upload workers. The
  pipeline only orders calls of its caller's functions, which suspend: it is a step
  relation whose steps are the settlements of the promises it awaits, each followed by
  the code up to the next \<open>await\<close>.
\<close>

subsection \<open>preparationPolicy.ts\<close>

definition MAX_PREPARE_FIRST_ASSETS :: nat where "MAX_PREPARE_FIRST_ASSETS = 250"
definition STREAMING_PREPARATION_WINDOW_SIZE :: nat where "STREAMING_PREPARATION_WINDOW_SIZE = 16"
definition STREAMING_READY_QUEUE_CAPACITY :: nat where "STREAMING_READY_QUEUE_CAPACITY = 2"

record PreparationPolicy =
  pol_requestedMode :: PreparationMode
  pol_effectiveMode :: PreparationMode
  pol_automaticallyStreamsLargeSelection :: bool
  pol_windowSize :: nat
  pol_queueCapacity :: nat

definition resolvePreparationPolicy :: "PreparationMode \<Rightarrow> bool \<Rightarrow> nat \<Rightarrow> PreparationPolicy" where
  "resolvePreparationPolicy requestedMode nativeAvailable selectedAssetCount =
     (let automaticallyStreamsLargeSelection =
            nativeAvailable \<and> requestedMode = Prepare_first \<and>
            selectedAssetCount > MAX_PREPARE_FIRST_ASSETS;
          boundedNativeStreaming =
            nativeAvailable \<and> (requestedMode = Streaming \<or> automaticallyStreamsLargeSelection)
      in \<lparr>pol_requestedMode = requestedMode,
          pol_effectiveMode = (if boundedNativeStreaming then Streaming else requestedMode),
          pol_automaticallyStreamsLargeSelection = automaticallyStreamsLargeSelection,
          pol_windowSize = (if boundedNativeStreaming then STREAMING_PREPARATION_WINDOW_SIZE
                            else MAX_PREPARE_FIRST_ASSETS),
          pol_queueCapacity = (if boundedNativeStreaming then STREAMING_READY_QUEUE_CAPACITY
                               else MAX_PREPARE_FIRST_ASSETS)\<rparr>)"

subsection \<open>transferPipeline.ts\<close>

datatype producing = Producing | Produced bool | Produce_rejected

datatype enqueuing = Not_enqueuing | Enqueuing | Enqueued

datatype pipeline_result = Pending | Resolved bool | Rejected

record pipeline =
  pl_mode :: PreparationMode
  pl_enqueueImmediately :: bool
  pl_producing :: producing
  pl_finishedPreparation :: bool
  pl_closedReadyQueue :: bool
  pl_enqueuing :: enqueuing
  pl_workersStarted :: bool
  pl_workersRunning :: nat
  pl_result :: pipeline_result

text \<open>The synchronous part of \<open>runTransferPipeline\<close>, with \<open>n\<close> workers.\<close>

definition start_pipeline :: "PreparationMode \<Rightarrow> nat \<Rightarrow> pipeline" where
  "start_pipeline mode n =
     \<lparr>pl_mode = mode, pl_enqueueImmediately = (mode = Streaming), pl_producing = Producing,
      pl_finishedPreparation = False, pl_closedReadyQueue = False, pl_enqueuing = Not_enqueuing,
      pl_workersStarted = (mode = Streaming),
      pl_workersRunning = (if mode = Streaming then n else 0),
      pl_result = Pending\<rparr>"

text \<open>\<open>Promise.all\<close>: it resolves when every member has, with the answer of the producer.\<close>

definition settle :: "pipeline \<Rightarrow> pipeline" where
  "settle p =
     (case pl_producing p of
        Produced completed \<Rightarrow>
          (if pl_result p = Pending \<and> pl_workersStarted p \<and> pl_workersRunning p = 0 \<and>
              pl_enqueuing p \<noteq> Enqueuing
           then p\<lparr>pl_result := Resolved (if pl_mode p = Streaming then completed else True)\<rparr>
           else p)
      | _ \<Rightarrow> p)"

definition reject :: "pipeline \<Rightarrow> pipeline" where
  "reject p = (if pl_result p = Pending then p\<lparr>pl_result := Rejected\<rparr> else p)"

text \<open>The continuation of \<open>produce\<close>.\<close>

definition after_produce :: "nat \<Rightarrow> bool \<Rightarrow> pipeline \<Rightarrow> pipeline" where
  "after_produce n completed p =
     (let p1 = p\<lparr>pl_producing := Produced completed\<rparr>
      in if pl_mode p = Streaming
         then settle (p1\<lparr>pl_finishedPreparation := pl_finishedPreparation p1 \<or> completed,
                         pl_closedReadyQueue := True\<rparr>)
         else if \<not> completed then p1\<lparr>pl_result := Resolved False\<rparr>
         else p1\<lparr>pl_finishedPreparation := True, pl_enqueuing := Enqueuing,
                 pl_workersStarted := True, pl_workersRunning := n\<rparr>)"

inductive pipeline_step :: "nat \<Rightarrow> pipeline \<Rightarrow> pipeline \<Rightarrow> bool" for n where
  produce_resolves:
    "pl_producing p = Producing \<Longrightarrow> pipeline_step n p (after_produce n completed p)"
| produce_rejects:
    "pl_producing p = Producing \<Longrightarrow> pipeline_step n p (reject (p\<lparr>pl_producing := Produce_rejected\<rparr>))"
| enqueue_resolves:
    "pl_enqueuing p = Enqueuing \<Longrightarrow> pipeline_step n p (settle (p\<lparr>pl_enqueuing := Enqueued\<rparr>))"
| enqueue_rejects:
    "pl_enqueuing p = Enqueuing \<Longrightarrow> pipeline_step n p (reject (p\<lparr>pl_enqueuing := Enqueued\<rparr>))"
| worker_resolves:
    "0 < pl_workersRunning p \<Longrightarrow>
     pipeline_step n p (settle (p\<lparr>pl_workersRunning := pl_workersRunning p - 1\<rparr>))"
| worker_rejects:
    "0 < pl_workersRunning p \<Longrightarrow>
     pipeline_step n p (reject (p\<lparr>pl_workersRunning := pl_workersRunning p - 1\<rparr>))"

inductive_cases pipeline_stepE: "pipeline_step n p q"

definition pipeline_inv :: "pipeline \<Rightarrow> bool" where
  "pipeline_inv p \<longleftrightarrow>
     (pl_finishedPreparation p \<longleftrightarrow> pl_producing p = Produced True) \<and>
     (pl_enqueueImmediately p \<longleftrightarrow> pl_mode p = Streaming) \<and>
     (case pl_mode p of
        Streaming \<Rightarrow> pl_workersStarted p \<and> pl_enqueuing p = Not_enqueuing \<and>
          (pl_closedReadyQueue p \<longleftrightarrow> (\<exists>c. pl_producing p = Produced c)) \<and>
          (\<forall>c. pl_result p = Resolved c \<longrightarrow> pl_producing p = Produced c \<and> pl_workersRunning p = 0)
      | Prepare_first \<Rightarrow> \<not> pl_closedReadyQueue p \<and>
          (pl_workersStarted p \<longleftrightarrow> pl_finishedPreparation p) \<and>
          (0 < pl_workersRunning p \<longrightarrow> pl_workersStarted p) \<and>
          (pl_enqueuing p \<noteq> Not_enqueuing \<longrightarrow> pl_finishedPreparation p) \<and>
          (\<forall>c. pl_result p = Resolved c \<longrightarrow>
             pl_producing p = Produced c \<and> pl_workersRunning p = 0 \<and> pl_enqueuing p \<noteq> Enqueuing))"

subsection \<open>Lemmas\<close>

lemmas policy_defs = resolvePreparationPolicy_def MAX_PREPARE_FIRST_ASSETS_def
  STREAMING_PREPARATION_WINDOW_SIZE_def STREAMING_READY_QUEUE_CAPACITY_def Let_def

lemma start_pipeline_inv: "pipeline_inv (start_pipeline mode n)"
  by (cases mode) (simp_all add: pipeline_inv_def start_pipeline_def)

lemma settle_inv: "pipeline_inv p \<Longrightarrow> pipeline_inv (settle p)"
  by (cases "pl_producing p"; cases "pl_mode p") (auto simp: settle_def pipeline_inv_def)

lemma reject_inv: "pipeline_inv p \<Longrightarrow> pipeline_inv (reject p)"
  by (cases "pl_mode p") (auto simp: reject_def pipeline_inv_def)

lemma after_produce_inv:
  "pl_producing p = Producing \<Longrightarrow> pipeline_inv p \<Longrightarrow> pipeline_inv (after_produce n completed p)"
proof (cases "pl_mode p")
  case Streaming
  moreover assume "pl_producing p = Producing" and "pipeline_inv p"
  ultimately have "pipeline_inv (settle (p\<lparr>pl_producing := Produced completed,
      pl_finishedPreparation := completed, pl_closedReadyQueue := True\<rparr>))"
    by (intro settle_inv) (auto simp: pipeline_inv_def)
  with Streaming \<open>pl_producing p = Producing\<close> \<open>pipeline_inv p\<close> show ?thesis
    by (simp add: after_produce_def pipeline_inv_def)
next
  case Prepare_first
  moreover assume "pl_producing p = Producing" and "pipeline_inv p"
  ultimately show ?thesis by (cases completed) (auto simp: after_produce_def pipeline_inv_def)
qed

lemma pipeline_step_inv: "pipeline_step n p q \<Longrightarrow> pipeline_inv p \<Longrightarrow> pipeline_inv q"
proof (induction rule: pipeline_step.induct)
  case (produce_resolves p completed)
  then show ?case by (rule after_produce_inv)
next
  case (produce_rejects p)
  then show ?case by (intro reject_inv) (cases "pl_mode p"; auto simp: pipeline_inv_def)
next
  case (enqueue_resolves p)
  then show ?case by (intro settle_inv) (cases "pl_mode p"; auto simp: pipeline_inv_def)
next
  case (enqueue_rejects p)
  then show ?case by (intro reject_inv) (cases "pl_mode p"; auto simp: pipeline_inv_def)
next
  case (worker_resolves p)
  then show ?case by (intro settle_inv) (cases "pl_mode p"; auto simp: pipeline_inv_def)
next
  case (worker_rejects p)
  then show ?case by (intro reject_inv) (cases "pl_mode p"; auto simp: pipeline_inv_def)
qed

interpretation pipeline: transition_inv "pipeline_step n" pipeline_inv for n
  by unfold_locales (rule pipeline_step_inv)

lemma settle_mode [simp]: "pl_mode (settle p) = pl_mode p" "pl_mode (reject p) = pl_mode p"
  by (auto simp: settle_def reject_def split: producing.splits)

lemma pipeline_mode: "(pipeline_step n)\<^sup>*\<^sup>* p q \<Longrightarrow> pl_mode q = pl_mode p"
  by (induction rule: rtranclp_induct) (auto elim!: pipeline_stepE simp: after_produce_def Let_def)

subsection \<open>Properties\<close>

text \<open>
  The policy bounds what preparation retains: without native preparation the requested
  mode is used as it is; with it, prepare-first is only kept for a selection of at most 250
  assets, which then is a single window, and every other selection streams in windows of 16
  assets through a queue of 2.
\<close>

theorem policy_bounds:
  "let p = resolvePreparationPolicy mode native count in
     pol_requestedMode p = mode \<and>
     (if native \<and> (mode = Streaming \<or> 250 < count)
      then pol_effectiveMode p = Streaming \<and> pol_windowSize p = 16 \<and> pol_queueCapacity p = 2
      else pol_effectiveMode p = mode \<and> pol_windowSize p = 250 \<and> pol_queueCapacity p = 250) \<and>
     pol_automaticallyStreamsLargeSelection p = (pol_effectiveMode p \<noteq> mode) \<and>
     0 < pol_queueCapacity p"
  by (cases mode) (auto simp: policy_defs)

text \<open>
  Phase order: in every state that the pipeline can reach, in whatever order its
  promises settle, prepare-first starts no worker and no enqueueing before the whole
  preparation has completed and been announced; streaming closes the ready queue exactly
  when the producer has answered; and a resolved result is the producer's answer, given
  only after all workers and the enqueueing have ended.
\<close>

theorem pipeline_phases:
  assumes "(pipeline_step n)\<^sup>*\<^sup>* (start_pipeline mode n) p"
  shows "(mode = Prepare_first \<and> (pl_workersStarted p \<or> pl_enqueuing p \<noteq> Not_enqueuing) \<longrightarrow>
            pl_producing p = Produced True \<and> pl_finishedPreparation p) \<and>
         (mode = Streaming \<longrightarrow> (pl_closedReadyQueue p \<longleftrightarrow> (\<exists>c. pl_producing p = Produced c))) \<and>
         (pl_finishedPreparation p \<longrightarrow> pl_producing p = Produced True) \<and>
         (\<forall>c. pl_result p = Resolved c \<longrightarrow>
            pl_producing p = Produced c \<and> pl_workersRunning p = 0 \<and> pl_enqueuing p \<noteq> Enqueuing)"
proof -
  have "pipeline_inv p" using assms start_pipeline_inv by (rule pipeline.reach_inv)
  moreover have "pl_mode p = mode" using pipeline_mode [OF assms] by (simp add: start_pipeline_def)
  ultimately show ?thesis by (cases mode) (auto simp: pipeline_inv_def)
qed

theorem pipeline_phases_witness:
  "\<exists>p. pipeline_step 2 (start_pipeline Prepare_first 2) p \<and> pl_workersStarted p \<and>
       pl_producing p = Produced True"
proof (intro exI conjI)
  let ?p = "after_produce 2 True (start_pipeline Prepare_first 2)"
  show step: "pipeline_step 2 (start_pipeline Prepare_first 2) ?p"
    by (rule produce_resolves) (simp add: start_pipeline_def)
  show started: "pl_workersStarted ?p" by (simp add: after_produce_def start_pipeline_def)
  show "pl_producing ?p = Produced True"
    using pipeline_phases [of 2 Prepare_first ?p] step started by blast
qed

end
