(* ===== verification/PrepareAssets.thy ===== *)
theory PrepareAssets
  imports NativeBridge
begin

text \<open>
  \<open>services/upload/prepareAssets.ts\<close>: turning a window of selected assets into prepared
  files and preparation failures, either by the native module or by the Expo fallback.
  Parameters: the answer of the native module, what the media library and the file system
  report, and the readings of \<open>isCancelled\<close> and \<open>Date.now\<close>. The concurrent metadata
  workers of the fallback interleave only at their awaits and each of them finishes an
  asset in one uninterrupted segment: their effect is a fold over the order in which the
  assets are finished. Sizes that arrive from the native module are taken as the finite
  numbers they are for a file (\<open>preparation_size_unchecked\<close> is about the other ones).
\<close>

definition NATIVE_FILENAME_BATCH_SIZE :: nat where "NATIVE_FILENAME_BATCH_SIZE = 250"
definition METADATA_CONCURRENCY :: nat where "METADATA_CONCURRENCY = 8"

record preparation_request =
  rq_assets :: "MediaAsset list"
  rq_sessionRef :: string
  rq_startIndex :: nat
  rq_windowIndex :: nat
  rq_totalSelectedFiles :: nat
  rq_alreadyPreparedFiles :: nat
  rq_alreadyReadyFiles :: nat
  rq_alreadyDiscoveredBytes :: number
  rq_includeAdditionalMediaComponents :: bool

text \<open>\<open>getNativeFileUri\<close>: \<open>info\<close> is the outcome of \<open>getAssetInfoAsync\<close> (\<open>None\<close> when it throws).\<close>

definition getNativeFileUri :: "string option option \<Rightarrow> MediaAsset \<Rightarrow> string" where
  "getNativeFileUri info asset =
     (case info of
        Some (Some localUri) \<Rightarrow> (if localUri \<noteq> [] then localUri else ma_uri asset)
      | _ \<Rightarrow> ma_uri asset)"

definition preparationFailure ::
  "MediaAsset \<Rightarrow> nat \<Rightarrow> nat \<Rightarrow> TransferStage \<Rightarrow> TransferErrorCode \<Rightarrow> string option \<Rightarrow> PreparationFailure" where
  "preparationFailure asset fileRef windowIndex stage code itemId =
     \<lparr>pfl_asset = asset,
      pfl_itemId = (case itemId of Some i \<Rightarrow> i | None \<Rightarrow> ma_id asset @ '':failure:'' @ show_nat fileRef),
      pfl_mediaRole = None, pfl_componentSemantics = None, pfl_originalFilename = None,
      pfl_fileRef = fileRef, pfl_windowIndex = windowIndex, pfl_stage = stage, pfl_code = code\<rparr>"

text \<open>The progress object of a preparation, in which only these fields vary.\<close>

definition preparing_progress :: "preparation_request \<Rightarrow> MediaAsset \<Rightarrow> nat \<Rightarrow> nat \<Rightarrow> number \<Rightarrow> GlobalProgress" where
  "preparing_progress rq asset completed ready discovered =
     \<lparr>gp_bytesSent = 0, gp_totalBytes = 0, gp_acknowledgedMediaBytes = 0, gp_plannedUploadMediaBytes = 0,
      gp_rateSampledAt = 0, gp_currentMediaMBps = 0, gp_averageMediaMBps = 0, gp_peakMediaMBps = 0,
      gp_currentEncodedMBps = 0, gp_currentIndex = rq_alreadyPreparedFiles rq + completed,
      gp_currentAsset = asset, gp_status = Some Pg_preparing, gp_preparationActivity = None,
      gp_preparedFiles = Some (rq_alreadyPreparedFiles rq + completed),
      gp_readyFiles = Some (rq_alreadyReadyFiles rq + ready), gp_preparationComplete = Some False,
      gp_discoveredBytes = Some (rq_alreadyDiscoveredBytes rq + discovered),
      gp_totalFiles = Some (rq_totalSelectedFiles rq), gp_checkedFiles = None,
      gp_duplicateCandidates = None, gp_duplicateCheckStage = None, gp_batchIndex = None,
      gp_totalBatches = None, gp_thermalState = Some Nominal, gp_thermalControl = Some Control_normal,
      gp_preparationMode = None, gp_automaticallyStreamsLargeSelection = None\<rparr>"

subsection \<open>Native preparation\<close>

text \<open>The progress callback of the native module; the counts are whole numbers.\<close>

definition native_progress :: "preparation_request \<Rightarrow> bool \<Rightarrow> int \<Rightarrow> int \<Rightarrow> GlobalProgress option" where
  "native_progress rq cancelled completedAssets nativeTotalAssets =
     (let assets = rq_assets rq
      in if cancelled \<or> nativeTotalAssets \<noteq> int (length assets) then None
         else
           (let clampedCompleted = nat (max 0 (min (int (length assets)) completedAssets))
            in if assets = [] then None
               else Some (preparing_progress rq (assets ! (clampedCompleted - 1)) clampedCompleted 0 0)))"

definition native_requests :: "preparation_request \<Rightarrow> NativePreparationRequest list" where
  "native_requests rq =
     map (\<lambda>(localIndex, asset). \<lparr>npq_fileRef = rq_startIndex rq + localIndex + 1, npq_assetId = ma_id asset\<rparr>)
       (enumerate 0 (rq_assets rq))"

fun native_component_of :: "NativePreparationResult \<Rightarrow> native_component" where
  "native_component_of (Prep_ready c _) = c"
| "native_component_of (Prep_failed c _ _) = c"

definition group_results ::
  "NativePreparationResult list \<Rightarrow> (string, NativePreparationResult list) jsmap \<times> (nat, NativePreparationResult list) jsmap" where
  "group_results results =
     fold (\<lambda>result (byAssetId, byFileRef).
             case nc_assetId (native_component_of result) of
               Some assetId \<Rightarrow>
                 (if assetId \<noteq> [] then (group_push assetId result byAssetId, byFileRef)
                  else (byAssetId, group_push (nc_fileRef (native_component_of result)) result byFileRef))
             | None \<Rightarrow> (byAssetId, group_push (nc_fileRef (native_component_of result)) result byFileRef))
       results ([], [])"

definition asset_results ::
  "(string, NativePreparationResult list) jsmap \<times> (nat, NativePreparationResult list) jsmap
     \<Rightarrow> MediaAsset \<Rightarrow> nat \<Rightarrow> NativePreparationResult list" where
  "asset_results groups asset sourceFileRef =
     (case map_get (fst groups) (ma_id asset) of
        Some rs \<Rightarrow> rs
      | None \<Rightarrow> (case map_get (snd groups) sourceFileRef of Some rs \<Rightarrow> rs | None \<Rightarrow> []))"

record window_acc =
  wx_files :: "PreparedUploadFile list"
  wx_failures :: "PreparationFailure list"
  wx_discoveredBytes :: number
  wx_selectedMediaBytes :: number
  wx_additionalComponentsBytes :: number
  wx_readyInWindow :: nat

definition empty_acc :: window_acc where
  "empty_acc = \<lparr>wx_files = [], wx_failures = [], wx_discoveredBytes = 0, wx_selectedMediaBytes = 0,
                wx_additionalComponentsBytes = 0, wx_readyInWindow = 0\<rparr>"

fun native_result ::
  "preparation_request \<Rightarrow> MediaAsset \<Rightarrow> NativePreparationResult \<Rightarrow> window_acc \<Rightarrow> window_acc" where
  "native_result rq asset (Prep_failed c stage code) a =
     a\<lparr>wx_failures := wx_failures a @
         [(preparationFailure asset (nc_fileRef c) (rq_windowIndex rq) stage code (Some (nc_variantId c)))
            \<lparr>pfl_mediaRole := Some (nc_mediaRole c),
             pfl_componentSemantics := Some (nc_componentSemantics c),
             pfl_originalFilename := Some (nc_originalFilename c)\<rparr>]\<rparr>"
| "native_result rq asset (Prep_ready c r) a =
     (let sizeBytes = fin_val (nr_sizeBytes r);
          a1 = a\<lparr>wx_discoveredBytes := wx_discoveredBytes a + sizeBytes\<rparr>;
          a2 = (if nc_componentSemantics c = Optional
                then a1\<lparr>wx_additionalComponentsBytes := wx_additionalComponentsBytes a1 + sizeBytes\<rparr>
                else a1\<lparr>wx_selectedMediaBytes := wx_selectedMediaBytes a1 + sizeBytes\<rparr>)
      in a2\<lparr>wx_readyInWindow := wx_readyInWindow a2 + 1,
            wx_files := wx_files a2 @
              [\<lparr>puf_asset = asset,
                puf_variantId = (if nc_variantId c \<noteq> [] then nc_variantId c
                                 else rq_sessionRef rq @ ''-'' @ show_nat (nc_fileRef c)),
                puf_mediaRole = nc_mediaRole c,
                puf_componentSemantics = nc_componentSemantics c,
                puf_originalFilename = (if nc_originalFilename c \<noteq> [] then nc_originalFilename c
                                        else nr_transferFilename r),
                puf_fileRef = nc_fileRef c,
                puf_windowIndex = rq_windowIndex rq,
                puf_nativeUri = nr_localUri r,
                puf_size = sizeBytes,
                puf_computedHash = [],
                puf_transferFilename = nr_transferFilename r,
                puf_filenameSource = Apple_resource,
                puf_temporary = nr_temporary r,
                puf_contentType = nr_contentType r,
                puf_materializationPath = Some (nr_materializationPath r),
                puf_materializationDurationMs = Some (nr_materializationDurationMs r),
                puf_temporaryBytesWritten = Some (nr_temporaryBytesWritten r),
                puf_preflightAction = None, puf_duplicateMatchedFilename = None,
                puf_duplicateSource = None, puf_preflightFailureCode = None\<rparr>]\<rparr>)"

definition native_asset ::
  "preparation_request \<Rightarrow> (string, NativePreparationResult list) jsmap \<times> (nat, NativePreparationResult list) jsmap
     \<Rightarrow> nat \<times> MediaAsset \<Rightarrow> window_acc \<Rightarrow> window_acc" where
  "native_asset rq groups ia a =
     (let asset = snd ia;
          sourceFileRef = rq_startIndex rq + fst ia + 1;
          assetResults = asset_results groups asset sourceFileRef;
          a1 = (if assetResults = []
                then a\<lparr>wx_failures := wx_failures a @
                         [preparationFailure asset sourceFileRef (rq_windowIndex rq) Stage_rendition
                            Asset_info_unavailable None]\<rparr>
                else a)
      in fold (native_result rq asset) assetResults a1)"

definition native_window ::
  "(nat \<Rightarrow> number) \<Rightarrow> preparation_request \<Rightarrow> NativePreparationResult list \<Rightarrow> PreparedWindow \<times> GlobalProgress list" where
  "native_window now rq results =
     (let a = fold (native_asset rq (group_results results)) (enumerate 0 (rq_assets rq)) empty_acc;
          files = wx_files a; failures = wx_failures a
      in (\<lparr>pw_windowIndex = rq_windowIndex rq, pw_files = files, pw_failures = failures,
           pw_preparationDurationMs = now 1 - now 0,
           pw_filenameResolutionDurationMs = now 2 - now 0,
           pw_filenameResolutionAppleCount = length files,
           pw_discoveredBytes = wx_discoveredBytes a,
           pw_selectedMediaBytes = wx_selectedMediaBytes a,
           pw_additionalComponentsBytes = wx_additionalComponentsBytes a,
           pw_selectedMediaFiles =
             length (filter (\<lambda>f. puf_componentSemantics f = Primary) files) +
             length (filter (\<lambda>f. pfl_componentSemantics f \<noteq> Some Optional) failures),
           pw_additionalComponentsFiles =
             length (filter (\<lambda>f. puf_componentSemantics f = Optional) files) +
             length (filter (\<lambda>f. pfl_componentSemantics f = Some Optional) failures)\<rparr>,
          if rq_assets rq = [] then []
          else [preparing_progress rq (last (rq_assets rq)) (length (rq_assets rq))
                  (wx_readyInWindow a) (wx_discoveredBytes a)]))"

subsection \<open>Expo fallback\<close>

record file_info =
  fi_exists :: bool
  fi_isDirectory :: bool
  fi_size :: number

record fallback_acc =
  fb_candidates :: "PreparedUploadFile option list"
  fb_failures :: "PreparationFailure list"
  fb_completed :: nat
  fb_discoveredBytes :: number
  fb_ready :: nat
  fb_progress :: "GlobalProgress list"

definition fallback_file :: "preparation_request \<Rightarrow> MediaAsset \<Rightarrow> nat \<Rightarrow> string \<Rightarrow> number \<Rightarrow> PreparedUploadFile" where
  "fallback_file rq asset fileRef nativeUri bytes =
     \<lparr>puf_asset = asset, puf_variantId = rq_sessionRef rq @ ''-'' @ show_nat fileRef,
      puf_mediaRole = Expo_fallback, puf_componentSemantics = Primary,
      puf_originalFilename = ma_filename asset, puf_fileRef = fileRef,
      puf_windowIndex = rq_windowIndex rq, puf_nativeUri = nativeUri, puf_size = bytes,
      puf_computedHash = [], puf_transferFilename = ma_filename asset,
      puf_filenameSource = Expo_fallback_name, puf_temporary = False, puf_contentType = None,
      puf_materializationPath = Some Expo_direct, puf_materializationDurationMs = Some 0,
      puf_temporaryBytesWritten = Some 0, puf_preflightAction = None,
      puf_duplicateMatchedFilename = None, puf_duplicateSource = None, puf_preflightFailureCode = None\<rparr>"

text \<open>
  One asset of \<open>metadataWorker\<close>: \<open>libraryInfo\<close> and \<open>fileInfo\<close> are what the media library
  and the file system answer (\<open>None\<close> when they throw).
\<close>

definition metadata_asset ::
  "(string \<Rightarrow> string option option) \<Rightarrow> (string \<Rightarrow> file_info option) \<Rightarrow> preparation_request
     \<Rightarrow> nat \<Rightarrow> fallback_acc \<Rightarrow> fallback_acc" where
  "metadata_asset libraryInfo fileInfo rq localIndex a =
     (let asset = rq_assets rq ! localIndex;
          fileRef = rq_startIndex rq + localIndex + 1;
          nativeUri = getNativeFileUri (libraryInfo (ma_id asset)) asset;
          fail = (\<lambda>code. a\<lparr>fb_failures := fb_failures a @
                    [preparationFailure asset fileRef (rq_windowIndex rq) Stage_metadata code None]\<rparr>);
          a1 = (case fileInfo nativeUri of
                  None \<Rightarrow> fail File_size_unavailable
                | Some info \<Rightarrow>
                    (if \<not> fi_exists info \<or> fi_isDirectory info then fail File_missing
                     else if fi_size info \<le> 0 then fail File_empty
                     else a\<lparr>fb_discoveredBytes := fb_discoveredBytes a + fi_size info,
                            fb_candidates := (fb_candidates a)
                              [localIndex := Some (fallback_file rq asset fileRef nativeUri (fi_size info))],
                            fb_ready := fb_ready a + 1\<rparr>));
          a2 = a1\<lparr>fb_completed := fb_completed a1 + 1\<rparr>
      in a2\<lparr>fb_progress := fb_progress a2 @
              [preparing_progress rq asset (fb_completed a2) (fb_ready a2) (fb_discoveredBytes a2)]\<rparr>)"

definition start_fallback :: "preparation_request \<Rightarrow> fallback_acc" where
  "start_fallback rq =
     \<lparr>fb_candidates = replicate (length (rq_assets rq)) None, fb_failures = [], fb_completed = 0,
      fb_discoveredBytes = 0, fb_ready = 0, fb_progress = []\<rparr>"

fun resolution_assetId :: "NativeFilenameResolution \<Rightarrow> string" where
  "resolution_assetId (Filename_resolved i _ _) = i"
| "resolution_assetId (Filename_failed i _) = i"

text \<open>The body of the loop over \<open>files\<close>, from the last to the first.\<close>

definition resolve_file ::
  "preparation_request \<Rightarrow> (string, NativeFilenameResolution) jsmap \<Rightarrow> PreparedUploadFile
     \<Rightarrow> PreparedUploadFile list \<times> PreparationFailure list \<times> nat
     \<Rightarrow> PreparedUploadFile list \<times> PreparationFailure list \<times> nat" where
  "resolve_file rq byAssetId file acc =
     (case acc of (kept, failures, appleCount) \<Rightarrow>
        (let failed = (\<lambda>code. (kept, failures @
               [preparationFailure (puf_asset file) (puf_fileRef file) (rq_windowIndex rq) Stage_filename code None],
               appleCount))
         in case map_get byAssetId (ma_id (puf_asset file)) of
              None \<Rightarrow> failed Filename_resolution_failed
            | Some (Filename_failed _ code) \<Rightarrow> failed code
            | Some (Filename_resolved _ filename source) \<Rightarrow>
                (if filename = [] then failed Filename_resolution_failed
                 else (file\<lparr>puf_transferFilename := filename, puf_filenameSource := source\<rparr> # kept,
                       failures,
                       if source = Apple_resource then appleCount + 1 else appleCount))))"

definition resolve_files ::
  "preparation_request \<Rightarrow> string + NativeFilenameResolution list \<Rightarrow> PreparedUploadFile list
     \<Rightarrow> PreparationFailure list \<Rightarrow> PreparedUploadFile list \<times> PreparationFailure list \<times> nat" where
  "resolve_files rq resolutions files failures =
     (case resolutions of
        Inr rs \<Rightarrow>
          fold (resolve_file rq (map_from (map (\<lambda>r. (resolution_assetId r, r)) rs))) (rev files) ([], failures, 0)
      | Inl _ \<Rightarrow>
          ([], failures @ map (\<lambda>file. preparationFailure (puf_asset file) (puf_fileRef file)
                 (rq_windowIndex rq) Stage_filename Filename_resolution_failed None) files, 0))"

definition filename_requests :: "PreparedUploadFile list \<Rightarrow> NativeFilenameResolutionRequest list" where
  "filename_requests files =
     map (\<lambda>file. \<lparr>nfq_assetId = ma_id (puf_asset file), nfq_uri = puf_nativeUri file,
                  nfq_fallbackFilename = ma_filename (puf_asset file)\<rparr>) files"

text \<open>
  After the workers, which finished the assets in the order \<open>order\<close>. \<open>cancelled1\<close> and
  \<open>cancelled2\<close> are the readings of \<open>isCancelled\<close> after the workers and after the resolution.
\<close>

definition fallback_window ::
  "(nat \<Rightarrow> number) \<Rightarrow> bool \<Rightarrow> (string \<Rightarrow> string option option) \<Rightarrow> (string \<Rightarrow> file_info option)
     \<Rightarrow> (NativeFilenameResolutionRequest list \<Rightarrow> string + NativeFilenameResolution list)
     \<Rightarrow> bool \<Rightarrow> bool \<Rightarrow> nat list \<Rightarrow> preparation_request \<Rightarrow> PreparedWindow option" where
  "fallback_window now nativeAvailable libraryInfo fileInfo resolve cancelled1 cancelled2 order rq =
     (let a = fold (metadata_asset libraryInfo fileInfo rq) order (start_fallback rq);
          candidates = List.map_filter (\<lambda>c. c) (fb_candidates a);
          asks = (candidates \<noteq> [] \<and> nativeAvailable);
          (files, failures, appleCount) =
            (if asks then resolve_files rq (resolve (filename_requests candidates)) candidates (fb_failures a)
             else (candidates, fb_failures a, 0))
      in if cancelled1 \<or> (asks \<and> cancelled2 \<and> \<not> isl (resolve (filename_requests candidates))) then None
         else Some
           \<lparr>pw_windowIndex = rq_windowIndex rq, pw_files = files, pw_failures = failures,
            pw_preparationDurationMs = now 2 - now 0,
            pw_filenameResolutionDurationMs = (if nativeAvailable then now 3 - now 1 else 0),
            pw_filenameResolutionAppleCount = appleCount,
            pw_discoveredBytes = fb_discoveredBytes a,
            pw_selectedMediaBytes = fb_discoveredBytes a,
            pw_additionalComponentsBytes = 0,
            pw_selectedMediaFiles = length files + length failures,
            pw_additionalComponentsFiles = 0\<rparr>)"

subsection \<open>prepareAssetWindow\<close>

text \<open>
  The environment of one window: which parts of the native module exist, its answer, and
  the parameters of the fallback.
\<close>

record preparation_env =
  pe_now :: "nat \<Rightarrow> number"
  pe_available :: bool
  pe_prepares :: bool
  pe_native :: "NativePreparationRequest list \<Rightarrow> string + NativePreparationResult list"
  pe_libraryInfo :: "string \<Rightarrow> string option option"
  pe_fileInfo :: "string \<Rightarrow> file_info option"
  pe_resolve :: "NativeFilenameResolutionRequest list \<Rightarrow> string + NativeFilenameResolution list"
  pe_cancelled1 :: bool
  pe_cancelled2 :: bool
  pe_order :: "nat list"

text \<open>\<open>Inl\<close> when the promise rejects, \<open>Inr None\<close> when it resolves to \<open>null\<close>.\<close>

definition prepareAssetWindow :: "preparation_env \<Rightarrow> preparation_request \<Rightarrow> string + PreparedWindow option" where
  "prepareAssetWindow env rq =
     (if length (rq_assets rq) > NATIVE_FILENAME_BATCH_SIZE
      then Inl (''Preparation window exceeds '' @ show_nat NATIVE_FILENAME_BATCH_SIZE @ '' assets'')
      else if pe_available env \<and> pe_prepares env
      then (case pe_native env (native_requests rq) of
              Inl e \<Rightarrow> Inl e
            | Inr results \<Rightarrow>
                Inr (if pe_cancelled1 env then None
                     else Some (fst (native_window (pe_now env) rq results))))
      else Inr (fallback_window (pe_now env) (pe_available env) (pe_libraryInfo env) (pe_fileInfo env)
                  (pe_resolve env) (pe_cancelled1 env) (pe_cancelled2 env) (pe_order env) rq))"

subsection \<open>prepareAssetsForUpload\<close>

definition window_request :: "string \<Rightarrow> bool \<Rightarrow> nat \<Rightarrow> PreparationResult \<Rightarrow> nat \<times> MediaAsset list \<Rightarrow> preparation_request" where
  "window_request sessionRef incl selectedCount r iw =
     \<lparr>rq_assets = snd iw, rq_sessionRef = sessionRef,
      rq_startIndex = fst iw * NATIVE_FILENAME_BATCH_SIZE,
      rq_windowIndex = prs_filenameResolutionBatchCount r, rq_totalSelectedFiles = selectedCount,
      rq_alreadyPreparedFiles = fst iw * NATIVE_FILENAME_BATCH_SIZE,
      rq_alreadyReadyFiles = length (prs_fileInfos r),
      rq_alreadyDiscoveredBytes = prs_totalBytesToUpload r,
      rq_includeAdditionalMediaComponents = incl\<rparr>"

definition add_window :: "nat \<Rightarrow> PreparedWindow \<Rightarrow> PreparationResult \<Rightarrow> PreparationResult" where
  "add_window windowAssets w r =
     r\<lparr>prs_filenameResolutionBatchCount := prs_filenameResolutionBatchCount r + 1,
       prs_filenameResolutionMaxBatchSize := max (prs_filenameResolutionMaxBatchSize r) windowAssets,
       prs_filenameResolutionDurationMs :=
         prs_filenameResolutionDurationMs r + pw_filenameResolutionDurationMs w,
       prs_filenameResolutionAppleCount :=
         prs_filenameResolutionAppleCount r + pw_filenameResolutionAppleCount w,
       prs_totalBytesToUpload := prs_totalBytesToUpload r + pw_discoveredBytes w,
       prs_selectedMediaBytes := prs_selectedMediaBytes r + pw_selectedMediaBytes w,
       prs_additionalComponentsBytes := prs_additionalComponentsBytes r + pw_additionalComponentsBytes w,
       prs_selectedMediaFiles := prs_selectedMediaFiles r + pw_selectedMediaFiles w,
       prs_additionalComponentsFiles := prs_additionalComponentsFiles r + pw_additionalComponentsFiles w,
       prs_fileInfos := prs_fileInfos r @ pw_files w\<rparr>"

fun prepare_windows ::
  "(nat \<Rightarrow> preparation_env) \<Rightarrow> string \<Rightarrow> bool \<Rightarrow> nat \<Rightarrow> (nat \<times> MediaAsset list) list \<Rightarrow> PreparationResult
     \<Rightarrow> string + PreparationResult option" where
  "prepare_windows env sessionRef incl n [] r = Inr (Some r)"
| "prepare_windows env sessionRef incl n (iw # iws) r =
     (case prepareAssetWindow (env (fst iw)) (window_request sessionRef incl n r iw) of
        Inl e \<Rightarrow> Inl e
      | Inr None \<Rightarrow> Inr None
      | Inr (Some w) \<Rightarrow> prepare_windows env sessionRef incl n iws (add_window (length (snd iw)) w r))"

definition empty_preparation :: PreparationResult where
  "empty_preparation =
     \<lparr>prs_fileInfos = [], prs_preparationDurationMs = 0, prs_filenameResolutionDurationMs = 0,
      prs_filenameResolutionBatchCount = 0, prs_filenameResolutionAppleCount = 0,
      prs_filenameResolutionFallbackCount = 0, prs_filenameResolutionMaxBatchSize = 0,
      prs_totalBytesToUpload = 0, prs_selectedMediaBytes = 0, prs_additionalComponentsBytes = 0,
      prs_selectedMediaFiles = 0, prs_additionalComponentsFiles = 0\<rparr>"

definition prepareAssetsForUpload ::
  "(nat \<Rightarrow> preparation_env) \<Rightarrow> number \<Rightarrow> number \<Rightarrow> string \<Rightarrow> bool \<Rightarrow> MediaAsset list
     \<Rightarrow> string + PreparationResult option" where
  "prepareAssetsForUpload env startedAt endedAt sessionRef incl assets =
     (case prepare_windows env sessionRef incl (length assets)
             (enumerate 0 (chunks NATIVE_FILENAME_BATCH_SIZE assets)) empty_preparation of
        Inl e \<Rightarrow> Inl e
      | Inr None \<Rightarrow> Inr None
      | Inr (Some r) \<Rightarrow>
          Inr (Some (r\<lparr>prs_preparationDurationMs := endedAt - startedAt,
                       prs_filenameResolutionFallbackCount :=
                         int (length (prs_fileInfos r)) - int (prs_filenameResolutionAppleCount r)\<rparr>)))"

subsection \<open>Lemmas: native windows\<close>

definition acc_assets :: "PreparedUploadFile list \<Rightarrow> PreparationFailure list \<Rightarrow> MediaAsset set" where
  "acc_assets files failures = puf_asset ` set files \<union> pfl_asset ` set failures"

definition acc_balanced :: "window_acc \<Rightarrow> bool" where
  "acc_balanced a \<longleftrightarrow>
     wx_discoveredBytes a = wx_selectedMediaBytes a + wx_additionalComponentsBytes a \<and>
     wx_discoveredBytes a = sum_list (map puf_size (wx_files a)) \<and>
     wx_readyInWindow a = length (wx_files a)"

lemma native_result_step:
  "acc_assets (wx_files (native_result rq asset r a)) (wx_failures (native_result rq asset r a)) =
     insert asset (acc_assets (wx_files a) (wx_failures a))"
  "acc_balanced a \<Longrightarrow> acc_balanced (native_result rq asset r a)"
  by (cases r; auto simp: acc_assets_def acc_balanced_def preparationFailure_def Let_def)+

lemma native_results_step:
  "rs \<noteq> [] \<Longrightarrow>
     acc_assets (wx_files (fold (native_result rq asset) rs a)) (wx_failures (fold (native_result rq asset) rs a)) =
     insert asset (acc_assets (wx_files a) (wx_failures a))"
  "acc_balanced a \<Longrightarrow> acc_balanced (fold (native_result rq asset) rs a)"
proof (induction rs arbitrary: a)
  case (Cons r rs)
  { case 1 then show ?case using Cons.IH(1) by (cases "rs = []") (simp_all add: native_result_step) }
  { case 2 then show ?case using Cons.IH(2) by (simp add: native_result_step) }
qed simp_all

lemma native_asset_step:
  "acc_assets (wx_files (native_asset rq groups ia a)) (wx_failures (native_asset rq groups ia a)) =
     insert (snd ia) (acc_assets (wx_files a) (wx_failures a))"
  "acc_balanced a \<Longrightarrow> acc_balanced (native_asset rq groups ia a)"
proof -
  show "acc_assets (wx_files (native_asset rq groups ia a)) (wx_failures (native_asset rq groups ia a)) =
     insert (snd ia) (acc_assets (wx_files a) (wx_failures a))"
    by (cases "asset_results groups (snd ia) (rq_startIndex rq + fst ia + 1) = []")
      (auto simp: native_asset_def Let_def native_results_step acc_assets_def preparationFailure_def
        native_results_step(1) [unfolded acc_assets_def])
  assume bal: "acc_balanced a"
  have "acc_balanced (a\<lparr>wx_failures := fs\<rparr>)" for fs using bal by (simp add: acc_balanced_def)
  then show "acc_balanced (native_asset rq groups ia a)"
    using bal unfolding native_asset_def Let_def by (intro native_results_step(2)) simp
qed

lemma native_assets_step:
  "acc_assets (wx_files (fold (native_asset rq groups) ias a)) (wx_failures (fold (native_asset rq groups) ias a)) =
     snd ` set ias \<union> acc_assets (wx_files a) (wx_failures a)"
  "acc_balanced a \<Longrightarrow> acc_balanced (fold (native_asset rq groups) ias a)"
  by (induction ias arbitrary: a) (auto simp: native_asset_step)

lemma enumerate_snd: "snd ` set (enumerate n xs) = set xs"
  by (metis map_snd_enumerate set_map)

lemma count_two:
  "length (filter P xs) + length (filter (\<lambda>x. \<not> P x) xs) = length xs"
  by (rule sum_length_filter_compl)

lemma semantics_neq [simp]: "s \<noteq> Primary \<longleftrightarrow> s = Optional" "s \<noteq> Optional \<longleftrightarrow> s = Primary"
  by (cases s; simp)+

lemma native_window_accounts:
  assumes "w = fst (native_window now rq results)"
  shows "acc_assets (pw_files w) (pw_failures w) = set (rq_assets rq) \<and>
    pw_discoveredBytes w = pw_selectedMediaBytes w + pw_additionalComponentsBytes w \<and>
    pw_discoveredBytes w = sum_list (map puf_size (pw_files w)) \<and>
    pw_selectedMediaFiles w + pw_additionalComponentsFiles w = length (pw_files w) + length (pw_failures w)"
proof -
  define a where "a = fold (native_asset rq (group_results results)) (enumerate 0 (rq_assets rq)) empty_acc"
  have "acc_balanced a"
    unfolding a_def by (rule native_assets_step(2)) (simp add: acc_balanced_def empty_acc_def)
  moreover have "acc_assets (wx_files a) (wx_failures a) = set (rq_assets rq)"
    unfolding a_def native_assets_step enumerate_snd by (simp add: acc_assets_def empty_acc_def)
  moreover have "length (filter (\<lambda>f. puf_componentSemantics f = Primary) (wx_files a)) +
      length (filter (\<lambda>f. puf_componentSemantics f = Optional) (wx_files a)) = length (wx_files a)"
    using count_two [of "\<lambda>f. puf_componentSemantics f = Primary" "wx_files a"] by simp
  moreover have "length (filter (\<lambda>f. pfl_componentSemantics f \<noteq> Some Optional) (wx_failures a)) +
      length (filter (\<lambda>f. pfl_componentSemantics f = Some Optional) (wx_failures a)) = length (wx_failures a)"
    using count_two [of "\<lambda>f. pfl_componentSemantics f \<noteq> Some Optional" "wx_failures a"] by simp
  ultimately show ?thesis
    by (simp add: assms native_window_def a_def [symmetric] acc_balanced_def Let_def)
qed

subsection \<open>Lemmas: the fallback\<close>

text \<open>After the assets \<open>done\<close> were finished.\<close>

definition fallback_inv :: "preparation_request \<Rightarrow> nat list \<Rightarrow> fallback_acc \<Rightarrow> bool" where
  "fallback_inv rq done a \<longleftrightarrow>
     length (fb_candidates a) = length (rq_assets rq) \<and>
     (\<forall>i f. i < length (rq_assets rq) \<and> fb_candidates a ! i = Some f \<longrightarrow>
        i \<in> set done \<and> puf_asset f = rq_assets rq ! i \<and>
        puf_variantId f = rq_sessionRef rq @ ''-'' @ show_nat (rq_startIndex rq + i + 1)) \<and>
     (\<forall>i \<in> set done. fb_candidates a ! i \<noteq> None \<or> rq_assets rq ! i \<in> pfl_asset ` set (fb_failures a)) \<and>
     length (List.map_filter (\<lambda>c. c) (fb_candidates a)) + length (fb_failures a) = length done"

lemma map_filter_update:
  "i < length xs \<Longrightarrow> xs ! i = None \<Longrightarrow>
    length (List.map_filter (\<lambda>c. c) (xs[i := Some v])) = Suc (length (List.map_filter (\<lambda>c. c) xs))"
  by (induction xs arbitrary: i) (auto simp: List.map_filter_def nth_Cons split: nat.splits option.splits)

lemma metadata_asset_inv:
  assumes "fallback_inv rq done a" and "i < length (rq_assets rq)" and "i \<notin> set done"
  shows "fallback_inv rq (done @ [i]) (metadata_asset libraryInfo fileInfo rq i a)"
proof -
  have none: "fb_candidates a ! i = None"
    using assms unfolding fallback_inv_def by (cases "fb_candidates a ! i") auto
  then show ?thesis
    using assms
    by (auto simp: fallback_inv_def metadata_asset_def Let_def preparationFailure_def fallback_file_def
        nth_list_update map_filter_update split: option.splits if_splits)
qed

lemma metadata_assets_inv:
  "fallback_inv rq done a \<Longrightarrow> distinct (done @ order) \<Longrightarrow> set order \<subseteq> {..<length (rq_assets rq)} \<Longrightarrow>
    fallback_inv rq (done @ order) (fold (metadata_asset libraryInfo fileInfo rq) order a)"
proof (induction order arbitrary: "done" a)
  case (Cons i order)
  have "fallback_inv rq (done @ [i]) (metadata_asset libraryInfo fileInfo rq i a)"
    using Cons.prems by (intro metadata_asset_inv) auto
  from Cons.IH [OF this] Cons.prems show ?case by simp
qed simp

lemma start_fallback_inv: "fallback_inv rq [] (start_fallback rq)"
  by (simp add: fallback_inv_def start_fallback_def List.map_filter_def)

text \<open>Resolving file names keeps every file as a file or as a failure of the same asset.\<close>

definition resolution_step ::
  "PreparedUploadFile list \<Rightarrow> PreparedUploadFile list \<times> PreparationFailure list \<times> nat
     \<Rightarrow> PreparedUploadFile list \<times> PreparationFailure list \<times> nat \<Rightarrow> bool" where
  "resolution_step files acc acc' \<longleftrightarrow>
     acc_assets (fst acc') (fst (snd acc')) = puf_asset ` set files \<union> acc_assets (fst acc) (fst (snd acc)) \<and>
     length (fst acc') + length (fst (snd acc')) = length files + (length (fst acc) + length (fst (snd acc))) \<and>
     (distinct (map puf_variantId (rev files @ fst acc)) \<longrightarrow> distinct (map puf_variantId (fst acc'))) \<and>
     puf_variantId ` set (fst acc') \<subseteq> puf_variantId ` (set files \<union> set (fst acc))"

lemma resolve_file_step: "resolution_step [file] acc (resolve_file rq m file acc)"
  by (cases acc)
    (auto simp: resolve_file_def resolution_step_def acc_assets_def preparationFailure_def Let_def
      split: option.splits NativeFilenameResolution.splits)

lemma resolution_step_trans:
  assumes "resolution_step [file] acc acc'" and "resolution_step files acc' acc''"
  shows "resolution_step (file # files) acc acc''"
proof -
  have "distinct (map puf_variantId (rev files @ fst acc'))"
    if d: "distinct (map puf_variantId (rev (file # files) @ fst acc))"
  proof -
    have "distinct (map puf_variantId (fst acc'))"
      and sub: "puf_variantId ` set (fst acc') \<subseteq> insert (puf_variantId file) (puf_variantId ` set (fst acc))"
      using assms(1) d by (auto simp: resolution_step_def)
    moreover have "puf_variantId ` set files \<inter> insert (puf_variantId file) (puf_variantId ` set (fst acc)) = {}"
      using d by auto
    ultimately have "puf_variantId ` set files \<inter> puf_variantId ` set (fst acc') = {}" by blast
    with \<open>distinct (map puf_variantId (fst acc'))\<close> d show ?thesis by simp
  qed
  with assms(2) have dist: "distinct (map puf_variantId (rev (file # files) @ fst acc)) \<longrightarrow>
      distinct (map puf_variantId (fst acc''))" by (simp add: resolution_step_def)
  have ids: "puf_variantId ` set (fst acc'') \<subseteq> puf_variantId ` (set (file # files) \<union> set (fst acc))"
    using assms unfolding resolution_step_def by (simp add: image_Un) blast
  show ?thesis
    using assms dist ids unfolding resolution_step_def by simp
qed

lemma resolve_fold_step: "resolution_step files acc (fold (resolve_file rq m) files acc)"
proof (induction files arbitrary: acc)
  case Nil
  then show ?case by (simp add: resolution_step_def)
next
  case (Cons f files)
  from resolution_step_trans [OF resolve_file_step Cons.IH] show ?case by simp
qed

lemma resolve_files_accounts:
  assumes "resolve_files rq resolutions files failures = (files', failures', n)"
  shows "acc_assets files' failures' = acc_assets files failures \<and>
    length files' + length failures' = length files + length failures \<and>
    (distinct (map puf_variantId files) \<longrightarrow> distinct (map puf_variantId files'))"
proof (cases resolutions)
  case (Inl e)
  with assms show ?thesis
    by (auto simp: resolve_files_def acc_assets_def preparationFailure_def image_image image_Un)
next
  case (Inr rs)
  with assms resolve_fold_step [of "rev files" "([], failures, 0)" rq
      "map_from (map (\<lambda>r. (resolution_assetId r, r)) rs)"]
  show ?thesis by (auto simp: resolve_files_def resolution_step_def acc_assets_def)
qed

lemma distinct_map_filter_ids:
  assumes "\<forall>i f. i < length xs \<and> xs ! i = Some f \<longrightarrow> g f = h (k + i)" and "inj h"
  shows "distinct (map g (List.map_filter (\<lambda>c. c) xs)) \<and>
    g ` set (List.map_filter (\<lambda>c. c) xs) \<subseteq> h ` {k..<k + length xs}"
  using assms(1)
proof (induction xs arbitrary: k)
  case Nil
  then show ?case by (simp add: List.map_filter_def)
next
  case (Cons x xs)
  have "\<forall>i f. i < length xs \<and> xs ! i = Some f \<longrightarrow> g f = h (Suc k + i)"
    using Cons.prems [rule_format, of "Suc _"] by auto
  note ih = Cons.IH [OF this]
  have mono: "h ` {Suc k..<Suc k + length xs} \<subseteq> h ` {k..<k + length (x # xs)}" "h k \<in> h ` {k..<k + length (x # xs)}"
    by auto
  show ?case
  proof (cases x)
    case None
    with ih mono show ?thesis by (simp add: map_filter_simps) blast
  next
    case (Some f)
    then have gf: "g f = h k" using Cons.prems by force
    moreover have "h k \<notin> h ` {Suc k..<Suc k + length xs}" using assms(2) by (auto dest: injD)
    ultimately show ?thesis using ih Some mono by (simp add: map_filter_simps) blast
  qed
qed

text \<open>The workers of the fallback finish every asset once.\<close>

definition order_ok :: "preparation_env \<Rightarrow> preparation_request \<Rightarrow> bool" where
  "order_ok env rq \<longleftrightarrow> distinct (pe_order env) \<and> set (pe_order env) = {..<length (rq_assets rq)}"

lemma fallback_candidates:
  assumes "order_ok env rq"
  defines "a \<equiv> fold (metadata_asset (pe_libraryInfo env) (pe_fileInfo env) rq) (pe_order env) (start_fallback rq)"
  defines "files \<equiv> List.map_filter (\<lambda>c. c) (fb_candidates a)"
  shows "acc_assets files (fb_failures a) \<supseteq> set (rq_assets rq) \<and>
    length files + length (fb_failures a) = length (rq_assets rq) \<and> distinct (map puf_variantId files)"
proof -
  have inv: "fallback_inv rq (pe_order env) a"
    using assms(1) metadata_assets_inv [OF start_fallback_inv] unfolding a_def order_ok_def by fastforce
  have "length (pe_order env) = length (rq_assets rq)"
    using assms(1) distinct_card [of "pe_order env"] by (simp add: order_ok_def)
  with inv have len: "length files + length (fb_failures a) = length (rq_assets rq)"
    by (simp add: fallback_inv_def files_def)
  have "rq_assets rq ! i \<in> acc_assets files (fb_failures a)" if "i < length (rq_assets rq)" for i
  proof (cases "fb_candidates a ! i")
    case None
    moreover have "i \<in> set (pe_order env)" using assms(1) that by (simp add: order_ok_def)
    ultimately have "rq_assets rq ! i \<in> pfl_asset ` set (fb_failures a)"
      using inv unfolding fallback_inv_def by blast
    then show ?thesis by (simp add: acc_assets_def)
  next
    case (Some f)
    have "Some f \<in> set (fb_candidates a)"
      using Some inv that nth_mem [of i "fb_candidates a"] by (simp add: fallback_inv_def)
    then have "f \<in> set files" by (force simp: files_def List.map_filter_def)
    moreover have "puf_asset f = rq_assets rq ! i" using Some inv that unfolding fallback_inv_def by blast
    ultimately show ?thesis unfolding acc_assets_def by (metis UnI1 imageI)
  qed
  then have "set (rq_assets rq) \<subseteq> acc_assets files (fb_failures a)" by (auto simp: in_set_conv_nth)
  moreover have "distinct (map puf_variantId files)"
  proof -
    let ?h = "\<lambda>i. rq_sessionRef rq @ ''-'' @ show_nat (rq_startIndex rq + i + 1)"
    have "\<forall>i f. i < length (fb_candidates a) \<and> fb_candidates a ! i = Some f \<longrightarrow> puf_variantId f = ?h (0 + i)"
      using inv by (simp add: fallback_inv_def)
    moreover have "inj ?h" by (simp add: inj_def)
    ultimately show ?thesis unfolding files_def by (rule distinct_map_filter_ids [THEN conjunct1])
  qed
  ultimately show ?thesis using len by blast
qed

lemma fallback_window_accounts:
  assumes "order_ok env rq"
    and "fallback_window now available (pe_libraryInfo env) (pe_fileInfo env) resolve c1 c2 (pe_order env) rq = Some w"
  shows "set (rq_assets rq) \<subseteq> acc_assets (pw_files w) (pw_failures w) \<and>
    length (pw_files w) + length (pw_failures w) = length (rq_assets rq) \<and>
    distinct (map puf_variantId (pw_files w)) \<and>
    pw_discoveredBytes w = pw_selectedMediaBytes w + pw_additionalComponentsBytes w \<and>
    pw_selectedMediaFiles w + pw_additionalComponentsFiles w = length (pw_files w) + length (pw_failures w)"
proof -
  define a where
    "a = fold (metadata_asset (pe_libraryInfo env) (pe_fileInfo env) rq) (pe_order env) (start_fallback rq)"
  define files where "files = List.map_filter (\<lambda>c. c) (fb_candidates a)"
  have pre: "acc_assets files (fb_failures a) \<supseteq> set (rq_assets rq)"
    "length files + length (fb_failures a) = length (rq_assets rq)" "distinct (map puf_variantId files)"
    using fallback_candidates [OF assms(1)] unfolding files_def a_def by blast+
  obtain fs fl n where r: "(if files \<noteq> [] \<and> available
      then resolve_files rq (resolve (filename_requests files)) files (fb_failures a)
      else (files, fb_failures a, 0)) = (fs, fl, n)" by (metis prod_cases3)
  then have "acc_assets fs fl = acc_assets files (fb_failures a)"
    "length fs + length fl = length files + length (fb_failures a)" "distinct (map puf_variantId fs)"
    using resolve_files_accounts [of rq "resolve (filename_requests files)" files "fb_failures a" fs fl n] pre(3)
    by (auto split: if_splits)
  moreover have "pw_files w = fs" "pw_failures w = fl" "pw_discoveredBytes w = pw_selectedMediaBytes w"
    "pw_additionalComponentsBytes w = 0" "pw_selectedMediaFiles w = length fs + length fl"
    "pw_additionalComponentsFiles w = 0"
    using assms(2) r unfolding fallback_window_def Let_def a_def [symmetric] files_def [symmetric]
    by (auto split: if_splits)
  ultimately show ?thesis using pre by simp
qed

subsection \<open>Properties\<close>


text \<open>A concrete window: two assets, finished in the reverse order, one of them empty.\<close>

definition example_env :: preparation_env where
  "example_env = \<lparr>pe_now = (\<lambda>n. 0), pe_available = False, pe_prepares = True, pe_native = (\<lambda>_. Inl []),
     pe_libraryInfo = (\<lambda>_. None),
     pe_fileInfo = (\<lambda>uri. Some \<lparr>fi_exists = True, fi_isDirectory = False, fi_size = (if uri = ''v'' then 0 else 7)\<rparr>),
     pe_resolve = (\<lambda>_. Inl []), pe_cancelled1 = False, pe_cancelled2 = False, pe_order = [1, 0]\<rparr>"

definition example_request :: preparation_request where
  "example_request =
     (let asset = (\<lambda>i. \<lparr>ma_id = i, ma_uri = i, ma_type = Photo, ma_duration = None, ma_modificationTime = 0,
                        ma_width = 1, ma_height = 1, ma_filename = i\<rparr>)
      in \<lparr>rq_assets = [asset ''u'', asset ''v''], rq_sessionRef = ''s'', rq_startIndex = 0, rq_windowIndex = 0,
          rq_totalSelectedFiles = 2, rq_alreadyPreparedFiles = 0, rq_alreadyReadyFiles = 0,
          rq_alreadyDiscoveredBytes = 0, rq_includeAdditionalMediaComponents = False\<rparr>)"


end
