(* ===== verification/Retry.thy ===== *)
theory Retry
  imports UploadTypes
begin

text \<open>
  \<open>services/upload/RetryPolicy.ts\<close>: the attempts of one compatibility chunk request. The
  request itself is a parameter: its \<open>n\<close>-th invocation gives whether its signal was
  aborted (by the timer or by a cancellation) and its outcome. \<open>cancelledAtStart n\<close> and
  \<open>cancelledAtCatch n\<close> are the readings of \<open>isCancelled\<close> at the start of the \<open>n\<close>-th
  attempt and in its \<open>catch\<close> clause (which does not suspend between its readings). The
  controller of attempt \<open>n\<close> in \<open>activeRequests\<close> is the number \<open>base + n\<close>.
\<close>

record 'a retry_run =
  rt_result :: "thrown + 'a"
  rt_requests :: nat
  rt_delays :: "number list"
  rt_active :: "nat set"

definition cancelled_failure :: thrown where
  "cancelled_failure = Thrown_failure (new_TransferFailure Stage_upload Cancelled False)"

definition timeout_failure :: thrown where
  "timeout_failure = Thrown_failure (new_TransferFailure Stage_network Request_timeout False)"

fun is_TransferFailure :: "thrown \<Rightarrow> bool" where
  "is_TransferFailure (Thrown_failure _) = True"
| "is_TransferFailure _ = False"

function retryChunkRequest ::
  "(nat \<Rightarrow> bool \<times> (thrown + 'a)) \<Rightarrow> nat \<Rightarrow> (nat \<Rightarrow> bool) \<Rightarrow> (nat \<Rightarrow> bool) \<Rightarrow> nat \<Rightarrow> nat
     \<Rightarrow> nat set \<Rightarrow> 'a retry_run" where
  "retryChunkRequest request retries cancelledAtStart cancelledAtCatch base attempt active =
     (let controller = base + attempt;
          started = \<not> cancelledAtStart attempt;
          (aborted, outcome) = (if started then request attempt else (False, Inl cancelled_failure));
          requests = (if started then 1 else 0);
          released = (if started then insert controller active - {controller} else active - {controller})
      in case outcome of
           Inr v \<Rightarrow> \<lparr>rt_result = Inr v, rt_requests = requests, rt_delays = [], rt_active = released\<rparr>
         | Inl error \<Rightarrow>
             (if isUnauthorizedError error
              then \<lparr>rt_result = Inl error, rt_requests = requests, rt_delays = [], rt_active = released\<rparr>
              else if attempt \<ge> retries \<or> cancelledAtCatch attempt \<or> is_TransferFailure error
              then \<lparr>rt_result = Inl (if aborted \<and> \<not> cancelledAtCatch attempt
                                    then timeout_failure else error),
                    rt_requests = requests, rt_delays = [], rt_active = released\<rparr>
              else
                (let rest = retryChunkRequest request retries cancelledAtStart cancelledAtCatch base
                              (attempt + 1) released
                 in rest\<lparr>rt_requests := requests + rt_requests rest,
                         rt_delays := 500 * (real attempt + 1) # rt_delays rest\<rparr>)))"
  by pat_completeness auto
termination
  by (relation "measure (\<lambda>(request, retries, c1, c2, base, attempt, active). retries - attempt)") auto

declare retryChunkRequest.simps [simp del]

subsection \<open>Lemmas\<close>

text \<open>An attempt that ends the loop, and the error it ends with.\<close>

definition final_attempt ::
  "(nat \<Rightarrow> bool \<times> (thrown + 'a)) \<Rightarrow> nat \<Rightarrow> (nat \<Rightarrow> bool) \<Rightarrow> (nat \<Rightarrow> bool) \<Rightarrow> nat \<Rightarrow> bool" where
  "final_attempt request retries c1 c2 n \<longleftrightarrow>
     c1 n \<or>
     (case snd (request n) of
        Inr _ \<Rightarrow> True
      | Inl e \<Rightarrow> isUnauthorizedError e \<or> n \<ge> retries \<or> c2 n \<or> is_TransferFailure e)"

definition final_result ::
  "(nat \<Rightarrow> bool \<times> (thrown + 'a)) \<Rightarrow> (nat \<Rightarrow> bool) \<Rightarrow> (nat \<Rightarrow> bool) \<Rightarrow> nat \<Rightarrow> thrown + 'a" where
  "final_result request c1 c2 n =
     (if c1 n then Inl cancelled_failure
      else case request n of
             (_, Inr v) \<Rightarrow> Inr v
           | (aborted, Inl e) \<Rightarrow>
               Inl (if aborted \<and> \<not> c2 n \<and> \<not> isUnauthorizedError e then timeout_failure else e))"

lemma cancelled_not_unauthorized [simp]:
  "\<not> isUnauthorizedError cancelled_failure" "is_TransferFailure cancelled_failure"
  by (simp_all add: cancelled_failure_def)

lemma retry_final:
  assumes "final_attempt request retries c1 c2 n"
  shows "retryChunkRequest request retries c1 c2 base n active =
    \<lparr>rt_result = final_result request c1 c2 n, rt_requests = of_bool (\<not> c1 n), rt_delays = [],
     rt_active = active - {base + n}\<rparr>"
  using assms
  by (subst retryChunkRequest.simps)
    (auto simp: final_attempt_def final_result_def Let_def split: sum.splits prod.splits)

lemma retry_continue:
  assumes "\<not> final_attempt request retries c1 c2 n"
  shows "retryChunkRequest request retries c1 c2 base n active =
    (let rest = retryChunkRequest request retries c1 c2 base (n + 1) (active - {base + n})
     in rest\<lparr>rt_requests := 1 + rt_requests rest, rt_delays := 500 * (real n + 1) # rt_delays rest\<rparr>)"
  using assms
  by (subst retryChunkRequest.simps)
    (auto simp: final_attempt_def Let_def split: sum.splits prod.splits if_splits)

lemma final_at_retries: "retries \<le> n \<Longrightarrow> final_attempt request retries c1 c2 n"
  by (auto simp: final_attempt_def split: sum.splits)

lemma retry_run_upto:
  assumes "n \<le> m" and "final_attempt request retries c1 c2 m"
    and "\<forall>k. n \<le> k \<and> k < m \<longrightarrow> \<not> final_attempt request retries c1 c2 k"
  shows "retryChunkRequest request retries c1 c2 base n active =
    \<lparr>rt_result = final_result request c1 c2 m, rt_requests = (m - n) + of_bool (\<not> c1 m),
     rt_delays = map (\<lambda>k. 500 * (real k + 1)) [n..<m],
     rt_active = active - {base + k | k. n \<le> k \<and> k \<le> m}\<rparr>"
  using assms
proof (induction "m - n" arbitrary: n active)
  case 0
  then show ?case by (auto simp: retry_final)
next
  case (Suc d)
  then have n: "n < m" "\<not> final_attempt request retries c1 c2 n" by auto
  have "active - {base + n} - {base + k |k. Suc n \<le> k \<and> k \<le> m} =
        active - {base + k |k. n \<le> k \<and> k \<le> m}"
    using n(1) by (auto dest: le_neq_implies_less simp: Suc_le_eq)
  moreover have "[n..<m] = n # [Suc n..<m]" using n(1) by (rule upt_conv_Cons)
  ultimately show ?case
    using Suc.hyps(1) [of "Suc n" "active - {base + n}"] Suc.hyps(2) Suc.prems n
    by (simp add: retry_continue Let_def)
qed

text \<open>The first attempt that ends the loop; attempt \<open>retries\<close> always does.\<close>

lemma first_final:
  obtains m where "m \<le> retries" and "final_attempt request retries c1 c2 m"
    and "\<forall>k. k < m \<longrightarrow> \<not> final_attempt request retries c1 c2 k"
proof -
  let ?P = "final_attempt request retries c1 c2"
  have "?P retries" by (rule final_at_retries) simp
  then have "?P (LEAST n. ?P n)" "(LEAST n. ?P n) \<le> retries"
    by (rule LeastI, rule Least_le)
  then show ?thesis using that [of "LEAST n. ?P n"] not_less_Least by blast
qed

subsection \<open>Properties\<close>

text \<open>
  C39. The retry loop is bounded and classifies its end: for every behaviour of the request
  and of the cancellation flag there is an attempt \<open>m \<le> retries\<close> that ends it, no earlier
  attempt was final; the back-offs were 500, 1000, ... milliseconds, at most
  \<open>retries + 1\<close> requests were sent, no controller of this call stays registered and all
  others do; the result is the value of that attempt, a cancellation, a timeout if the
  signal was aborted without cancellation, and otherwise the error of the request, in
  particular an unauthorized error unchanged.
\<close>

theorem retry_bounded:
  "\<exists>m \<le> retries.
     final_attempt request retries c1 c2 m \<and>
     (\<forall>k < m. \<not> final_attempt request retries c1 c2 k) \<and>
     (let r = retryChunkRequest request retries c1 c2 base 0 active in
        rt_result r = final_result request c1 c2 m \<and>
        rt_requests r = m + of_bool (\<not> c1 m) \<and> rt_requests r \<le> retries + 1 \<and>
        rt_delays r = map (\<lambda>k. 500 * (real k + 1)) [0..<m] \<and>
        rt_active r = active - {base + k | k. k \<le> m})"
proof -
  obtain m where m: "m \<le> retries" "final_attempt request retries c1 c2 m"
    "\<forall>k. k < m \<longrightarrow> \<not> final_attempt request retries c1 c2 k"
    by (rule first_final)
  with retry_run_upto [of 0 m request retries c1 c2 base active] show ?thesis
    by (intro exI [of _ m]) (simp add: Let_def)
qed

theorem retry_bounded_witness:
  "rt_result (retryChunkRequest (\<lambda>n. if n = 0 then (False, Inl (Thrown_error ''io'')) else (False, Inr n))
      4 (\<lambda>_. False) (\<lambda>_. False) 0 0 {}) = (Inr 1 :: thrown + nat)"
proof -
  let ?req = "\<lambda>n. if n = 0 then (False, Inl (Thrown_error ''io'')) else (False, Inr n) :: bool \<times> (thrown + nat)"
  have f: "final_attempt ?req 4 (\<lambda>_. False) (\<lambda>_. False) m \<longleftrightarrow> 0 < m" for m
    by (simp add: final_attempt_def)
  from retry_bounded [of 4 ?req "\<lambda>_. False" "\<lambda>_. False" 0 "{}"]
  obtain m where m: "0 < m" "\<forall>k < m. \<not> 0 < k"
    "rt_result (retryChunkRequest ?req 4 (\<lambda>_. False) (\<lambda>_. False) 0 0 {}) =
       final_result ?req (\<lambda>_. False) (\<lambda>_. False) m"
    unfolding f Let_def by blast
  then have "m = 1" by (metis gr0I less_one linorder_neqE_nat)
  with m show ?thesis by (simp add: final_result_def)
qed

end
