(* ===== verification/FileUpload.thy ===== *)
theory FileUpload
  imports Retry Throughput NativeBridge
begin

text \<open>
  The transport of one file in \<open>services/UploadManager.ts\<close>: the receiver's limits, the
  acknowledgements of the native uploader, and the chunk loop of the compatibility
  transport with its requests. Parameters: what reading a chunk gives, how the receiver
  answers each attempt, whether the worker may go on before each chunk, and what
  \<open>JSON.parse\<close> makes of the last answer.
\<close>

definition CHUNK_SIZE :: number where "CHUNK_SIZE = CompatibilityChunkBytes"
definition MAX_CHUNK_RETRIES :: nat where "MAX_CHUNK_RETRIES = 2"
definition CONCURRENCY :: nat where "CONCURRENCY = 2"

subsection \<open>uploadEncodedChunk\<close>

text \<open>A response of \<open>fetch\<close>, or the error with which it rejects.\<close>

record http_response =
  hr_ok :: bool
  hr_status :: int
  hr_text :: string

definition session_changed :: string where
  "session_changed = ''Desktop server session changed. Scan the current QR code to reconnect.''"

definition chunk_response :: "thrown + http_response \<Rightarrow> thrown + string" where
  "chunk_response r =
     (case r of
        Inl e \<Rightarrow> Inl e
      | Inr response \<Rightarrow>
          (if \<not> hr_ok response
           then (if hr_status response = 401 then Inl (Thrown_api session_changed 401)
                 else if hr_status response \<ge> 500 then Inl (Thrown_error ''Temporary desktop response failure'')
                 else Inl (Thrown_failure (new_TransferFailure Stage_server Server_rejected False)))
           else Inr (hr_text response)))"

text \<open>
  \<open>fetch n\<close> is the \<open>n\<close>-th attempt: whether its signal was aborted, and its outcome.
\<close>

definition uploadEncodedChunk ::
  "(nat \<Rightarrow> bool \<times> (thrown + http_response)) \<Rightarrow> (nat \<Rightarrow> bool) \<Rightarrow> (nat \<Rightarrow> bool) \<Rightarrow> nat \<Rightarrow> nat set
     \<Rightarrow> string retry_run" where
  "uploadEncodedChunk fetch cancelledAtStart cancelledAtCatch base active =
     retryChunkRequest (\<lambda>n. (fst (fetch n), chunk_response (snd (fetch n)))) MAX_CHUNK_RETRIES
       cancelledAtStart cancelledAtCatch base 0 active"

subsection \<open>Limits\<close>

definition total_chunks :: "number \<Rightarrow> number \<Rightarrow> nat" where
  "total_chunks chunk bytes = nat \<lceil>bytes / chunk\<rceil>"

definition effectiveChunkSize :: "bool \<Rightarrow> number" where
  "effectiveChunkSize nativeAvailable = (if nativeAvailable then NativeChunkBytes else CHUNK_SIZE)"

definition exceeds_limits :: "bool \<Rightarrow> number \<Rightarrow> bool" where
  "exceeds_limits nativeAvailable bytes \<longleftrightarrow>
     bytes > MaxFileBytes \<or> \<lceil>bytes / effectiveChunkSize nativeAvailable\<rceil> > int MaxChunksPerFile"

subsection \<open>Acknowledgements of the native uploader\<close>

text \<open>\<open>recordNativeAcknowledgement\<close>: the new acknowledged count and the recorded delta.\<close>

definition recordNativeAcknowledgement :: "number \<Rightarrow> jsnum \<Rightarrow> number \<Rightarrow> number \<times> number option" where
  "recordNativeAcknowledgement bytes reportedBytes acknowledged =
     (if \<not> isFinite reportedBytes then (acknowledged, None)
      else
        (let boundedBytes = min bytes (max acknowledged (fin_val reportedBytes));
             delta = boundedBytes - acknowledged
         in if delta \<le> 0 then (acknowledged, None) else (boundedBytes, Some delta)))"

fun native_acks :: "number \<Rightarrow> jsnum list \<Rightarrow> number \<Rightarrow> number \<times> number list" where
  "native_acks bytes [] acknowledged = (acknowledged, [])"
| "native_acks bytes (r # rs) acknowledged =
     (case recordNativeAcknowledgement bytes r acknowledged of
        (a, None) \<Rightarrow> native_acks bytes rs a
      | (a, Some d) \<Rightarrow> (case native_acks bytes rs a of (a', ds) \<Rightarrow> (a', d # ds)))"

text \<open>
  The native branch: the progress events of this file (those with its \<open>fileId\<close>), then the
  final count of the result, then the classification of the result.
\<close>

record file_outcome =
  fo_acks :: "(number \<times> number) list"
  fo_end :: "thrown + bool \<times> string \<times> string option"

definition native_upload ::
  "number \<Rightarrow> string \<Rightarrow> string \<Rightarrow> NativeProgressEvent list \<Rightarrow> string + NativeUploadResult \<Rightarrow> file_outcome" where
  "native_upload bytes fileId transferFilename events result =
     (let reported = map (\<lambda>e. Fin (npe_bytesSent e)) (filter (\<lambda>e. npe_fileId e = fileId) events)
      in case result of
           Inl message \<Rightarrow>
             \<lparr>fo_acks = map (\<lambda>d. (d, d)) (snd (native_acks bytes reported 0)),
              fo_end = Inl (Thrown_error message)\<rparr>
         | Inr (Upload_failure f) \<Rightarrow>
             \<lparr>fo_acks = map (\<lambda>d. (d, d)) (snd (native_acks bytes (reported @ [nuf_bytesSent f]) 0)),
              fo_end = Inl (if nuf_errorCode f = Unauthorized
                            then Thrown_api session_changed
                                   (if isInteger (nuf_httpStatus f) then \<lfloor>fin_val (nuf_httpStatus f)\<rfloor> else 0)
                            else Thrown_failure (new_TransferFailure Stage_server Server_rejected False))\<rparr>
         | Inr (Upload_success r) \<Rightarrow>
             \<lparr>fo_acks = map (\<lambda>d. (d, d)) (snd (native_acks bytes (reported @ [nus_bytesSent r]) 0)),
              fo_end = Inr (nus_skipped r,
                            if nus_transferFilename r \<noteq> [] then nus_transferFilename r else transferFilename,
                            nus_savedFilename r)\<rparr>)"

subsection \<open>The compatibility chunk loop\<close>

record chunk_request =
  cr_index :: nat
  cr_position :: number
  cr_length :: number
  cr_totalChunks :: nat
  cr_body :: string

definition chunk_position :: "nat \<Rightarrow> number" where
  "chunk_position i = real i * CHUNK_SIZE"

definition chunk_length :: "number \<Rightarrow> nat \<Rightarrow> number" where
  "chunk_length bytes i = min CHUNK_SIZE (bytes - chunk_position i)"

record chunk_env =
  ce_goOn :: "nat \<Rightarrow> bool"
  ce_read :: "nat \<Rightarrow> number \<Rightarrow> number \<Rightarrow> string option"
  ce_send :: "chunk_request \<Rightarrow> thrown + string"
  ce_parse :: "string \<Rightarrow> jsval option"

text \<open>The last answer: \<open>skipped\<close> and the saved name (\<open>skipped\<close> stays false when parsing throws).\<close>

definition last_response :: "jsval option \<Rightarrow> bool \<times> string option" where
  "last_response parsed =
     (case parsed of
        None \<Rightarrow> (False, None)
      | Some v \<Rightarrow> (prop_of v ''skipped'' = JBool True, nonempty_string (prop_of v ''filename'')))"

record chunk_run =
  ck_requests :: "chunk_request list"
  ck_acks :: "(number \<times> number) list"
  ck_end :: "thrown + bool \<times> string option"

function chunk_loop :: "chunk_env \<Rightarrow> number \<Rightarrow> nat \<Rightarrow> bool \<times> string option \<Rightarrow> chunk_run" where
  "chunk_loop env bytes i outcome =
     (let n = total_chunks CHUNK_SIZE bytes in
      if i \<ge> n then \<lparr>ck_requests = [], ck_acks = [], ck_end = Inr outcome\<rparr>
      else if \<not> ce_goOn env i
      then \<lparr>ck_requests = [], ck_acks = [],
            ck_end = Inl (Thrown_failure (new_TransferFailure Stage_upload Cancelled False))\<rparr>
      else
        (case ce_read env i (chunk_position i) (chunk_length bytes i) of
           None \<Rightarrow> \<lparr>ck_requests = [], ck_acks = [],
                    ck_end = Inl (Thrown_failure (new_TransferFailure Stage_upload File_read_failed False))\<rparr>
         | Some body \<Rightarrow>
             if body = []
             then \<lparr>ck_requests = [], ck_acks = [],
                   ck_end = Inl (Thrown_failure (new_TransferFailure Stage_upload File_read_failed False))\<rparr>
             else
               (let request = \<lparr>cr_index = i, cr_position = chunk_position i, cr_length = chunk_length bytes i,
                               cr_totalChunks = n, cr_body = body\<rparr>
                in case ce_send env request of
                     Inl e \<Rightarrow> \<lparr>ck_requests = [request], ck_acks = [], ck_end = Inl e\<rparr>
                   | Inr reply \<Rightarrow>
                       (let outcome' = (if i = n - 1 then last_response (ce_parse env reply) else outcome);
                            rest = chunk_loop env bytes (i + 1) outcome'
                        in rest\<lparr>ck_requests := request # ck_requests rest,
                                ck_acks := (chunk_length bytes i, real (length body)) # ck_acks rest\<rparr>))))"
  by pat_completeness auto
termination
  by (relation "measure (\<lambda>(env, bytes, i, outcome). total_chunks CHUNK_SIZE bytes - i)") auto

declare chunk_loop.simps [simp del]

definition compatibility_upload :: "chunk_env \<Rightarrow> number \<Rightarrow> string \<Rightarrow> file_outcome" where
  "compatibility_upload env bytes transferFilename =
     (let r = chunk_loop env bytes 0 (False, None)
      in \<lparr>fo_acks = ck_acks r,
          fo_end = (case ck_end r of
                      Inl e \<Rightarrow> Inl e
                    | Inr (skipped, saved) \<Rightarrow> Inr (skipped, transferFilename, saved))\<rparr>)"

subsection \<open>Lemmas\<close>

lemma chunk_size_pos [simp]: "0 < CHUNK_SIZE" "0 \<le> CHUNK_SIZE" "CHUNK_SIZE \<noteq> 0"
  by (simp_all add: CHUNK_SIZE_def CompatibilityChunkBytes_def)

lemma total_chunks_bounds:
  assumes "0 < bytes"
  shows "real (total_chunks CHUNK_SIZE bytes - 1) * CHUNK_SIZE < bytes"
    and "bytes \<le> real (total_chunks CHUNK_SIZE bytes) * CHUNK_SIZE" and "0 < total_chunks CHUNK_SIZE bytes"
proof -
  let ?q = "bytes / CHUNK_SIZE"
  have q: "0 < ?q" using assms by simp
  then have pos: "0 < \<lceil>?q\<rceil>" by simp
  then show "0 < total_chunks CHUNK_SIZE bytes" by (simp add: total_chunks_def)
  have n: "real (total_chunks CHUNK_SIZE bytes) = of_int \<lceil>?q\<rceil>" using pos by (simp add: total_chunks_def)
  have up: "of_int \<lceil>?q\<rceil> < ?q + 1" by linarith
  have "?q * CHUNK_SIZE \<le> of_int \<lceil>?q\<rceil> * CHUNK_SIZE" by (intro mult_right_mono) simp_all
  then show "bytes \<le> real (total_chunks CHUNK_SIZE bytes) * CHUNK_SIZE" unfolding n by simp
  have "real (total_chunks CHUNK_SIZE bytes - 1) = of_int \<lceil>?q\<rceil> - 1"
    using n \<open>0 < total_chunks CHUNK_SIZE bytes\<close> of_nat_diff [of 1 "total_chunks CHUNK_SIZE bytes"] by simp
  also have "\<dots> < ?q" using up by linarith
  finally show "real (total_chunks CHUNK_SIZE bytes - 1) * CHUNK_SIZE < bytes"
    by (simp add: pos_less_divide_eq)
qed

lemma chunk_length_inner:
  "0 < bytes \<Longrightarrow> Suc i < total_chunks CHUNK_SIZE bytes \<Longrightarrow> chunk_length bytes i = CHUNK_SIZE"
proof -
  assume b: "0 < bytes" and i: "Suc i < total_chunks CHUNK_SIZE bytes"
  have "real (Suc i) * CHUNK_SIZE \<le> real (total_chunks CHUNK_SIZE bytes - 1) * CHUNK_SIZE"
    using i by (intro mult_right_mono) auto
  with total_chunks_bounds(1) [OF b] have "real (Suc i) * CHUNK_SIZE < bytes" by linarith
  then show ?thesis by (simp add: chunk_length_def chunk_position_def algebra_simps)
qed

lemma chunk_length_last:
  assumes "0 < bytes" and "Suc i = total_chunks CHUNK_SIZE bytes"
  shows "chunk_length bytes i = bytes - chunk_position i \<and> 0 < chunk_length bytes i"
proof -
  have "total_chunks CHUNK_SIZE bytes - 1 = i" using assms(2) by simp
  with total_chunks_bounds(1) [OF assms(1)] have "real i * CHUNK_SIZE < bytes" by simp
  moreover have "bytes \<le> real i * CHUNK_SIZE + CHUNK_SIZE"
    using total_chunks_bounds(2) [OF assms(1)] by (simp add: assms(2) [symmetric] algebra_simps)
  ultimately show ?thesis by (simp add: chunk_length_def chunk_position_def)
qed

text \<open>The chunks from index \<open>i\<close> on cover the rest of the file.\<close>

lemma chunk_lengths_sum:
  assumes "0 < bytes" and "i \<le> total_chunks CHUNK_SIZE bytes"
  shows "sum_list (map (chunk_length bytes) [i..<total_chunks CHUNK_SIZE bytes]) =
    (if i = total_chunks CHUNK_SIZE bytes then 0 else bytes - chunk_position i)"
  using assms(2)
proof (induction "total_chunks CHUNK_SIZE bytes - i" arbitrary: i)
  case 0
  then show ?case by simp
next
  case (Suc d)
  let ?n = "total_chunks CHUNK_SIZE bytes"
  have i: "i < ?n" using Suc by linarith
  then have step: "[i..<?n] = i # [Suc i..<?n]" by (rule upt_conv_Cons)
  have ih: "sum_list (map (chunk_length bytes) [Suc i..<?n]) =
      (if Suc i = ?n then 0 else bytes - chunk_position (Suc i))"
    using Suc i by (intro Suc.hyps(1)) linarith+
  show ?case
  proof (cases "Suc i = ?n")
    case True
    with ih i chunk_length_last [OF assms(1) True] show ?thesis by (simp add: step)
  next
    case False
    with i have "chunk_length bytes i = CHUNK_SIZE" by (intro chunk_length_inner assms(1)) linarith
    with ih i False show ?thesis by (simp add: step chunk_position_def algebra_simps)
  qed
qed

lemma chunk_loop_step:
  assumes "i < total_chunks CHUNK_SIZE bytes" and "ck_end (chunk_loop env bytes i outcome) = Inr res"
  obtains body reply where "body \<noteq> []"
    and "ce_read env i (chunk_position i) (chunk_length bytes i) = Some body"
    and "ce_send env \<lparr>cr_index = i, cr_position = chunk_position i, cr_length = chunk_length bytes i,
           cr_totalChunks = total_chunks CHUNK_SIZE bytes, cr_body = body\<rparr> = Inr reply"
    and "chunk_loop env bytes i outcome =
      (let rest = chunk_loop env bytes (Suc i)
             (if Suc i = total_chunks CHUNK_SIZE bytes then last_response (ce_parse env reply) else outcome)
       in rest\<lparr>ck_requests := \<lparr>cr_index = i, cr_position = chunk_position i, cr_length = chunk_length bytes i,
            cr_totalChunks = total_chunks CHUNK_SIZE bytes, cr_body = body\<rparr> # ck_requests rest,
          ck_acks := (chunk_length bytes i, real (length body)) # ck_acks rest\<rparr>)"
proof -
  have last: "i = total_chunks CHUNK_SIZE bytes - 1 \<longleftrightarrow> Suc i = total_chunks CHUNK_SIZE bytes"
    using assms(1) by linarith
  show thesis
    using assms that
    by (subst (asm) chunk_loop.simps, subst (asm) (2) chunk_loop.simps)
      (auto simp: Let_def last split: if_splits option.splits sum.splits)
qed

lemma chunk_loop_complete:
  assumes "ck_end (chunk_loop env bytes i outcome) = Inr res"
  shows "map cr_index (ck_requests (chunk_loop env bytes i outcome)) = [i..<total_chunks CHUNK_SIZE bytes] \<and>
    (\<forall>r \<in> set (ck_requests (chunk_loop env bytes i outcome)).
       cr_position r = chunk_position (cr_index r) \<and> cr_length r = chunk_length bytes (cr_index r)) \<and>
    map fst (ck_acks (chunk_loop env bytes i outcome)) = map (chunk_length bytes) [i..<total_chunks CHUNK_SIZE bytes]"
  using assms
proof (induction "total_chunks CHUNK_SIZE bytes - i" arbitrary: i outcome)
  case 0
  then show ?case by (simp add: chunk_loop.simps [of env bytes i])
next
  case (Suc d)
  let ?n = "total_chunks CHUNK_SIZE bytes"
  have i: "i < ?n" using Suc.hyps(2) by linarith
  obtain body reply where loop: "chunk_loop env bytes i outcome =
      (let rest = chunk_loop env bytes (Suc i) (if Suc i = ?n then last_response (ce_parse env reply) else outcome)
       in rest\<lparr>ck_requests := \<lparr>cr_index = i, cr_position = chunk_position i, cr_length = chunk_length bytes i,
            cr_totalChunks = ?n, cr_body = body\<rparr> # ck_requests rest,
          ck_acks := (chunk_length bytes i, real (length body)) # ck_acks rest\<rparr>)"
    using chunk_loop_step [OF i Suc.prems] by metis
  let ?o = "if Suc i = ?n then last_response (ce_parse env reply) else outcome"
  have "ck_end (chunk_loop env bytes (Suc i) ?o) = Inr res" using Suc.prems loop by (simp add: Let_def)
  moreover have "d = ?n - Suc i" using Suc.hyps(2) by linarith
  ultimately show ?case
    using Suc.hyps(1) [of "Suc i" ?o] i by (simp add: loop Let_def upt_conv_Cons)
qed

lemma native_acks_bounds:
  assumes "0 \<le> a" and "a \<le> bytes"
  shows "a \<le> fst (native_acks bytes rs a) \<and> fst (native_acks bytes rs a) \<le> bytes \<and>
    sum_list (snd (native_acks bytes rs a)) = fst (native_acks bytes rs a) - a \<and>
    (\<forall>d \<in> set (snd (native_acks bytes rs a)). 0 < d)"
  using assms
proof (induction rs arbitrary: a)
  case (Cons r rs)
  show ?case
  proof (cases "isFinite r \<and> a < min bytes (max a (fin_val r))")
    case True
    let ?b = "min bytes (max a (fin_val r))"
    have "recordNativeAcknowledgement bytes r a = (?b, Some (?b - a))"
      using True by (auto simp: recordNativeAcknowledgement_def Let_def)
    moreover have "0 \<le> ?b" "?b \<le> bytes" "0 < ?b - a" using Cons.prems True by auto
    ultimately show ?thesis using Cons.IH [of ?b] by (auto split: prod.splits)
  next
    case False
    then have "recordNativeAcknowledgement bytes r a = (a, None)"
      by (auto simp: recordNativeAcknowledgement_def Let_def)
    then show ?thesis using Cons.IH [OF Cons.prems] by simp
  qed
qed simp

lemma native_acks_full:
  "0 \<le> a \<Longrightarrow> a \<le> bytes \<Longrightarrow> Fin b \<in> set rs \<Longrightarrow> bytes \<le> b \<Longrightarrow> fst (native_acks bytes rs a) = bytes"
proof (induction rs arbitrary: a)
  case (Cons r rs)
  show ?case
  proof (cases "r = Fin b")
    case True
    then have "fst (recordNativeAcknowledgement bytes r a) = bytes"
      using Cons.prems by (auto simp: recordNativeAcknowledgement_def Let_def)
    then show ?thesis
      using Cons.prems native_acks_bounds [of bytes bytes rs]
      by (auto split: prod.splits option.splits)
  next
    case False
    obtain a' d where a': "recordNativeAcknowledgement bytes r a = (a', d)" by fastforce
    then have "0 \<le> a'" "a' \<le> bytes"
      using Cons.prems by (auto simp: recordNativeAcknowledgement_def Let_def split: if_splits)
    then have "fst (native_acks bytes rs a') = bytes" using Cons False by auto
    then show ?thesis by (auto simp: a' split: option.splits prod.splits)
  qed
qed simp

subsection \<open>Properties\<close>


text \<open>
  Native progress is counted once: whatever counts the native uploader reports, out of
  order, repeated, too large or not finite, the acknowledged bytes of a file never decrease
  and never exceed its size, every recorded step is positive, the recorded steps add up to
  the acknowledged count, and a successful result that reports the size completes it.
\<close>

theorem native_acknowledgements:
  assumes "0 \<le> bytes"
  shows "let (a, ds) = native_acks bytes rs 0 in
    0 \<le> a \<and> a \<le> bytes \<and> sum_list ds = a \<and> (\<forall>d \<in> set ds. 0 < d) \<and>
    (\<forall>b. Fin b \<in> set rs \<and> bytes \<le> b \<longrightarrow> a = bytes)"
  using native_acks_bounds [of 0 bytes rs] native_acks_full [of 0 bytes _ rs] assms
  by (auto split: prod.splits)

theorem native_acknowledgements_witness:
  "native_acks 10 [Fin 4, NaN, Fin 2, Fin 12] 0 = (10, [4, 6]) \<and>
   fst (native_acks 10 [Fin 4, NaN, Fin 2, Fin 12] 0) = 10"
  using native_acknowledgements [of 10 "[Fin 4, NaN, Fin 2, Fin 12]"]
  by (simp add: recordNativeAcknowledgement_def)

text \<open>
  The limits agree: a file that passes the limit check is sent in at most 10000 chunks
  by either transport, and this chunk limit is the one that binds (39 GiB for the
  compatibility and 78 GiB for the native transport): the separate limit of 100 GiB never
  rejects a file on its own.
\<close>

theorem limits_bind:
  "(\<not> exceeds_limits native bytes \<longrightarrow>
      bytes \<le> 10000 * effectiveChunkSize native \<and>
      total_chunks (effectiveChunkSize native) bytes \<le> MaxChunksPerFile) \<and>
   (exceeds_limits native bytes \<longleftrightarrow> 10000 * effectiveChunkSize native < bytes)"
proof -
  have pos: "0 < effectiveChunkSize native"
    by (simp add: effectiveChunkSize_def limit_defs CHUNK_SIZE_def)
  have "\<lceil>bytes / effectiveChunkSize native\<rceil> > int MaxChunksPerFile \<longleftrightarrow> 10000 * effectiveChunkSize native < bytes"
    using pos by (simp add: MaxChunksPerFile_def less_ceiling_iff pos_less_divide_eq)
  moreover have "10000 * effectiveChunkSize native < MaxFileBytes"
    by (simp add: effectiveChunkSize_def limit_defs CHUNK_SIZE_def)
  ultimately have iff: "exceeds_limits native bytes \<longleftrightarrow> 10000 * effectiveChunkSize native < bytes"
    by (auto simp: exceeds_limits_def)
  moreover have "\<not> exceeds_limits native bytes \<Longrightarrow> \<lceil>bytes / effectiveChunkSize native\<rceil> \<le> int MaxChunksPerFile"
    unfolding exceeds_limits_def by linarith
  ultimately show ?thesis by (simp add: total_chunks_def nat_le_iff not_less)
qed

theorem limits_bind_witness:
  "\<not> exceeds_limits False (10000 * 4194304) \<and> total_chunks (effectiveChunkSize False) (10000 * 4194304) \<le> MaxChunksPerFile"
  using limits_bind [of False "10000 * 4194304"]
  by (simp add: effectiveChunkSize_def limit_defs CHUNK_SIZE_def)


end
