(* ===== verification/DuplicatePreflight.thy ===== *)
theory DuplicatePreflight
  imports NativeBridge
begin

text \<open>
  \<open>services/upload/duplicatePreflight.ts\<close>: the decision which prepared files of a window
  are uploaded and which are skipped because the receiver, or an earlier file of the same
  selection, already has their content. The local variables of the function are a record;
  each loop is a fold of its body. The two receiver requests and the native hashing are
  parameters: the answer to the \<open>i\<close>-th batch (and, for hashing, to its retry). The
  readings of \<open>Date.now\<close> are a parameter \<open>now\<close>, indexed by the number of earlier readings.
\<close>

subsection \<open>State\<close>

definition PREFLIGHT_BATCH_SIZE :: nat where "PREFLIGHT_BATCH_SIZE = 100"

record DuplicateProgress =
  dp_stage :: DuplicateCheckStage
  dp_completed :: nat
  dp_total :: nat

record outgoing_entry =
  og_transferFilename :: string
  og_receiverMatch :: "string option"

type_synonym OutgoingHashRegistry = "(string, outgoing_entry) jsmap"

record preflight =
  ps_results :: "(string, PreflightAction) jsmap"
  ps_matched :: "(string, string) jsmap"
  ps_sources :: "(string, DuplicateSource) jsmap"
  ps_hashes :: "(string, string) jsmap"
  ps_failCodes :: "(string, TransferErrorCode) jsmap"
  ps_hashedIds :: "string list"
  ps_failureCount :: nat
  ps_metrics :: DuplicatePreflightMetrics
  ps_receiverCandidates :: "string list"
  ps_outgoing :: OutgoingHashRegistry
  ps_progress :: "DuplicateProgress list"
  ps_completed :: nat
  ps_readings :: nat
  ps_thrown :: "thrown option"

definition localCandidateIds :: "PreparedUploadFile list \<Rightarrow> string list" where
  "localCandidateIds files =
     (let groups = fold (\<lambda>file. group_push (puf_size file) file) files []
      in fold (\<lambda>(size, grp) ids.
                 if length grp < 2 then ids
                 else fold (\<lambda>file. set_add (puf_variantId file)) grp ids) groups [])"

definition initial_metrics :: "PreparedUploadFile list \<Rightarrow> DuplicatePreflightMetrics" where
  "initial_metrics fileInfos =
     \<lparr>componentsConsidered = real (length fileInfos), bypassedFiles = 0, metadataUploadFiles = 0,
      metadataFallbackFiles = 0, receiverCandidateFiles = 0, localCandidateFiles = 0,
      hashCandidateFiles = 0, hashedFiles = 0, hashAttemptCount = 0, hashCacheHits = 0,
      hashFailureFiles = 0, hashedBytes = 0, hashedThenUploadedFiles = 0,
      hashedThenUploadedBytes = 0, receiverSkippedFiles = 0, receiverSkippedBytes = 0,
      outgoingSkippedFiles = 0, outgoingSkippedBytes = 0, metadataRequestCount = 0,
      metadataFailureCount = 0, verificationRequestCount = 0, verificationFailureCount = 0,
      verificationInconclusiveFiles = 0, metadataDurationMs = 0, hashingDurationMs = 0,
      verificationDurationMs = 0, candidateResolutionDurationMs = 0, totalHashWorkerDurationMs = 0,
      longestHashDurationMs = 0, largestHashedFileBytes = 0, nonCandidateFilesBlockedByHash = 0,
      nonCandidateBytesBlockedByHash = 0,
      preparedBytesHeldDuringPreflight = fold (\<lambda>file total. total + puf_size file) fileInfos 0,
      temporaryBytesHeldDuringPreflight =
        fold (\<lambda>file total. total + (if puf_temporary file then puf_size file else 0)) fileInfos 0\<rparr>"

definition start_preflight :: "PreparedUploadFile list \<Rightarrow> OutgoingHashRegistry \<Rightarrow> preflight" where
  "start_preflight fileInfos outgoingHashes =
     \<lparr>ps_results = [], ps_matched = [], ps_sources = [], ps_hashes = [], ps_failCodes = [],
      ps_hashedIds = [], ps_failureCount = 0, ps_metrics = initial_metrics fileInfos,
      ps_receiverCandidates = [], ps_outgoing = outgoingHashes, ps_progress = [],
      ps_completed = 0, ps_readings = 1, ps_thrown = None\<rparr>"

definition set_result :: "string \<Rightarrow> PreflightAction \<Rightarrow> preflight \<Rightarrow> preflight" where
  "set_result i action s = s\<lparr>ps_results := map_set i action (ps_results s)\<rparr>"

definition set_matched :: "string \<Rightarrow> string \<Rightarrow> preflight \<Rightarrow> preflight" where
  "set_matched i filename s = s\<lparr>ps_matched := map_set i filename (ps_matched s)\<rparr>"

definition set_source :: "string \<Rightarrow> DuplicateSource \<Rightarrow> preflight \<Rightarrow> preflight" where
  "set_source i source s = s\<lparr>ps_sources := map_set i source (ps_sources s)\<rparr>"

definition upd_metrics :: "(DuplicatePreflightMetrics \<Rightarrow> DuplicatePreflightMetrics) \<Rightarrow> preflight \<Rightarrow> preflight" where
  "upd_metrics f s = s\<lparr>ps_metrics := f (ps_metrics s)\<rparr>"

definition emit :: "DuplicateCheckStage \<Rightarrow> nat \<Rightarrow> preflight \<Rightarrow> preflight" where
  "emit stage whole s =
     s\<lparr>ps_progress := ps_progress s @ [\<lparr>dp_stage = stage, dp_completed = ps_completed s, dp_total = whole\<rparr>]\<rparr>"

definition add_failure :: "preflight \<Rightarrow> preflight" where
  "add_failure s = s\<lparr>ps_failureCount := ps_failureCount s + 1\<rparr>"

definition captureOutcomeMetrics :: "PreparedUploadFile list \<Rightarrow> preflight \<Rightarrow> preflight" where
  "captureOutcomeMetrics fileInfos s =
     fold (\<lambda>file s.
       let action = (case map_get (ps_results s) (puf_variantId file) of Some a \<Rightarrow> a | None \<Rightarrow> Upload);
           source = map_get (ps_sources s) (puf_variantId file);
           s1 = (if map_has (ps_hashes s) (puf_variantId file) \<and> action = Upload
                 then upd_metrics (\<lambda>m. m\<lparr>hashedThenUploadedFiles := hashedThenUploadedFiles m + 1,
                        hashedThenUploadedBytes := hashedThenUploadedBytes m + puf_size file\<rparr>) s
                 else s)
       in if action \<noteq> Skip then s1
          else if source = Some Outgoing_selection
          then upd_metrics (\<lambda>m. m\<lparr>outgoingSkippedFiles := outgoingSkippedFiles m + 1,
                 outgoingSkippedBytes := outgoingSkippedBytes m + puf_size file\<rparr>) s1
          else upd_metrics (\<lambda>m. m\<lparr>receiverSkippedFiles := receiverSkippedFiles m + 1,
                 receiverSkippedBytes := receiverSkippedBytes m + puf_size file\<rparr>) s1) fileInfos s"

subsection \<open>Metadata check\<close>

definition metadata_payload :: "PreparedUploadFile list \<Rightarrow> PreflightFile list" where
  "metadata_payload fileInfos =
     map (\<lambda>file. \<lparr>pff_id = puf_variantId file, pff_name = puf_transferFilename file,
                  pff_size = puf_size file\<rparr>) fileInfos"

definition metadata_result :: "PreflightFileResult \<Rightarrow> preflight \<Rightarrow> preflight" where
  "metadata_result result s =
     (if pfr_action result = Hash_required
      then set_result (pfr_id result) Hash_required
             (s\<lparr>ps_receiverCandidates := set_add (pfr_id result) (ps_receiverCandidates s)\<rparr>)
      else
        (let s1 = set_result (pfr_id result) (pfr_action result) s;
             s2 = (if pfr_action result = Upload
                   then upd_metrics (\<lambda>m. m\<lparr>metadataUploadFiles := metadataUploadFiles m + 1\<rparr>) s1 else s1)
         in case pfr_filename result of
              Some filename \<Rightarrow>
                (if pfr_action result = Skip \<and> filename \<noteq> []
                 then set_source (pfr_id result) Receiver_preflight (set_matched (pfr_id result) filename s2)
                 else s2)
            | None \<Rightarrow> s2))"

definition metadata_fallback :: "string list \<Rightarrow> PreflightFile \<Rightarrow> preflight \<Rightarrow> preflight" where
  "metadata_fallback idsWithResults file s =
     (if pff_id file \<in> set idsWithResults then s
      else upd_metrics (\<lambda>m. m\<lparr>metadataFallbackFiles := metadataFallbackFiles m + 1\<rparr>)
             (set_result (pff_id file) Upload s))"

definition metadata_batch ::
  "(nat \<Rightarrow> number) \<Rightarrow> (nat \<Rightarrow> PreflightFile list \<Rightarrow> thrown + PreflightResponse) \<Rightarrow> nat
     \<Rightarrow> nat \<times> PreflightFile list \<Rightarrow> preflight \<Rightarrow> preflight" where
  "metadata_batch now preflightCheck whole ib s =
     (if ps_thrown s \<noteq> None then s
      else
        (let batch = snd ib;
             requestStartedAt = now (ps_readings s);
             s1 = upd_metrics (\<lambda>m. m\<lparr>metadataRequestCount := metadataRequestCount m + 1\<rparr>)
                    (s\<lparr>ps_readings := ps_readings s + 1\<rparr>);
             s2 = (case preflightCheck (fst ib) batch of
                     Inr files \<Rightarrow>
                       fold (metadata_fallback (map pfr_id files)) batch (fold metadata_result files s1)
                   | Inl error \<Rightarrow>
                       (if isUnauthorizedError error then s1\<lparr>ps_thrown := Some error\<rparr>
                        else fold (\<lambda>file. set_result (pff_id file) Upload) batch
                               (upd_metrics (\<lambda>m. m\<lparr>metadataFailureCount := metadataFailureCount m + 1,
                                  metadataFallbackFiles := metadataFallbackFiles m + real (length batch)\<rparr>)
                                  (add_failure s1))));
             s3 = upd_metrics (\<lambda>m. m\<lparr>metadataDurationMs :=
                                      metadataDurationMs m + (now (ps_readings s2) - requestStartedAt)\<rparr>)
                    (s2\<lparr>ps_readings := ps_readings s2 + 1,
                        ps_completed := ps_completed s2 + length batch\<rparr>)
         in emit Finding_matches whole s3))"

subsection \<open>Content hashing\<close>

definition record_hash_result :: "(string, NativeHashRequest) jsmap \<Rightarrow> NativeHashResult \<Rightarrow> preflight \<Rightarrow> preflight" where
  "record_hash_result requestsById result s =
     (case map_get requestsById (hash_variantId result) of
        None \<Rightarrow> s
      | Some request \<Rightarrow>
          (let durationMs = hc_durationMs (hash_cost_of result);
               reportedBytes = hc_bytesRead (hash_cost_of result);
               (success, cacheHit) = (case result of Hash_success _ _ _ hit \<Rightarrow> (True, hit)
                                                   | Hash_failed _ _ _ \<Rightarrow> (False, False));
               s1 = upd_metrics (\<lambda>m. m\<lparr>hashedBytes := hashedBytes m + reportedBytes,
                      totalHashWorkerDurationMs := totalHashWorkerDurationMs m + durationMs,
                      longestHashDurationMs := max (longestHashDurationMs m) durationMs\<rparr>) s;
               s2 = (if success \<and> cacheHit
                     then upd_metrics (\<lambda>m. m\<lparr>hashCacheHits := hashCacheHits m + 1\<rparr>) s1 else s1)
           in if reportedBytes > 0 \<or> (success \<and> \<not> cacheHit)
              then upd_metrics (\<lambda>m. m\<lparr>largestHashedFileBytes :=
                       max (largestHashedFileBytes m) (nhq_expectedSizeBytes request)\<rparr>)
                     (s2\<lparr>ps_hashedIds := set_add (hash_variantId result) (ps_hashedIds s2)\<rparr>)
              else s2))"

definition recordHashResults :: "NativeHashResult list \<Rightarrow> NativeHashRequest list \<Rightarrow> preflight \<Rightarrow> preflight" where
  "recordHashResults results attemptedRequests s =
     fold (record_hash_result (map_from (map (\<lambda>request. (nhq_variantId request, request)) attemptedRequests)))
       results
       (upd_metrics (\<lambda>m. m\<lparr>hashAttemptCount := hashAttemptCount m + real (length attemptedRequests)\<rparr>) s)"

fun is_changed :: "NativeHashResult \<Rightarrow> bool" where
  "is_changed (Hash_failed _ code _) = (code = File_changed)"
| "is_changed _ = False"

fun store_hash :: "NativeHashResult \<Rightarrow> preflight \<Rightarrow> preflight" where
  "store_hash (Hash_success i sha256 _ _) s = s\<lparr>ps_hashes := map_set i sha256 (ps_hashes s)\<rparr>"
| "store_hash (Hash_failed i code _) s =
     (if code \<noteq> Cancelled then s\<lparr>ps_failCodes := map_set i code (ps_failCodes s)\<rparr> else s)"

definition hash_unavailable :: "PreparedUploadFile list \<Rightarrow> preflight \<Rightarrow> preflight" where
  "hash_unavailable batch s =
     fold (\<lambda>file s. s\<lparr>ps_failCodes := map_set (puf_variantId file) Native_hashing_unavailable (ps_failCodes s)\<rparr>)
       batch (add_failure s)"

definition hash_requests :: "PreparedUploadFile list \<Rightarrow> NativeHashRequest list" where
  "hash_requests batch =
     map (\<lambda>file. \<lparr>nhq_variantId = puf_variantId file, nhq_localUri = puf_nativeUri file,
                  nhq_expectedSizeBytes = puf_size file\<rparr>) batch"

definition hash_try ::
  "(nat \<Rightarrow> bool \<Rightarrow> NativeHashRequest list \<Rightarrow> string + NativeHashResult list) \<Rightarrow> nat
     \<Rightarrow> PreparedUploadFile list \<Rightarrow> preflight \<Rightarrow> preflight" where
  "hash_try hashFiles i batch s =
     (let requests = hash_requests batch
      in case hashFiles i False requests of
           Inl _ \<Rightarrow> hash_unavailable batch s
         | Inr results \<Rightarrow>
             (let s1 = recordHashResults results requests s;
                  changedIds = map hash_variantId (filter is_changed results)
              in if changedIds = [] then fold store_hash results s1
                 else
                   (let again = filter (\<lambda>request. nhq_variantId request \<in> set changedIds) requests
                    in case hashFiles i True again of
                         Inl _ \<Rightarrow> hash_unavailable batch s1
                       | Inr retried \<Rightarrow>
                           (let s2 = recordHashResults retried again s1;
                                retriedById = map_from (map (\<lambda>r. (hash_variantId r, r)) retried)
                            in fold store_hash
                                 (map (\<lambda>r. case map_get retriedById (hash_variantId r) of
                                              Some r' \<Rightarrow> r' | None \<Rightarrow> r) results) s2))))"

definition hash_batch ::
  "(nat \<Rightarrow> bool \<Rightarrow> NativeHashRequest list \<Rightarrow> string + NativeHashResult list) \<Rightarrow> nat
     \<Rightarrow> nat \<times> PreparedUploadFile list \<Rightarrow> preflight \<Rightarrow> preflight" where
  "hash_batch hashFiles whole ib s =
     (let s1 = hash_try hashFiles (fst ib) (snd ib) s
      in emit Checking_contents whole (s1\<lparr>ps_completed := ps_completed s1 + length (snd ib)\<rparr>))"

subsection \<open>Verification by the receiver\<close>

definition verification_payload :: "(string, PreparedUploadFile) jsmap \<Rightarrow> preflight \<Rightarrow> PreflightVerifyFile list" where
  "verification_payload fileById s =
     List.map_filter (\<lambda>i. case (map_get fileById i, map_get (ps_hashes s) i) of
         (Some file, Some sha256) \<Rightarrow>
           (if sha256 = [] then None
            else Some \<lparr>pff_id = i, pff_name = puf_transferFilename file, pff_size = puf_size file,
                       pvf_sha256 = sha256\<rparr>)
       | _ \<Rightarrow> None) (ps_receiverCandidates s)"

definition verify_result :: "PreflightFileResult \<Rightarrow> preflight \<Rightarrow> preflight" where
  "verify_result result s =
     (let s1 = (if pfr_inconclusive result
                then upd_metrics (\<lambda>m. m\<lparr>verificationInconclusiveFiles := verificationInconclusiveFiles m + 1\<rparr>)
                       (add_failure s)
                else s);
          s2 = set_result (pfr_id result)
                 (if pfr_action result = Hash_required then Upload else pfr_action result) s1
      in if pfr_action result = Skip
         then (let s3 = set_source (pfr_id result) Receiver_preflight s2
               in case pfr_filename result of
                    Some filename \<Rightarrow> (if filename \<noteq> [] then set_matched (pfr_id result) filename s3 else s3)
                  | None \<Rightarrow> s3)
         else s2)"

definition verify_fallback :: "string list \<Rightarrow> PreflightVerifyFile \<Rightarrow> preflight \<Rightarrow> preflight" where
  "verify_fallback returned file s =
     (if pff_id file \<in> set returned then s else set_result (pff_id file) Upload s)"

definition verify_batch ::
  "(nat \<Rightarrow> PreflightVerifyFile list \<Rightarrow> thrown + PreflightResponse) \<Rightarrow> nat
     \<Rightarrow> nat \<times> PreflightVerifyFile list \<Rightarrow> preflight \<Rightarrow> preflight" where
  "verify_batch preflightVerify whole ib s =
     (if ps_thrown s \<noteq> None then s
      else
        (let batch = snd ib;
             s1 = upd_metrics (\<lambda>m. m\<lparr>verificationRequestCount := verificationRequestCount m + 1\<rparr>) s;
             s2 = (case preflightVerify (fst ib) batch of
                     Inr files \<Rightarrow> fold (verify_fallback (map pfr_id files)) batch (fold verify_result files s1)
                   | Inl error \<Rightarrow>
                       (if isUnauthorizedError error then s1\<lparr>ps_thrown := Some error\<rparr>
                        else fold (\<lambda>file. set_result (pff_id file) Upload) batch
                               (upd_metrics (\<lambda>m. m\<lparr>verificationFailureCount := verificationFailureCount m + 1\<rparr>)
                                  (add_failure s1))))
         in emit Verifying_windows whole (s2\<lparr>ps_completed := ps_completed s2 + length batch\<rparr>)))"

definition unhashed_upload :: "string \<Rightarrow> preflight \<Rightarrow> preflight" where
  "unhashed_upload i s = (if map_has (ps_hashes s) i then s else set_result i Upload s)"

subsection \<open>Duplicates within the selection\<close>

definition file_hash :: "preflight \<Rightarrow> PreparedUploadFile \<Rightarrow> string" where
  "file_hash s file = (case map_get (ps_hashes s) (puf_variantId file) of Some h \<Rightarrow> h | None \<Rightarrow> [])"

definition files_by_hash :: "PreparedUploadFile list \<Rightarrow> preflight \<Rightarrow> (string, PreparedUploadFile list) jsmap" where
  "files_by_hash fileInfos s =
     fold (\<lambda>file. group_push (file_hash s file) file) (filter (\<lambda>file. file_hash s file \<noteq> []) fileInfos) []"

text \<open>\<open>.find(filename => Boolean(filename))\<close>\<close>

definition first_match :: "preflight \<Rightarrow> PreparedUploadFile list \<Rightarrow> string option" where
  "first_match s grp =
     List.find (\<lambda>f. f \<noteq> [])
       (map (\<lambda>file. case map_get (ps_matched s) (puf_variantId file) of Some f \<Rightarrow> f | None \<Rightarrow> []) grp)"

definition skip_file :: "string \<Rightarrow> DuplicateSource \<Rightarrow> PreparedUploadFile \<Rightarrow> preflight \<Rightarrow> preflight" where
  "skip_file filename source file s =
     set_source (puf_variantId file) source
       (set_matched (puf_variantId file) filename (set_result (puf_variantId file) Skip s))"

definition resolve_group :: "PreparedUploadFile list \<Rightarrow> preflight \<Rightarrow> preflight" where
  "resolve_group grp s =
     (case grp of
        [] \<Rightarrow> s
      | canonical # duplicates \<Rightarrow>
          (let hash = file_hash s canonical
           in if hash = [] then s
              else
                (let earlier = map_get (ps_outgoing s) hash;
                     receiverMatch =
                       (case first_match s grp of
                          Some f \<Rightarrow> f
                        | None \<Rightarrow> (case earlier of
                                     Some e \<Rightarrow> (case og_receiverMatch e of Some f \<Rightarrow> f | None \<Rightarrow> [])
                                   | None \<Rightarrow> []))
                 in if receiverMatch \<noteq> []
                    then (let s1 = fold (skip_file receiverMatch Receiver_preflight) grp s
                          in s1\<lparr>ps_outgoing := map_set hash
                                 \<lparr>og_transferFilename = (case earlier of Some e \<Rightarrow> og_transferFilename e
                                                          | None \<Rightarrow> puf_transferFilename canonical),
                                  og_receiverMatch = Some receiverMatch\<rparr> (ps_outgoing s1)\<rparr>)
                    else case earlier of
                           Some e \<Rightarrow> fold (skip_file (og_transferFilename e) Outgoing_selection) grp s
                         | None \<Rightarrow>
                             fold (skip_file (puf_transferFilename canonical) Outgoing_selection) duplicates
                               (s\<lparr>ps_outgoing := map_set hash
                                    \<lparr>og_transferFilename = puf_transferFilename canonical,
                                     og_receiverMatch = None\<rparr> (ps_outgoing s)\<rparr>))))"

definition resolve_duplicates :: "PreparedUploadFile list \<Rightarrow> preflight \<Rightarrow> preflight" where
  "resolve_duplicates fileInfos s = fold (\<lambda>(h, grp). resolve_group grp) (files_by_hash fileInfos s) s"

subsection \<open>The whole window\<close>

definition preflight_result :: "number \<Rightarrow> nat \<Rightarrow> nat \<Rightarrow> preflight \<Rightarrow> PreflightResult" where
  "preflight_result duration candidateCount checkedCount s =
     \<lparr>pr_preflightResults = ps_results s, pr_matchedFilenames = ps_matched s,
      pr_duplicateSources = ps_sources s, pr_computedHashes = ps_hashes s,
      pr_hashFailureCodes = ps_failCodes s, pr_preflightDurationMs = duration,
      pr_failureCount = ps_failureCount s, pr_candidateCount = candidateCount,
      pr_checkedCount = checkedCount, pr_metrics = ps_metrics s\<rparr>"

definition preflight_metadata ::
  "(nat \<Rightarrow> number) \<Rightarrow> (nat \<Rightarrow> PreflightFile list \<Rightarrow> thrown + PreflightResponse)
     \<Rightarrow> PreparedUploadFile list \<Rightarrow> preflight \<Rightarrow> preflight" where
  "preflight_metadata now preflightCheck fileInfos s =
     (let payload = metadata_payload fileInfos;
          s1 = fold (metadata_batch now preflightCheck (length payload))
                 (enumerate 0 (chunks PREFLIGHT_BATCH_SIZE payload))
                 (emit Finding_matches (length payload) s)
      in if ps_thrown s1 \<noteq> None then s1
         else upd_metrics (\<lambda>m. m\<lparr>receiverCandidateFiles := real (length (ps_receiverCandidates s1))\<rparr>) s1)"

definition hash_candidates :: "PreparedUploadFile list \<Rightarrow> preflight \<Rightarrow> PreparedUploadFile list" where
  "hash_candidates fileInfos s =
     List.map_filter (map_get (map_from (map (\<lambda>file. (puf_variantId file, file)) fileInfos)))
       (set_add_all (ps_receiverCandidates s) (localCandidateIds fileInfos))"

definition preflight_hashing ::
  "(nat \<Rightarrow> number) \<Rightarrow> (nat \<Rightarrow> bool \<Rightarrow> NativeHashRequest list \<Rightarrow> string + NativeHashResult list)
     \<Rightarrow> PreparedUploadFile list \<Rightarrow> preflight \<Rightarrow> preflight" where
  "preflight_hashing now hashFiles fileInfos s =
     (let localCandidates = localCandidateIds fileInfos;
          candidateIds = set_add_all (ps_receiverCandidates s) localCandidates;
          candidates = hash_candidates fileInfos s;
          s1 = upd_metrics (\<lambda>m. m\<lparr>localCandidateFiles := real (length localCandidates),
                                  hashCandidateFiles := real (length candidates)\<rparr>) s;
          s2 = (if candidates \<noteq> []
                then (let nonCandidates = filter (\<lambda>file. puf_variantId file \<notin> set candidateIds) fileInfos
                      in emit Checking_contents (length candidates)
                           (upd_metrics (\<lambda>m. m\<lparr>nonCandidateFilesBlockedByHash := real (length nonCandidates),
                              nonCandidateBytesBlockedByHash :=
                                fold (\<lambda>file acc. acc + puf_size file) nonCandidates 0\<rparr>)
                              (s1\<lparr>ps_completed := 0\<rparr>)))
                else s1\<lparr>ps_completed := 0\<rparr>);
          hashingStartedAt = now (ps_readings s2);
          s3 = fold (hash_batch hashFiles (length candidates))
                 (enumerate 0 (chunks PREFLIGHT_BATCH_SIZE candidates))
                 (s2\<lparr>ps_readings := ps_readings s2 + 1\<rparr>);
          hashingEnd = now (ps_readings s3);
          s4 = (if candidates \<noteq> [] then s3\<lparr>ps_readings := ps_readings s3 + 1\<rparr> else s3)
      in upd_metrics (\<lambda>m. m\<lparr>hashingDurationMs :=
                              (if candidates \<noteq> [] then hashingEnd - hashingStartedAt else 0),
                            hashedFiles := real (length (ps_hashedIds s4)),
                            hashFailureFiles := real (length (ps_failCodes s4))\<rparr>) s4)"

definition verify_all ::
  "(nat \<Rightarrow> PreflightVerifyFile list \<Rightarrow> thrown + PreflightResponse) \<Rightarrow> PreflightVerifyFile list
     \<Rightarrow> preflight \<Rightarrow> preflight" where
  "verify_all preflightVerify payload s =
     fold (verify_batch preflightVerify (length payload))
       (enumerate 0 (chunks PREFLIGHT_BATCH_SIZE payload))
       (if payload \<noteq> [] then emit Verifying_windows (length payload) s else s)"

definition finish_verification ::
  "(nat \<Rightarrow> number) \<Rightarrow> number \<Rightarrow> PreflightVerifyFile list \<Rightarrow> preflight \<Rightarrow> preflight" where
  "finish_verification now verificationStartedAt payload s =
     (let verificationEnd = now (ps_readings s);
          s1 = (if payload \<noteq> [] then s\<lparr>ps_readings := ps_readings s + 1\<rparr> else s);
          s2 = upd_metrics (\<lambda>m. m\<lparr>verificationDurationMs :=
                 (if payload \<noteq> [] then verificationEnd - verificationStartedAt else 0)\<rparr>) s1
      in fold unhashed_upload (ps_receiverCandidates s2) s2)"

definition preflight_verification ::
  "(nat \<Rightarrow> number) \<Rightarrow> (nat \<Rightarrow> PreflightVerifyFile list \<Rightarrow> thrown + PreflightResponse)
     \<Rightarrow> PreparedUploadFile list \<Rightarrow> preflight \<Rightarrow> preflight" where
  "preflight_verification now preflightVerify fileInfos s =
     (let fileById = map_from (map (\<lambda>file. (puf_variantId file, file)) fileInfos);
          payload = verification_payload fileById s;
          verificationStartedAt = now (ps_readings s);
          s1 = verify_all preflightVerify payload (s\<lparr>ps_readings := ps_readings s + 1, ps_completed := 0\<rparr>)
      in if ps_thrown s1 \<noteq> None then s1
         else finish_verification now verificationStartedAt payload s1)"

definition runDuplicatePreflightWindow ::
  "(nat \<Rightarrow> number) \<Rightarrow> (nat \<Rightarrow> PreflightFile list \<Rightarrow> thrown + PreflightResponse)
     \<Rightarrow> (nat \<Rightarrow> bool \<Rightarrow> NativeHashRequest list \<Rightarrow> string + NativeHashResult list)
     \<Rightarrow> (nat \<Rightarrow> PreflightVerifyFile list \<Rightarrow> thrown + PreflightResponse)
     \<Rightarrow> bool \<Rightarrow> PreparedUploadFile list \<Rightarrow> bool \<Rightarrow> OutgoingHashRegistry
     \<Rightarrow> (thrown + PreflightResult) \<times> OutgoingHashRegistry \<times> DuplicateProgress list" where
  "runDuplicatePreflightWindow now preflightCheck hashFiles preflightVerify nativeAvailable
       fileInfos shouldSkipDuplicates outgoingHashes =
     (let s0 = start_preflight fileInfos outgoingHashes
      in if \<not> shouldSkipDuplicates
         then (let s1 = upd_metrics (\<lambda>m. m\<lparr>bypassedFiles := real (length fileInfos)\<rparr>)
                          (fold (\<lambda>file. set_result (puf_variantId file) Upload) fileInfos s0)
               in (Inr (preflight_result (now 1 - now 0) 0 0 s1), outgoingHashes, []))
         else
           (let s1 = preflight_metadata now preflightCheck fileInfos s0
            in case ps_thrown s1 of
                 Some e \<Rightarrow> (Inl e, ps_outgoing s1, ps_progress s1)
               | None \<Rightarrow>
                   (let resolutionStartedAt = now (ps_readings s1);
                        s2 = s1\<lparr>ps_readings := ps_readings s1 + 1\<rparr>
                    in if \<not> nativeAvailable
                       then (let s3 = captureOutcomeMetrics fileInfos
                                        (fold (\<lambda>i. set_result i Upload) (ps_receiverCandidates s2) s2);
                                 s4 = upd_metrics (\<lambda>m. m\<lparr>candidateResolutionDurationMs :=
                                          now (ps_readings s3 + 1) - resolutionStartedAt\<rparr>) s3
                             in (Inr (preflight_result (now (ps_readings s3) - now 0)
                                        (length (ps_receiverCandidates s4)) 0 s4),
                                 ps_outgoing s4, ps_progress s4))
                       else
                         (let candidates = hash_candidates fileInfos s2;
                              s3 = preflight_verification now preflightVerify fileInfos
                                     (preflight_hashing now hashFiles fileInfos s2)
                          in case ps_thrown s3 of
                               Some e \<Rightarrow> (Inl e, ps_outgoing s3, ps_progress s3)
                             | None \<Rightarrow>
                                 (let s4 = captureOutcomeMetrics fileInfos (resolve_duplicates fileInfos s3);
                                      s5 = upd_metrics (\<lambda>m. m\<lparr>candidateResolutionDurationMs :=
                                               now (ps_readings s4) - resolutionStartedAt\<rparr>) s4
                                  in (Inr (preflight_result (now (ps_readings s4 + 1) - now 0)
                                             (length candidates) (length candidates) s5),
                                      ps_outgoing s5, ps_progress s5))))))"

subsection \<open>Lemmas: what each step keeps\<close>

lemmas prim_defs = set_result_def set_matched_def set_source_def upd_metrics_def emit_def add_failure_def

definition decided :: "preflight \<Rightarrow> string \<Rightarrow> bool" where
  "decided s i \<longleftrightarrow> map_get (ps_results s) i = Some Upload \<or> map_get (ps_results s) i = Some Skip"

text \<open>
  Before the resolution of duplicates within the selection: an open decision belongs to a
  receiver candidate, no file counts as an outgoing duplicate, the registry is untouched,
  only an unauthorized answer has been rethrown and no hash is empty.
\<close>

definition pre_inv :: "OutgoingHashRegistry \<Rightarrow> preflight \<Rightarrow> bool" where
  "pre_inv out s \<longleftrightarrow>
     (\<forall>i. map_get (ps_results s) i = Some Hash_required \<longrightarrow> i \<in> set (ps_receiverCandidates s)) \<and>
     (\<forall>i. map_get (ps_sources s) i \<noteq> Some Outgoing_selection) \<and>
     ps_outgoing s = out \<and>
     (\<forall>e. ps_thrown s = Some e \<longrightarrow> isUnauthorizedError e) \<and>
     (\<forall>i. map_get (ps_hashes s) i \<noteq> Some [])"

lemma pre_inv_start: "pre_inv out (start_preflight fileInfos out)"
  by (simp add: pre_inv_def start_preflight_def)

lemma pre_inv_simps [simp]:
  "pre_inv out (upd_metrics f s) = pre_inv out s"
  "pre_inv out (emit stage n s) = pre_inv out s"
  "pre_inv out (add_failure s) = pre_inv out s"
  "pre_inv out (s\<lparr>ps_readings := k\<rparr>) = pre_inv out s"
  "pre_inv out (s\<lparr>ps_completed := k\<rparr>) = pre_inv out s"
  "pre_inv out (s\<lparr>ps_readings := k, ps_completed := k'\<rparr>) = pre_inv out s"
  "pre_inv out (s\<lparr>ps_hashedIds := ids\<rparr>) = pre_inv out s"
  "pre_inv out (s\<lparr>ps_failCodes := m\<rparr>) = pre_inv out s"
  by (simp_all add: pre_inv_def prim_defs)

lemma decided_simps [simp]:
  "decided (upd_metrics f s) i = decided s i"
  "decided (emit stage n s) i = decided s i"
  "decided (add_failure s) i = decided s i"
  "decided (s\<lparr>ps_readings := k\<rparr>) i = decided s i"
  "decided (s\<lparr>ps_completed := k\<rparr>) i = decided s i"
  "decided (s\<lparr>ps_readings := k, ps_completed := k'\<rparr>) i = decided s i"
  "decided (s\<lparr>ps_thrown := t\<rparr>) i = decided s i"
  "decided (set_source j src s) i = decided s i"
  "decided (set_matched j fn s) i = decided s i"
  "decided (set_result j a s) i = (if i = j then a \<noteq> Hash_required else decided s i)"
  by (auto simp: decided_def prim_defs) (cases a; simp)+

lemma pre_inv_set_result [simp]:
  "pre_inv out s \<Longrightarrow> a \<noteq> Hash_required \<Longrightarrow> pre_inv out (set_result i a s)"
  by (auto simp: pre_inv_def prim_defs)

lemma pre_inv_thrown [simp]:
  "pre_inv out s \<Longrightarrow> isUnauthorizedError e \<Longrightarrow> pre_inv out (s\<lparr>ps_thrown := Some e\<rparr>)"
  by (simp add: pre_inv_def)

lemma pre_inv_fold_upload:
  "pre_inv out s \<Longrightarrow> pre_inv out (fold (\<lambda>x. set_result (key x) Upload) xs s)"
  by (induction xs arbitrary: s) simp_all

lemma decided_fold_upload:
  "decided (fold (\<lambda>x. set_result (key x) Upload) xs s) i = (i \<in> key ` set xs \<or> decided s i)"
  by (induction xs arbitrary: s) auto

lemma kept_fields [simp]:
  "ps_thrown (upd_metrics f s) = ps_thrown s" "ps_thrown (emit stage n s) = ps_thrown s"
  "ps_thrown (add_failure s) = ps_thrown s" "ps_thrown (set_result i a s) = ps_thrown s"
  "ps_thrown (set_source i src s) = ps_thrown s" "ps_thrown (set_matched i fn s) = ps_thrown s"
  "ps_hashes (upd_metrics f s) = ps_hashes s" "ps_hashes (emit stage n s) = ps_hashes s"
  "ps_hashes (add_failure s) = ps_hashes s" "ps_hashes (set_result i a s) = ps_hashes s"
  "ps_hashes (set_source i src s) = ps_hashes s" "ps_hashes (set_matched i fn s) = ps_hashes s"
  "ps_receiverCandidates (upd_metrics f s) = ps_receiverCandidates s"
  "ps_receiverCandidates (emit stage n s) = ps_receiverCandidates s"
  "ps_receiverCandidates (add_failure s) = ps_receiverCandidates s"
  "ps_receiverCandidates (set_result i a s) = ps_receiverCandidates s"
  "ps_receiverCandidates (set_source i src s) = ps_receiverCandidates s"
  "ps_receiverCandidates (set_matched i fn s) = ps_receiverCandidates s"
  "ps_results (upd_metrics f s) = ps_results s" "ps_results (emit stage n s) = ps_results s"
  "ps_results (add_failure s) = ps_results s" "ps_results (set_source i src s) = ps_results s"
  "ps_results (set_matched i fn s) = ps_results s"
  "ps_results (set_result i a s) = map_set i a (ps_results s)"
  by (simp_all add: prim_defs)

subsection \<open>Lemmas: the metadata phase\<close>

lemma metadata_result_inv: "pre_inv out s \<Longrightarrow> pre_inv out (metadata_result r s)"
  by (cases "pfr_action r") (auto simp: metadata_result_def pre_inv_def prim_defs Let_def split: option.splits)

lemma metadata_result_has:
  "map_has (ps_results (metadata_result r s)) i \<longleftrightarrow> i = pfr_id r \<or> map_has (ps_results s) i"
  by (auto simp: metadata_result_def Let_def split: option.splits)

lemma metadata_result_thrown [simp]: "ps_thrown (metadata_result r s) = ps_thrown s"
  by (simp add: metadata_result_def Let_def split: option.splits)

lemma metadata_results:
  "pre_inv out s \<Longrightarrow> pre_inv out (fold metadata_result rs s)"
  "map_has (ps_results (fold metadata_result rs s)) i \<longleftrightarrow> i \<in> pfr_id ` set rs \<or> map_has (ps_results s) i"
  "ps_thrown (fold metadata_result rs s) = ps_thrown s"
  by (induction rs arbitrary: s) (auto simp: metadata_result_inv metadata_result_has)

lemma metadata_fallbacks:
  "pre_inv out s \<Longrightarrow> pre_inv out (fold (metadata_fallback ids) batch s)"
  "map_has (ps_results (fold (metadata_fallback ids) batch s)) i \<longleftrightarrow>
     i \<in> pff_id ` set batch - set ids \<or> map_has (ps_results s) i"
  "ps_thrown (fold (metadata_fallback ids) batch s) = ps_thrown s"
  by (induction batch arbitrary: s) (auto simp: metadata_fallback_def)

lemma fold_upload_has:
  "map_has (ps_results (fold (\<lambda>x. set_result (key x) Upload) xs s)) i \<longleftrightarrow> i \<in> key ` set xs \<or> map_has (ps_results s) i"
  "ps_thrown (fold (\<lambda>x. set_result (key x) Upload) xs s) = ps_thrown s"
  "ps_hashes (fold (\<lambda>x. set_result (key x) Upload) xs s) = ps_hashes s"
  "ps_receiverCandidates (fold (\<lambda>x. set_result (key x) Upload) xs s) = ps_receiverCandidates s"
  by (induction xs arbitrary: s) auto

definition metadata_ok :: "OutgoingHashRegistry \<Rightarrow> string set \<Rightarrow> preflight \<Rightarrow> bool" where
  "metadata_ok out done s \<longleftrightarrow>
     pre_inv out s \<and> (ps_thrown s = None \<longrightarrow> (\<forall>i \<in> done. map_has (ps_results s) i))"

lemma metadata_batch_ok:
  assumes "metadata_ok out ids s"
  shows "metadata_ok out (ids \<union> pff_id ` set (snd ib)) (metadata_batch now check n ib s)"
proof (cases "ps_thrown s")
  case None
  let ?s1 = "upd_metrics (\<lambda>m. m\<lparr>metadataRequestCount := metadataRequestCount m + 1\<rparr>)
    (s\<lparr>ps_readings := ps_readings s + 1\<rparr>)"
  have inv: "pre_inv out ?s1" "ps_thrown ?s1 = None" "\<forall>i \<in> ids. map_has (ps_results ?s1) i"
    using assms None by (simp_all add: metadata_ok_def)
  show ?thesis
  proof (cases "check (fst ib) (snd ib)")
    case (Inl e)
    show ?thesis
    proof (cases "isUnauthorizedError e")
      case True
      with Inl None inv show ?thesis
        by (simp add: metadata_batch_def metadata_ok_def Let_def)
    next
      case False
      with Inl None inv show ?thesis
        by (auto simp: metadata_batch_def metadata_ok_def Let_def fold_upload_has intro!: pre_inv_fold_upload)
    qed
  next
    case (Inr rs)
    with None inv show ?thesis
      by (auto simp: metadata_batch_def metadata_ok_def Let_def metadata_fallbacks metadata_results)
  qed
next
  case (Some e)
  with assms show ?thesis by (simp add: metadata_batch_def metadata_ok_def)
qed

lemma metadata_batches_ok:
  "metadata_ok out ids s \<Longrightarrow>
    metadata_ok out (ids \<union> (\<Union>b \<in> set bs. pff_id ` set (snd b))) (fold (metadata_batch now check n) bs s)"
proof (induction bs arbitrary: ids s)
  case (Cons b bs)
  have "metadata_ok out (ids \<union> pff_id ` set (snd b)) (metadata_batch now check n b s)"
    using Cons.prems by (rule metadata_batch_ok)
  from Cons.IH [OF this] show ?case by (simp add: Un_assoc)
qed simp

lemma snd_enumerate: "snd ` set (enumerate k xs) = set xs"
  by (metis map_snd_enumerate set_map)

lemma union_enumerate_chunks:
  assumes "0 < n"
  shows "(\<Union>b \<in> set (enumerate k (chunks n xs)). f ` set (snd b)) = f ` set xs"
proof -
  have "(\<Union>b \<in> set (enumerate k (chunks n xs)). f ` set (snd b)) =
      (\<Union>b \<in> snd ` set (enumerate k (chunks n xs)). f ` set b)" by simp
  also have "\<dots> = f ` set (concat (chunks n xs))" unfolding snd_enumerate by auto
  finally show ?thesis using assms by simp
qed

lemma preflight_metadata_ok:
  assumes "s = preflight_metadata now check fileInfos (start_preflight fileInfos out)"
  shows "pre_inv out s \<and> (ps_thrown s = None \<longrightarrow> (\<forall>f \<in> set fileInfos. map_has (ps_results s) (puf_variantId f)))"
proof -
  let ?s0 = "emit Finding_matches (length (metadata_payload fileInfos)) (start_preflight fileInfos out)"
  let ?t = "fold (metadata_batch now check (length (metadata_payload fileInfos)))
    (enumerate 0 (chunks PREFLIGHT_BATCH_SIZE (metadata_payload fileInfos))) ?s0"
  have "metadata_ok out {} ?s0" by (simp add: metadata_ok_def pre_inv_start)
  from metadata_batches_ok [OF this, of "enumerate 0 (chunks PREFLIGHT_BATCH_SIZE (metadata_payload fileInfos))"]
  have "metadata_ok out (pff_id ` set (metadata_payload fileInfos)) ?t"
    by (simp add: union_enumerate_chunks PREFLIGHT_BATCH_SIZE_def)
  moreover have "pff_id ` set (metadata_payload fileInfos) = puf_variantId ` set fileInfos"
    by (auto simp: metadata_payload_def image_image)
  ultimately show ?thesis
    by (auto simp: assms preflight_metadata_def Let_def metadata_ok_def)
qed

subsection \<open>Lemmas: the hashing phase\<close>

text \<open>
  The contract of the native bridge that the hashing relies on: only validated results
  arrive (\<open>hashPreparedFiles\<close> of \<open>NativeBridge\<close> provides it).
\<close>

definition hash_valid ::
  "(nat \<Rightarrow> bool \<Rightarrow> NativeHashRequest list \<Rightarrow> string + NativeHashResult list) \<Rightarrow> bool" where
  "hash_valid hashFiles \<longleftrightarrow> (\<forall>i again requests rs. hashFiles i again requests = Inr rs \<longrightarrow> list_all hash_ok rs)"

lemma bridge_hash_valid: "hash_valid (\<lambda>i again. hashPreparedFiles (nativeModule i again) sessionRef)"
  by (auto simp: hash_valid_def hashPreparedFiles_def list_all_iff keep_valid_set parsed_hash_ok
      split: option.splits sum.splits)

text \<open>The fields that hashing leaves alone.\<close>

definition decisions :: "preflight \<Rightarrow> (string, PreflightAction) jsmap \<times> string list \<times> thrown option" where
  "decisions s = (ps_results s, ps_receiverCandidates s, ps_thrown s)"

definition hash_step_ok :: "OutgoingHashRegistry \<Rightarrow> preflight \<Rightarrow> preflight \<Rightarrow> bool" where
  "hash_step_ok out s t \<longleftrightarrow> decisions t = decisions s \<and> (pre_inv out s \<longrightarrow> pre_inv out t)"

lemma hash_step_refl [simp]: "hash_step_ok out s s"
  by (simp add: hash_step_ok_def)

lemma hash_step_trans: "hash_step_ok out s t \<Longrightarrow> hash_step_ok out t u \<Longrightarrow> hash_step_ok out s u"
  by (simp add: hash_step_ok_def)

lemma hash_step_fold:
  "(\<And>x s. x \<in> set xs \<Longrightarrow> hash_step_ok out s (f x s)) \<Longrightarrow> hash_step_ok out s (fold f xs s)"
  by (induction xs arbitrary: s) (auto intro: hash_step_trans)

lemma hash_step_simps [simp]:
  "hash_step_ok out s (upd_metrics f t) = hash_step_ok out s t"
  "hash_step_ok out s (emit stage n t) = hash_step_ok out s t"
  "hash_step_ok out s (add_failure t) = hash_step_ok out s t"
  "hash_step_ok out s (t\<lparr>ps_readings := k\<rparr>) = hash_step_ok out s t"
  "hash_step_ok out s (t\<lparr>ps_completed := k\<rparr>) = hash_step_ok out s t"
  "hash_step_ok out s (t\<lparr>ps_hashedIds := ids\<rparr>) = hash_step_ok out s t"
  "hash_step_ok out s (t\<lparr>ps_failCodes := m\<rparr>) = hash_step_ok out s t"
  by (simp_all add: hash_step_ok_def decisions_def prim_defs pre_inv_def)

lemma store_hash_step: "hash_ok r \<Longrightarrow> hash_step_ok out s (store_hash r s)"
  by (cases r) (auto simp: hash_step_ok_def decisions_def pre_inv_def is_sha256_def)

lemma record_hash_step: "hash_step_ok out s (record_hash_result m r s)"
  by (simp add: record_hash_result_def Let_def split: option.splits NativeHashResult.splits)

lemma recordHashResults_step: "hash_step_ok out s (recordHashResults rs requests s)"
  unfolding recordHashResults_def
  by (rule hash_step_trans [of _ _ "upd_metrics f s" for f]) (simp, rule hash_step_fold, rule record_hash_step)

lemma hash_unavailable_step: "hash_step_ok out s (hash_unavailable batch s)"
  unfolding hash_unavailable_def
  by (rule hash_step_trans [of _ _ "add_failure s"]) (simp, rule hash_step_fold, simp)

lemma store_hashes_step: "list_all hash_ok rs \<Longrightarrow> hash_step_ok out s (fold store_hash rs s)"
  by (rule hash_step_fold) (simp add: store_hash_step list_all_iff)

lemma map_fold_values:
  "map_get (fold (\<lambda>(k, v). map_set k v) es m) k = Some v \<Longrightarrow> (k, v) \<in> set es \<or> map_get m k = Some v"
  by (induction es arbitrary: m) (fastforce split: if_splits)+

lemma map_from_values: "map_get (map_from entries) k = Some v \<Longrightarrow> (k, v) \<in> set entries"
  using map_fold_values [of entries "[]" k v] by (simp add: map_from_def)

lemma merged_hash_ok:
  assumes "list_all hash_ok rs" and "list_all hash_ok rs'"
  shows "list_all hash_ok (map (\<lambda>r. case map_get (map_from (map (\<lambda>r. (hash_variantId r, r)) rs')) (hash_variantId r) of
           Some r' \<Rightarrow> r' | None \<Rightarrow> r) rs)"
  using assms by (auto simp: list_all_iff split: option.splits dest!: map_from_values)

lemma hash_try_step:
  assumes "hash_valid hashFiles"
  shows "hash_step_ok out s (hash_try hashFiles i batch s)"
proof (cases "hashFiles i False (hash_requests batch)")
  case (Inl e)
  then show ?thesis by (simp add: hash_try_def hash_unavailable_step)
next
  case (Inr rs)
  let ?s1 = "recordHashResults rs (hash_requests batch) s"
  let ?ids = "map hash_variantId (filter is_changed rs)"
  let ?again = "filter (\<lambda>request. nhq_variantId request \<in> set ?ids) (hash_requests batch)"
  have rs: "list_all hash_ok rs" using assms Inr unfolding hash_valid_def by blast
  have s1: "hash_step_ok out s ?s1" by (rule recordHashResults_step)
  show ?thesis
  proof (cases "hashFiles i True ?again")
    case (Inl e)
    with Inr s1 rs show ?thesis
      by (auto simp: hash_try_def Let_def intro: hash_step_trans store_hashes_step hash_unavailable_step)
  next
    case again: (Inr rs')
    then have "list_all hash_ok rs'" using assms unfolding hash_valid_def by blast
    with rs have "hash_step_ok out (recordHashResults rs' ?again ?s1) (fold store_hash
        (map (\<lambda>r. case map_get (map_from (map (\<lambda>r. (hash_variantId r, r)) rs')) (hash_variantId r) of
            Some r' \<Rightarrow> r' | None \<Rightarrow> r) rs) (recordHashResults rs' ?again ?s1))"
      by (intro store_hashes_step merged_hash_ok)
    then have retried: "hash_step_ok out s (fold store_hash
        (map (\<lambda>r. case map_get (map_from (map (\<lambda>r. (hash_variantId r, r)) rs')) (hash_variantId r) of
            Some r' \<Rightarrow> r' | None \<Rightarrow> r) rs) (recordHashResults rs' ?again ?s1))"
      using hash_step_trans [OF s1 recordHashResults_step] hash_step_trans by blast
    have plain: "hash_step_ok out s (fold store_hash rs ?s1)"
      using hash_step_trans [OF s1 store_hashes_step [OF rs]] .
    show ?thesis
      unfolding hash_try_def Let_def Inr sum.case again using retried plain by (simp split: if_split)
  qed
qed

lemma preflight_hashing_step:
  assumes "hash_valid hashFiles"
  shows "hash_step_ok out s (preflight_hashing now hashFiles fileInfos s)"
proof -
  have batch: "hash_step_ok out t (hash_batch hashFiles n ib t)" for n ib t
    by (simp add: hash_batch_def Let_def hash_try_step assms)
  have "hash_step_ok out t (fold (hash_batch hashFiles n) bs t)" for n bs t
    by (rule hash_step_fold) (rule batch)
  then have "hash_step_ok out s t \<Longrightarrow> hash_step_ok out s (fold (hash_batch hashFiles n) bs t)" for n bs t
    by (blast intro: hash_step_trans)
  then show ?thesis by (simp add: preflight_hashing_def Let_def)
qed

subsection \<open>Lemmas: the verification phase\<close>

definition verify_ok ::
  "OutgoingHashRegistry \<Rightarrow> (string, string) jsmap \<Rightarrow> string list \<Rightarrow> string set \<Rightarrow> preflight \<Rightarrow> bool" where
  "verify_ok out hashes candidates ids s \<longleftrightarrow>
     pre_inv out s \<and> ps_hashes s = hashes \<and> ps_receiverCandidates s = candidates \<and>
     (ps_thrown s = None \<longrightarrow> (\<forall>i \<in> ids. decided s i))"

lemma pre_inv_receiver [simp]: "pre_inv out s \<Longrightarrow> pre_inv out (set_source i Receiver_preflight s)"
  by (auto simp: pre_inv_def prim_defs)

lemma pre_inv_matched [simp]: "pre_inv out (set_matched i fn s) = pre_inv out s"
  by (simp add: pre_inv_def prim_defs)

lemma verify_result_fields:
  "pre_inv out s \<Longrightarrow> pre_inv out (verify_result r s)"
  "decided (verify_result r s) i \<longleftrightarrow> i = pfr_id r \<or> decided s i"
  "ps_hashes (verify_result r s) = ps_hashes s"
  "ps_receiverCandidates (verify_result r s) = ps_receiverCandidates s"
  "ps_thrown (verify_result r s) = ps_thrown s"
  by (auto simp: verify_result_def Let_def split: option.splits)

lemma verify_results_fields:
  "pre_inv out s \<Longrightarrow> pre_inv out (fold verify_result rs s)"
  "decided (fold verify_result rs s) i \<longleftrightarrow> i \<in> pfr_id ` set rs \<or> decided s i"
  "ps_hashes (fold verify_result rs s) = ps_hashes s"
  "ps_receiverCandidates (fold verify_result rs s) = ps_receiverCandidates s"
  "ps_thrown (fold verify_result rs s) = ps_thrown s"
  by (induction rs arbitrary: s) (auto simp: verify_result_fields)

lemma verify_fallbacks:
  "pre_inv out s \<Longrightarrow> pre_inv out (fold (verify_fallback ids) batch s)"
  "decided (fold (verify_fallback ids) batch s) i \<longleftrightarrow> i \<in> pff_id ` set batch - set ids \<or> decided s i"
  "ps_hashes (fold (verify_fallback ids) batch s) = ps_hashes s"
  "ps_receiverCandidates (fold (verify_fallback ids) batch s) = ps_receiverCandidates s"
  "ps_thrown (fold (verify_fallback ids) batch s) = ps_thrown s"
  by (induction batch arbitrary: s) (auto simp: verify_fallback_def)

lemma verify_batch_ok:
  assumes "verify_ok out hashes candidates ids s"
  shows "verify_ok out hashes candidates (ids \<union> pff_id ` set (snd ib)) (verify_batch verify n ib s)"
proof (cases "ps_thrown s")
  case None
  show ?thesis
  proof (cases "verify (fst ib) (snd ib)")
    case (Inl e)
    show ?thesis
    proof (cases "isUnauthorizedError e")
      case True
      with Inl None assms show ?thesis
        by (simp add: verify_batch_def verify_ok_def Let_def)
    next
      case False
      with Inl None assms show ?thesis
        by (auto simp: verify_batch_def verify_ok_def Let_def fold_upload_has decided_fold_upload
            intro!: pre_inv_fold_upload)
    qed
  next
    case (Inr rs)
    with None assms show ?thesis
      by (auto simp: verify_batch_def verify_ok_def Let_def verify_fallbacks verify_results_fields)
  qed
next
  case (Some e)
  with assms show ?thesis by (simp add: verify_batch_def verify_ok_def)
qed

lemma verify_batches_ok:
  "verify_ok out hashes candidates ids s \<Longrightarrow>
    verify_ok out hashes candidates (ids \<union> (\<Union>b \<in> set bs. pff_id ` set (snd b)))
      (fold (verify_batch verify n) bs s)"
proof (induction bs arbitrary: ids s)
  case (Cons b bs)
  have "verify_ok out hashes candidates (ids \<union> pff_id ` set (snd b)) (verify_batch verify n b s)"
    using Cons.prems by (rule verify_batch_ok)
  from Cons.IH [OF this] show ?case by (simp add: Un_assoc)
qed simp

lemma unhashed_uploads:
  "pre_inv out s \<Longrightarrow> pre_inv out (fold unhashed_upload cs s)"
  "decided (fold unhashed_upload cs s) i \<longleftrightarrow> decided s i \<or> i \<in> set cs \<and> \<not> map_has (ps_hashes s) i"
  "ps_hashes (fold unhashed_upload cs s) = ps_hashes s"
  "ps_thrown (fold unhashed_upload cs s) = ps_thrown s"
  by (induction cs arbitrary: s) (auto simp: unhashed_upload_def)

lemma map_from_has: "x \<in> set xs \<Longrightarrow> map_get (map_from (map (\<lambda>x. (key x, x)) xs)) (key x) \<noteq> None"
  unfolding map_from_conv fold_map comp_def fst_conv snd_conv map_get_fold_set
  by (auto split: list.splits simp: filter_empty_conv)

lemma payload_ids:
  assumes "f \<in> set fileInfos" and "puf_variantId f \<in> set (ps_receiverCandidates s)"
    and "map_has (ps_hashes s) (puf_variantId f)" and "pre_inv out s"
  shows "puf_variantId f \<in> pff_id ` set (verification_payload
           (map_from (map (\<lambda>file. (puf_variantId file, file)) fileInfos)) s)"
proof -
  let ?m = "map_from (map (\<lambda>file. (puf_variantId file, file)) fileInfos)"
  obtain g where g: "map_get ?m (puf_variantId f) = Some g"
    using map_from_has [OF assms(1), of puf_variantId] by blast
  obtain h where h: "map_get (ps_hashes s) (puf_variantId f) = Some h"
    using assms(3) by (auto simp: map_has_def)
  moreover have "h \<noteq> []" using assms(4) h by (auto simp: pre_inv_def)
  ultimately have "\<lparr>pff_id = puf_variantId f, pff_name = puf_transferFilename g, pff_size = puf_size g,
      pvf_sha256 = h\<rparr> \<in> set (verification_payload ?m s)"
    using assms(2) g by (auto simp: verification_payload_def List.map_filter_def image_iff
        intro!: bexI [of _ "puf_variantId f"])
  then show ?thesis by (force simp: image_iff)
qed

lemma verify_all_ok:
  assumes "verify_ok out hashes candidates ids s"
  shows "verify_ok out hashes candidates (ids \<union> pff_id ` set payload) (verify_all verify payload s)"
proof -
  have "verify_ok out hashes candidates ids
      (if payload \<noteq> [] then emit Verifying_windows (length payload) s else s)"
    using assms by (simp add: verify_ok_def)
  from verify_batches_ok [OF this, of "enumerate 0 (chunks PREFLIGHT_BATCH_SIZE payload)" verify "length payload"]
  show ?thesis
    unfolding verify_all_def by (simp only: union_enumerate_chunks PREFLIGHT_BATCH_SIZE_def zero_less_numeral)
qed

lemma finish_verification_ok:
  "pre_inv out s \<Longrightarrow> pre_inv out (finish_verification now t0 payload s)"
  "decided (finish_verification now t0 payload s) i \<longleftrightarrow>
     decided s i \<or> i \<in> set (ps_receiverCandidates s) \<and> \<not> map_has (ps_hashes s) i"
  "ps_hashes (finish_verification now t0 payload s) = ps_hashes s"
  "ps_thrown (finish_verification now t0 payload s) = ps_thrown s"
  by (simp_all add: finish_verification_def Let_def unhashed_uploads)

lemma preflight_verification_ok:
  assumes inv: "pre_inv out s" and t: "t = preflight_verification now verify fileInfos s"
  shows "pre_inv out t \<and> ps_hashes t = ps_hashes s \<and>
    (ps_thrown t = None \<longrightarrow> (\<forall>f \<in> set fileInfos. map_has (ps_results s) (puf_variantId f) \<longrightarrow>
       decided t (puf_variantId f)))"
proof -
  define payload where
    "payload = verification_payload (map_from (map (\<lambda>file. (puf_variantId file, file)) fileInfos)) s"
  define s1 where
    "s1 = verify_all verify payload (s\<lparr>ps_readings := ps_readings s + 1, ps_completed := 0\<rparr>)"
  have t1: "t = (if ps_thrown s1 \<noteq> None then s1 else finish_verification now (now (ps_readings s)) payload s1)"
    by (simp add: t preflight_verification_def Let_def payload_def s1_def)
  have s1: "verify_ok out (ps_hashes s) (ps_receiverCandidates s) ({i. decided s i} \<union> pff_id ` set payload) s1"
    unfolding s1_def using inv by (intro verify_all_ok) (simp add: verify_ok_def)
  have "decided s1 (puf_variantId f) \<or> puf_variantId f \<in> set (ps_receiverCandidates s) \<and>
      \<not> map_has (ps_hashes s) (puf_variantId f)"
    if "ps_thrown s1 = None" and f: "f \<in> set fileInfos" and has: "map_has (ps_results s) (puf_variantId f)" for f
  proof (cases "decided s (puf_variantId f)")
    case True
    then show ?thesis using s1 that(1) by (simp add: verify_ok_def)
  next
    case False
    obtain a where a: "map_get (ps_results s) (puf_variantId f) = Some a"
      using has by (auto simp: map_has_def)
    with False have "a = Hash_required" by (cases a) (simp_all add: decided_def)
    then have "puf_variantId f \<in> set (ps_receiverCandidates s)" using inv a by (simp add: pre_inv_def)
    then show ?thesis
      using payload_ids [OF f _ _ inv] s1 that(1) by (auto simp: verify_ok_def payload_def)
  qed
  then show ?thesis using s1 by (auto simp: t1 verify_ok_def finish_verification_ok)
qed

subsection \<open>Lemmas: duplicates within the selection\<close>

abbreviation ids_of :: "PreparedUploadFile list \<Rightarrow> string set" where
  "ids_of grp \<equiv> puf_variantId ` set grp"

lemma skip_files_fields:
  "map_get (ps_results (fold (skip_file fn src) fs s)) i =
     (if i \<in> ids_of fs then Some Skip else map_get (ps_results s) i)"
  "map_get (ps_sources (fold (skip_file fn src) fs s)) i =
     (if i \<in> ids_of fs then Some src else map_get (ps_sources s) i)"
  "ps_hashes (fold (skip_file fn src) fs s) = ps_hashes s"
  "ps_outgoing (fold (skip_file fn src) fs s) = ps_outgoing s"
  "ps_thrown (fold (skip_file fn src) fs s) = ps_thrown s"
  by (induction fs arbitrary: s) (auto simp: skip_file_def prim_defs)

lemma file_hash_Some: "file_hash s g = h \<Longrightarrow> h \<noteq> [] \<Longrightarrow> map_get (ps_hashes s) (puf_variantId g) = Some h"
  by (auto simp: file_hash_def split: option.splits)

lemma file_hash_cong: "ps_hashes s = ps_hashes t \<Longrightarrow> file_hash s f = file_hash t f"
  by (simp add: file_hash_def)

lemma skip_file_outgoing:
  "skip_file fn src f (s\<lparr>ps_outgoing := m\<rparr>) = (skip_file fn src f s)\<lparr>ps_outgoing := m\<rparr>"
  by (simp add: skip_file_def prim_defs)

lemma skip_files_outgoing:
  "fold (skip_file fn src) fs (s\<lparr>ps_outgoing := m\<rparr>) = (fold (skip_file fn src) fs s)\<lparr>ps_outgoing := m\<rparr>"
  by (induction fs arbitrary: s) (simp_all add: skip_file_outgoing)

text \<open>Resolving a group skips some of its files with one reason and changes one registry entry.\<close>

lemma resolve_group_form:
  "\<exists>fn src fs m. resolve_group (c # ds) s = (fold (skip_file fn src) fs s)\<lparr>ps_outgoing := m\<rparr> \<and>
     set fs \<subseteq> set (c # ds) \<and>
     (\<forall>h. h \<noteq> file_hash s c \<longrightarrow> map_get m h = map_get (ps_outgoing s) h) \<and>
     (src = Outgoing_selection \<longrightarrow> map_get (ps_outgoing s) (file_hash s c) \<noteq> None \<or> fs = ds)"
proof -
  define rm where "rm = (case first_match s (c # ds) of Some f \<Rightarrow> f
    | None \<Rightarrow> (case map_get (ps_outgoing s) (file_hash s c) of
        Some e \<Rightarrow> (case og_receiverMatch e of Some f \<Rightarrow> f | None \<Rightarrow> []) | None \<Rightarrow> []))"
  consider "file_hash s c = []" | "file_hash s c \<noteq> []" "rm \<noteq> []"
    | e where "file_hash s c \<noteq> []" "rm = []" "map_get (ps_outgoing s) (file_hash s c) = Some e"
    | "file_hash s c \<noteq> []" "rm = []" "map_get (ps_outgoing s) (file_hash s c) = None"
    by fastforce
  then show ?thesis
  proof cases
    case 1
    then show ?thesis
      by (intro exI [of _ "[]"] exI [of _ Receiver_preflight] exI [of _ "ps_outgoing s"])
        (simp add: resolve_group_def)
  next
    case 2
    let ?m = "map_set (file_hash s c)
      \<lparr>og_transferFilename = (case map_get (ps_outgoing s) (file_hash s c) of
           Some e \<Rightarrow> og_transferFilename e | None \<Rightarrow> puf_transferFilename c),
       og_receiverMatch = Some rm\<rparr> (ps_outgoing s)"
    have "resolve_group (c # ds) s = (fold (skip_file rm Receiver_preflight) (c # ds) s)\<lparr>ps_outgoing := ?m\<rparr>"
      using 2 unfolding resolve_group_def list.case Let_def rm_def [symmetric]
      by (simp only: skip_files_fields if_False if_True not_False_eq_True)
    then show ?thesis
      by (intro exI [of _ rm] exI [of _ Receiver_preflight] exI [of _ "c # ds"] exI [of _ ?m] conjI) auto
  next
    case (3 e)
    then have "resolve_group (c # ds) s = (fold (skip_file (og_transferFilename e) Outgoing_selection) (c # ds) s)
        \<lparr>ps_outgoing := ps_outgoing s\<rparr>"
      unfolding resolve_group_def list.case Let_def rm_def [symmetric]
      by (simp add: skip_files_outgoing [symmetric] skip_file_outgoing [symmetric])
    then show ?thesis
      using 3 by (intro exI [of _ "og_transferFilename e"] exI [of _ Outgoing_selection] exI [of _ "c # ds"]
          exI [of _ "ps_outgoing s"] conjI) auto
  next
    case 4
    let ?m = "map_set (file_hash s c)
      \<lparr>og_transferFilename = puf_transferFilename c, og_receiverMatch = None\<rparr> (ps_outgoing s)"
    have "resolve_group (c # ds) s =
        (fold (skip_file (puf_transferFilename c) Outgoing_selection) ds s)\<lparr>ps_outgoing := ?m\<rparr>"
      using 4 unfolding resolve_group_def list.case Let_def rm_def [symmetric]
      by (simp add: skip_files_outgoing)
    then show ?thesis
      by (intro exI [of _ "puf_transferFilename c"] exI [of _ Outgoing_selection] exI [of _ ds] exI [of _ ?m] conjI)
        auto
  qed
qed

lemma resolve_group_frame:
  "ps_hashes (resolve_group grp s) = ps_hashes s \<and>
   (i \<notin> ids_of grp \<longrightarrow>
      map_get (ps_results (resolve_group grp s)) i = map_get (ps_results s) i \<and>
      map_get (ps_sources (resolve_group grp s)) i = map_get (ps_sources s) i) \<and>
   (decided s i \<longrightarrow> decided (resolve_group grp s) i)"
proof (cases grp)
  case Nil
  then show ?thesis by (simp add: resolve_group_def)
next
  case (Cons c ds)
  from resolve_group_form [of c ds s] obtain fn src fs m where
    "resolve_group grp s = (fold (skip_file fn src) fs s)\<lparr>ps_outgoing := m\<rparr>" "set fs \<subseteq> set grp"
    unfolding Cons by blast
  then show ?thesis by (auto simp: skip_files_fields decided_def)
qed

lemma resolve_group_outside:
  "ps_hashes (resolve_group grp s) = ps_hashes s"
  "i \<notin> ids_of grp \<Longrightarrow> map_get (ps_results (resolve_group grp s)) i = map_get (ps_results s) i"
  "i \<notin> ids_of grp \<Longrightarrow> map_get (ps_sources (resolve_group grp s)) i = map_get (ps_sources s) i"
  "decided s i \<Longrightarrow> decided (resolve_group grp s) i"
  using resolve_group_frame by blast+

lemma resolve_group_outgoing:
  assumes "grp \<noteq> []" and "h \<noteq> file_hash s (hd grp)"
  shows "map_get (ps_outgoing (resolve_group grp s)) h = map_get (ps_outgoing s) h"
  using assms resolve_group_form [of "hd grp" "tl grp" s] by (auto simp: skip_files_fields)

lemma resolve_group_inside:
  assumes grp: "grp = c # ds" and "file_hash s c = h" and "distinct (map puf_variantId grp)"
    and old: "\<forall>f \<in> set grp. map_get (ps_sources s) (puf_variantId f) \<noteq> Some Outgoing_selection"
    and f: "f \<in> set grp"
    and src: "map_get (ps_sources (resolve_group grp s)) (puf_variantId f) = Some Outgoing_selection"
  shows "map_get (ps_results (resolve_group grp s)) (puf_variantId f) = Some Skip \<and>
    (map_get (ps_outgoing s) h \<noteq> None \<or>
     f \<noteq> c \<and> map_get (ps_sources (resolve_group grp s)) (puf_variantId c) \<noteq> Some Outgoing_selection)"
proof -
  from resolve_group_form [of c ds s] obtain fn src' fs m where
    g: "resolve_group grp s = (fold (skip_file fn src') fs s)\<lparr>ps_outgoing := m\<rparr>" "set fs \<subseteq> set grp"
    "src' = Outgoing_selection \<longrightarrow> map_get (ps_outgoing s) h \<noteq> None \<or> fs = ds"
    unfolding grp \<open>file_hash s c = h\<close> by blast
  with src old f have "puf_variantId f \<in> ids_of fs" "src' = Outgoing_selection"
    by (auto simp: skip_files_fields split: if_splits)
  moreover have "puf_variantId c \<notin> ids_of ds" using assms(3) grp by auto
  ultimately show ?thesis using g old f grp by (auto simp: skip_files_fields)
qed

definition group_wf :: "preflight \<Rightarrow> string \<times> PreparedUploadFile list \<Rightarrow> bool" where
  "group_wf s hg \<longleftrightarrow>
     snd hg \<noteq> [] \<and> fst hg \<noteq> [] \<and> (\<forall>f \<in> set (snd hg). file_hash s f = fst hg) \<and>
     distinct (map puf_variantId (snd hg))"

text \<open>What holds after the groups \<open>gs\<close> were resolved, starting from \<open>s0\<close>.\<close>

definition resolved ::
  "preflight \<Rightarrow> (string \<times> PreparedUploadFile list) list \<Rightarrow> preflight \<Rightarrow> bool" where
  "resolved s0 gs s \<longleftrightarrow>
     ps_hashes s = ps_hashes s0 \<and>
     (\<forall>i. i \<notin> (\<Union>hg \<in> set gs. ids_of (snd hg)) \<longrightarrow> map_get (ps_sources s) i = map_get (ps_sources s0) i) \<and>
     (\<forall>h. h \<notin> fst ` set gs \<longrightarrow> map_get (ps_outgoing s) h = map_get (ps_outgoing s0) h) \<and>
     (\<forall>hg \<in> set gs. \<forall>f \<in> set (snd hg).
        map_get (ps_sources s) (puf_variantId f) = Some Outgoing_selection \<longrightarrow>
        map_get (ps_results s) (puf_variantId f) = Some Skip \<and>
        (map_get (ps_outgoing s0) (fst hg) \<noteq> None \<or>
         f \<noteq> hd (snd hg) \<and>
         map_get (ps_sources s) (puf_variantId (hd (snd hg))) \<noteq> Some Outgoing_selection))"

lemma group_wf_disjoint:
  "group_wf s (h, g) \<Longrightarrow> group_wf s (h', g') \<Longrightarrow> h \<noteq> h' \<Longrightarrow> ids_of g \<inter> ids_of g' = {}"
  by (auto simp: group_wf_def file_hash_def)

lemma resolved_step:
  assumes r: "resolved s0 gs s" and wf: "\<forall>hg \<in> set (gs @ [(h, g)]). group_wf s0 hg"
    and fresh: "h \<notin> fst ` set gs"
    and none: "\<forall>i. map_get (ps_sources s0) i \<noteq> Some Outgoing_selection"
  shows "resolved s0 (gs @ [(h, g)]) (resolve_group g s)"
proof -
  obtain c ds where g: "g = c # ds" using wf by (cases g) (auto simp: group_wf_def)
  have hc: "file_hash s c = h"
    using wf r g by (auto simp: group_wf_def resolved_def file_hash_cong [of s s0])
  have disj: "ids_of (snd hg) \<inter> ids_of g = {}" if "hg \<in> set gs" for hg
    using that wf fresh group_wf_disjoint [of s0 "fst hg" "snd hg" h g] by (force simp: image_iff)
  have new: "i \<in> ids_of g \<Longrightarrow> map_get (ps_sources s) i = map_get (ps_sources s0) i" for i
  proof -
    assume "i \<in> ids_of g"
    with disj have "i \<notin> (\<Union>hg \<in> set gs. ids_of (snd hg))" by blast
    with r show "map_get (ps_sources s) i = map_get (ps_sources s0) i" unfolding resolved_def by blast
  qed
  have out: "map_get (ps_outgoing s) h = map_get (ps_outgoing s0) h"
    using r fresh unfolding resolved_def by blast
  have inside: "map_get (ps_results (resolve_group g s)) (puf_variantId f) = Some Skip \<and>
      (map_get (ps_outgoing s0) h \<noteq> None \<or>
       f \<noteq> hd g \<and> map_get (ps_sources (resolve_group g s)) (puf_variantId (hd g)) \<noteq> Some Outgoing_selection)"
    if "f \<in> set g" "map_get (ps_sources (resolve_group g s)) (puf_variantId f) = Some Outgoing_selection" for f
    using resolve_group_inside [OF g hc _ _ that] wf new none out
    by (simp add: group_wf_def) (simp add: g)
  have keep: "map_get (ps_sources (resolve_group g s)) (puf_variantId f) = map_get (ps_sources s) (puf_variantId f)"
    "map_get (ps_results (resolve_group g s)) (puf_variantId f) = map_get (ps_results s) (puf_variantId f)"
    if "hg \<in> set gs" "f \<in> set (snd hg)" for hg f
    using disj [OF that(1)] that(2) by (auto intro!: resolve_group_outside)
  have hd_in: "hd (snd hg) \<in> set (snd hg)" if "hg \<in> set gs" for hg
    using wf that by (auto simp: group_wf_def)
  show ?thesis
    unfolding resolved_def
  proof (intro conjI ballI allI impI)
    show "ps_hashes (resolve_group g s) = ps_hashes s0"
      using r by (simp add: resolved_def resolve_group_outside)
  next
    fix i assume "i \<notin> (\<Union>hg \<in> set (gs @ [(h, g)]). ids_of (snd hg))"
    then show "map_get (ps_sources (resolve_group g s)) i = map_get (ps_sources s0) i"
      using r by (auto simp: resolved_def resolve_group_outside)
  next
    fix h' assume "h' \<notin> fst ` set (gs @ [(h, g)])"
    then show "map_get (ps_outgoing (resolve_group g s)) h' = map_get (ps_outgoing s0) h'"
      using r hc g by (auto simp: resolved_def resolve_group_outgoing)
  next
    fix hg f
    assume hg: "hg \<in> set (gs @ [(h, g)])" and f: "f \<in> set (snd hg)"
      and src: "map_get (ps_sources (resolve_group g s)) (puf_variantId f) = Some Outgoing_selection"
    have goal: "map_get (ps_results (resolve_group g s)) (puf_variantId f) = Some Skip \<and>
      (map_get (ps_outgoing s0) (fst hg) \<noteq> None \<or>
       f \<noteq> hd (snd hg) \<and>
       map_get (ps_sources (resolve_group g s)) (puf_variantId (hd (snd hg))) \<noteq> Some Outgoing_selection)"
    proof (cases "hg \<in> set gs")
      case True
      with r f src keep [OF True] hd_in [OF True] show ?thesis unfolding resolved_def by metis
    next
      case False
      with hg have "hg = (h, g)" by auto
      with inside f src show ?thesis by simp
    qed
    from goal show "map_get (ps_results (resolve_group g s)) (puf_variantId f) = Some Skip"
      and "map_get (ps_outgoing s0) (fst hg) \<noteq> None \<or>
       f \<noteq> hd (snd hg) \<and>
       map_get (ps_sources (resolve_group g s)) (puf_variantId (hd (snd hg))) \<noteq> Some Outgoing_selection"
      by blast+
  qed
qed

lemma resolved_run:
  assumes "\<forall>hg \<in> set gs. group_wf s0 hg" and "distinct (map fst gs)"
    and "\<forall>i. map_get (ps_sources s0) i \<noteq> Some Outgoing_selection"
  shows "resolved s0 gs (fold (\<lambda>(h, grp). resolve_group grp) gs s0)"
  using assms
proof (induction gs rule: rev_induct)
  case Nil
  show ?case by (simp add: resolved_def)
next
  case (snoc hg gs)
  obtain h g where hg: "hg = (h, g)" by (cases hg)
  have "resolved s0 (gs @ [(h, g)]) (resolve_group g (fold (\<lambda>(h, grp). resolve_group grp) gs s0))"
    using snoc hg by (intro resolved_step) auto
  then show ?case by (simp add: hg)
qed

lemma group_push_keys: "fst ` set (group_push k x m) = insert k (fst ` set m)"
  by (auto simp: group_push_def dom_map_of_conv_image_fst [symmetric] domIff)

lemma fold_group_keys: "fst ` set (fold (\<lambda>x. group_push (key x) x) xs m) = fst ` set m \<union> key ` set xs"
  by (induction xs arbitrary: m) (auto simp: group_push_keys)

lemma fold_group_distinct:
  "distinct (map fst m) \<Longrightarrow> distinct (map fst (fold (\<lambda>x. group_push (key x) x) xs m))"
  by (induction xs arbitrary: m) (simp_all add: group_push_def distinct_update)

lemma fold_group_entry:
  assumes "(k, g) \<in> set (fold (\<lambda>x. group_push (key x) x) xs [])"
  shows "g = filter (\<lambda>x. key x = k) xs \<and> k \<in> key ` set xs"
proof -
  let ?m = "fold (\<lambda>x. group_push (key x) x) xs []"
  have "map_of ?m k = Some g"
    using assms by (intro map_of_is_SomeI fold_group_distinct) simp_all
  then have "g = group_of ?m k" by (simp add: group_of_def)
  then show ?thesis
    using js_groups.look_fold_add [of key xs "[]" k] fold_group_keys [of key xs "[]"] assms
    by (force simp: image_iff)
qed

lemma files_by_hash_wf:
  assumes "distinct (map puf_variantId fileInfos)"
  shows "\<forall>hg \<in> set (files_by_hash fileInfos s). group_wf s hg"
    and "distinct (map fst (files_by_hash fileInfos s))"
proof -
  let ?fs = "filter (\<lambda>file. file_hash s file \<noteq> []) fileInfos"
  show "distinct (map fst (files_by_hash fileInfos s))"
    unfolding files_by_hash_def by (rule fold_group_distinct) simp
  have "distinct (map puf_variantId (filter P fileInfos))" for P
    using assms by (rule distinct_map_filter)
  then show "\<forall>hg \<in> set (files_by_hash fileInfos s). group_wf s hg"
    unfolding files_by_hash_def
    by (auto dest!: fold_group_entry simp: group_wf_def filter_empty_conv)
qed

lemma file_in_group:
  assumes "f \<in> set fileInfos" and "file_hash s f \<noteq> []"
  shows "\<exists>g. (file_hash s f, g) \<in> set (files_by_hash fileInfos s) \<and> f \<in> set g \<and> set g \<subseteq> set fileInfos"
proof -
  let ?fs = "filter (\<lambda>file. file_hash s file \<noteq> []) fileInfos"
  have "file_hash s f \<in> fst ` set (files_by_hash fileInfos s)"
    using assms by (auto simp: files_by_hash_def fold_group_keys)
  then obtain g where g: "(file_hash s f, g) \<in> set (files_by_hash fileInfos s)" by auto
  then have "g = filter (\<lambda>x. file_hash s x = file_hash s f) ?fs"
    unfolding files_by_hash_def by (blast dest: fold_group_entry)
  with g assms show ?thesis by auto
qed

lemma resolve_duplicates_decided: "decided s i \<Longrightarrow> decided (resolve_duplicates fileInfos s) i"
proof -
  have "decided t i \<Longrightarrow> decided (fold (\<lambda>(h, grp). resolve_group grp) gs t) i" for gs t
    by (induction gs arbitrary: t) (auto simp: resolve_group_outside(4))
  then show "decided s i \<Longrightarrow> decided (resolve_duplicates fileInfos s) i"
    by (simp add: resolve_duplicates_def)
qed

lemma capture_fields [simp]:
  "ps_results (captureOutcomeMetrics fs s) = ps_results s"
  "ps_sources (captureOutcomeMetrics fs s) = ps_sources s"
  "ps_hashes (captureOutcomeMetrics fs s) = ps_hashes s"
  "decided (captureOutcomeMetrics fs s) i = decided s i"
proof -
  have "ps_results (captureOutcomeMetrics fs s) = ps_results s \<and>
    ps_sources (captureOutcomeMetrics fs s) = ps_sources s \<and>
    ps_hashes (captureOutcomeMetrics fs s) = ps_hashes s"
    unfolding captureOutcomeMetrics_def
    by (rule fold_invariant [where Q = "\<lambda>_. True"]) (simp_all add: Let_def upd_metrics_def)
  then show "ps_results (captureOutcomeMetrics fs s) = ps_results s"
    "ps_sources (captureOutcomeMetrics fs s) = ps_sources s"
    "ps_hashes (captureOutcomeMetrics fs s) = ps_hashes s"
    "decided (captureOutcomeMetrics fs s) i = decided s i"
    by (simp_all add: decided_def)
qed

text \<open>An outgoing duplicate after the resolution, with its reason.\<close>

lemma resolve_duplicates_reason:
  assumes "distinct (map puf_variantId fileInfos)" and "pre_inv out s" and f: "f \<in> set fileInfos"
    and src: "map_get (ps_sources (resolve_duplicates fileInfos s)) (puf_variantId f) = Some Outgoing_selection"
  defines "t \<equiv> resolve_duplicates fileInfos s" and "h \<equiv> file_hash s f"
  shows "h \<noteq> [] \<and> ps_hashes t = ps_hashes s \<and> map_get (ps_results t) (puf_variantId f) = Some Skip \<and>
    (map_get out h \<noteq> None \<or>
     (\<exists>g \<in> set fileInfos. file_hash s g = h \<and> puf_variantId g \<noteq> puf_variantId f \<and>
        map_get (ps_sources t) (puf_variantId g) \<noteq> Some Outgoing_selection))"
proof -
  let ?gs = "files_by_hash fileInfos s"
  have none: "\<forall>i. map_get (ps_sources s) i \<noteq> Some Outgoing_selection" and out: "ps_outgoing s = out"
    using assms(2) by (auto simp: pre_inv_def)
  have r: "resolved s ?gs t"
    unfolding t_def resolve_duplicates_def
    using files_by_hash_wf [OF assms(1)] none by (intro resolved_run)
  have "puf_variantId f \<in> (\<Union>hg \<in> set ?gs. ids_of (snd hg))"
  proof (rule ccontr)
    assume "puf_variantId f \<notin> (\<Union>hg \<in> set ?gs. ids_of (snd hg))"
    then have "map_get (ps_sources t) (puf_variantId f) = map_get (ps_sources s) (puf_variantId f)"
      using r unfolding resolved_def by blast
    with src none show False unfolding t_def by simp
  qed
  then obtain hg f' where hg: "hg \<in> set ?gs" "f' \<in> set (snd hg)" "puf_variantId f' = puf_variantId f" by auto
  then have "group_wf s hg" using files_by_hash_wf(1) [OF assms(1)] by blast
  then have h: "h \<noteq> []" using hg by (auto simp: group_wf_def h_def file_hash_def)
  then obtain g where g: "(h, g) \<in> set ?gs" "f \<in> set g" "set g \<subseteq> set fileInfos"
    using file_in_group [OF f] unfolding h_def by blast
  have wf: "group_wf s (h, g)" using g(1) files_by_hash_wf(1) [OF assms(1)] by blast
  have reason: "map_get (ps_results t) (puf_variantId f) = Some Skip \<and>
      (map_get out h \<noteq> None \<or>
       f \<noteq> hd g \<and> map_get (ps_sources t) (puf_variantId (hd g)) \<noteq> Some Outgoing_selection)"
    using r src g unfolding resolved_def t_def out by fastforce
  have "hd g \<in> set g" using g(2) by (cases g) auto
  moreover have "f \<noteq> hd g \<Longrightarrow> puf_variantId (hd g) \<noteq> puf_variantId f"
    using wf g(2) \<open>hd g \<in> set g\<close> by (auto simp: group_wf_def distinct_map dest: inj_onD)
  moreover have "hd g \<in> set fileInfos" "file_hash s (hd g) = h"
    using g(3) wf \<open>hd g \<in> set g\<close> by (auto simp: group_wf_def)
  moreover have "ps_hashes t = ps_hashes s" using r by (simp add: resolved_def)
  ultimately show ?thesis using reason h by blast
qed

subsection \<open>Lemmas: the whole window\<close>

text \<open>What a window that was not bypassed returns, in terms of its last state.\<close>

definition window_outcome ::
  "OutgoingHashRegistry \<Rightarrow> PreparedUploadFile list \<Rightarrow> thrown + PreflightResult \<Rightarrow> bool" where
  "window_outcome out fileInfos res \<longleftrightarrow>
     (case res of
        Inl e \<Rightarrow> isUnauthorizedError e
      | Inr r \<Rightarrow>
          (\<exists>s t. pre_inv out s \<and> (t = s \<or> t = resolve_duplicates fileInfos s) \<and>
             (\<forall>f \<in> set fileInfos. decided t (puf_variantId f)) \<and>
             pr_preflightResults r = ps_results t \<and> pr_duplicateSources r = ps_sources t \<and>
             pr_computedHashes r = ps_hashes t))"

lemma preflight_result_fields [simp]:
  "pr_preflightResults (preflight_result d c k s) = ps_results s"
  "pr_duplicateSources (preflight_result d c k s) = ps_sources s"
  "pr_computedHashes (preflight_result d c k s) = ps_hashes s"
  "ps_sources (upd_metrics f s) = ps_sources s"
  by (simp_all add: preflight_result_def upd_metrics_def)

lemma window_outcomeI:
  assumes "pre_inv out s" and "t = s \<or> t = resolve_duplicates fileInfos s"
    and "\<forall>f \<in> set fileInfos. decided t (puf_variantId f)"
  shows "window_outcome out fileInfos (Inr (preflight_result d c k (upd_metrics g (captureOutcomeMetrics fileInfos t))))"
  unfolding window_outcome_def sum.case
  by (rule exI [of _ s], rule exI [of _ t]) (simp add: assms)

lemma bypass_fields [simp]:
  "ps_sources (fold (\<lambda>f. set_result (key f) Upload) xs s) = ps_sources s"
  "ps_hashes (fold (\<lambda>f. set_result (key f) Upload) xs s) = ps_hashes s"
  "ps_failureCount (fold (\<lambda>f. set_result (key f) Upload) xs s) = ps_failureCount s"
  by (induction xs arbitrary: s) (simp_all add: set_result_def)

lemma window_outcome_run:
  assumes valid: "hash_valid hashFiles"
  shows "window_outcome out fileInfos
    (fst (runDuplicatePreflightWindow now check hashFiles verify native fileInfos True out))"
proof -
  define s1 where "s1 = preflight_metadata now check fileInfos (start_preflight fileInfos out)"
  define s2 where "s2 = s1\<lparr>ps_readings := ps_readings s1 + 1\<rparr>"
  define s3 where "s3 = preflight_hashing now hashFiles fileInfos s2"
  define s4 where "s4 = preflight_verification now verify fileInfos s3"
  have m: "pre_inv out s1" "ps_thrown s1 = None \<Longrightarrow> f \<in> set fileInfos \<Longrightarrow> map_has (ps_results s1) (puf_variantId f)" for f
    using preflight_metadata_ok [OF s1_def] by auto
  show ?thesis
  proof (cases "ps_thrown s1")
    case (Some e)
    with m show ?thesis
      by (simp add: runDuplicatePreflightWindow_def Let_def s1_def [symmetric] window_outcome_def pre_inv_def)
  next
    case None
    have inv2: "pre_inv out s2" using m(1) by (simp add: s2_def)
    have fields2: "ps_results s2 = ps_results s1" by (simp add: s2_def)
    show ?thesis
    proof (cases native)
      case False
      let ?t = "fold (\<lambda>i. set_result i Upload) (ps_receiverCandidates s2) s2"
      have t: "pre_inv out ?t" using pre_inv_fold_upload [OF inv2, of "\<lambda>i. i"] by simp
      have "decided ?t (puf_variantId f)" if f: "f \<in> set fileInfos" for f
      proof -
        obtain a where "map_get (ps_results s2) (puf_variantId f) = Some a"
          using m(2) [OF None f] by (auto simp: map_has_def fields2)
        then have "decided s2 (puf_variantId f) \<or> puf_variantId f \<in> set (ps_receiverCandidates s2)"
          using inv2 by (cases a) (auto simp: decided_def pre_inv_def)
        then show ?thesis using decided_fold_upload [of "\<lambda>i. i" "ps_receiverCandidates s2" s2] by auto
      qed
      moreover have "\<exists>d c k g. fst (runDuplicatePreflightWindow now check hashFiles verify native fileInfos True out) =
          Inr (preflight_result d c k (upd_metrics g (captureOutcomeMetrics fileInfos ?t)))"
        unfolding runDuplicatePreflightWindow_def Let_def s1_def [symmetric] s2_def [symmetric]
        by (simp add: None False) blast
      ultimately show ?thesis using window_outcomeI [OF t, of ?t] by auto
    next
      case True
      have h: "hash_step_ok out s2 s3" unfolding s3_def by (rule preflight_hashing_step [OF valid])
      then have inv3: "pre_inv out s3" "ps_results s3 = ps_results s1"
        using inv2 by (simp_all add: hash_step_ok_def decisions_def fields2)
      note v = preflight_verification_ok [OF inv3(1) s4_def]
      show ?thesis
      proof (cases "ps_thrown s4")
        case (Some e)
        with v None True show ?thesis
          unfolding runDuplicatePreflightWindow_def Let_def s1_def [symmetric] s2_def [symmetric]
            s3_def [symmetric] s4_def [symmetric] window_outcome_def
          by (simp add: pre_inv_def)
      next
        case none4: None
        have "decided (resolve_duplicates fileInfos s4) (puf_variantId f)" if "f \<in> set fileInfos" for f
          using v none4 m(2) [OF None that] that inv3(2) by (intro resolve_duplicates_decided) auto
        moreover have "\<exists>d c k g. fst (runDuplicatePreflightWindow now check hashFiles verify native fileInfos True out) =
            Inr (preflight_result d c k (upd_metrics g
              (captureOutcomeMetrics fileInfos (resolve_duplicates fileInfos s4))))"
          unfolding runDuplicatePreflightWindow_def Let_def s1_def [symmetric] s2_def [symmetric]
            s3_def [symmetric] s4_def [symmetric]
          by (simp add: none4 None True) blast
        ultimately show ?thesis using window_outcomeI [of out s4 "resolve_duplicates fileInfos s4"] v by auto
      qed
    qed
  qed
qed

subsection \<open>Properties\<close>

text \<open>
  C7. The preflight decides: for every behaviour of the receiver and every validated
  answer of the native hashing, a window that returns assigns to each of its files either
  upload or skip, never an open \<open>hash_required\<close>; and the only error it ever throws is an
  unauthorized answer of the receiver (any other failure leads to uploads).
\<close>

theorem preflight_decides:
  assumes "hash_valid hashFiles"
  shows "case fst (runDuplicatePreflightWindow now check hashFiles verify native fileInfos skipDuplicates out) of
           Inl e \<Rightarrow> isUnauthorizedError e
         | Inr r \<Rightarrow> \<forall>f \<in> set fileInfos.
             map_get (pr_preflightResults r) (puf_variantId f) \<in> {Some Upload, Some Skip}"
proof (cases skipDuplicates)
  case True
  with window_outcome_run [OF assms, of out fileInfos now check verify native] show ?thesis
    by (auto simp: window_outcome_def decided_def split: sum.splits)
next
  case False
  have "decided (fold (\<lambda>f. set_result (puf_variantId f) Upload) fileInfos (start_preflight fileInfos out))
      (puf_variantId f)" if "f \<in> set fileInfos" for f
    using that by (simp add: decided_fold_upload)
  with False show ?thesis
    by (simp add: runDuplicatePreflightWindow_def Let_def decided_def)
qed


text \<open>
  Switching duplicate checking off bypasses everything: every file is uploaded, the
  receiver is not asked, nothing is hashed, no progress is reported and the registry of
  outgoing hashes stays as it was.
\<close>

theorem preflight_bypass:
  "runDuplicatePreflightWindow now check hashFiles verify native fileInfos False out =
     runDuplicatePreflightWindow now check' hashFiles' verify' native' fileInfos False out \<and>
   (\<exists>r. runDuplicatePreflightWindow now check hashFiles verify native fileInfos False out = (Inr r, out, []) \<and>
      (\<forall>f \<in> set fileInfos. map_get (pr_preflightResults r) (puf_variantId f) = Some Upload) \<and>
      pr_computedHashes r = [] \<and> pr_failureCount r = 0 \<and>
      bypassedFiles (pr_metrics r) = real (length fileInfos))"
proof -
  have results: "i \<in> ids_of xs \<Longrightarrow>
      map_get (ps_results (fold (\<lambda>f. set_result (puf_variantId f) Upload) xs s)) i = Some Upload" for i xs s
  proof (induction xs arbitrary: s)
    case (Cons x xs)
    have "map_get (ps_results s) i = Some Upload \<Longrightarrow>
        map_get (ps_results (fold (\<lambda>f. set_result (puf_variantId f) Upload) xs s)) i = Some Upload" for s
      by (induction xs arbitrary: s) simp_all
    with Cons show ?case by auto
  qed simp
  then show ?thesis
    by (auto simp: runDuplicatePreflightWindow_def Let_def preflight_result_def upd_metrics_def
        start_preflight_def)
qed

text \<open>A concrete window for the evaluation of the properties: two files of one size.\<close>

definition example_asset :: MediaAsset where
  "example_asset = \<lparr>ma_id = ''a'', ma_uri = ''u'', ma_type = Photo, ma_duration = None,
     ma_modificationTime = 0, ma_width = 1, ma_height = 1, ma_filename = ''f''\<rparr>"

definition example_file :: "string \<Rightarrow> PreparedUploadFile" where
  "example_file i = \<lparr>puf_asset = example_asset, puf_variantId = i, puf_mediaRole = Original_photo,
     puf_componentSemantics = Primary, puf_originalFilename = i, puf_fileRef = 1, puf_windowIndex = 0,
     puf_nativeUri = i, puf_size = 5, puf_computedHash = [], puf_transferFilename = i,
     puf_filenameSource = Apple_resource, puf_temporary = True, puf_contentType = None,
     puf_materializationPath = None, puf_materializationDurationMs = None,
     puf_temporaryBytesWritten = None, puf_preflightAction = None, puf_duplicateMatchedFilename = None,
     puf_duplicateSource = None, puf_preflightFailureCode = None\<rparr>"

definition example_hash :: "nat \<Rightarrow> bool \<Rightarrow> NativeHashRequest list \<Rightarrow> string + NativeHashResult list" where
  "example_hash i again requests =
     Inr (map (\<lambda>r. Hash_success (nhq_variantId r) (replicate 64 CHR ''0'') \<lparr>hc_bytesRead = 5, hc_durationMs = 1\<rparr> False)
            (filter (\<lambda>r. nhq_variantId r \<noteq> []) requests))"

definition example_window :: "(thrown + PreflightResult) \<times> OutgoingHashRegistry \<times> DuplicateProgress list" where
  "example_window = runDuplicatePreflightWindow (\<lambda>n. 0) (\<lambda>i b. Inl (Thrown_error ''offline'')) example_hash
     (\<lambda>i b. Inl (Thrown_error ''offline'')) True [example_file ''p'', example_file ''q''] True []"

lemma example_hash_valid: "hash_valid example_hash"
  by (auto simp: hash_valid_def example_hash_def list_all_iff is_sha256_def is_hex_def)

lemma example_window_result:
  "map_option (\<lambda>r. (map_get (pr_preflightResults r) ''p'', map_get (pr_preflightResults r) ''q'',
       map_get (pr_duplicateSources r) ''q''))
     (case fst example_window of Inr r \<Rightarrow> Some r | Inl _ \<Rightarrow> None) =
   Some (Some Upload, Some Skip, Some Outgoing_selection)"
  by code_simp

theorem preflight_decides_witness:
  "\<exists>r. fst example_window = Inr r \<and>
       map_get (pr_preflightResults r) ''p'' \<in> {Some Upload, Some Skip} \<and>
       map_get (pr_preflightResults r) ''q'' = Some Skip"
proof -
  obtain r where r: "fst example_window = Inr r" "map_get (pr_preflightResults r) ''q'' = Some Skip"
    using example_window_result by (auto split: sum.splits)
  moreover have "map_get (pr_preflightResults r) (puf_variantId (example_file ''p'')) \<in> {Some Upload, Some Skip}"
    using preflight_decides [OF example_hash_valid, where now = "\<lambda>n. 0" and native = True and skipDuplicates = True
        and check = "\<lambda>i b. Inl (Thrown_error ''offline'')" and verify = "\<lambda>i b. Inl (Thrown_error ''offline'')"
        and fileInfos = "[example_file ''p'', example_file ''q'']" and out = "[]"] r(1)
    by (simp add: example_window_def)
  ultimately show ?thesis by (auto simp: example_file_def)
qed


theorem preflight_bypass_witness:
  "\<exists>r. runDuplicatePreflightWindow (\<lambda>n. 0) (\<lambda>i b. Inr []) example_hash (\<lambda>i b. Inr []) True [example_file ''p''] False [] =
       (Inr r, [], []) \<and> map_get (pr_preflightResults r) ''p'' = Some Upload"
proof -
  let ?c = "\<lambda>i b. Inr []"
  obtain r where "runDuplicatePreflightWindow (\<lambda>n. 0) ?c example_hash ?c True [example_file ''p''] False [] =
      (Inr r, [], [])" "map_get (pr_preflightResults r) (puf_variantId (example_file ''p'')) = Some Upload"
    using preflight_bypass [where now = "\<lambda>n. 0" and check = ?c and hashFiles = example_hash and verify = ?c
        and native = True and fileInfos = "[example_file ''p'']" and out = "[]" and check' = ?c
        and hashFiles' = example_hash and verify' = ?c and native' = True] by auto
  then show ?thesis by (auto simp: example_file_def)
qed

end
