(* ===== verification/UploadSession.thy ===== *)
theory UploadSession
  imports TransferAccounting ReadyQueue Thermal ClientMetrics Pipeline PrepareAssets FileUpload
    DuplicatePreflight TransferDiagnostics
begin

text \<open>
  \<open>services/UploadManager.ts\<close>: the transfer session of \<open>uploadFilesConcurrent\<close>, in which a
  producer prepares windows of assets, checks them for duplicates and feeds the ready
  queue, and two workers upload. The local variables of the function and the fields of the
  manager that it uses are the record \<open>session\<close>; its calls of the observer and of the
  native release are appended to event lists. The producer and the workers suspend at their
  \<open>await\<close>s; the record \<open>transfer\<close> holds their program points, and each synchronous segment
  between two \<open>await\<close>s is one function. \<open>transfer_step\<close> interleaves them in any order, with
  any behaviour of the environment. A segment reads the clock once (\<open>now\<close>).
\<close>

subsection \<open>State of a session\<close>

definition MAX_HISTORY_PROBLEM_DETAILS :: nat where "MAX_HISTORY_PROBLEM_DETAILS = 1000"
definition MAX_PROBLEM_PREVIEWS :: nat where "MAX_PROBLEM_PREVIEWS = 200"

datatype HistoryOutcome = History_uploaded | History_skipped | History_failed

datatype DuplicateStage = Dup_preflight | Dup_finalization | Dup_outgoing_selection

record TransferHistoryFile =
  thf_id :: string
  thf_name :: string
  thf_savedName :: "string option"
  thf_size :: number
  thf_outcome :: HistoryOutcome
  thf_matchedName :: "string option"
  thf_duplicateStage :: "DuplicateStage option"
  thf_avoidedBytes :: "number option"
  thf_error :: "TransferErrorCode option"

record PreviewRequest =
  prq_fileId :: string
  prq_asset :: MediaAsset

record session =
  ss_sessionId :: string
  ss_sessionRef :: string
  ss_assets :: "MediaAsset list"
  ss_policy :: PreparationPolicy
  ss_skipDuplicates :: bool
  ss_additional :: bool
  ss_isCancelled :: bool
  ss_thermal :: ThermalController
  ss_thermalState :: ThermalState
  ss_preparedFiles :: nat
  ss_readyFiles :: nat
  ss_preparationComplete :: bool
  ss_preparationActivity :: PreparationActivity
  ss_discoveredBytes :: number
  ss_selectedMediaBytes :: number
  ss_additionalComponentsBytes :: number
  ss_selectedMediaFiles :: nat
  ss_additionalComponentsFiles :: nat
  ss_plannedUploadMediaBytes :: number
  ss_diagnosticPlannedUploadBytes :: number
  ss_nativeRetryCount :: number
  ss_peakNativeResidentMemoryBytes :: number
  ss_preparationDurationMs :: number
  ss_preparationCompletedElapsedMs :: "number option"
  ss_filenameResolutionDurationMs :: number
  ss_preflightDurationMs :: number
  ss_filenameResolutionAppleCount :: nat
  ss_filenameResolutionFallbackCount :: nat
  ss_preflightFailureCount :: nat
  ss_preflightSkippedFiles :: nat
  ss_preflightSkippedBytes :: number
  ss_nextUploadFileSequence :: nat
  ss_workerActivity :: UploadWorkerActivity
  ss_fatalError :: "thrown option"
  ss_historyFiles :: "TransferHistoryFile list"
  ss_previewRequests :: "PreviewRequest list"
  ss_outgoingHashes :: OutgoingHashRegistry
  ss_outcomes :: TransferOutcomes
  ss_preparedOutcomeAssetIds :: "string set"
  ss_startTime :: number
  ss_throughput :: ThroughputTracker
  ss_metricsReporter :: ClientMetricsReporter
  ss_diagnostics :: TransferDiagnostics
  ss_preparedWindows :: "(nat \<times> PreparedUploadFile list) list"
  ss_events :: "UploadObserver list"
  ss_released :: "string list"
  ss_ops :: "outcome_op list"

text \<open>\<open>ss_ops\<close> is the history of the calls on \<open>outcomes\<close>; nothing reads it.\<close>

definition new_session ::
  "string \<Rightarrow> string \<Rightarrow> MediaAsset list \<Rightarrow> UploadOptions \<Rightarrow> bool \<Rightarrow> string \<Rightarrow> AppEnvironment \<Rightarrow> number \<Rightarrow> session" where
  "new_session sessionId sessionRef assets opts nativeAvailable appVersion environment now =
     (let policy = resolvePreparationPolicy (uo_preparationMode opts) nativeAvailable (length assets)
      in \<lparr>ss_sessionId = sessionId, ss_sessionRef = sessionRef, ss_assets = assets, ss_policy = policy,
          ss_skipDuplicates = (uo_skipExactDuplicates opts \<noteq> Some False),
          ss_additional = (uo_includeAdditionalMediaComponents opts = Some True),
          ss_isCancelled = False,
          ss_thermal = new_ThermalController
            (Some (case uo_thermalPolicy opts of Some p \<Rightarrow> p | None \<Rightarrow> Monitor_only)),
          ss_thermalState = Nominal, ss_preparedFiles = 0, ss_readyFiles = 0,
          ss_preparationComplete = False, ss_preparationActivity = Act_preparing,
          ss_discoveredBytes = 0, ss_selectedMediaBytes = 0, ss_additionalComponentsBytes = 0,
          ss_selectedMediaFiles = 0, ss_additionalComponentsFiles = 0,
          ss_plannedUploadMediaBytes = 0, ss_diagnosticPlannedUploadBytes = 0,
          ss_nativeRetryCount = 0, ss_peakNativeResidentMemoryBytes = 0,
          ss_preparationDurationMs = 0, ss_preparationCompletedElapsedMs = None,
          ss_filenameResolutionDurationMs = 0, ss_preflightDurationMs = 0,
          ss_filenameResolutionAppleCount = 0, ss_filenameResolutionFallbackCount = 0,
          ss_preflightFailureCount = 0, ss_preflightSkippedFiles = 0, ss_preflightSkippedBytes = 0,
          ss_nextUploadFileSequence = 0, ss_workerActivity = new_UploadWorkerActivity,
          ss_fatalError = None, ss_historyFiles = [], ss_previewRequests = [],
          ss_outgoingHashes = [], ss_outcomes = new_TransferOutcomes,
          ss_preparedOutcomeAssetIds = {}, ss_startTime = now,
          ss_throughput = new_ThroughputTracker now None,
          ss_metricsReporter = new_ClientMetricsReporter None,
          ss_diagnostics = new_TransferDiagnostics
            (new_report sessionRef (real (length assets)) (Some (pol_effectiveMode policy))
               (Some (pol_requestedMode policy)) None
               (Some (uo_includeAdditionalMediaComponents opts = Some True))
               appVersion environment nativeAvailable now),
          ss_preparedWindows = [], ss_events = [], ss_released = [], ss_ops = []\<rparr>)"

subsection \<open>The local functions\<close>

definition emit_event :: "UploadObserver \<Rightarrow> session \<Rightarrow> session" where
  "emit_event e s = s\<lparr>ss_events := ss_events s @ [e]\<rparr>"

definition upd_diag :: "diag_op \<Rightarrow> session \<Rightarrow> session" where
  "upd_diag op s = s\<lparr>ss_diagnostics := diag_step op (ss_diagnostics s)\<rparr>"

definition record_op :: "outcome_op \<Rightarrow> session \<Rightarrow> session" where
  "record_op op s = s\<lparr>ss_outcomes := outcomes_step op (ss_outcomes s), ss_ops := ss_ops s @ [op]\<rparr>"

definition updateThermalState :: "ThermalState \<Rightarrow> number \<Rightarrow> session \<Rightarrow> session" where
  "updateThermalState st now s =
     emit_event (OnThermalStateChange st)
       (upd_diag (D_recordThermal st now)
          (s\<lparr>ss_thermalState := st, ss_thermal := snd (thermal_update st (ss_thermal s))\<rparr>))"

definition recordHistoryProblem :: "TransferHistoryFile \<Rightarrow> MediaAsset \<Rightarrow> session \<Rightarrow> session" where
  "recordHistoryProblem f asset s =
     (if length (ss_historyFiles s) < MAX_HISTORY_PROBLEM_DETAILS
      then (let s1 = s\<lparr>ss_historyFiles := ss_historyFiles s @ [f]\<rparr>
            in if length (ss_previewRequests s1) < MAX_PROBLEM_PREVIEWS
               then s1\<lparr>ss_previewRequests := ss_previewRequests s1 @ [\<lparr>prq_fileId = thf_id f, prq_asset = asset\<rparr>]\<rparr>
               else s1)
      else s)"

text \<open>\<open>release\<close> is what the native module returns, or \<open>None\<close> when it throws or returns nothing.\<close>

definition release_file :: "string \<Rightarrow> NativeReleaseMetrics option \<Rightarrow> session \<Rightarrow> session" where
  "release_file uri release s =
     (let s1 = s\<lparr>ss_released := ss_released s @ [uri]\<rparr>
      in case release of Some m \<Rightarrow> upd_diag (D_recordTemporaryRelease m) s1 | None \<Rightarrow> s1)"

definition expanded_files :: "session \<Rightarrow> nat" where
  "expanded_files s = ss_readyFiles s + preparationFailedFiles (ss_outcomes s)"

definition total_batches :: "session \<Rightarrow> nat" where
  "total_batches s = max 1 (nat \<lceil>real (length (ss_assets s)) / real (pol_windowSize (ss_policy s))\<rceil>)"

definition progressFor :: "PreparedUploadFile \<Rightarrow> ProgressStatus \<Rightarrow> session \<Rightarrow> GlobalProgress" where
  "progressFor item status s =
     (let r = tt_rates (ss_throughput s) in
      \<lparr>gp_bytesSent = tr_uploadedMediaBytes r,
       gp_totalBytes = (if ss_preparationComplete s then ss_plannedUploadMediaBytes s else 0),
       gp_acknowledgedMediaBytes = tr_uploadedMediaBytes r,
       gp_plannedUploadMediaBytes = ss_plannedUploadMediaBytes s,
       gp_rateSampledAt = tr_sampledAt r,
       gp_currentMediaMBps = tr_currentMediaMBps r,
       gp_averageMediaMBps = tr_averageMediaMBps r,
       gp_peakMediaMBps = tr_peakMediaMBps r,
       gp_currentEncodedMBps = tr_currentEncodedMBps r,
       gp_currentIndex = filesCompleted (ss_outcomes s),
       gp_currentAsset =
         (if ma_filename (puf_asset item) = puf_transferFilename item then puf_asset item
          else (puf_asset item)\<lparr>ma_filename := puf_transferFilename item\<rparr>),
       gp_status = Some status,
       gp_preparationActivity = Some (ss_preparationActivity s),
       gp_preparedFiles = Some (ss_preparedFiles s),
       gp_readyFiles = Some (ss_readyFiles s),
       gp_preparationComplete = Some (ss_preparationComplete s),
       gp_discoveredBytes = Some (ss_discoveredBytes s),
       gp_totalFiles =
         Some (if ss_preparationComplete s then expanded_files s else length (ss_assets s)),
       gp_checkedFiles = None, gp_duplicateCandidates = None, gp_duplicateCheckStage = None,
       gp_batchIndex = Some (puf_windowIndex item + 1),
       gp_totalBatches = Some (total_batches s),
       gp_thermalState = Some (ss_thermalState s),
       gp_thermalControl = Some (controlMode (ss_thermal s)),
       gp_preparationMode = Some (pol_effectiveMode (ss_policy s)),
       gp_automaticallyStreamsLargeSelection =
         Some (pol_automaticallyStreamsLargeSelection (ss_policy s))\<rparr>)"

definition diagnosticTransferValues :: "nat \<Rightarrow> nat \<Rightarrow> session \<Rightarrow> transfer_values" where
  "diagnosticTransferValues reportedFailedFiles queueMaxDepth s =
     (let out = ss_outcomes s; r = tt_rates (ss_throughput s) in
      \<lparr>tv_preparedAssets = real (ss_preparedFiles s), tv_expandedFiles = real (expanded_files s),
       tv_uploadedFiles = real (uploadedFiles out), tv_skippedFiles = real (skippedFiles out),
       tv_failedFiles = real reportedFailedFiles, tv_selectedMediaBytes = ss_selectedMediaBytes s,
       tv_additionalComponentsBytes = ss_additionalComponentsBytes s,
       tv_selectedMediaFiles = real (ss_selectedMediaFiles s),
       tv_additionalComponentsFiles = real (ss_additionalComponentsFiles s),
       tv_plannedUploadBytes = ss_diagnosticPlannedUploadBytes s,
       tv_acknowledgedBytes = tr_uploadedMediaBytes r, tv_skippedBytes = skippedBytes out,
       tv_preflightSkippedFiles = real (ss_preflightSkippedFiles s),
       tv_preflightSkippedBytes = ss_preflightSkippedBytes s,
       tv_serverSkippedFiles = real (serverSkippedFiles out),
       tv_serverSkippedBytes = serverSkippedBytes out, tv_retryCount = ss_nativeRetryCount s,
       tv_averageMediaMBps = tr_averageMediaMBps r, tv_peakMediaMBps = tr_peakMediaMBps r,
       tv_queueMaxDepth = queueMaxDepth,
       tv_maxActiveUploadWorkers = wa_peak (ss_workerActivity s),
       tv_filenameResolvedAppleFiles = real (ss_filenameResolutionAppleCount s),
       tv_filenameFallbackFiles = real (ss_filenameResolutionFallbackCount s),
       tv_peakNativeResidentMemoryBytes = ss_peakNativeResidentMemoryBytes s\<rparr>)"

definition status_update ::
  "string \<Rightarrow> string \<Rightarrow> MediaVariantRole option \<Rightarrow> MediaComponentSemantics option \<Rightarrow> nat \<Rightarrow> FileStatus \<Rightarrow> string \<Rightarrow>
   FileStatusUpdate" where
  "status_update assetId itemId role semantics fileRef status name =
     \<lparr>fsu_assetId = assetId, fsu_itemId = Some itemId, fsu_mediaRole = role,
      fsu_componentSemantics = semantics, fsu_fileRef = Some fileRef, fsu_status = status,
      fsu_transferFilename = name, fsu_savedFilename = None, fsu_message = None,
      fsu_stage = None, fsu_errorCode = None\<rparr>"

definition file_status :: "PreparedUploadFile \<Rightarrow> FileStatus \<Rightarrow> string \<Rightarrow> FileStatusUpdate" where
  "file_status item status name =
     status_update (ma_id (puf_asset item)) (puf_variantId item) (Some (puf_mediaRole item))
       (Some (puf_componentSemantics item)) (puf_fileRef item) status name"

definition markPreparationFailure ::
  "MediaAsset \<Rightarrow> string \<Rightarrow> nat \<Rightarrow> MediaVariantRole option \<Rightarrow> MediaComponentSemantics option \<Rightarrow> string option \<Rightarrow>
   TransferStage \<Rightarrow> TransferErrorCode \<Rightarrow> session \<Rightarrow> session" where
  "markPreparationFailure asset itemId fileRef role semantics originalFilename stage code s =
     (let fresh = fst (outcomes_fail itemId True (ss_outcomes s));
          s1 = record_op (Op_fail itemId True) s;
          name = (case originalFilename of Some n \<Rightarrow> (if n \<noteq> [] then n else ma_filename asset)
                                         | None \<Rightarrow> ma_filename asset)
      in if \<not> fresh then s1
         else emit_event (OnFileStatusChange
                ((status_update (ma_id asset) itemId role semantics fileRef St_error name)
                   \<lparr>fsu_stage := Some stage, fsu_errorCode := Some code,
                    fsu_message := Some (mediaComponentFailureMessage
                      (case role of Some r \<Rightarrow> r | None \<Rightarrow> Unknown_role)
                      (case semantics of Some m \<Rightarrow> m | None \<Rightarrow> Primary)
                      (transferErrorMessage code))\<rparr>))
              (upd_diag (D_recordFailure \<lparr>df_fileRef = fileRef, df_stage = stage, df_code = code, df_retryCount = 0\<rparr>)
                (recordHistoryProblem
                   \<lparr>thf_id = itemId, thf_name = name, thf_savedName = None, thf_size = 0,
                    thf_outcome = History_failed, thf_matchedName = None, thf_duplicateStage = None,
                    thf_avoidedBytes = None, thf_error = Some code\<rparr> asset
                   (s1\<lparr>ss_preparedOutcomeAssetIds := insert (ma_id asset) (ss_preparedOutcomeAssetIds s1)\<rparr>))))"

subsection \<open>The producer: preparation and preflight of a window\<close>

definition window_assets :: "nat \<Rightarrow> session \<Rightarrow> MediaAsset list" where
  "window_assets windowIndex s =
     take (pol_windowSize (ss_policy s)) (drop (windowIndex * pol_windowSize (ss_policy s)) (ss_assets s))"

definition prepare_request :: "nat \<Rightarrow> session \<Rightarrow> preparation_request" where
  "prepare_request windowIndex s =
     \<lparr>rq_assets = window_assets windowIndex s, rq_sessionRef = ss_sessionRef s,
      rq_startIndex = windowIndex * pol_windowSize (ss_policy s), rq_windowIndex = windowIndex,
      rq_totalSelectedFiles = length (ss_assets s), rq_alreadyPreparedFiles = ss_preparedFiles s,
      rq_alreadyReadyFiles = ss_readyFiles s, rq_alreadyDiscoveredBytes = ss_discoveredBytes s,
      rq_includeAdditionalMediaComponents = ss_additional s\<rparr>"

text \<open>The callback \<open>onGlobalProgress\<close> of a preparation.\<close>

definition preparation_progress_event :: "GlobalProgress \<Rightarrow> session \<Rightarrow> session" where
  "preparation_progress_event progress s =
     (let s1 = s\<lparr>ss_preparationActivity := Act_preparing\<rparr>; r = tt_rates (ss_throughput s1) in
      emit_event (OnProgress
        (progress\<lparr>gp_bytesSent := tr_uploadedMediaBytes r,
          gp_totalBytes := (if ss_preparationComplete s1 then ss_plannedUploadMediaBytes s1 else 0),
          gp_acknowledgedMediaBytes := tr_uploadedMediaBytes r,
          gp_plannedUploadMediaBytes := ss_plannedUploadMediaBytes s1,
          gp_rateSampledAt := tr_sampledAt r, gp_currentMediaMBps := tr_currentMediaMBps r,
          gp_averageMediaMBps := tr_averageMediaMBps r, gp_peakMediaMBps := tr_peakMediaMBps r,
          gp_currentEncodedMBps := tr_currentEncodedMBps r,
          gp_preparedFiles := Some (max (ss_preparedFiles s1)
            (case gp_preparedFiles progress of Some n \<Rightarrow> n | None \<Rightarrow> ss_preparedFiles s1)),
          gp_readyFiles := Some (ss_readyFiles s1), gp_thermalState := Some (ss_thermalState s1),
          gp_thermalControl := Some (controlMode (ss_thermal s1)),
          gp_preparationMode := Some (pol_effectiveMode (ss_policy s1)),
          gp_automaticallyStreamsLargeSelection :=
            Some (pol_automaticallyStreamsLargeSelection (ss_policy s1)),
          gp_preparationActivity := Some Act_preparing\<rparr>)) s1)"

definition fallback_names :: "PreparedWindow \<Rightarrow> nat" where
  "fallback_names w = nat (max 0 (int (length (pw_files w)) - int (pw_filenameResolutionAppleCount w)))"

definition mark_failure :: "PreparationFailure \<Rightarrow> session \<Rightarrow> session" where
  "mark_failure failure =
     markPreparationFailure (pfl_asset failure) (pfl_itemId failure) (pfl_fileRef failure)
       (pfl_mediaRole failure) (pfl_componentSemantics failure) (pfl_originalFilename failure)
       (pfl_stage failure) (pfl_code failure)"

text \<open>A prepared window enters the totals; \<open>selected\<close> is the number of its assets.\<close>

definition record_window :: "nat \<Rightarrow> PreparedWindow \<Rightarrow> session \<Rightarrow> session" where
  "record_window selected w s =
     (let s1 = s\<lparr>ss_preparedFiles := ss_preparedFiles s + selected,
                 ss_readyFiles := ss_readyFiles s + length (pw_files w),
                 ss_discoveredBytes := ss_discoveredBytes s + pw_discoveredBytes w,
                 ss_selectedMediaBytes := ss_selectedMediaBytes s + pw_selectedMediaBytes w,
                 ss_additionalComponentsBytes := ss_additionalComponentsBytes s + pw_additionalComponentsBytes w,
                 ss_selectedMediaFiles := ss_selectedMediaFiles s + pw_selectedMediaFiles w,
                 ss_additionalComponentsFiles := ss_additionalComponentsFiles s + pw_additionalComponentsFiles w,
                 ss_preparationDurationMs := ss_preparationDurationMs s + pw_preparationDurationMs w,
                 ss_filenameResolutionDurationMs :=
                   ss_filenameResolutionDurationMs s + pw_filenameResolutionDurationMs w,
                 ss_filenameResolutionAppleCount :=
                   ss_filenameResolutionAppleCount s + pw_filenameResolutionAppleCount w,
                 ss_filenameResolutionFallbackCount :=
                   ss_filenameResolutionFallbackCount s + fallback_names w\<rparr>;
          s2 = fold (\<lambda>f. upd_diag (D_recordMaterialization f)) (pw_files w) s1
      in fold mark_failure (pw_failures w) s2)"

text \<open>The announcement of the duplicate check.\<close>

definition announce_check :: "PreparedWindow \<Rightarrow> session \<Rightarrow> session" where
  "announce_check w s =
     (let s1 = s\<lparr>ss_preparationActivity := (if ss_skipDuplicates s then Act_checking else Act_preparing)\<rparr>
      in case pw_files w of
           f # fs \<Rightarrow> (if ss_skipDuplicates s1 then emit_event (OnProgress (progressFor f Pg_checking s1)) s1 else s1)
         | [] \<Rightarrow> s1)"

text \<open>The callback \<open>onCheckingProgress\<close>.\<close>

definition checking_progress :: "PreparedUploadFile list \<Rightarrow> DuplicateProgress \<Rightarrow> session \<Rightarrow> session" where
  "checking_progress files p s =
     (if files = [] then s
      else emit_event (OnProgress
             ((progressFor (files ! min (dp_completed p) (length files - 1)) Pg_checking s)
                \<lparr>gp_checkedFiles := Some (dp_completed p), gp_duplicateCandidates := Some (dp_total p),
                 gp_duplicateCheckStage := Some (dp_stage p)\<rparr>)) s)"

text \<open>What the loop over the files of a window assigns to one of them.\<close>

definition checked_file :: "PreflightResult \<Rightarrow> string \<Rightarrow> PreparedUploadFile \<Rightarrow> PreparedUploadFile" where
  "checked_file r fileId f =
     f\<lparr>puf_computedHash := fileId,
       puf_preflightAction :=
         Some (case map_get (pr_preflightResults r) (puf_variantId f) of Some a \<Rightarrow> a | None \<Rightarrow> Upload),
       puf_duplicateMatchedFilename := map_get (pr_matchedFilenames r) (puf_variantId f),
       puf_duplicateSource := map_get (pr_duplicateSources r) (puf_variantId f),
       puf_preflightFailureCode := map_get (pr_hashFailureCodes r) (puf_variantId f)\<rparr>"

record window_plan =
  wp_files :: "PreparedUploadFile list"
  wp_plannedBytes :: number
  wp_skippedFiles :: nat
  wp_skippedBytes :: number
  wp_session :: session

definition plan_file ::
  "(string \<Rightarrow> NativeReleaseMetrics option) \<Rightarrow> PreflightResult \<Rightarrow> PreparedUploadFile \<Rightarrow> window_plan \<Rightarrow> window_plan" where
  "plan_file release r f p =
     (let s = wp_session p; n = ss_nextUploadFileSequence s + 1;
          s1 = s\<lparr>ss_preparedOutcomeAssetIds := insert (ma_id (puf_asset f)) (ss_preparedOutcomeAssetIds s),
                 ss_nextUploadFileSequence := n\<rparr>;
          g = checked_file r (ss_sessionId s @ ''-'' @ show_nat n) f;
          p1 = p\<lparr>wp_files := wp_files p @ [g], wp_session := s1\<rparr>;
          released = release_file (puf_nativeUri g) (release (puf_nativeUri g)) s1
      in if puf_preflightAction g = Some Skip
         then p1\<lparr>wp_skippedFiles := wp_skippedFiles p + 1, wp_skippedBytes := wp_skippedBytes p + puf_size g,
                 wp_session := released\<rparr>
         else if puf_preflightFailureCode g \<noteq> None then p1\<lparr>wp_session := released\<rparr>
         else p1\<lparr>wp_plannedBytes := wp_plannedBytes p + puf_size g\<rparr>)"

definition window_checkpoint ::
  "nat \<Rightarrow> nat \<Rightarrow> PreparedWindow \<Rightarrow> PreflightResult \<Rightarrow> window_plan \<Rightarrow> number \<Rightarrow> number \<Rightarrow> nat \<Rightarrow> nat \<Rightarrow> nat \<Rightarrow> nat \<Rightarrow>
   number \<Rightarrow> session \<Rightarrow> DiagnosticWindow" where
  "window_checkpoint windowIndex selected w r plan idleBefore idleAfter depthAtStart depthAtEnd
     activeAtStart activeAtEnd now s =
     \<lparr>dw_windowIndex = windowIndex, dw_status = Window_ready, dw_selectedCount = real selected,
      dw_preparedCount = real (length (pw_files w)), dw_failedCount = real (length (pw_failures w)),
      dw_discoveredBytes = pw_discoveredBytes w, dw_selectedMediaBytes = pw_selectedMediaBytes w,
      dw_additionalComponentsBytes = pw_additionalComponentsBytes w,
      dw_selectedMediaFiles = real (pw_selectedMediaFiles w),
      dw_additionalComponentsFiles = real (pw_additionalComponentsFiles w),
      dw_plannedUploadBytes = wp_plannedBytes plan,
      dw_preflightSkippedFiles = real (wp_skippedFiles plan),
      dw_preflightSkippedBytes = wp_skippedBytes plan,
      dw_appleFilenameCount = real (pw_filenameResolutionAppleCount w),
      dw_fallbackFilenameCount = real (fallback_names w), dw_startedElapsedMs = 0,
      dw_readyElapsedMs = Some (elapsedMs now (ss_diagnostics s)),
      dw_enqueueCompletedElapsedMs = None, dw_uploadCapacityWaitDurationMs = 0,
      dw_uploadCapacityWaitCount = 0, dw_preparationDurationMs = pw_preparationDurationMs w,
      dw_filenameDurationMs = pw_filenameResolutionDurationMs w,
      dw_preflightDurationMs = pr_preflightDurationMs r,
      dw_preflight = Some (DuplicatePreflightMetrics.extend (pr_metrics r)
        (DiagnosticWindowPreflight.fields
           (if pol_effectiveMode (ss_policy s) = Streaming then max 0 (idleAfter - idleBefore) else 0)
           depthAtStart depthAtEnd activeAtStart activeAtEnd)),
      dw_firstUploadStartedElapsedMs = None, dw_uploadTiming = Some emptyUploadTiming\<rparr>"

text \<open>Everything after the preflight of a window up to the enqueueing: the planned files and the session.\<close>

definition plan_window ::
  "(string \<Rightarrow> NativeReleaseMetrics option) \<Rightarrow> nat \<Rightarrow> nat \<Rightarrow> PreparedWindow \<Rightarrow> PreflightResult \<Rightarrow>
   number \<Rightarrow> nat \<Rightarrow> nat \<Rightarrow> nat \<Rightarrow> number \<Rightarrow> session \<Rightarrow> PreparedUploadFile list \<times> session" where
  "plan_window release windowIndex selected w r idleBefore depthAtStart activeAtStart depthAtEnd now s =
     (let s1 = s\<lparr>ss_preparationActivity := Act_preparing,
                 ss_preflightDurationMs := ss_preflightDurationMs s + pr_preflightDurationMs r,
                 ss_preflightFailureCount := ss_preflightFailureCount s + pr_failureCount r\<rparr>;
          idleAfter = idleMilliseconds now (ss_workerActivity s1);
          plan = fold (plan_file release r) (pw_files w)
                   \<lparr>wp_files = [], wp_plannedBytes = 0, wp_skippedFiles = 0, wp_skippedBytes = 0, wp_session = s1\<rparr>;
          s2 = wp_session plan;
          s3 = s2\<lparr>ss_plannedUploadMediaBytes := ss_plannedUploadMediaBytes s2 + wp_plannedBytes plan,
                  ss_diagnosticPlannedUploadBytes := ss_diagnosticPlannedUploadBytes s2 + wp_plannedBytes plan,
                  ss_preflightSkippedFiles := ss_preflightSkippedFiles s2 + wp_skippedFiles plan,
                  ss_preflightSkippedBytes := ss_preflightSkippedBytes s2 + wp_skippedBytes plan\<rparr>
      in (wp_files plan,
          upd_diag (D_checkpointWindow
            (window_checkpoint windowIndex selected w r plan idleBefore idleAfter depthAtStart depthAtEnd
               activeAtStart (wa_active (ss_workerActivity s3)) now s3) now) s3))"

definition finishPreparation :: "nat \<Rightarrow> number \<Rightarrow> session \<Rightarrow> session" where
  "finishPreparation queueMaxDepth now s =
     (if ss_preparationComplete s then s
      else upd_diag (D_markPreparationComplete queueMaxDepth now)
             (s\<lparr>ss_preparationComplete := True, ss_preparationCompletedElapsedMs := Some (now - ss_startTime s),
                ss_preparationActivity := Act_complete\<rparr>))"

text \<open>The \<open>catch\<close> clause of the producer, before it cancels the transfer.\<close>

definition producer_error :: "thrown \<Rightarrow> thrown" where
  "producer_error e =
     (if isUnauthorizedError e then e
      else case e of
             Thrown_failure f \<Rightarrow> (if tf_fatal f then e else Thrown_failure (new_TransferFailure Stage_preflight Unexpected True))
           | _ \<Rightarrow> Thrown_failure (new_TransferFailure Stage_preflight Unexpected True))"

subsection \<open>The worker: one item\<close>

definition skip_message :: "string \<Rightarrow> string option \<Rightarrow> string \<Rightarrow> string" where
  "skip_message name savedName otherwise =
     (case savedName of
        Some saved \<Rightarrow> (if saved \<noteq> []
                       then name @ '' was not transferred because identical content already exists as '' @ saved @ ''.''
                       else name @ otherwise)
      | None \<Rightarrow> name @ otherwise)"

text \<open>An item that the preflight decided to skip.\<close>

definition skip_item :: "NativeReleaseMetrics option \<Rightarrow> PreparedUploadFile \<Rightarrow> session \<Rightarrow> session" where
  "skip_item release item s =
     (let name = puf_transferFilename item; matched = puf_duplicateMatchedFilename item;
          s1 = recordHistoryProblem
                 \<lparr>thf_id = puf_variantId item, thf_name = name, thf_savedName = matched,
                  thf_size = puf_size item, thf_outcome = History_skipped, thf_matchedName = matched,
                  thf_duplicateStage =
                    Some (if puf_duplicateSource item = Some Outgoing_selection then Dup_outgoing_selection
                          else Dup_preflight),
                  thf_avoidedBytes = Some (puf_size item), thf_error = None\<rparr> (puf_asset item)
                 (record_op (Op_skip (puf_variantId item) (puf_size item) Skip_preflight) s);
          s2 = emit_event (OnFileStatusChange
                 ((file_status item St_skipped name)
                    \<lparr>fsu_savedFilename := matched,
                     fsu_message := Some (skip_message name matched
                       '' was not transferred because identical content already exists.'')\<rparr>)) s1
      in release_file (puf_nativeUri item) release
           (emit_event (OnProgress (progressFor item Pg_skipped s2)) s2))"

text \<open>An item whose content could not be checked.\<close>

definition fail_item :: "NativeReleaseMetrics option \<Rightarrow> TransferErrorCode \<Rightarrow> PreparedUploadFile \<Rightarrow> session \<Rightarrow> session" where
  "fail_item release code item s =
     (let name = puf_transferFilename item;
          s1 = recordHistoryProblem
                 \<lparr>thf_id = puf_variantId item, thf_name = name, thf_savedName = None,
                  thf_size = puf_size item, thf_outcome = History_failed, thf_matchedName = None,
                  thf_duplicateStage = None, thf_avoidedBytes = None, thf_error = Some code\<rparr> (puf_asset item)
                 (record_op (Op_fail (puf_variantId item) False) s);
          s2 = upd_diag (D_recordFailure
                 \<lparr>df_fileRef = puf_fileRef item, df_stage = Stage_preflight, df_code = code,
                  df_retryCount = (if code = File_changed then 1 else 0)\<rparr>) s1;
          s3 = emit_event (OnFileStatusChange
                 ((file_status item St_error name)
                    \<lparr>fsu_stage := Some Stage_preflight, fsu_errorCode := Some code,
                     fsu_message := Some (mediaComponentFailureMessage (puf_mediaRole item)
                       (puf_componentSemantics item) (transferErrorMessage code))\<rparr>)) s2
      in release_file (puf_nativeUri item) release
           (emit_event (OnProgress (progressFor item Pg_failed s3)) s3))"

definition start_upload :: "number \<Rightarrow> PreparedUploadFile \<Rightarrow> session \<Rightarrow> session" where
  "start_upload now item s =
     (let s1 = emit_event (OnFileStatusChange (file_status item St_uploading (puf_transferFilename item))) s
      in case activity_busy now (ss_workerActivity s1) of
           (active, a) \<Rightarrow>
             upd_diag (D_recordWindowUploadStarted (puf_windowIndex item) now)
               (upd_diag (D_recordUploadWorkerStarted active now) (s1\<lparr>ss_workerActivity := a\<rparr>)))"

text \<open>
  An acknowledgement of \<open>mediaBytes\<close>, sent as \<open>encodedBytes\<close>: of a native delta, which is
  positive, or of a chunk, which may be empty.
\<close>

definition acknowledge_bytes :: "number \<Rightarrow> number \<Rightarrow> number \<Rightarrow> PreparedUploadFile \<Rightarrow> session \<Rightarrow> session" where
  "acknowledge_bytes mediaBytes encodedBytes now item s =
     (let s1 = (if mediaBytes > 0 then upd_diag (D_recordFirstAcknowledgement now) s else s);
          s2 = s1\<lparr>ss_throughput := recordAcknowledgement mediaBytes encodedBytes now (ss_throughput s1)\<rparr>;
          s3 = s2\<lparr>ss_metricsReporter :=
                    recordCurrentMediaRate (tr_currentMediaMBps (tt_rates (ss_throughput s2))) now
                      (ss_metricsReporter s2)\<rparr>
      in emit_event (OnProgress (progressFor item Pg_uploading s3)) s3)"

text \<open>What the native result adds, retries, memory and timing (absent in the compatibility mode).\<close>

definition native_result_metrics :: "nat \<Rightarrow> (number \<times> number \<times> upload_timing) option \<Rightarrow> session \<Rightarrow> session" where
  "native_result_metrics windowIndex metrics s =
     (case metrics of
        None \<Rightarrow> s
      | Some (retries, memory, timing) \<Rightarrow>
          upd_diag (D_recordNativeUploadTiming windowIndex timing)
            (s\<lparr>ss_nativeRetryCount := ss_nativeRetryCount s + retries,
               ss_peakNativeResidentMemoryBytes := max (ss_peakNativeResidentMemoryBytes s) memory\<rparr>))"

definition upload_succeeded ::
  "bool \<Rightarrow> string \<Rightarrow> string option \<Rightarrow> PreparedUploadFile \<Rightarrow> session \<Rightarrow> session" where
  "upload_succeeded serverSkipped sentFilename savedFilename item s =
     (if serverSkipped
      then emit_event (OnFileStatusChange
             ((file_status item St_skipped sentFilename)
                \<lparr>fsu_savedFilename := savedFilename,
                 fsu_message := Some (skip_message sentFilename savedFilename
                   '' was not transferred because identical content was verified by the desktop.'')\<rparr>))
             (recordHistoryProblem
                \<lparr>thf_id = puf_variantId item, thf_name = sentFilename, thf_savedName = savedFilename,
                 thf_size = puf_size item, thf_outcome = History_skipped, thf_matchedName = savedFilename,
                 thf_duplicateStage = Some Dup_finalization, thf_avoidedBytes = Some 0, thf_error = None\<rparr>
                (puf_asset item)
                (record_op (Op_skip (puf_variantId item) (puf_size item) Skip_finalization) s))
      else emit_event (OnFileStatusChange
             ((file_status item St_success sentFilename)
                \<lparr>fsu_savedFilename := savedFilename,
                 fsu_message :=
                   (case savedFilename of
                      Some saved \<Rightarrow> (if saved \<noteq> [] \<and> saved \<noteq> sentFilename then Some (''Saved as '' @ saved) else None)
                    | None \<Rightarrow> None)\<rparr>))
             (record_op (Op_save (puf_variantId item) (puf_size item)) s))"

text \<open>The \<open>catch\<close> clause for an ordinary failure.\<close>

definition upload_failed :: "TransferFailure \<Rightarrow> number \<Rightarrow> PreparedUploadFile \<Rightarrow> session \<Rightarrow> session" where
  "upload_failed failure fileAcknowledgedBytes item s =
     (let name = puf_transferFilename item;
          s1 = recordHistoryProblem
                 \<lparr>thf_id = puf_variantId item, thf_name = name, thf_savedName = None,
                  thf_size = puf_size item, thf_outcome = History_failed, thf_matchedName = None,
                  thf_duplicateStage = None, thf_avoidedBytes = None, thf_error = Some (tf_code failure)\<rparr>
                 (puf_asset item) (record_op (Op_fail (puf_variantId item) False) s);
          s2 = s1\<lparr>ss_plannedUploadMediaBytes :=
                    max (tr_uploadedMediaBytes (tt_rates (ss_throughput s1)))
                        (ss_plannedUploadMediaBytes s1 - max 0 (puf_size item - fileAcknowledgedBytes))\<rparr>;
          s3 = upd_diag (D_recordFailure
                 \<lparr>df_fileRef = puf_fileRef item, df_stage = tf_stage failure, df_code = tf_code failure,
                  df_retryCount = 0\<rparr>) s2;
          s4 = emit_event (OnFileStatusChange
                 ((file_status item St_error name)
                    \<lparr>fsu_stage := Some (tf_stage failure), fsu_errorCode := Some (tf_code failure),
                     fsu_message := Some (mediaComponentFailureMessage (puf_mediaRole item)
                       (puf_componentSemantics item) (userMessages (tf_code failure)))\<rparr>)) s3
      in emit_event (OnProgress (progressFor item Pg_failed s4)) s4)"

text \<open>The \<open>finally\<close> clause.\<close>

definition upload_finally :: "NativeReleaseMetrics option \<Rightarrow> number \<Rightarrow> PreparedUploadFile \<Rightarrow> session \<Rightarrow> session" where
  "upload_finally release now item s =
     (let s1 = release_file (puf_nativeUri item) release s
      in s1\<lparr>ss_workerActivity := activity_idle now (ss_workerActivity s1)\<rparr>)"

subsection \<open>The end of a session\<close>

definition mark_missing :: "nat \<times> MediaAsset \<Rightarrow> session \<Rightarrow> session" where
  "mark_missing e s =
     (case e of (index, asset) \<Rightarrow>
        if ma_id asset \<in> ss_preparedOutcomeAssetIds s then s
        else markPreparationFailure asset (ma_id asset @ '':missing'') (index + 1) (Some Unknown_role)
               (Some Primary) (Some (ma_filename asset)) Stage_metadata Unexpected s)"

definition mark_all_missing :: "session \<Rightarrow> session" where
  "mark_all_missing s =
     (if ss_isCancelled s then s else fold mark_missing (enumerate 0 (ss_assets s)) s)"

definition completion_status :: "session \<Rightarrow> TransferCompletionStatus" where
  "completion_status s =
     (if ss_isCancelled s then Cancelled_status
      else if failedFiles (ss_outcomes s) > 0 then Mixed else Completed)"

definition session_summary :: "TransferCompletionStatus \<Rightarrow> nat \<Rightarrow> nat \<Rightarrow> number \<Rightarrow> session \<Rightarrow> UploadSummary" where
  "session_summary status selected failed now s =
     (let out = ss_outcomes s; r = tt_rates (ss_throughput s) in
      \<lparr>us_sessionId = ss_sessionId s, us_selectedAssets = length (ss_assets s),
       us_expandedFiles = expanded_files s, us_selectedFiles = selected,
       us_uploadedFiles = uploadedFiles out, us_skippedFiles = skippedFiles out,
       us_failedFiles = failed, us_selectedBytes = ss_discoveredBytes s,
       us_selectedMediaBytes = ss_selectedMediaBytes s,
       us_additionalComponentsBytes = ss_additionalComponentsBytes s,
       us_selectedMediaFiles = ss_selectedMediaFiles s,
       us_additionalComponentsFiles = ss_additionalComponentsFiles s,
       us_byteTotalComplete = (preparationFailedFiles out = 0),
       us_uploadedBytes = successfulUploadedBytes out, us_skippedBytes = skippedBytes out,
       us_avoidedBytes = avoidedBytes out,
       us_finalizationDuplicateBytes = finalizationDuplicateBytes out,
       us_preparationDurationMs = ss_preparationCompletedElapsedMs s,
       us_uploadDurationMs = now - ss_startTime s, us_averageMediaMBps = tr_averageMediaMBps r,
       us_peakMediaMBps = tr_peakMediaMBps r, us_completionStatus = status,
       us_diagnosticReportAvailable = td_hasPersistedReport (ss_diagnostics s)\<rparr>)"

definition final_summary :: "number \<Rightarrow> session \<Rightarrow> UploadSummary" where
  "final_summary now s =
     session_summary (completion_status s) (expanded_files s) (failedFiles (ss_outcomes s)) now s"

text \<open>The counts of the summary for a transfer that stopped: the rest counts as failed.\<close>

definition fatal_summary :: "number \<Rightarrow> session \<Rightarrow> UploadSummary" where
  "fatal_summary now s =
     (let selected = max (length (ss_assets s)) (expanded_files s)
      in session_summary Fatal selected
           (nat (max (int (failedFiles (ss_outcomes s)))
                     (int selected - int (uploadedFiles (ss_outcomes s)) - int (skippedFiles (ss_outcomes s)))))
           now s)"

record TransferHistoryPayload =
  thp_sessionId :: string
  thp_completedAt :: number
  thp_selectedAssets :: nat
  thp_expandedFiles :: nat
  thp_selectedFiles :: nat
  thp_uploadedFiles :: nat
  thp_skippedFiles :: nat
  thp_failedFiles :: nat
  thp_selectedBytes :: number
  thp_selectedMediaBytes :: number
  thp_additionalComponentsBytes :: number
  thp_selectedMediaFiles :: nat
  thp_additionalComponentsFiles :: nat
  thp_uploadedBytes :: number
  thp_skippedBytes :: number
  thp_avoidedBytes :: number
  thp_finalizationDuplicateBytes :: number
  thp_checkDurationMs :: number
  thp_uploadDurationMs :: number
  thp_totalDurationMs :: number
  thp_averageSpeedMBps :: number
  thp_peakSpeedMBps :: number
  thp_retries :: number
  thp_completionStatus :: TransferCompletionStatus
  thp_files :: "TransferHistoryFile list"

definition history_payload ::
  "TransferCompletionStatus \<Rightarrow> nat \<Rightarrow> number \<Rightarrow> number \<Rightarrow> session \<Rightarrow> TransferHistoryPayload" where
  "history_payload status failed uploadDurationMs now s =
     (let out = ss_outcomes s; r = tt_rates (ss_throughput s) in
      \<lparr>thp_sessionId = ss_sessionId s, thp_completedAt = now,
       thp_selectedAssets = length (ss_assets s), thp_expandedFiles = expanded_files s,
       thp_selectedFiles = expanded_files s, thp_uploadedFiles = uploadedFiles out,
       thp_skippedFiles = skippedFiles out, thp_failedFiles = failed,
       thp_selectedBytes = ss_discoveredBytes s, thp_selectedMediaBytes = ss_selectedMediaBytes s,
       thp_additionalComponentsBytes = ss_additionalComponentsBytes s,
       thp_selectedMediaFiles = ss_selectedMediaFiles s,
       thp_additionalComponentsFiles = ss_additionalComponentsFiles s,
       thp_uploadedBytes = successfulUploadedBytes out, thp_skippedBytes = skippedBytes out,
       thp_avoidedBytes = avoidedBytes out,
       thp_finalizationDuplicateBytes = finalizationDuplicateBytes out,
       thp_checkDurationMs = ss_preparationDurationMs s + ss_preflightDurationMs s,
       thp_uploadDurationMs = uploadDurationMs, thp_totalDurationMs = uploadDurationMs,
       thp_averageSpeedMBps = tr_averageMediaMBps r, thp_peakSpeedMBps = tr_peakMediaMBps r,
       thp_retries = ss_nativeRetryCount s, thp_completionStatus = status,
       thp_files = ss_historyFiles s\<rparr>)"

text \<open>
  \<open>recordTransferHistory\<close>: the payloads that are sent, where \<open>accepts\<close> tells whether the
  desktop takes one; a rejected payload is sent once more without its files.
\<close>

definition recordTransferHistory ::
  "(TransferHistoryPayload \<Rightarrow> bool) \<Rightarrow> TransferCompletionStatus \<Rightarrow> nat \<Rightarrow> number \<Rightarrow> number \<Rightarrow> session \<Rightarrow>
   TransferHistoryPayload list" where
  "recordTransferHistory accepts status failed uploadDurationMs now s =
     (let payload = history_payload status failed uploadDurationMs now s
      in if accepts payload then [payload] else [payload, payload\<lparr>thp_files := []\<rparr>])"

text \<open>What the code after the pipeline throws, if anything, given the pipeline's result.\<close>

definition pipeline_exit :: "thrown + bool \<Rightarrow> session \<Rightarrow> thrown option" where
  "pipeline_exit result s =
     (case result of
        Inl e \<Rightarrow> Some e
      | Inr preparedAll \<Rightarrow>
          (case ss_fatalError s of
             Some e \<Rightarrow> Some e
           | None \<Rightarrow>
               (if preparedAll then None
                else if ss_isCancelled s then Some (Thrown_failure (new_TransferFailure Stage_upload Cancelled False))
                else Some (Thrown_failure (new_TransferFailure Stage_preflight Unexpected True)))))"

definition catch_failure :: "thrown \<Rightarrow> TransferFailure" where
  "catch_failure e =
     (if isUnauthorizedError e then new_TransferFailure Stage_network Unauthorized True
      else transferFailure e Stage_upload Unexpected)"

text \<open>What the end of the session reports: the observer's last call, if any, the history, and the status of the diagnostic report.\<close>

record session_end =
  se_observer :: "UploadObserver option"
  se_history :: "TransferHistoryPayload list"
  se_status :: TransferCompletionStatus
  se_session :: session

definition normal_end :: "(TransferHistoryPayload \<Rightarrow> bool) \<Rightarrow> nat \<Rightarrow> number \<Rightarrow> session \<Rightarrow> session_end" where
  "normal_end accepts queueMaxDepth now s =
     (let s1 = mark_all_missing s; status = completion_status s1; failed = failedFiles (ss_outcomes s1);
          s2 = upd_diag (D_finish (Finished status) now)
                 (upd_diag (D_updateTransfer (diagnosticTransferValues failed queueMaxDepth s1) now) s1);
          summary = final_summary now s2
      in \<lparr>se_observer = (if ss_isCancelled s2 then None else Some (OnComplete summary)),
          se_history = recordTransferHistory accepts status failed (us_uploadDurationMs summary) now s2,
          se_status = status, se_session = s2\<rparr>)"

definition error_end :: "(TransferHistoryPayload \<Rightarrow> bool) \<Rightarrow> nat \<Rightarrow> number \<Rightarrow> thrown \<Rightarrow> session \<Rightarrow> session_end" where
  "error_end accepts queueMaxDepth now e s =
     (let failure = catch_failure e; cancelled = (ss_isCancelled s \<and> \<not> tf_fatal failure);
          failed = failedFiles (ss_outcomes s); status = (if cancelled then Cancelled_status else Fatal);
          s1 = upd_diag (D_finish (Finished status) now)
                 (upd_diag (D_updateTransfer (diagnosticTransferValues failed queueMaxDepth s) now) s)
      in \<lparr>se_observer = (if cancelled then None
                         else Some (OnError (Thrown_failure failure) (Some (fatal_summary now s1)))),
          se_history = (if cancelled then recordTransferHistory accepts Cancelled_status failed (now - ss_startTime s) now s1
                        else []),
          se_status = status, se_session = s1\<rparr>)"

definition session_ends :: "(TransferHistoryPayload \<Rightarrow> bool) \<Rightarrow> nat \<Rightarrow> number \<Rightarrow> thrown + bool \<Rightarrow> session \<Rightarrow> session_end" where
  "session_ends accepts queueMaxDepth now result s =
     (case pipeline_exit result s of
        Some e \<Rightarrow> error_end accepts queueMaxDepth now e s
      | None \<Rightarrow> normal_end accepts queueMaxDepth now s)"

subsection \<open>Program points\<close>

datatype push_wait = Not_waiting | Waiting number | Resumed number

text \<open>
  The producer: at the head of its loop, awaiting a preparation, awaiting a preflight (with
  the readings taken before it), pushing the files of a window (followed, in the
  prepare-first mode, by those of the later windows), or done. \<open>Pc_rejected\<close> is the
  rejection of \<open>enqueuePreparedWindows\<close>.
\<close>

datatype producer_pc =
    Pc_window nat
  | Pc_preparing nat preparation_request
  | Pc_checking nat PreparedWindow number nat nat
  | Pc_pushing nat "PreparedUploadFile list" "(nat \<times> PreparedUploadFile list) list" push_wait
  | Pc_done bool
  | Pc_rejected thrown

datatype worker_pc =
    Wk_off
  | Wk_loop
  | Wk_waiting
  | Wk_item PreparedUploadFile
  | Wk_parked PreparedUploadFile
  | Wk_uploading PreparedUploadFile number
  | Wk_done

text \<open>
  \<open>tx_prepared\<close> and \<open>tx_handled\<close> are histories that nothing reads: the files of the
  prepared windows, and the files whose outcome a worker recorded.
\<close>

record transfer =
  tx_session :: session
  tx_queue :: "(PreparedUploadFile, unit, nat) BoundedAsyncQueue"
  tx_producer :: producer_pc
  tx_workers :: "worker_pc list"
  tx_prepared :: "PreparedUploadFile list"
  tx_handled :: "PreparedUploadFile list"

definition upd_session :: "(session \<Rightarrow> session) \<Rightarrow> transfer \<Rightarrow> transfer" where
  "upd_session f t = t\<lparr>tx_session := f (tx_session t)\<rparr>"

definition set_worker :: "nat \<Rightarrow> worker_pc \<Rightarrow> transfer \<Rightarrow> transfer" where
  "set_worker c pc t = t\<lparr>tx_workers := (tx_workers t)[c := pc]\<rparr>"

definition streaming :: "transfer \<Rightarrow> bool" where
  "streaming t \<longleftrightarrow> pol_effectiveMode (ss_policy (tx_session t)) = Streaming"

definition start_workers :: "number \<Rightarrow> transfer \<Rightarrow> transfer" where
  "start_workers now t =
     upd_session (\<lambda>s. s\<lparr>ss_workerActivity := activity_start now (ss_workerActivity s)\<rparr>)
       (t\<lparr>tx_workers := replicate CONCURRENCY Wk_loop\<rparr>)"

definition init_transfer :: "session \<Rightarrow> number \<Rightarrow> transfer" where
  "init_transfer s now =
     (let t = \<lparr>tx_session = s,
               tx_queue = \<lparr>q_items = [], q_waitingConsumers = [], q_waitingProducers = [], q_closed = False,
                           q_observedMaxDepth = 0, q_capacity = pol_queueCapacity (ss_policy s)\<rparr>,
               tx_producer = Pc_window 0, tx_workers = replicate CONCURRENCY Wk_off,
               tx_prepared = [], tx_handled = []\<rparr>
      in if streaming t then start_workers now t else t)"

text \<open>\<open>queue.close()\<close>: waiting consumers get \<open>null\<close> and return, a waiting producer resumes.\<close>

fun resume_producer :: "producer_pc \<Rightarrow> producer_pc" where
  "resume_producer (Pc_pushing i fs later (Waiting since)) = Pc_pushing i fs later (Resumed since)"
| "resume_producer pc = pc"

definition close_queue :: "transfer \<Rightarrow> transfer" where
  "close_queue t =
     (case queue_close (tx_queue t) of (cs, ps, q) \<Rightarrow>
        t\<lparr>tx_queue := q,
          tx_workers := map (\<lambda>(c, pc). if c \<in> set cs then Wk_done else pc) (enumerate 0 (tx_workers t)),
          tx_producer := (if ps = [] then tx_producer t else resume_producer (tx_producer t))\<rparr>)"

fun unpark :: "worker_pc \<Rightarrow> worker_pc" where
  "unpark (Wk_parked f) = Wk_item f"
| "unpark pc = pc"

text \<open>\<open>cancel\<close>: the calls of the desktop, of the abort controllers and of the native module only end requests.\<close>

definition cancel_transfer :: "transfer \<Rightarrow> transfer" where
  "cancel_transfer t =
     (let t1 = close_queue (upd_session (\<lambda>s. s\<lparr>ss_isCancelled := True\<rparr>) t)
      in upd_session (\<lambda>s. s\<lparr>ss_thermal := snd (thermal_cancel (ss_thermal s))\<rparr>)
           (t1\<lparr>tx_workers := map unpark (tx_workers t1)\<rparr>))"

definition thermal_event :: "ThermalState \<Rightarrow> number \<Rightarrow> transfer \<Rightarrow> transfer" where
  "thermal_event st now t =
     upd_session (updateThermalState st now)
       (if st = tc_state (ss_thermal (tx_session t)) then t
        else t\<lparr>tx_workers := map unpark (tx_workers t)\<rparr>)"

subsection \<open>Segments of the producer\<close>

text \<open>
  The return of \<open>produce\<close> in the two modes of the pipeline: streaming closes the queue in
  its \<open>finally\<close>; prepare-first goes on with the enqueueing and starts the workers.
\<close>

definition produced :: "bool \<Rightarrow> number \<Rightarrow> transfer \<Rightarrow> transfer" where
  "produced completed now t =
     (let finish = upd_session (finishPreparation (queue_maxDepth (tx_queue t)) now)
      in if streaming t
         then close_queue ((if completed then finish t else t)\<lparr>tx_producer := Pc_done completed\<rparr>)
         else if \<not> completed then t\<lparr>tx_producer := Pc_done False\<rparr>
         else (let t1 = start_workers now (finish (upd_session (\<lambda>s. s\<lparr>ss_preparedWindows := []\<rparr>) t))
               in case ss_preparedWindows (tx_session t) of
                    [] \<Rightarrow> close_queue (t1\<lparr>tx_producer := Pc_done True\<rparr>)
                  | (i, fs) # later \<Rightarrow> t1\<lparr>tx_producer := Pc_pushing i fs later Not_waiting\<rparr>))"

definition producer_throws :: "thrown \<Rightarrow> number \<Rightarrow> transfer \<Rightarrow> transfer" where
  "producer_throws e now t =
     produced False now
       (cancel_transfer (upd_session (\<lambda>s. s\<lparr>ss_fatalError := Some (producer_error e)\<rparr>) t))"

definition begin_window :: "nat \<Rightarrow> number \<Rightarrow> transfer \<Rightarrow> transfer" where
  "begin_window i now t =
     (let s = tx_session t in
      if i * pol_windowSize (ss_policy s) \<ge> length (ss_assets s)
      then produced (ss_preparedFiles s = length (ss_assets s) \<and> \<not> ss_isCancelled s) now t
      else if ss_isCancelled s \<or> \<not> waitForPreparation (ss_thermal s) then produced False now t
      else (upd_session (upd_diag (D_beginWindow i (real (length (window_assets i s))) now)) t)
             \<lparr>tx_producer := Pc_preparing i (prepare_request i s)\<rparr>)"

definition window_prepared ::
  "nat \<Rightarrow> preparation_request \<Rightarrow> string + PreparedWindow option \<Rightarrow> number \<Rightarrow> transfer \<Rightarrow> transfer" where
  "window_prepared i rq result now t =
     (case result of
        Inl message \<Rightarrow> producer_throws (Thrown_error message) now t
      | Inr None \<Rightarrow> produced False now t
      | Inr (Some w) \<Rightarrow>
          (let t1 = upd_session (announce_check w \<circ> record_window (length (rq_assets rq)) w) t
           in t1\<lparr>tx_prepared := tx_prepared t1 @ pw_files w,
                 tx_producer :=
                   Pc_checking i w (idleMilliseconds now (ss_workerActivity (tx_session t1)))
                     (queue_depth (tx_queue t1)) (wa_active (ss_workerActivity (tx_session t1)))\<rparr>))"

definition window_checked ::
  "nat \<Rightarrow> PreparedWindow \<Rightarrow> number \<Rightarrow> nat \<Rightarrow> nat \<Rightarrow> (string \<Rightarrow> NativeReleaseMetrics option) \<Rightarrow>
   (thrown + PreflightResult) \<times> OutgoingHashRegistry \<times> DuplicateProgress list \<Rightarrow> number \<Rightarrow> transfer \<Rightarrow> transfer" where
  "window_checked i w idleBefore depthAtStart activeAtStart release result now t =
     (case result of (r, outgoing, progress) \<Rightarrow>
        (let t1 = upd_session (fold (checking_progress (pw_files w)) progress \<circ> (\<lambda>s. s\<lparr>ss_outgoingHashes := outgoing\<rparr>)) t
         in case r of
              Inl e \<Rightarrow> producer_throws e now t1
            | Inr preflight \<Rightarrow>
                (case plan_window release i (length (window_assets i (tx_session t1))) w preflight idleBefore
                        depthAtStart activeAtStart (queue_depth (tx_queue t1)) now (tx_session t1) of
                   (files, s) \<Rightarrow>
                     (if streaming t1
                      then t1\<lparr>tx_session := s, tx_producer := Pc_pushing i files [] Not_waiting\<rparr>
                      else t1\<lparr>tx_session := s\<lparr>ss_preparedWindows := ss_preparedWindows s @ [(i, files)]\<rparr>,
                              tx_producer := Pc_window (i + 1)\<rparr>))))"

text \<open>The end of the files of a window.\<close>

definition window_enqueued :: "nat \<Rightarrow> (nat \<times> PreparedUploadFile list) list \<Rightarrow> number \<Rightarrow> transfer \<Rightarrow> transfer" where
  "window_enqueued i later now t =
     (let t1 = upd_session (upd_diag (D_markWindowEnqueued i (queue_maxDepth (tx_queue t)) now)) t
      in if streaming t then t1\<lparr>tx_producer := Pc_window (i + 1)\<rparr>
         else case later of
                [] \<Rightarrow> close_queue (t1\<lparr>tx_producer := Pc_done True\<rparr>)
              | (j, fs) # rest \<Rightarrow> t1\<lparr>tx_producer := Pc_pushing j fs rest Not_waiting\<rparr>)"

text \<open>The callback \<open>onCapacityWaitChange\<close>, which only the streaming mode passes.\<close>

definition capacity_wait_starts :: "PreparedUploadFile \<Rightarrow> session \<Rightarrow> session" where
  "capacity_wait_starts f s =
     (let s1 = s\<lparr>ss_preparationActivity := Act_waiting\<rparr>
      in emit_event (OnProgress (progressFor f Pg_waiting s1)) s1)"

definition capacity_wait_ends :: "nat \<Rightarrow> number \<Rightarrow> number \<Rightarrow> PreparedUploadFile \<Rightarrow> session \<Rightarrow> session" where
  "capacity_wait_ends i since now f s =
     (let s1 = upd_diag (D_recordUploadCapacityWait i (Fin (now - since))) s
      in if \<not> ss_preparationComplete s1 \<and> \<not> ss_isCancelled s1
         then (let s2 = s1\<lparr>ss_preparationActivity := Act_preparing\<rparr>
               in emit_event (OnProgress (progressFor f Pg_preparing s2)) s2)
         else s1)"

definition push_callback :: "nat \<Rightarrow> push_wait \<Rightarrow> number \<Rightarrow> PreparedUploadFile \<Rightarrow> bool \<Rightarrow> session \<Rightarrow> session" where
  "push_callback i wait now f waiting s =
     (if waiting then capacity_wait_starts f s
      else case wait of Resumed since \<Rightarrow> capacity_wait_ends i since now f s | _ \<Rightarrow> s)"

definition push_file ::
  "nat \<Rightarrow> PreparedUploadFile \<Rightarrow> PreparedUploadFile list \<Rightarrow> (nat \<times> PreparedUploadFile list) list \<Rightarrow> push_wait \<Rightarrow>
   number \<Rightarrow> transfer \<Rightarrow> transfer" where
  "push_file i f fs later wait now t =
     (case queue_push (wait \<noteq> Not_waiting) () f (tx_queue t) of (outcome, callbacks, q) \<Rightarrow>
        (let t1 = (if streaming t then upd_session (fold (push_callback i wait now f) callbacks) t else t)\<lparr>tx_queue := q\<rparr>
         in case outcome of
              Push_parked \<Rightarrow>
                t1\<lparr>tx_producer := Pc_pushing i (f # fs) later
                     (Waiting (case wait of Not_waiting \<Rightarrow> now | Waiting since \<Rightarrow> since | Resumed since \<Rightarrow> since))\<rparr>
            | Push_closed \<Rightarrow>
                (if streaming t then producer_throws (Thrown_error ''Queue is closed'') now t1
                 else close_queue (t1\<lparr>tx_producer := Pc_rejected (Thrown_error ''Queue is closed'')\<rparr>))
            | Push_handed c \<Rightarrow> set_worker c (Wk_item f) (t1\<lparr>tx_producer := Pc_pushing i fs later Not_waiting\<rparr>)
            | Push_enqueued \<Rightarrow> t1\<lparr>tx_producer := Pc_pushing i fs later Not_waiting\<rparr>))"

text \<open>The next segment of a producer that is pushing and not suspended.\<close>

definition push_next ::
  "nat \<Rightarrow> PreparedUploadFile list \<Rightarrow> (nat \<times> PreparedUploadFile list) list \<Rightarrow> push_wait \<Rightarrow> number \<Rightarrow> transfer \<Rightarrow> transfer" where
  "push_next i files later wait now t =
     (case files of
        [] \<Rightarrow> window_enqueued i later now t
      | f # fs \<Rightarrow>
          (if wait = Not_waiting \<and> ss_isCancelled (tx_session t)
           then (if streaming t then window_enqueued i later now t
                 else close_queue (t\<lparr>tx_producer := Pc_done True\<rparr>))
           else push_file i f fs later wait now t))"

subsection \<open>Segments of a worker\<close>

definition worker_loop :: "nat \<Rightarrow> transfer \<Rightarrow> transfer" where
  "worker_loop c t =
     (if ss_isCancelled (tx_session t) then set_worker c Wk_done t
      else case queue_shift c (tx_queue t) of
             (Shift_item f resumed, q) \<Rightarrow>
               set_worker c (Wk_item f)
                 (t\<lparr>tx_queue := q,
                    tx_producer := (if resumed = None then tx_producer t else resume_producer (tx_producer t))\<rparr>)
           | (Shift_null, q) \<Rightarrow> set_worker c Wk_done (t\<lparr>tx_queue := q\<rparr>)
           | (Shift_parked, q) \<Rightarrow> set_worker c Wk_waiting (t\<lparr>tx_queue := q\<rparr>))"

definition handled :: "PreparedUploadFile \<Rightarrow> transfer \<Rightarrow> transfer" where
  "handled f t = t\<lparr>tx_handled := tx_handled t @ [f]\<rparr>"

text \<open>The thermal gate and the branches of an item.\<close>

definition worker_item :: "nat \<Rightarrow> PreparedUploadFile \<Rightarrow> NativeReleaseMetrics option \<Rightarrow> number \<Rightarrow> transfer \<Rightarrow> transfer" where
  "worker_item c f release now t =
     (case waitForUpload c (ss_thermal (tx_session t)) of
        (None, th) \<Rightarrow> set_worker c (Wk_parked f) (upd_session (\<lambda>s. s\<lparr>ss_thermal := th\<rparr>) t)
      | (Some False, th) \<Rightarrow> set_worker c Wk_done t
      | (Some True, th) \<Rightarrow>
          (if puf_preflightAction f = Some Skip
           then handled f (set_worker c Wk_loop (upd_session (skip_item release f) t))
           else case puf_preflightFailureCode f of
                  Some code \<Rightarrow> handled f (set_worker c Wk_loop (upd_session (fail_item release code f) t))
                | None \<Rightarrow> set_worker c (Wk_uploading f 0) (upd_session (start_upload now f) t)))"

definition worker_acknowledges :: "nat \<Rightarrow> PreparedUploadFile \<Rightarrow> number \<Rightarrow> number \<Rightarrow> number \<Rightarrow> number \<Rightarrow> transfer \<Rightarrow> transfer" where
  "worker_acknowledges c f acked mediaBytes encodedBytes now t =
     set_worker c (Wk_uploading f (acked + mediaBytes))
       (upd_session (acknowledge_bytes mediaBytes encodedBytes now f) t)"

definition worker_succeeds ::
  "nat \<Rightarrow> PreparedUploadFile \<Rightarrow> bool \<times> string \<times> string option \<Rightarrow> (number \<times> number \<times> upload_timing) option \<Rightarrow>
   NativeReleaseMetrics option \<Rightarrow> number \<Rightarrow> transfer \<Rightarrow> transfer" where
  "worker_succeeds c f result metrics release now t =
     (case result of (skipped, sent, saved) \<Rightarrow>
        handled f (set_worker c Wk_loop
          (upd_session
             (upload_finally release now f \<circ> upload_succeeded skipped sent saved f \<circ>
              native_result_metrics (puf_windowIndex f) metrics) t)))"

definition worker_fails ::
  "nat \<Rightarrow> PreparedUploadFile \<Rightarrow> number \<Rightarrow> thrown \<Rightarrow> NativeReleaseMetrics option \<Rightarrow> number \<Rightarrow> transfer \<Rightarrow> transfer" where
  "worker_fails c f acked e release now t =
     (let finally = upd_session (upload_finally release now f) in
      if isUnauthorizedError e
      then set_worker c Wk_done
             (finally (cancel_transfer (upd_session (\<lambda>s. s\<lparr>ss_fatalError := Some e\<rparr>) t)))
      else if ss_isCancelled (tx_session t) then set_worker c Wk_done (finally t)
      else handled f (set_worker c Wk_loop
             (finally (upd_session
                (upload_failed (transferFailure e Stage_upload Upload_failed) acked f) t))))"

subsection \<open>All interleavings\<close>

text \<open>
  One segment of the producer, of a worker or of a callback. The environment decides when
  the user cancels, what the thermal state does, what preparation and preflight return for
  some behaviour of the platform and the desktop, and how an upload ends.
\<close>

inductive transfer_step :: "transfer \<Rightarrow> transfer \<Rightarrow> bool" where
  user_cancels: "transfer_step t (cancel_transfer t)"
| thermal_changes: "transfer_step t (thermal_event st now t)"
| preparation_reports:
    "tx_producer t = Pc_preparing i rq \<Longrightarrow> transfer_step t (upd_session (preparation_progress_event p) t)"
| window_begins: "tx_producer t = Pc_window i \<Longrightarrow> transfer_step t (begin_window i now t)"
| preparation_returns:
    "tx_producer t = Pc_preparing i rq \<Longrightarrow>
     transfer_step t (window_prepared i rq (prepareAssetWindow env rq) now t)"
| preflight_returns:
    "tx_producer t = Pc_checking i w idle depth active \<Longrightarrow>
     transfer_step t (window_checked i w idle depth active release
       (runDuplicatePreflightWindow clock preflightCheck hashFiles preflightVerify native (pw_files w)
          (ss_skipDuplicates (tx_session t)) (ss_outgoingHashes (tx_session t))) now t)"
| push_runs:
    "tx_producer t = Pc_pushing i files later wait \<Longrightarrow> (\<And>since. wait \<noteq> Waiting since) \<Longrightarrow>
     transfer_step t (push_next i files later wait now t)"
| worker_loops:
    "c < length (tx_workers t) \<Longrightarrow> tx_workers t ! c = Wk_loop \<Longrightarrow> transfer_step t (worker_loop c t)"
| worker_takes:
    "c < length (tx_workers t) \<Longrightarrow> tx_workers t ! c = Wk_item f \<Longrightarrow>
     transfer_step t (worker_item c f release now t)"
| bytes_acknowledged:
    "c < length (tx_workers t) \<Longrightarrow> tx_workers t ! c = Wk_uploading f acked \<Longrightarrow>
     transfer_step t (worker_acknowledges c f acked mediaBytes encodedBytes now t)"
| upload_succeeds:
    "c < length (tx_workers t) \<Longrightarrow> tx_workers t ! c = Wk_uploading f acked \<Longrightarrow>
     transfer_step t (worker_succeeds c f result metrics release now t)"
| upload_fails:
    "c < length (tx_workers t) \<Longrightarrow> tx_workers t ! c = Wk_uploading f acked \<Longrightarrow>
     transfer_step t (worker_fails c f acked e release now t)"


subsection \<open>Lemmas: the accounting core of a session\<close>

text \<open>What the accounting of files depends on; most calls leave it alone.\<close>

record core =
  co_cancelled :: bool
  co_ready :: nat
  co_outcomes :: TransferOutcomes
  co_ops :: "outcome_op list"
  co_windows :: "(nat \<times> PreparedUploadFile list) list"
  co_policy :: PreparationPolicy
  co_thermalCancelled :: bool
  co_fatal :: "thrown option"

definition core_of :: "session \<Rightarrow> core" where
  "core_of s =
     \<lparr>co_cancelled = ss_isCancelled s, co_ready = ss_readyFiles s, co_outcomes = ss_outcomes s,
      co_ops = ss_ops s, co_windows = ss_preparedWindows s, co_policy = ss_policy s,
      co_thermalCancelled = tc_cancelled (ss_thermal s), co_fatal = ss_fatalError s\<rparr>"

definition core_op :: "outcome_op \<Rightarrow> core \<Rightarrow> core" where
  "core_op op k = k\<lparr>co_outcomes := outcomes_step op (co_outcomes k), co_ops := co_ops k @ [op]\<rparr>"

lemma core_of_fields:
  "co_cancelled (core_of s) = ss_isCancelled s" "co_ready (core_of s) = ss_readyFiles s"
  "co_outcomes (core_of s) = ss_outcomes s" "co_ops (core_of s) = ss_ops s"
  "co_windows (core_of s) = ss_preparedWindows s" "co_policy (core_of s) = ss_policy s"
  "co_thermalCancelled (core_of s) = tc_cancelled (ss_thermal s)" "co_fatal (core_of s) = ss_fatalError s"
  by (simp_all add: core_of_def)

lemma core_emit [simp]: "core_of (emit_event e s) = core_of s"
  by (simp add: core_of_def emit_event_def)

lemma core_diag [simp]: "core_of (upd_diag op s) = core_of s"
  by (simp add: core_of_def upd_diag_def)

lemma core_record_op [simp]: "core_of (record_op op s) = core_op op (core_of s)"
  by (simp add: core_of_def record_op_def core_op_def)

lemma core_history [simp]: "core_of (recordHistoryProblem f a s) = core_of s"
  by (simp add: core_of_def recordHistoryProblem_def Let_def)

lemma core_release [simp]: "core_of (release_file uri m s) = core_of s"
  by (simp add: core_of_def release_file_def upd_diag_def Let_def split: option.splits)

lemma core_progress_event [simp]: "core_of (preparation_progress_event p s) = core_of s"
  by (simp add: preparation_progress_event_def Let_def) (simp add: core_of_def)

lemma core_thermal_state [simp]: "core_of (updateThermalState st now s) = core_of s"
  by (simp add: updateThermalState_def) (simp add: core_of_def thermal_update_def thermal_wake_def)

lemma core_finishPreparation [simp]: "core_of (finishPreparation d now s) = core_of s"
  by (simp add: finishPreparation_def) (simp add: core_of_def)

lemma core_capacity [simp]: "core_of (push_callback i wait now f b s) = core_of s"
  by (cases wait) (simp_all add: push_callback_def capacity_wait_starts_def capacity_wait_ends_def Let_def
      core_of_def emit_event_def upd_diag_def)

lemma core_fold_capacity [simp]: "core_of (fold (push_callback i wait now f) bs s) = core_of s"
  by (induction bs arbitrary: s) simp_all

lemma core_checking [simp]: "core_of (fold (checking_progress fs) ps s) = core_of s"
  by (induction ps arbitrary: s) (simp_all add: checking_progress_def)

lemma core_announce [simp]: "core_of (announce_check w s) = core_of s"
  by (simp add: announce_check_def core_of_def emit_event_def Let_def split: list.splits)

lemma core_skip [simp]:
  "core_of (skip_item release f s) = core_op (Op_skip (puf_variantId f) (puf_size f) Skip_preflight) (core_of s)"
  by (simp add: skip_item_def Let_def)

lemma core_fail [simp]:
  "core_of (fail_item release code f s) = core_op (Op_fail (puf_variantId f) False) (core_of s)"
  by (simp add: fail_item_def Let_def)

lemma core_start_upload [simp]: "core_of (start_upload now f s) = core_of s"
  by (simp add: start_upload_def Let_def split: prod.splits) (simp add: core_of_def emit_event_def)

lemma core_acknowledge [simp]: "core_of (acknowledge_bytes m e now f s) = core_of s"
  by (simp add: acknowledge_bytes_def Let_def) (simp add: core_of_def upd_diag_def)

lemma core_native_metrics [simp]: "core_of (native_result_metrics i m s) = core_of s"
  by (simp add: native_result_metrics_def split: option.splits prod.splits) (simp add: core_of_def)

lemma core_succeeded [simp]:
  "core_of (upload_succeeded skipped sent saved f s) =
     core_op (if skipped then Op_skip (puf_variantId f) (puf_size f) Skip_finalization
              else Op_save (puf_variantId f) (puf_size f)) (core_of s)"
  by (simp add: upload_succeeded_def)

lemma core_failed [simp]:
  "core_of (upload_failed failure acked f s) = core_op (Op_fail (puf_variantId f) False) (core_of s)"
proof -
  have "core_of (s\<lparr>ss_plannedUploadMediaBytes := x\<rparr>) = core_of s" for s x by (simp add: core_of_def)
  then show ?thesis by (simp add: upload_failed_def Let_def)
qed

lemma core_finally [simp]: "core_of (upload_finally release now f s) = core_of s"
proof -
  have "core_of (s\<lparr>ss_workerActivity := x\<rparr>) = core_of s" for s x by (simp add: core_of_def)
  then show ?thesis by (simp add: upload_finally_def Let_def)
qed

lemma core_mark_failure:
  "core_of (markPreparationFailure asset i r role sem name stage code s) = core_op (Op_fail i True) (core_of s)"
proof -
  have "core_of (s\<lparr>ss_preparedOutcomeAssetIds := x\<rparr>) = core_of s" for s x by (simp add: core_of_def)
  then show ?thesis by (simp add: markPreparationFailure_def Let_def)
qed

lemma core_record_window [simp]:
  "core_of (record_window n w s) =
     fold (\<lambda>f. core_op (Op_fail (pfl_itemId f) True)) (pw_failures w)
       ((core_of s)\<lparr>co_ready := ss_readyFiles s + length (pw_files w)\<rparr>)"
proof -
  have diag: "core_of (fold (\<lambda>f. upd_diag (D_recordMaterialization f)) fs s) = core_of s" for fs s
    by (induction fs arbitrary: s) simp_all
  have fails: "core_of (fold mark_failure fs s) = fold (\<lambda>f. core_op (Op_fail (pfl_itemId f) True)) fs (core_of s)" for fs s
    by (induction fs arbitrary: s) (simp_all add: mark_failure_def core_mark_failure)
  show ?thesis by (simp add: record_window_def Let_def fails diag) (simp add: core_of_def)
qed

lemma plan_file_core:
  "core_of (wp_session (plan_file release r f p)) = core_of (wp_session p)"
  "map puf_variantId (wp_files (plan_file release r f p)) = map puf_variantId (wp_files p) @ [puf_variantId f]"
proof -
  have "core_of (s\<lparr>ss_preparedOutcomeAssetIds := x, ss_nextUploadFileSequence := n\<rparr>) = core_of s" for s x n
    by (simp add: core_of_def)
  then show "core_of (wp_session (plan_file release r f p)) = core_of (wp_session p)"
    by (simp add: plan_file_def Let_def)
  show "map puf_variantId (wp_files (plan_file release r f p)) = map puf_variantId (wp_files p) @ [puf_variantId f]"
    by (simp add: plan_file_def Let_def checked_file_def)
qed

lemma plan_files_core:
  "core_of (wp_session (fold (plan_file release r) fs p)) = core_of (wp_session p) \<and>
   map puf_variantId (wp_files (fold (plan_file release r) fs p)) = map puf_variantId (wp_files p) @ map puf_variantId fs"
  by (induction fs arbitrary: p) (simp_all add: plan_file_core)

lemma plan_window_core:
  assumes "plan_window release i n w r idle depth active depthEnd now s = (files, s')"
  shows "core_of s' = core_of s" and "map puf_variantId files = map puf_variantId (pw_files w)"
proof -
  have a: "core_of (s\<lparr>ss_plannedUploadMediaBytes := a, ss_diagnosticPlannedUploadBytes := b,
      ss_preflightSkippedFiles := c, ss_preflightSkippedBytes := d\<rparr>) = core_of s" for s a b c d
    by (simp add: core_of_def)
  have b: "core_of (s\<lparr>ss_preparationActivity := a, ss_preflightDurationMs := b, ss_preflightFailureCount := c\<rparr>) = core_of s"
    for s a b c by (simp add: core_of_def)
  from assms show "core_of s' = core_of s" "map puf_variantId files = map puf_variantId (pw_files w)"
    by (auto simp: plan_window_def Let_def plan_files_core a b)
qed

end
