(* ===== verification/SessionInvariant.thy ===== *)
theory SessionInvariant
  imports UploadSession "HOL-Library.Multiset"
begin

text \<open>
  The invariant of the transfer session over all interleavings of \<open>UploadSession\<close>: every
  prepared file is in exactly one place (at the producer, in a stored window, in the ready
  queue, in the hand of a worker, or handled), and the recorded outcomes are those of the
  handled files and of the preparation failures. The properties of a transfer that ends
  follow from it.
\<close>

subsection \<open>Lemmas: every file is somewhere\<close>

fun in_hand :: "worker_pc \<Rightarrow> PreparedUploadFile list" where
  "in_hand (Wk_item f) = [f]"
| "in_hand (Wk_parked f) = [f]"
| "in_hand (Wk_uploading f _) = [f]"
| "in_hand _ = []"

fun producer_files :: "producer_pc \<Rightarrow> PreparedUploadFile list" where
  "producer_files (Pc_checking _ w _ _ _) = pw_files w"
| "producer_files (Pc_pushing _ fs later _) = fs @ concat (map snd later)"
| "producer_files _ = []"

definition ids :: "PreparedUploadFile list \<Rightarrow> string multiset" where
  "ids fs = mset (map puf_variantId fs)"

definition hand_ids :: "worker_pc list \<Rightarrow> string multiset" where
  "hand_ids ws = ids (concat (map in_hand ws))"

definition located :: "transfer \<Rightarrow> string multiset" where
  "located t =
     ids (producer_files (tx_producer t)) + ids (concat (map snd (ss_preparedWindows (tx_session t)))) +
     ids (q_items (tx_queue t)) + hand_ids (tx_workers t) + ids (tx_handled t)"

fun past_preparation :: "producer_pc \<Rightarrow> bool" where
  "past_preparation (Pc_pushing _ _ _ _) = True"
| "past_preparation (Pc_done b) = b"
| "past_preparation _ = False"

text \<open>What holds while the transfer is not cancelled.\<close>

definition live_inv :: "transfer \<Rightarrow> bool" where
  "live_inv t \<longleftrightarrow>
     (let q = tx_queue t; ws = tx_workers t; pc = tx_producer t in
      ids (tx_prepared t) = located t \<and>
      distinct (q_waitingConsumers q) \<and>
      (\<forall>c \<in> set (q_waitingConsumers q). c < length ws \<and> ws ! c = Wk_waiting) \<and>
      (q_waitingConsumers q \<noteq> [] \<longrightarrow> q_items q = []) \<and>
      (q_closed q \<longrightarrow> (\<exists>b. pc = Pc_done b)) \<and>
      (Wk_done \<in> set ws \<longrightarrow> q_closed q \<and> q_items q = []) \<and>
      (streaming t \<or> past_preparation pc \<longrightarrow> ss_preparedWindows (tx_session t) = []) \<and>
      (\<not> streaming t \<and> \<not> past_preparation pc \<longrightarrow> set ws \<subseteq> {Wk_off} \<and> q_items q = [] \<and> q_waitingConsumers q = []) \<and>
      (\<forall>i fs later wait. pc = Pc_pushing i fs later wait \<longrightarrow> streaming t \<longrightarrow> later = []) \<and>
      (\<forall>e. pc \<noteq> Pc_rejected e))"

definition base_inv :: "transfer \<Rightarrow> bool" where
  "base_inv t \<longleftrightarrow>
     (let k = core_of (tx_session t) in
      co_ready k = length (tx_prepared t) \<and>
      co_outcomes k = fold outcomes_step (co_ops k) new_TransferOutcomes \<and>
      map op_id (filter (\<lambda>x. \<not> is_preparation_fail x) (co_ops k)) = map puf_variantId (tx_handled t) \<and>
      (co_fatal k \<noteq> None \<longrightarrow> co_cancelled k) \<and> (co_thermalCancelled k \<longrightarrow> co_cancelled k))"

definition tx_inv :: "transfer \<Rightarrow> bool" where
  "tx_inv t \<longleftrightarrow> base_inv t \<and> (ss_isCancelled (tx_session t) \<or> live_inv t)"

lemma ids_simps [simp]: "ids [] = {#}" "ids (f # fs) = add_mset (puf_variantId f) (ids fs)"
  "ids (fs @ gs) = ids fs + ids gs"
  by (simp_all add: ids_def)

lemma hand_ids_Cons [simp]: "hand_ids [] = {#}" "hand_ids (w # ws) = ids (in_hand w) + hand_ids ws"
  by (simp_all add: hand_ids_def)

lemma hand_update:
  "c < length ws \<Longrightarrow> hand_ids (ws[c := pc]) + ids (in_hand (ws ! c)) = hand_ids ws + ids (in_hand pc)"
proof (induction ws arbitrary: c)
  case (Cons w ws)
  then show ?case by (cases c) (simp_all add: ac_simps)
qed simp

lemma hand_take: "c < length ws \<Longrightarrow> in_hand (ws ! c) = [] \<Longrightarrow> hand_ids (ws[c := pc]) = hand_ids ws + ids (in_hand pc)"
  using hand_update [of c ws pc] by simp

lemma hand_drop: "c < length ws \<Longrightarrow> in_hand pc = [] \<Longrightarrow> hand_ids ws = hand_ids (ws[c := pc]) + ids (in_hand (ws ! c))"
  using hand_update [of c ws pc] by simp

lemma hand_keep: "c < length ws \<Longrightarrow> in_hand pc = in_hand (ws ! c) \<Longrightarrow> hand_ids (ws[c := pc]) = hand_ids ws"
  using hand_update [of c ws pc] by simp

lemma in_hand_unpark [simp]: "in_hand (unpark pc) = in_hand pc"
  by (cases pc) simp_all

lemma hand_unpark [simp]: "hand_ids (map unpark ws) = hand_ids ws"
  by (simp add: hand_ids_def o_def)

lemma unpark_done [simp]: "unpark pc = Wk_done \<longleftrightarrow> pc = Wk_done" "unpark pc = Wk_waiting \<longleftrightarrow> pc = Wk_waiting"
  by (cases pc; simp)+

definition dismissed :: "nat set \<Rightarrow> worker_pc list \<Rightarrow> worker_pc list" where
  "dismissed cs ws = map (\<lambda>(c, pc). if c \<in> cs then Wk_done else pc) (enumerate 0 ws)"

lemma dismissed_nth: "length (dismissed cs ws) = length ws"
  "c < length ws \<Longrightarrow> dismissed cs ws ! c = (if c \<in> cs then Wk_done else ws ! c)"
  by (simp_all add: dismissed_def nth_enumerate_eq)

lemma dismissed_hand:
  assumes "\<forall>c \<in> cs. c < length ws \<longrightarrow> ws ! c = Wk_waiting"
  shows "hand_ids (dismissed cs ws) = hand_ids ws"
proof -
  have "map in_hand (dismissed cs ws) = map in_hand ws"
    using assms by (intro nth_equalityI) (simp_all add: dismissed_nth)
  then show ?thesis by (simp add: hand_ids_def)
qed

lemma dismissed_set: "set (dismissed cs ws) \<subseteq> insert Wk_done (set ws)"
proof
  fix x assume "x \<in> set (dismissed cs ws)"
  then obtain c where "c < length ws" "x = dismissed cs ws ! c" by (metis in_set_conv_nth dismissed_nth(1))
  then show "x \<in> insert Wk_done (set ws)" by (simp add: dismissed_nth)
qed

lemma dismissed_none [simp]: "dismissed {} ws = ws"
  by (intro nth_equalityI) (simp_all add: dismissed_nth)

lemma resume_files [simp]: "producer_files (resume_producer pc) = producer_files pc"
  "past_preparation (resume_producer pc) = past_preparation pc"
  "resume_producer pc = Pc_done b \<longleftrightarrow> pc = Pc_done b"
  "resume_producer pc = Pc_rejected e \<longleftrightarrow> pc = Pc_rejected e"
  by (cases pc rule: resume_producer.cases; auto)+

lemma resume_pushing [dest]:
  "resume_producer pc = Pc_pushing i fs later wait \<Longrightarrow> \<exists>wait'. pc = Pc_pushing i fs later wait'"
  by (cases pc rule: resume_producer.cases) auto

lemma close_queue_conv:
  "close_queue t =
     (if q_closed (tx_queue t) then t
      else t\<lparr>tx_queue := (tx_queue t)\<lparr>q_closed := True, q_waitingConsumers := [], q_waitingProducers := []\<rparr>,
             tx_workers := dismissed (set (q_waitingConsumers (tx_queue t))) (tx_workers t),
             tx_producer := (if q_waitingProducers (tx_queue t) = [] then tx_producer t
                             else resume_producer (tx_producer t))\<rparr>)"
  by (simp add: close_queue_def queue_close_def flip: dismissed_def)

lemma upd_session_simps [simp]:
  "tx_session (upd_session f t) = f (tx_session t)" "tx_queue (upd_session f t) = tx_queue t"
  "tx_producer (upd_session f t) = tx_producer t" "tx_workers (upd_session f t) = tx_workers t"
  "tx_prepared (upd_session f t) = tx_prepared t" "tx_handled (upd_session f t) = tx_handled t"
  by (simp_all add: upd_session_def)

lemma close_queue_simps [simp]:
  "tx_session (close_queue t) = tx_session t" "tx_prepared (close_queue t) = tx_prepared t"
  "tx_handled (close_queue t) = tx_handled t"
  by (simp_all add: close_queue_conv)

lemma set_worker_simps [simp]:
  "tx_session (set_worker c pc t) = tx_session t" "tx_queue (set_worker c pc t) = tx_queue t"
  "tx_producer (set_worker c pc t) = tx_producer t" "tx_prepared (set_worker c pc t) = tx_prepared t"
  "tx_workers (set_worker c pc t) = (tx_workers t)[c := pc]" "tx_handled (set_worker c pc t) = tx_handled t"
  by (simp_all add: set_worker_def)

lemma handled_simps [simp]:
  "tx_session (handled f t) = tx_session t" "tx_queue (handled f t) = tx_queue t"
  "tx_producer (handled f t) = tx_producer t" "tx_prepared (handled f t) = tx_prepared t"
  "tx_workers (handled f t) = tx_workers t" "tx_handled (handled f t) = tx_handled t @ [f]"
  by (simp_all add: handled_def)

subsection \<open>Lemmas: the base invariant\<close>

lemma base_inv_core:
  assumes "base_inv t" and "core_of (tx_session u) = core_of (tx_session t)"
    and "tx_prepared u = tx_prepared t" and "tx_handled u = tx_handled t"
  shows "base_inv u"
  using assms by (simp add: base_inv_def Let_def)

lemma base_inv_handle:
  assumes "base_inv t" and "core_of (tx_session u) = core_op op (core_of (tx_session t))"
    and "op_id op = puf_variantId f" and "\<not> is_preparation_fail op"
    and "tx_prepared u = tx_prepared t" and "tx_handled u = tx_handled t @ [f]"
  shows "base_inv u"
  using assms by (simp add: base_inv_def Let_def core_op_def)

lemma cancel_core:
  "core_of (tx_session (cancel_transfer t)) =
     (core_of (tx_session t))\<lparr>co_cancelled := True, co_thermalCancelled := True\<rparr>"
  "tx_prepared (cancel_transfer t) = tx_prepared t" "tx_handled (cancel_transfer t) = tx_handled t"
  "ss_isCancelled (tx_session (cancel_transfer t))"
  by (simp_all add: cancel_transfer_def Let_def core_of_def thermal_cancel_def thermal_wake_def)

lemma start_workers_core [simp]:
  "core_of (tx_session (start_workers now t)) = core_of (tx_session t)"
  "tx_prepared (start_workers now t) = tx_prepared t" "tx_handled (start_workers now t) = tx_handled t"
  "tx_queue (start_workers now t) = tx_queue t" "tx_producer (start_workers now t) = tx_producer t"
  "tx_workers (start_workers now t) = replicate CONCURRENCY Wk_loop"
  by (simp_all add: start_workers_def core_of_def)

lemma base_inv_cancel: "base_inv t \<Longrightarrow> base_inv (cancel_transfer t)"
  by (simp add: base_inv_def Let_def cancel_core)

lemma core_isCancelled: "core_of s = core_of s' \<Longrightarrow> ss_isCancelled s = ss_isCancelled s'"
  "core_of s = core_of s' \<Longrightarrow> ss_preparedWindows s = ss_preparedWindows s'"
  "core_of s = core_of s' \<Longrightarrow> ss_policy s = ss_policy s'"
  by (metis core_of_fields)+

definition core_windows_cleared :: "core \<Rightarrow> core" where
  "core_windows_cleared k = k\<lparr>co_windows := []\<rparr>"

lemma core_clear [simp]: "core_of (s\<lparr>ss_preparedWindows := []\<rparr>) = core_windows_cleared (core_of s)"
  by (simp add: core_of_def core_windows_cleared_def)

lemma produced_frame:
  "tx_prepared (produced b now t) = tx_prepared t" "tx_handled (produced b now t) = tx_handled t"
  "core_of (tx_session (produced b now t)) =
     (if \<not> streaming t \<and> b then core_windows_cleared (core_of (tx_session t)) else core_of (tx_session t))"
proof -
  show "tx_prepared (produced b now t) = tx_prepared t" "tx_handled (produced b now t) = tx_handled t"
    by (simp_all add: produced_def Let_def split: list.splits)
  show "core_of (tx_session (produced b now t)) =
      (if \<not> streaming t \<and> b then core_windows_cleared (core_of (tx_session t)) else core_of (tx_session t))"
    by (simp add: produced_def Let_def split: list.splits)
qed

lemma base_inv_produced: "base_inv t \<Longrightarrow> base_inv (produced b now t)"
  by (simp add: base_inv_def Let_def produced_frame core_windows_cleared_def)

lemma throws_cancelled: "ss_isCancelled (tx_session (producer_throws e now t))"
  using core_of_fields(1) [of "tx_session (producer_throws e now t)"]
  by (simp add: producer_throws_def produced_frame cancel_core core_windows_cleared_def)

lemma core_fatal [simp]: "core_of (s\<lparr>ss_fatalError := x\<rparr>) = (core_of s)\<lparr>co_fatal := x\<rparr>"
  by (simp add: core_of_def)

lemma base_inv_fatal: "base_inv t \<Longrightarrow> base_inv (cancel_transfer (upd_session (\<lambda>s. s\<lparr>ss_fatalError := x\<rparr>) t))"
  by (simp add: base_inv_def Let_def cancel_core)

lemma base_inv_throws: "base_inv t \<Longrightarrow> base_inv (producer_throws e now t)"
  unfolding producer_throws_def by (intro base_inv_produced base_inv_fatal)

subsection \<open>Lemmas: the invariant while the transfer is live\<close>

lemma streaming_policy: "ss_policy (tx_session u) = ss_policy (tx_session t) \<Longrightarrow> streaming u = streaming t"
  by (simp add: streaming_def)

lemma live_frame:
  assumes "live_inv t" and "core_of (tx_session u) = core_of (tx_session t)"
    and "tx_queue u = tx_queue t" "tx_producer u = tx_producer t" "tx_workers u = tx_workers t"
    and "tx_prepared u = tx_prepared t" "tx_handled u = tx_handled t"
  shows "live_inv u"
  using assms streaming_policy [of u t] core_isCancelled(2,3) [of "tx_session u" "tx_session t"]
  by (simp add: live_inv_def located_def)

lemma live_unpark:
  assumes "live_inv t" and "core_of (tx_session u) = core_of (tx_session t)"
    and "tx_queue u = tx_queue t" "tx_producer u = tx_producer t" "tx_workers u = map unpark (tx_workers t)"
    and "tx_prepared u = tx_prepared t" "tx_handled u = tx_handled t"
  shows "live_inv u"
proof -
  have "Wk_done \<in> unpark ` set ws \<longleftrightarrow> Wk_done \<in> set ws" for ws by (metis image_iff unpark_done(1))
  moreover have "set ws \<subseteq> {Wk_off} \<Longrightarrow> unpark ` set ws \<subseteq> {Wk_off}" for ws by force
  ultimately show ?thesis
    using assms streaming_policy [of u t] core_isCancelled(2,3) [of "tx_session u" "tx_session t"]
    by (auto simp: live_inv_def located_def Let_def)
qed

lemma live_set_worker:
  assumes "live_inv t" and c: "c < length (tx_workers t)"
    and old: "tx_workers t ! c \<notin> {Wk_waiting, Wk_off, Wk_done}" and new: "pc \<notin> {Wk_done, Wk_waiting}"
    and eq: "core_of (tx_session u) = (core_of (tx_session t))\<lparr>co_outcomes := a, co_ops := b\<rparr>"
      "tx_queue u = tx_queue t" "tx_producer u = tx_producer t" "tx_workers u = (tx_workers t)[c := pc]"
      "tx_prepared u = tx_prepared t"
    and files: "ids (tx_handled u) + ids (in_hand pc) = ids (tx_handled t) + ids (in_hand (tx_workers t ! c))"
  shows "live_inv u"
proof -
  let ?ws = "tx_workers t"
  have win: "ss_preparedWindows (tx_session u) = ss_preparedWindows (tx_session t)"
    and pol: "ss_policy (tx_session u) = ss_policy (tx_session t)"
    using eq(1) core_of_fields(5,6) [of "tx_session u"] core_of_fields(5,6) [of "tx_session t"] by simp_all
  note st = streaming_policy [OF pol]
  have "hand_ids (?ws[c := pc]) + ids (tx_handled u) + ids (in_hand (?ws ! c)) =
      hand_ids ?ws + ids (tx_handled t) + ids (in_hand (?ws ! c))"
    using hand_update [OF c, of pc] files by (metis add.assoc add.commute)
  then have "hand_ids (?ws[c := pc]) + ids (tx_handled u) = hand_ids ?ws + ids (tx_handled t)" by simp
  then have "located u = located t" using eq win by (simp add: located_def add.assoc)
  moreover have "Wk_done \<in> set (?ws[c := pc]) \<Longrightarrow> Wk_done \<in> set ?ws"
    using set_update_subset_insert [of ?ws c pc] new by auto
  moreover have "set ?ws \<subseteq> {Wk_off} \<Longrightarrow> False" using old c by (metis insertCI nth_mem singletonD subsetD)
  moreover have "?ws[c := pc] ! d = Wk_waiting" if "?ws ! d = Wk_waiting" "d < length ?ws" for d
    using that old by (cases "d = c") auto
  ultimately show ?thesis using assms(1) eq win st by (auto simp: live_inv_def Let_def)
qed

lemma hand_off: "set ws \<subseteq> {Wk_off} \<Longrightarrow> hand_ids ws = {#}"
  by (induction ws) auto

lemma hand_idle [simp]: "hand_ids (replicate n Wk_loop) = {#}" "hand_ids (replicate n Wk_off) = {#}"
  by (induction n) simp_all

lemma live_close:
  assumes "live_inv t" and "\<not> q_closed (tx_queue t)" and "tx_producer t = Pc_done b"
  shows "live_inv (close_queue t)"
proof -
  let ?q = "tx_queue t" and ?ws = "tx_workers t"
  have cons: "\<forall>c \<in> set (q_waitingConsumers ?q). c < length ?ws \<longrightarrow> ?ws ! c = Wk_waiting"
    using assms(1) by (simp add: live_inv_def Let_def)
  have hands: "hand_ids (dismissed (set (q_waitingConsumers ?q)) ?ws) = hand_ids ?ws"
    using cons by (rule dismissed_hand)
  have none: "Wk_done \<notin> set ?ws" using assms by (auto simp: live_inv_def Let_def)
  have "Wk_done \<in> set (dismissed (set (q_waitingConsumers ?q)) ?ws) \<Longrightarrow> q_items ?q = []"
    using none assms(1) by (cases "q_waitingConsumers ?q = []") (auto simp: live_inv_def Let_def)
  moreover have "set (dismissed (set (q_waitingConsumers ?q)) ?ws) \<subseteq> {Wk_off}"
    if "q_waitingConsumers ?q = []" "set ?ws \<subseteq> {Wk_off}" using that by simp
  ultimately show ?thesis using assms hands
    by (auto simp: live_inv_def close_queue_conv located_def streaming_def Let_def)
qed

lemma not_closed: "live_inv t \<Longrightarrow> (\<And>b. tx_producer t \<noteq> Pc_done b) \<Longrightarrow> \<not> q_closed (tx_queue t)"
  by (auto simp: live_inv_def Let_def)

text \<open>The producer returns from the states in which it holds no file.\<close>

lemma live_produced:
  assumes live: "live_inv t" and pc: "producer_files (tx_producer t) = []" "\<not> past_preparation (tx_producer t)"
    "\<And>b. tx_producer t \<noteq> Pc_done b"
  shows "live_inv (produced b now t)"
proof -
  note closed = not_closed [OF live pc(3)]
  show ?thesis
  proof (cases "streaming t")
    case True
    let ?t = "(if b then upd_session (finishPreparation (queue_maxDepth (tx_queue t)) now) t else t)\<lparr>tx_producer := Pc_done b\<rparr>"
    have core: "core_of (tx_session ?t) = core_of (tx_session t)" by simp
    have "live_inv ?t"
      using live pc closed True core_isCancelled(2,3) [OF core] streaming_policy [of ?t t]
      by (auto simp: live_inv_def located_def Let_def)
    from live_close [OF this] closed show ?thesis using True by (simp add: produced_def Let_def)
  next
    case False
    then have off: "set (tx_workers t) \<subseteq> {Wk_off}" "q_items (tx_queue t) = []" "q_waitingConsumers (tx_queue t) = []"
      using live pc by (simp_all add: live_inv_def Let_def)
    show ?thesis
    proof (cases b)
      case False
      then show ?thesis using \<open>\<not> streaming t\<close> live pc off
        by (auto simp: produced_def live_inv_def located_def streaming_def Let_def)
    next
      case True
      let ?t = "start_workers now (upd_session (finishPreparation (queue_maxDepth (tx_queue t)) now)
          (upd_session (\<lambda>s. s\<lparr>ss_preparedWindows := []\<rparr>) t))"
      have core: "core_of (tx_session ?t) = core_windows_cleared (core_of (tx_session t))" by simp
      then have win: "ss_preparedWindows (tx_session ?t) = []" and st: "\<not> streaming ?t"
        using core_of_fields(5,6) [of "tx_session ?t"] core_of_fields(6) [of "tx_session t"] \<open>\<not> streaming t\<close>
        by (simp_all add: core_windows_cleared_def streaming_def)
      show ?thesis
      proof (cases "ss_preparedWindows (tx_session t)")
        case Nil
        have "live_inv (?t\<lparr>tx_producer := Pc_done True\<rparr>)"
          using live pc off win st closed Nil hand_off [OF off(1)]
          by (auto simp: live_inv_def located_def streaming_def Let_def)
        from live_close [OF this] closed Nil True \<open>\<not> streaming t\<close> show ?thesis
          by (simp add: produced_def Let_def)
      next
        case (Cons v later)
        obtain i fs where v: "v = (i, fs)" by (cases v)
        have "live_inv (?t\<lparr>tx_producer := Pc_pushing i fs later Not_waiting\<rparr>)"
          using live pc off win st closed Cons v hand_off [OF off(1)]
          by (auto simp: live_inv_def located_def streaming_def Let_def)
        then show ?thesis using Cons v True \<open>\<not> streaming t\<close> by (simp add: produced_def Let_def)
      qed
    qed
  qed
qed

subsection \<open>Lemmas: every step keeps the invariant\<close>

lemma tx_inv_cancelled: "base_inv t \<Longrightarrow> ss_isCancelled (tx_session t) \<Longrightarrow> tx_inv t"
  by (simp add: tx_inv_def)

lemma tx_inv_throws: "tx_inv t \<Longrightarrow> tx_inv (producer_throws e now t)"
  by (simp add: tx_inv_def base_inv_throws throws_cancelled)

lemma tx_inv_produced:
  assumes "tx_inv t" and "producer_files (tx_producer t) = []" "\<not> past_preparation (tx_producer t)"
    "\<And>b. tx_producer t \<noteq> Pc_done b"
  shows "tx_inv (produced b now t)"
proof -
  have "ss_isCancelled (tx_session (produced b now t)) = ss_isCancelled (tx_session t)"
    using core_of_fields(1) [of "tx_session (produced b now t)"] core_of_fields(1) [of "tx_session t"]
    by (simp add: produced_frame core_windows_cleared_def split: if_splits)
  then show ?thesis using assms live_produced by (auto simp: tx_inv_def base_inv_produced)
qed

lemma tx_inv_thermal: "tx_inv t \<Longrightarrow> tx_inv (thermal_event st now t)"
proof -
  assume inv: "tx_inv t"
  let ?u = "thermal_event st now t"
  have f: "core_of (tx_session ?u) = core_of (tx_session t)" "tx_queue ?u = tx_queue t"
    "tx_producer ?u = tx_producer t" "tx_prepared ?u = tx_prepared t" "tx_handled ?u = tx_handled t"
    by (simp_all add: thermal_event_def)
  have "tx_workers ?u = tx_workers t \<or> tx_workers ?u = map unpark (tx_workers t)"
    by (simp add: thermal_event_def)
  with f inv live_frame [of t ?u] live_unpark [of t ?u] show ?thesis
    by (auto simp: tx_inv_def core_isCancelled(1) [OF f(1)] intro: base_inv_core)
qed

lemma tx_inv_begin_window:
  assumes "tx_inv t" and "tx_producer t = Pc_window i"
  shows "tx_inv (begin_window i now t)"
proof -
  have "tx_inv ((upd_session (upd_diag (D_beginWindow i n now)) t)\<lparr>tx_producer := Pc_preparing i rq\<rparr>)" for n rq
  proof -
    let ?u = "(upd_session (upd_diag (D_beginWindow i n now)) t)\<lparr>tx_producer := Pc_preparing i rq\<rparr>"
    have core: "core_of (tx_session ?u) = core_of (tx_session t)" by simp
    have "base_inv t \<Longrightarrow> base_inv ?u" by (rule base_inv_core) simp_all
    moreover have "live_inv t \<Longrightarrow> live_inv ?u"
      using assms(2) core_isCancelled(2,3) [OF core] streaming_policy [of ?u t]
      by (auto simp: live_inv_def located_def Let_def)
    ultimately show ?thesis using assms(1) core_isCancelled(1) [OF core] by (auto simp: tx_inv_def)
  qed
  then show ?thesis using tx_inv_produced [OF assms(1)] assms(2) by (simp add: begin_window_def Let_def)
qed

lemma fold_core_op:
  "co_ops (fold (\<lambda>f. core_op (g f)) fs k) = co_ops k @ map g fs"
  "co_outcomes (fold (\<lambda>f. core_op (g f)) fs k) = fold outcomes_step (map g fs) (co_outcomes k)"
  "co_cancelled (fold (\<lambda>f. core_op (g f)) fs k) = co_cancelled k"
  "co_ready (fold (\<lambda>f. core_op (g f)) fs k) = co_ready k"
  "co_windows (fold (\<lambda>f. core_op (g f)) fs k) = co_windows k"
  "co_policy (fold (\<lambda>f. core_op (g f)) fs k) = co_policy k"
  "co_thermalCancelled (fold (\<lambda>f. core_op (g f)) fs k) = co_thermalCancelled k"
  "co_fatal (fold (\<lambda>f. core_op (g f)) fs k) = co_fatal k"
  by (induction fs arbitrary: k) (simp_all add: core_op_def)

lemma tx_inv_window_prepared:
  assumes "tx_inv t" and pc: "tx_producer t = Pc_preparing i rq"
  shows "tx_inv (window_prepared i rq result now t)"
proof (cases result)
  case (Inl message)
  then show ?thesis using tx_inv_throws [OF assms(1)] by (simp add: window_prepared_def)
next
  case (Inr v)
  show ?thesis
  proof (cases v)
    case None
    then show ?thesis using Inr tx_inv_produced [OF assms(1)] pc by (simp add: window_prepared_def)
  next
    case (Some w)
    let ?u = "window_prepared i rq result now t"
    have core: "core_of (tx_session ?u) =
        fold (\<lambda>f. core_op (Op_fail (pfl_itemId f) True)) (pw_failures w)
          ((core_of (tx_session t))\<lparr>co_ready := ss_readyFiles (tx_session t) + length (pw_files w)\<rparr>)"
      using Inr Some by (simp add: window_prepared_def Let_def)
    have f: "tx_prepared ?u = tx_prepared t @ pw_files w" "tx_handled ?u = tx_handled t" "tx_queue ?u = tx_queue t"
        "tx_workers ?u = tx_workers t" "producer_files (tx_producer ?u) = pw_files w"
        "\<not> past_preparation (tx_producer ?u)" "\<forall>b. tx_producer ?u \<noteq> Pc_done b" "\<forall>e. tx_producer ?u \<noteq> Pc_rejected e"
        "\<forall>i fs later wait. tx_producer ?u \<noteq> Pc_pushing i fs later wait"
      using Inr Some by (simp_all add: window_prepared_def Let_def)
    have sess: "ss_preparedWindows (tx_session ?u) = ss_preparedWindows (tx_session t)"
        "ss_policy (tx_session ?u) = ss_policy (tx_session t)" "ss_isCancelled (tx_session ?u) = ss_isCancelled (tx_session t)"
      unfolding core_of_fields [symmetric] core by (simp_all add: fold_core_op)
    have "base_inv t \<Longrightarrow> base_inv ?u"
      by (simp add: base_inv_def Let_def core fold_core_op f core_of_fields(2) filter_map o_def)
    moreover have "live_inv t \<Longrightarrow> live_inv ?u"
      using f sess pc streaming_policy [OF sess(2)] by (auto simp: live_inv_def located_def Let_def ac_simps)
    ultimately show ?thesis using assms(1) sess(3) by (auto simp: tx_inv_def)
  qed
qed

lemma core_outgoing [simp]: "core_of (s\<lparr>ss_outgoingHashes := x\<rparr>) = core_of s"
  by (simp add: core_of_def)

lemma concat_snd_ids: "map puf_variantId fs = map puf_variantId gs \<Longrightarrow> ids fs = ids gs"
  by (simp add: ids_def)

lemma tx_inv_window_checked:
  assumes "tx_inv t" and pc: "tx_producer t = Pc_checking i w idle depth active"
  shows "tx_inv (window_checked i w idle depth active release result now t)"
proof -
  obtain r outgoing progress where result: "result = (r, outgoing, progress)" by (cases result)
  let ?t = "upd_session (fold (checking_progress (pw_files w)) progress \<circ> (\<lambda>s. s\<lparr>ss_outgoingHashes := outgoing\<rparr>)) t"
  let ?u = "window_checked i w idle depth active release result now t"
  have core: "core_of (tx_session ?t) = core_of (tx_session t)" by simp
  have "base_inv t \<Longrightarrow> base_inv ?t" by (rule base_inv_core) simp_all
  moreover have "live_inv t \<Longrightarrow> live_inv ?t" by (rule live_frame) simp_all
  ultimately have inv: "tx_inv ?t" using assms(1) core_isCancelled(1) [OF core] by (auto simp: tx_inv_def)
  show ?thesis
  proof (cases r)
    case (Inl e)
    then show ?thesis using tx_inv_throws [OF inv] result by (simp add: window_checked_def Let_def)
  next
    case (Inr p)
    obtain files s where plan: "plan_window release i (length (window_assets i (tx_session ?t))) w p idle depth active
        (queue_depth (tx_queue ?t)) now (tx_session ?t) = (files, s)" by fastforce
    note pw = plan_window_core [OF plan]
    have s: "ss_isCancelled s = ss_isCancelled (tx_session t)" "ss_preparedWindows s = ss_preparedWindows (tx_session t)"
      "ss_policy s = ss_policy (tx_session t)"
      using core_isCancelled [of s "tx_session t"] pw(1) core by simp_all
    have idsw: "ids files = ids (pw_files w)" using pw(2) by (rule concat_snd_ids)
    show ?thesis
    proof (cases "streaming t")
      case True
      then have u: "?u = ?t\<lparr>tx_session := s, tx_producer := Pc_pushing i files [] Not_waiting\<rparr>"
        using plan result Inr streaming_policy [of ?t t] core_isCancelled(3) [OF core]
        by (simp add: window_checked_def Let_def)
      have "base_inv t \<Longrightarrow> base_inv ?u" by (rule base_inv_core) (simp_all add: u pw(1))
      moreover have "live_inv t \<Longrightarrow> live_inv ?u"
        using True pc s idsw by (auto simp: u live_inv_def located_def streaming_def Let_def)
      ultimately show ?thesis using assms(1) s by (auto simp: tx_inv_def u)
    next
      case False
      let ?s = "s\<lparr>ss_preparedWindows := ss_preparedWindows s @ [(i, files)]\<rparr>"
      have u: "?u = ?t\<lparr>tx_session := ?s, tx_producer := Pc_window (i + 1)\<rparr>"
        using False plan result Inr streaming_policy [of ?t t] core_isCancelled(3) [OF core]
        by (simp add: window_checked_def Let_def)
      have "core_of (x\<lparr>ss_preparedWindows := ws\<rparr>) = (core_of x)\<lparr>co_windows := ws\<rparr>" for x ws
        by (simp add: core_of_def)
      then have "core_of ?s = (core_of (tx_session t))\<lparr>co_windows := ss_preparedWindows s @ [(i, files)]\<rparr>"
        using pw(1) core by simp
      then have "base_inv t \<Longrightarrow> base_inv ?u" by (simp add: u base_inv_def Let_def)
      moreover have "live_inv t \<Longrightarrow> live_inv ?u"
        using False pc s idsw by (auto simp: u live_inv_def located_def streaming_def Let_def ac_simps)
      ultimately show ?thesis using assms(1) s by (auto simp: tx_inv_def u)
    qed
  qed
qed

lemma tx_inv_simpleI:
  assumes "tx_inv t" and core: "core_of (tx_session u) = core_of (tx_session t)"
    and "tx_prepared u = tx_prepared t" "tx_handled u = tx_handled t"
    and live: "live_inv t \<Longrightarrow> base_inv t \<Longrightarrow> \<not> ss_isCancelled (tx_session t) \<Longrightarrow> live_inv u"
  shows "tx_inv u"
  using assms(1,3,4) live core_isCancelled(1) [OF core] base_inv_core [OF _ core]
  by (auto simp: tx_inv_def)

lemma tx_inv_window_enqueued:
  assumes "tx_inv t" and pc: "tx_producer t = Pc_pushing i [] later wait"
  shows "tx_inv (window_enqueued i later now t)"
proof -
  let ?t = "upd_session (upd_diag (D_markWindowEnqueued i (queue_maxDepth (tx_queue t)) now)) t"
  have core: "core_of (tx_session ?t) = core_of (tx_session t)" by simp
  note sess = core_isCancelled(2,3) [OF core]
  show ?thesis
  proof (rule tx_inv_simpleI [OF assms(1)])
    assume live: "live_inv t"
    show "live_inv (window_enqueued i later now t)"
    proof (cases "\<not> streaming t \<and> later = []")
      case True
      have "live_inv (?t\<lparr>tx_producer := Pc_done True\<rparr>)"
        using live pc True sess by (auto simp: live_inv_def located_def streaming_def Let_def)
      from live_close [OF this] show ?thesis
        using True not_closed [OF live] pc by (simp add: window_enqueued_def Let_def)
    next
      case False
      then show ?thesis using live pc sess
        by (auto simp: window_enqueued_def live_inv_def located_def streaming_def Let_def split: list.splits prod.splits)
    qed
  qed (simp_all add: window_enqueued_def Let_def split: list.splits prod.splits)
qed

lemma core_callbacks:
  "core_of (tx_session (if b then upd_session (fold (push_callback i wait now f) cs) t else t)) = core_of (tx_session t)"
  by simp

lemma tx_inv_push_file:
  assumes "tx_inv t" and pc: "tx_producer t = Pc_pushing i (f # fs) later wait"
  shows "tx_inv (push_file i f fs later wait now t)"
proof -
  obtain outcome cs q where push: "queue_push (wait \<noteq> Not_waiting) () f (tx_queue t) = (outcome, cs, q)"
    using prod_cases3 by blast
  let ?t = "(if streaming t then upd_session (fold (push_callback i wait now f) cs) t else t)\<lparr>tx_queue := q\<rparr>"
  let ?u = "push_file i f fs later wait now t"
  have core: "core_of (tx_session ?t) = core_of (tx_session t)" using core_callbacks by simp
  note sess = core_isCancelled [OF core]
  have frame: "tx_producer ?t = tx_producer t" "tx_workers ?t = tx_workers t" "tx_prepared ?t = tx_prepared t"
    "tx_handled ?t = tx_handled t" "tx_queue ?t = q" by simp_all
  show ?thesis
  proof (cases outcome)
    case Push_parked
    then have u: "?u = ?t\<lparr>tx_producer := Pc_pushing i (f # fs) later
        (Waiting (case wait of Not_waiting \<Rightarrow> now | Waiting since \<Rightarrow> since | Resumed since \<Rightarrow> since))\<rparr>"
      using push by (simp add: push_file_def Let_def)
    have "q = (tx_queue t)\<lparr>q_waitingProducers := q_waitingProducers (tx_queue t) @ [()]\<rparr>"
      using push Push_parked by (auto simp: queue_push_def Let_def split: if_splits list.splits)
    then show ?thesis using assms(1) pc sess core frame
      by (intro tx_inv_simpleI [OF assms(1)]; simp add: u; auto simp: live_inv_def located_def streaming_def Let_def)
  next
    case Push_closed
    have closed: "q_closed (tx_queue t)" "q = tx_queue t"
      using push Push_closed by (auto simp: queue_push_def Let_def split: if_splits list.splits)
    then have cancelled: "ss_isCancelled (tx_session t)"
      using assms(1) pc by (auto simp: tx_inv_def live_inv_def Let_def)
    have base: "base_inv ?t"
      using assms(1) core frame base_inv_core [of t ?t] by (simp add: tx_inv_def)
    show ?thesis
    proof (cases "streaming t")
      case True
      then have "?u = producer_throws (Thrown_error ''Queue is closed'') now ?t"
        using push Push_closed by (simp add: push_file_def Let_def)
      then show ?thesis using tx_inv_throws [OF tx_inv_cancelled [OF base]] sess(1) cancelled by simp
    next
      case False
      then have u: "?u = close_queue (?t\<lparr>tx_producer := Pc_rejected (Thrown_error ''Queue is closed'')\<rparr>)"
        using push Push_closed by (simp add: push_file_def Let_def)
      have "base_inv ?u" using base_inv_core [OF base, of ?u] by (simp add: u)
      then show ?thesis using sess(1) cancelled by (intro tx_inv_cancelled) (simp_all add: u)
    qed
  next
    case (Push_handed c)
    then have u: "?u = set_worker c (Wk_item f) (?t\<lparr>tx_producer := Pc_pushing i fs later Not_waiting\<rparr>)"
      using push by (simp add: push_file_def Let_def)
    obtain ds where q: "q_waitingConsumers (tx_queue t) = c # ds" "q = (tx_queue t)\<lparr>q_waitingConsumers := ds\<rparr>"
      using push Push_handed by (auto simp: queue_push_def Let_def split: if_splits list.splits)
    show ?thesis
    proof (rule tx_inv_simpleI [OF assms(1)])
      assume live: "live_inv t"
      have c: "c < length (tx_workers t)" "tx_workers t ! c = Wk_waiting" "c \<notin> set ds"
        using live q by (simp_all add: live_inv_def Let_def)
      have hand: "hand_ids ((tx_workers t)[c := Wk_item f]) = hand_ids (tx_workers t) + ids [f]"
        using hand_take [OF c(1)] c(2) by simp
      have "Wk_done \<in> set ((tx_workers t)[c := Wk_item f]) \<Longrightarrow> Wk_done \<in> set (tx_workers t)"
        using set_update_subset_insert [of "tx_workers t" c "Wk_item f"] by auto
      then show "live_inv ?u" using live pc c q hand sess
        by (auto simp: u live_inv_def located_def streaming_def Let_def nth_list_update)
    qed (use core in \<open>simp_all add: u\<close>)
  next
    case Push_enqueued
    then have u: "?u = ?t\<lparr>tx_producer := Pc_pushing i fs later Not_waiting\<rparr>"
      using push by (simp add: push_file_def Let_def)
    have q: "q_waitingConsumers (tx_queue t) = []" "q_items q = q_items (tx_queue t) @ [f]" "q_waitingConsumers q = []"
        "q_closed q = q_closed (tx_queue t)"
      using push Push_enqueued by (auto simp: queue_push_def Let_def split: if_splits list.splits)
    show ?thesis
    proof (rule tx_inv_simpleI [OF assms(1)])
      assume live: "live_inv t"
      then have "\<not> q_closed (tx_queue t)" using pc by (intro not_closed) simp_all
      then show "live_inv ?u" using live pc q sess
        by (auto simp: u live_inv_def located_def streaming_def Let_def)
    qed (use core in \<open>simp_all add: u\<close>)
  qed
qed

lemma tx_inv_push_next:
  assumes "tx_inv t" and pc: "tx_producer t = Pc_pushing i files later wait"
  shows "tx_inv (push_next i files later wait now t)"
proof (cases files)
  case Nil
  then show ?thesis using tx_inv_window_enqueued [OF assms(1)] pc by (simp add: push_next_def)
next
  case (Cons f fs)
  show ?thesis
  proof (cases "wait = Not_waiting \<and> ss_isCancelled (tx_session t)")
    case True
    have base: "base_inv t" using assms(1) by (simp add: tx_inv_def)
    let ?u = "push_next i files later wait now t"
    have "core_of (tx_session ?u) = core_of (tx_session t) \<and> tx_prepared ?u = tx_prepared t \<and> tx_handled ?u = tx_handled t"
      using True Cons by (auto simp: push_next_def window_enqueued_def Let_def split: list.splits prod.splits)
    then show ?thesis
      using base True core_isCancelled(1) [of "tx_session ?u" "tx_session t"] base_inv_core [OF base, of ?u]
      by (auto intro!: tx_inv_cancelled)
  next
    case False
    then have "push_next i files later wait now t = push_file i f fs later wait now t"
      using Cons by (simp add: push_next_def del: de_Morgan_conj)
    then show ?thesis using tx_inv_push_file [OF assms(1)] pc Cons by simp
  qed
qed

lemma tx_inv_worker_loop:
  assumes "tx_inv t" and c: "c < length (tx_workers t)" and pc: "tx_workers t ! c = Wk_loop"
  shows "tx_inv (worker_loop c t)"
proof (rule tx_inv_simpleI [OF assms(1)])
  assume live: "live_inv t" and on: "\<not> ss_isCancelled (tx_session t)"
  let ?q = "tx_queue t" and ?ws = "tx_workers t"
  have c_out: "c \<notin> set (q_waitingConsumers ?q)" using live pc by (auto simp: live_inv_def Let_def)
  have active: "streaming t \<or> past_preparation (tx_producer t)"
    using live c pc nth_mem [OF c] by (force simp: live_inv_def Let_def)
  have other: "?ws[c := p] ! d = Wk_waiting" if "d \<in> set (q_waitingConsumers ?q)" for d p
  proof -
    have "?ws ! d = Wk_waiting" "d \<noteq> c" using live that c_out by (auto simp: live_inv_def Let_def)
    then show ?thesis by simp
  qed
  have sub: "set (?ws[c := p]) \<subseteq> insert p (set ?ws)" for p by (rule set_update_subset_insert)
  have wait: "hand_ids (?ws[c := p]) = hand_ids ?ws" if "in_hand p = []" for p
    using that pc by (intro hand_keep [OF c]) simp
  show "live_inv (worker_loop c t)"
  proof (cases "q_items ?q")
    case (Cons f rest)
    obtain r q where shift: "queue_shift c ?q = (Shift_item f r, q)" and q: "q_items q = rest"
        "q_waitingConsumers q = q_waitingConsumers ?q" "q_closed q = q_closed ?q"
      using Cons by (cases "q_waitingProducers ?q") (auto simp: queue_shift_def)
    have none: "q_waitingConsumers ?q = []" "Wk_done \<notin> set ?ws" using live Cons by (auto simp: live_inv_def Let_def)
    have "hand_ids (?ws[c := Wk_item f]) = hand_ids ?ws + ids [f]" using hand_take [OF c] pc by simp
    moreover have "Wk_done \<notin> set (?ws[c := Wk_item f])" using sub none by blast
    ultimately show ?thesis using live shift q Cons on active none
      by (auto simp: worker_loop_def live_inv_def located_def streaming_def Let_def)
  next
    case Nil
    show ?thesis
    proof (cases "q_closed ?q")
      case True
      then have "queue_shift c ?q = (Shift_null, ?q)" using Nil by (simp add: queue_shift_def)
      then show ?thesis using live Nil True on active wait other
        by (auto simp: worker_loop_def live_inv_def located_def streaming_def Let_def)
    next
      case False
      have "Wk_done \<notin> set ?ws" using live False by (auto simp: live_inv_def Let_def)
      then have "Wk_done \<notin> set (?ws[c := Wk_waiting])" using sub by blast
      moreover have "queue_shift c ?q = (Shift_parked, ?q\<lparr>q_waitingConsumers := q_waitingConsumers ?q @ [c]\<rparr>)"
        using Nil False by (simp add: queue_shift_def)
      ultimately show ?thesis using live Nil False on active wait other c c_out
        by (auto simp: worker_loop_def live_inv_def located_def streaming_def Let_def)
    qed
  qed
qed (auto simp: worker_loop_def split: prod.splits shift_outcome.splits)

text \<open>A worker that records the outcome of its item.\<close>

lemma tx_inv_handle:
  assumes "tx_inv t" and c: "c < length (tx_workers t)" and item: "in_hand (tx_workers t ! c) = [f]"
    and "core_of (tx_session u) = core_op op (core_of (tx_session t))"
    and "op_id op = puf_variantId f" and "\<not> is_preparation_fail op"
    and "tx_queue u = tx_queue t" "tx_producer u = tx_producer t" "tx_workers u = (tx_workers t)[c := Wk_loop]"
      "tx_prepared u = tx_prepared t" "tx_handled u = tx_handled t @ [f]"
  shows "tx_inv u"
proof -
  have "base_inv t \<Longrightarrow> base_inv u"
    by (rule base_inv_handle) (use assms in simp_all)
  moreover have "live_inv t \<Longrightarrow> live_inv u"
    by (rule live_set_worker [OF _ c, where pc = Wk_loop and u = u and a = "co_outcomes (core_of (tx_session u))"
          and b = "co_ops (core_of (tx_session u))"])
      (use assms item in \<open>auto simp: core_op_def\<close>)
  moreover have "ss_isCancelled (tx_session u) = ss_isCancelled (tx_session t)"
    using assms(4) core_of_fields(1) [of "tx_session u"] core_of_fields(1) [of "tx_session t"] by (simp add: core_op_def)
  ultimately show ?thesis using assms(1) by (auto simp: tx_inv_def)
qed

text \<open>A worker that keeps its item.\<close>

lemma tx_inv_hold:
  assumes "tx_inv t" and c: "c < length (tx_workers t)" and item: "in_hand (tx_workers t ! c) = [f]" "in_hand pc = [f]"
    and "core_of (tx_session u) = core_of (tx_session t)"
    and "tx_queue u = tx_queue t" "tx_producer u = tx_producer t" "tx_workers u = (tx_workers t)[c := pc]"
      "tx_prepared u = tx_prepared t" "tx_handled u = tx_handled t"
  shows "tx_inv u"
proof (rule tx_inv_simpleI [OF assms(1)])
  assume live: "live_inv t"
  show "live_inv u"
    by (rule live_set_worker [OF live c, where pc = pc and u = u and a = "co_outcomes (core_of (tx_session u))"
          and b = "co_ops (core_of (tx_session u))"])
      (use assms item in auto)
qed (use assms in simp_all)

lemma core_thermal_field:
  "tc_cancelled th = tc_cancelled (ss_thermal s) \<Longrightarrow> core_of (s\<lparr>ss_thermal := th\<rparr>) = core_of s"
  by (simp add: core_of_def)

lemma tx_inv_worker_item:
  assumes "tx_inv t" and c: "c < length (tx_workers t)" and pc: "tx_workers t ! c = Wk_item f"
  shows "tx_inv (worker_item c f release now t)"
proof -
  obtain r th where gate: "waitForUpload c (ss_thermal (tx_session t)) = (r, th)" by fastforce
  have th: "tc_cancelled th = tc_cancelled (ss_thermal (tx_session t))"
    "r = Some False \<Longrightarrow> tc_cancelled (ss_thermal (tx_session t))"
    using gate by (auto simp: waitForUpload_def split: if_splits)
  have item: "in_hand (tx_workers t ! c) = [f]" using pc by simp
  consider (park) "r = None" | (cancelled) "r = Some False" | (go) "r = Some True" by (cases r) auto
  then show ?thesis
  proof cases
    case park
    then show ?thesis using gate core_thermal_field [OF th(1)]
      by (intro tx_inv_hold [OF assms(1) c item, of "Wk_parked f"]) (simp_all add: worker_item_def)
  next
    case cancelled
    then have "ss_isCancelled (tx_session t)"
      using assms(1) th by (simp add: tx_inv_def base_inv_def core_of_def Let_def)
    moreover have "base_inv (set_worker c Wk_done t)"
      using assms(1) base_inv_core [of t "set_worker c Wk_done t"] by (simp add: tx_inv_def)
    ultimately show ?thesis using gate cancelled by (intro tx_inv_cancelled) (simp_all add: worker_item_def)
  next
    case go
    show ?thesis
    proof (cases "puf_preflightAction f = Some Skip")
      case True
      then show ?thesis using gate go
        by (intro tx_inv_handle [OF assms(1) c item,
              where op = "Op_skip (puf_variantId f) (puf_size f) Skip_preflight"]) (simp_all add: worker_item_def)
    next
      case False
      show ?thesis
      proof (cases "puf_preflightFailureCode f")
        case (Some code)
        then show ?thesis using gate go False
          by (intro tx_inv_handle [OF assms(1) c item, where op = "Op_fail (puf_variantId f) False"])
            (simp_all add: worker_item_def)
      next
        case None
        then show ?thesis using gate go False
          by (intro tx_inv_hold [OF assms(1) c item, of "Wk_uploading f 0"]) (simp_all add: worker_item_def)
      qed
    qed
  qed
qed

lemma tx_inv_worker_succeeds:
  assumes "tx_inv t" and c: "c < length (tx_workers t)" and pc: "tx_workers t ! c = Wk_uploading f acked"
  shows "tx_inv (worker_succeeds c f result metrics release now t)"
proof -
  obtain skipped sent saved where r: "result = (skipped, sent, saved)" by (cases result)
  have item: "in_hand (tx_workers t ! c) = [f]" using pc by simp
  show ?thesis
    by (rule tx_inv_handle [OF assms(1) c item,
          where op = "if skipped then Op_skip (puf_variantId f) (puf_size f) Skip_finalization
              else Op_save (puf_variantId f) (puf_size f)"])
      (simp_all add: worker_succeeds_def r)
qed

lemma tx_inv_worker_fails:
  assumes "tx_inv t" and c: "c < length (tx_workers t)" and pc: "tx_workers t ! c = Wk_uploading f acked"
  shows "tx_inv (worker_fails c f acked e release now t)"
proof -
  have item: "in_hand (tx_workers t ! c) = [f]" using pc by simp
  have base: "base_inv t" using assms(1) by (simp add: tx_inv_def)
  let ?fin = "\<lambda>t. set_worker c Wk_done (upd_session (upload_finally release now f) t)"
  have fin: "tx_inv (?fin x)" if "base_inv x" "ss_isCancelled (tx_session x)" for x
  proof (rule tx_inv_cancelled)
    show "base_inv (?fin x)" using base_inv_core [OF that(1), of "?fin x"] by simp
    have "core_of (tx_session (?fin x)) = core_of (tx_session x)" by simp
    then show "ss_isCancelled (tx_session (?fin x))" using that(2) core_isCancelled(1) by blast
  qed
  show ?thesis
  proof (cases "isUnauthorizedError e")
    case True
    then show ?thesis using fin [OF base_inv_fatal [OF base] cancel_core(4)] by (simp add: worker_fails_def Let_def)
  next
    case False
    show ?thesis
    proof (cases "ss_isCancelled (tx_session t)")
      case True
      then show ?thesis using False fin [OF base True] by (simp add: worker_fails_def Let_def)
    next
      case on: False
      then show ?thesis using False
        by (intro tx_inv_handle [OF assms(1) c item, where op = "Op_fail (puf_variantId f) False"])
          (simp_all add: worker_fails_def Let_def)
    qed
  qed
qed

lemma transfer_step_inv: "transfer_step t u \<Longrightarrow> tx_inv t \<Longrightarrow> tx_inv u"
proof (induction rule: transfer_step.induct)
  case (user_cancels t)
  then show ?case by (simp add: tx_inv_def base_inv_cancel cancel_core)
next
  case (preparation_reports t i rq p)
  show ?case
    by (rule tx_inv_simpleI [OF preparation_reports(2)]) (auto intro: live_frame)
next
  case (bytes_acknowledged c t f acked mediaBytes encodedBytes now)
  then show ?case
    by (intro tx_inv_hold [OF bytes_acknowledged(3,1), of f "Wk_uploading f (acked + mediaBytes)"])
      (simp_all add: worker_acknowledges_def)
qed (simp_all add: tx_inv_thermal tx_inv_begin_window tx_inv_window_prepared tx_inv_window_checked
    tx_inv_push_next tx_inv_worker_loop tx_inv_worker_item tx_inv_worker_succeeds tx_inv_worker_fails)

interpretation transfer: transition_inv transfer_step tx_inv
  by unfold_locales (rule transfer_step_inv)

lemma tx_inv_init: "tx_inv (init_transfer (new_session sid ref assets opts native ver env t0) now)"
proof -
  let ?s = "new_session sid ref assets opts native ver env t0"
  have "core_of (?s\<lparr>ss_workerActivity := a\<rparr>) = core_of ?s" for a by (simp add: core_of_def)
  moreover have "core_of ?s = \<lparr>co_cancelled = False, co_ready = 0, co_outcomes = new_TransferOutcomes, co_ops = [],
      co_windows = [], co_policy = ss_policy ?s, co_thermalCancelled = False, co_fatal = None\<rparr>"
    by (simp add: core_of_def new_session_def new_ThermalController_def Let_def)
  moreover have "ss_preparedWindows ?s = []" "\<not> ss_isCancelled ?s" by (simp_all add: new_session_def Let_def)
  ultimately show ?thesis
    by (auto simp: tx_inv_def base_inv_def live_inv_def located_def init_transfer_def start_workers_def streaming_def
        hand_off Let_def)
qed

subsection \<open>Lemmas: counting outcomes\<close>

abbreviation item_ops :: "outcome_op list \<Rightarrow> outcome_op list" where
  "item_ops ops \<equiv> filter (\<lambda>x. \<not> is_preparation_fail x) ops"

abbreviation failure_ids :: "outcome_op list \<Rightarrow> string set" where
  "failure_ids ops \<equiv> op_id ` set (filter is_preparation_fail ops)"

lemma completed_count:
  assumes "distinct (map op_id (item_ops ops))" and "op_id ` set (item_ops ops) \<inter> failure_ids ops = {}"
  shows "filesCompleted (fold outcomes_step ops new_TransferOutcomes) =
           length (item_ops ops) + preparationFailedFiles (fold outcomes_step ops new_TransferOutcomes)"
  using assms
proof (induction ops rule: rev_induct)
  case Nil
  then show ?case by (simp add: new_TransferOutcomes_def)
next
  case (snoc x ops)
  let ?s = "fold outcomes_step ops new_TransferOutcomes"
  have known: "terminalIds ?s = op_id ` set ops"
    using outcomes_ledger.recorded_marks [of ops new_TransferOutcomes] by (simp add: new_TransferOutcomes_def)
  have IH: "filesCompleted ?s = length (item_ops ops) + preparationFailedFiles ?s"
    using snoc.prems by (intro snoc.IH) (auto split: if_splits)
  show ?case
  proof (cases "is_preparation_fail x")
    case True
    then show ?thesis using IH
      by (cases "op_id x \<in> terminalIds ?s") (simp_all add: outcomes_step_known outcomes_step_fresh outcomes_step_completed)
  next
    case False
    then have "op_id x \<notin> op_id ` set (item_ops ops)" "op_id x \<notin> failure_ids ops" using snoc.prems by auto
    then have "op_id x \<notin> terminalIds ?s" unfolding known by auto
    then show ?thesis using IH False by (simp add: outcomes_step_fresh outcomes_step_completed)
  qed
qed

lemma mark_missing_core:
  "\<exists>ms. core_of (fold mark_missing es s) = fold (\<lambda>i. core_op (Op_fail i True)) ms (core_of s) \<and>
     set ms \<subseteq> (\<lambda>e. ma_id (snd e) @ '':missing'') ` set es"
proof (induction es arbitrary: s)
  case Nil
  then show ?case by (intro exI [of _ "[]"]) simp
next
  case (Cons e es)
  from Cons.IH [of "mark_missing e s"] obtain ms where
    ms: "core_of (fold mark_missing es (mark_missing e s)) = fold (\<lambda>i. core_op (Op_fail i True)) ms (core_of (mark_missing e s))"
      "set ms \<subseteq> (\<lambda>e. ma_id (snd e) @ '':missing'') ` set es" by blast
  show ?case
  proof (cases "ma_id (snd e) \<in> ss_preparedOutcomeAssetIds s")
    case True
    then have "mark_missing e s = s" by (cases e) (simp add: mark_missing_def)
    then show ?thesis using ms by (intro exI [of _ ms]) auto
  next
    case False
    then have "core_of (mark_missing e s) = core_op (Op_fail (ma_id (snd e) @ '':missing'') True) (core_of s)"
      by (cases e) (simp add: mark_missing_def core_mark_failure)
    then show ?thesis using ms by (intro exI [of _ "(ma_id (snd e) @ '':missing'') # ms"]) auto
  qed
qed

lemma mark_all_missing_core:
  assumes "\<not> ss_isCancelled s"
  obtains ms where "core_of (mark_all_missing s) = fold (\<lambda>i. core_op (Op_fail i True)) ms (core_of s)"
    and "set ms \<subseteq> (\<lambda>a. ma_id a @ '':missing'') ` set (ss_assets s)"
proof -
  from mark_missing_core [of "enumerate 0 (ss_assets s)" s] obtain ms where
    ms: "core_of (mark_all_missing s) = fold (\<lambda>i. core_op (Op_fail i True)) ms (core_of s)"
      "set ms \<subseteq> (\<lambda>e. ma_id (snd e) @ '':missing'') ` set (enumerate 0 (ss_assets s))"
    using assms by (auto simp: mark_all_missing_def)
  have "(\<lambda>e. ma_id (snd e) @ '':missing'') ` set (enumerate 0 (ss_assets s)) =
      (\<lambda>a. ma_id a @ '':missing'') ` snd ` set (enumerate 0 (ss_assets s))" by (simp only: image_image)
  also have "snd ` set (enumerate 0 (ss_assets s)) = set (map snd (enumerate 0 (ss_assets s)))" by (simp only: set_map)
  finally show thesis using ms that by simp
qed

text \<open>A transfer whose producer and workers are done: every prepared file was handled.\<close>

lemma done_handled:
  assumes "live_inv t" and "tx_producer t = Pc_done True" and "tx_workers t = replicate CONCURRENCY Wk_done"
  shows "ids (tx_prepared t) = ids (tx_handled t)"
proof -
  have "Wk_done \<in> set (tx_workers t)" using assms(3) by (simp add: CONCURRENCY_def)
  moreover have "hand_ids (replicate n Wk_done) = {#}" for n by (induction n) simp_all
  ultimately show ?thesis using assms by (auto simp: live_inv_def located_def Let_def)
qed

lemma final_counts:
  assumes inv: "tx_inv t" and fin: "tx_producer t = Pc_done True" "tx_workers t = replicate CONCURRENCY Wk_done"
    and on: "\<not> ss_isCancelled (tx_session t)"
    and d: "distinct (map puf_variantId (tx_prepared t))"
    and dis: "\<forall>f \<in> set (tx_prepared t). puf_variantId f \<notin> failure_ids (ss_ops (tx_session t))"
      "\<forall>f \<in> set (tx_prepared t). \<forall>a \<in> set (ss_assets (tx_session t)). puf_variantId f \<noteq> ma_id a @ '':missing''"
    and s: "s = mark_all_missing (tx_session t)"
  shows "uploadedFiles (ss_outcomes s) + skippedFiles (ss_outcomes s) + failedFiles (ss_outcomes s) = expanded_files s"
    and "puf_variantId ` set (tx_prepared t) \<subseteq> terminalIds (ss_outcomes s)"
    and "ss_readyFiles s = length (tx_prepared t)" and "\<not> ss_isCancelled s"
proof -
  have live: "live_inv t" and base: "base_inv t" using inv on by (simp_all add: tx_inv_def)
  note same = done_handled [OF live fin]
  obtain ms where ms: "core_of s = fold (\<lambda>i. core_op (Op_fail i True)) ms (core_of (tx_session t))"
      "set ms \<subseteq> (\<lambda>a. ma_id a @ '':missing'') ` set (ss_assets (tx_session t))"
    using mark_all_missing_core [OF on] s by blast
  let ?ops = "ss_ops (tx_session t) @ map (\<lambda>i. Op_fail i True) ms"
  have b: "ss_outcomes s = fold outcomes_step ?ops new_TransferOutcomes" "ss_readyFiles s = length (tx_prepared t)"
      "map op_id (item_ops ?ops) = map puf_variantId (tx_handled t)"
    using base ms(1) core_of_fields(2,3) [of s]
    by (simp_all add: base_inv_def Let_def fold_core_op core_of_fields filter_map o_def)
  have handled: "mset (map puf_variantId (tx_prepared t)) = mset (map puf_variantId (tx_handled t))"
    using same by (simp add: ids_def)
  then have sets: "puf_variantId ` set (tx_handled t) = puf_variantId ` set (tx_prepared t)"
    and len: "length (tx_handled t) = length (tx_prepared t)"
    and dh: "distinct (map puf_variantId (tx_handled t))"
    using d by (metis mset_eq_setD set_map, metis mset_eq_length length_map, metis mset_eq_imp_distinct_iff)
  have items: "op_id ` set (item_ops ?ops) = puf_variantId ` set (tx_prepared t)"
    using arg_cong [OF b(3), of set] sets by (simp only: set_map)
  have "failure_ids ?ops = failure_ids (ss_ops (tx_session t)) \<union> set ms"
    by (simp add: image_Un image_image filter_map o_def)
  then have "op_id ` set (item_ops ?ops) \<inter> failure_ids ?ops = {}"
    using dis ms(2) unfolding items by blast
  from completed_count [OF _ this] b dh have "filesCompleted (ss_outcomes s) =
      length (item_ops ?ops) + preparationFailedFiles (ss_outcomes s)" by simp
  moreover have "length (item_ops ?ops) = ss_readyFiles s" using arg_cong [OF b(3), of length] len b(2) by simp
  moreover have "outcomes_inv (ss_outcomes s)" unfolding b(1) by (intro outcomes.run_inv outcomes_inv_new)
  ultimately show "uploadedFiles (ss_outcomes s) + skippedFiles (ss_outcomes s) + failedFiles (ss_outcomes s) = expanded_files s"
    by (simp add: outcomes_inv_def expanded_files_def)
  have "terminalIds (ss_outcomes s) = op_id ` set ?ops"
    unfolding b(1) using outcomes_ledger.recorded_marks [of ?ops new_TransferOutcomes] by (simp add: new_TransferOutcomes_def)
  then show "puf_variantId ` set (tx_prepared t) \<subseteq> terminalIds (ss_outcomes s)" unfolding items [symmetric] by auto
  show "ss_readyFiles s = length (tx_prepared t)" by (rule b)
  show "\<not> ss_isCancelled s" using ms(1) core_of_fields(1) [of s] on by (simp add: fold_core_op core_of_fields)
qed

end
