(* ===== verification/SessionProgress.thy ===== *)
theory SessionProgress
  imports SessionInvariant
begin

text \<open>
  The scheduling of the transfer session: who waits for whom between the producer, the
  ready queue, the thermal gate and the workers of \<open>UploadSession\<close>, as an invariant of all
  interleavings, cancelled ones included. A session that is not finished can always go on,
  unless a worker other than the first is held by the heat.
\<close>

subsection \<open>The scheduling invariant\<close>

fun pc_waits :: "producer_pc \<Rightarrow> bool" where
  "pc_waits (Pc_pushing _ _ _ (Waiting _)) = True"
| "pc_waits _ = False"

fun pc_pushes :: "producer_pc \<Rightarrow> bool" where
  "pc_pushes (Pc_pushing _ _ _ _) = True"
| "pc_pushes _ = False"

fun pc_ended :: "producer_pc \<Rightarrow> bool" where
  "pc_ended (Pc_done _) = True"
| "pc_ended (Pc_rejected _) = True"
| "pc_ended _ = False"

definition heat :: "ThermalController \<Rightarrow> bool" where
  "heat c \<longleftrightarrow> controlMode c = Control_reduced \<and> \<not> tc_cancelled c"

text \<open>
  \<open>st\<close>: the session streams; \<open>can\<close>: it is cancelled; \<open>ht\<close>: the gate holds workers.
\<close>

definition sched_inv ::
  "bool \<Rightarrow> bool \<Rightarrow> bool \<Rightarrow> (PreparedUploadFile, unit, nat) BoundedAsyncQueue \<Rightarrow> producer_pc \<Rightarrow> worker_pc list \<Rightarrow> bool" where
  "sched_inv st can ht q pc ws \<longleftrightarrow>
     length ws = CONCURRENCY \<and> 0 < q_capacity q \<and>
     (\<forall>c f. c < length ws \<longrightarrow> ws ! c = Wk_parked f \<longrightarrow> 0 < c \<and> ht) \<and>
     distinct (q_waitingConsumers q) \<and>
     (\<forall>c. c \<in> set (q_waitingConsumers q) \<longleftrightarrow> c < length ws \<and> ws ! c = Wk_waiting) \<and>
     (q_waitingConsumers q \<noteq> [] \<longrightarrow> q_items q = [] \<and> \<not> q_closed q) \<and>
     q_waitingProducers q = (if pc_waits pc then [()] else []) \<and>
     (pc_waits pc \<longrightarrow> q_capacity q \<le> length (q_items q) \<and> \<not> q_closed q \<and> producer_files pc \<noteq> []) \<and>
     (pc_ended pc \<longrightarrow> q_closed q \<or> set ws \<subseteq> {Wk_off}) \<and>
     (Wk_off \<in> set ws \<longrightarrow> set ws \<subseteq> {Wk_off} \<and> \<not> st \<and> \<not> pc_pushes pc) \<and>
     (\<not> st \<and> \<not> pc_pushes pc \<and> \<not> pc_ended pc \<longrightarrow> set ws \<subseteq> {Wk_off}) \<and>
     (Wk_done \<in> set ws \<longrightarrow> q_closed q) \<and>
     (can \<longrightarrow> q_closed q)"

definition prog_inv :: "transfer \<Rightarrow> bool" where
  "prog_inv t \<longleftrightarrow>
     sched_inv (streaming t) (ss_isCancelled (tx_session t) \<or> tc_cancelled (ss_thermal (tx_session t)))
       (heat (ss_thermal (tx_session t))) (tx_queue t) (tx_producer t) (tx_workers t)"

subsection \<open>Lemmas: the scheduling state\<close>

lemma resume_pc [simp]: "\<not> pc_waits (resume_producer pc)" "pc_pushes (resume_producer pc) = pc_pushes pc"
  "pc_ended (resume_producer pc) = pc_ended pc" "\<not> pc_waits pc \<Longrightarrow> resume_producer pc = pc"
  by (cases pc rule: resume_producer.cases; simp)+

lemma sched_parts:
  assumes "sched_inv st can ht q pc ws"
  shows "length ws = CONCURRENCY" "\<And>c f. c < length ws \<Longrightarrow> ws ! c = Wk_parked f \<Longrightarrow> 0 < c \<and> ht"
    "\<And>c. c \<in> set (q_waitingConsumers q) \<longleftrightarrow> c < length ws \<and> ws ! c = Wk_waiting"
    "pc_ended pc \<Longrightarrow> q_closed q \<or> set ws \<subseteq> {Wk_off}" "Wk_off \<in> set ws \<Longrightarrow> set ws \<subseteq> {Wk_off}"
    "Wk_done \<in> set ws \<Longrightarrow> q_closed q" "can \<Longrightarrow> q_closed q"
    "\<not> (st \<or> pc_pushes pc \<or> pc_ended pc) \<Longrightarrow> set ws \<subseteq> {Wk_off}"
  using assms by (simp_all add: sched_inv_def)

lemma sched_cancel: "sched_inv st can ht q pc ws \<Longrightarrow> q_closed q \<Longrightarrow> sched_inv st can' ht q pc ws"
  unfolding sched_inv_def by (elim conjE, intro conjI; simp)

lemma sched_pc:
  assumes "sched_inv st can ht q pc ws" and "\<not> pc_waits pc" and "\<not> pc_waits pc'" and "\<not> pc_ended pc'"
    and "pc_pushes pc' \<noteq> pc_pushes pc \<or> pc_ended pc \<Longrightarrow> st"
  shows "sched_inv st can ht q pc' ws"
  using assms unfolding sched_inv_def by auto

lemma sched_worker:
  assumes "sched_inv st can ht q pc ws" and c: "c < length ws" and old: "ws ! c \<noteq> Wk_waiting" "ws ! c \<noteq> Wk_off"
    and new: "w \<noteq> Wk_waiting" "w \<noteq> Wk_off" "w = Wk_done \<Longrightarrow> q_closed q" "\<And>f. w = Wk_parked f \<Longrightarrow> 0 < c \<and> ht"
  shows "sched_inv st can ht q pc (ws[c := w])"
proof -
  note parts = sched_parts [OF assms(1)]
  have some: "\<not> set ws \<subseteq> {Wk_off}" using old(2) nth_mem [OF c] by auto
  then have off: "Wk_off \<notin> set ws" using parts(5) by auto
  have sub: "set (ws[c := w]) \<subseteq> insert w (set ws)" by (rule set_update_subset_insert)
  have "\<forall>d. d \<in> set (q_waitingConsumers q) \<longleftrightarrow> d < length ws \<and> ws[c := w] ! d = Wk_waiting"
    using old(1) new(1) by (auto simp: nth_list_update [OF c] parts(3) split: if_splits)
  moreover have "\<forall>d f. d < length ws \<longrightarrow> ws[c := w] ! d = Wk_parked f \<longrightarrow> 0 < d \<and> ht"
    using parts(2) new(4) by (simp add: nth_list_update [OF c]) blast
  moreover have "Wk_off \<notin> set (ws[c := w])" using sub off new(2) by auto
  moreover have "Wk_done \<in> set (ws[c := w]) \<Longrightarrow> q_closed q" using sub new(3) parts(6) by auto
  moreover have "pc_ended pc \<Longrightarrow> q_closed q" using parts(4) off nth_mem [OF c] by auto
  moreover have "\<not> (\<not> st \<and> \<not> pc_pushes pc \<and> \<not> pc_ended pc)" using parts(8) some by argo
  ultimately show ?thesis using assms(1) by (simp add: sched_inv_def) blast
qed

lemma sched_unpark:
  assumes "sched_inv st can ht q pc ws"
  shows "sched_inv st can ht' q pc (map unpark ws)"
proof -
  have off: "unpark w = Wk_off \<longleftrightarrow> w = Wk_off" "unpark w \<noteq> Wk_parked f" for w f by (cases w; simp)+
  have "Wk_off \<in> unpark ` set ws \<longleftrightarrow> Wk_off \<in> set ws" "Wk_done \<in> unpark ` set ws \<longleftrightarrow> Wk_done \<in> set ws"
    by (metis image_iff off(1), metis image_iff unpark_done(1))
  moreover have "unpark ` set ws \<subseteq> {Wk_off} \<longleftrightarrow> set ws \<subseteq> {Wk_off}" using off by auto
  ultimately show ?thesis using assms off by (simp add: sched_inv_def cong: conj_cong)
qed

text \<open>Closing the queue, with the program point that the producer then has.\<close>

lemma sched_close:
  assumes "sched_inv st can ht q pc ws" and "\<not> q_closed q" and "\<not> pc_waits pc'"
    and "pc_pushes pc' = pc_pushes pc \<and> pc_ended pc' = pc_ended pc \<or> pc_ended pc'  \<and> \<not> pc_pushes pc'"
  shows "sched_inv st can' ht (q\<lparr>q_closed := True, q_waitingConsumers := [], q_waitingProducers := []\<rparr>) pc'
           (dismissed (set (q_waitingConsumers q)) ws)"
proof -
  let ?d = "dismissed (set (q_waitingConsumers q)) ws"
  have nth: "?d ! c = (if ws ! c = Wk_waiting then Wk_done else ws ! c)" if "c < length ws" for c
    using that assms(1) by (simp add: dismissed_nth sched_inv_def)
  have "Wk_off \<in> set ?d \<longleftrightarrow> Wk_off \<in> set ws"
    by (auto simp: in_set_conv_nth dismissed_nth(1) nth split: if_splits)
  moreover have "set ?d \<subseteq> {Wk_off}" if "set ws \<subseteq> {Wk_off}"
  proof -
    have "ws ! c = Wk_off" if "c < length ws" for c using \<open>set ws \<subseteq> {Wk_off}\<close> nth_mem [OF that] by auto
    then have "c \<notin> set (q_waitingConsumers q)" for c using sched_parts(3) [OF assms(1), of c] by auto
    then have "q_waitingConsumers q = []" by (metis list.set_intros(1) neq_Nil_conv)
    then show ?thesis using that by simp
  qed
  ultimately show ?thesis using assms nth by (simp add: sched_inv_def dismissed_nth(1)) blast
qed

subsection \<open>Lemmas: what the segments leave alone\<close>

text \<open>The part of a session that the scheduling depends on.\<close>

definition gate :: "session \<Rightarrow> bool \<times> ThermalController \<times> PreparationPolicy" where
  "gate s = (ss_isCancelled s, ss_thermal s, ss_policy s)"

lemma gate_frame:
  assumes "prog_inv t" and "gate (tx_session u) = gate (tx_session t)"
    and "tx_queue u = tx_queue t" "tx_producer u = tx_producer t" "tx_workers u = tx_workers t"
  shows "prog_inv u"
  using assms by (simp add: prog_inv_def gate_def streaming_def)

lemma gate_local [simp]:
  "gate (emit_event e s) = gate s" "gate (upd_diag op s) = gate s" "gate (record_op x s) = gate s"
  "gate (recordHistoryProblem h a s) = gate s" "gate (release_file uri m s) = gate s"
  by (simp_all add: gate_def emit_event_def upd_diag_def record_op_def recordHistoryProblem_def release_file_def Let_def
      split: option.splits)

lemma gate_fields [simp]:
  "gate (s\<lparr>ss_preparationActivity := a1\<rparr>) = gate s" "gate (s\<lparr>ss_preparedOutcomeAssetIds := a2\<rparr>) = gate s"
  "gate (s\<lparr>ss_workerActivity := a3\<rparr>) = gate s" "gate (s\<lparr>ss_throughput := a4\<rparr>) = gate s"
  "gate (s\<lparr>ss_metricsReporter := a5\<rparr>) = gate s" "gate (s\<lparr>ss_plannedUploadMediaBytes := a6\<rparr>) = gate s"
  "gate (s\<lparr>ss_preparedWindows := a7\<rparr>) = gate s" "gate (s\<lparr>ss_outgoingHashes := a8\<rparr>) = gate s"
  "gate (s\<lparr>ss_fatalError := a9\<rparr>) = gate s"
  by (simp_all add: gate_def)

lemma gate_worker [simp]:
  "gate (skip_item release f s) = gate s" "gate (fail_item release code f s) = gate s"
  "gate (start_upload now f s) = gate s" "gate (acknowledge_bytes m e now f s) = gate s"
  "gate (upload_succeeded skipped sent saved f s) = gate s" "gate (upload_failed failure acked f s) = gate s"
  "gate (upload_finally release now f s) = gate s" "gate (native_result_metrics i x s) = gate s"
  by (simp_all add: skip_item_def fail_item_def start_upload_def acknowledge_bytes_def upload_succeeded_def
      upload_failed_def upload_finally_def native_result_metrics_def Let_def split: prod.splits option.splits)
    (simp add: gate_def)

lemma gate_fold: "(\<And>x s. gate (g x s) = gate s) \<Longrightarrow> gate (fold g xs s) = gate s"
  by (induction xs arbitrary: s) simp_all

lemma gate_producer [simp]:
  "gate (preparation_progress_event p s) = gate s" "gate (announce_check w s) = gate s"
  "gate (fold (checking_progress fs) ps s) = gate s" "gate (finishPreparation d now s) = gate s"
  "gate (push_callback i wait now f b s) = gate s"
  by (simp_all add: preparation_progress_event_def announce_check_def checking_progress_def finishPreparation_def
      push_callback_def capacity_wait_starts_def capacity_wait_ends_def gate_fold Let_def
      split: list.splits push_wait.splits)
    (simp_all add: gate_def)

lemma gate_record_window [simp]: "gate (record_window n w s) = gate s"
proof -
  have "gate (mark_failure f s) = gate s" for f s
    by (simp add: mark_failure_def markPreparationFailure_def Let_def)
  then show ?thesis by (simp add: record_window_def Let_def gate_fold) (simp add: gate_def)
qed

lemma gate_plan_window:
  assumes "plan_window release i n w r idle depth active depthEnd now s = (files, s')"
  shows "gate s' = gate s"
proof -
  have "gate (wp_session (plan_file release r f p)) = gate (wp_session p)" for f p
  proof -
    have "gate (s\<lparr>ss_preparedOutcomeAssetIds := x, ss_nextUploadFileSequence := n\<rparr>) = gate s" for s x n
      by (simp add: gate_def)
    then show ?thesis by (simp add: plan_file_def Let_def)
  qed
  then have plan: "gate (wp_session (fold (plan_file release r) fs p)) = gate (wp_session p)" for fs p
    by (induction fs arbitrary: p) simp_all
  have a: "gate (s\<lparr>ss_plannedUploadMediaBytes := a, ss_diagnosticPlannedUploadBytes := b,
      ss_preflightSkippedFiles := c, ss_preflightSkippedBytes := d\<rparr>) = gate s" for s a b c d
    by (simp add: gate_def)
  have b: "gate (s\<lparr>ss_preparationActivity := a, ss_preflightDurationMs := b, ss_preflightFailureCount := c\<rparr>) = gate s"
    for s a b c by (simp add: gate_def)
  from assms show ?thesis by (auto simp: plan_window_def Let_def plan a b)
qed

subsection \<open>Lemmas: every step keeps the scheduling invariant\<close>

lemma gateD:
  assumes "gate s = gate s'"
  shows "ss_isCancelled s = ss_isCancelled s'" "ss_thermal s = ss_thermal s'" "ss_policy s = ss_policy s'"
  using assms by (simp_all add: gate_def)

lemma prog_pc:
  assumes "prog_inv t" and "\<not> pc_waits (tx_producer t)" and "\<not> pc_waits (tx_producer u)" "\<not> pc_ended (tx_producer u)"
    and "pc_pushes (tx_producer u) \<noteq> pc_pushes (tx_producer t) \<or> pc_ended (tx_producer t) \<Longrightarrow> streaming t"
    and "gate (tx_session u) = gate (tx_session t)" "tx_queue u = tx_queue t" "tx_workers u = tx_workers t"
  shows "prog_inv u"
  using sched_pc [OF assms(1) [unfolded prog_inv_def] assms(2-5)] assms(6-8)
  by (simp add: prog_inv_def gate_def streaming_def)

text \<open>Closing the queue when the producer has ended.\<close>

lemma prog_close:
  assumes "prog_inv t" and "\<not> pc_waits (tx_producer t)" and "pc_ended (tx_producer u)"
    and "gate (tx_session u) = gate (tx_session t)" "tx_queue u = tx_queue t" "tx_workers u = tx_workers t"
  shows "prog_inv (close_queue u)"
proof (cases "q_closed (tx_queue t)")
  have pc: "\<not> pc_waits (tx_producer u)" "\<not> pc_pushes (tx_producer u)" using assms(3) by (cases "tx_producer u"; simp)+
  case True
  then show ?thesis using assms pc
    by (auto simp: close_queue_conv prog_inv_def sched_inv_def streaming_def gate_def)
next
  have pc: "\<not> pc_waits (tx_producer u)" "\<not> pc_pushes (tx_producer u)" using assms(3) by (cases "tx_producer u"; simp)+
  case False
  have "q_waitingProducers (tx_queue t) = []" using assms(1,2) by (simp add: prog_inv_def sched_inv_def)
  with sched_close [OF assms(1) [unfolded prog_inv_def] False pc(1),
      of "ss_isCancelled (tx_session t) \<or> tc_cancelled (ss_thermal (tx_session t))"] False assms pc
  show ?thesis by (simp add: close_queue_conv prog_inv_def streaming_def gate_def)
qed

lemma prog_cancel: 
  assumes "prog_inv t"
  shows "prog_inv (cancel_transfer t)"
proof -
  let ?q = "tx_queue t"
  have closed: "sched_inv (streaming t) True (heat (ss_thermal (tx_session t))) (tx_queue (close_queue t))
      (tx_producer (close_queue t)) (tx_workers (close_queue t))"
  proof (cases "q_closed ?q")
    case True
    then have "close_queue t = t" by (simp add: close_queue_conv)
    then show ?thesis using True sched_cancel [OF assms [unfolded prog_inv_def]] by simp
  next
    case False
    have pc: "(if q_waitingProducers ?q = [] then tx_producer t else resume_producer (tx_producer t)) =
        resume_producer (tx_producer t)"
      using assms by (auto simp: prog_inv_def sched_inv_def split: if_splits)
    show ?thesis
      using sched_close [OF assms [unfolded prog_inv_def] False, of "resume_producer (tx_producer t)" True] False
      by (simp add: close_queue_conv pc)
  qed
  have eqs: "tx_queue (close_queue (upd_session g t)) = tx_queue (close_queue t)"
    "tx_workers (close_queue (upd_session g t)) = tx_workers (close_queue t)"
    "tx_producer (close_queue (upd_session g t)) = tx_producer (close_queue t)" for g
    by (simp_all add: close_queue_conv)
  show ?thesis using sched_unpark [OF closed]
    by (simp add: prog_inv_def cancel_transfer_def Let_def eqs streaming_def)
qed

lemma prog_thermal: "prog_inv t \<Longrightarrow> prog_inv (thermal_event st now t)"
proof -
  assume inv: "prog_inv t"
  have th: "ss_thermal (updateThermalState x now s) = snd (thermal_update x (ss_thermal s))"
    "ss_isCancelled (updateThermalState x now s) = ss_isCancelled s"
    "ss_policy (updateThermalState x now s) = ss_policy s" for s x
    by (simp_all add: updateThermalState_def emit_event_def upd_diag_def)
  show ?thesis
  proof (cases "st = tc_state (ss_thermal (tx_session t))")
    case True
    then show ?thesis using inv
      by (simp add: prog_inv_def thermal_event_def streaming_def th thermal_update_def)
  next
    case False
    then show ?thesis using sched_unpark [OF inv [unfolded prog_inv_def]]
      by (simp add: prog_inv_def thermal_event_def streaming_def th thermal_update_def thermal_wake_def)
  qed
qed

lemma sched_start:
  assumes "sched_inv False can ht q pc ws" and "\<not> pc_waits pc" "\<not> pc_ended pc" "\<not> pc_pushes pc"
  shows "sched_inv False can ht q (Pc_pushing i fs later Not_waiting) (replicate CONCURRENCY Wk_loop)"
proof -
  have "set ws \<subseteq> {Wk_off}" using assms by (simp add: sched_inv_def)
  then have "ws ! c = Wk_off" if "c < length ws" for c using nth_mem [OF that] by auto
  then have "c \<notin> set (q_waitingConsumers q)" for c using sched_parts(3) [OF assms(1), of c] by auto
  then have "q_waitingConsumers q = []" by (metis list.set_intros(1) neq_Nil_conv)
  then show ?thesis using assms by (simp add: sched_inv_def CONCURRENCY_def)
qed

lemma prog_produced:
  assumes "prog_inv t" and pc: "\<not> pc_waits (tx_producer t)"
    "\<not> streaming t \<Longrightarrow> \<not> pc_ended (tx_producer t)" "\<not> streaming t \<Longrightarrow> \<not> pc_pushes (tx_producer t)"
  shows "prog_inv (produced b now t)"
proof (cases "streaming t")
  case True
  then show ?thesis by (auto simp: produced_def Let_def intro!: prog_close [OF assms(1) pc(1)])
next
  case False
  show ?thesis
  proof (cases b)
    case False
    have "set (tx_workers t) \<subseteq> {Wk_off}" using assms \<open>\<not> streaming t\<close> by (simp add: prog_inv_def sched_inv_def)
    then show ?thesis using False \<open>\<not> streaming t\<close> assms
      by (auto simp: produced_def prog_inv_def sched_inv_def streaming_def)
  next
    case True
    let ?t = "start_workers now (upd_session (finishPreparation (queue_maxDepth (tx_queue t)) now)
        (upd_session (\<lambda>s. s\<lparr>ss_preparedWindows := []\<rparr>) t))"
    have gate: "gate (tx_session ?t) = gate (tx_session t)" by (simp add: start_workers_def)
    have start: "prog_inv (?t\<lparr>tx_producer := Pc_pushing i fs later Not_waiting\<rparr>)" for i fs later
      using sched_start [of _ _ _ "tx_producer t" "tx_workers t"] assms \<open>\<not> streaming t\<close> gateD [OF gate]
      by (simp add: prog_inv_def streaming_def)
    have "prog_inv (close_queue (?t\<lparr>tx_producer := Pc_done True\<rparr>))"
      by (rule prog_close [OF start]) simp_all
    then show ?thesis using start True \<open>\<not> streaming t\<close> by (simp add: produced_def Let_def split: list.splits)
  qed
qed

lemma prog_session: "prog_inv t \<Longrightarrow> (\<And>s. gate (g s) = gate s) \<Longrightarrow> prog_inv (upd_session g t)"
  by (rule gate_frame) simp_all

lemma cancel_pc: "prog_inv t \<Longrightarrow> tx_producer (cancel_transfer t) = resume_producer (tx_producer t)"
  by (auto simp: cancel_transfer_def Let_def close_queue_conv prog_inv_def sched_inv_def split: if_splits)

lemma prog_throws:
  assumes "prog_inv t" and "\<not> streaming t \<Longrightarrow> \<not> pc_ended (tx_producer t)" "\<not> streaming t \<Longrightarrow> \<not> pc_pushes (tx_producer t)"
  shows "prog_inv (producer_throws e now t)"
proof -
  let ?t = "upd_session (\<lambda>s. s\<lparr>ss_fatalError := Some (producer_error e)\<rparr>) t"
  have inv: "prog_inv ?t" using assms(1) by (rule prog_session) simp
  have st: "streaming (cancel_transfer ?t) = streaming t" by (simp add: streaming_def cancel_transfer_def Let_def)
  show ?thesis unfolding producer_throws_def
    by (rule prog_produced [OF prog_cancel [OF inv]]) (use assms st cancel_pc [OF inv] in simp_all)
qed

lemma prog_begin_window:
  assumes "prog_inv t" and "tx_producer t = Pc_window i"
  shows "prog_inv (begin_window i now t)"
  using prog_produced [OF assms(1)] assms
  by (auto simp: begin_window_def Let_def intro!: prog_pc [OF assms(1)])

lemma prog_window_prepared:
  assumes "prog_inv t" and "tx_producer t = Pc_preparing i rq"
  shows "prog_inv (window_prepared i rq r now t)"
  using prog_produced [OF assms(1)] prog_throws [OF assms(1)] assms
  by (auto simp: window_prepared_def Let_def intro!: prog_pc [OF assms(1)] split: sum.splits option.splits)

lemma prog_window_checked:
  assumes "prog_inv t" and "tx_producer t = Pc_checking i w idle depth active"
  shows "prog_inv (window_checked i w idle depth active release result now t)"
proof -
  obtain r out progress where result: "result = (r, out, progress)" by (cases result)
  let ?t = "upd_session (fold (checking_progress (pw_files w)) progress \<circ> (\<lambda>s. s\<lparr>ss_outgoingHashes := out\<rparr>)) t"
  have inv: "prog_inv ?t" using assms(1) by (rule prog_session) simp
  have st: "streaming ?t = streaming t"
    using gateD(3) [of "tx_session ?t" "tx_session t"] by (simp add: streaming_def)
  show ?thesis
  proof (cases r)
    case (Inl e)
    then show ?thesis using prog_throws [OF inv] assms(2) by (simp add: window_checked_def result)
  next
    case (Inr p)
    obtain files s where plan: "plan_window release i (length (window_assets i (tx_session ?t))) w p idle depth active
        (queue_depth (tx_queue ?t)) now (tx_session ?t) = (files, s)" by fastforce
    note g = gate_plan_window [OF plan]
    show ?thesis
      by (rule prog_pc [OF inv]) (use assms(2) g plan st in \<open>simp_all add: window_checked_def result Inr Let_def split: if_splits\<close>)
  qed
qed

lemma prog_window_enqueued:
  assumes "prog_inv t" and pc: "tx_producer t = Pc_pushing i fs later wait" "\<not> pc_waits (tx_producer t)"
  shows "prog_inv (window_enqueued i later' now t)"
proof (cases "streaming t \<or> later' \<noteq> []")
  case True
  then show ?thesis
    by (intro prog_pc [OF assms(1)]) (use pc in \<open>auto simp: window_enqueued_def Let_def split: list.splits prod.splits if_splits\<close>)
next
  case False
  then show ?thesis
    by (simp add: window_enqueued_def Let_def) (rule prog_close [OF assms(1)], use pc in simp_all)
qed

text \<open>Pushing a file: the queue is full, closed, has a waiting consumer or takes the file.\<close>

lemma prog_handed:
  assumes "prog_inv t" and c: "q_waitingConsumers (tx_queue t) = c # cs" and pc: "pc_pushes (tx_producer t)" "\<not> pc_waits (tx_producer t)"
  shows "prog_inv (set_worker c (Wk_item f) (t\<lparr>tx_queue := (tx_queue t)\<lparr>q_waitingConsumers := cs\<rparr>,
           tx_producer := Pc_pushing i fs later Not_waiting\<rparr>))"
proof -
  let ?ws = "tx_workers t"
  note inv = assms(1) [unfolded prog_inv_def]
  have cw: "c < length ?ws" "c \<notin> set cs" using sched_parts(3) [OF inv, of c] inv c by (simp_all add: sched_inv_def)
  have sub: "set (?ws[c := Wk_item f]) \<subseteq> insert (Wk_item f) (set ?ws)" by (rule set_update_subset_insert)
  have "d \<in> set cs \<longleftrightarrow> d < length ?ws \<and> ?ws[c := Wk_item f] ! d = Wk_waiting" for d
    using sched_parts(3) [OF inv, of d] c cw by (auto simp: nth_list_update)
  moreover have "0 < d \<and> heat (ss_thermal (tx_session t))" if "d < length ?ws" "?ws[c := Wk_item f] ! d = Wk_parked g" for d g
    using sched_parts(2) [OF inv that(1), of g] that cw by (simp add: nth_list_update split: if_splits)
  moreover have "Wk_off \<notin> set (?ws[c := Wk_item f])" using inv sub pc by (auto simp: sched_inv_def)
  moreover have "\<not> q_closed (tx_queue t)" using inv c by (simp add: sched_inv_def)
  moreover from this have "Wk_done \<notin> set (?ws[c := Wk_item f])" using sched_parts(6) [OF inv] sub by auto
  moreover have "\<not> ss_isCancelled (tx_session t)" "\<not> tc_cancelled (ss_thermal (tx_session t))"
    using sched_parts(7) [OF inv] calculation(4) by auto
  ultimately show ?thesis using inv c pc by (simp add: prog_inv_def streaming_def sched_inv_def)
qed

lemma prog_push_file:
  assumes "prog_inv t" and pc: "tx_producer t = Pc_pushing i (f # fs) later wait" "\<not> pc_waits (tx_producer t)"
  shows "prog_inv (push_file i f fs later wait now t)"
proof -
  let ?q = "tx_queue t" and ?ws = "tx_workers t"
  obtain outcome callbacks q where push: "queue_push (wait \<noteq> Not_waiting) () f ?q = (outcome, callbacks, q)"
    using prod_cases3 by blast
  define t1 where "t1 = (if streaming t then upd_session (fold (push_callback i wait now f) callbacks) t else t)"
  have gate: "gate (tx_session t1) = gate (tx_session t)" "tx_queue t1 = ?q" "tx_producer t1 = tx_producer t" "tx_workers t1 = ?ws"
    by (simp_all add: t1_def gate_fold)
  have st: "streaming t1 = streaming t" using gateD(3) [OF gate(1)] by (simp add: streaming_def)
  have inv: "prog_inv t1" by (rule gate_frame [OF assms(1) gate(1-4)])
  define since where "since = (case wait of Not_waiting \<Rightarrow> now | Waiting x \<Rightarrow> x | Resumed x \<Rightarrow> x)"
  have run: "push_file i f fs later wait now t =
      (case outcome of
         Push_parked \<Rightarrow> t1\<lparr>tx_queue := q, tx_producer := Pc_pushing i (f # fs) later (Waiting since)\<rparr>
       | Push_closed \<Rightarrow>
           (if streaming t then producer_throws (Thrown_error ''Queue is closed'') now (t1\<lparr>tx_queue := q\<rparr>)
            else close_queue (t1\<lparr>tx_queue := q, tx_producer := Pc_rejected (Thrown_error ''Queue is closed'')\<rparr>))
       | Push_handed c \<Rightarrow> set_worker c (Wk_item f) (t1\<lparr>tx_queue := q, tx_producer := Pc_pushing i fs later Not_waiting\<rparr>)
       | Push_enqueued \<Rightarrow> t1\<lparr>tx_queue := q, tx_producer := Pc_pushing i fs later Not_waiting\<rparr>)"
    unfolding push_file_def push t1_def since_def by (simp add: Let_def)
  show ?thesis
  proof (cases outcome)
    case Push_parked
    then have "\<not> q_closed ?q" "q_capacity ?q \<le> length (q_items ?q)" "q = ?q\<lparr>q_waitingProducers := q_waitingProducers ?q @ [()]\<rparr>"
      using push by (auto simp: queue_push_def Let_def split: if_splits list.splits)
    then show ?thesis using inv pc Push_parked gate unfolding run by (simp add: prog_inv_def streaming_def sched_inv_def)
  next
    case Push_closed
    then have q: "q = ?q" using push by (auto simp: queue_push_def Let_def split: if_splits list.splits)
    then have same: "t1\<lparr>tx_queue := q\<rparr> = t1" using gate by simp
    show ?thesis
    proof (cases "streaming t")
      case True
      then show ?thesis using Push_closed prog_throws [OF inv] st unfolding run same by simp
    next
      case False
      then show ?thesis using Push_closed pc gate unfolding run
        by (simp add: q) (rule prog_close [OF inv], simp_all)
    qed
  next
    case (Push_handed c)
    then obtain cs where q: "q_waitingConsumers ?q = c # cs" "q = ?q\<lparr>q_waitingConsumers := cs\<rparr>" "\<not> q_closed ?q"
      using push by (auto simp: queue_push_def Let_def split: if_splits list.splits)
    have "q = (tx_queue t1)\<lparr>q_waitingConsumers := cs\<rparr>" using q gate by simp
    then show ?thesis using Push_handed prog_handed [OF inv, of c cs f i fs later] q pc gate unfolding run by simp
  next
    case Push_enqueued
    then have "q_waitingConsumers ?q = []" "\<exists>n. q = ?q\<lparr>q_items := q_items ?q @ [f], q_observedMaxDepth := n\<rparr>"
      using push by (auto simp: queue_push_def Let_def split: if_splits list.splits)
    then show ?thesis using inv pc Push_enqueued gate unfolding run by (auto simp: prog_inv_def streaming_def sched_inv_def)
  qed
qed

lemma prog_push_next:
  assumes "prog_inv t" and pc: "tx_producer t = Pc_pushing i files later wait" "\<not> pc_waits (tx_producer t)"
  shows "prog_inv (push_next i files later wait now t)"
  using prog_window_enqueued [OF assms] prog_push_file [OF assms(1)] pc
  by (auto simp: push_next_def split: list.splits intro!: prog_close [OF assms(1)])

text \<open>A worker moves on.\<close>

lemma prog_worker:
  assumes "prog_inv t" and c: "c < length (tx_workers t)" and old: "tx_workers t ! c \<noteq> Wk_waiting" "tx_workers t ! c \<noteq> Wk_off"
    and new: "w \<noteq> Wk_waiting" "w \<noteq> Wk_off" "w = Wk_done \<Longrightarrow> q_closed (tx_queue t)"
      "\<And>f. w = Wk_parked f \<Longrightarrow> 0 < c \<and> heat (ss_thermal (tx_session t))"
    and u: "gate (tx_session u) = gate (tx_session t)" "tx_queue u = tx_queue t" "tx_producer u = tx_producer t"
      "tx_workers u = (tx_workers t)[c := w]"
  shows "prog_inv u"
  using sched_worker [OF assms(1) [unfolded prog_inv_def] c old new] u
  by (simp add: prog_inv_def gate_def streaming_def)

lemma prog_closed: "prog_inv t \<Longrightarrow> ss_isCancelled (tx_session t) \<or> tc_cancelled (ss_thermal (tx_session t)) \<Longrightarrow> q_closed (tx_queue t)"
  using sched_parts(7) by (auto simp: prog_inv_def)

text \<open>A worker asks the queue: it gets a file and may wake the producer, it gets \<open>null\<close>, or it waits.\<close>

lemma prog_shift_item:
  assumes "prog_inv t" and c: "c < length (tx_workers t)" "tx_workers t ! c = Wk_loop" and items: "q_items (tx_queue t) = f # fs"
    and u: "gate (tx_session u) = gate (tx_session t)" "tx_producer u = resume_producer (tx_producer t)"
      "tx_workers u = (tx_workers t)[c := Wk_item f]" "tx_queue u = (tx_queue t)\<lparr>q_items := fs, q_waitingProducers := []\<rparr>"
  shows "prog_inv u"
proof -
  have "sched_inv (streaming t) (ss_isCancelled (tx_session t) \<or> tc_cancelled (ss_thermal (tx_session t)))
      (heat (ss_thermal (tx_session t))) (tx_queue t) (tx_producer t) ((tx_workers t)[c := Wk_item f])"
    by (rule sched_worker [OF assms(1) [unfolded prog_inv_def] c(1)]) (simp_all add: c)
  then show ?thesis using items u by (simp add: prog_inv_def sched_inv_def gate_def streaming_def) (elim conjE, simp)
qed

lemma prog_shift_waits:
  assumes "prog_inv t" and c: "c < length (tx_workers t)" "tx_workers t ! c = Wk_loop"
    and q: "q_items (tx_queue t) = []" "\<not> q_closed (tx_queue t)"
  shows "prog_inv (set_worker c Wk_waiting (t\<lparr>tx_queue := (tx_queue t)\<lparr>q_waitingConsumers := q_waitingConsumers (tx_queue t) @ [c]\<rparr>\<rparr>))"
proof -
  let ?ws = "tx_workers t"
  note inv = assms(1) [unfolded prog_inv_def]
  have c_out: "c \<notin> set (q_waitingConsumers (tx_queue t))" using sched_parts(3) [OF inv, of c] c by simp
  have sub: "set (?ws[c := Wk_waiting]) \<subseteq> insert Wk_waiting (set ?ws)" by (rule set_update_subset_insert)
  have some: "\<not> set ?ws \<subseteq> {Wk_off}" using c nth_mem [OF c(1)] by auto
  have "d \<in> set (q_waitingConsumers (tx_queue t) @ [c]) \<longleftrightarrow> d < length ?ws \<and> ?ws[c := Wk_waiting] ! d = Wk_waiting" for d
    using sched_parts(3) [OF inv, of d] c by (auto simp: nth_list_update)
  moreover have "0 < d \<and> heat (ss_thermal (tx_session t))" if "d < length ?ws" "?ws[c := Wk_waiting] ! d = Wk_parked g" for d g
    using sched_parts(2) [OF inv that(1), of g] that c by (simp add: nth_list_update split: if_splits)
  moreover have "Wk_off \<notin> set (?ws[c := Wk_waiting])" using sub some sched_parts(5) [OF inv] by auto
  moreover have "Wk_done \<notin> set (?ws[c := Wk_waiting])" using sub q(2) sched_parts(6) [OF inv] by auto
  moreover have "\<not> pc_ended (tx_producer t)" using sched_parts(4) [OF inv] q(2) some by auto
  moreover have "streaming t \<or> pc_pushes (tx_producer t)" using sched_parts(8) [OF inv] some calculation(5) by argo
  moreover have "\<not> ss_isCancelled (tx_session t)" "\<not> tc_cancelled (ss_thermal (tx_session t))"
    using prog_closed [OF assms(1)] q(2) by auto
  ultimately show ?thesis using inv q c_out by (simp add: prog_inv_def streaming_def sched_inv_def) blast
qed

lemma prog_worker_loop:
  assumes "prog_inv t" and c: "c < length (tx_workers t)" "tx_workers t ! c = Wk_loop"
  shows "prog_inv (worker_loop c t)"
proof (cases "ss_isCancelled (tx_session t)")
  case True
  then show ?thesis using prog_closed [OF assms(1)]
    by (intro prog_worker [OF assms(1) c(1), where w = Wk_done]) (simp_all add: c worker_loop_def)
next
  case False
  show ?thesis
  proof (cases "q_items (tx_queue t)")
    case (Cons f fs)
    have w: "q_waitingProducers (tx_queue t) = (if pc_waits (tx_producer t) then [()] else [])"
      using assms(1) by (simp add: prog_inv_def sched_inv_def)
    show ?thesis
      by (rule prog_shift_item [OF assms(1) c Cons])
        (use False w Cons in \<open>simp_all add: worker_loop_def queue_shift_def split: if_splits\<close>)
  next
    case Nil
    show ?thesis
    proof (cases "q_closed (tx_queue t)")
      case True
      then show ?thesis using False Nil
        by (intro prog_worker [OF assms(1) c(1), where w = Wk_done]) (simp_all add: c worker_loop_def queue_shift_def)
    next
      case not_yet: False
      then show ?thesis using False Nil prog_shift_waits [OF assms(1) c Nil not_yet] by (simp add: worker_loop_def queue_shift_def)
    qed
  qed
qed

lemma prog_worker_item:
  assumes "prog_inv t" and c: "c < length (tx_workers t)" "tx_workers t ! c = Wk_item f"
  shows "prog_inv (worker_item c f release now t)"
proof -
  obtain r th where gate: "waitForUpload c (ss_thermal (tx_session t)) = (r, th)" by fastforce
  consider (park) "r = None" | (cancelled) "r = Some False" | (go) "r = Some True" by (cases r) auto
  then show ?thesis
  proof cases
    case park
    then have th: "0 < c" "heat (ss_thermal (tx_session t))" "heat th" "tc_cancelled th = tc_cancelled (ss_thermal (tx_session t))"
      using gate by (auto simp: waitForUpload_def heat_def controlMode_def split: if_splits)
    have "sched_inv (streaming t) (ss_isCancelled (tx_session t) \<or> tc_cancelled (ss_thermal (tx_session t)))
        (heat (ss_thermal (tx_session t))) (tx_queue t) (tx_producer t) ((tx_workers t)[c := Wk_parked f])"
      by (rule sched_worker [OF assms(1) [unfolded prog_inv_def] c(1)]) (simp_all add: c th)
    then show ?thesis using th gate park by (simp add: worker_item_def prog_inv_def streaming_def)
  next
    case cancelled
    then have "tc_cancelled (ss_thermal (tx_session t))" using gate by (auto simp: waitForUpload_def split: if_splits)
    then have "q_closed (tx_queue t)" using prog_closed [OF assms(1)] by simp
    then show ?thesis using cancelled gate
      by (intro prog_worker [OF assms(1) c(1), where w = Wk_done]) (simp_all add: c worker_item_def)
  next
    case go
    define w where "w = (if puf_preflightAction f \<noteq> Some Skip \<and> puf_preflightFailureCode f = None then Wk_uploading f 0 else Wk_loop)"
    show ?thesis
      by (rule prog_worker [OF assms(1) c(1), where w = w])
        (use gate go in \<open>simp_all add: c w_def worker_item_def split: option.splits if_splits\<close>)
  qed
qed

lemma prog_worker_fails:
  assumes "prog_inv t" and c: "c < length (tx_workers t)" "tx_workers t ! c = Wk_uploading f acked"
  shows "prog_inv (worker_fails c f acked e release now t)"
proof (cases "isUnauthorizedError e")
  case True
  let ?t = "cancel_transfer (upd_session (\<lambda>s. s\<lparr>ss_fatalError := Some e\<rparr>) t)"
  have inv: "prog_inv ?t" using assms(1) by (intro prog_cancel prog_session) simp_all
  have len: "length (tx_workers ?t) = length (tx_workers t)"
    by (simp add: cancel_transfer_def Let_def close_queue_conv dismissed_nth(1))
  have "c \<notin> set (q_waitingConsumers (tx_queue t))" using sched_parts(3) [OF assms(1) [unfolded prog_inv_def], of c] c by simp
  then have "tx_workers ?t ! c = Wk_uploading f acked"
    using c by (simp add: cancel_transfer_def Let_def close_queue_conv dismissed_nth)
  moreover have "q_closed (tx_queue ?t)" using prog_closed [OF inv] by (simp add: cancel_core)
  ultimately show ?thesis using True c len
    by (intro prog_worker [OF inv, of c, where w = Wk_done]) (simp_all add: worker_fails_def Let_def)
next
  case False
  show ?thesis
  proof (cases "ss_isCancelled (tx_session t)")
    case True
    then have "q_closed (tx_queue t)" using prog_closed [OF assms(1)] by simp
    then show ?thesis using False True
      by (intro prog_worker [OF assms(1) c(1), where w = Wk_done]) (simp_all add: c worker_fails_def Let_def)
  next
    case on: False
    then show ?thesis using False
      by (intro prog_worker [OF assms(1) c(1), where w = Wk_loop]) (simp_all add: c worker_fails_def Let_def)
  qed
qed

lemma transfer_step_prog: "transfer_step t u \<Longrightarrow> prog_inv t \<Longrightarrow> prog_inv u"
proof (induction rule: transfer_step.induct)
  case (preparation_reports t i rq p)
  then show ?case by (intro prog_session) simp_all
next
  case (push_runs t i files later wait now)
  from push_runs(2) have "\<not> pc_waits (tx_producer t)" unfolding push_runs(1) by (cases wait) auto
  then show ?case using push_runs(1,3) by (intro prog_push_next)
next
  case (bytes_acknowledged c t f acked mediaBytes encodedBytes now)
  then show ?case
    by (intro prog_worker [OF bytes_acknowledged(3,1), where w = "Wk_uploading f (acked + mediaBytes)"])
      (simp_all add: worker_acknowledges_def)
next
  case (upload_succeeds c t f acked result metrics release now)
  then show ?case
    by (intro prog_worker [OF upload_succeeds(3,1), where w = Wk_loop])
      (simp_all add: worker_succeeds_def split: prod.splits)
qed (simp_all add: prog_cancel prog_thermal prog_begin_window prog_window_prepared prog_window_checked
    prog_worker_loop prog_worker_item prog_worker_fails)

interpretation schedule: transition_inv transfer_step prog_inv
  by unfold_locales (rule transfer_step_prog)

lemma prog_inv_init: "prog_inv (init_transfer (new_session sid ref assets opts native ver env t0) now)"
  by (auto simp: prog_inv_def sched_inv_def init_transfer_def new_session_def start_workers_def streaming_def
      new_ThermalController_def policy_defs CONCURRENCY_def Let_def)

subsection \<open>Lemmas: somebody can run\<close>

text \<open>What can run without an event from outside: the producer or a worker at one of its segments.\<close>

definition can_run :: "transfer \<Rightarrow> bool" where
  "can_run t \<longleftrightarrow>
     \<not> pc_ended (tx_producer t) \<and> \<not> pc_waits (tx_producer t) \<or>
     (\<exists>w \<in> set (tx_workers t). w = Wk_loop \<or> in_hand w \<noteq> [] \<and> (\<forall>f. w \<noteq> Wk_parked f))"

definition finished :: "transfer \<Rightarrow> bool" where
  "finished t \<longleftrightarrow> pc_ended (tx_producer t) \<and> set (tx_workers t) \<subseteq> {Wk_off, Wk_done}"

lemma workers_pair: "prog_inv t \<Longrightarrow> \<exists>a b. tx_workers t = [a, b]"
  using sched_parts(1) [of _ _ _ _ _ "tx_workers t"]
  by (fastforce simp: prog_inv_def CONCURRENCY_def numeral_2_eq_2 length_Suc_conv)


lemma idle_worker:
  assumes "\<not> can_run t" and "w \<in> set (tx_workers t)"
  shows "w \<in> {Wk_off, Wk_waiting, Wk_done} \<or> (\<exists>f. w = Wk_parked f)"
  using assms by (cases w) (auto simp: can_run_def)

lemma waiting_producer_served:
  assumes "prog_inv t" and "pc_waits (tx_producer t)"
  shows "can_run t"
proof (rule ccontr)
  assume idle: "\<not> can_run t"
  obtain a b where ab: "tx_workers t = [a, b]" using workers_pair [OF assms(1)] by blast
  have push: "pc_pushes (tx_producer t)" using assms(2) by (cases "tx_producer t") simp_all
  have q: "q_items (tx_queue t) \<noteq> []" "\<not> q_closed (tx_queue t)" "q_waitingConsumers (tx_queue t) = []" "Wk_off \<notin> set (tx_workers t)"
    using assms push by (auto simp: prog_inv_def sched_inv_def)
  note parts = sched_parts [OF assms(1) [unfolded prog_inv_def]]
  have "a \<noteq> Wk_parked f" for f using parts(2) [of 0 f] ab by auto
  moreover have "a \<noteq> Wk_waiting" using parts(3) [of 0] ab q by auto
  moreover have "a \<noteq> Wk_done" "a \<noteq> Wk_off" using parts(6) ab q by auto
  ultimately show False using idle_worker [OF idle, of a] ab by auto
qed

end
