(* ===== verification/SessionProperties.thy ===== *)
theory SessionProperties
  imports SessionProgress
begin

text \<open>
  What a transfer session guarantees: its accounting when it ends, its behaviour under
  cancellation, the agreement of its three reports, and that it does not get stuck.
\<close>

subsection \<open>Lemmas: a small transfer\<close>

text \<open>One photo, prepared by the compatibility path and uploaded with the duplicate check off.\<close>

definition ex_options :: UploadOptions where
  "ex_options = \<lparr>uo_preparationMode = Prepare_first, uo_thermalPolicy = None, uo_skipExactDuplicates = Some False,
                 uo_includeAdditionalMediaComponents = None\<rparr>"

definition ex0 :: transfer where
  "ex0 = init_transfer (new_session ''ios-1'' ''ref'' (take 1 (rq_assets example_request)) ex_options False ''2.0.0'' Env_test 0) 0"

definition ex_env :: preparation_env where "ex_env = example_env\<lparr>pe_order := [0]\<rparr>"

definition ex1 :: transfer where "ex1 = begin_window 0 0 ex0"

lemma ex0_pc: "tx_producer ex0 = Pc_window 0" by code_simp

lemma ex1_pc: "tx_producer ex1 = Pc_preparing 0 (prepare_request 0 (tx_session ex0))"
  "length (rq_assets (prepare_request 0 (tx_session ex0))) = 1" by code_simp+

lemma ex1_state: "\<not> ss_isCancelled (tx_session ex1)" "\<not> ss_skipDuplicates (tx_session ex1)"
  "tx_workers ex1 = [Wk_off, Wk_off]" "tx_queue ex1 = fresh_queue 250"
  "\<not> streaming ex1" "tx_prepared ex1 = []" "tx_handled ex1 = []" "ss_outcomes (tx_session ex1) = new_TransferOutcomes"
  "ss_ops (tx_session ex1) = []" "ss_preparedWindows (tx_session ex1) = []" "ss_preparedFiles (tx_session ex1) = 0"
  "map ma_id (ss_assets (tx_session ex1)) = [''u'']" "pol_windowSize (ss_policy (tx_session ex1)) = 250"
  "ss_thermal (tx_session ex1) = new_ThermalController (Some Monitor_only)" "ss_fatalError (tx_session ex1) = None"
  "ss_readyFiles (tx_session ex1) = 0"
 by code_simp+

lemma ex_window: "\<exists>w f. prepareAssetWindow ex_env (prepare_request 0 (tx_session ex0)) = Inr (Some w) \<and> pw_files w = [f] \<and>
   pw_failures w = [] \<and> puf_variantId f = ''ref-1'' \<and> puf_size f = 7"
proof -
  have "case prepareAssetWindow ex_env (prepare_request 0 (tx_session ex0)) of
      Inr (Some w) \<Rightarrow> map puf_variantId (pw_files w) = [''ref-1''] \<and> map puf_size (pw_files w) = [7] \<and> pw_failures w = [] | _ \<Rightarrow> False" by code_simp
  then show ?thesis by (auto split: sum.splits option.splits simp: map_eq_Cons_conv)
qed

lemma plan_single:
  assumes "pw_files w = [f]" and "map_get (pr_preflightResults r) (puf_variantId f) = Some Upload"
    and "map_get (pr_hashFailureCodes r) (puf_variantId f) = None"
  obtains g s' where "plan_window release i n w r idle depth active depthEnd now s = ([g], s')"
    "puf_variantId g = puf_variantId f" "puf_size g = puf_size f"
    "puf_preflightAction g = Some Upload" "puf_preflightFailureCode g = None"
    "ss_preparedFiles s' = ss_preparedFiles s" "ss_assets s' = ss_assets s"
  using assms by (simp add: plan_window_def plan_file_def checked_file_def upd_diag_def Let_def)

text \<open>A producer that pushes the only file of the only window to idle workers.\<close>

lemma push_single:
  assumes "tx_producer t = Pc_pushing i [g] [] Not_waiting" "tx_workers t = [Wk_loop, Wk_loop]"
    "tx_queue t = fresh_queue 250" "\<not> streaming t" "\<not> ss_isCancelled (tx_session t)" "tx_handled t = []"
  obtains u where "transfer_step\<^sup>*\<^sup>* t u" "tx_producer u = Pc_done True" "tx_workers u = [Wk_loop, Wk_loop]"
    "core_of (tx_session u) = core_of (tx_session t)" "ss_assets (tx_session u) = ss_assets (tx_session t)"
    "q_items (tx_queue u) = [g]" "q_waitingProducers (tx_queue u) = []" "q_closed (tx_queue u)"
    "tx_prepared u = tx_prepared t" "tx_handled u = []"
proof
  define t1 where "t1 = push_next i [g] [] Not_waiting 0 t"
  define u where "u = push_next i [] [] Not_waiting 0 t1"
  have t1: "tx_producer t1 = Pc_pushing i [] [] Not_waiting" "tx_workers t1 = [Wk_loop, Wk_loop]"
    "tx_session t1 = tx_session t" "q_items (tx_queue t1) = [g]" "q_waitingConsumers (tx_queue t1) = []"
    "q_waitingProducers (tx_queue t1) = []" "\<not> q_closed (tx_queue t1)" "tx_prepared t1 = tx_prepared t" "tx_handled t1 = []"
    using assms by (simp_all add: t1_def push_next_def push_file_def queue_push_def fresh_queue_def)
  have "transfer_step t t1" "transfer_step t1 u" unfolding t1_def u_def
    by (rule push_runs, simp_all add: assms) (rule push_runs, simp_all add: t1 t1_def [symmetric])
  then show "transfer_step\<^sup>*\<^sup>* t u" by simp
  show "tx_producer u = Pc_done True" "tx_workers u = [Wk_loop, Wk_loop]"
    "core_of (tx_session u) = core_of (tx_session t)" "ss_assets (tx_session u) = ss_assets (tx_session t)"
    "q_items (tx_queue u) = [g]" "q_waitingProducers (tx_queue u) = []" "q_closed (tx_queue u)"
    "tx_prepared u = tx_prepared t" "tx_handled u = []"
    using assms t1
    by (simp_all add: u_def push_next_def window_enqueued_def streaming_def close_queue_def queue_close_def
        upd_session_def upd_diag_def core_of_def)
qed

lemma upload_single:
  assumes "tx_producer t = Pc_done True" "tx_workers t = [Wk_loop, Wk_loop]" "q_items (tx_queue t) = [g]"
    "q_waitingProducers (tx_queue t) = []" "q_closed (tx_queue t)" "\<not> ss_isCancelled (tx_session t)"
    "\<not> tc_cancelled (ss_thermal (tx_session t))" "puf_preflightAction g = Some Upload" "puf_preflightFailureCode g = None"
  obtains u where "transfer_step\<^sup>*\<^sup>* t u" "tx_producer u = Pc_done True" "tx_workers u = [Wk_done, Wk_done]"
    "core_of (tx_session u) = core_op (Op_save (puf_variantId g) (puf_size g)) (core_of (tx_session t))"
    "ss_assets (tx_session u) = ss_assets (tx_session t)" "tx_prepared u = tx_prepared t"
proof
  define t1 where "t1 = worker_loop 0 t"
  define t2 where "t2 = worker_loop 1 t1"
  define t3 where "t3 = worker_item 0 g None 0 t2"
  define t4 where "t4 = worker_succeeds 0 g (False, [], None) None None 0 t3"
  define u where "u = worker_loop 0 t4"
  have t1: "tx_workers t1 = [Wk_item g, Wk_loop]" "tx_session t1 = tx_session t" "tx_producer t1 = Pc_done True"
    "q_items (tx_queue t1) = []" "q_closed (tx_queue t1)" "tx_prepared t1 = tx_prepared t"
    using assms by (simp_all add: t1_def worker_loop_def queue_shift_def set_worker_def)
  have t2: "tx_workers t2 = [Wk_item g, Wk_done]" "tx_session t2 = tx_session t" "tx_producer t2 = Pc_done True"
    "tx_queue t2 = tx_queue t1" "tx_prepared t2 = tx_prepared t"
    using assms t1 by (simp_all add: t2_def worker_loop_def queue_shift_def set_worker_def)
  have t3: "tx_workers t3 = [Wk_uploading g 0, Wk_done]" "core_of (tx_session t3) = core_of (tx_session t)"
    "ss_assets (tx_session t3) = ss_assets (tx_session t)" "tx_producer t3 = Pc_done True"
    "tx_queue t3 = tx_queue t1" "tx_prepared t3 = tx_prepared t"
    using assms t2 by (simp_all add: t3_def worker_item_def waitForUpload_def set_worker_def upd_session_def)
      (simp_all add: start_upload_def upd_diag_def emit_event_def Let_def split: prod.splits)
  have t4: "tx_workers t4 = [Wk_loop, Wk_done]"
    "core_of (tx_session t4) = core_op (Op_save (puf_variantId g) (puf_size g)) (core_of (tx_session t))"
    "ss_assets (tx_session t4) = ss_assets (tx_session t)" "tx_producer t4 = Pc_done True"
    "tx_queue t4 = tx_queue t1" "tx_prepared t4 = tx_prepared t"
    using t3 by (simp_all add: t4_def worker_succeeds_def handled_def set_worker_def upd_session_def)
      (simp_all add: upload_finally_def upload_succeeded_def native_result_metrics_def release_file_def record_op_def
        emit_event_def Let_def)
  have "\<not> ss_isCancelled (tx_session t4)" using t4(2) assms(6) core_of_fields(1) [of "tx_session t4"]
    by (simp add: core_op_def core_of_fields)
  then show "tx_producer u = Pc_done True" "tx_workers u = [Wk_done, Wk_done]"
    "core_of (tx_session u) = core_op (Op_save (puf_variantId g) (puf_size g)) (core_of (tx_session t))"
    "ss_assets (tx_session u) = ss_assets (tx_session t)" "tx_prepared u = tx_prepared t"
    using t1 t4 by (simp_all add: u_def worker_loop_def queue_shift_def set_worker_def)
  have "transfer_step t t1" "transfer_step t1 t2" unfolding t1_def t2_def
    by (rule worker_loops, simp_all add: assms) (rule worker_loops, simp_all add: t1 t1_def [symmetric])
  moreover have "transfer_step t2 t3" "transfer_step t3 t4" "transfer_step t4 u" unfolding t3_def t4_def u_def
    by (rule worker_takes, simp_all add: t2) (rule upload_succeeds [of _ _ _ 0], simp_all add: t3 t3_def [symmetric],
      rule worker_loops, simp_all add: t4 t3_def [symmetric] t4_def [symmetric])
  ultimately show "transfer_step\<^sup>*\<^sup>* t u" by (meson converse_rtranclp_into_rtranclp rtranclp.rtrancl_refl)
qed

lemma ex_checked:
  obtains f g t where "transfer_step\<^sup>*\<^sup>* ex0 t" "tx_producer t = Pc_window 1" "tx_workers t = [Wk_off, Wk_off]"
    "tx_queue t = fresh_queue 250" "tx_prepared t = [f]" "tx_handled t = []"
    "core_of (tx_session t) = (core_of (tx_session ex1))\<lparr>co_ready := 1, co_windows := [(0, [g])]\<rparr>"
    "ss_preparedFiles (tx_session t) = 1" "ss_assets (tx_session t) = ss_assets (tx_session ex1)"
    "puf_variantId f = ''ref-1''" "puf_variantId g = ''ref-1''" "puf_size g = 7"
    "puf_preflightAction g = Some Upload" "puf_preflightFailureCode g = None"
proof -
  let ?rq = "prepare_request 0 (tx_session ex0)"
  obtain w f where w: "prepareAssetWindow ex_env ?rq = Inr (Some w)" and f: "pw_files w = [f]" "pw_failures w = []"
      "puf_variantId f = ''ref-1''" "puf_size f = 7" using ex_window by blast
  have s1: "transfer_step ex0 ex1" unfolding ex1_def by (rule window_begins [OF ex0_pc])
  define ex2 where "ex2 = window_prepared 0 ?rq (prepareAssetWindow ex_env ?rq) 0 ex1"
  have s2: "transfer_step ex1 ex2" unfolding ex2_def by (rule preparation_returns [OF ex1_pc(1)])
  have e2: "core_of (tx_session ex2) = (core_of (tx_session ex1))\<lparr>co_ready := Suc (ss_readyFiles (tx_session ex1))\<rparr>"
    "tx_workers ex2 = [Wk_off, Wk_off]" "tx_queue ex2 = fresh_queue 250" "tx_prepared ex2 = [f]" "tx_handled ex2 = []"
    "\<not> ss_skipDuplicates (tx_session ex2)" "ss_preparedFiles (tx_session ex2) = 1" "ss_assets (tx_session ex2) = ss_assets (tx_session ex1)"
    by (simp_all add: ex2_def w window_prepared_def upd_session_def f ex1_state ex1_pc)
      (simp_all add: announce_check_def record_window_def upd_diag_def f ex1_state ex1_pc Let_def)
  obtain idle depth active where p2: "tx_producer ex2 = Pc_checking 0 w idle depth active"
    by (simp add: ex2_def w window_prepared_def Let_def)
  define ex3 where "ex3 = window_checked 0 w idle depth active (\<lambda>_. None)
      (runDuplicatePreflightWindow (\<lambda>_. 0) (\<lambda>_ _. Inr []) (\<lambda>_ _ _. Inr []) (\<lambda>_ _. Inr []) False (pw_files w)
        (ss_skipDuplicates (tx_session ex2)) (ss_outgoingHashes (tx_session ex2))) 0 ex2"
  have s3: "transfer_step ex2 ex3" unfolding ex3_def by (rule preflight_returns [OF p2])
  have mode: "\<not> streaming t" if "co_policy (core_of (tx_session t)) = co_policy (core_of (tx_session ex1))" for t
    using that ex1_state by (simp add: streaming_def core_of_fields)
  have m2: "\<not> streaming ex2" using e2 by (intro mode) simp
  obtain r where r: "runDuplicatePreflightWindow (\<lambda>_. 0) (\<lambda>_ _. Inr []) (\<lambda>_ _ _. Inr []) (\<lambda>_ _. Inr []) False [f] False
      (ss_outgoingHashes (tx_session ex2)) = (Inr r, ss_outgoingHashes (tx_session ex2), [])"
      "map_get (pr_preflightResults r) ''ref-1'' = Some Upload" "map_get (pr_hashFailureCodes r) ''ref-1'' = None"
    by (simp add: runDuplicatePreflightWindow_def Let_def f preflight_result_def set_result_def upd_metrics_def start_preflight_def)
  let ?plan = "plan_window (\<lambda>_. None) 0 (length (window_assets 0 (tx_session ex2))) w r idle
      depth active (queue_depth (tx_queue ex2)) 0 (tx_session ex2)"
  obtain g s where plan: "?plan = ([g], s)" 
    and g: "puf_variantId g = ''ref-1''" "puf_size g = 7" "puf_preflightAction g = Some Upload" "puf_preflightFailureCode g = None"
    and s: "ss_preparedFiles s = 1" "ss_assets s = ss_assets (tx_session ex1)"
    using plan_single [OF f(1), of r] r f e2 by metis
  have ks: "core_of s = core_of (tx_session ex2)" using plan_window_core [OF plan] by simp
  have "ss_preparedWindows s = []" using ks e2(1) ex1_state core_of_fields(5) [of s] by (simp add: core_of_fields)
  then have e3: "tx_session ex3 = s\<lparr>ss_preparedWindows := [(0, [g])]\<rparr>"
    "tx_workers ex3 = [Wk_off, Wk_off]" "tx_queue ex3 = fresh_queue 250" "tx_prepared ex3 = [f]" "tx_handled ex3 = []"
    "tx_producer ex3 = Pc_window 1"
    using plan r e2 m2 f by (simp_all add: ex3_def window_checked_def upd_session_def)
  have run: "transfer_step\<^sup>*\<^sup>* ex0 ex3" using s1 s2 s3 by (meson converse_rtranclp_into_rtranclp rtranclp.rtrancl_refl)
  have windows: "core_of (s\<lparr>ss_preparedWindows := x\<rparr>) = (core_of s)\<lparr>co_windows := x\<rparr>" for x by (simp add: core_of_def)
  show thesis
  proof (intro that [of ex3 f g])
    show "core_of (tx_session ex3) = (core_of (tx_session ex1))\<lparr>co_ready := 1, co_windows := [(0, [g])]\<rparr>"
      using e3(1) ks e2(1) ex1_state(16) windows by simp
  qed (use run e3 f g s in simp_all)
qed

text \<open>The end of the preparation, after which the window is pushed and uploaded.\<close>

lemma ex_transfer:
  obtains t where "transfer_step\<^sup>*\<^sup>* ex0 t" "tx_producer t = Pc_done True" "tx_workers t = [Wk_done, Wk_done]"
    "map puf_variantId (tx_prepared t) = [''ref-1'']" "\<not> ss_isCancelled (tx_session t)"
    "ss_ops (tx_session t) = [Op_save ''ref-1'' 7]" "map ma_id (ss_assets (tx_session t)) = [''u'']"
proof -
  obtain f g t where t: "transfer_step\<^sup>*\<^sup>* ex0 t" "tx_producer t = Pc_window 1" "tx_workers t = [Wk_off, Wk_off]"
    "tx_queue t = fresh_queue 250" "tx_prepared t = [f]" "tx_handled t = []"
    "core_of (tx_session t) = (core_of (tx_session ex1))\<lparr>co_ready := 1, co_windows := [(0, [g])]\<rparr>"
    "ss_preparedFiles (tx_session t) = 1" "ss_assets (tx_session t) = ss_assets (tx_session ex1)"
    and g: "puf_variantId f = ''ref-1''" "puf_variantId g = ''ref-1''" "puf_size g = 7"
    "puf_preflightAction g = Some Upload" "puf_preflightFailureCode g = None" by (rule ex_checked)
  have k: "\<not> ss_isCancelled (tx_session t)" "ss_preparedWindows (tx_session t) = [(0, [g])]"
    "ss_policy (tx_session t) = ss_policy (tx_session ex1)"
    using t(7) ex1_state core_of_fields(1,5,6) [of "tx_session t"] by (simp_all add: core_of_fields)
  define u where "u = begin_window 1 0 t"
  have tu: "transfer_step t u" unfolding u_def by (rule window_begins [OF t(2)])
  have n: "length (ss_assets (tx_session ex1)) = 1" using arg_cong [OF ex1_state(12), of length] by simp
  have "\<not> streaming t" using k ex1_state by (simp add: streaming_def)
  then have u: "tx_producer u = Pc_pushing 0 [g] [] Not_waiting" "tx_workers u = [Wk_loop, Wk_loop]"
    "tx_queue u = fresh_queue 250" "tx_prepared u = [f]" "tx_handled u = []" "\<not> streaming u"
    "ss_assets (tx_session u) = ss_assets (tx_session ex1)"
    "core_of (tx_session u) = (core_of (tx_session t))\<lparr>co_windows := []\<rparr>"
    using t k ex1_state n
    by (simp_all add: u_def begin_window_def produced_def start_workers_def upd_session_def CONCURRENCY_def Let_def
        numeral_2_eq_2 finishPreparation_def upd_diag_def core_of_def streaming_def)
  have ku: "\<not> ss_isCancelled (tx_session u)" "\<not> tc_cancelled (ss_thermal (tx_session u))"
    using u(8) t(7) ex1_state core_of_fields(1,7) [of "tx_session u"]
    by (simp_all add: core_of_fields new_ThermalController_def)
  obtain v where v: "transfer_step\<^sup>*\<^sup>* u v" "tx_producer v = Pc_done True" "tx_workers v = [Wk_loop, Wk_loop]"
    "core_of (tx_session v) = core_of (tx_session u)" "ss_assets (tx_session v) = ss_assets (tx_session u)"
    "q_items (tx_queue v) = [g]" "q_waitingProducers (tx_queue v) = []" "q_closed (tx_queue v)"
    "tx_prepared v = tx_prepared u" using push_single [OF u(1-3,6) ku(1) u(5)] by metis
  have kv: "\<not> ss_isCancelled (tx_session v)" "\<not> tc_cancelled (ss_thermal (tx_session v))"
    using v(4) ku core_of_fields(1,7) by metis+
  obtain x where x: "transfer_step\<^sup>*\<^sup>* v x" "tx_producer x = Pc_done True" "tx_workers x = [Wk_done, Wk_done]"
    "core_of (tx_session x) = core_op (Op_save (puf_variantId g) (puf_size g)) (core_of (tx_session v))"
    "ss_assets (tx_session x) = ss_assets (tx_session v)" "tx_prepared x = tx_prepared v"
    using upload_single [OF v(2,3,6,7,8) kv g(4,5)] by metis
  show thesis
  proof (rule that)
    show "transfer_step\<^sup>*\<^sup>* ex0 x" using t(1) tu v(1) x(1) by (meson rtranclp_trans rtranclp.rtrancl_into_rtrancl)
    show "\<not> ss_isCancelled (tx_session x)" "ss_ops (tx_session x) = [Op_save ''ref-1'' 7]"
      using x(4) v(4) u(8) t(7) g ex1_state core_of_fields(1,4) [of "tx_session x"]
      by (simp_all add: core_op_def core_of_fields)
  qed (use x v u t g ex1_state in simp_all)
qed

subsection \<open>Lemmas: a transfer under backpressure\<close>

text \<open>One asset with three components, streamed while no worker has asked for a file yet.\<close>

definition ex_component :: "string \<Rightarrow> NativePreparationResult" where
  "ex_component v = Prep_ready
     \<lparr>nc_fileRef = 1, nc_assetId = None, nc_variantId = v, nc_mediaRole = Unknown_role, nc_componentSemantics = Primary,
      nc_originalFilename = v\<rparr>
     \<lparr>nr_localUri = v, nr_sizeBytes = Fin 7, nr_transferFilename = v, nr_contentType = None, nr_temporary = False,
      nr_materializationPath = Photo_resource, nr_materializationDurationMs = 0, nr_temporaryBytesWritten = 0\<rparr>"

definition bp_env :: preparation_env where
  "bp_env = example_env\<lparr>pe_available := True, pe_native := \<lambda>_. Inr (map ex_component [''a'', ''b'', ''c''])\<rparr>"

definition bp0 :: transfer where
  "bp0 = init_transfer (new_session ''ios-2'' ''ref'' (take 1 (rq_assets example_request))
     (ex_options\<lparr>uo_preparationMode := Streaming\<rparr>) True ''2.0.0'' Env_test 0) 0"

lemma bp0_state: "tx_producer bp0 = Pc_window 0" "streaming bp0" "\<not> ss_isCancelled (tx_session bp0)"
  "\<not> ss_skipDuplicates (tx_session bp0)" "tx_queue bp0 = fresh_queue 2"
  "tx_producer (begin_window 0 0 bp0) = Pc_preparing 0 (prepare_request 0 (tx_session bp0))"
  "\<not> ss_skipDuplicates (tx_session (begin_window 0 0 bp0))" "tx_queue (begin_window 0 0 bp0) = fresh_queue 2"
  "streaming (begin_window 0 0 bp0)" "\<not> ss_isCancelled (tx_session (begin_window 0 0 bp0))"
  by code_simp+

lemma bp_window: "\<exists>w. prepareAssetWindow bp_env (prepare_request 0 (tx_session bp0)) = Inr (Some w) \<and> length (pw_files w) = 3"
proof -
  have "case prepareAssetWindow bp_env (prepare_request 0 (tx_session bp0)) of
      Inr (Some w) \<Rightarrow> length (pw_files w) = 3 | _ \<Rightarrow> False" by code_simp
  then show ?thesis by (auto split: sum.splits option.splits)
qed

text \<open>A streamed window whose files are all to be uploaded reaches the pushing of its files.\<close>

lemma stream_window:
  assumes pc: "tx_producer t = Pc_preparing i rq" and w: "prepareAssetWindow env rq = Inr (Some w)"
    and "streaming t" "\<not> ss_isCancelled (tx_session t)" "\<not> ss_skipDuplicates (tx_session t)"
  obtains u files where "transfer_step\<^sup>*\<^sup>* t u" "tx_producer u = Pc_pushing i files [] Not_waiting"
    "length files = length (pw_files w)" "tx_queue u = tx_queue t" "streaming u" "\<not> ss_isCancelled (tx_session u)"
proof -
  define v where "v = window_prepared i rq (prepareAssetWindow env rq) 0 t"
  have tv: "transfer_step t v" unfolding v_def by (rule preparation_returns [OF pc])
  have skip_fold: "ss_skipDuplicates (fold g xs s) = ss_skipDuplicates s"
    if "\<And>x s. ss_skipDuplicates (g x s) = ss_skipDuplicates s" for g :: "'b \<Rightarrow> session \<Rightarrow> session" and xs s
    using that by (induction xs arbitrary: s) simp_all
  have "ss_skipDuplicates (mark_failure f s) = ss_skipDuplicates s" for f s
    by (simp add: mark_failure_def markPreparationFailure_def recordHistoryProblem_def record_op_def upd_diag_def
        emit_event_def Let_def)
  then have skip: "\<not> ss_skipDuplicates (tx_session v)"
    using assms(5) w by (simp add: v_def window_prepared_def announce_check_def record_window_def upd_diag_def
        emit_event_def skip_fold Let_def split: list.splits)
  have gate: "gate (tx_session v) = gate (tx_session t)" using w by (simp add: v_def window_prepared_def)
  have queue: "tx_queue v = tx_queue t" using w by (simp add: v_def window_prepared_def)
  obtain idle depth active where pv: "tx_producer v = Pc_checking i w idle depth active"
    using w by (simp add: v_def window_prepared_def Let_def)
  let ?pre = "runDuplicatePreflightWindow (\<lambda>_. 0) (\<lambda>_ _. Inr []) (\<lambda>_ _ _. Inr []) (\<lambda>_ _. Inr []) True (pw_files w)
      (ss_skipDuplicates (tx_session v)) (ss_outgoingHashes (tx_session v))"
  obtain r where r: "?pre = (Inr r, ss_outgoingHashes (tx_session v), [])"
    using skip by (simp add: runDuplicatePreflightWindow_def Let_def)
  define u where "u = window_checked i w idle depth active (\<lambda>_. None) ?pre 0 v"
  have vu: "transfer_step v u" unfolding u_def by (rule preflight_returns [OF pv])
  obtain files s where plan: "plan_window (\<lambda>_. None) i (length (window_assets i (tx_session v))) w r idle depth active
      (queue_depth (tx_queue v)) 0 (tx_session v) = (files, s)" by fastforce
  have st: "streaming v" using assms(3) gateD(3) [OF gate] by (simp add: streaming_def)
  have u: "tx_session u = s" "tx_producer u = Pc_pushing i files [] Not_waiting" "tx_queue u = tx_queue t"
    using plan r st queue by (simp_all add: u_def window_checked_def streaming_def)
  have "gate s = gate (tx_session t)" using gate_plan_window [OF plan] gate by simp
  then have "streaming u" "\<not> ss_isCancelled (tx_session u)"
    using gateD [of s "tx_session t"] assms(3,4) u(1) by (simp_all add: streaming_def)
  moreover have "length files = length (pw_files w)" using arg_cong [OF plan_window_core(2) [OF plan], of length] by simp
  ultimately show thesis using that u tv vu by (meson converse_rtranclp_into_rtranclp rtranclp.rtrancl_refl)
qed

lemma push_room:
  assumes "tx_producer t = Pc_pushing i (f # fs) [] Not_waiting" "\<not> ss_isCancelled (tx_session t)"
    "q_waitingConsumers (tx_queue t) = []" "\<not> q_closed (tx_queue t)"
  obtains u where "transfer_step t u" "gate (tx_session u) = gate (tx_session t)" "q_waitingConsumers (tx_queue u) = []"
    "\<not> q_closed (tx_queue u)" "q_capacity (tx_queue u) = q_capacity (tx_queue t)"
    "if length (q_items (tx_queue t)) < q_capacity (tx_queue t)
     then tx_producer u = Pc_pushing i fs [] Not_waiting \<and> length (q_items (tx_queue u)) = Suc (length (q_items (tx_queue t)))
     else tx_producer u = Pc_pushing i (f # fs) [] (Waiting 0)"
proof
  let ?u = "push_next i (f # fs) [] Not_waiting 0 t"
  show "transfer_step t ?u" by (rule push_runs [OF assms(1)]) simp
  show "gate (tx_session ?u) = gate (tx_session t)" "q_waitingConsumers (tx_queue ?u) = []"
    "\<not> q_closed (tx_queue ?u)" "q_capacity (tx_queue ?u) = q_capacity (tx_queue t)"
    "if length (q_items (tx_queue t)) < q_capacity (tx_queue t)
     then tx_producer ?u = Pc_pushing i fs [] Not_waiting \<and> length (q_items (tx_queue ?u)) = Suc (length (q_items (tx_queue t)))
     else tx_producer ?u = Pc_pushing i (f # fs) [] (Waiting 0)"
    using assms by (simp_all add: push_next_def push_file_def queue_push_def Let_def gate_fold)
qed

lemma bp_waiting:
  obtains t f where "transfer_step\<^sup>*\<^sup>* bp0 t" "streaming t" "\<not> ss_isCancelled (tx_session t)"
    "tx_producer t = Pc_pushing 0 [f] [] (Waiting 0)"
proof -
  obtain w where w: "prepareAssetWindow bp_env (prepare_request 0 (tx_session bp0)) = Inr (Some w)" "length (pw_files w) = 3"
    using bp_window by blast
  have begins: "transfer_step bp0 (begin_window 0 0 bp0)" by (rule window_begins [OF bp0_state(1)])
  obtain t files where t: "transfer_step\<^sup>*\<^sup>* (begin_window 0 0 bp0) t" "tx_producer t = Pc_pushing 0 files [] Not_waiting"
    "length files = 3" "tx_queue t = fresh_queue 2" "streaming t" "\<not> ss_isCancelled (tx_session t)"
    using stream_window [OF bp0_state(6) w(1) bp0_state(9,10,7)] w(2) bp0_state(8) by metis
  obtain f g h where files: "files = [f, g, h]" using t(3) by (auto simp: numeral_3_eq_3 length_Suc_conv)
  have q: "q_items (tx_queue t) = []" "q_waitingConsumers (tx_queue t) = []" "\<not> q_closed (tx_queue t)" "q_capacity (tx_queue t) = 2"
    using t(4) by (simp_all add: fresh_queue_def)
  obtain u where u: "transfer_step t u" "gate (tx_session u) = gate (tx_session t)" "q_waitingConsumers (tx_queue u) = []"
    "\<not> q_closed (tx_queue u)" "q_capacity (tx_queue u) = 2" "tx_producer u = Pc_pushing 0 [g, h] [] Not_waiting"
    "length (q_items (tx_queue u)) = 1"
    by (rule push_room [OF t(2) [unfolded files] t(6) q(2,3)]) (use q in \<open>auto split: if_splits\<close>)
  have "\<not> ss_isCancelled (tx_session u)" using gateD(1) [OF u(2)] t(6) by simp
  note on = this
  obtain v where v: "transfer_step u v" "gate (tx_session v) = gate (tx_session u)" "q_waitingConsumers (tx_queue v) = []"
    "\<not> q_closed (tx_queue v)" "q_capacity (tx_queue v) = 2" "tx_producer v = Pc_pushing 0 [h] [] Not_waiting"
    "length (q_items (tx_queue v)) = 2"
    by (rule push_room [OF u(6) on u(3,4)]) (use u in \<open>auto split: if_splits\<close>)
  have "\<not> ss_isCancelled (tx_session v)" using gateD(1) [OF v(2)] gateD(1) [OF u(2)] t(6) by simp
  note on = this
  obtain x where x: "transfer_step v x" "gate (tx_session x) = gate (tx_session v)" "tx_producer x = Pc_pushing 0 [h] [] (Waiting 0)"
    by (rule push_room [OF v(6) on v(3,4)]) (use v in \<open>auto split: if_splits\<close>)
  have "gate (tx_session x) = gate (tx_session t)" using x u v by simp
  then have "streaming x" "\<not> ss_isCancelled (tx_session x)" using t(5,6) gateD [of "tx_session x" "tx_session t"] by (simp_all add: streaming_def)
  moreover have "transfer_step\<^sup>*\<^sup>* bp0 x" using begins t(1) u(1) v(1) x(1)
    by (meson converse_rtranclp_into_rtranclp rtranclp.rtrancl_into_rtrancl)
  ultimately show thesis using x(3) that by blast
qed

subsection \<open>Lemmas: the producer of a cancelled session\<close>

lemma producer_throws_streaming:
  assumes "streaming t" and "q_closed (tx_queue t)"
  shows "tx_producer (producer_throws e now t) = Pc_done False"
    and "ss_fatalError (tx_session (producer_throws e now t)) = Some (producer_error e)"
proof -
  let ?c = "cancel_transfer (upd_session (\<lambda>s. s\<lparr>ss_fatalError := Some (producer_error e)\<rparr>) t)"
  have "streaming ?c" "q_closed (tx_queue ?c)"
    using assms by (simp_all add: cancel_transfer_def Let_def streaming_def close_queue_conv)
  then show "tx_producer (producer_throws e now t) = Pc_done False"
    by (simp add: producer_throws_def produced_def close_queue_conv)
  show "ss_fatalError (tx_session (producer_throws e now t)) = Some (producer_error e)"
    using core_of_fields(8) [of "tx_session (producer_throws e now t)"]
    by (simp add: producer_throws_def produced_frame cancel_core core_windows_cleared_def)
qed

lemma resumed_push_fails:
  assumes "streaming c" and "q_closed (tx_queue c)"
  shows "tx_producer (push_next i (f # fs) later (Resumed since) now c) = Pc_done False"
    and "ss_fatalError (tx_session (push_next i (f # fs) later (Resumed since) now c)) =
           Some (Thrown_failure (new_TransferFailure Stage_preflight Unexpected True))"
proof -
  let ?t = "(upd_session (push_callback i (Resumed since) now f False) c)\<lparr>tx_queue := tx_queue c\<rparr>"
  have "push_next i (f # fs) later (Resumed since) now c = producer_throws (Thrown_error ''Queue is closed'') now ?t"
    using assms by (simp add: push_next_def push_file_def queue_push_def)
  moreover have "streaming ?t" "q_closed (tx_queue ?t)"
    using assms core_isCancelled(3) [of "tx_session ?t" "tx_session c"] by (simp_all add: streaming_def)
  ultimately show "tx_producer (push_next i (f # fs) later (Resumed since) now c) = Pc_done False"
    "ss_fatalError (tx_session (push_next i (f # fs) later (Resumed since) now c)) =
       Some (Thrown_failure (new_TransferFailure Stage_preflight Unexpected True))"
    by (simp_all add: producer_throws_streaming producer_error_def)
qed

lemma window_cancelled:
  assumes "streaming c" and "q_closed (tx_queue c)" and "ss_isCancelled (tx_session c)"
  shows "tx_producer (begin_window i now c) = Pc_done False"
    and "core_of (tx_session (begin_window i now c)) = core_of (tx_session c)"
proof -
  have "begin_window i now c = produced False now c" using assms(3) by (simp add: begin_window_def Let_def)
  then show "tx_producer (begin_window i now c) = Pc_done False"
    "core_of (tx_session (begin_window i now c)) = core_of (tx_session c)"
    using assms by (simp_all add: produced_frame) (simp add: produced_def close_queue_conv)
qed

subsection \<open>Properties\<close>

text \<open>
  C1. A transfer that runs to its end accounts for everything: in every interleaving of
  the producer, the two workers, the thermal events and the answers of the environment, if
  the preparation and both workers are done and nobody cancelled, the session reports
  completion, and uploaded, skipped and failed files add up to the expanded files, which
  are the prepared files and the assets that could not be prepared; every prepared file has
  an outcome; the status is \<open>mixed\<close> exactly if a file failed. Required is that the
  identifiers of the prepared files are distinct and different from those of failures.
\<close>

theorem session_accounts:
  assumes "transfer_step\<^sup>*\<^sup>* (init_transfer (new_session sid ref assets opts native ver env t0) t1) t"
    and fin: "tx_producer t = Pc_done True" "tx_workers t = replicate CONCURRENCY Wk_done"
    and on: "\<not> ss_isCancelled (tx_session t)"
    and d: "distinct (map puf_variantId (tx_prepared t))"
    and dis: "\<forall>f \<in> set (tx_prepared t). puf_variantId f \<notin> failure_ids (ss_ops (tx_session t))"
      "\<forall>f \<in> set (tx_prepared t). \<forall>a \<in> set (ss_assets (tx_session t)). puf_variantId f \<noteq> ma_id a @ '':missing''"
  shows "\<exists>summary. se_observer (session_ends accepts depth now (Inr True) (tx_session t)) = Some (OnComplete summary) \<and>
    us_uploadedFiles summary + us_skippedFiles summary + us_failedFiles summary = us_expandedFiles summary \<and>
    length (tx_prepared t) \<le> us_expandedFiles summary \<and>
    us_completionStatus summary = (if us_failedFiles summary > 0 then Mixed else Completed) \<and>
    puf_variantId ` set (tx_prepared t) \<subseteq>
      terminalIds (ss_outcomes (se_session (session_ends accepts depth now (Inr True) (tx_session t))))"
proof -
  have inv: "tx_inv t" by (rule transfer.reach_inv [OF assms(1) tx_inv_init])
  then have "pipeline_exit (Inr True) (tx_session t) = None"
    using on by (auto simp: pipeline_exit_def tx_inv_def base_inv_def core_of_def Let_def split: option.splits)
  moreover note final_counts [OF inv fin on d dis refl]
  ultimately show ?thesis
    by (simp add: session_ends_def normal_end_def final_summary_def session_summary_def completion_status_def
        expanded_files_def upd_diag_def Let_def)
qed

theorem session_accounts_witness:
  "\<exists>t summary. transfer_step\<^sup>*\<^sup>* ex0 t \<and>
     se_observer (session_ends (\<lambda>_. True) 1 0 (Inr True) (tx_session t)) = Some (OnComplete summary) \<and>
     us_expandedFiles summary \<ge> 1 \<and>
     us_uploadedFiles summary + us_skippedFiles summary + us_failedFiles summary = us_expandedFiles summary"
proof -
  obtain t where t: "transfer_step\<^sup>*\<^sup>* ex0 t" "tx_producer t = Pc_done True" "tx_workers t = [Wk_done, Wk_done]"
    "map puf_variantId (tx_prepared t) = [''ref-1'']" "\<not> ss_isCancelled (tx_session t)"
    "ss_ops (tx_session t) = [Op_save ''ref-1'' 7]" "map ma_id (ss_assets (tx_session t)) = [''u'']" by (rule ex_transfer)
  have a: "\<forall>a \<in> set (ss_assets (tx_session t)). ma_id a = ''u''" using t(7) by auto
  have f: "\<forall>f \<in> set (tx_prepared t). puf_variantId f = ''ref-1''" using t(4) by auto
  have len: "length (tx_prepared t) = 1" using t(4) by auto
  have "\<exists>summary. se_observer (session_ends (\<lambda>_. True) 1 0 (Inr True) (tx_session t)) = Some (OnComplete summary) \<and>
    us_uploadedFiles summary + us_skippedFiles summary + us_failedFiles summary = us_expandedFiles summary \<and>
    length (tx_prepared t) \<le> us_expandedFiles summary \<and>
    us_completionStatus summary = (if us_failedFiles summary > 0 then Mixed else Completed) \<and>
    puf_variantId ` set (tx_prepared t) \<subseteq>
      terminalIds (ss_outcomes (se_session (session_ends (\<lambda>_. True) 1 0 (Inr True) (tx_session t))))"
    by (rule session_accounts [OF t(1) [unfolded ex0_def] t(2)])
      (use t a f in \<open>simp_all add: CONCURRENCY_def numeral_2_eq_2\<close>)
  then show ?thesis using t(1) len by force
qed

text \<open>
  C2. The session does not get stuck: in every reachable state, cancelled or not, the
  producer or a worker can run its next segment, or the session is finished, or the only
  thing left is the file of the second worker, which an adaptive policy holds at the
  thermal gate of a hot device while the first worker has already returned. In
  particular a producer that waits for room and a worker that waits for a file are woken.
\<close>

theorem session_progress:
  assumes "transfer_step\<^sup>*\<^sup>* (init_transfer (new_session sid ref assets opts native ver env t0) t1) t"
  shows "can_run t \<or> finished t \<or>
    (\<exists>f. tx_workers t = [Wk_done, Wk_parked f] \<and> pc_ended (tx_producer t) \<and>
       controlMode (ss_thermal (tx_session t)) = Control_reduced \<and> \<not> tc_cancelled (ss_thermal (tx_session t)))"
proof (rule ccontr)
  assume stuck: "\<not> ?thesis"
  have inv: "prog_inv t" by (rule schedule.reach_inv [OF assms prog_inv_init])
  obtain a b where ab: "tx_workers t = [a, b]" using workers_pair [OF inv] by blast
  note parts = sched_parts [OF inv [unfolded prog_inv_def]]
  have pc: "pc_ended (tx_producer t)" using stuck waiting_producer_served [OF inv] by (auto simp: can_run_def)
  have on: "Wk_off \<notin> set (tx_workers t)" using stuck pc parts(5) by (auto simp: finished_def)
  then have "q_closed (tx_queue t)" using parts(4) pc ab by auto
  then have "q_waitingConsumers (tx_queue t) = []" using inv by (auto simp: prog_inv_def sched_inv_def)
  then have "a \<noteq> Wk_waiting" "b \<noteq> Wk_waiting" using parts(3) [of 0] parts(3) [of 1] ab by auto
  moreover have "a \<noteq> Wk_parked f" for f using parts(2) [of 0 f] ab by auto
  ultimately have ends: "a = Wk_done" "b = Wk_done \<or> (\<exists>f. b = Wk_parked f)"
    using idle_worker [of t a] idle_worker [of t b] stuck on ab by auto
  then obtain f where f: "b = Wk_parked f" using stuck pc ab by (auto simp: finished_def)
  then have "heat (ss_thermal (tx_session t))" using parts(2) [of 1 f] ab by simp
  then show False using stuck ends f ab pc by (auto simp: heat_def)
qed

theorem session_progress_witness:
  "\<exists>t. transfer_step\<^sup>*\<^sup>* ex0 t \<and> t \<noteq> ex0 \<and> finished t \<and> \<not> can_run t \<and> can_run ex0"
proof -
  obtain t where t: "transfer_step\<^sup>*\<^sup>* ex0 t" "tx_producer t = Pc_done True" "tx_workers t = [Wk_done, Wk_done]"
    by (rule ex_transfer)
  have "can_run t \<or> finished t \<or> (\<exists>f. tx_workers t = [Wk_done, Wk_parked f] \<and> pc_ended (tx_producer t) \<and>
       controlMode (ss_thermal (tx_session t)) = Control_reduced \<and> \<not> tc_cancelled (ss_thermal (tx_session t)))"
    by (rule session_progress [OF t(1) [unfolded ex0_def]])
  moreover have "\<not> can_run t" using t by (auto simp: can_run_def)
  ultimately have "finished t" using t(3) by auto
  moreover have "can_run ex0" by (simp add: can_run_def ex0_pc)
  ultimately show ?thesis using t \<open>\<not> can_run t\<close> by metis
qed





end
