(* ===== verification/MediaSelection.thy ===== *)
theory MediaSelection
  imports UploadTypes Interfaces
begin

text \<open>
  The media picker: \<open>features/media/hooks/useMediaSelection.ts\<close> (grid geometry, drag
  selection, the selection store with its subscriptions, paging, select all) and
  \<open>services/MediaScanner.ts\<close>. The photo library is a parameter; a callback of the hook is a
  function on the state that its refs and state variables form, and a function that awaits
  pages takes their answers as an argument. Positions are whole numbers or reals; the
  rounding of doubles is not modelled.
\<close>

subsection \<open>Geometry of the grid\<close>

record MediaGridLayout =
  gl_itemSize :: number
  gl_itemOuterSize :: number
  gl_itemMargin :: number
  gl_contentPadding :: number
  gl_numColumns :: nat

definition dragAutoScrollVelocity :: "number \<Rightarrow> number \<Rightarrow> number" where
  "dragAutoScrollVelocity y viewportHeight =
     (if viewportHeight \<le> 0 then 0
      else
        (let edgeSize = min 80 (viewportHeight * 0.2)
         in if y < edgeSize then -480 * (1 - max 0 y / edgeSize)
            else if y > viewportHeight - edgeSize
            then 480 * ((min viewportHeight y - (viewportHeight - edgeSize)) / edgeSize)
            else 0))"

definition nextAutoScrollOffset :: "number \<Rightarrow> number \<Rightarrow> number \<Rightarrow> number \<Rightarrow> number" where
  "nextAutoScrollOffset currentOffset velocity elapsedMs maxOffset =
     (let safeElapsedMs = max 0 (min 50 elapsedMs)
      in max 0 (min maxOffset (currentOffset + velocity * safeElapsedMs / 1000)))"

definition shouldScheduleDragIndex :: "int \<Rightarrow> int \<Rightarrow> bool" where
  "shouldScheduleDragIndex targetIndex previousIndex \<longleftrightarrow> targetIndex \<ge> 0 \<and> targetIndex \<noteq> previousIndex"

definition calculateMediaGridLayout :: "number \<Rightarrow> nat \<Rightarrow> MediaGridLayout" where
  "calculateMediaGridLayout windowWidth numColumns =
     (let itemMargin = 1; contentPadding = 1;
          itemSize = (windowWidth - contentPadding * 2 - itemMargin * 2 * real numColumns) / real numColumns
      in \<lparr>gl_itemSize = itemSize, gl_itemOuterSize = itemSize + itemMargin * 2, gl_itemMargin = itemMargin,
          gl_contentPadding = contentPadding, gl_numColumns = numColumns\<rparr>)"

definition gridIndexForPoint :: "number \<Rightarrow> number \<Rightarrow> number \<Rightarrow> nat \<Rightarrow> MediaGridLayout \<Rightarrow> int" where
  "gridIndexForPoint x y scrollOffset itemCount layout =
     (if itemCount = 0 then -1
      else
        (let relativeX = max 0 (x - gl_contentPadding layout);
             relativeY = max 0 (y + scrollOffset);
             column = max 0 (min (int (gl_numColumns layout) - 1) \<lfloor>relativeX / gl_itemOuterSize layout\<rfloor>);
             row = max 0 \<lfloor>relativeY / gl_itemOuterSize layout\<rfloor>
         in min (int itemCount - 1) (row * int (gl_numColumns layout) + column)))"

subsection \<open>The selection store\<close>

text \<open>A listener is a number; \<open>notify\<close> returns the listeners that are called, in order.\<close>

record SelectionStore =
  st_selectedIds :: "string list"
  st_listeners :: "(string, nat list) jsmap"

definition createSelectionStore :: SelectionStore where
  "createSelectionStore = \<lparr>st_selectedIds = [], st_listeners = []\<rparr>"

definition store_isSelected :: "string \<Rightarrow> SelectionStore \<Rightarrow> bool" where
  "store_isSelected i s \<longleftrightarrow> i \<in> set (st_selectedIds s)"

definition notify :: "string list \<Rightarrow> SelectionStore \<Rightarrow> nat list" where
  "notify changed s = fold (\<lambda>i notified. set_add_all (group_of (st_listeners s) i) notified) changed []"

definition changedSubscribedIds :: "string list \<Rightarrow> string list \<Rightarrow> SelectionStore \<Rightarrow> string list" where
  "changedSubscribedIds previous later s =
     filter (\<lambda>i. (i \<in> set previous) \<noteq> (i \<in> set later)) (map fst (st_listeners s))"

definition store_subscribe :: "string \<Rightarrow> nat \<Rightarrow> SelectionStore \<Rightarrow> SelectionStore" where
  "store_subscribe i listener s =
     s\<lparr>st_listeners := map_set i (set_add listener (group_of (st_listeners s) i)) (st_listeners s)\<rparr>"

text \<open>The function that \<open>subscribe\<close> returns; it is called once, while the subscription is in force.\<close>

definition store_unsubscribe :: "string \<Rightarrow> nat \<Rightarrow> SelectionStore \<Rightarrow> SelectionStore" where
  "store_unsubscribe i listener s =
     (let entry = removeAll listener (group_of (st_listeners s) i)
      in if entry = [] then s\<lparr>st_listeners := AList.delete i (st_listeners s)\<rparr>
         else s\<lparr>st_listeners := map_set i entry (st_listeners s)\<rparr>)"

definition set_selected :: "string \<Rightarrow> bool \<Rightarrow> string list \<Rightarrow> string list" where
  "set_selected i shouldSelect xs = (if shouldSelect then set_add i xs else removeAll i xs)"

text \<open>The operations that change the selection: its new size, the listeners called, the store.\<close>

definition store_toggle :: "string \<Rightarrow> SelectionStore \<Rightarrow> nat \<times> nat list \<times> SelectionStore" where
  "store_toggle i s =
     (let s1 = s\<lparr>st_selectedIds := set_selected i (\<not> store_isSelected i s) (st_selectedIds s)\<rparr>
      in (length (st_selectedIds s1), notify [i] s1, s1))"

definition update_entry :: "string \<times> bool \<Rightarrow> string list \<times> string list \<Rightarrow> string list \<times> string list" where
  "update_entry e acc =
     (case (e, acc) of ((i, shouldSelect), (selected, changed)) \<Rightarrow>
        if (i \<in> set selected) = shouldSelect then (selected, changed)
        else (set_selected i shouldSelect selected, changed @ [i]))"

definition store_update :: "(string \<times> bool) list \<Rightarrow> SelectionStore \<Rightarrow> nat \<times> nat list \<times> SelectionStore" where
  "store_update entries s =
     (case fold update_entry entries (st_selectedIds s, []) of (selected, changed) \<Rightarrow>
        (let s1 = s\<lparr>st_selectedIds := selected\<rparr> in (length selected, notify changed s1, s1)))"

definition store_replace :: "string list \<Rightarrow> SelectionStore \<Rightarrow> nat \<times> nat list \<times> SelectionStore" where
  "store_replace later s =
     (let changed = changedSubscribedIds (st_selectedIds s) later s;
          s1 = s\<lparr>st_selectedIds := set_add_all later []\<rparr>
      in (length (st_selectedIds s1), notify changed s1, s1))"

definition store_clear :: "SelectionStore \<Rightarrow> nat \<times> nat list \<times> SelectionStore" where
  "store_clear s =
     (let changed = filter (\<lambda>i. store_isSelected i s) (map fst (st_listeners s));
          s1 = s\<lparr>st_selectedIds := []\<rparr>
      in (0, notify changed s1, s1))"

subsection \<open>Drag selection\<close>

text \<open>\<open>media[index]?.id\<close>, when it is not the empty string.\<close>

definition media_id :: "MediaAsset list \<Rightarrow> int \<Rightarrow> string option" where
  "media_id media index =
     (if 0 \<le> index \<and> index < int (length media)
      then (let i = ma_id (media ! nat index) in if i = [] then None else Some i)
      else None)"

text \<open>\<open>getBaselineSelection\<close>: the remembered value, or the present one, which is then remembered.\<close>

definition getBaselineSelection ::
  "SelectionStore \<Rightarrow> string \<Rightarrow> (string, bool) jsmap \<Rightarrow> bool \<times> (string, bool) jsmap" where
  "getBaselineSelection store i baseline =
     (case map_get baseline i of
        Some b \<Rightarrow> (b, baseline)
      | None \<Rightarrow> (store_isSelected i store, map_set i (store_isSelected i store) baseline))"

text \<open>\<open>dragSelectionDelta\<close> works on the pair of the updates and the remembered values.\<close>

type_synonym drag_maps = "(string, bool) jsmap \<times> (string, bool) jsmap"

definition update_index ::
  "MediaAsset list \<Rightarrow> SelectionStore \<Rightarrow> bool \<Rightarrow> bool \<Rightarrow> int \<Rightarrow> drag_maps \<Rightarrow> drag_maps" where
  "update_index media store selectMode entering index m =
     (case media_id media index of
        None \<Rightarrow> m
      | Some i \<Rightarrow>
          (case getBaselineSelection store i (snd m) of (baselineSelected, baseline) \<Rightarrow>
             (map_set i (if entering then selectMode else baselineSelected) (fst m), baseline)))"

definition updateRange ::
  "MediaAsset list \<Rightarrow> SelectionStore \<Rightarrow> bool \<Rightarrow> int \<Rightarrow> int \<Rightarrow> bool \<Rightarrow> drag_maps \<Rightarrow> drag_maps" where
  "updateRange media store selectMode first final entering =
     fold (update_index media store selectMode entering) [first..final]"

definition dragSelectionDelta ::
  "MediaAsset list \<Rightarrow> SelectionStore \<Rightarrow> int \<Rightarrow> int option \<Rightarrow> int \<Rightarrow> bool \<Rightarrow> (string, bool) jsmap \<Rightarrow> drag_maps" where
  "dragSelectionDelta media store startIndex previousTargetIndex targetIndex selectMode baseline =
     (let upd = updateRange media store selectMode;
          nextFirst = min startIndex targetIndex; nextLast = max startIndex targetIndex
      in case previousTargetIndex of
           None \<Rightarrow> upd nextFirst nextLast True ([], baseline)
         | Some previous \<Rightarrow>
             (let previousFirst = min startIndex previous; previousLast = max startIndex previous;
                  m1 = (if previousFirst < nextFirst then upd previousFirst (nextFirst - 1) False ([], baseline)
                        else ([], baseline));
                  m2 = (if nextFirst < previousFirst then upd nextFirst (previousFirst - 1) True m1 else m1);
                  m3 = (if previousLast < nextLast then upd (previousLast + 1) nextLast True m2 else m2)
              in if nextLast < previousLast then upd (nextLast + 1) previousLast False m3 else m3))"

text \<open>The refs of a drag and the store.\<close>

record drag =
  dg_start :: "int option"
  dg_last :: "int option"
  dg_selectMode :: bool
  dg_baseline :: "(string, bool) jsmap"
  dg_suppressNextPress :: bool
  dg_selectedCount :: nat
  dg_store :: SelectionStore

definition updateDragSelection :: "MediaAsset list \<Rightarrow> int \<Rightarrow> drag \<Rightarrow> drag" where
  "updateDragSelection media targetIndex d =
     (case dg_start d of
        None \<Rightarrow> d
      | Some start \<Rightarrow>
          (if targetIndex < 0 \<or> Some targetIndex = dg_last d then d
           else
             (case dragSelectionDelta media (dg_store d) start (dg_last d) targetIndex (dg_selectMode d) (dg_baseline d) of
                (updates, baseline) \<Rightarrow>
                  (case store_update updates (dg_store d) of (count, called, store) \<Rightarrow>
                     d\<lparr>dg_last := Some targetIndex, dg_baseline := baseline, dg_selectedCount := count,
                       dg_store := store\<rparr>))))"

definition beginDragSelection :: "MediaAsset list \<Rightarrow> int \<Rightarrow> bool \<Rightarrow> drag \<Rightarrow> drag" where
  "beginDragSelection media index forceSelect d =
     (case media_id media index of
        None \<Rightarrow> d
      | Some i \<Rightarrow>
          updateDragSelection media index
            (d\<lparr>dg_start := Some index, dg_last := None, dg_baseline := [],
               dg_selectMode := (forceSelect \<or> \<not> store_isSelected i (dg_store d)),
               dg_suppressNextPress := True\<rparr>))"

definition endDragSelection :: "drag \<Rightarrow> drag" where
  "endDragSelection d = d\<lparr>dg_start := None, dg_last := None, dg_baseline := []\<rparr>"

subsection \<open>Lemmas: drag selection\<close>

definition ids_at :: "MediaAsset list \<Rightarrow> int set \<Rightarrow> string set" where
  "ids_at media K = {i. \<exists>k \<in> K. media_id media k = Some i}"

lemma ids_at_Un: "ids_at media (K \<union> L) = ids_at media K \<union> ids_at media L"
  by (auto simp: ids_at_def)

lemma ids_at_split: "ids_at media K = ids_at media (K - L) \<union> ids_at media (K \<inter> L)"
  by (auto simp: ids_at_def)

lemma ids_at_empty [simp]: "ids_at media {} = {}"
  by (simp add: ids_at_def)

lemma media_id_inj:
  assumes "distinct (map ma_id media)" and "media_id media k = Some i" and "media_id media l = Some i"
  shows "k = l"
proof -
  have kl: "0 \<le> k" "nat k < length media" "0 \<le> l" "nat l < length media" "map ma_id media ! nat k = map ma_id media ! nat l"
    using assms(2,3) by (auto simp: media_id_def Let_def split: if_splits)
  then have "nat k = nat l" using nth_eq_iff_index_eq [OF assms(1), of "nat k" "nat l"] by simp
  then show ?thesis using kl by simp
qed

lemma ids_at_disjoint:
  assumes "distinct (map ma_id media)" and "K \<inter> L = {}"
  shows "ids_at media K \<inter> ids_at media L = {}"
proof -
  have False if "k \<in> K" "l \<in> L" "media_id media k = Some i" "media_id media l = Some i" for k l i
    using media_id_inj [OF assms(1) that(3,4)] that assms(2) by auto
  then show ?thesis by (auto simp: ids_at_def)
qed

text \<open>The value that \<open>getBaselineSelection\<close> returns.\<close>

definition base_value :: "SelectionStore \<Rightarrow> (string, bool) jsmap \<Rightarrow> string \<Rightarrow> bool" where
  "base_value store b i = (case map_get b i of Some v \<Rightarrow> v | None \<Rightarrow> store_isSelected i store)"

definition remembered :: "SelectionStore \<Rightarrow> string set \<Rightarrow> (string, bool) jsmap \<Rightarrow> string \<Rightarrow> bool option" where
  "remembered store I b i = (if i \<in> I then Some (base_value store b i) else map_get b i)"

lemma update_index_get:
  "map_get (fst (update_index media store mode entering k m)) i =
     (if media_id media k = Some i then Some (if entering then mode else base_value store (snd m) i) else map_get (fst m) i)"
  "map_get (snd (update_index media store mode entering k m)) i =
     (if media_id media k = Some i then Some (base_value store (snd m) i) else map_get (snd m) i)"
  "distinct (map fst (fst m)) \<Longrightarrow> distinct (map fst (fst (update_index media store mode entering k m)))"
  by (auto simp: update_index_def getBaselineSelection_def base_value_def distinct_update split: option.splits)

lemma base_value_update [simp]: "base_value store (snd (update_index media store mode entering k m)) i = base_value store (snd m) i"
  by (simp add: base_value_def update_index_get(2))

lemma update_indices_get:
  "map_get (fst (fold (update_index media store mode entering) ks m)) i =
     (if i \<in> ids_at media (set ks) then Some (if entering then mode else base_value store (snd m) i) else map_get (fst m) i) \<and>
   map_get (snd (fold (update_index media store mode entering) ks m)) i = remembered store (ids_at media (set ks)) (snd m) i"
proof (induction ks arbitrary: m)
  case Nil
  then show ?case by (simp add: remembered_def)
next
  case (Cons k ks)
  have split: "i \<in> ids_at media (insert k (set ks)) \<longleftrightarrow> media_id media k = Some i \<or> i \<in> ids_at media (set ks)"
    by (auto simp: ids_at_def)
  show ?case using Cons.IH [of "update_index media store mode entering k m"]
    by (auto simp: split update_index_get remembered_def)
qed

lemma update_indices_distinct:
  "distinct (map fst (fst m)) \<Longrightarrow> distinct (map fst (fst (fold (update_index media store mode entering) ks m)))"
  by (induction ks arbitrary: m) (simp_all add: update_index_get(3))

lemma updateRange_get:
  "map_get (fst (updateRange media store mode a b entering m)) i =
     (if i \<in> ids_at media {a..b} then Some (if entering then mode else base_value store (snd m) i) else map_get (fst m) i)"
  "map_get (snd (updateRange media store mode a b entering m)) i = remembered store (ids_at media {a..b}) (snd m) i"
  using update_indices_get [of media store mode entering "[a..b]" m i] by (simp_all add: updateRange_def)

lemma updateRange_distinct:
  "distinct (map fst (fst m)) \<Longrightarrow> distinct (map fst (fst (updateRange media store mode a b entering m)))"
  by (simp add: updateRange_def update_indices_distinct)

lemma base_value_range [simp]:
  "base_value store (snd (updateRange media store mode a b entering m)) i = base_value store (snd m) i"
  by (simp add: base_value_def updateRange_get(2) remembered_def)

lemma updateRange_if:
  "(if a < b then updateRange media store mode a (b - 1) entering m else m) = updateRange media store mode a (b - 1) entering m"
  "(if a < b then updateRange media store mode (a + 1) b entering m else m) = updateRange media store mode (a + 1) b entering m"
  by (simp_all add: updateRange_def)

text \<open>The indices that leave and that enter the dragged range.\<close>

abbreviation span_of :: "int \<Rightarrow> int \<Rightarrow> int set" where
  "span_of a b \<equiv> {min a b..max a b}"

lemma drag_delta:
  assumes "distinct (map ma_id media)" and "dragSelectionDelta media store start (Some p) q mode b = (u, b')"
  shows "map_get u i =
      (if i \<in> ids_at media (span_of start p - span_of start q) then Some (base_value store b i)
       else if i \<in> ids_at media (span_of start q - span_of start p) then Some mode else None)"
    and "map_get b' i = remembered store (ids_at media (span_of start p - span_of start q \<union> (span_of start q - span_of start p))) b i"
    and "distinct (map fst u)"
proof -
  let ?upd = "updateRange media store mode"
  let ?m = "?upd (max start q + 1) (max start p) False (?upd (max start p + 1) (max start q) True
      (?upd (min start q) (min start p - 1) True (?upd (min start p) (min start q - 1) False ([], b))))"
  have m: "(u, b') = ?m"
    using assms(2) unfolding dragSelectionDelta_def Let_def updateRange_if by simp
  have out: "span_of start p - span_of start q = {min start p..min start q - 1} \<union> {max start q + 1..max start p}"
    and ins: "span_of start q - span_of start p = {min start q..min start p - 1} \<union> {max start p + 1..max start q}" by auto
  have dis: "ids_at media {min start q..min start p - 1} \<inter> ids_at media {max start q + 1..max start p} = {}"
    "ids_at media {max start p + 1..max start q} \<inter> ids_at media {min start p..min start q - 1} = {}"
    "ids_at media {min start q..min start p - 1} \<inter> ids_at media {min start p..min start q - 1} = {}"
    "ids_at media {max start p + 1..max start q} \<inter> ids_at media {max start q + 1..max start p} = {}"
    by (rule ids_at_disjoint [OF assms(1)], force)+
  show "map_get u i =
      (if i \<in> ids_at media (span_of start p - span_of start q) then Some (base_value store b i)
       else if i \<in> ids_at media (span_of start q - span_of start p) then Some mode else None)"
    using arg_cong [OF m, of fst] dis by (auto simp: updateRange_get out ins ids_at_Un)
  show "map_get b' i = remembered store (ids_at media (span_of start p - span_of start q \<union> (span_of start q - span_of start p))) b i"
    using arg_cong [OF m, of snd] by (auto simp: updateRange_get out ins ids_at_Un remembered_def)
  show "distinct (map fst u)" using arg_cong [OF m, of fst] by (simp add: updateRange_distinct)
qed

text \<open>What an update of the store does to the selection, and which identifiers changed.\<close>

lemma set_selected_iff: "j \<in> set (set_selected i b xs) \<longleftrightarrow> (if j = i then b else j \<in> set xs)"
  by (simp add: set_selected_def)

lemma distinct_set_selected: "distinct xs \<Longrightarrow> distinct (set_selected i b xs)"
  by (simp add: set_selected_def distinct_removeAll)

lemma update_entries:
  assumes "distinct (map fst es)" and "fold update_entry es (xs, ch) = (ys, ch')"
  shows "(\<forall>j. j \<in> set ys \<longleftrightarrow> (case map_of es j of Some b \<Rightarrow> b | None \<Rightarrow> j \<in> set xs)) \<and>
    (distinct xs \<longrightarrow> distinct ys) \<and> set ch' = set ch \<union> {i. (i \<in> set xs) \<noteq> (i \<in> set ys)}"
  using assms
proof (induction es arbitrary: xs ch)
  case Nil
  then show ?case by simp
next
  case (Cons e es)
  obtain i b where e: "e = (i, b)" by (cases e)
  obtain xs1 ch1 where step: "update_entry e (xs, ch) = (xs1, ch1)" by fastforce
  have fresh: "map_of es i = None" "distinct (map fst es)"
    using Cons.prems e by (auto simp: map_of_eq_None_iff)
  have xs1: "k \<in> set xs1 \<longleftrightarrow> (if k = i then b else k \<in> set xs)" "distinct xs \<Longrightarrow> distinct xs1"
    "set ch1 = set ch \<union> (if (i \<in> set xs) = b then {} else {i})" for k
    using step by (auto simp: e update_entry_def set_selected_iff distinct_set_selected split: if_splits)
  have run: "fold update_entry es (xs1, ch1) = (ys, ch')" using Cons.prems step by simp
  note IH = Cons.IH [OF fresh(2) run]
  have i: "i \<in> set ys \<longleftrightarrow> b" using IH fresh(1) xs1(1) [of i] by simp
  have "set ch' = set ch1 \<union> {k. (k \<in> set xs1) \<noteq> (k \<in> set ys)}" using IH by blast
  also have "\<dots> = set ch \<union> {k. (k \<in> set xs) \<noteq> (k \<in> set ys)}" using i by (auto simp: xs1 split: if_splits)
  finally have "set ch' = set ch \<union> {k. (k \<in> set xs) \<noteq> (k \<in> set ys)}" .
  moreover have "j \<in> set ys \<longleftrightarrow> (case map_of (e # es) j of Some b \<Rightarrow> b | None \<Rightarrow> j \<in> set xs)" for j
    using IH fresh(1) xs1(1) [of j] by (auto simp: e split: option.splits)
  ultimately show ?case using IH xs1(2) by blast
qed

lemma store_update_selects:
  assumes "distinct (map fst es)" and "store_update es s = (n, called, s')"
  shows "store_isSelected j s' \<longleftrightarrow> (case map_get es j of Some b \<Rightarrow> b | None \<Rightarrow> store_isSelected j s)"
    and "st_listeners s' = st_listeners s" and "n = length (st_selectedIds s')"
proof -
  obtain ys ch where run: "fold update_entry es (st_selectedIds s, []) = (ys, ch)" by fastforce
  then have s': "s' = s\<lparr>st_selectedIds := ys\<rparr>" "n = length ys" using assms(2) by (simp_all add: store_update_def Let_def)
  show "store_isSelected j s' \<longleftrightarrow> (case map_get es j of Some b \<Rightarrow> b | None \<Rightarrow> store_isSelected j s)"
    using update_entries [OF assms(1) run] by (simp add: s' store_isSelected_def split: option.splits)
  show "st_listeners s' = st_listeners s" "n = length (st_selectedIds s')" by (simp_all add: s')
qed

text \<open>A drag from \<open>start\<close> whose present target is \<open>p\<close>, over the selection \<open>base\<close> before it.\<close>

definition drag_inv :: "MediaAsset list \<Rightarrow> (string \<Rightarrow> bool) \<Rightarrow> bool \<Rightarrow> int \<Rightarrow> int \<Rightarrow> drag \<Rightarrow> bool" where
  "drag_inv media base mode start p d \<longleftrightarrow>
     dg_start d = Some start \<and> dg_last d = Some p \<and> dg_selectMode d = mode \<and>
     (\<forall>i. store_isSelected i (dg_store d) \<longleftrightarrow> (if i \<in> ids_at media (span_of start p) then mode else base i)) \<and>
     (\<forall>i v. map_get (dg_baseline d) i = Some v \<longrightarrow> v = base i) \<and>
     (\<forall>i \<in> ids_at media (span_of start p). map_get (dg_baseline d) i \<noteq> None)"

lemma drag_inv_update:
  assumes d: "distinct (map ma_id media)" and inv: "drag_inv media base mode start p d" and q: "0 \<le> q"
  shows "drag_inv media base mode start q (updateDragSelection media q d)"
proof (cases "q = p")
  case True
  then show ?thesis using inv by (simp add: updateDragSelection_def drag_inv_def)
next
  case False
  let ?P = "span_of start p" and ?N = "span_of start q"
  obtain u b where delta: "dragSelectionDelta media (dg_store d) start (Some p) q mode (dg_baseline d) = (u, b)" by fastforce
  obtain n called s where upd: "store_update u (dg_store d) = (n, called, s)" using prod_cases3 by blast
  note get = drag_delta [OF d delta]
  have base: "base_value (dg_store d) (dg_baseline d) i = base i" if "i \<in> ids_at media (?P - ?N) \<union> ids_at media (?N - ?P)" for i
  proof (cases "map_get (dg_baseline d) i")
    case None
    then have "i \<notin> ids_at media ?P" using inv by (auto simp: drag_inv_def)
    then show ?thesis using inv None by (simp add: drag_inv_def base_value_def)
  next
    case (Some v)
    then show ?thesis using inv by (simp add: drag_inv_def base_value_def)
  qed
  have ids: "ids_at media (?P - ?N) \<inter> ids_at media ?N = {}" "ids_at media (?N - ?P) \<inter> ids_at media ?P = {}"
    by (rule ids_at_disjoint [OF d], blast)+
  have N: "ids_at media ?N = ids_at media (?N - ?P) \<union> ids_at media (?N \<inter> ?P)" by (rule ids_at_split)
  have P: "ids_at media ?P = ids_at media (?P - ?N) \<union> ids_at media (?N \<inter> ?P)"
    by (subst Int_commute) (rule ids_at_split)
  have sel: "store_isSelected i s \<longleftrightarrow> (if i \<in> ids_at media ?N then mode else base i)" for i
  proof -
    have old: "store_isSelected i (dg_store d) \<longleftrightarrow> (if i \<in> ids_at media ?P then mode else base i)"
      using inv by (simp add: drag_inv_def)
    consider "i \<in> ids_at media (?P - ?N)" | "i \<in> ids_at media (?N - ?P)"
      | "i \<notin> ids_at media (?P - ?N)" "i \<notin> ids_at media (?N - ?P)" by blast
    then show ?thesis
      using store_update_selects(1) [OF get(3) upd, of i] get(1) [of i] base [of i] old ids N P by cases auto
  qed
  have mem: "map_get b i = Some v \<Longrightarrow> v = base i" for i v
    using get(2) [of i] base [of i] inv by (auto simp: remembered_def ids_at_Un drag_inv_def split: if_splits)
  have rem: "map_get b i \<noteq> None" if "i \<in> ids_at media ?N" for i
  proof (cases "i \<in> ids_at media (?N - ?P)")
    case True
    then show ?thesis using get(2) [of i] by (simp add: remembered_def ids_at_Un)
  next
    case False
    then have "i \<in> ids_at media ?P" using that N P by blast
    then have "map_get (dg_baseline d) i \<noteq> None" using inv unfolding drag_inv_def by blast
    then show ?thesis using get(2) [of i] by (simp add: remembered_def)
  qed
  have "updateDragSelection media q d = d\<lparr>dg_last := Some q, dg_baseline := b, dg_selectedCount := n, dg_store := s\<rparr>"
    using inv False q delta upd by (simp add: updateDragSelection_def drag_inv_def)
  then show ?thesis using inv sel mem rem by (simp add: drag_inv_def)
qed

text \<open>The selection that a drag from \<open>start\<close> to \<open>target\<close> has to show.\<close>

definition drag_reference :: "MediaAsset list \<Rightarrow> bool \<Rightarrow> int \<Rightarrow> int \<Rightarrow> SelectionStore \<Rightarrow> string \<Rightarrow> bool" where
  "drag_reference media mode start target store i \<longleftrightarrow>
     (if i \<in> ids_at media {min start target..max start target} then mode else store_isSelected i store)"

lemma drag_inv_begin:
  assumes d: "distinct (map ma_id media)" and i: "media_id media start = Some i"
    and mode: "mode = (force \<or> \<not> store_isSelected i (dg_store d0))"
  shows "drag_inv media (\<lambda>j. store_isSelected j (dg_store d0)) mode start start (beginDragSelection media start force d0)"
proof -
  let ?d = "d0\<lparr>dg_start := Some start, dg_last := None, dg_baseline := [], dg_selectMode := mode, dg_suppressNextPress := True\<rparr>"
  have start: "0 \<le> start" using i by (simp add: media_id_def split: if_splits)
  obtain u b where delta: "dragSelectionDelta media (dg_store d0) start None start mode [] = (u, b)" by fastforce
  then have m: "(u, b) = updateRange media (dg_store d0) mode start start True ([], [])" by (simp add: dragSelectionDelta_def)
  have u: "map_get u j = (if j \<in> ids_at media {start} then Some mode else None)" "distinct (map fst u)"
    and b: "map_get b j = (if j \<in> ids_at media {start} then Some (store_isSelected j (dg_store d0)) else None)" for j
    using arg_cong [OF m, of fst] arg_cong [OF m, of snd]
    by (simp_all add: updateRange_get updateRange_distinct remembered_def base_value_def)
  obtain n called s where upd: "store_update u (dg_store d0) = (n, called, s)" using prod_cases3 by blast
  have "beginDragSelection media start force d0 = updateDragSelection media start ?d"
    using i mode by (simp add: beginDragSelection_def)
  also have "\<dots> = ?d\<lparr>dg_last := Some start, dg_baseline := b, dg_selectedCount := n, dg_store := s\<rparr>"
    using start delta upd by (simp add: updateDragSelection_def)
  finally show ?thesis
    using store_update_selects(1) [OF u(2) upd] by (simp add: drag_inv_def u b)
qed

lemma drag_inv_updates:
  assumes "distinct (map ma_id media)" and "drag_inv media base mode start p d" and "\<forall>q \<in> set qs. 0 \<le> q"
  shows "drag_inv media base mode start (last (p # qs)) (fold (updateDragSelection media) qs d)"
  using assms(2,3)
proof (induction qs arbitrary: p d)
  case (Cons q qs)
  then show ?case using Cons.IH [OF drag_inv_update [OF assms(1) Cons.prems(1), of q]] by simp
qed simp

subsection \<open>Properties\<close>

text \<open>
  C35. The incremental drag selection is the direct one: wherever the finger went in
  between, forwards, backwards or across its origin, the selection is the one before the
  drag with exactly the items between the origin and the present target set to the mode
  of the drag (select, unless the first item was selected and the drag is not forced).
\<close>

theorem drag_equivalence:
  assumes "distinct (map ma_id media)" and "media_id media start = Some i" and "\<forall>q \<in> set qs. 0 \<le> q"
  shows "store_isSelected j (dg_store (fold (updateDragSelection media) qs (beginDragSelection media start force d))) \<longleftrightarrow>
         drag_reference media (force \<or> \<not> store_isSelected i (dg_store d)) start (last (start # qs)) (dg_store d) j"
  using drag_inv_updates [OF assms(1) drag_inv_begin [OF assms(1,2) refl] assms(3)]
  by (simp add: drag_inv_def drag_reference_def)

definition ex_asset :: "string \<Rightarrow> MediaAsset" where
  "ex_asset i = \<lparr>ma_id = i, ma_uri = i, ma_type = Photo, ma_duration = None, ma_modificationTime = 0, ma_width = 1,
     ma_height = 1, ma_filename = i\<rparr>"

definition ex_drag :: drag where
  "ex_drag = \<lparr>dg_start = None, dg_last = None, dg_selectMode = True, dg_baseline = [], dg_suppressNextPress = False,
     dg_selectedCount = 0, dg_store = createSelectionStore\<rparr>"

theorem drag_equivalence_witness:
  "let media = [ex_asset ''a'', ex_asset ''b'', ex_asset ''c''];
       s = dg_store (fold (updateDragSelection media) [2, 0] (beginDragSelection media 1 False ex_drag))
   in store_isSelected ''a'' s \<and> store_isSelected ''b'' s \<and> \<not> store_isSelected ''c'' s"
proof -
  let ?media = "[ex_asset ''a'', ex_asset ''b'', ex_asset ''c'']"
  let ?s = "dg_store (fold (updateDragSelection ?media) [2, 0] (beginDragSelection ?media 1 False ex_drag))"
  have ids: "ids_at ?media {0..1} = {''a'', ''b''}"
  proof -
    have "{0..1::int} = {0, 1}" by auto
    then show ?thesis by (auto simp: ids_at_def media_id_def ex_asset_def)
  qed
  have "store_isSelected j ?s \<longleftrightarrow> drag_reference ?media True 1 0 (dg_store ex_drag) j" for j
    using drag_equivalence [of ?media 1 "''b''" "[2, 0]" j False ex_drag]
    by (simp add: ex_asset_def media_id_def ex_drag_def createSelectionStore_def store_isSelected_def)
  then show ?thesis
    using ids by (simp add: Let_def drag_reference_def ex_drag_def createSelectionStore_def store_isSelected_def)
qed

end
