(* ===== verification/MediaGallery.thy ===== *)
theory MediaGallery
  imports MediaSelection
begin

text \<open>
  The rest of the media picker: \<open>services/MediaScanner.ts\<close>, and of
  \<open>features/media/hooks/useMediaSelection.ts\<close> the paging of the library, select all, the
  selected assets and the pan gesture that drives the drag selection. The photo library is
  a parameter that answers a page request or fails. The state variables and refs of the
  hook are the record \<open>gallery\<close>; those of the gesture, on the UI thread, are the record
  \<open>pan\<close>, and the calls that it schedules on the other thread are a list.
\<close>

subsection \<open>MediaScanner.ts\<close>

record MediaPage =
  mp_assets :: "MediaAsset list"
  mp_hasNextPage :: bool
  mp_endCursor :: "string option"

text \<open>An asset of \<open>expo-media-library\<close>, and a page of them.\<close>

record library_asset =
  la_id :: string
  la_uri :: string
  la_mediaType :: string
  la_duration :: "number option"
  la_modificationTime :: number
  la_width :: number
  la_height :: number
  la_filename :: string

record media_library =
  ml_granted :: bool
  ml_getAssets :: "nat \<Rightarrow> string option \<Rightarrow> string option \<Rightarrow> (library_asset list \<times> bool \<times> string option) option"

definition toMediaAsset :: "library_asset \<Rightarrow> MediaAsset" where
  "toMediaAsset a =
     \<lparr>ma_id = la_id a, ma_uri = la_uri a, ma_type = (if la_mediaType a = ''video'' then Video else Photo),
      ma_duration = la_duration a, ma_modificationTime = la_modificationTime a, ma_width = la_width a,
      ma_height = la_height a, ma_filename = la_filename a\<rparr>"

text \<open>\<open>None\<close> stands for the rejection of the library call.\<close>

definition getMediaPage :: "media_library \<Rightarrow> nat \<Rightarrow> string option \<Rightarrow> string option \<Rightarrow> MediaPage option" where
  "getMediaPage lib limit albumId after =
     (if \<not> ml_granted lib then Some \<lparr>mp_assets = [], mp_hasNextPage = False, mp_endCursor = None\<rparr>
      else case ml_getAssets lib limit albumId after of
             None \<Rightarrow> None
           | Some (assets, hasNext, endCursor) \<Rightarrow>
               Some \<lparr>mp_assets = map toMediaAsset assets, mp_hasNextPage = hasNext, mp_endCursor = endCursor\<rparr>)"

text \<open>
  The loop of \<open>forEachMediaPage\<close>: the pages that \<open>onPage\<close> receives and whether a request
  failed. The value is \<open>None\<close> when the loop does not end.
\<close>

partial_function (option) page_loop ::
  "media_library \<Rightarrow> nat \<Rightarrow> string option \<Rightarrow> string option \<Rightarrow> (bool \<times> MediaAsset list list) option" where
  "page_loop lib pageSize albumId after =
     (case getMediaPage lib pageSize albumId after of
        None \<Rightarrow> Some (True, [])
      | Some page \<Rightarrow>
          (if mp_hasNextPage page
           then Option.bind (page_loop lib pageSize albumId (mp_endCursor page))
                  (\<lambda>(failed, pages). Some (failed, mp_assets page # pages))
           else Some (False, [mp_assets page])))"

definition forEachMediaPage :: "media_library \<Rightarrow> string option \<Rightarrow> nat \<Rightarrow> (bool \<times> MediaAsset list list) option" where
  "forEachMediaPage lib albumId pageSize =
     (if \<not> ml_granted lib then Some (False, []) else page_loop lib pageSize albumId None)"

definition getMediaByIds :: "media_library \<Rightarrow> string list \<Rightarrow> string option \<Rightarrow> MediaAsset list option option" where
  "getMediaByIds lib wanted albumId =
     map_option (\<lambda>(failed, pages).
         if failed then None else Some (concat (map (filter (\<lambda>a. ma_id a \<in> set wanted)) pages)))
       (forEachMediaPage lib albumId 500)"

definition getAllMedia :: "media_library \<Rightarrow> string option \<Rightarrow> MediaAsset list option option" where
  "getAllMedia lib albumId =
     map_option (\<lambda>(failed, pages). if failed then None else Some (concat pages)) (forEachMediaPage lib albumId 500)"

text \<open>\<open>formatDuration\<close> of a media item, for a duration that is not negative.\<close>

definition formatMediaDuration :: "number option \<Rightarrow> string option" where
  "formatMediaDuration seconds =
     (case seconds of
        None \<Rightarrow> None
      | Some t \<Rightarrow>
          (if t = 0 then None
           else (let m = nat \<lfloor>t / 60\<rfloor>; s = nat \<lfloor>t - 60 * real m\<rfloor>
                 in Some (show_nat m @ '':'' @ (if s < 10 then ''0'' else []) @ show_nat s))))"

subsection \<open>Paging and select all\<close>

definition MEDIA_PAGE_SIZE :: nat where "MEDIA_PAGE_SIZE = 120"

record gallery =
  ga_media :: "MediaAsset list"
  ga_loading :: bool
  ga_album :: "string option"
  ga_operation :: nat
  ga_cursor :: "string option"
  ga_hasNextPage :: bool
  ga_loadingMore :: bool
  ga_loadedIds :: "string set"
  ga_store :: SelectionStore
  ga_selectedCount :: nat
  ga_alerts :: nat

text \<open>
  What an awaited page brings: the page, a failure, or that the operation is no longer the
  current one.
\<close>

datatype page_answer = Page MediaPage | Page_fails | Page_stale

definition clear_selection :: "gallery \<Rightarrow> gallery" where
  "clear_selection g =
     (case store_clear (ga_store g) of (n, called, s) \<Rightarrow> g\<lparr>ga_store := s, ga_selectedCount := n\<rparr>)"

text \<open>The effect that loads the first page of an album: up to its \<open>await\<close>, and after it.\<close>

definition fetchMedia_start :: "string option \<Rightarrow> gallery \<Rightarrow> gallery" where
  "fetchMedia_start album g =
     (clear_selection g)\<lparr>ga_operation := ga_operation g + 1, ga_album := album, ga_loading := True, ga_media := [],
        ga_cursor := None, ga_hasNextPage := False, ga_loadingMore := False, ga_loadedIds := {}\<rparr>"

fun fetchMedia_done :: "page_answer \<Rightarrow> gallery \<Rightarrow> gallery" where
  "fetchMedia_done (Page p) g =
     g\<lparr>ga_loadedIds := set (map ma_id (mp_assets p)), ga_cursor := mp_endCursor p, ga_hasNextPage := mp_hasNextPage p,
       ga_media := mp_assets p, ga_loading := False\<rparr>"
| "fetchMedia_done Page_fails g =
     (clear_selection g)\<lparr>ga_media := [], ga_alerts := ga_alerts g + 1, ga_loading := False\<rparr>"
| "fetchMedia_done Page_stale g = g"

definition loadMoreMedia_start :: "gallery \<Rightarrow> gallery option" where
  "loadMoreMedia_start g =
     (if ga_loading g \<or> ga_loadingMore g \<or> \<not> ga_hasNextPage g then None else Some (g\<lparr>ga_loadingMore := True\<rparr>))"

text \<open>Adding an asset whose identifier has not been loaded yet.\<close>

definition add_asset :: "MediaAsset \<Rightarrow> MediaAsset list \<times> string set \<Rightarrow> MediaAsset list \<times> string set" where
  "add_asset a acc =
     (case acc of (assets, loaded) \<Rightarrow>
        if ma_id a \<in> loaded then (assets, loaded) else (assets @ [a], insert (ma_id a) loaded))"

fun loadMoreMedia_done :: "page_answer \<Rightarrow> gallery \<Rightarrow> gallery" where
  "loadMoreMedia_done (Page p) g =
     (case fold add_asset (mp_assets p) ([], ga_loadedIds g) of (additions, loaded) \<Rightarrow>
        g\<lparr>ga_loadedIds := loaded, ga_media := ga_media g @ additions, ga_cursor := mp_endCursor p,
          ga_hasNextPage := mp_hasNextPage p, ga_loadingMore := False\<rparr>)"
| "loadMoreMedia_done Page_fails g = g\<lparr>ga_loadingMore := False\<rparr>"
| "loadMoreMedia_done Page_stale g = g"

definition apply_selection :: "string list \<Rightarrow> gallery \<Rightarrow> gallery" where
  "apply_selection later g =
     (case store_replace later (ga_store g) of (n, called, s) \<Rightarrow> g\<lparr>ga_store := s, ga_selectedCount := n\<rparr>)"

text \<open>
  \<open>selectAll\<close>: the state after the given answers; while more are needed, it waits. The
  arguments of the loop are the local variables \<open>allMedia\<close>, \<open>after\<close> and \<open>hasMore\<close>.
\<close>

fun selectAll_loop :: "page_answer list \<Rightarrow> MediaAsset list \<Rightarrow> string option \<Rightarrow> bool \<Rightarrow> gallery \<Rightarrow> gallery" where
  "selectAll_loop answers allMedia after False g =
     (apply_selection (map ma_id allMedia)
        (g\<lparr>ga_cursor := after, ga_hasNextPage := False, ga_media := allMedia\<rparr>))\<lparr>ga_loading := False\<rparr>"
| "selectAll_loop [] allMedia after True g = g"
| "selectAll_loop (Page p # answers) allMedia after True g =
     (case fold add_asset (mp_assets p) (allMedia, ga_loadedIds g) of (allMedia', loaded) \<Rightarrow>
        selectAll_loop answers allMedia' (mp_endCursor p) (mp_hasNextPage p) (g\<lparr>ga_loadedIds := loaded\<rparr>))"
| "selectAll_loop (Page_fails # answers) allMedia after True g =
     g\<lparr>ga_alerts := ga_alerts g + 1, ga_loading := False\<rparr>"
| "selectAll_loop (Page_stale # answers) allMedia after True g = g"

definition selectAll :: "page_answer list \<Rightarrow> gallery \<Rightarrow> gallery" where
  "selectAll answers g =
     (if ga_loading g \<or> ga_loadingMore g then g
      else selectAll_loop answers (ga_media g) (ga_cursor g) (ga_hasNextPage g) (g\<lparr>ga_loading := True\<rparr>))"

definition toggleSelection :: "string \<Rightarrow> gallery \<Rightarrow> gallery" where
  "toggleSelection i g =
     (case store_toggle i (ga_store g) of (n, called, s) \<Rightarrow> g\<lparr>ga_store := s, ga_selectedCount := n\<rparr>)"

text \<open>\<open>selectedAssets\<close>: the visible selection if it is complete, the library scan otherwise.\<close>

definition selectedAssets :: "media_library \<Rightarrow> gallery \<Rightarrow> MediaAsset list option option" where
  "selectedAssets lib g =
     (let wanted = st_selectedIds (ga_store g);
          visibleById = map_from (map (\<lambda>a. (ma_id a, a)) (ga_media g));
          visibleSelection = List.map_filter (map_get visibleById) wanted
      in if length visibleSelection = length wanted then Some (Some visibleSelection)
         else getMediaByIds lib wanted (ga_album g))"

subsection \<open>The pan gesture\<close>

datatype rn_call = Begin_frames int | Update_drag int | Stop_frames

record pan =
  pn_scrollOffset :: number
  pn_viewportHeight :: number
  pn_contentHeight :: number
  pn_dragX :: number
  pn_dragY :: number
  pn_active :: bool
  pn_velocity :: number
  pn_lastScheduled :: int
  pn_calls :: "rn_call list"

definition schedule_target :: "int \<Rightarrow> pan \<Rightarrow> pan" where
  "schedule_target targetIndex p =
     (if shouldScheduleDragIndex targetIndex (pn_lastScheduled p)
      then p\<lparr>pn_lastScheduled := targetIndex, pn_calls := pn_calls p @ [Update_drag targetIndex]\<rparr>
      else p)"

text \<open>The frame callback; \<open>elapsed\<close> is missing on the first frame.\<close>

definition frame_tick :: "MediaGridLayout \<Rightarrow> nat \<Rightarrow> number option \<Rightarrow> pan \<Rightarrow> pan" where
  "frame_tick layout itemCount elapsed p =
     (case elapsed of
        None \<Rightarrow> p
      | Some elapsedMs \<Rightarrow>
          (if \<not> pn_active p then p
           else
             (let velocity = dragAutoScrollVelocity (pn_dragY p) (pn_viewportHeight p);
                  p1 = p\<lparr>pn_velocity := velocity\<rparr>
              in if velocity = 0 then p1
                 else
                   (let maxOffset = max 0 (pn_contentHeight p1 - pn_viewportHeight p1);
                        nextOffset = nextAutoScrollOffset (pn_scrollOffset p1) velocity elapsedMs maxOffset
                    in if nextOffset = pn_scrollOffset p1 then p1\<lparr>pn_velocity := 0\<rparr>
                       else schedule_target
                              (gridIndexForPoint (pn_dragX p1) (pn_dragY p1) nextOffset itemCount layout)
                              (p1\<lparr>pn_scrollOffset := nextOffset\<rparr>)))))"

text \<open>A pan event: its position and its translation since the touch.\<close>

definition pan_start :: "MediaGridLayout \<Rightarrow> nat \<Rightarrow> number \<Rightarrow> number \<Rightarrow> number \<Rightarrow> number \<Rightarrow> pan \<Rightarrow> pan" where
  "pan_start layout itemCount x y translationX translationY p =
     (let startIndex = gridIndexForPoint (x - translationX) (y - translationY) (pn_scrollOffset p) itemCount layout
      in p\<lparr>pn_dragX := x, pn_dragY := y, pn_active := True, pn_lastScheduled := startIndex,
           pn_calls := pn_calls p @ [Begin_frames startIndex]\<rparr>)"

definition pan_update :: "MediaGridLayout \<Rightarrow> nat \<Rightarrow> number \<Rightarrow> number \<Rightarrow> pan \<Rightarrow> pan" where
  "pan_update layout itemCount x y p =
     (let p1 = p\<lparr>pn_dragX := x, pn_dragY := y\<rparr>
      in schedule_target (gridIndexForPoint x y (pn_scrollOffset p1) itemCount layout) p1)"

definition pan_finalize :: "pan \<Rightarrow> pan" where
  "pan_finalize p =
     p\<lparr>pn_active := False, pn_velocity := 0, pn_lastScheduled := -1, pn_calls := pn_calls p @ [Stop_frames]\<rparr>"

definition pan_scroll :: "number \<Rightarrow> pan \<Rightarrow> pan" where
  "pan_scroll offset p = p\<lparr>pn_scrollOffset := offset\<rparr>"

text \<open>The scheduled calls as they run: \<open>beginDragOnRN\<close> forces the selection.\<close>

fun run_call :: "MediaAsset list \<Rightarrow> rn_call \<Rightarrow> drag \<Rightarrow> drag" where
  "run_call media (Begin_frames index) d = beginDragSelection media index True d"
| "run_call media (Update_drag index) d = updateDragSelection media index d"
| "run_call media Stop_frames d = endDragSelection d"

datatype pan_event =
    Pan_update number number
  | Frame "number option"
  | Scrolled number

fun pan_step :: "MediaGridLayout \<Rightarrow> nat \<Rightarrow> pan_event \<Rightarrow> pan \<Rightarrow> pan" where
  "pan_step layout n (Pan_update x y) p = pan_update layout n x y p"
| "pan_step layout n (Frame elapsed) p = frame_tick layout n elapsed p"
| "pan_step layout n (Scrolled offset) p = pan_scroll offset p"

subsection \<open>Lemmas: pages\<close>

lemma add_asset_simp [simp]:
  "add_asset a (xs, L) = (if ma_id a \<in> L then (xs, L) else (xs @ [a], insert (ma_id a) L))"
  by (simp add: add_asset_def)

lemma add_assets:
  assumes "fold add_asset as (xs, L) = (ys, M)"
  shows "M = L \<union> ma_id ` set as \<and>
    (\<exists>new. ys = xs @ new \<and> set new \<subseteq> set as \<and> ma_id ` set new = ma_id ` set as - L \<and> distinct (map ma_id new))"
  using assms
proof (induction as arbitrary: xs L)
  case Nil
  then show ?case by simp
next
  case (Cons a as)
  show ?case
  proof (cases "ma_id a \<in> L")
    case True
    then have "fold add_asset as (xs, L) = (ys, M)" using Cons.prems by simp
    from Cons.IH [OF this] True show ?thesis by auto
  next
    case False
    then have "fold add_asset as (xs @ [a], insert (ma_id a) L) = (ys, M)" using Cons.prems by simp
    from Cons.IH [OF this] obtain new where M: "M = insert (ma_id a) L \<union> ma_id ` set as"
      and new: "ys = (xs @ [a]) @ new" "set new \<subseteq> set as" "ma_id ` set new = ma_id ` set as - insert (ma_id a) L"
        "distinct (map ma_id new)" by blast
    have "ma_id a \<notin> set (map ma_id new)" using new(3) by auto
    then show ?thesis using M new False by (intro conjI exI [of _ "a # new"]) auto
  qed
qed

definition consistent :: "gallery \<Rightarrow> bool" where
  "consistent g \<longleftrightarrow> distinct (map ma_id (ga_media g)) \<and> ga_loadedIds g = ma_id ` set (ga_media g)"

text \<open>Answers that bring every page to the end.\<close>

fun complete_pages :: "page_answer list \<Rightarrow> bool \<Rightarrow> bool" where
  "complete_pages answers False = True"
| "complete_pages (Page p # answers) True = complete_pages answers (mp_hasNextPage p)"
| "complete_pages _ True = False"

fun answer_ids :: "page_answer list \<Rightarrow> bool \<Rightarrow> string set" where
  "answer_ids (Page p # answers) True = ma_id ` set (mp_assets p) \<union> answer_ids answers (mp_hasNextPage p)"
| "answer_ids _ _ = {}"

lemma apply_selection_fields [simp]:
  "ga_media (apply_selection xs g) = ga_media g" "ga_loadedIds (apply_selection xs g) = ga_loadedIds g"
  "ga_cursor (apply_selection xs g) = ga_cursor g" "ga_hasNextPage (apply_selection xs g) = ga_hasNextPage g"
  "ga_loadingMore (apply_selection xs g) = ga_loadingMore g"
  "set (st_selectedIds (ga_store (apply_selection xs g))) = set xs"
  by (simp_all add: apply_selection_def store_replace_def Let_def)

lemma selectAll_loop_complete:
  assumes "complete_pages answers hasMore" and "distinct (map ma_id xs)" and "ga_loadedIds g = ma_id ` set xs"
  shows "(let g' = selectAll_loop answers xs after hasMore g
          in consistent g' \<and> \<not> ga_loading g' \<and> \<not> ga_hasNextPage g' \<and>
             ma_id ` set (ga_media g') = ma_id ` set xs \<union> answer_ids answers hasMore \<and>
             set (st_selectedIds (ga_store g')) = ma_id ` set (ga_media g'))"
  using assms
proof (induction answers hasMore arbitrary: xs after g rule: complete_pages.induct)
  case (1 answers)
  then show ?case by (simp add: Let_def consistent_def)
next
  case (2 p answers)
  obtain ys M where add: "fold add_asset (mp_assets p) (xs, ga_loadedIds g) = (ys, M)" by fastforce
  from add_assets [OF add] obtain new where M: "M = ga_loadedIds g \<union> ma_id ` set (mp_assets p)"
    and new: "ys = xs @ new" "ma_id ` set new = ma_id ` set (mp_assets p) - ga_loadedIds g" "distinct (map ma_id new)" by blast
  have d: "distinct (map ma_id ys)" using new 2(3,4) by auto
  have L: "ga_loadedIds (g\<lparr>ga_loadedIds := M\<rparr>) = ma_id ` set ys" using M new 2(4) by auto
  have "ma_id ` set ys = ma_id ` set xs \<union> ma_id ` set (mp_assets p)" using new 2(4) by auto
  then show ?case using 2(1) [OF _ d L, of "mp_endCursor p"] 2(2) add by (simp add: Let_def Un_assoc)
qed simp_all

text \<open>A page whose assets have all been seen adds nothing.\<close>

lemma add_assets_known: "ma_id ` set as \<subseteq> L \<Longrightarrow> fold add_asset as (xs, L) = (xs, L)"
  by (induction as) auto

subsection \<open>Lemmas: the state machine of the gallery\<close>

datatype gallery_event =
    Open_album "string option"
  | First_page page_answer
  | More_starts
  | More_page page_answer
  | Select_all "page_answer list"
  | Toggle string
  | Deselect_all

fun gallery_step :: "gallery_event \<Rightarrow> gallery \<Rightarrow> gallery" where
  "gallery_step (Open_album album) g = fetchMedia_start album g"
| "gallery_step (First_page answer) g = fetchMedia_done answer g"
| "gallery_step More_starts g = (case loadMoreMedia_start g of Some g' \<Rightarrow> g' | None \<Rightarrow> g)"
| "gallery_step (More_page answer) g = loadMoreMedia_done answer g"
| "gallery_step (Select_all answers) g = selectAll answers g"
| "gallery_step (Toggle i) g = toggleSelection i g"
| "gallery_step Deselect_all g = clear_selection g"

text \<open>The library does not repeat an asset within a first page, and select all gets its pages.\<close>

fun gallery_ok :: "gallery_event \<Rightarrow> gallery \<Rightarrow> bool" where
  "gallery_ok (First_page (Page p)) g = distinct (map ma_id (mp_assets p))"
| "gallery_ok (First_page Page_fails) g = (ga_loadedIds g = {})"
| "gallery_ok (Select_all answers) g = complete_pages answers (ga_hasNextPage g)"
| "gallery_ok _ g = True"

lemma clear_selection_fields [simp]:
  "ga_media (clear_selection g) = ga_media g" "ga_loadedIds (clear_selection g) = ga_loadedIds g"
  by (simp_all add: clear_selection_def store_clear_def Let_def)

lemma toggleSelection_fields [simp]:
  "ga_media (toggleSelection i g) = ga_media g" "ga_loadedIds (toggleSelection i g) = ga_loadedIds g"
  by (simp_all add: toggleSelection_def store_toggle_def Let_def)

lemma consistent_more: "consistent g \<Longrightarrow> consistent (loadMoreMedia_done answer g)"
proof (cases answer)
  case (Page p)
  assume g: "consistent g"
  obtain ys M where add: "fold add_asset (mp_assets p) ([], ga_loadedIds g) = (ys, M)" by fastforce
  from add_assets [OF add] have "M = ga_loadedIds g \<union> ma_id ` set (mp_assets p)"
    "ma_id ` set ys = ma_id ` set (mp_assets p) - ga_loadedIds g" "distinct (map ma_id ys)" by auto
  then show ?thesis using g add Page by (auto simp: consistent_def)
qed (simp_all add: consistent_def)

lemma consistent_step:
  assumes "consistent g" and "gallery_ok e g"
  shows "consistent (gallery_step e g)"
proof (cases e)
  case (First_page answer)
  then show ?thesis using assms by (cases answer) (auto simp: consistent_def)
next
  case (Select_all answers)
  have "consistent (selectAll_loop answers (ga_media g) (ga_cursor g) (ga_hasNextPage g) (g\<lparr>ga_loading := True\<rparr>))"
    using selectAll_loop_complete [of answers "ga_hasNextPage g" "ga_media g" "g\<lparr>ga_loading := True\<rparr>" "ga_cursor g"]
      assms Select_all by (simp add: consistent_def Let_def)
  then show ?thesis using assms Select_all by (simp add: selectAll_def)
qed (use assms consistent_more in \<open>auto simp: consistent_def fetchMedia_start_def loadMoreMedia_start_def\<close>)

interpretation gallery: guarded_machine gallery_step consistent gallery_ok
  by unfold_locales (rule consistent_step)

definition new_gallery :: gallery where
  "new_gallery = \<lparr>ga_media = [], ga_loading = True, ga_album = None, ga_operation = 0, ga_cursor = None,
     ga_hasNextPage = False, ga_loadingMore = False, ga_loadedIds = {}, ga_store = createSelectionStore,
     ga_selectedCount = 0, ga_alerts = 0\<rparr>"

subsection \<open>Lemmas: the pan gesture\<close>

lemma grid_index_range:
  assumes "0 < n"
  shows "0 \<le> gridIndexForPoint x y off n layout \<and> gridIndexForPoint x y off n layout < int n"
  using assms by (simp add: gridIndexForPoint_def Let_def)

definition pan_inv :: "nat \<Rightarrow> int \<Rightarrow> pan \<Rightarrow> bool" where
  "pan_inv n start p \<longleftrightarrow>
     (\<exists>ts. pn_calls p = Begin_frames start # map Update_drag ts \<and> (\<forall>t \<in> set ts. 0 \<le> t \<and> t < int n) \<and>
        pn_lastScheduled p = last (start # ts))"

lemma pan_inv_frame:
  "pan_inv n start p \<Longrightarrow> pn_calls p' = pn_calls p \<Longrightarrow> pn_lastScheduled p' = pn_lastScheduled p \<Longrightarrow> pan_inv n start p'"
  by (simp add: pan_inv_def)

lemma pan_inv_schedule:
  assumes "pan_inv n start p" and "t < int n"
  shows "pan_inv n start (schedule_target t p)"
proof (cases "shouldScheduleDragIndex t (pn_lastScheduled p)")
  case True
  obtain ts where ts: "pn_calls p = Begin_frames start # map Update_drag ts" "\<forall>t \<in> set ts. 0 \<le> t \<and> t < int n"
    using assms(1) by (auto simp: pan_inv_def)
  then show ?thesis using True assms(2)
    by (auto simp: pan_inv_def schedule_target_def shouldScheduleDragIndex_def intro!: exI [of _ "ts @ [t]"])
next
  case False
  then show ?thesis using assms(1) by (simp add: schedule_target_def)
qed

lemma pan_inv_step:
  assumes p: "pan_inv n start p" and n: "0 < n"
  shows "pan_inv n start (pan_step layout n e p)"
proof (cases e)
  case (Pan_update x y)
  have "pan_inv n start (p\<lparr>pn_dragX := x, pn_dragY := y\<rparr>)" by (rule pan_inv_frame [OF p]) simp_all
  then show ?thesis using grid_index_range [OF n] Pan_update by (simp add: pan_update_def Let_def pan_inv_schedule)
next
  case (Frame elapsed)
  have "pan_inv n start (p\<lparr>pn_velocity := v\<rparr>)" "pan_inv n start (p\<lparr>pn_velocity := v, pn_scrollOffset := o'\<rparr>)"
    "pan_inv n start (p\<lparr>pn_velocity := v, pn_velocity := w\<rparr>)" for v w o'
    by (rule pan_inv_frame [OF p]; simp)+
  then show ?thesis using grid_index_range [OF n] p Frame
    by (simp add: frame_tick_def Let_def pan_inv_schedule split: option.splits)
next
  case (Scrolled offset)
  then show ?thesis using pan_inv_frame [OF p] by (simp add: pan_scroll_def)
qed

lemma pan_inv_run: "pan_inv n start p \<Longrightarrow> 0 < n \<Longrightarrow> pan_inv n start (fold (pan_step layout n) es p)"
  by (induction es arbitrary: p) (auto simp: pan_inv_step)

lemma run_updates: "fold (run_call media) (map Update_drag ts) d = fold (updateDragSelection media) ts d"
  by (induction ts arbitrary: d) simp_all

subsection \<open>Properties\<close>


definition ex_page :: "string list \<Rightarrow> bool \<Rightarrow> MediaPage" where
  "ex_page is hasNext = \<lparr>mp_assets = map ex_asset is, mp_hasNextPage = hasNext, mp_endCursor = None\<rparr>"


text \<open>
  A select all that fails hides assets: the assets of the pages that it had already
  received count as loaded although they are not shown. When the user then tries again and
  every page arrives, these assets are neither shown nor selected (they would have been,
  had the first attempt not been made), and loading their page by scrolling shows none of
  them.
\<close>

theorem failed_selectAll_hides:
  assumes "consistent g" and "\<not> ga_loading g" "\<not> ga_loadingMore g" "ga_hasNextPage g"
    and more: "mp_hasNextPage p" "\<not> mp_hasNextPage q"
    and new: "a \<in> set (mp_assets p)" "ma_id a \<notin> ma_id ` set (ga_media g)" "ma_id a \<notin> ma_id ` set (mp_assets q)"
  defines "g1 \<equiv> selectAll [Page p, Page_fails] g"
  shows "ga_media g1 = ga_media g \<and> ga_cursor g1 = ga_cursor g \<and> ga_hasNextPage g1 \<and>
    (let g2 = selectAll [Page p, Page q] g1; h = selectAll [Page p, Page q] g; m = loadMoreMedia_done (Page p) g1
     in ma_id a \<notin> set (st_selectedIds (ga_store g2)) \<and> ma_id a \<notin> ma_id ` set (ga_media g2) \<and>
        ma_id a \<in> set (st_selectedIds (ga_store h)) \<and> ma_id a \<in> ma_id ` set (ga_media h) \<and>
        ga_media m = ga_media g)"
proof -
  let ?L = "ga_loadedIds g \<union> ma_id ` set (mp_assets p)"
  obtain ys M where add: "fold add_asset (mp_assets p) (ga_media g, ga_loadedIds g) = (ys, M)" by fastforce
  then have M: "M = ?L" using add_assets by blast
  then have g1: "g1 = g\<lparr>ga_loadedIds := ?L, ga_alerts := ga_alerts g + 1, ga_loading := False\<rparr>"
    using assms add by (simp add: g1_def selectAll_def)
  have known: "fold add_asset (mp_assets p) (xs, ?L) = (xs, ?L)" for xs by (rule add_assets_known) simp
  obtain zs N where q: "fold add_asset (mp_assets q) (ga_media g, ?L) = (zs, N)" by fastforce
  from add_assets [OF q] obtain later where "zs = ga_media g @ later" "ma_id ` set later = ma_id ` set (mp_assets q) - ?L" by blast
  then have zs: "ma_id ` set zs = ma_id ` set (ga_media g) \<union> (ma_id ` set (mp_assets q) - ?L)" by (simp add: image_Un)
  let ?g2 = "selectAll [Page p, Page q] g1"
  have g2: "ga_media ?g2 = zs" "set (st_selectedIds (ga_store ?g2)) = ma_id ` set zs"
    using assms(3,4) more known q by (simp_all add: g1 selectAll_def)
  have h: "ma_id ` set (ga_media (selectAll [Page p, Page q] g)) =
      ma_id ` set (ga_media g) \<union> (ma_id ` set (mp_assets p) \<union> ma_id ` set (mp_assets q))"
    "set (st_selectedIds (ga_store (selectAll [Page p, Page q] g))) = ma_id ` set (ga_media (selectAll [Page p, Page q] g))"
    using selectAll_loop_complete [of "[Page p, Page q]" True "ga_media g" "g\<lparr>ga_loading := True\<rparr>" "ga_cursor g"]
      assms(1-4) more by (simp_all add: consistent_def selectAll_def Let_def)
  have "ga_media (loadMoreMedia_done (Page p) g1) = ga_media g" using known by (simp add: g1)
  then show ?thesis using g2 h zs new assms(4) by (auto simp: g1 Let_def)
qed

theorem failed_selectAll_hides_witness:
  "let g = fetchMedia_done (Page (ex_page [''a''] True)) new_gallery; p = ex_page [''b''] True; q = ex_page [''c''] False;
       g2 = selectAll [Page p, Page q] (selectAll [Page p, Page_fails] g)
   in ''b'' \<notin> set (st_selectedIds (ga_store g2)) \<and> ''b'' \<in> set (st_selectedIds (ga_store (selectAll [Page p, Page q] g)))"
  using failed_selectAll_hides [of "fetchMedia_done (Page (ex_page [''a''] True)) new_gallery" "ex_page [''b''] True"
      "ex_page [''c''] False" "ex_asset ''b''"]
  by (simp add: Let_def ex_page_def ex_asset_def new_gallery_def consistent_def)

text \<open>
  The pan gesture selects what it covers: from the touch of an item, through any
  movements, frames with automatic scrolling and scroll events, the calls that it
  schedules are one begin and updates with valid indices, and when they have run, exactly
  the items between the touched one and the last scheduled target are selected in addition
  to the earlier selection.
\<close>

theorem pan_selects:
  fixes x y tx ty :: number and layout :: MediaGridLayout and es :: "pan_event list"
  assumes d: "distinct (map ma_id media)" and ids: "[] \<notin> set (map ma_id media)" and n: "media \<noteq> []"
    and calls: "pn_calls before = []"
  defines "s \<equiv> gridIndexForPoint (x - tx) (y - ty) (pn_scrollOffset before) (length media) layout"
    and "p \<equiv> fold (pan_step layout (length media)) es (pan_start layout (length media) x y tx ty before)"
  shows "\<exists>ts. pn_calls p = Begin_frames s # map Update_drag ts \<and>
    (\<forall>t \<in> set (s # ts). 0 \<le> t \<and> t < int (length media)) \<and> pn_lastScheduled p = last (s # ts) \<and>
    (\<forall>j. store_isSelected j (dg_store (fold (run_call media) (pn_calls p) drag)) \<longleftrightarrow>
       drag_reference media True s (last (s # ts)) (dg_store drag) j)"
proof -
  have len: "0 < length media" using n by simp
  have s: "0 \<le> s" "s < int (length media)" unfolding s_def using grid_index_range [OF len] by auto
  then have "ma_id (media ! nat s) \<noteq> []" using ids by (metis in_set_conv_nth length_map nat_less_iff nth_map)
  then obtain i where i: "media_id media s = Some i" using s by (simp add: media_id_def)
  have "pan_inv (length media) s (pan_start layout (length media) x y tx ty before)"
    by (simp add: pan_inv_def pan_start_def Let_def calls s_def)
  then have "pan_inv (length media) s p" unfolding p_def by (rule pan_inv_run [OF _ len])
  then obtain ts where ts: "pn_calls p = Begin_frames s # map Update_drag ts" "\<forall>t \<in> set ts. 0 \<le> t \<and> t < int (length media)"
    "pn_lastScheduled p = last (s # ts)" by (auto simp: pan_inv_def)
  have "fold (run_call media) (pn_calls p) drag = fold (updateDragSelection media) ts (beginDragSelection media s True drag)"
    by (simp add: ts(1) run_updates)
  moreover have "drag_inv media (\<lambda>j. store_isSelected j (dg_store drag)) True s (last (s # ts))
      (fold (updateDragSelection media) ts (beginDragSelection media s True drag))"
    by (rule drag_inv_updates [OF d drag_inv_begin [OF d i]]) (use ts(2) in auto)
  ultimately have "store_isSelected j (dg_store (fold (run_call media) (pn_calls p) drag)) \<longleftrightarrow>
      drag_reference media True s (last (s # ts)) (dg_store drag) j" for j
    by (simp add: drag_inv_def drag_reference_def)
  then show ?thesis using ts s by auto
qed

definition ex_pan :: pan where
  "ex_pan = \<lparr>pn_scrollOffset = 0, pn_viewportHeight = 600, pn_contentHeight = 600, pn_dragX = 0, pn_dragY = 0,
     pn_active = False, pn_velocity = 0, pn_lastScheduled = -1, pn_calls = []\<rparr>"

theorem pan_selects_witness:
  "let media = [ex_asset ''a'', ex_asset ''b'', ex_asset ''c'']; layout = calculateMediaGridLayout 302 3;
       p = fold (pan_step layout 3) [Pan_update 250 10, Pan_update 150 10] (pan_start layout 3 10 10 0 0 ex_pan)
   in pn_calls p = [Begin_frames 0, Update_drag 2, Update_drag 1] \<and>
      (\<forall>j. store_isSelected j (dg_store (fold (run_call media) (pn_calls p) ex_drag)) \<longleftrightarrow> j = ''a'' \<or> j = ''b'')"
proof -
  let ?media = "[ex_asset ''a'', ex_asset ''b'', ex_asset ''c'']" and ?layout = "calculateMediaGridLayout 302 3"
  let ?p = "fold (pan_step ?layout 3) [Pan_update 250 10, Pan_update 150 10] (pan_start ?layout 3 10 10 0 0 ex_pan)"
  have calls: "pn_calls ?p = [Begin_frames 0, Update_drag 2, Update_drag 1]"
    by (simp add: pan_start_def pan_update_def schedule_target_def shouldScheduleDragIndex_def gridIndexForPoint_def
        calculateMediaGridLayout_def ex_pan_def Let_def)
  have s: "gridIndexForPoint (10 - 0) (10 - 0) (pn_scrollOffset ex_pan) (length ?media) ?layout = 0"
    by (simp add: gridIndexForPoint_def calculateMediaGridLayout_def ex_pan_def Let_def)
  have ids: "ids_at ?media {0..1} = {''a'', ''b''}"
  proof -
    have "{0..1::int} = {0, 1}" by auto
    then show ?thesis by (auto simp: ids_at_def media_id_def ex_asset_def)
  qed
  have "distinct (map ma_id ?media)" "[] \<notin> set (map ma_id ?media)" "?media \<noteq> []" "pn_calls ex_pan = []"
    by (simp_all add: ex_asset_def ex_pan_def)
  note pan = pan_selects [OF this, of ?layout "[Pan_update 250 10, Pan_update 150 10]" 10 10 0 0 ex_drag, unfolded s]
  have "length ?media = 3" by simp
  then obtain ts where "pn_calls ?p = Begin_frames 0 # map Update_drag ts"
    and sel: "\<forall>j. store_isSelected j (dg_store (fold (run_call ?media) (pn_calls ?p) ex_drag)) \<longleftrightarrow>
         drag_reference ?media True 0 (last (0 # ts)) (dg_store ex_drag) j"
    using pan by metis
  then have "map Update_drag ts = map Update_drag [2, 1]" using calls by simp
  then have "ts = [2, 1]" by (auto simp: map_eq_Cons_conv)
  then have "store_isSelected j (dg_store (fold (run_call ?media) (pn_calls ?p) ex_drag)) \<longleftrightarrow> j = ''a'' \<or> j = ''b''" for j
    using spec [OF sel, of j] ids by (simp add: drag_reference_def ex_drag_def createSelectionStore_def store_isSelected_def)
  then show ?thesis using calls by (simp add: Let_def)
qed

end
