(* ===== verification/TransferMetrics.thy ===== *)
theory TransferMetrics
  imports Throughput Interfaces "HOL-Library.Multiset"
begin

text \<open>
  What the transfer screen computes from the observer's events:
  \<open>features/transfer/TransferEtaEstimator.ts\<close> (remaining time),
  \<open>features/transfer/useTransferMetrics.ts\<close> (the metrics refreshed once a second),
  \<open>features/transfer/QueueNotice.ts\<close> (the delayed notice of a waiting queue) and
  \<open>features/transfer/transferPresentation.ts\<close> (failure groups, formatting).

  A reading of \<open>Date.now()\<close> is an argument. A timer is the time at which it is due, or
  \<open>None\<close> when it is not armed; its callback is a function of its own. The ellipsis of the
  texts is its UTF-8 encoding.
\<close>

subsection \<open>TransferEtaEstimator.ts\<close>

definition ETA_HALF_LIFE_MS :: number where "ETA_HALF_LIFE_MS = 5000"
definition ETA_WARMUP_MS :: number where "ETA_WARMUP_MS = 5000"

record EtaObservation =
  eo_acknowledgedMediaBytes :: number
  eo_plannedUploadMediaBytes :: number
  eo_currentMediaMBps :: number
  eo_sampledAt :: number

record TransferEtaEstimator =
  ee_firstSampleAt :: "number option"
  ee_lastSampleAt :: "number option"
  ee_smoothedSeconds :: "number option"
  ee_warmedUp :: bool
  ee_staleAfterMs :: number
  ee_remainingBytes :: number

definition new_estimator :: TransferEtaEstimator where
  "new_estimator = \<lparr>ee_firstSampleAt = None, ee_lastSampleAt = None, ee_smoothedSeconds = None,
     ee_warmedUp = False, ee_staleAfterMs = 5000, ee_remainingBytes = 0\<rparr>"

definition remaining_of :: "EtaObservation \<Rightarrow> number" where
  "remaining_of obs = max 0 (eo_plannedUploadMediaBytes obs - eo_acknowledgedMediaBytes obs)"

definition rawSeconds :: "EtaObservation \<Rightarrow> number" where
  "rawSeconds obs = remaining_of obs / BYTES_PER_MB / eo_currentMediaMBps obs"

definition smooth_estimate :: "number \<Rightarrow> number \<Rightarrow> number \<Rightarrow> number" where
  "smooth_estimate deltaMs smoothed raw =
     (let agedEstimate = max 0 (smoothed - deltaMs / 1000);
          alpha = 1 - 2 powr (- deltaMs / ETA_HALF_LIFE_MS)
      in agedEstimate + alpha * (raw - agedEstimate))"

definition eta_observe :: "EtaObservation \<Rightarrow> TransferEtaEstimator \<Rightarrow> TransferEtaEstimator" where
  "eta_observe obs s0 =
     (let s = s0\<lparr>ee_remainingBytes := remaining_of obs\<rparr>; t = eo_sampledAt obs
      in if eo_currentMediaMBps obs \<le> 0 \<or> t \<le> 0 then s
         else if (case ee_lastSampleAt s of Some prev \<Rightarrow> t \<le> prev | None \<Rightarrow> False) then s
         else
           (let raw = rawSeconds obs;
                s1 = s\<lparr>ee_staleAfterMs := rateStaleAfterMs (Fin (eo_currentMediaMBps obs))\<rparr>
            in case (ee_firstSampleAt s1, ee_lastSampleAt s1, ee_smoothedSeconds s1) of
                 (Some firstAt, Some lastAt, Some smoothed) \<Rightarrow>
                   (if \<not> ee_warmedUp s1
                    then s1\<lparr>ee_lastSampleAt := Some t, ee_smoothedSeconds := Some raw,
                            ee_warmedUp := (t - firstAt \<ge> ETA_WARMUP_MS)\<rparr>
                    else s1\<lparr>ee_smoothedSeconds := Some (smooth_estimate (t - lastAt) smoothed raw),
                            ee_lastSampleAt := Some t\<rparr>)
               | _ \<Rightarrow> s1\<lparr>ee_firstSampleAt := Some t, ee_lastSampleAt := Some t, ee_smoothedSeconds := Some raw\<rparr>))"

definition estimateSeconds :: "number \<Rightarrow> TransferEtaEstimator \<Rightarrow> number option" where
  "estimateSeconds now s =
     (if ee_remainingBytes s \<le> 0 then Some 0
      else case (ee_firstSampleAt s, ee_lastSampleAt s, ee_smoothedSeconds s) of
             (Some firstAt, Some lastAt, Some smoothed) \<Rightarrow>
               (if \<not> ee_warmedUp s \<or> now - firstAt < ETA_WARMUP_MS then None
                else if now - lastAt > ee_staleAfterMs s then None
                else Some (max 0 (smoothed - (now - lastAt) / 1000)))
           | _ \<Rightarrow> None)"

definition hasRemainingBytes :: "TransferEtaEstimator \<Rightarrow> bool" where
  "hasRemainingBytes s \<longleftrightarrow> ee_remainingBytes s > 0"

text \<open>\<open>Math.round\<close> rounds halves up.\<close>

definition js_round :: "number \<Rightarrow> int" where
  "js_round x = \<lfloor>x + 1 / 2\<rfloor>"

definition ellipsis :: string where
  "ellipsis = [CHR 0xE2, CHR 0x80, CHR 0xA6]"

definition formatTransferEta :: "number option \<Rightarrow> bool \<Rightarrow> bool \<Rightarrow> string" where
  "formatTransferEta estimatedSeconds remaining isFinished =
     (if isFinished then ''Done''
      else if \<not> remaining then ''Finishing'' @ ellipsis
      else case estimatedSeconds of
             None \<Rightarrow> ''Calculating'' @ ellipsis
           | Some secs \<Rightarrow>
               (if secs < 10 then ''A few seconds''
                else if secs < 60
                then (let seconds = max 10 (js_round (secs / 10) * 10)
                      in if seconds \<ge> 60 then ''About 1 min'' else ''About '' @ show_nat (nat seconds) @ ''s'')
                else if secs < 60 * 60 then ''About '' @ show_nat (nat (max 1 (js_round (secs / 60)))) @ '' min''
                else if secs \<le> 24 * 60 * 60 then ''About '' @ show_nat (nat (max 1 (js_round (secs / 3600)))) @ '' hr''
                else ''Over 1 day''))"

subsection \<open>useTransferMetrics.ts\<close>

record metrics_state =
  mt_currentMediaMBps :: number
  mt_averageMediaMBps :: number
  mt_peakMediaMBps :: number
  mt_etaText :: string
  mt_elapsedSeconds :: int

record metrics =
  mx_state :: metrics_state
  mx_startedAt :: "number option"
  mx_latest :: "GlobalProgress option"
  mx_estimator :: TransferEtaEstimator
  mx_preparationComplete :: bool
  mx_uploadObserved :: bool
  mx_timer :: bool

definition new_metrics :: metrics where
  "new_metrics = \<lparr>mx_state = \<lparr>mt_currentMediaMBps = 0, mt_averageMediaMBps = 0, mt_peakMediaMBps = 0,
       mt_etaText = ''Calculating'' @ ellipsis, mt_elapsedSeconds = 0\<rparr>,
     mx_startedAt = None, mx_latest = None, mx_estimator = new_estimator, mx_preparationComplete = False,
     mx_uploadObserved = False, mx_timer = False\<rparr>"

definition stopMetrics :: "metrics \<Rightarrow> metrics" where
  "stopMetrics m = m\<lparr>mx_timer := False\<rparr>"

definition beginMetrics :: "number \<Rightarrow> metrics \<Rightarrow> metrics" where
  "beginMetrics now m = (stopMetrics m)\<lparr>mx_startedAt := Some now, mx_latest := None, mx_estimator := new_estimator,
     mx_preparationComplete := False, mx_uploadObserved := False, mx_timer := True\<rparr>"

definition elapsed_ms :: "number \<Rightarrow> metrics \<Rightarrow> number" where
  "elapsed_ms now m = now - (case mx_startedAt m of Some t \<Rightarrow> t | None \<Rightarrow> now)"

text \<open>The callback of the interval timer, under the \<open>isActive\<close> of the screen.\<close>

definition metrics_tick :: "bool \<Rightarrow> number \<Rightarrow> metrics \<Rightarrow> metrics" where
  "metrics_tick isActive now m =
     (if \<not> isActive then m
      else m\<lparr>mx_state :=
        \<lparr>mt_currentMediaMBps =
           (case mx_latest m of
              Some p \<Rightarrow> (if isRateFresh (gp_rateSampledAt p) (Fin (gp_currentMediaMBps p)) now then gp_currentMediaMBps p else 0)
            | None \<Rightarrow> 0),
         mt_averageMediaMBps = (case mx_latest m of Some p \<Rightarrow> gp_averageMediaMBps p | None \<Rightarrow> mt_averageMediaMBps (mx_state m)),
         mt_peakMediaMBps = (case mx_latest m of Some p \<Rightarrow> gp_peakMediaMBps p | None \<Rightarrow> mt_peakMediaMBps (mx_state m)),
         mt_etaText =
           (if mx_uploadObserved m
            then formatTransferEta (estimateSeconds now (mx_estimator m)) (hasRemainingBytes (mx_estimator m)) False
            else ''Calculating'' @ ellipsis),
         mt_elapsedSeconds = max 0 \<lfloor>elapsed_ms now m / 1000\<rfloor>\<rparr>\<rparr>)"

definition observation_of :: "GlobalProgress \<Rightarrow> EtaObservation" where
  "observation_of p = \<lparr>eo_acknowledgedMediaBytes = gp_acknowledgedMediaBytes p,
     eo_plannedUploadMediaBytes = gp_plannedUploadMediaBytes p, eo_currentMediaMBps = gp_currentMediaMBps p,
     eo_sampledAt = gp_rateSampledAt p\<rparr>"

definition observeMetrics :: "GlobalProgress \<Rightarrow> metrics \<Rightarrow> metrics" where
  "observeMetrics p m0 =
     (let m = m0\<lparr>mx_latest := Some p\<rparr>;
          complete = (gp_preparationComplete p = Some True);
          m1 = (if complete \<and> \<not> mx_preparationComplete m
                then m\<lparr>mx_preparationComplete := True, mx_estimator := new_estimator, mx_uploadObserved := False\<rparr>
                else m)
      in if complete \<and> gp_status p \<noteq> Some Pg_preparing \<and> gp_status p \<noteq> Some Pg_checking
         then m1\<lparr>mx_uploadObserved := True, mx_estimator := eta_observe (observation_of p) (mx_estimator m1)\<rparr>
         else m1)"

definition finishMetrics :: "number \<Rightarrow> UploadSummary option \<Rightarrow> metrics \<Rightarrow> metrics" where
  "finishMetrics now summary m =
     (let m1 = stopMetrics m; st = mx_state m1
      in m1\<lparr>mx_state := st\<lparr>mt_etaText := ''Done'',
           mt_elapsedSeconds := max 1 (js_round (elapsed_ms now m1 / 1000)),
           mt_averageMediaMBps := (case summary of Some u \<Rightarrow> us_averageMediaMBps u | None \<Rightarrow> mt_averageMediaMBps st),
           mt_peakMediaMBps := (case summary of Some u \<Rightarrow> us_peakMediaMBps u | None \<Rightarrow> mt_peakMediaMBps st)\<rparr>\<rparr>)"

definition cancelMetrics :: "number \<Rightarrow> metrics \<Rightarrow> metrics" where
  "cancelMetrics now m =
     (let m1 = stopMetrics m
      in m1\<lparr>mx_state := (mx_state m1)\<lparr>mt_elapsedSeconds := max 1 (js_round (elapsed_ms now m1 / 1000))\<rparr>\<rparr>)"

subsection \<open>QueueNotice.ts\<close>

record QueueNotice =
  qn_isWaiting :: bool
  qn_shown :: bool
  qn_showTimer :: "number option"
  qn_hideTimer :: "number option"
  qn_visible :: bool

definition new_notice :: QueueNotice where
  "new_notice = \<lparr>qn_isWaiting = False, qn_shown = False, qn_showTimer = None, qn_hideTimer = None, qn_visible = False\<rparr>"

definition notice_update :: "bool \<Rightarrow> bool \<Rightarrow> number \<Rightarrow> bool \<Rightarrow> QueueNotice \<Rightarrow> QueueNotice" where
  "notice_update isActive uploadStarted now waiting q0 =
     (if \<not> isActive then q0
      else
        (let q = q0\<lparr>qn_isWaiting := waiting\<rparr>
         in if waiting
            then (let q1 = q\<lparr>qn_hideTimer := None\<rparr>
                  in if \<not> uploadStarted \<or> qn_shown q1 \<or> qn_showTimer q1 \<noteq> None then q1
                     else q1\<lparr>qn_showTimer := Some (now + 1000)\<rparr>)
            else (let q1 = q\<lparr>qn_showTimer := None\<rparr>
                  in if \<not> qn_shown q1 \<or> qn_hideTimer q1 \<noteq> None then q1
                     else q1\<lparr>qn_hideTimer := Some (now + 750)\<rparr>)))"

definition show_fires :: "bool \<Rightarrow> bool \<Rightarrow> QueueNotice \<Rightarrow> QueueNotice" where
  "show_fires isActive uploadStarted q0 =
     (let q = q0\<lparr>qn_showTimer := None\<rparr>
      in if \<not> isActive \<or> \<not> qn_isWaiting q \<or> \<not> uploadStarted then q
         else q\<lparr>qn_shown := True, qn_visible := True\<rparr>)"

definition hide_fires :: "bool \<Rightarrow> QueueNotice \<Rightarrow> QueueNotice" where
  "hide_fires isActive q0 =
     (let q = q0\<lparr>qn_hideTimer := None\<rparr>
      in if \<not> isActive \<or> qn_isWaiting q then q else q\<lparr>qn_shown := False, qn_visible := False\<rparr>)"

definition dispose_notice :: "QueueNotice \<Rightarrow> QueueNotice" where
  "dispose_notice q = q\<lparr>qn_showTimer := None, qn_hideTimer := None\<rparr>"

subsection \<open>transferPresentation.ts\<close>

record FileState =
  fs_id :: string
  fs_assetId :: "string option"
  fs_filename :: string
  fs_status :: FileStatus
  fs_thumbnailUri :: "string option"
  fs_mediaType :: "MediaType option"
  fs_sizeBytes :: "number option"
  fs_msg :: "string option"
  fs_mediaRole :: "MediaVariantRole option"
  fs_componentSemantics :: "MediaComponentSemantics option"
  fs_stage :: "TransferStage option"
  fs_errorCode :: "TransferErrorCode option"

record TransferFailureGroup =
  fg_id :: string
  fg_count :: nat
  fg_message :: string
  fg_sampleFilenames :: "string list"

definition failure_message :: "FileState \<Rightarrow> string" where
  "failure_message f =
     (case fs_msg f of
        Some msg \<Rightarrow> (if trim msg \<noteq> [] then trim msg else ''The file did not complete.'')
      | None \<Rightarrow> ''The file did not complete.'')"

definition group_failure :: "FileState \<Rightarrow> (string, TransferFailureGroup) jsmap \<Rightarrow> (string, TransferFailureGroup) jsmap" where
  "group_failure f groups =
     (if fs_status f \<noteq> St_error then groups
      else
        (let message = failure_message f
         in case map_get groups message of
              Some existing \<Rightarrow>
                map_set message
                  (existing\<lparr>fg_count := fg_count existing + 1,
                     fg_sampleFilenames := fg_sampleFilenames existing @
                       (if length (fg_sampleFilenames existing) < 3 then [fs_filename f] else [])\<rparr>) groups
            | None \<Rightarrow>
                map_set message
                  \<lparr>fg_id = ''failure-group-'' @ show_nat (length groups + 1), fg_count = 1, fg_message = message,
                   fg_sampleFilenames = [fs_filename f]\<rparr> groups))"

text \<open>The sort is stable, as \<open>Array.prototype.sort\<close> is.\<close>

definition groupFailureResults :: "FileState list \<Rightarrow> TransferFailureGroup list" where
  "groupFailureResults files = sort_key (\<lambda>g. - int (fg_count g)) (map snd (fold group_failure files []))"

definition formatDuration :: "nat \<Rightarrow> string" where
  "formatDuration secs =
     (if secs < 60 then show_nat secs @ ''s''
      else
        (let m = secs div 60; s = secs mod 60
         in if m < 60 then show_nat m @ ''m '' @ show_nat s @ ''s''
            else show_nat (m div 60) @ ''h '' @ show_nat (m mod 60) @ ''m '' @ show_nat s @ ''s''))"

text \<open>\<open>toFixed(1)\<close> of a number that is not negative.\<close>

definition toFixed1 :: "number \<Rightarrow> string" where
  "toFixed1 x = (let n = nat (js_round (x * 10)) in show_nat (n div 10) @ ''.'' @ show_nat (n mod 10))"

definition formatBytes :: "number \<Rightarrow> string" where
  "formatBytes bytes =
     (let mb = bytes / 1000000
      in if mb \<ge> 1000 then toFixed1 (mb / 1000) @ '' GB'' else toFixed1 mb @ '' MB'')"

datatype Tone = Tone_error | Tone_warning | Tone_success

definition summaryBadgePresentation :: "nat \<Rightarrow> nat \<Rightarrow> nat \<Rightarrow> string \<times> Tone" where
  "summaryBadgePresentation errorCount successCount skipCount =
     (if errorCount > 0 \<and> successCount = 0 \<and> skipCount = 0 then (''FAILED'', Tone_error)
      else if errorCount > 0 \<or> skipCount > 0 then (''MIXED'', Tone_warning)
      else (''SUCCESS'', Tone_success))"

subsection \<open>Timed runs of the notice\<close>

text \<open>
  The events of the notice with the times at which they happen: an update by the screen
  (is the queue waiting, has an upload started) or a timer that is due.
\<close>

datatype notice_event = Set_waiting bool bool | Show_due bool | Hide_due

fun notice_step :: "number \<times> notice_event \<Rightarrow> number \<times> QueueNotice \<Rightarrow> number \<times> QueueNotice" where
  "notice_step (t, Set_waiting started w) (u, q) = (t, notice_update True started t w q)"
| "notice_step (t, Show_due started) (u, q) = (t, show_fires True started q)"
| "notice_step (t, Hide_due) (u, q) = (t, hide_fires True q)"

fun notice_ok :: "number \<times> notice_event \<Rightarrow> number \<times> QueueNotice \<Rightarrow> bool" where
  "notice_ok (t, Set_waiting started w) (u, q) \<longleftrightarrow> u \<le> t"
| "notice_ok (t, Show_due started) (u, q) \<longleftrightarrow> u \<le> t \<and> (\<exists>d. qn_showTimer q = Some d \<and> d \<le> t)"
| "notice_ok (t, Hide_due) (u, q) \<longleftrightarrow> u \<le> t \<and> (\<exists>d. qn_hideTimer q = Some d \<and> d \<le> t)"

text \<open>Every update of a history after time \<open>t\<close> said \<open>w\<close>.\<close>

fun said_since :: "(number \<times> notice_event) list \<Rightarrow> number \<Rightarrow> bool \<Rightarrow> bool" where
  "said_since [] t w = True"
| "said_since ((u, Set_waiting started w') # es) t w = ((t < u \<longrightarrow> w' = w) \<and> said_since es t w)"
| "said_since (_ # es) t w = said_since es t w"

subsection \<open>Lemmas: the estimator\<close>

lemma alpha_bounds: "0 \<le> d \<Longrightarrow> 0 \<le> 1 - 2 powr (- d / ETA_HALF_LIFE_MS) \<and> 1 - 2 powr (- d / ETA_HALF_LIFE_MS) \<le> 1"
proof -
  assume "0 \<le> d"
  then have "2 powr (- d / ETA_HALF_LIFE_MS) \<le> 2 powr (0::real)" by (intro powr_mono) (auto simp: ETA_HALF_LIFE_MS_def)
  then show ?thesis by simp
qed

lemma smooth_estimate_bounds:
  assumes "0 \<le> d" and "0 \<le> raw" "raw \<le> M" and "smoothed \<le> M"
  shows "0 \<le> smooth_estimate d smoothed raw \<and> smooth_estimate d smoothed raw \<le> M"
proof -
  define a where "a = max 0 (smoothed - d / 1000)"
  define r where "r = 1 - 2 powr (- d / ETA_HALF_LIFE_MS)"
  have r: "0 \<le> r" "r \<le> 1" unfolding r_def using alpha_bounds [OF assms(1)] by auto
  have a: "0 \<le> a" "a \<le> M" using assms by (auto simp: a_def)
  have eq: "smooth_estimate d smoothed raw = (1 - r) * a + r * raw"
    by (simp add: smooth_estimate_def a_def r_def algebra_simps)
  have "(1 - r) * a + r * raw \<le> (1 - r) * M + r * M"
    using r a assms by (intro add_mono mult_left_mono) auto
  then have "(1 - r) * a + r * raw \<le> M" by (simp add: algebra_simps)
  moreover have "0 \<le> (1 - r) * a + r * raw" using r a assms by (intro add_nonneg_nonneg mult_nonneg_nonneg) auto
  ultimately show ?thesis unfolding eq by simp
qed

lemma smooth_estimate_exact: "0 \<le> raw \<Longrightarrow> smoothed - d / 1000 = raw \<Longrightarrow> smooth_estimate d smoothed raw = raw"
  by (simp add: smooth_estimate_def)

lemma rawSeconds_nonneg: "0 < eo_currentMediaMBps obs \<Longrightarrow> 0 \<le> rawSeconds obs"
  by (simp add: rawSeconds_def remaining_of_def BYTES_PER_MB_def)

definition counted :: "EtaObservation \<Rightarrow> bool" where
  "counted obs \<longleftrightarrow> 0 < eo_currentMediaMBps obs \<and> 0 < eo_sampledAt obs"

text \<open>What an estimator knows after the observations \<open>os\<close>.\<close>

definition eta_inv :: "EtaObservation list \<Rightarrow> TransferEtaEstimator \<Rightarrow> bool" where
  "eta_inv os s \<longleftrightarrow>
     ee_staleAfterMs s \<le> 30000 \<and>
     (ee_remainingBytes s = (if os = [] then 0 else remaining_of (last os))) \<and>
     (case (ee_firstSampleAt s, ee_lastSampleAt s, ee_smoothedSeconds s) of
        (Some firstAt, Some lastAt, Some v) \<Rightarrow>
          firstAt \<in> eo_sampledAt ` {x \<in> set os. counted x} \<and> lastAt \<in> eo_sampledAt ` {x \<in> set os. counted x} \<and>
          (ee_warmedUp s \<longrightarrow> ETA_WARMUP_MS \<le> lastAt - firstAt) \<and> 0 \<le> v \<and>
          (\<forall>M. (\<forall>x \<in> set os. counted x \<longrightarrow> rawSeconds x \<le> M) \<longrightarrow> v \<le> M) \<and>
          (\<forall>T. (\<forall>x \<in> set os. counted x \<longrightarrow> rawSeconds x = T - eo_sampledAt x / 1000) \<longrightarrow> v = T - lastAt / 1000)
      | (None, None, None) \<Rightarrow> \<not> ee_warmedUp s
      | _ \<Rightarrow> False)"

lemma eta_inv_new: "eta_inv [] new_estimator"
  by (simp add: eta_inv_def new_estimator_def)

lemma rateStale_le: "rateStaleAfterMs r \<le> 30000"
  by (simp add: rateStaleAfterMs_def)

lemma eta_inv_observe:
  assumes inv: "eta_inv os s"
  shows "eta_inv (os @ [obs]) (eta_observe obs s)"
proof (cases "counted obs \<and> \<not> (case ee_lastSampleAt s of Some prev \<Rightarrow> eo_sampledAt obs \<le> prev | None \<Rightarrow> False)")
  case False
  then have "eta_observe obs s = s\<lparr>ee_remainingBytes := remaining_of obs\<rparr>"
    by (auto simp: eta_observe_def Let_def counted_def)
  then show ?thesis using inv by (auto simp: eta_inv_def split: option.splits)
next
  case True
  have pos: "\<not> (eo_currentMediaMBps obs \<le> 0 \<or> eo_sampledAt obs \<le> 0)" using True by (auto simp: counted_def)
  have raw: "0 \<le> rawSeconds obs" using True by (simp add: counted_def rawSeconds_nonneg)
  consider (empty) "ee_firstSampleAt s = None" "ee_lastSampleAt s = None" "ee_smoothedSeconds s = None" "\<not> ee_warmedUp s"
    | (sampled) firstAt lastAt v where "ee_firstSampleAt s = Some firstAt" "ee_lastSampleAt s = Some lastAt" "ee_smoothedSeconds s = Some v"
    using inv by (auto simp: eta_inv_def split: option.splits)
  then show ?thesis
  proof cases
    case empty
    then show ?thesis using True pos raw inv rateStale_le
      by (auto simp: eta_inv_def eta_observe_def Let_def)
  next
    case sampled
    have late: "lastAt < eo_sampledAt obs" using True sampled by simp
    note s = inv [unfolded eta_inv_def sampled, simplified]
    show ?thesis
    proof (cases "ee_warmedUp s")
      case False
      then show ?thesis using True pos raw s sampled late rateStale_le
        by (auto simp: eta_inv_def eta_observe_def Let_def)
    next
      case warm: True
      let ?w = "smooth_estimate (eo_sampledAt obs - lastAt) v (rawSeconds obs)"
      have new: "eta_observe obs s = s\<lparr>ee_remainingBytes := remaining_of obs,
          ee_staleAfterMs := rateStaleAfterMs (Fin (eo_currentMediaMBps obs)), ee_smoothedSeconds := Some ?w,
          ee_lastSampleAt := Some (eo_sampledAt obs)\<rparr>"
        using warm pos late sampled by (simp add: eta_observe_def Let_def)
      have "0 \<le> ?w" using smooth_estimate_bounds [of "eo_sampledAt obs - lastAt" "rawSeconds obs" "max v (rawSeconds obs)" v] late raw
        by simp
      moreover have "?w \<le> M" if "rawSeconds obs \<le> M" "v \<le> M" for M
        using smooth_estimate_bounds [of "eo_sampledAt obs - lastAt" "rawSeconds obs" M v] late raw that by simp
      moreover have "?w = T - eo_sampledAt obs / 1000"
        if "rawSeconds obs = T - eo_sampledAt obs / 1000" "v = T - lastAt / 1000" for T
        using smooth_estimate_exact [of "rawSeconds obs" v "eo_sampledAt obs - lastAt"] raw that by (simp add: diff_divide_distrib)
      ultimately show ?thesis using True warm late s sampled rateStale_le
        unfolding new by (auto simp: eta_inv_def)
    qed
  qed
qed

lemma eta_inv_run: "eta_inv os s \<Longrightarrow> eta_inv (os @ os') (fold eta_observe os' s)"
proof (induction os' arbitrary: os s)
  case (Cons x os')
  then show ?case using Cons.IH [OF eta_inv_observe [OF Cons.prems]] by simp
qed simp

subsection \<open>Lemmas: the notice\<close>

lemma said_since_append: "said_since (es @ es') t w \<longleftrightarrow> said_since es t w \<and> said_since es' t w"
  by (induction es t w rule: said_since.induct) auto

lemma said_since_late: "said_since es t w \<Longrightarrow> t \<le> u \<Longrightarrow> said_since es u w"
  by (induction es t w rule: said_since.induct) auto

lemma said_since_old: "\<forall>e \<in> set es. fst e \<le> t \<Longrightarrow> said_since es t w"
  by (induction es t w rule: said_since.induct) auto

definition notice_inv :: "(number \<times> notice_event) list \<Rightarrow> number \<times> QueueNotice \<Rightarrow> bool" where
  "notice_inv es = (\<lambda>(now, q).
     (\<forall>e \<in> set es. fst e \<le> now) \<and> qn_visible q = qn_shown q \<and>
     (\<forall>d. qn_showTimer q = Some d \<longrightarrow> qn_isWaiting q \<and> \<not> qn_shown q \<and> d - 1000 \<le> now \<and> said_since es (d - 1000) True) \<and>
     (\<forall>d. qn_hideTimer q = Some d \<longrightarrow> \<not> qn_isWaiting q \<and> qn_shown q \<and> d - 750 \<le> now \<and> said_since es (d - 750) False))"

lemma notice_inv_step:
  assumes inv: "notice_inv es (u, q)" and ok: "notice_ok (t, e) (u, q)"
  shows "notice_inv (es @ [(t, e)]) (notice_step (t, e) (u, q))"
proof -
  have ut: "u \<le> t" using ok by (cases e) auto
  then have old: "\<forall>x \<in> set es. fst x \<le> t" using inv by (force simp: notice_inv_def)
  show ?thesis
  proof (cases e)
    case (Set_waiting started w)
    then show ?thesis using inv ut old said_since_old [OF old]
      by (auto simp: notice_inv_def notice_update_def Let_def said_since_append)
  next
    case (Show_due started)
    then show ?thesis using inv ut old by (auto simp: notice_inv_def show_fires_def Let_def said_since_append)
  next
    case Hide_due
    then show ?thesis using inv ut old by (auto simp: notice_inv_def hide_fires_def Let_def said_since_append)
  qed
qed

lemma notice_inv_run:
  "notice_inv es s \<Longrightarrow> run_ok notice_ok notice_step es' s \<Longrightarrow> notice_inv (es @ es') (fold notice_step es' s)"
proof (induction es' arbitrary: es s)
  case (Cons e es')
  then show ?case using Cons.IH [of "es @ [e]" "notice_step e s"] notice_inv_step by (cases e; cases s) force
qed simp

subsection \<open>Lemmas: failure groups\<close>

definition failures_with :: "FileState list \<Rightarrow> string \<Rightarrow> FileState list" where
  "failures_with files message = filter (\<lambda>f. fs_status f = St_error \<and> failure_message f = message) files"

fun entry_ok :: "FileState list \<Rightarrow> string \<Rightarrow> TransferFailureGroup option \<Rightarrow> bool" where
  "entry_ok files message None \<longleftrightarrow> failures_with files message = []"
| "entry_ok files message (Some g) \<longleftrightarrow>
     fg_message g = message \<and> failures_with files message \<noteq> [] \<and> fg_count g = length (failures_with files message) \<and>
     fg_sampleFilenames g = take 3 (map fs_filename (failures_with files message))"

definition ids_ok :: "(string, TransferFailureGroup) jsmap \<Rightarrow> bool" where
  "ids_ok groups \<longleftrightarrow> (\<forall>k < length groups. fg_id (snd (groups ! k)) = ''failure-group-'' @ show_nat (k + 1))"

definition groups_inv :: "FileState list \<Rightarrow> (string, TransferFailureGroup) jsmap \<Rightarrow> bool" where
  "groups_inv files groups \<longleftrightarrow>
     distinct (map fst groups) \<and> ids_ok groups \<and> (\<forall>message. entry_ok files message (map_get groups message))"

lemma map_set_new: "map_get m k = None \<Longrightarrow> map_set k v m = m @ [(k, v)]"
  by (induction m) (auto split: if_splits)

lemma map_set_nth:
  "map_get m k = Some w \<Longrightarrow> length (map_set k v m) = length m \<and>
   (i < length m \<longrightarrow> map_set k v m ! i = (if fst (m ! i) = k \<and> (\<forall>j < i. fst (m ! j) \<noteq> k) then (k, v) else m ! i))"
proof (induction m arbitrary: i)
  case (Cons a m)
  show ?case
  proof (cases "fst a = k")
    case True
    then show ?thesis by (cases a; cases i) auto
  next
    case False
    then have "map_get m k = Some w" using Cons.prems by (cases a) (simp split: if_splits)
    from Cons.IH [OF this] False show ?thesis by (cases a; cases i) (auto simp: All_less_Suc2)
  qed
qed simp

lemma failures_with_snoc:
  "failures_with (files @ [f]) message =
     failures_with files message @ (if fs_status f = St_error \<and> failure_message f = message then [f] else [])"
  by (simp add: failures_with_def)

lemma entry_ok_other:
  "fs_status f \<noteq> St_error \<or> failure_message f \<noteq> message \<Longrightarrow> entry_ok (files @ [f]) message go = entry_ok files message go"
  by (cases go) (auto simp: failures_with_snoc)

lemma group_failure_error:
  assumes "fs_status f = St_error"
  obtains (New) g where "map_get groups (failure_message f) = None" "group_failure f groups = groups @ [(failure_message f, g)]"
      "fg_id g = ''failure-group-'' @ show_nat (length groups + 1)" "fg_count g = 1" "fg_message g = failure_message f"
      "fg_sampleFilenames g = [fs_filename f]"
  | (Old) g g' where "map_get groups (failure_message f) = Some g" "group_failure f groups = map_set (failure_message f) g' groups"
      "fg_id g' = fg_id g" "fg_count g' = fg_count g + 1" "fg_message g' = fg_message g"
      "fg_sampleFilenames g' = fg_sampleFilenames g @ (if length (fg_sampleFilenames g) < 3 then [fs_filename f] else [])"
proof (cases "map_get groups (failure_message f)")
  case None
  show ?thesis
    by (rule New [OF None, of "\<lparr>fg_id = ''failure-group-'' @ show_nat (length groups + 1), fg_count = 1,
          fg_message = failure_message f, fg_sampleFilenames = [fs_filename f]\<rparr>"])
       (use assms None map_set_new [OF None] in \<open>simp_all add: group_failure_def Let_def\<close>)
next
  case (Some g)
  show ?thesis
    by (rule Old [OF Some, of "g\<lparr>fg_count := fg_count g + 1, fg_sampleFilenames := fg_sampleFilenames g @
          (if length (fg_sampleFilenames g) < 3 then [fs_filename f] else [])\<rparr>"])
       (use assms Some in \<open>simp_all add: group_failure_def Let_def\<close>)
qed

lemma ids_ok_set:
  assumes "ids_ok groups" "distinct (map fst groups)" "map_get groups m = Some g" "fg_id g' = fg_id g"
  shows "ids_ok (map_set m g' groups)"
proof -
  have "fg_id g' = fg_id (snd (groups ! k))" if "k < length groups" "fst (groups ! k) = m" for k
    using assms(2-4) that by (metis map_of_eq_Some_iff nth_mem option.inject prod.collapse)
  then show ?thesis using assms(1) map_set_nth [OF assms(3), of g'] unfolding ids_ok_def by auto
qed

lemma groups_inv_step:
  assumes inv: "groups_inv files groups"
  shows "groups_inv (files @ [f]) (group_failure f groups)"
proof (cases "fs_status f = St_error")
  case False
  then show ?thesis using inv by (simp add: groups_inv_def group_failure_def entry_ok_other)
next
  case error: True
  have d: "distinct (map fst groups)" and ids: "ids_ok groups"
    and entry: "\<And>message. entry_ok files message (map_get groups message)"
    using inv unfolding groups_inv_def by blast+
  from error show ?thesis
  proof (cases rule: group_failure_error [of f groups])
    case (New g)
    have "ids_ok (groups @ [(failure_message f, g)])"
      using ids New(3) by (auto simp: ids_ok_def nth_append less_Suc_eq)
    moreover have "distinct (map fst (groups @ [(failure_message f, g)]))" using d New(1) by (simp add: map_of_eq_None_iff)
    moreover have "entry_ok (files @ [f]) message (map_get (groups @ [(failure_message f, g)]) message)" for message
    proof (cases "message = failure_message f")
      case True
      then have "failures_with files message = []" using entry [of message] New(1) by simp
      then show ?thesis using True error New by (simp add: map_add_def failures_with_snoc)
    next
      case False
      then have "map_get (groups @ [(failure_message f, g)]) message = map_get groups message"
        by (simp add: map_add_def split: option.splits)
      then show ?thesis using entry [of message] False by (simp add: entry_ok_other)
    qed
    ultimately show ?thesis unfolding groups_inv_def New(2) by blast
  next
    case (Old g g')
    have e: "entry_ok files (failure_message f) (Some g)" using entry [of "failure_message f"] Old(1) by simp
    then have "fg_sampleFilenames g' = take 3 (map fs_filename (failures_with files (failure_message f) @ [f]))"
      using Old(6) by simp
    then have "entry_ok (files @ [f]) message (map_get (map_set (failure_message f) g' groups) message)" for message
      using entry [of message] e Old error by (cases "message = failure_message f") (simp_all add: failures_with_snoc entry_ok_other)
    then show ?thesis unfolding groups_inv_def Old(2)
      using ids_ok_set [OF ids d Old(1,3)] distinct_update [OF d] by blast
  qed
qed

lemma groups_inv_run: "groups_inv fs groups \<Longrightarrow> groups_inv (fs @ files) (fold group_failure files groups)"
proof (induction files arbitrary: fs groups)
  case (Cons f files)
  then show ?case using Cons.IH [OF groups_inv_step [OF Cons.prems]] by simp
qed simp

subsection \<open>Properties\<close>

text \<open>
  The remaining time is credible: it is never negative and, at a time not before the
  samples, at most the largest estimate that a sample alone gave; a positive estimate is
  only given once two samples lie at least five seconds apart, and at most thirty seconds
  after a sample. For a steady transfer, whose samples all predict the same end, the
  smoothed estimate is that end exactly.
\<close>

theorem eta_estimate:
  assumes "estimateSeconds now (fold eta_observe os new_estimator) = Some e"
    and "\<forall>x \<in> set os. eo_sampledAt x \<le> now"
  shows "0 \<le> e \<and>
    (0 < e \<longrightarrow> (\<exists>x \<in> set os. \<exists>y \<in> set os. counted x \<and> counted y \<and> ETA_WARMUP_MS \<le> eo_sampledAt y - eo_sampledAt x \<and>
       now - eo_sampledAt y \<le> 30000 \<and> e \<le> Max (rawSeconds ` {z \<in> set os. counted z}))) \<and>
    (0 < e \<and> (\<forall>x \<in> set os. counted x \<longrightarrow> rawSeconds x = T - eo_sampledAt x / 1000) \<longrightarrow> e = T - now / 1000)"
proof -
  let ?s = "fold eta_observe os new_estimator"
  have inv: "eta_inv os ?s" using eta_inv_run [OF eta_inv_new, of os] by simp
  show ?thesis
  proof (cases "ee_remainingBytes ?s \<le> 0")
    case True
    then show ?thesis using assms(1) by (simp add: estimateSeconds_def)
  next
    case False
    then obtain firstAt lastAt v where s: "ee_firstSampleAt ?s = Some firstAt" "ee_lastSampleAt ?s = Some lastAt"
        "ee_smoothedSeconds ?s = Some v"
      using assms(1) by (auto simp: estimateSeconds_def split: option.splits)
    with False assms(1) have e: "ee_warmedUp ?s" "now - lastAt \<le> ee_staleAfterMs ?s" "e = max 0 (v - (now - lastAt) / 1000)"
      by (auto simp: estimateSeconds_def split: if_splits)
    note i = inv [unfolded eta_inv_def s, simplified]
    obtain x where x: "x \<in> set os" "counted x" "firstAt = eo_sampledAt x" using i by auto
    obtain y where y: "y \<in> set os" "counted y" "lastAt = eo_sampledAt y" using i by auto
    have now: "lastAt \<le> now" using assms(2) y by auto
    have "\<forall>z \<in> set os. counted z \<longrightarrow> rawSeconds z \<le> Max (rawSeconds ` {z \<in> set os. counted z})" by auto
    then have "v \<le> Max (rawSeconds ` {z \<in> set os. counted z})" using i by blast
    then have "0 < e \<longrightarrow> e \<le> Max (rawSeconds ` {z \<in> set os. counted z})"
      using e(3) now divide_nonneg_nonneg [of "now - lastAt" 1000] by linarith
    moreover have "ETA_WARMUP_MS \<le> eo_sampledAt y - eo_sampledAt x" "now - eo_sampledAt y \<le> 30000" using i e x y by auto
    moreover have "e = T - now / 1000" if "0 < e" "\<forall>x \<in> set os. counted x \<longrightarrow> rawSeconds x = T - eo_sampledAt x / 1000"
    proof -
      have "v = T - lastAt / 1000" using i that(2) by blast
      then show ?thesis using e(3) that(1) by (auto simp: diff_divide_distrib)
    qed
    ultimately show ?thesis using e(3) x y by auto
  qed
qed

definition ex_observation :: "number \<Rightarrow> number \<Rightarrow> EtaObservation" where
  "ex_observation t sent = \<lparr>eo_acknowledgedMediaBytes = sent, eo_plannedUploadMediaBytes = 100000000,
     eo_currentMediaMBps = 1, eo_sampledAt = t\<rparr>"

theorem eta_estimate_witness:
  "estimateSeconds 8000 (fold eta_observe [ex_observation 1000 0, ex_observation 6000 5000000] new_estimator) = Some 93 \<and>
   (93::number) = 101 - 8000 / 1000"
proof -
  let ?os = "[ex_observation 1000 0, ex_observation 6000 5000000]"
  have stale: "rateStaleAfterMs (Fin 1) \<ge> 5000" by (simp add: rateStaleAfterMs_def)
  have est: "estimateSeconds 8000 (fold eta_observe ?os new_estimator) = Some 93"
    using stale by (simp add: estimateSeconds_def eta_observe_def ex_observation_def new_estimator_def rawSeconds_def
        remaining_of_def Let_def ETA_WARMUP_MS_def BYTES_PER_MB_def)
  moreover have "\<forall>x \<in> set ?os. counted x \<longrightarrow> rawSeconds x = 101 - eo_sampledAt x / 1000"
    by (simp add: ex_observation_def rawSeconds_def remaining_of_def BYTES_PER_MB_def)
  ultimately show ?thesis using eta_estimate [OF est, of 101] by (simp add: ex_observation_def)
qed

text \<open>
  The notice of a waiting queue does not flash: it appears only when every report of
  the last second said that the queue waits, and disappears only when every report of the
  last 750 milliseconds said that it does not; a report alone changes nothing visible.
\<close>

theorem notice_no_flash:
  assumes "run_ok notice_ok notice_step (es @ [(t, e)]) (t0, new_notice)"
  defines "q \<equiv> snd (fold notice_step es (t0, new_notice))"
    and "q' \<equiv> snd (fold notice_step (es @ [(t, e)]) (t0, new_notice))"
  shows "(\<not> qn_visible q \<and> qn_visible q' \<longrightarrow> qn_isWaiting q \<and> said_since es (t - 1000) True) \<and>
    (qn_visible q \<and> \<not> qn_visible q' \<longrightarrow> \<not> qn_isWaiting q \<and> said_since es (t - 750) False) \<and>
    (qn_visible q \<noteq> qn_visible q' \<longrightarrow> (\<forall>started w. e \<noteq> Set_waiting started w))"
proof -
  let ?s = "fold notice_step es (t0, new_notice)"
  have split: "run_ok notice_ok notice_step (xs @ ys) s \<longleftrightarrow>
      run_ok notice_ok notice_step xs s \<and> run_ok notice_ok notice_step ys (fold notice_step xs s)" for xs ys s
    by (induction xs arbitrary: s) auto
  have ok: "run_ok notice_ok notice_step es (t0, new_notice)" "notice_ok (t, e) ?s"
    using assms(1) by (simp_all add: split)
  have "notice_inv [] (t0, new_notice)" by (simp add: notice_inv_def new_notice_def)
  from notice_inv_run [OF this ok(1)] have inv: "notice_inv es (fst ?s, q)" by (simp add: q_def)
  have step: "(fst (notice_step (t, e) ?s), q') = notice_step (t, e) (fst ?s, q)" and ok': "notice_ok (t, e) (fst ?s, q)"
    using ok(2) by (simp_all add: q_def q'_def)
  show ?thesis
  proof (cases e)
    case (Set_waiting started w)
    then have "qn_visible q' = qn_visible q" using arg_cong [OF step, of snd] by (simp add: notice_update_def Let_def)
    then show ?thesis by simp
  next
    case (Show_due started)
    then obtain d where "qn_showTimer q = Some d" "d \<le> t" using ok' by auto
    then show ?thesis using inv Show_due arg_cong [OF step, of snd] said_since_late [of es "d - 1000" True "t - 1000"]
      by (auto simp: notice_inv_def show_fires_def Let_def split: if_splits)
  next
    case Hide_due
    then obtain d where "qn_hideTimer q = Some d" "d \<le> t" using ok' by auto
    then show ?thesis using inv Hide_due arg_cong [OF step, of snd] said_since_late [of es "d - 750" False "t - 750"]
      by (auto simp: notice_inv_def hide_fires_def Let_def split: if_splits)
  qed
qed

theorem notice_no_flash_witness:
  "let es = [(0, Set_waiting True True), (500, Set_waiting True False), (600, Set_waiting True True)];
       q = snd (fold notice_step es (0, new_notice)); q' = snd (fold notice_step (es @ [(1600, Show_due True)]) (0, new_notice))
   in \<not> qn_visible q \<and> qn_visible q' \<and> said_since es 600 True"
proof -
  let ?es = "[(0, Set_waiting True True), (500, Set_waiting True False), (600, Set_waiting True True)]"
  have "run_ok notice_ok notice_step (?es @ [(1600, Show_due True)]) (0, new_notice)"
    by (simp add: notice_update_def new_notice_def Let_def)
  from notice_no_flash [OF this] show ?thesis
    by (simp add: notice_update_def show_fires_def new_notice_def Let_def)
qed

text \<open>
  The failure groups of the result list partition the failed files: there is one
  group for each message, with the exact number of failed files, the names of the first
  three of them and an identifier of its own, and the groups come in decreasing order of
  their numbers.
\<close>

theorem failure_groups_partition:
  "let groups = groupFailureResults files
   in distinct (map fg_message groups) \<and> distinct (map fg_id groups) \<and>
      fg_message ` set groups = failure_message ` {f \<in> set files. fs_status f = St_error} \<and>
      (\<forall>g \<in> set groups. fg_count g = length (failures_with files (fg_message g)) \<and>
         fg_sampleFilenames g = take 3 (map fs_filename (failures_with files (fg_message g)))) \<and>
      sorted_wrt (\<lambda>g h. fg_count g \<ge> fg_count h) groups"
proof -
  let ?m = "fold group_failure files []"
  have inv: "groups_inv files ?m" using groups_inv_run [of "[]" "[]" files]
    by (simp add: groups_inv_def ids_ok_def failures_with_def)
  have d: "distinct (map fst ?m)" and ids: "ids_ok ?m" and entry: "\<And>message. entry_ok files message (map_get ?m message)"
    using inv unfolding groups_inv_def by blast+
  have e: "entry_ok files message (Some g)" if "(message, g) \<in> set ?m" for message g
    using entry [of message] that d by simp
  have "fg_message (snd x) = fst x" if "x \<in> set ?m" for x using e [of "fst x" "snd x"] that by simp
  then have "map (fg_message \<circ> snd) ?m = map fst ?m" by simp
  then have messages: "distinct (map fg_message (map snd ?m))" using d by (simp only: map_map)
  have "distinct (map fg_id (map snd ?m))" using ids unfolding distinct_conv_nth ids_ok_def by auto
  moreover have "fg_message ` set (map snd ?m) = failure_message ` {f \<in> set files. fs_status f = St_error}" (is "?l = ?r")
  proof
    show "?l \<subseteq> ?r"
    proof
      fix message
      assume "message \<in> ?l"
      then obtain k g where "(k, g) \<in> set ?m" "message = fg_message g" by auto
      then have "failures_with files message \<noteq> []" using e [of k g] by simp
      then show "message \<in> ?r" by (auto simp: failures_with_def filter_empty_conv)
    qed
    show "?r \<subseteq> ?l"
    proof
      fix message
      assume "message \<in> ?r"
      then have "failures_with files message \<noteq> []" by (auto simp: failures_with_def filter_empty_conv)
      then obtain g where "map_get ?m message = Some g" using entry [of message] by (cases "map_get ?m message") auto
      then have "(message, g) \<in> set ?m" by (rule map_of_SomeD)
      then have "g \<in> set (map snd ?m)" "message = fg_message g" using e [of message g] by (force, simp)
      then show "message \<in> ?l" by (simp only: imageI)
    qed
  qed
  moreover have "sorted_wrt (\<lambda>g h. fg_count g \<ge> fg_count h) (groupFailureResults files)"
    using sorted_sort_key [of "\<lambda>g. - int (fg_count g)" "map snd ?m"]
    by (simp add: groupFailureResults_def sorted_map)
  moreover have "\<forall>g \<in> set (map snd ?m). fg_count g = length (failures_with files (fg_message g)) \<and>
         fg_sampleFilenames g = take 3 (map fs_filename (failures_with files (fg_message g)))"
  proof
    fix g
    assume "g \<in> set (map snd ?m)"
    then obtain k where "(k, g) \<in> set ?m" by auto
    from e [OF this] show "fg_count g = length (failures_with files (fg_message g)) \<and>
         fg_sampleFilenames g = take 3 (map fs_filename (failures_with files (fg_message g)))" by simp
  qed
  moreover have perm: "mset (groupFailureResults files) = mset (map snd ?m)" by (simp add: groupFailureResults_def)
  moreover have "distinct (map h (groupFailureResults files)) \<longleftrightarrow> distinct (map h (map snd ?m))" for h :: "TransferFailureGroup \<Rightarrow> string"
    using perm by (metis mset_map mset_eq_imp_distinct_iff)
  moreover have "set (groupFailureResults files) = set (map snd ?m)" using perm by (rule mset_eq_setD)
  ultimately show ?thesis using messages unfolding Let_def by (intro conjI) (simp_all only:)
qed

definition ex_failed :: "string \<Rightarrow> string \<Rightarrow> FileState" where
  "ex_failed i message = \<lparr>fs_id = i, fs_assetId = None, fs_filename = i, fs_status = St_error, fs_thumbnailUri = None,
     fs_mediaType = None, fs_sizeBytes = None, fs_msg = Some message, fs_mediaRole = None, fs_componentSemantics = None,
     fs_stage = None, fs_errorCode = None\<rparr>"

theorem failure_groups_partition_witness:
  "let groups = groupFailureResults [ex_failed ''a'' ''x'', ex_failed ''b'' ''y'', ex_failed ''c'' ''y'']
   in fg_message ` set groups = {''x'', ''y''} \<and>
      (\<forall>g \<in> set groups. fg_count g = (if fg_message g = ''y'' then 2 else 1))"
proof -
  let ?files = "[ex_failed ''a'' ''x'', ex_failed ''b'' ''y'', ex_failed ''c'' ''y'']"
  have msg: "failure_message (ex_failed i ''x'') = ''x''" "failure_message (ex_failed i ''y'') = ''y''" for i
    by (simp_all add: failure_message_def ex_failed_def trim_def trimStart_def is_space_def)
  have st: "fs_status (ex_failed i m) = St_error" for i m by (simp add: ex_failed_def)
  have "{f \<in> set ?files. fs_status f = St_error} = set ?files" using st by auto
  then have files: "failure_message ` {f \<in> set ?files. fs_status f = St_error} = {''x'', ''y''}" by (simp add: msg)
  have lengths: "length (failures_with ?files ''x'') = 1" "length (failures_with ?files ''y'') = 2"
    by (simp_all add: failures_with_def msg st)
  have img: "fg_message ` set (groupFailureResults ?files) = failure_message ` {f \<in> set ?files. fs_status f = St_error}"
    and count: "\<forall>g \<in> set (groupFailureResults ?files). fg_count g = length (failures_with ?files (fg_message g))"
    using failure_groups_partition [of ?files] unfolding Let_def by blast+
  have number: "fg_count g = (if fg_message g = ''y'' then 2 else 1)" if g: "g \<in> set (groupFailureResults ?files)" for g
  proof -
    have c: "fg_count g = length (failures_with ?files (fg_message g))" using g count by blast
    have "fg_message g \<in> {''x'', ''y''}" using g img files by blast
    then consider "fg_message g = ''x''" | "fg_message g = ''y''" by blast
    then show ?thesis by cases (simp_all only: c lengths, simp_all)
  qed
  show ?thesis unfolding Let_def
  proof (intro conjI ballI)
    show "fg_message ` set (groupFailureResults ?files) = {''x'', ''y''}" by (rule trans [OF img files])
  qed (rule number)
qed

end
