(* ===== verification/TransferScreen.thy ===== *)
theory TransferScreen
  imports TransferMetrics
begin

text \<open>
  The controller of the transfer screen, \<open>features/transfer/useTransferController.ts\<close>: it
  turns the observer events of a transfer session into the state that the screen shows.
  The state variables, the refs and the variables of the effect form one record; a state
  update takes effect at once. A timer is the time at which it is due, a reading of
  \<open>Date.now()\<close> the time of the event that is handled.
\<close>

definition UI_UPDATE_INTERVAL_MS :: number where "UI_UPDATE_INTERVAL_MS = 100"

datatype screen_phase = Ph_preparing | Ph_checking | Ph_waiting | Ph_uploading

datatype shown_status = Sh_pending | Sh_uploading | Sh_completed | Sh_failed | Sh_skipped

record TransferProgress =
  tp_assetId :: string
  tp_bytesSent :: number
  tp_totalBytes :: number
  tp_acknowledgedMediaBytes :: number
  tp_plannedUploadMediaBytes :: number
  tp_rateSampledAt :: number
  tp_status :: shown_status

record file_counts =
  ct_success :: nat
  ct_skipped :: nat
  ct_failed :: nat

text \<open>What the screen shows, and what the controller keeps behind it.\<close>

record shown =
  sh_currentProgress :: "TransferProgress option"
  sh_completionSummary :: "UploadSummary option"
  sh_isFinished :: bool
  sh_phase :: screen_phase
  sh_hasUploadStarted :: bool
  sh_preparedFiles :: nat
  sh_readyFiles :: nat
  sh_preparationComplete :: bool
  sh_activePreparationMode :: PreparationMode
  sh_automaticallyStreams :: bool
  sh_totalTransferFiles :: nat
  sh_duplicateCheck :: "DuplicateCheckStage \<times> nat \<times> nat"
  sh_summary :: file_counts
  sh_recentFiles :: "FileState list"
  sh_resultList :: "FileState list"
  sh_thermalState :: ThermalState

record screen =
  sc_shown :: shown
  sc_metrics :: metrics
  sc_notice :: QueueNotice
  sc_statusById :: "(string, FileStatus) jsmap"
  sc_resultById :: "(string, FileState) jsmap"
  sc_recentFilesRef :: "FileState list"
  sc_summaryRef :: file_counts
  sc_callbacksEnabled :: bool
  sc_active :: bool
  sc_finished :: bool
  sc_pendingProgress :: "GlobalProgress option"
  sc_fileUiDirty :: bool
  sc_uiTimer :: "number option"
  sc_actualUploadObserved :: bool
  sc_lastUiFlushAt :: number
  sc_alerts :: "string list"

abbreviation upd_shown :: "(shown \<Rightarrow> shown) \<Rightarrow> screen \<Rightarrow> screen" where
  "upd_shown f s \<equiv> s\<lparr>sc_shown := f (sc_shown s)\<rparr>"

definition no_files :: file_counts where
  "no_files = \<lparr>ct_success = 0, ct_skipped = 0, ct_failed = 0\<rparr>"

text \<open>The screen when its effect has started the transfer.\<close>

definition new_screen :: "MediaAsset list \<Rightarrow> PreparationMode \<Rightarrow> number \<Rightarrow> screen" where
  "new_screen assets mode now =
     \<lparr>sc_shown = \<lparr>sh_currentProgress = None, sh_completionSummary = None, sh_isFinished = False, sh_phase = Ph_preparing,
        sh_hasUploadStarted = False, sh_preparedFiles = 0, sh_readyFiles = 0, sh_preparationComplete = False,
        sh_activePreparationMode = mode, sh_automaticallyStreams = False, sh_totalTransferFiles = length assets,
        sh_duplicateCheck = (Finding_matches, 0, 0), sh_summary = no_files, sh_recentFiles = [], sh_resultList = [],
        sh_thermalState = Nominal\<rparr>,
      sc_metrics = beginMetrics now new_metrics, sc_notice = new_notice, sc_statusById = [], sc_resultById = [],
      sc_recentFilesRef = [], sc_summaryRef = no_files, sc_callbacksEnabled = True, sc_active = True, sc_finished = False,
      sc_pendingProgress = None, sc_fileUiDirty = False, sc_uiTimer = None, sc_actualUploadObserved = False,
      sc_lastUiFlushAt = now, sc_alerts = []\<rparr>"

subsection \<open>The functions of the effect\<close>

definition is_active :: "screen \<Rightarrow> bool" where
  "is_active s \<longleftrightarrow> sc_active s \<and> sc_callbacksEnabled s"

definition asset_by_id :: "MediaAsset list \<Rightarrow> string \<Rightarrow> MediaAsset option" where
  "asset_by_id assets i = map_get (map_from (map (\<lambda>a. (ma_id a, a)) assets)) i"

fun is_terminal :: "FileStatus option \<Rightarrow> bool" where
  "is_terminal (Some st) \<longleftrightarrow> st = St_success \<or> st = St_error \<or> st = St_skipped"
| "is_terminal None \<longleftrightarrow> False"

definition push_recent :: "FileState \<Rightarrow> FileState list \<Rightarrow> FileState list" where
  "push_recent f xs = take 60 (f # filter (\<lambda>item. fs_id item \<noteq> fs_id f) xs)"

definition updateQueueWaiting :: "number \<Rightarrow> bool \<Rightarrow> screen \<Rightarrow> screen" where
  "updateQueueWaiting now waiting s =
     s\<lparr>sc_notice := notice_update (is_active s \<and> \<not> sc_finished s) (sc_actualUploadObserved s) now waiting (sc_notice s)\<rparr>"

definition upload_observed :: "number \<Rightarrow> screen \<Rightarrow> screen" where
  "upload_observed now s =
     (if sc_actualUploadObserved s then s
      else
        (let s1 = upd_shown (sh_hasUploadStarted_update (\<lambda>_. True)) (s\<lparr>sc_actualUploadObserved := True\<rparr>)
         in if qn_isWaiting (sc_notice s1) then updateQueueWaiting now True s1 else s1))"

definition upload_started_now :: "GlobalProgress \<Rightarrow> bool" where
  "upload_started_now p \<longleftrightarrow>
     gp_status p = Some Pg_uploading \<and> (gp_acknowledgedMediaBytes p > 0 \<or> gp_currentMediaMBps p > 0)"

definition or_zero :: "nat option \<Rightarrow> nat" where
  "or_zero n = (case n of Some k \<Rightarrow> k | None \<Rightarrow> 0)"

definition progress_counts :: "GlobalProgress \<Rightarrow> shown \<Rightarrow> shown" where
  "progress_counts p d =
     d\<lparr>sh_preparedFiles := max (sh_preparedFiles d) (or_zero (gp_preparedFiles p)),
       sh_readyFiles := max (sh_readyFiles d) (or_zero (gp_readyFiles p)),
       sh_totalTransferFiles := max (sh_totalTransferFiles d) (max (or_zero (gp_totalFiles p)) (or_zero (gp_readyFiles p))),
       sh_preparationComplete := (gp_preparationComplete p = Some True \<or> sh_preparationComplete d),
       sh_activePreparationMode := (case gp_preparationMode p of Some mode \<Rightarrow> mode | None \<Rightarrow> sh_activePreparationMode d),
       sh_automaticallyStreams := (gp_automaticallyStreamsLargeSelection p = Some True \<or> sh_automaticallyStreams d),
       sh_thermalState := (case gp_thermalState p of Some st \<Rightarrow> st | None \<Rightarrow> sh_thermalState d)\<rparr>"

definition shown_progress :: "GlobalProgress \<Rightarrow> TransferProgress" where
  "shown_progress p =
     \<lparr>tp_assetId = ma_id (gp_currentAsset p), tp_bytesSent = gp_bytesSent p, tp_totalBytes = gp_totalBytes p,
      tp_acknowledgedMediaBytes = gp_acknowledgedMediaBytes p, tp_plannedUploadMediaBytes = gp_plannedUploadMediaBytes p,
      tp_rateSampledAt = gp_rateSampledAt p,
      tp_status = (if gp_status p = Some Pg_skipped then Sh_skipped
                   else if gp_status p = Some Pg_failed then Sh_failed
                   else if gp_status p = Some Pg_uploading then Sh_uploading else Sh_pending)\<rparr>"

definition applyProgress :: "number \<Rightarrow> GlobalProgress \<Rightarrow> screen \<Rightarrow> screen" where
  "applyProgress now p s =
     (let s1 = upd_shown (progress_counts p) s;
          s2 = (if upload_started_now p then upload_observed now s1 else s1);
          s3 = upd_shown (sh_currentProgress_update (\<lambda>_. Some (shown_progress p))) s2;
          preparing = (gp_preparationComplete p \<noteq> Some True)
      in if gp_preparationActivity p = Some Act_waiting \<and> preparing
         then upd_shown (sh_phase_update (\<lambda>_. Ph_waiting)) (updateQueueWaiting now True s3)
         else
           (let s4 = updateQueueWaiting now False s3
            in if (gp_preparationActivity p = Some Act_checking \<or> gp_status p = Some Pg_checking) \<and> preparing
               then upd_shown (\<lambda>d. d\<lparr>sh_phase := Ph_checking,
                      sh_duplicateCheck := (case gp_duplicateCheckStage p of Some st \<Rightarrow> st | None \<Rightarrow> Finding_matches,
                        or_zero (gp_checkedFiles p), or_zero (gp_duplicateCandidates p))\<rparr>) s4
               else if (gp_preparationActivity p = Some Act_preparing \<or> gp_status p = Some Pg_preparing) \<and> preparing
               then upd_shown (\<lambda>d. d\<lparr>sh_phase := Ph_preparing,
                      sh_preparedFiles := max (sh_preparedFiles d) (or_zero (gp_preparedFiles p))\<rparr>) s4
               else upd_shown (sh_phase_update (\<lambda>_. Ph_uploading)) s4))"

definition flushUi :: "number \<Rightarrow> screen \<Rightarrow> screen" where
  "flushUi now s =
     (if \<not> is_active s then s
      else
        (let s1 = (case sc_pendingProgress s of
                     Some latest \<Rightarrow> applyProgress now latest (s\<lparr>sc_pendingProgress := None\<rparr>)
                   | None \<Rightarrow> s)
         in if sc_fileUiDirty s1
            then upd_shown (\<lambda>d. d\<lparr>sh_summary := sc_summaryRef s1, sh_recentFiles := sc_recentFilesRef s1\<rparr>)
                   (s1\<lparr>sc_fileUiDirty := False\<rparr>)
            else s1))"

definition scheduleUiFlush :: "number \<Rightarrow> screen \<Rightarrow> screen" where
  "scheduleUiFlush now s =
     (if \<not> is_active s \<or> sc_finished s \<or> sc_uiTimer s \<noteq> None then s
      else s\<lparr>sc_uiTimer := Some (now + max 0 (UI_UPDATE_INTERVAL_MS - (now - sc_lastUiFlushAt s)))\<rparr>)"

definition ui_timer_fires :: "number \<Rightarrow> screen \<Rightarrow> screen" where
  "ui_timer_fires now s =
     (let s1 = flushUi now (s\<lparr>sc_uiTimer := None, sc_lastUiFlushAt := now\<rparr>)
      in if sc_pendingProgress s1 \<noteq> None \<or> sc_fileUiDirty s1 then scheduleUiFlush now s1 else s1)"

definition screen_finish :: "number \<Rightarrow> UploadSummary option \<Rightarrow> screen \<Rightarrow> bool \<times> screen" where
  "screen_finish now summary s =
     (if \<not> is_active s \<or> sc_finished s then (False, s)
      else
        (let s1 = s\<lparr>sc_finished := True, sc_uiTimer := None, sc_metrics := stopMetrics (sc_metrics s),
                    sc_notice := dispose_notice (sc_notice s)\<rparr>;
             s2 = flushUi now s1;
             s3 = upd_shown (sh_resultList_update (\<lambda>_. map snd (sc_resultById s2))) s2;
             s4 = (case summary of
                     Some u \<Rightarrow> upd_shown (\<lambda>d. d\<lparr>sh_completionSummary := Some u,
                                 sh_totalTransferFiles := max (sh_totalTransferFiles d) (us_expandedFiles u)\<rparr>) s3
                   | None \<Rightarrow> s3)
         in (True, upd_shown (sh_isFinished_update (\<lambda>_. True)) (s4\<lparr>sc_metrics := finishMetrics now summary (sc_metrics s4)\<rparr>))))"

text \<open>An item is known by its \<open>itemId\<close>, or by the asset when it is missing or empty.\<close>

definition status_id :: "FileStatusUpdate \<Rightarrow> string" where
  "status_id u = (case fsu_itemId u of Some i \<Rightarrow> (if i \<noteq> [] then i else fsu_assetId u) | None \<Rightarrow> fsu_assetId u)"

definition shown_filename :: "MediaAsset list \<Rightarrow> FileStatusUpdate \<Rightarrow> string" where
  "shown_filename assets u =
     (if fsu_transferFilename u \<noteq> [] then fsu_transferFilename u
      else case asset_by_id assets (fsu_assetId u) of
             Some a \<Rightarrow> (if ma_filename a \<noteq> [] then ma_filename a else fsu_assetId u)
           | None \<Rightarrow> fsu_assetId u)"

definition file_state :: "MediaAsset list \<Rightarrow> FileStatusUpdate \<Rightarrow> FileState" where
  "file_state assets u =
     \<lparr>fs_id = status_id u, fs_assetId = Some (fsu_assetId u), fs_filename = shown_filename assets u, fs_status = fsu_status u,
      fs_thumbnailUri = map_option ma_uri (asset_by_id assets (fsu_assetId u)),
      fs_mediaType = map_option ma_type (asset_by_id assets (fsu_assetId u)), fs_sizeBytes = None, fs_msg = fsu_message u,
      fs_mediaRole = fsu_mediaRole u, fs_componentSemantics = fsu_componentSemantics u, fs_stage = fsu_stage u,
      fs_errorCode = fsu_errorCode u\<rparr>"

definition count_status :: "FileStatus \<Rightarrow> file_counts \<Rightarrow> file_counts" where
  "count_status st c = c\<lparr>ct_success := ct_success c + (if st = St_success then 1 else 0),
     ct_skipped := ct_skipped c + (if st = St_skipped then 1 else 0), ct_failed := ct_failed c + (if st = St_error then 1 else 0)\<rparr>"

definition updateFileStatus :: "MediaAsset list \<Rightarrow> number \<Rightarrow> FileStatusUpdate \<Rightarrow> screen \<Rightarrow> screen" where
  "updateFileStatus assets now u s =
     (if \<not> is_active s \<or> sc_finished s then s
      else
        (let s1 = (if fsu_status u = St_uploading then upload_observed now s else s);
             i = status_id u;
             previous = map_get (sc_statusById s1) i;
             s2 = s1\<lparr>sc_statusById := map_set i (fsu_status u) (sc_statusById s1)\<rparr>;
             s3 = (if previous = None
                   then upd_shown (\<lambda>d. d\<lparr>sh_totalTransferFiles := max (sh_totalTransferFiles d) (length (sc_statusById s2))\<rparr>) s2
                   else s2);
             s4 = (if is_terminal (Some (fsu_status u)) \<and> \<not> is_terminal previous
                   then s3\<lparr>sc_summaryRef := count_status (fsu_status u) (sc_summaryRef s3)\<rparr> else s3);
             f = file_state assets u
         in scheduleUiFlush now
              (s4\<lparr>sc_resultById := map_set i f (sc_resultById s4),
                  sc_recentFilesRef := push_recent f (sc_recentFilesRef s4), sc_fileUiDirty := True\<rparr>)))"

subsection \<open>Fatal errors\<close>

definition unfinished_state :: "MediaAsset list \<Rightarrow> string \<Rightarrow> MediaAsset \<Rightarrow> FileState" where
  "unfinished_state assets message a =
     \<lparr>fs_id = ma_id a, fs_assetId = Some (ma_id a),
      fs_filename = (case asset_by_id assets (ma_id a) of
                       Some b \<Rightarrow> (if ma_filename b \<noteq> [] then ma_filename b else ma_filename a)
                     | None \<Rightarrow> ma_filename a),
      fs_status = St_error, fs_thumbnailUri = Some (ma_uri a), fs_mediaType = Some (ma_type a), fs_sizeBytes = None,
      fs_msg = Some message, fs_mediaRole = None, fs_componentSemantics = None, fs_stage = None, fs_errorCode = None\<rparr>"

definition mark_unfinished :: "MediaAsset list \<Rightarrow> string \<Rightarrow> MediaAsset \<Rightarrow> screen \<times> nat \<Rightarrow> screen \<times> nat" where
  "mark_unfinished assets message a = (\<lambda>(s, newlyFailed).
     (if is_terminal (map_get (sc_statusById s) (ma_id a)) then (s, newlyFailed)
      else
        (let f = unfinished_state assets message a
         in (s\<lparr>sc_statusById := map_set (ma_id a) St_error (sc_statusById s),
               sc_resultById := map_set (ma_id a) f (sc_resultById s),
               sc_recentFilesRef := push_recent f (sc_recentFilesRef s)\<rparr>, newlyFailed + 1))))"

definition markUnfinishedAsFailed :: "MediaAsset list \<Rightarrow> string \<Rightarrow> screen \<Rightarrow> screen" where
  "markUnfinishedAsFailed assets message s =
     (let (s1, newlyFailed) = fold (mark_unfinished assets message) assets (s, 0)
      in s1\<lparr>sc_summaryRef := (sc_summaryRef s1)\<lparr>ct_failed := ct_failed (sc_summaryRef s1) + newlyFailed\<rparr>\<rparr>)"

text \<open>The message of a thrown value; \<open>None\<close> stands for a value that is no \<open>Error\<close>.\<close>

fun thrown_message :: "thrown option \<Rightarrow> string" where
  "thrown_message (Some (Thrown_failure f)) = userMessages (tf_code f)"
| "thrown_message (Some (Thrown_api message status)) = message"
| "thrown_message (Some (Thrown_error message)) = message"
| "thrown_message None = ''Unknown error''"

definition reportFatalError :: "MediaAsset list \<Rightarrow> number \<Rightarrow> thrown option \<Rightarrow> UploadSummary option \<Rightarrow> screen \<Rightarrow> screen" where
  "reportFatalError assets now err summary s =
     (if \<not> is_active s \<or> sc_finished s then s
      else
        (let message = thrown_message err;
             s1 = markUnfinishedAsFailed assets
                    (if message \<noteq> [] then message else ''Upload failed before this file completed.'') s;
             (finishedNow, s2) = screen_finish now summary (s1\<lparr>sc_fileUiDirty := True\<rparr>)
         in if finishedNow then s2\<lparr>sc_alerts := sc_alerts s2 @ [message]\<rparr> else s2))"

subsection \<open>The observer, cancellation and the end of the effect\<close>

definition screen_onProgress :: "number \<Rightarrow> GlobalProgress \<Rightarrow> screen \<Rightarrow> screen" where
  "screen_onProgress now p s =
     (if is_active s \<and> \<not> sc_finished s
      then (let s1 = s\<lparr>sc_metrics := observeMetrics p (sc_metrics s)\<rparr>;
                s2 = (if upload_started_now p then upload_observed now s1 else s1)
            in scheduleUiFlush now (s2\<lparr>sc_pendingProgress := Some p\<rparr>))
      else s)"

definition screen_onThermal :: "ThermalState \<Rightarrow> screen \<Rightarrow> screen" where
  "screen_onThermal st s =
     (if is_active s \<and> \<not> sc_finished s then upd_shown (sh_thermalState_update (\<lambda>_. st)) s else s)"

fun screen_observer :: "MediaAsset list \<Rightarrow> number \<Rightarrow> UploadObserver \<Rightarrow> screen \<Rightarrow> screen" where
  "screen_observer assets now (OnProgress p) s = screen_onProgress now p s"
| "screen_observer assets now (OnComplete u) s = snd (screen_finish now (Some u) s)"
| "screen_observer assets now (OnError err u) s = reportFatalError assets now (Some err) u s"
| "screen_observer assets now (OnFileStatusChange u) s = updateFileStatus assets now u s"
| "screen_observer assets now (OnThermalStateChange st) s = screen_onThermal st s"

definition cancelTransfer :: "number \<Rightarrow> screen \<Rightarrow> screen" where
  "cancelTransfer now s =
     upd_shown (sh_isFinished_update (\<lambda>_. True))
       (s\<lparr>sc_callbacksEnabled := False, sc_uiTimer := None, sc_notice := dispose_notice (sc_notice s),
          sc_metrics := cancelMetrics now (sc_metrics s)\<rparr>)"

definition leave_screen :: "screen \<Rightarrow> screen" where
  "leave_screen s =
     s\<lparr>sc_active := False, sc_callbacksEnabled := False, sc_pendingProgress := None, sc_uiTimer := None,
       sc_metrics := stopMetrics (sc_metrics s), sc_notice := dispose_notice (sc_notice s)\<rparr>"

text \<open>An event of the screen, with the time at which it happens.\<close>

datatype screen_event =
    Observed UploadObserver
  | Start_rejected "thrown option"
  | Ui_timer
  | Metrics_timer
  | Show_timer
  | Hide_timer
  | Cancel_pressed
  | Left

fun screen_step :: "MediaAsset list \<Rightarrow> number \<times> screen_event \<Rightarrow> screen \<Rightarrow> screen" where
  "screen_step assets (now, Observed ev) s = screen_observer assets now ev s"
| "screen_step assets (now, Start_rejected err) s = reportFatalError assets now err None s"
| "screen_step assets (now, Ui_timer) s = (if sc_uiTimer s = None then s else ui_timer_fires now s)"
| "screen_step assets (now, Metrics_timer) s =
     (if mx_timer (sc_metrics s)
      then s\<lparr>sc_metrics := metrics_tick (is_active s \<and> \<not> sc_finished s) now (sc_metrics s)\<rparr> else s)"
| "screen_step assets (now, Show_timer) s =
     (if qn_showTimer (sc_notice s) = None then s
      else s\<lparr>sc_notice := show_fires (is_active s \<and> \<not> sc_finished s) (sc_actualUploadObserved s) (sc_notice s)\<rparr>)"
| "screen_step assets (now, Hide_timer) s =
     (if qn_hideTimer (sc_notice s) = None then s
      else s\<lparr>sc_notice := hide_fires (is_active s \<and> \<not> sc_finished s) (sc_notice s)\<rparr>)"
| "screen_step assets (now, Cancel_pressed) s = cancelTransfer now s"
| "screen_step assets (now, Left) s = leave_screen s"

subsection \<open>Lemmas: what the functions leave alone\<close>

lemma updateQueueWaiting_frame [simp]:
  "sc_statusById (updateQueueWaiting now w s) = sc_statusById s"
  "sc_resultById (updateQueueWaiting now w s) = sc_resultById s"
  "sc_recentFilesRef (updateQueueWaiting now w s) = sc_recentFilesRef s"
  "sc_summaryRef (updateQueueWaiting now w s) = sc_summaryRef s"
  "sc_callbacksEnabled (updateQueueWaiting now w s) = sc_callbacksEnabled s"
  "sc_active (updateQueueWaiting now w s) = sc_active s"
  "sc_finished (updateQueueWaiting now w s) = sc_finished s"
  "sc_fileUiDirty (updateQueueWaiting now w s) = sc_fileUiDirty s"
  "sc_uiTimer (updateQueueWaiting now w s) = sc_uiTimer s"
  "sc_lastUiFlushAt (updateQueueWaiting now w s) = sc_lastUiFlushAt s"
  "sc_pendingProgress (updateQueueWaiting now w s) = sc_pendingProgress s"
  "sc_shown (updateQueueWaiting now w s) = sc_shown s"
  by (simp_all add: updateQueueWaiting_def)

lemma upload_observed_frame [simp]:
  "sc_statusById (upload_observed now s) = sc_statusById s"
  "sc_resultById (upload_observed now s) = sc_resultById s"
  "sc_recentFilesRef (upload_observed now s) = sc_recentFilesRef s"
  "sc_summaryRef (upload_observed now s) = sc_summaryRef s"
  "sc_callbacksEnabled (upload_observed now s) = sc_callbacksEnabled s"
  "sc_active (upload_observed now s) = sc_active s"
  "sc_finished (upload_observed now s) = sc_finished s"
  "sc_fileUiDirty (upload_observed now s) = sc_fileUiDirty s"
  "sc_uiTimer (upload_observed now s) = sc_uiTimer s"
  "sc_lastUiFlushAt (upload_observed now s) = sc_lastUiFlushAt s"
  "sc_pendingProgress (upload_observed now s) = sc_pendingProgress s"
  "sh_summary (sc_shown (upload_observed now s)) = sh_summary (sc_shown s)"
  "sh_recentFiles (sc_shown (upload_observed now s)) = sh_recentFiles (sc_shown s)"
  "sh_resultList (sc_shown (upload_observed now s)) = sh_resultList (sc_shown s)"
  "sh_isFinished (sc_shown (upload_observed now s)) = sh_isFinished (sc_shown s)"
  by (simp_all add: upload_observed_def Let_def)

lemma progress_counts_frame [simp]:
  "sh_summary (progress_counts p d) = sh_summary d"
  "sh_recentFiles (progress_counts p d) = sh_recentFiles d"
  "sh_resultList (progress_counts p d) = sh_resultList d"
  "sh_isFinished (progress_counts p d) = sh_isFinished d"
  by (simp_all add: progress_counts_def)

lemma applyProgress_frame [simp]:
  "sc_statusById (applyProgress now p s) = sc_statusById s"
  "sc_resultById (applyProgress now p s) = sc_resultById s"
  "sc_recentFilesRef (applyProgress now p s) = sc_recentFilesRef s"
  "sc_summaryRef (applyProgress now p s) = sc_summaryRef s"
  "sc_callbacksEnabled (applyProgress now p s) = sc_callbacksEnabled s"
  "sc_active (applyProgress now p s) = sc_active s"
  "sc_finished (applyProgress now p s) = sc_finished s"
  "sc_fileUiDirty (applyProgress now p s) = sc_fileUiDirty s"
  "sc_uiTimer (applyProgress now p s) = sc_uiTimer s"
  "sc_lastUiFlushAt (applyProgress now p s) = sc_lastUiFlushAt s"
  "sc_pendingProgress (applyProgress now p s) = sc_pendingProgress s"
  "sh_summary (sc_shown (applyProgress now p s)) = sh_summary (sc_shown s)"
  "sh_recentFiles (sc_shown (applyProgress now p s)) = sh_recentFiles (sc_shown s)"
  "sh_resultList (sc_shown (applyProgress now p s)) = sh_resultList (sc_shown s)"
  "sh_isFinished (sc_shown (applyProgress now p s)) = sh_isFinished (sc_shown s)"
  by (simp_all add: applyProgress_def Let_def)

lemma scheduleUiFlush_frame [simp]:
  "sc_statusById (scheduleUiFlush now s) = sc_statusById s"
  "sc_resultById (scheduleUiFlush now s) = sc_resultById s"
  "sc_recentFilesRef (scheduleUiFlush now s) = sc_recentFilesRef s"
  "sc_summaryRef (scheduleUiFlush now s) = sc_summaryRef s"
  "sc_callbacksEnabled (scheduleUiFlush now s) = sc_callbacksEnabled s"
  "sc_active (scheduleUiFlush now s) = sc_active s"
  "sc_finished (scheduleUiFlush now s) = sc_finished s"
  "sc_fileUiDirty (scheduleUiFlush now s) = sc_fileUiDirty s"
  "sc_lastUiFlushAt (scheduleUiFlush now s) = sc_lastUiFlushAt s"
  "sc_pendingProgress (scheduleUiFlush now s) = sc_pendingProgress s"
  "sc_shown (scheduleUiFlush now s) = sc_shown s"
  "sc_metrics (scheduleUiFlush now s) = sc_metrics s"
  "sc_notice (scheduleUiFlush now s) = sc_notice s"
  by (simp_all add: scheduleUiFlush_def)

lemma is_active_frame [simp]:
  "is_active (updateQueueWaiting now w s) = is_active s"
  "is_active (upload_observed now s) = is_active s"
  "is_active (applyProgress now p s) = is_active s"
  "is_active (scheduleUiFlush now s) = is_active s"
  by (simp_all add: is_active_def)

lemma flushUi_frame [simp]:
  "sc_statusById (flushUi now s) = sc_statusById s"
  "sc_resultById (flushUi now s) = sc_resultById s"
  "sc_recentFilesRef (flushUi now s) = sc_recentFilesRef s"
  "sc_summaryRef (flushUi now s) = sc_summaryRef s"
  "sc_callbacksEnabled (flushUi now s) = sc_callbacksEnabled s"
  "sc_active (flushUi now s) = sc_active s"
  "sc_finished (flushUi now s) = sc_finished s"
  "sc_uiTimer (flushUi now s) = sc_uiTimer s"
  "sc_lastUiFlushAt (flushUi now s) = sc_lastUiFlushAt s"
  "sh_resultList (sc_shown (flushUi now s)) = sh_resultList (sc_shown s)"
  "sh_isFinished (sc_shown (flushUi now s)) = sh_isFinished (sc_shown s)"
  by (auto simp: flushUi_def Let_def split: option.splits)

lemma flushUi_shows:
  assumes "is_active s" and "\<not> sc_fileUiDirty s \<Longrightarrow> sh_summary (sc_shown s) = sc_summaryRef s \<and> sh_recentFiles (sc_shown s) = sc_recentFilesRef s"
  shows "is_active (flushUi now s)" "\<not> sc_fileUiDirty (flushUi now s)" "sc_pendingProgress (flushUi now s) = None"
    "sh_summary (sc_shown (flushUi now s)) = sc_summaryRef s" "sh_recentFiles (sc_shown (flushUi now s)) = sc_recentFilesRef s"
  using assms by (auto simp: flushUi_def Let_def is_active_def split: option.splits)

subsection \<open>Lemmas: the results behind the screen\<close>

definition ids_with :: "FileStatus \<Rightarrow> screen \<Rightarrow> string set" where
  "ids_with st s = {i. map_get (sc_statusById s) i = Some st}"

text \<open>The four parts of the results agree with each other.\<close>

definition results_inv :: "screen \<Rightarrow> bool" where
  "results_inv s \<longleftrightarrow>
     (\<forall>i. map_option fs_status (map_get (sc_resultById s) i) = map_get (sc_statusById s) i) \<and>
     (\<forall>i f. map_get (sc_resultById s) i = Some f \<longrightarrow> fs_id f = i) \<and>
     (\<forall>f \<in> set (sc_recentFilesRef s). map_get (sc_resultById s) (fs_id f) = Some f) \<and>
     distinct (map fs_id (sc_recentFilesRef s)) \<and> length (sc_recentFilesRef s) \<le> 60"

definition counts_inv :: "screen \<Rightarrow> bool" where
  "counts_inv s \<longleftrightarrow>
     ct_success (sc_summaryRef s) = card (ids_with St_success s) \<and>
     ct_skipped (sc_summaryRef s) = card (ids_with St_skipped s) \<and>
     ct_failed (sc_summaryRef s) = card (ids_with St_error s)"

definition ui_inv :: "screen \<Rightarrow> bool" where
  "ui_inv s \<longleftrightarrow>
     (\<not> sc_fileUiDirty s \<longrightarrow> sh_summary (sc_shown s) = sc_summaryRef s \<and> sh_recentFiles (sc_shown s) = sc_recentFilesRef s) \<and>
     (is_active s \<and> \<not> sc_finished s \<and> (sc_fileUiDirty s \<or> sc_pendingProgress s \<noteq> None) \<longrightarrow> sc_uiTimer s \<noteq> None) \<and>
     (sc_finished s \<longrightarrow> \<not> sc_fileUiDirty s \<and> sh_isFinished (sc_shown s) \<and> sh_resultList (sc_shown s) = map snd (sc_resultById s))"

lemma finite_ids_with [simp]: "finite (ids_with st s)"
  by (rule finite_subset [OF _ finite_dom_map_of [of "sc_statusById s"]]) (auto simp: ids_with_def dom_def)

lemma ids_with_set:
  "sc_statusById t = map_set i st' (sc_statusById s) \<Longrightarrow> ids_with st t = (if st = st' then insert i (ids_with st s) else ids_with st s - {i})"
  by (auto simp: ids_with_def)

lemma not_terminal_ids:
  "\<not> is_terminal (map_get (sc_statusById s) i) \<Longrightarrow> i \<notin> ids_with St_success s \<and> i \<notin> ids_with St_skipped s \<and> i \<notin> ids_with St_error s"
  by (auto simp: ids_with_def)

lemma results_inv_set:
  assumes inv: "results_inv s" and f: "fs_id f = i" "fs_status f = st"
    and t: "sc_statusById t = map_set i st (sc_statusById s)" "sc_resultById t = map_set i f (sc_resultById s)"
      "sc_recentFilesRef t = push_recent f (sc_recentFilesRef s)"
  shows "results_inv t"
proof -
  let ?r = "filter (\<lambda>item. fs_id item \<noteq> fs_id f) (sc_recentFilesRef s)"
  have "distinct (map fs_id ?r)" using inv by (simp add: results_inv_def distinct_map_filter)
  then have "distinct (map fs_id (f # ?r))" by auto
  then have "distinct (map fs_id (push_recent f (sc_recentFilesRef s)))"
    unfolding push_recent_def by (metis distinct_take take_map)
  moreover have "set (push_recent f (sc_recentFilesRef s)) \<subseteq> insert f {x \<in> set (sc_recentFilesRef s). fs_id x \<noteq> i}"
    using f set_take_subset [of 60 "f # ?r"] by (auto simp: push_recent_def)
  moreover have "length (push_recent f (sc_recentFilesRef s)) \<le> 60" by (simp add: push_recent_def)
  moreover have "\<forall>x \<in> set (push_recent f (sc_recentFilesRef s)). map_get (map_set i f (sc_resultById s)) (fs_id x) = Some x"
  proof
    fix x
    assume "x \<in> set (push_recent f (sc_recentFilesRef s))"
    then have "x = f \<or> x \<in> set (sc_recentFilesRef s) \<and> fs_id x \<noteq> i" using calculation(2) by blast
    then show "map_get (map_set i f (sc_resultById s)) (fs_id x) = Some x"
      using inv f(1) unfolding results_inv_def map_get_set by metis
  qed
  ultimately show ?thesis using inv f unfolding results_inv_def t by (simp only: map_get_set) (auto simp del: map_of_eq_Some_iff)
qed

lemma results_inv_frame:
  "results_inv s \<Longrightarrow> sc_statusById t = sc_statusById s \<Longrightarrow> sc_resultById t = sc_resultById s \<Longrightarrow>
   sc_recentFilesRef t = sc_recentFilesRef s \<Longrightarrow> results_inv t"
  by (simp add: results_inv_def)

lemma counts_inv_frame:
  "counts_inv s \<Longrightarrow> sc_statusById t = sc_statusById s \<Longrightarrow> sc_summaryRef t = sc_summaryRef s \<Longrightarrow> counts_inv t"
  by (simp add: counts_inv_def ids_with_def)

lemma counts_inv_set:
  assumes inv: "counts_inv s" and fresh: "\<not> is_terminal (map_get (sc_statusById s) i)"
    and t: "sc_statusById t = map_set i st (sc_statusById s)"
      "sc_summaryRef t = (if is_terminal (Some st) then count_status st (sc_summaryRef s) else sc_summaryRef s)"
  shows "counts_inv t"
  using inv not_terminal_ids [OF fresh] unfolding counts_inv_def ids_with_set [OF t(1)] t(2)
  by (auto simp: count_status_def)

subsection \<open>Lemmas: the invariant of the screen\<close>

definition screen_inv :: "screen \<Rightarrow> bool" where
  "screen_inv s \<longleftrightarrow> results_inv s \<and> counts_inv s \<and> ui_inv s"

text \<open>What a session promises: an item is not reported again after its terminal status.\<close>

fun screen_ok :: "number \<times> screen_event \<Rightarrow> screen \<Rightarrow> bool" where
  "screen_ok (now, Observed (OnFileStatusChange u)) s \<longleftrightarrow> \<not> is_terminal (map_get (sc_statusById s) (status_id u))"
| "screen_ok _ s \<longleftrightarrow> True"

lemma file_state_sel [simp]: "fs_id (file_state assets u) = status_id u" "fs_status (file_state assets u) = fsu_status u"
  by (simp_all add: file_state_def)

lemma unfinished_state_sel [simp]:
  "fs_id (unfinished_state assets message a) = ma_id a" "fs_status (unfinished_state assets message a) = St_error"
  by (simp_all add: unfinished_state_def)

lemma update_results:
  assumes "is_active s" "\<not> sc_finished s" and "screen_inv s" and "\<not> is_terminal (map_get (sc_statusById s) (status_id u))"
  shows "screen_inv (updateFileStatus assets now u s)"
proof -
  let ?t = "updateFileStatus assets now u s"
  have t: "sc_statusById ?t = map_set (status_id u) (fsu_status u) (sc_statusById s)"
    "sc_resultById ?t = map_set (status_id u) (file_state assets u) (sc_resultById s)"
    "sc_recentFilesRef ?t = push_recent (file_state assets u) (sc_recentFilesRef s)"
    "sc_summaryRef ?t = (if is_terminal (Some (fsu_status u)) then count_status (fsu_status u) (sc_summaryRef s) else sc_summaryRef s)"
    using assms(1,2,4) by (simp_all add: updateFileStatus_def Let_def del: is_terminal.simps(1))
  have "results_inv ?t" using assms(3) by (intro results_inv_set [OF _ _ _ t(1-3)]) (auto simp: screen_inv_def)
  moreover have "counts_inv ?t" using assms(3,4) by (intro counts_inv_set [OF _ _ t(1,4)]) (auto simp: screen_inv_def)
  moreover have "sc_finished ?t = sc_finished s" "is_active ?t" "sc_fileUiDirty ?t" "sc_uiTimer ?t \<noteq> None"
    using assms(1,2) by (simp_all add: updateFileStatus_def Let_def scheduleUiFlush_def is_active_def)
  ultimately show ?thesis using assms(2) by (simp add: screen_inv_def ui_inv_def)
qed

definition add_failed :: "nat \<Rightarrow> screen \<Rightarrow> screen" where
  "add_failed n s = s\<lparr>sc_summaryRef := (sc_summaryRef s)\<lparr>ct_failed := ct_failed (sc_summaryRef s) + n\<rparr>\<rparr>"

lemma mark_unfinished_inv:
  assumes "results_inv s" "counts_inv (add_failed n s)"
    and "mark_unfinished assets message a (s, n) = (t, k)"
  shows "results_inv t \<and> counts_inv (add_failed k t)"
proof (cases "is_terminal (map_get (sc_statusById s) (ma_id a))")
  case True
  then show ?thesis using assms by (simp add: mark_unfinished_def)
next
  case False
  let ?f = "unfinished_state assets message a"
  have t: "t = s\<lparr>sc_statusById := map_set (ma_id a) St_error (sc_statusById s),
      sc_resultById := map_set (ma_id a) ?f (sc_resultById s), sc_recentFilesRef := push_recent ?f (sc_recentFilesRef s)\<rparr>" "k = n + 1"
    using False assms(3) by (auto simp: mark_unfinished_def Let_def)
  have "results_inv t" by (rule results_inv_set [OF assms(1), of ?f]) (simp_all add: t)
  moreover have "counts_inv (add_failed k t)"
    by (rule counts_inv_set [OF assms(2), of "ma_id a" _ St_error]) (use False in \<open>simp_all add: t count_status_def add_failed_def\<close>)
  ultimately show ?thesis by simp
qed

lemma mark_unfinished_frame:
  assumes "mark_unfinished assets message a (s, n) = (t, k)"
  shows "sc_summaryRef t = sc_summaryRef s \<and> is_active t = is_active s \<and> sc_finished t = sc_finished s \<and> sc_shown t = sc_shown s \<and>
    sc_uiTimer t = sc_uiTimer s"
  using assms by (auto simp: mark_unfinished_def Let_def is_active_def split: if_splits)

lemma mark_unfinished_run:
  assumes "fold (mark_unfinished assets message) as (s, n) = (t, k)"
    and "results_inv s" "counts_inv (add_failed n s)"
  shows "results_inv t \<and> counts_inv (add_failed k t) \<and>
    sc_summaryRef t = sc_summaryRef s \<and> is_active t = is_active s \<and> sc_finished t = sc_finished s \<and> sc_shown t = sc_shown s"
  using assms
proof (induction as arbitrary: s n)
  case (Cons a as)
  obtain s1 n1 where m: "mark_unfinished assets message a (s, n) = (s1, n1)" by fastforce
  show ?case using Cons.IH [of s1 n1] Cons.prems m mark_unfinished_inv [OF Cons.prems(2,3) m] mark_unfinished_frame [OF m] by simp
qed simp

lemma mark_all_inv:
  assumes "results_inv s" "counts_inv s"
  shows "results_inv (markUnfinishedAsFailed assets message s)" "counts_inv (markUnfinishedAsFailed assets message s)"
    "is_active (markUnfinishedAsFailed assets message s) = is_active s"
    "sc_finished (markUnfinishedAsFailed assets message s) = sc_finished s"
proof -
  obtain t k where f: "fold (mark_unfinished assets message) assets (s, 0) = (t, k)" by fastforce
  have "counts_inv (add_failed 0 s)"
    using assms(2) by (simp add: counts_inv_def ids_with_def add_failed_def)
  note r = mark_unfinished_run [OF f assms(1) this]
  show "results_inv (markUnfinishedAsFailed assets message s)" "counts_inv (markUnfinishedAsFailed assets message s)"
    "is_active (markUnfinishedAsFailed assets message s) = is_active s"
    "sc_finished (markUnfinishedAsFailed assets message s) = sc_finished s"
    using r f by (simp_all add: markUnfinishedAsFailed_def add_failed_def [symmetric])
      (simp_all add: add_failed_def results_inv_def is_active_def)
qed

lemma finish_inv:
  assumes "results_inv s" "counts_inv s"
    and "\<not> sc_fileUiDirty s \<Longrightarrow> sh_summary (sc_shown s) = sc_summaryRef s \<and> sh_recentFiles (sc_shown s) = sc_recentFilesRef s"
    and "is_active s" "\<not> sc_finished s"
  shows "screen_inv (snd (screen_finish now summary s))"
proof -
  let ?s1 = "s\<lparr>sc_finished := True, sc_uiTimer := None, sc_metrics := stopMetrics (sc_metrics s),
     sc_notice := dispose_notice (sc_notice s)\<rparr>"
  let ?t = "snd (screen_finish now summary s)"
  have a: "is_active ?s1" using assms(4) by (simp add: is_active_def)
  have d: "sh_summary (sc_shown ?s1) = sc_summaryRef ?s1 \<and> sh_recentFiles (sc_shown ?s1) = sc_recentFilesRef ?s1"
    if "\<not> sc_fileUiDirty ?s1" using assms(3) that by simp
  note fl = flushUi_shows [OF a d, of now]
  have core: "sc_statusById ?t = sc_statusById s" "sc_resultById ?t = sc_resultById s"
    "sc_recentFilesRef ?t = sc_recentFilesRef s" "sc_summaryRef ?t = sc_summaryRef s"
    using assms(4,5) by (simp_all add: screen_finish_def Let_def split: option.splits)
  have "ui_inv ?t" using assms(4,5) fl by (simp add: screen_finish_def Let_def ui_inv_def split: option.splits)
  then show ?thesis using results_inv_frame [OF assms(1) core(1-3)] counts_inv_frame [OF assms(2) core(1,4)] by (simp add: screen_inv_def)
qed

lemma screen_inv_frame:
  assumes "screen_inv s" and "sc_statusById t = sc_statusById s" "sc_resultById t = sc_resultById s"
    "sc_recentFilesRef t = sc_recentFilesRef s" "sc_summaryRef t = sc_summaryRef s" and "ui_inv t"
  shows "screen_inv t"
  using assms results_inv_frame [of s t] counts_inv_frame [of s t] by (simp add: screen_inv_def)

lemma screen_inv_simple [simp]:
  "screen_inv (s\<lparr>sc_metrics := m\<rparr>) = screen_inv s" "screen_inv (s\<lparr>sc_notice := q\<rparr>) = screen_inv s"
  "screen_inv (s\<lparr>sc_alerts := x\<rparr>) = screen_inv s"
  "screen_inv (upd_shown (sh_thermalState_update f) s) = screen_inv s"
  by (simp_all add: screen_inv_def ui_inv_def results_inv_def counts_inv_def ids_with_def is_active_def)

lemma onProgress_inv:
  assumes "screen_inv s"
  shows "screen_inv (screen_onProgress now p s)"
proof (rule screen_inv_frame [OF assms])
  show "ui_inv (screen_onProgress now p s)"
    using assms by (auto simp: screen_inv_def ui_inv_def screen_onProgress_def Let_def scheduleUiFlush_def is_active_def)
qed (simp_all add: screen_onProgress_def Let_def)

lemma fatal_inv:
  assumes "screen_inv s"
  shows "screen_inv (reportFatalError assets now err summary s)"
proof (cases "is_active s \<and> \<not> sc_finished s")
  case True
  define m where "m = markUnfinishedAsFailed assets
    (if thrown_message err \<noteq> [] then thrown_message err else ''Upload failed before this file completed.'') s"
  have m: "results_inv m" "counts_inv m" "is_active m" "\<not> sc_finished m"
    unfolding m_def using assms True by (simp_all add: screen_inv_def mark_all_inv)
  let ?m = "m\<lparr>sc_fileUiDirty := True\<rparr>"
  obtain b t where fin: "screen_finish now summary ?m = (b, t)" by fastforce
  have "screen_inv (snd (screen_finish now summary ?m))"
    using m by (intro finish_inv) (simp_all add: results_inv_def counts_inv_def ids_with_def is_active_def)
  then have "screen_inv t" using fin by simp
  then show ?thesis using True fin by (simp add: reportFatalError_def Let_def m_def [symmetric])
qed (use assms in \<open>auto simp: reportFatalError_def\<close>)

lemma ui_timer_inv:
  assumes "screen_inv s"
  shows "screen_inv (ui_timer_fires now s)"
proof (rule screen_inv_frame [OF assms])
  let ?s = "s\<lparr>sc_uiTimer := None, sc_lastUiFlushAt := now\<rparr>"
  show "ui_inv (ui_timer_fires now s)"
  proof (cases "is_active s")
    case True
    then have a: "is_active ?s" by (simp add: is_active_def)
    have d: "sh_summary (sc_shown ?s) = sc_summaryRef ?s \<and> sh_recentFiles (sc_shown ?s) = sc_recentFilesRef ?s"
      if "\<not> sc_fileUiDirty ?s" using assms that by (simp add: screen_inv_def ui_inv_def)
    show ?thesis using flushUi_shows [OF a d, of now] assms True
      by (simp add: ui_timer_fires_def Let_def ui_inv_def screen_inv_def)
  next
    case False
    then show ?thesis using assms
      by (simp add: ui_timer_fires_def Let_def ui_inv_def screen_inv_def flushUi_def is_active_def scheduleUiFlush_def)
  qed
qed (simp_all add: ui_timer_fires_def Let_def)

lemma screen_inv_step:
  assumes inv: "screen_inv s" and ok: "screen_ok e s"
  shows "screen_inv (screen_step assets e s)"
proof -
  obtain now ev where e: "e = (now, ev)" by fastforce
  show ?thesis
  proof (cases ev)
    case (Observed ob)
    show ?thesis
    proof (cases ob)
      case (OnComplete u)
      show ?thesis
      proof (cases "is_active s \<and> \<not> sc_finished s")
        case True
        then show ?thesis using e Observed OnComplete inv
          by (simp add: finish_inv screen_inv_def [of s] ui_inv_def)
      qed (use e Observed OnComplete inv in \<open>auto simp: screen_finish_def\<close>)
    next
      case (OnFileStatusChange u)
      then show ?thesis using e Observed inv ok update_results [of s u assets now]
        by (cases "is_active s \<and> \<not> sc_finished s") (auto simp: updateFileStatus_def)
    next
      case (OnThermalStateChange st)
      then show ?thesis using e Observed inv by (simp add: screen_onThermal_def)
    qed (use e Observed inv in \<open>simp_all add: onProgress_inv fatal_inv\<close>)
  next
    case Ui_timer
    then show ?thesis using e inv by (simp add: ui_timer_inv)
  next
    case Cancel_pressed
    have "ui_inv (cancelTransfer now s)" using inv by (simp add: screen_inv_def ui_inv_def cancelTransfer_def is_active_def)
    then have "screen_inv (cancelTransfer now s)" by (rule screen_inv_frame [OF inv, rotated 4]) (simp_all add: cancelTransfer_def)
    then show ?thesis using e Cancel_pressed by simp
  next
    case Left
    have "ui_inv (leave_screen s)" using inv by (simp add: screen_inv_def ui_inv_def leave_screen_def is_active_def)
    then have "screen_inv (leave_screen s)" by (rule screen_inv_frame [OF inv, rotated 4]) (simp_all add: leave_screen_def)
    then show ?thesis using e Left by simp
  qed (use e inv in \<open>simp_all add: fatal_inv\<close>)
qed

interpretation transfer_screen: guarded_machine "screen_step assets" screen_inv screen_ok for assets
  by unfold_locales (rule screen_inv_step)

lemma screen_inv_new: "screen_inv (new_screen assets mode now)"
  by (simp add: new_screen_def screen_inv_def results_inv_def counts_inv_def ui_inv_def ids_with_def no_files_def)

subsection \<open>Lemmas: a screen that is done\<close>

text \<open>A screen whose transfer is finished, cancelled or left, with no timer armed.\<close>

definition screen_done :: "screen \<Rightarrow> bool" where
  "screen_done s \<longleftrightarrow> (\<not> is_active s \<or> sc_finished s) \<and> sc_uiTimer s = None \<and> \<not> mx_timer (sc_metrics s) \<and>
     qn_showTimer (sc_notice s) = None \<and> qn_hideTimer (sc_notice s) = None"

lemma done_step:
  assumes "screen_done s" and "ev \<noteq> Cancel_pressed"
  shows "screen_done (screen_step assets (now, ev) s) \<and> sc_shown (screen_step assets (now, ev) s) = sc_shown s \<and>
    mx_state (sc_metrics (screen_step assets (now, ev) s)) = mx_state (sc_metrics s) \<and>
    qn_visible (sc_notice (screen_step assets (now, ev) s)) = qn_visible (sc_notice s) \<and>
    sc_alerts (screen_step assets (now, ev) s) = sc_alerts s"
proof (cases ev)
  case (Observed ob)
  have "screen_step assets (now, ev) s = s"
    using assms(1) unfolding Observed
    by (cases ob) (auto simp: screen_done_def screen_onProgress_def screen_finish_def reportFatalError_def updateFileStatus_def screen_onThermal_def)
  then show ?thesis using assms(1) by simp
next
  case (Start_rejected err)
  then show ?thesis using assms(1) by (auto simp: screen_done_def reportFatalError_def)
next
  case Left
  then show ?thesis using assms(1) by (auto simp: screen_done_def leave_screen_def is_active_def stopMetrics_def dispose_notice_def)
qed (use assms in \<open>simp_all add: screen_done_def\<close>)

lemma done_run:
  assumes "screen_done s" and "Cancel_pressed \<notin> snd ` set es"
  shows "sc_shown (fold (screen_step assets) es s) = sc_shown s \<and>
    mx_state (sc_metrics (fold (screen_step assets) es s)) = mx_state (sc_metrics s) \<and>
    qn_visible (sc_notice (fold (screen_step assets) es s)) = qn_visible (sc_notice s) \<and>
    sc_alerts (fold (screen_step assets) es s) = sc_alerts s"
  using assms
proof (induction es arbitrary: s)
  case (Cons e es)
  obtain now ev where e: "e = (now, ev)" by fastforce
  then show ?case using done_step [OF Cons.prems(1), of ev assets now] Cons.prems Cons.IH [of "screen_step assets e s"] by auto
qed simp

lemma finishMetrics_timer [simp]: "\<not> mx_timer (finishMetrics now summary m)"
  by (simp add: finishMetrics_def stopMetrics_def Let_def)

lemma disposed_flush:
  assumes "sc_finished s" "qn_showTimer (sc_notice s) = None" "qn_hideTimer (sc_notice s) = None"
  shows "qn_showTimer (sc_notice (flushUi now s)) = None" "qn_hideTimer (sc_notice (flushUi now s)) = None"
  using assms by (auto simp: flushUi_def applyProgress_def upload_observed_def updateQueueWaiting_def notice_update_def Let_def split: option.splits)

lemma finish_done:
  assumes "fst (screen_finish now summary s)"
  shows "screen_done (snd (screen_finish now summary s))"
proof -
  have a: "is_active s" "\<not> sc_finished s" using assms by (auto simp: screen_finish_def split: if_splits)
  define s1 where "s1 = s\<lparr>sc_finished := True, sc_uiTimer := None, sc_metrics := stopMetrics (sc_metrics s),
                    sc_notice := dispose_notice (sc_notice s)\<rparr>"
  have "sc_finished s1" "qn_showTimer (sc_notice s1) = None" "qn_hideTimer (sc_notice s1) = None" "sc_uiTimer s1 = None"
    by (simp_all add: s1_def dispose_notice_def)
  then show ?thesis using a disposed_flush [of s1 now]
    by (simp add: screen_finish_def Let_def screen_done_def s1_def [symmetric] split: option.splits)
qed

lemma cancel_done: "screen_done (cancelTransfer now s)"
  by (simp add: screen_done_def cancelTransfer_def is_active_def dispose_notice_def cancelMetrics_def stopMetrics_def Let_def)

lemma leave_done: "screen_done (leave_screen s)"
  by (simp add: screen_done_def leave_screen_def is_active_def dispose_notice_def stopMetrics_def)

subsection \<open>Lemmas: fatal errors\<close>

lemma mark_unfinished_all:
  assumes "fold (mark_unfinished assets message) as (s, n) = (t, k)" and "distinct (map ma_id as)"
    and "\<forall>a \<in> set as. \<not> is_terminal (map_get (sc_statusById s) (ma_id a))"
  shows "k = n + length as \<and>
    (\<forall>a \<in> set as. map_get (sc_resultById t) (ma_id a) = Some (unfinished_state assets message a)) \<and>
    (\<forall>i. i \<notin> ma_id ` set as \<longrightarrow> map_get (sc_resultById t) i = map_get (sc_resultById s) i)"
  using assms
proof (induction as arbitrary: s n)
  case (Cons a as)
  let ?f = "unfinished_state assets message a"
  let ?s = "s\<lparr>sc_statusById := map_set (ma_id a) St_error (sc_statusById s),
    sc_resultById := map_set (ma_id a) ?f (sc_resultById s), sc_recentFilesRef := push_recent ?f (sc_recentFilesRef s)\<rparr>"
  have step: "mark_unfinished assets message a (s, n) = (?s, n + 1)"
    using Cons.prems(3) by (simp add: mark_unfinished_def Let_def)
  have fresh: "\<forall>b \<in> set as. \<not> is_terminal (map_get (sc_statusById ?s) (ma_id b))"
  proof
    fix b
    assume "b \<in> set as"
    then have "ma_id b \<noteq> ma_id a" using Cons.prems(2) by (auto simp: image_iff)
    then show "\<not> is_terminal (map_get (sc_statusById ?s) (ma_id b))" using Cons.prems(3) \<open>b \<in> set as\<close> by simp
  qed
  have "fold (mark_unfinished assets message) as (?s, n + 1) = (t, k)" using Cons.prems(1) step by simp
  from Cons.IH [OF this _ fresh] Cons.prems(2)
  have "k = n + 1 + length as"
    and known: "\<forall>b \<in> set as. map_get (sc_resultById t) (ma_id b) = Some (unfinished_state assets message b)"
    and other: "\<And>i. i \<notin> ma_id ` set as \<Longrightarrow> map_get (sc_resultById t) i = map_get (sc_resultById ?s) i" by auto
  moreover have "map_get (sc_resultById t) (ma_id a) = Some ?f" using other [of "ma_id a"] Cons.prems(2) by simp
  moreover have "map_get (sc_resultById t) i = map_get (sc_resultById s) i" if "i \<notin> ma_id ` set (a # as)" for i
    using other [of i] that by simp
  ultimately show ?case by simp
qed simp

lemma fatal_result:
  fixes err :: "thrown option"
  defines "m \<equiv> (if thrown_message err \<noteq> [] then thrown_message err else ''Upload failed before this file completed.'')"
  assumes "is_active s" "\<not> sc_finished s" and "screen_inv s"
  shows "sh_summary (sc_shown (reportFatalError assets now err summary s)) = sc_summaryRef (markUnfinishedAsFailed assets m s)"
    and "sh_resultList (sc_shown (reportFatalError assets now err summary s)) = map snd (sc_resultById (markUnfinishedAsFailed assets m s))"
proof -
  let ?s = "(markUnfinishedAsFailed assets m s)\<lparr>sc_fileUiDirty := True\<rparr>"
  have a: "is_active ?s" "\<not> sc_finished ?s"
    using assms mark_all_inv [of s assets m] by (simp_all add: screen_inv_def is_active_def)
  let ?t = "?s\<lparr>sc_finished := True, sc_uiTimer := None, sc_metrics := stopMetrics (sc_metrics ?s),
     sc_notice := dispose_notice (sc_notice ?s)\<rparr>"
  have t: "is_active ?t" "sc_fileUiDirty ?t" using a(1) by (simp_all add: is_active_def)
  note fl = flushUi_shows(4) [OF t(1), of now]
  show "sh_summary (sc_shown (reportFatalError assets now err summary s)) = sc_summaryRef (markUnfinishedAsFailed assets m s)"
    using assms(2,3) a fl unfolding reportFatalError_def Let_def m_def [symmetric] screen_finish_def
    by (simp split: option.splits)
  show "sh_resultList (sc_shown (reportFatalError assets now err summary s)) = map snd (sc_resultById (markUnfinishedAsFailed assets m s))"
    using assms(2,3) a unfolding reportFatalError_def Let_def m_def [symmetric] screen_finish_def
    by (simp split: option.splits)
qed

subsection \<open>Lemmas: the coalescing timer\<close>

fun timed_step :: "MediaAsset list \<Rightarrow> number \<times> screen_event \<Rightarrow> number \<times> screen \<Rightarrow> number \<times> screen" where
  "timed_step assets (t, e) (u, s) = (t, screen_step assets (t, e) s)"

fun timed_ok :: "number \<times> screen_event \<Rightarrow> number \<times> screen \<Rightarrow> bool" where
  "timed_ok (t, e) (u, s) \<longleftrightarrow> u \<le> t \<and> screen_ok (t, e) s \<and> (e = Ui_timer \<longrightarrow> (\<exists>d. sc_uiTimer s = Some d \<and> d \<le> t))"

definition timed_inv :: "number \<times> screen \<Rightarrow> bool" where
  "timed_inv = (\<lambda>(now, s). screen_inv s \<and> sc_lastUiFlushAt s \<le> now \<and>
     (\<forall>d. sc_uiTimer s = Some d \<longrightarrow> sc_lastUiFlushAt s + UI_UPDATE_INTERVAL_MS \<le> d \<and> d \<le> now + UI_UPDATE_INTERVAL_MS))"

lemma schedule_timer:
  assumes "sc_lastUiFlushAt s \<le> u" "u \<le> t"
    and "\<forall>d. sc_uiTimer s = Some d \<longrightarrow> sc_lastUiFlushAt s + UI_UPDATE_INTERVAL_MS \<le> d \<and> d \<le> u + UI_UPDATE_INTERVAL_MS"
    and "sc_uiTimer (scheduleUiFlush t s) = Some d"
  shows "sc_lastUiFlushAt s + UI_UPDATE_INTERVAL_MS \<le> d \<and> d \<le> t + UI_UPDATE_INTERVAL_MS"
  using assms by (auto simp: scheduleUiFlush_def UI_UPDATE_INTERVAL_MS_def max_def split: if_splits)

lemma finish_timer:
  "sc_lastUiFlushAt (snd (screen_finish now summary s)) = sc_lastUiFlushAt s"
  "sc_uiTimer (snd (screen_finish now summary s)) = Some d \<Longrightarrow> sc_uiTimer s = Some d"
  by (auto simp: screen_finish_def Let_def split: if_splits option.splits)

lemma mark_all_timer [simp]:
  "sc_lastUiFlushAt (markUnfinishedAsFailed assets m s) = sc_lastUiFlushAt s"
  "sc_uiTimer (markUnfinishedAsFailed assets m s) = sc_uiTimer s"
proof -
  have one: "sc_lastUiFlushAt (fst (mark_unfinished assets m a sn)) = sc_lastUiFlushAt (fst sn) \<and>
      sc_uiTimer (fst (mark_unfinished assets m a sn)) = sc_uiTimer (fst sn)" for a sn
    by (cases sn) (simp add: mark_unfinished_def Let_def)
  have "sc_lastUiFlushAt (fst (fold (mark_unfinished assets m) as sn)) = sc_lastUiFlushAt (fst sn) \<and>
      sc_uiTimer (fst (fold (mark_unfinished assets m) as sn)) = sc_uiTimer (fst sn)" for as sn
    by (induction as arbitrary: sn) (simp_all add: one)
  from this [of assets "(s, 0)"]
  show "sc_lastUiFlushAt (markUnfinishedAsFailed assets m s) = sc_lastUiFlushAt s"
    "sc_uiTimer (markUnfinishedAsFailed assets m s) = sc_uiTimer s"
    by (simp_all add: markUnfinishedAsFailed_def split_def Let_def)
qed

lemma fatal_timer:
  "sc_lastUiFlushAt (reportFatalError assets now err summary s) = sc_lastUiFlushAt s"
  "sc_uiTimer (reportFatalError assets now err summary s) = Some d \<Longrightarrow> sc_uiTimer s = Some d"
proof -
  let ?s = "\<lambda>m. (markUnfinishedAsFailed assets m s)\<lparr>sc_fileUiDirty := True\<rparr>"
  have "sc_lastUiFlushAt (snd (screen_finish now summary (?s m))) = sc_lastUiFlushAt s"
    "sc_uiTimer (snd (screen_finish now summary (?s m))) = Some d \<Longrightarrow> sc_uiTimer s = Some d" for m
    using finish_timer [of now summary "?s m"] by simp_all
  then show "sc_lastUiFlushAt (reportFatalError assets now err summary s) = sc_lastUiFlushAt s"
    "sc_uiTimer (reportFatalError assets now err summary s) = Some d \<Longrightarrow> sc_uiTimer s = Some d"
    by (auto simp: reportFatalError_def Let_def split_def split: if_splits)
qed

lemma observer_timer:
  fixes assets :: "MediaAsset list" and ob :: UploadObserver
  assumes "sc_lastUiFlushAt s \<le> u" "u \<le> t"
    and old: "\<forall>d. sc_uiTimer s = Some d \<longrightarrow> sc_lastUiFlushAt s + UI_UPDATE_INTERVAL_MS \<le> d \<and> d \<le> u + UI_UPDATE_INTERVAL_MS"
  defines "s' \<equiv> screen_observer assets t ob s"
  shows "sc_lastUiFlushAt s' = sc_lastUiFlushAt s \<and>
    (\<forall>d. sc_uiTimer s' = Some d \<longrightarrow> sc_lastUiFlushAt s + UI_UPDATE_INTERVAL_MS \<le> d \<and> d \<le> t + UI_UPDATE_INTERVAL_MS)"
proof -
  have keep: "sc_lastUiFlushAt s + UI_UPDATE_INTERVAL_MS \<le> d \<and> d \<le> t + UI_UPDATE_INTERVAL_MS" if "sc_uiTimer s = Some d" for d
    using old that assms(2) by force
  have sched: "sc_lastUiFlushAt s + UI_UPDATE_INTERVAL_MS \<le> d \<and> d \<le> t + UI_UPDATE_INTERVAL_MS"
    if "sc_uiTimer (scheduleUiFlush t r) = Some d" "sc_lastUiFlushAt r = sc_lastUiFlushAt s" "sc_uiTimer r = sc_uiTimer s" for r d
    using schedule_timer [of r u t d] assms(1,2) old that by simp
  show ?thesis
  proof (cases ob)
    case (OnProgress p)
    then show ?thesis using keep sched unfolding s'_def by (auto simp: screen_onProgress_def Let_def)
  next
    case (OnFileStatusChange v)
    then show ?thesis using keep sched unfolding s'_def by (auto simp: updateFileStatus_def Let_def)
  next
    case (OnThermalStateChange st)
    then show ?thesis using keep unfolding s'_def by (auto simp: screen_onThermal_def)
  next
    case (OnComplete v)
    then show ?thesis using keep finish_timer [of t "Some v" s] unfolding s'_def by auto
  next
    case (OnError err v)
    then show ?thesis using keep fatal_timer [of assets t "Some err" v s] unfolding s'_def by auto
  qed
qed

lemma timed_inv_step:
  assumes "timed_inv (u, s)" and "timed_ok (t, e) (u, s)"
  shows "timed_inv (timed_step assets (t, e) (u, s))"
proof -
  have inv: "screen_inv (screen_step assets (t, e) s)" using assms by (auto simp: timed_inv_def intro: screen_inv_step)
  have ut: "u \<le> t" "sc_lastUiFlushAt s \<le> u" using assms by (auto simp: timed_inv_def)
  have old: "\<forall>d. sc_uiTimer s = Some d \<longrightarrow> sc_lastUiFlushAt s + UI_UPDATE_INTERVAL_MS \<le> d \<and> d \<le> u + UI_UPDATE_INTERVAL_MS"
    using assms(1) by (simp add: timed_inv_def)
  have keep: "sc_lastUiFlushAt s + UI_UPDATE_INTERVAL_MS \<le> d \<and> d \<le> t + UI_UPDATE_INTERVAL_MS" if "sc_uiTimer s = Some d" for d
    using old that ut by force
  show ?thesis
  proof (cases e)
    case (Observed ob)
    then show ?thesis using observer_timer [OF ut(2,1) old, of assets ob] inv ut by (auto simp: timed_inv_def)
  next
    case (Start_rejected err)
    then show ?thesis using fatal_timer [of assets t err None s] inv ut keep by (auto simp: timed_inv_def)
  next
    case Ui_timer
    let ?f = "flushUi t (s\<lparr>sc_uiTimer := None, sc_lastUiFlushAt := t\<rparr>)"
    have "sc_lastUiFlushAt (ui_timer_fires t s) = t \<and>
        (\<forall>d. sc_uiTimer (ui_timer_fires t s) = Some d \<longrightarrow> t + UI_UPDATE_INTERVAL_MS \<le> d \<and> d \<le> t + UI_UPDATE_INTERVAL_MS)"
      using schedule_timer [of ?f t t] by (auto simp: ui_timer_fires_def Let_def)
    then show ?thesis using Ui_timer inv assms(2) by (auto simp: timed_inv_def)
  qed (use inv ut keep in \<open>auto simp: timed_inv_def cancelTransfer_def leave_screen_def\<close>)
qed

interpretation timed_screen: guarded_machine "timed_step assets" timed_inv timed_ok for assets
proof
  fix s e
  assume "timed_inv s" "timed_ok e s"
  then show "timed_inv (timed_step assets e s)" using timed_inv_step by (cases s; cases e) blast
qed

subsection \<open>Properties\<close>


definition ex_update :: "string \<Rightarrow> string \<Rightarrow> FileStatus \<Rightarrow> FileStatusUpdate" where
  "ex_update asset item st = \<lparr>fsu_assetId = asset, fsu_itemId = Some item, fsu_mediaRole = None, fsu_componentSemantics = None,
     fsu_fileRef = None, fsu_status = st, fsu_transferFilename = asset, fsu_savedFilename = None, fsu_message = None,
     fsu_stage = None, fsu_errorCode = None\<rparr>"

definition ex_screen_asset :: MediaAsset where
  "ex_screen_asset = \<lparr>ma_id = ''a'', ma_uri = ''a'', ma_type = Photo, ma_duration = None, ma_modificationTime = 0, ma_width = 1,
     ma_height = 1, ma_filename = ''a''\<rparr>"

definition ex_uploaded :: "(number \<times> screen_event) list" where
  "ex_uploaded = [(10, Observed (OnFileStatusChange (ex_update ''a'' ''s-0'' St_uploading))),
     (20, Observed (OnFileStatusChange (ex_update ''a'' ''s-0'' St_success)))]"

lemmas screen_eval = ex_uploaded_def ex_update_def new_screen_def updateFileStatus_def upload_observed_def
  scheduleUiFlush_def is_active_def status_id_def new_notice_def no_files_def count_status_def Let_def


text \<open>
  C32. A screen that is done stays as it is: once the transfer has finished, was cancelled
  or its screen was left, no late observer event and no late timer changes what the screen,
  its metrics and its notice show, and none raises an alert.
\<close>

theorem done_screen_frozen:
  assumes "fst (screen_finish now summary s0) \<and> s = snd (screen_finish now summary s0) \<or> s = cancelTransfer now s0 \<or> s = leave_screen s0"
    and "Cancel_pressed \<notin> snd ` set es"
  shows "sc_shown (fold (screen_step assets) es s) = sc_shown s \<and>
    mx_state (sc_metrics (fold (screen_step assets) es s)) = mx_state (sc_metrics s) \<and>
    qn_visible (sc_notice (fold (screen_step assets) es s)) = qn_visible (sc_notice s) \<and>
    sc_alerts (fold (screen_step assets) es s) = sc_alerts s"
  using done_run [OF _ assms(2), of s assets] assms(1) finish_done cancel_done leave_done by metis

theorem done_screen_frozen_witness:
  "let s = cancelTransfer 30 (new_screen [ex_screen_asset] Streaming 0)
   in sc_shown (fold (screen_step [ex_screen_asset]) ex_uploaded s) = sc_shown s"
  using done_screen_frozen [of 30 None "new_screen [ex_screen_asset] Streaming 0"
      "cancelTransfer 30 (new_screen [ex_screen_asset] Streaming 0)" ex_uploaded "[ex_screen_asset]"]
  by (simp add: Let_def ex_uploaded_def)

text \<open>
  C31. A fatal error fails uploaded assets: the controller looks the assets up by their
  own identifiers while a session reports its files under file identifiers of its own. So
  when the items known to the screen are such files, a fatal error adds every selected
  asset to the failures, although an uploaded file of the asset is counted as a success and
  stays in the result list.
\<close>

theorem fatal_error_fails_uploaded:
  assumes "run_ok screen_ok (screen_step assets) es (new_screen assets mode t0)"
  defines "s \<equiv> fold (screen_step assets) es (new_screen assets mode t0)"
  assumes run: "is_active s" "\<not> sc_finished s" and "distinct (map ma_id assets)"
    and items: "\<forall>a \<in> set assets. map_get (sc_statusById s) (ma_id a) = None"
  shows "let d = sc_shown (reportFatalError assets now err summary s)
    in ct_failed (sh_summary d) = ct_failed (sc_summaryRef s) + length assets \<and>
       ct_success (sh_summary d) = card (ids_with St_success s) \<and>
       (\<forall>a \<in> set assets. \<exists>f \<in> set (sh_resultList d). fs_assetId f = Some (ma_id a) \<and> fs_status f = St_error) \<and>
       (\<forall>i f. map_get (sc_resultById s) i = Some f \<longrightarrow> f \<in> set (sh_resultList d))"
proof -
  have inv: "screen_inv s" unfolding s_def by (rule transfer_screen.guarded_run [OF screen_inv_new assms(1)])
  define m where "m = (if thrown_message err \<noteq> [] then thrown_message err else ''Upload failed before this file completed.'')"
  let ?t = "markUnfinishedAsFailed assets m s"
  obtain t k where f: "fold (mark_unfinished assets m) assets (s, 0) = (t, k)" by fastforce
  have "\<forall>a \<in> set assets. \<not> is_terminal (map_get (sc_statusById s) (ma_id a))" using items by simp
  from mark_unfinished_all [OF f assms(5) this] have k: "k = length assets"
    and known: "\<And>a. a \<in> set assets \<Longrightarrow> map_get (sc_resultById t) (ma_id a) = Some (unfinished_state assets m a)"
    and other: "\<And>i. i \<notin> ma_id ` set assets \<Longrightarrow> map_get (sc_resultById t) i = map_get (sc_resultById s) i" by auto
  have "counts_inv (add_failed 0 s)" using inv by (simp add: screen_inv_def counts_inv_def ids_with_def add_failed_def)
  then have ref: "sc_summaryRef t = sc_summaryRef s" using mark_unfinished_run [OF f] inv by (simp add: screen_inv_def)
  have t: "sc_resultById ?t = sc_resultById t" "ct_failed (sc_summaryRef ?t) = ct_failed (sc_summaryRef s) + length assets"
    "ct_success (sc_summaryRef ?t) = card (ids_with St_success s)"
    using f k ref inv by (simp_all add: markUnfinishedAsFailed_def screen_inv_def counts_inv_def)
  have "unfinished_state assets m a \<in> snd ` set (sc_resultById t)" if "a \<in> set assets" for a
    using map_of_SomeD [OF known [OF that]] by force
  moreover have "fs_assetId (unfinished_state assets m a) = Some (ma_id a)" for a by (simp add: unfinished_state_def)
  moreover have "g \<in> snd ` set (sc_resultById t)" if "map_get (sc_resultById s) i = Some g" for i g
  proof -
    have "map_get (sc_statusById s) i \<noteq> None" using inv that unfolding screen_inv_def results_inv_def by (metis option.distinct(1) option.simps(9))
    then have "i \<notin> ma_id ` set assets" using items by auto
    then show ?thesis using other that map_of_SomeD [of "sc_resultById t" i g] by force
  qed
  ultimately show ?thesis
    using fatal_result [OF run inv, of assets now err summary] t unfolding m_def [symmetric] Let_def
    by (simp add: image_iff) (metis unfinished_state_sel(2))
qed

theorem fatal_error_fails_uploaded_witness:
  "let s = fold (screen_step [ex_screen_asset]) ex_uploaded (new_screen [ex_screen_asset] Streaming 0);
       d = sc_shown (reportFatalError [ex_screen_asset] 30 None None s)
   in ct_success (sh_summary d) = 1 \<and> ct_failed (sh_summary d) = 1"
proof -
  let ?s = "fold (screen_step [ex_screen_asset]) ex_uploaded (new_screen [ex_screen_asset] Streaming 0)"
  have "run_ok screen_ok (screen_step [ex_screen_asset]) ex_uploaded (new_screen [ex_screen_asset] Streaming 0)"
    by (simp add: screen_eval)
  moreover have "ids_with St_success ?s = {''s-0''}" by (auto simp: screen_eval ids_with_def split: if_splits)
  moreover have "is_active ?s" "\<not> sc_finished ?s" "map_get (sc_statusById ?s) ''a'' = None" "ct_failed (sc_summaryRef ?s) = 0"
    by (simp_all add: screen_eval)
  ultimately show ?thesis
    using fatal_error_fails_uploaded [of "[ex_screen_asset]" ex_uploaded Streaming 0 30 None None]
    by (simp add: Let_def ex_screen_asset_def)
qed

text \<open>
  No update of the screen is lost or late, and updates are coalesced: whenever a
  running screen has received something that it does not show yet, its timer is armed, due
  at most 100 milliseconds from now and at least 100 milliseconds after the previous
  refresh, and when the timer fires, the screen shows the present counters and recent
  files and nothing is left over.
\<close>

theorem ui_updates_prompt:
  assumes "run_ok timed_ok (timed_step assets) es (t0, new_screen assets mode t0)"
    and "fold (timed_step assets) es (t0, new_screen assets mode t0) = (now, s)"
    and "is_active s" "\<not> sc_finished s" and "sc_fileUiDirty s \<or> sc_pendingProgress s \<noteq> None"
  shows "\<exists>due. sc_uiTimer s = Some due \<and> due \<le> now + 100 \<and> sc_lastUiFlushAt s + 100 \<le> due \<and>
    (\<forall>t \<ge> due. let s' = screen_step assets (t, Ui_timer) s
       in \<not> sc_fileUiDirty s' \<and> sc_pendingProgress s' = None \<and> sc_uiTimer s' = None \<and> sc_lastUiFlushAt s' = t \<and>
          sh_summary (sc_shown s') = sc_summaryRef s \<and> sh_recentFiles (sc_shown s') = sc_recentFilesRef s)"
proof -
  have "timed_inv (t0, new_screen assets mode t0)"
    using screen_inv_new [of assets mode t0] by (simp add: timed_inv_def) (simp add: new_screen_def)
  from timed_screen.guarded_run [OF this assms(1)] have inv: "timed_inv (now, s)" by (simp add: assms(2))
  then obtain due where due: "sc_uiTimer s = Some due" using assms(3-5) by (auto simp: timed_inv_def screen_inv_def ui_inv_def)
  have fires: "let s' = screen_step assets (t, Ui_timer) s
       in \<not> sc_fileUiDirty s' \<and> sc_pendingProgress s' = None \<and> sc_uiTimer s' = None \<and> sc_lastUiFlushAt s' = t \<and>
          sh_summary (sc_shown s') = sc_summaryRef s \<and> sh_recentFiles (sc_shown s') = sc_recentFilesRef s" for t
  proof -
    let ?s = "s\<lparr>sc_uiTimer := None, sc_lastUiFlushAt := t\<rparr>"
    have a: "is_active ?s" using assms(3) by (simp add: is_active_def)
    have d: "sh_summary (sc_shown ?s) = sc_summaryRef ?s \<and> sh_recentFiles (sc_shown ?s) = sc_recentFilesRef ?s"
      if "\<not> sc_fileUiDirty ?s" using inv that by (simp add: timed_inv_def screen_inv_def ui_inv_def)
    show ?thesis using flushUi_shows [OF a d, of t] due by (simp add: ui_timer_fires_def Let_def)
  qed
  show ?thesis using inv due fires by (auto simp: timed_inv_def UI_UPDATE_INTERVAL_MS_def)
qed

theorem ui_updates_prompt_witness:
  "let s = snd (fold (timed_step [ex_screen_asset]) ex_uploaded (0, new_screen [ex_screen_asset] Streaming 0));
       s' = screen_step [ex_screen_asset] (100, Ui_timer) s
   in ct_success (sh_summary (sc_shown s)) = 0 \<and> ct_success (sh_summary (sc_shown s')) = 1"
proof -
  let ?s = "snd (fold (timed_step [ex_screen_asset]) ex_uploaded (0, new_screen [ex_screen_asset] Streaming 0))"
  have run: "run_ok timed_ok (timed_step [ex_screen_asset]) ex_uploaded (0, new_screen [ex_screen_asset] Streaming 0)"
    by (simp add: screen_eval)
  have fold: "fold (timed_step [ex_screen_asset]) ex_uploaded (0, new_screen [ex_screen_asset] Streaming 0) = (20, ?s)"
    by (simp add: ex_uploaded_def)
  have s: "is_active ?s" "\<not> sc_finished ?s" "sc_fileUiDirty ?s" "sc_uiTimer ?s = Some 100"
    "ct_success (sh_summary (sc_shown ?s)) = 0" "ct_success (sc_summaryRef ?s) = 1"
    by (simp_all add: screen_eval UI_UPDATE_INTERVAL_MS_def)
  show ?thesis using ui_updates_prompt [OF run fold s(1,2)] s(3-6) by (auto simp: Let_def)
qed

end
