(* ===== verification/ApiClient.thy ===== *)
theory ApiClient
  imports NativeBridge
begin

text \<open>
  The HTTP client of the desktop, \<open>api/ApiClient.ts\<close>. The network is a parameter: it
  answers a request depending on everything that was sent before. The record of the client
  logs every request with the pinned configuration of the native module under which it
  left the device, so that a theorem can speak of what was sent, and how. The time limit of
  a ping makes the network fail the request.
\<close>

subsection \<open>Requests and answers\<close>

datatype request_body =
    No_body
  | Token_body string
  | Pair_body string string string
  | Pair_status_body string string
  | Preflight_body "PreflightFile list"
  | Verify_body "PreflightVerifyFile list"
  | Log_body string string
  | Speed_body string number
  | History_body jsval
  | Session_body string

text \<open>
  \<open>rq_pin\<close> is \<open>None\<close> for a plain \<open>fetch\<close>; a native request carries the base address and
  the fingerprint that the native module was configured with, if any.
\<close>

record http_request =
  rq_url :: string
  rq_method :: string
  rq_token :: "string option"
  rq_body :: request_body
  rq_pin :: "(string \<times> string) option option"

text \<open>
  An answer: its status, status text, its body as text (\<open>None\<close> if reading it fails) and as
  parsed JSON (\<open>None\<close> if parsing fails), or the message of the error that \<open>fetch\<close> or the
  native module throws.
\<close>

record api_response =
  hr_status :: int
  hr_statusText :: string
  hr_text :: "string option"
  hr_json :: "jsval option"

datatype net_answer = Answer api_response | Net_error string

type_synonym network = "http_request list \<Rightarrow> http_request \<Rightarrow> net_answer"

definition response_ok :: "api_response \<Rightarrow> bool" where
  "response_ok r \<longleftrightarrow> 200 \<le> hr_status r \<and> hr_status r < 300"

datatype api_error =
    Environment_mismatch IosClientEnvironment string
  | Request_error string int
  | Plain_error string

fun api_message :: "api_error \<Rightarrow> string" where
  "api_message (Environment_mismatch expected actual) =
     (if actual \<noteq> []
      then ''This app expects the '' @ env_name expected @ '' desktop environment, but reached '' @ actual @
           ''. Open the matching Windows app and try again.''
      else ''This desktop does not report an environment identity. Update Windows Local Media Transfer before connecting.'')"
| "api_message (Request_error message status) = message"
| "api_message (Plain_error message) = message"

subsection \<open>The client\<close>

record ApiClient =
  ac_native :: bool
  ac_expected :: IosClientEnvironment
  ac_serverUrl :: string
  ac_token :: string
  ac_serverVersion :: string
  ac_failureReason :: string
  ac_notified :: nat
  ac_secure :: "(string \<times> string) option"
  ac_sent :: "http_request list"

definition without_slash :: "string \<Rightarrow> string" where
  "without_slash url = (if endsWith url ''/'' then butlast url else url)"

definition setConfig :: "string \<Rightarrow> string \<Rightarrow> ApiClient \<Rightarrow> ApiClient" where
  "setConfig url token c = c\<lparr>ac_serverUrl := without_slash url, ac_token := token\<rparr>"

definition notifyUnauthorized :: "ApiClient \<Rightarrow> ApiClient" where
  "notifyUnauthorized c = c\<lparr>ac_notified := ac_notified c + 1\<rparr>"

definition unauthorized_status :: "api_response \<Rightarrow> bool" where
  "unauthorized_status r \<longleftrightarrow> hr_status r = 401 \<or> hr_status r = 403"

definition show_status :: "int \<Rightarrow> string" where
  "show_status n = (if n < 0 then ''-'' @ show_nat (nat (- n)) else show_nat (nat n))"

definition requireOk :: "api_response \<Rightarrow> string \<Rightarrow> ApiClient \<Rightarrow> (api_error + api_response) \<times> ApiClient" where
  "requireOk r operation c =
     (if response_ok r then (Inr r, c)
      else
        (let c1 = (if unauthorized_status r then notifyUnauthorized c else c);
             detail = (case hr_text r of Some t \<Rightarrow> (if t \<noteq> [] then t else hr_statusText r) | None \<Rightarrow> hr_statusText r)
         in (Inl (Request_error (operation @ '': HTTP '' @ show_status (hr_status r) @ (if detail \<noteq> [] then '': '' @ detail else []))
                   (hr_status r)), c1)))"

definition readJson :: "api_response \<Rightarrow> api_error + jsval" where
  "readJson r = (case hr_json r of Some v \<Rightarrow> Inr v | None \<Rightarrow> Inl (Plain_error ''JSON Parse error''))"

datatype PairingStatus = Approved | Pending | Denied

definition parsePairingStatus :: "jsval \<Rightarrow> PairingStatus" where
  "parsePairingStatus body =
     (if is_object body
      then (if prop_of body ''status'' = JStr ''approved'' then Approved
            else if prop_of body ''status'' = JStr ''pending'' then Pending else Denied)
      else Denied)"

definition reported_environment :: "jsval \<Rightarrow> string" where
  "reported_environment body = (if is_object body then string_or_empty (prop_of body ''environment'') else [])"

definition requireExpectedEnvironment :: "IosClientEnvironment \<Rightarrow> jsval \<Rightarrow> api_error option" where
  "requireExpectedEnvironment expected body =
     (if reported_environment body \<noteq> env_name expected
      then Some (Environment_mismatch expected (reported_environment body)) else None)"

definition readPairingStatus :: "IosClientEnvironment \<Rightarrow> api_response \<Rightarrow> api_error + PairingStatus" where
  "readPairingStatus expected r =
     (case readJson r of
        Inl _ \<Rightarrow> Inr Denied
      | Inr body \<Rightarrow> (case requireExpectedEnvironment expected body of
                        Some e \<Rightarrow> Inl e
                      | None \<Rightarrow> Inr (parsePairingStatus body)))"

record HealthResponse =
  hl_version :: "string option"
  hl_environment :: "string option"

definition parseHealth :: "jsval \<Rightarrow> HealthResponse" where
  "parseHealth body =
     (if \<not> is_object body then \<lparr>hl_version = None, hl_environment = None\<rparr>
      else \<lparr>hl_version = as_string (prop_of body ''version''),
            hl_environment = (case as_string (prop_of body ''environment'') of
               Some e \<Rightarrow> (if e = ''production'' \<or> e = ''test'' \<or> e = ''benchmark'' then Some e else None)
             | None \<Rightarrow> None)\<rparr>)"

text \<open>The health record as the object that \<open>requireExpectedEnvironment\<close> receives.\<close>

definition health_value :: "HealthResponse \<Rightarrow> jsval" where
  "health_value h = JObj [(''version'', case hl_version h of Some v \<Rightarrow> JStr v | None \<Rightarrow> JUndefined),
                          (''environment'', case hl_environment h of Some e \<Rightarrow> JStr e | None \<Rightarrow> JUndefined)]"

definition parsePreflightAction :: "jsval \<Rightarrow> PreflightAction" where
  "parsePreflightAction v =
     (if v = JStr ''skip'' then Skip else if v = JStr ''hash_required'' then Hash_required else Upload)"

definition parse_preflight_item :: "jsval \<Rightarrow> PreflightFileResult option" where
  "parse_preflight_item item =
     (if \<not> is_object item then None
      else case as_string (prop_of item ''id'') of
             None \<Rightarrow> None
           | Some i \<Rightarrow>
               (if i = [] then None
                else Some \<lparr>pfr_id = i, pfr_action = parsePreflightAction (prop_of item ''action''),
                           pfr_filename = nonempty_string (prop_of item ''filename''),
                           pfr_inconclusive = (prop_of item ''verification'' = JStr ''inconclusive'')\<rparr>))"

fun array_of :: "jsval \<Rightarrow> jsval list option" where
  "array_of (JArr xs) = Some xs"
| "array_of _ = None"

definition parsePreflightResponse :: "jsval \<Rightarrow> PreflightResponse" where
  "parsePreflightResponse body =
     (if \<not> is_object body then []
      else case array_of (prop_of body ''files'') of
             None \<Rightarrow> []
           | Some files \<Rightarrow> keep_valid parse_preflight_item files)"

text \<open>
  \<open>TransferHistoryItem\<close>: its numeric members in the order of the source, each present or
  \<open>undefined\<close>.
\<close>

definition history_number_fields :: "string list" where
  "history_number_fields = [''uploadedFiles'', ''skippedFiles'', ''failedFiles'', ''averageSpeedMBps'', ''peakSpeedMBps'',
     ''selectedFiles'', ''totalDurationMs'', ''selectedAssets'', ''expandedFiles'', ''selectedBytes'', ''selectedMediaBytes'',
     ''additionalComponentsBytes'', ''selectedMediaFiles'', ''additionalComponentsFiles'', ''uploadedBytes'', ''skippedBytes'',
     ''avoidedBytes'', ''finalizationDuplicateBytes'', ''checkDurationMs'', ''uploadDurationMs'', ''retries'']"

record TransferHistoryItem =
  thi_sessionId :: "string option"
  thi_completedAt :: "jsval option"
  thi_numbers :: "(string \<times> jsnum option) list"
  thi_completionStatus :: "TransferCompletionStatus option"
  thi_files :: "jsval list option"

definition completion_of :: "jsval \<Rightarrow> TransferCompletionStatus option" where
  "completion_of v =
     map_of [(JStr ''completed'', Completed), (JStr ''mixed'', Mixed), (JStr ''cancelled'', Cancelled_status), (JStr ''fatal'', Fatal)] v"

definition parse_history_item :: "jsval \<Rightarrow> TransferHistoryItem" where
  "parse_history_item item =
     \<lparr>thi_sessionId = as_string (prop_of item ''sessionId''),
      thi_completedAt = (case prop_of item ''completedAt'' of JNum n \<Rightarrow> Some (JNum n) | JStr s \<Rightarrow> Some (JStr s) | _ \<Rightarrow> None),
      thi_numbers = map (\<lambda>k. (k, as_number (prop_of item k))) history_number_fields,
      thi_completionStatus = completion_of (prop_of item ''completionStatus''),
      thi_files = map_option (filter is_object) (array_of (prop_of item ''files''))\<rparr>"

definition parseTransferHistory :: "jsval \<Rightarrow> TransferHistoryItem list" where
  "parseTransferHistory body =
     (case array_of body of None \<Rightarrow> [] | Some items \<Rightarrow> map parse_history_item (filter is_object items))"

subsection \<open>Transport\<close>

definition token_header :: "ApiClient \<Rightarrow> string option" where
  "token_header c = (if ac_token c \<noteq> [] then Some (ac_token c) else None)"

definition transportFetch ::
  "network \<Rightarrow> string \<Rightarrow> string \<Rightarrow> string option \<Rightarrow> request_body \<Rightarrow> ApiClient \<Rightarrow> (api_error + api_response) \<times> ApiClient" where
  "transportFetch net url verb token body c =
     (let https = startsWith (toLowerCase url) ''https://''
      in if https \<and> \<not> ac_native c then (Inl (Plain_error ''Pinned HTTPS requires the installed iOS app''), c)
         else
           (let rq = \<lparr>rq_url = url, rq_method = verb, rq_token = token, rq_body = body,
                      rq_pin = (if https then Some (ac_secure c) else None)\<rparr>;
                c1 = c\<lparr>ac_sent := ac_sent c @ [rq]\<rparr>
            in case net (ac_sent c) rq of
                 Net_error message \<Rightarrow> (Inl (Plain_error message), c1)
               | Answer r \<Rightarrow> (Inr (if https then r\<lparr>hr_statusText := []\<rparr> else r), c1)))"

definition ping_fails :: "api_error \<Rightarrow> ApiClient \<Rightarrow> bool \<times> ApiClient" where
  "ping_fails e c = (False, c\<lparr>ac_failureReason := api_message e\<rparr>)"

definition notify_if :: "bool \<Rightarrow> api_response \<Rightarrow> ApiClient \<Rightarrow> ApiClient" where
  "notify_if notify r c = (if unauthorized_status r \<and> notify then notifyUnauthorized c else c)"

definition verify_token :: "network \<Rightarrow> bool \<Rightarrow> ApiClient \<Rightarrow> bool \<times> ApiClient" where
  "verify_token net notify c =
     (case transportFetch net (ac_serverUrl c @ ''/verify_token'') ''POST'' (token_header c) (Token_body (ac_token c)) c of
        (Inl e, c1) \<Rightarrow> ping_fails e c1
      | (Inr r, c1) \<Rightarrow>
          (if \<not> response_ok r then (False, notify_if notify r c1)
           else case readJson r of
                  Inl e \<Rightarrow> ping_fails e c1
                | Inr body \<Rightarrow> (case requireExpectedEnvironment (ac_expected c1) body of
                                  Some e \<Rightarrow> ping_fails e c1
                                | None \<Rightarrow> (True, c1))))"

definition health_answer :: "network \<Rightarrow> bool \<Rightarrow> api_response \<Rightarrow> ApiClient \<Rightarrow> bool \<times> ApiClient" where
  "health_answer net notify r c1 =
     (let c = notify_if notify r c1
      in if \<not> response_ok r then (False, c)
         else case readJson r of
                Inl e \<Rightarrow> ping_fails e c
              | Inr body \<Rightarrow>
                  (let health = parseHealth body
                   in case requireExpectedEnvironment (ac_expected c) (health_value health) of
                        Some e \<Rightarrow> ping_fails e c
                      | None \<Rightarrow>
                          (let c2 = c\<lparr>ac_serverVersion := (case hl_version health of Some v \<Rightarrow> v | None \<Rightarrow> [])\<rparr>
                           in if ac_token c2 \<noteq> [] then verify_token net notify c2 else (True, c2))))"

definition pingServer :: "network \<Rightarrow> bool \<Rightarrow> ApiClient \<Rightarrow> bool \<times> ApiClient" where
  "pingServer net notify c0 =
     (if ac_serverUrl c0 = [] then (False, c0)
      else
        (let c = c0\<lparr>ac_failureReason := []\<rparr>
         in case transportFetch net (ac_serverUrl c @ ''/_health'') ''GET'' (token_header c) No_body c of
              (Inl e, c1) \<Rightarrow> ping_fails e c1
            | (Inr r, c1) \<Rightarrow> health_answer net notify r c1))"

definition requestPairing ::
  "network \<Rightarrow> string \<Rightarrow> string \<Rightarrow> string \<Rightarrow> string \<Rightarrow> ApiClient \<Rightarrow> (api_error + PairingStatus) \<times> ApiClient" where
  "requestPairing net url deviceId deviceName credential c =
     (case transportFetch net (url @ ''/pair/request'') ''POST'' (token_header c) (Pair_body deviceId deviceName credential) c of
        (Inl e, c1) \<Rightarrow> (Inl e, c1)
      | (Inr r, c1) \<Rightarrow> (readPairingStatus (ac_expected c1) r, c1))"

definition pairingStatus ::
  "network \<Rightarrow> string \<Rightarrow> string \<Rightarrow> string \<Rightarrow> ApiClient \<Rightarrow> (api_error + PairingStatus) \<times> ApiClient" where
  "pairingStatus net url deviceId credential c =
     (case transportFetch net (url @ ''/pair/status'') ''POST'' None (Pair_status_body deviceId credential) c of
        (Inl e, c1) \<Rightarrow> (Inl e, c1)
      | (Inr r, c1) \<Rightarrow> (readPairingStatus (ac_expected c1) r, c1))"

text \<open>A call to the configured server whose answer must be a success.\<close>

definition checked_call ::
  "network \<Rightarrow> string \<Rightarrow> string \<Rightarrow> request_body \<Rightarrow> string \<Rightarrow> ApiClient \<Rightarrow> (api_error + api_response) \<times> ApiClient" where
  "checked_call net path verb body operation c =
     (case transportFetch net (ac_serverUrl c @ path) verb (token_header c) body c of
        (Inl e, c1) \<Rightarrow> (Inl e, c1)
      | (Inr r, c1) \<Rightarrow> requireOk r operation c1)"

definition json_result :: "(jsval \<Rightarrow> 'a) \<Rightarrow> (api_error + api_response) \<times> ApiClient \<Rightarrow> (api_error + 'a) \<times> ApiClient" where
  "json_result parse = (\<lambda>(res, c). (case res of
     Inl e \<Rightarrow> Inl e | Inr r \<Rightarrow> (case readJson r of Inl e \<Rightarrow> Inl e | Inr v \<Rightarrow> Inr (parse v)), c))"

definition not_configured :: api_error where
  "not_configured = Plain_error ''Server URL not configured''"

definition preflightCheck :: "network \<Rightarrow> PreflightFile list \<Rightarrow> ApiClient \<Rightarrow> (api_error + PreflightResponse) \<times> ApiClient" where
  "preflightCheck net files c =
     (if ac_serverUrl c = [] then (Inl not_configured, c)
      else json_result parsePreflightResponse
             (checked_call net ''/upload/preflight'' ''POST'' (Preflight_body files) ''Preflight failed'' c))"

definition preflightVerify :: "network \<Rightarrow> PreflightVerifyFile list \<Rightarrow> ApiClient \<Rightarrow> (api_error + PreflightResponse) \<times> ApiClient" where
  "preflightVerify net files c =
     (if ac_serverUrl c = [] then (Inl not_configured, c)
      else json_result parsePreflightResponse
             (checked_call net ''/upload/preflight/verify'' ''POST'' (Verify_body files) ''Duplicate verification failed'' c))"

definition logClientEvent :: "network \<Rightarrow> string \<Rightarrow> string \<Rightarrow> ApiClient \<Rightarrow> ApiClient" where
  "logClientEvent net level event c =
     (if ac_serverUrl c = [] then c
      else snd (transportFetch net (ac_serverUrl c @ ''/client_log'') ''POST'' (token_header c) (Log_body level event) c))"

definition reportClientSpeed :: "network \<Rightarrow> string \<Rightarrow> number \<Rightarrow> ApiClient \<Rightarrow> ApiClient" where
  "reportClientSpeed net sessionId bytesPerSecond c =
     (if ac_serverUrl c = [] then c
      else snd (transportFetch net (ac_serverUrl c @ ''/client_metrics'') ''POST'' (token_header c) (Speed_body sessionId bytesPerSecond) c))"

definition unit_result :: "(api_error + api_response) \<times> ApiClient \<Rightarrow> api_error option \<times> ApiClient" where
  "unit_result = (\<lambda>(res, c). (case res of Inl e \<Rightarrow> Some e | Inr _ \<Rightarrow> None, c))"

definition transferHistory :: "network \<Rightarrow> jsval \<Rightarrow> ApiClient \<Rightarrow> api_error option \<times> ApiClient" where
  "transferHistory net payload c =
     (if ac_serverUrl c = [] then (Some not_configured, c)
      else unit_result (checked_call net ''/transfer_history'' ''POST'' (History_body payload) ''Transfer history failed'' c))"

definition getHistory :: "network \<Rightarrow> ApiClient \<Rightarrow> (api_error + TransferHistoryItem list) \<times> ApiClient" where
  "getHistory net c =
     (if ac_serverUrl c = [] then (Inl not_configured, c)
      else json_result parseTransferHistory
             (checked_call net ''/transfer_history/recent'' ''GET'' No_body ''Failed to fetch history'' c))"

definition clearHistory :: "network \<Rightarrow> ApiClient \<Rightarrow> api_error option \<times> ApiClient" where
  "clearHistory net c =
     (if ac_serverUrl c = [] then (Some not_configured, c)
      else unit_result (checked_call net ''/transfer_history'' ''DELETE'' No_body ''Failed to delete history'' c))"

definition cancelUploadSession :: "network \<Rightarrow> string \<Rightarrow> ApiClient \<Rightarrow> api_error option \<times> ApiClient" where
  "cancelUploadSession net sessionId c =
     (if ac_serverUrl c = [] then (None, c)
      else unit_result (checked_call net ''/upload_session/cancel'' ''POST'' (Session_body sessionId)
             ''Failed to clean up cancelled upload session'' c))"

subsection \<open>Lemmas\<close>

definition is_https :: "string \<Rightarrow> bool" where
  "is_https url \<longleftrightarrow> startsWith (toLowerCase url) ''https://''"

text \<open>The request that the client makes of a path at its server.\<close>

definition request_to :: "string \<Rightarrow> string \<Rightarrow> string option \<Rightarrow> request_body \<Rightarrow> ApiClient \<Rightarrow> http_request" where
  "request_to url verb token body c =
     \<lparr>rq_url = url, rq_method = verb, rq_token = token, rq_body = body,
      rq_pin = (if is_https url then Some (ac_secure c) else None)\<rparr>"

lemma transportFetch_blocked:
  "is_https url \<Longrightarrow> \<not> ac_native c \<Longrightarrow>
   transportFetch net url verb token body c = (Inl (Plain_error ''Pinned HTTPS requires the installed iOS app''), c)"
  by (simp add: transportFetch_def is_https_def)

lemma transportFetch_sends:
  assumes "is_https url \<longrightarrow> ac_native c"
  shows "transportFetch net url verb token body c =
    (case net (ac_sent c) (request_to url verb token body c) of
       Net_error message \<Rightarrow> Inl (Plain_error message)
     | Answer r \<Rightarrow> Inr (if is_https url then r\<lparr>hr_statusText := []\<rparr> else r),
     c\<lparr>ac_sent := ac_sent c @ [request_to url verb token body c]\<rparr>)"
  using assms by (simp add: transportFetch_def request_to_def is_https_def Let_def split: net_answer.splits)

text \<open>What every call keeps of the client, and what it adds to the log.\<close>

definition same_target :: "ApiClient \<Rightarrow> ApiClient \<Rightarrow> bool" where
  "same_target c d \<longleftrightarrow> ac_native d = ac_native c \<and> ac_expected d = ac_expected c \<and> ac_serverUrl d = ac_serverUrl c \<and>
     ac_token d = ac_token c \<and> ac_secure d = ac_secure c"

definition sends :: "(http_request \<Rightarrow> bool) \<Rightarrow> ApiClient \<Rightarrow> ApiClient \<Rightarrow> bool" where
  "sends P c d \<longleftrightarrow> (\<exists>rs. ac_sent d = ac_sent c @ rs \<and> list_all P rs)"

lemma sends_refl [simp]: "sends P c c" by (simp add: sends_def)

lemma sends_trans: "sends P c d \<Longrightarrow> sends P d e \<Longrightarrow> sends P c e"
  unfolding sends_def by (metis append.assoc list_all_append)

lemma sends_mono: "sends P c d \<Longrightarrow> (\<And>r. P r \<Longrightarrow> Q r) \<Longrightarrow> sends Q c d"
  unfolding sends_def by (metis list.pred_mono_strong)

lemma same_target_refl [simp]: "same_target c c" by (simp add: same_target_def)

lemma same_target_trans: "same_target c d \<Longrightarrow> same_target d e \<Longrightarrow> same_target c e"
  by (simp add: same_target_def)

lemma sends_cong: "ac_sent c' = ac_sent c \<Longrightarrow> ac_sent d' = ac_sent d \<Longrightarrow> sends P c' d' = sends P c d"
  by (simp add: sends_def)

lemma transportFetch_frame:
  assumes "transportFetch net url verb token body c = (res, d)"
  shows "same_target c d \<and> sends (\<lambda>r. r = request_to url verb token body c \<and> (is_https url \<longrightarrow> ac_native c)) c d"
proof (cases "is_https url \<longrightarrow> ac_native c")
  case True
  then have "d = c\<lparr>ac_sent := ac_sent c @ [request_to url verb token body c]\<rparr>"
    using assms by (simp add: transportFetch_sends)
  then show ?thesis using True by (simp add: same_target_def sends_def)
next
  case False
  then show ?thesis using assms by (simp add: transportFetch_blocked)
qed

lemma env_name_cases: "env_name e = ''production'' \<or> env_name e = ''test''"
  by (cases e) simp_all

lemma health_environment:
  "reported_environment (health_value (parseHealth body)) = env_name e \<longleftrightarrow> reported_environment body = env_name e"
  using env_name_cases [of e]
  by (auto simp: reported_environment_def health_value_def parseHealth_def string_or_empty_def split: option.splits)

text \<open>An answer that confirms the expected environment.\<close>

definition confirms :: "IosClientEnvironment \<Rightarrow> net_answer \<Rightarrow> bool" where
  "confirms e ans \<longleftrightarrow> (\<exists>r body. ans = Answer r \<and> response_ok r \<and> hr_json r = Some body \<and> reported_environment body = env_name e)"

definition health_request :: "ApiClient \<Rightarrow> http_request" where
  "health_request c = request_to (ac_serverUrl c @ ''/_health'') ''GET'' (token_header c) No_body c"

definition verify_request :: "ApiClient \<Rightarrow> http_request" where
  "verify_request c = request_to (ac_serverUrl c @ ''/verify_token'') ''POST'' (token_header c) (Token_body (ac_token c)) c"

definition can_send :: "ApiClient \<Rightarrow> string \<Rightarrow> bool" where
  "can_send c path \<longleftrightarrow> (is_https (ac_serverUrl c @ path) \<longrightarrow> ac_native c)"

lemma fetch_confirms:
  fixes verb :: string and body :: request_body
  assumes "can_send c path"
  defines "rq \<equiv> request_to (ac_serverUrl c @ path) verb (token_header c) body c"
  assumes "transportFetch net (ac_serverUrl c @ path) verb (token_header c) body c = (res, d)"
  shows "(\<exists>r v. res = Inr r \<and> response_ok r \<and> hr_json r = Some v \<and> reported_environment v = env_name e) \<longleftrightarrow> confirms e (net (ac_sent c) rq)"
    and "d = c\<lparr>ac_sent := ac_sent c @ [rq]\<rparr>"
  using assms
  by (auto simp: transportFetch_sends can_send_def confirms_def response_ok_def split: net_answer.splits if_splits)

lemma fetch_not_sent:
  assumes "\<not> can_send c path"
  shows "\<exists>e. transportFetch net (ac_serverUrl c @ path) verb tok body c = (Inl e, c)"
  using assms by (simp add: can_send_def transportFetch_blocked)

lemma verify_token_iff:
  "fst (verify_token net notify c) \<longleftrightarrow> can_send c ''/verify_token'' \<and> confirms (ac_expected c) (net (ac_sent c) (verify_request c))"
proof (cases "can_send c ''/verify_token''")
  case True
  obtain res d where f: "transportFetch net (ac_serverUrl c @ ''/verify_token'') ''POST'' (token_header c) (Token_body (ac_token c)) c = (res, d)"
    by fastforce
  note conf = fetch_confirms(1) [OF True f, of "ac_expected c", folded verify_request_def] fetch_confirms(2) [OF True f]
  show ?thesis unfolding conf(1) [symmetric] using True conf(2)
    by (cases res) (auto simp: verify_token_def f ping_fails_def readJson_def requireExpectedEnvironment_def split: option.splits)
next
  case False
  then obtain e where "transportFetch net (ac_serverUrl c @ ''/verify_token'') ''POST'' (token_header c) (Token_body (ac_token c)) c = (Inl e, c)"
    using fetch_not_sent by blast
  then show ?thesis using False by (simp add: verify_token_def ping_fails_def)
qed

definition token_accepted :: "network \<Rightarrow> ApiClient \<Rightarrow> bool" where
  "token_accepted net c \<longleftrightarrow>
     (ac_token c \<noteq> [] \<longrightarrow> can_send c ''/verify_token'' \<and> confirms (ac_expected c) (net (ac_sent c) (verify_request c)))"

lemma token_accepted_cong:
  "same_target c d \<Longrightarrow> ac_sent d = ac_sent c \<Longrightarrow> token_accepted net d = token_accepted net c"
  by (simp add: token_accepted_def same_target_def can_send_def verify_request_def request_to_def token_header_def)

lemma notify_if_frame [simp]: "same_target c (notify_if notify r c)" "ac_sent (notify_if notify r c) = ac_sent c"
  by (simp_all add: notify_if_def notifyUnauthorized_def same_target_def)

lemma health_answer_iff:
  "fst (health_answer net notify r c) \<longleftrightarrow>
     response_ok r \<and> (\<exists>v. hr_json r = Some v \<and> reported_environment v = env_name (ac_expected c)) \<and> token_accepted net c"
proof -
  let ?c = "notify_if notify r c"
  have sel: "ac_expected ?c = ac_expected c" "ac_token ?c = ac_token c"
    using notify_if_frame(1) [of c notify r] by (auto simp: same_target_def)
  have "same_target c (?c\<lparr>ac_serverVersion := v\<rparr>)" for v
    using notify_if_frame(1) [of c notify r] by (simp add: same_target_def)
  then have "token_accepted net (?c\<lparr>ac_serverVersion := v\<rparr>) = token_accepted net c" for v
    by (rule token_accepted_cong) simp
  moreover have "fst (if ac_token c \<noteq> [] then verify_token net notify d else (True, d)) = token_accepted net d"
    if "ac_token d = ac_token c" for d using that by (simp add: verify_token_iff token_accepted_def)
  ultimately have last: "fst (if ac_token c \<noteq> [] then verify_token net notify (?c\<lparr>ac_serverVersion := v\<rparr>) else (True, ?c\<lparr>ac_serverVersion := v\<rparr>)) =
      token_accepted net c" for v by (simp add: sel)
  show ?thesis
  proof (cases "response_ok r \<and> (\<exists>v. hr_json r = Some v \<and> reported_environment v = env_name (ac_expected c))")
    case True
    then show ?thesis using last unfolding health_answer_def Let_def
      by (auto simp: readJson_def requireExpectedEnvironment_def health_environment sel simp del: if_split split: option.splits)
  next
    case False
    then show ?thesis unfolding health_answer_def Let_def
      by (auto simp: readJson_def requireExpectedEnvironment_def health_environment sel ping_fails_def split: option.splits)
  qed
qed

definition ping_accepted :: "network \<Rightarrow> ApiClient \<Rightarrow> bool" where
  "ping_accepted net c \<longleftrightarrow>
     ac_serverUrl c \<noteq> [] \<and> can_send c ''/_health'' \<and> confirms (ac_expected c) (net (ac_sent c) (health_request c)) \<and>
     (ac_token c \<noteq> [] \<longrightarrow> can_send c ''/verify_token'' \<and>
        confirms (ac_expected c) (net (ac_sent c @ [health_request c]) (verify_request c)))"

lemma ping_iff: "fst (pingServer net notify c0) \<longleftrightarrow> ping_accepted net c0"
proof -
  let ?c = "c0\<lparr>ac_failureReason := []\<rparr>"
  obtain res d where f: "transportFetch net (ac_serverUrl ?c @ ''/_health'') ''GET'' (token_header ?c) No_body ?c = (res, d)"
    by fastforce
  have hr: "request_to (ac_serverUrl ?c @ ''/_health'') ''GET'' (token_header ?c) No_body ?c = health_request c0"
    by (simp add: health_request_def request_to_def token_header_def)
  consider "ac_serverUrl c0 = []" | "ac_serverUrl c0 \<noteq> []" "\<not> can_send ?c ''/_health''" | "ac_serverUrl c0 \<noteq> []" "can_send ?c ''/_health''"
    by blast
  then show ?thesis
  proof cases
    case 1
    then show ?thesis by (simp add: pingServer_def ping_accepted_def)
  next
    case 2
    then show ?thesis using fetch_not_sent [OF 2(2), of net "''GET''" "token_header ?c" No_body] f
      by (auto simp: pingServer_def ping_fails_def ping_accepted_def can_send_def)
  next
    case 3
    note conf = fetch_confirms(1) [OF 3(2) f, of "ac_expected c0", unfolded hr] fetch_confirms(2) [OF 3(2) f, unfolded hr]
    have "token_accepted net d \<longleftrightarrow> (ac_token c0 \<noteq> [] \<longrightarrow> can_send c0 ''/verify_token'' \<and>
        confirms (ac_expected c0) (net (ac_sent c0 @ [health_request c0]) (verify_request c0)))"
      by (simp add: conf(2) token_accepted_def can_send_def verify_request_def request_to_def token_header_def)
    moreover have "fst (pingServer net notify c0) \<longleftrightarrow> (\<exists>r. res = Inr r \<and> fst (health_answer net notify r d))"
      using 3(1) f by (cases res) (auto simp: pingServer_def ping_fails_def)
    moreover have "ac_expected d = ac_expected c0" "can_send c0 ''/_health''" using 3(2) by (simp_all add: conf(2) can_send_def)
    ultimately show ?thesis using 3(1) conf(1) unfolding health_answer_iff ping_accepted_def by auto
  qed
qed

subsection \<open>Lemmas: what the calls send\<close>

text \<open>A request to a path below \<open>url\<close> that left the device under the pinned configuration \<open>pin\<close>.\<close>

definition leaves :: "(string \<times> string) option \<Rightarrow> string \<Rightarrow> http_request \<Rightarrow> bool" where
  "leaves pin url r \<longleftrightarrow> (\<exists>path. rq_url r = url @ ''/'' @ path) \<and> rq_pin r = (if is_https (rq_url r) then Some pin else None)"

lemma leaves_request [simp]: "leaves (ac_secure c) url (request_to (url @ CHR ''/'' # path) verb tok body c)"
  by (auto simp: leaves_def request_to_def)

lemma fetch_leaves:
  assumes "transportFetch net (url @ CHR ''/'' # path) verb tok body c = (res, d)"
  shows "same_target c d \<and> sends (leaves (ac_secure c) url) c d"
  using transportFetch_frame [OF assms] by (auto elim: sends_mono)

lemma verify_frame:
  assumes "verify_token net notify c = (ok, d)"
  shows "same_target c d \<and> sends (leaves (ac_secure c) (ac_serverUrl c)) c d"
proof -
  obtain res c1 where f: "transportFetch net (ac_serverUrl c @ ''/verify_token'') ''POST'' (token_header c) (Token_body (ac_token c)) c = (res, c1)"
    by fastforce
  have "same_target c1 d \<and> ac_sent d = ac_sent c1"
    using assms f by (auto simp: verify_token_def ping_fails_def same_target_def notify_if_def notifyUnauthorized_def
        split: sum.splits if_splits option.splits)
  then show ?thesis using fetch_leaves [OF f] by (auto simp: sends_def intro: same_target_trans)
qed

lemma health_answer_frame:
  assumes "health_answer net notify r c = (ok, d)"
  shows "same_target c d \<and> sends (leaves (ac_secure c) (ac_serverUrl c)) c d"
proof -
  have v: "same_target c d \<and> sends (leaves (ac_secure c) (ac_serverUrl c)) c d"
    if "verify_token net notify e = (ok, d)" "same_target c e" "ac_sent e = ac_sent c" for e
    using verify_frame [OF that(1)] that(2,3) by (auto simp: sends_def same_target_def)
  have st: "same_target c ((notify_if notify r c)\<lparr>ac_serverVersion := x\<rparr>)" "same_target c ((notify_if notify r c)\<lparr>ac_failureReason := x\<rparr>)" for x
    using notify_if_frame(1) [of c notify r] by (simp_all add: same_target_def)
  have idle: "same_target c e \<Longrightarrow> ac_sent e = ac_sent c \<Longrightarrow> same_target c e \<and> sends P c e" for e P by (simp add: sends_def)
  show ?thesis using assms
    by (auto simp: health_answer_def Let_def ping_fails_def st idle split: sum.splits if_splits option.splits dest!: v)
qed

lemma ping_frame:
  assumes "pingServer net notify c = (ok, d)"
  shows "same_target c d \<and> sends (leaves (ac_secure c) (ac_serverUrl c)) c d"
proof (cases "ac_serverUrl c = []")
  case True
  then show ?thesis using assms by (simp add: pingServer_def)
next
  case False
  let ?c = "c\<lparr>ac_failureReason := []\<rparr>"
  obtain res c1 where f: "transportFetch net (ac_serverUrl ?c @ ''/_health'') ''GET'' (token_header ?c) No_body ?c = (res, c1)"
    by fastforce
  have l: "same_target c c1" "sends (leaves (ac_secure c) (ac_serverUrl c)) c c1"
    using fetch_leaves [OF f] by (simp_all add: same_target_def sends_def)
  show ?thesis
  proof (cases res)
    case (Inl e)
    then have "d = c1\<lparr>ac_failureReason := api_message e\<rparr>" using assms False f by (simp add: pingServer_def ping_fails_def)
    then show ?thesis using l by (simp add: same_target_def sends_def)
  next
    case (Inr r)
    then have h: "health_answer net notify r c1 = (ok, d)" using assms False f by (simp add: pingServer_def)
    have "ac_secure c1 = ac_secure c" "ac_serverUrl c1 = ac_serverUrl c" using l(1) by (simp_all add: same_target_def)
    then show ?thesis using health_answer_frame [OF h] l sends_trans same_target_trans by metis
  qed
qed

lemma pairing_frame:
  assumes "requestPairing net url i n cred c = (res, d) \<or> pairingStatus net url i cred c = (res, d)"
  shows "same_target c d \<and> sends (leaves (ac_secure c) url) c d"
proof -
  have "\<exists>path verb tok body res'. transportFetch net (url @ CHR ''/'' # path) verb tok body c = (res', d)"
    using assms by (auto simp: requestPairing_def pairingStatus_def split: prod.splits sum.splits) blast+
  then show ?thesis using fetch_leaves by blast
qed

lemma log_frame:
  "same_target c (logClientEvent net level event c) \<and> sends (leaves (ac_secure c) (ac_serverUrl c)) c (logClientEvent net level event c)"
proof (cases "ac_serverUrl c = []")
  case False
  obtain res d where "transportFetch net (ac_serverUrl c @ ''/client_log'') ''POST'' (token_header c) (Log_body level event) c = (res, d)"
    by fastforce
  then show ?thesis using fetch_leaves [of net "ac_serverUrl c" "''client_log''"] False by (simp add: logClientEvent_def)
qed (simp add: logClientEvent_def)

subsection \<open>Properties\<close>

text \<open>
  A ping succeeds exactly if the server is configured, its health answer is a success
  and names the environment that the app expects, and, when a token is configured, the
  server accepts the token in an answer that names the expected environment again.
\<close>

theorem ping_true_iff: "fst (pingServer net notify c) \<longleftrightarrow> ping_accepted net c"
  by (rule ping_iff)

text \<open>The object that the desktop sends for a list of preflight results.\<close>

fun action_name :: "PreflightAction \<Rightarrow> string" where
  "action_name Upload = ''upload''"
| "action_name Skip = ''skip''"
| "action_name Hash_required = ''hash_required''"

definition result_json :: "PreflightFileResult \<Rightarrow> jsval" where
  "result_json r =
     JObj ([(''id'', JStr (pfr_id r)), (''action'', JStr (action_name (pfr_action r)))] @
           (case pfr_filename r of Some f \<Rightarrow> [(''filename'', JStr f)] | None \<Rightarrow> []) @
           (if pfr_inconclusive r then [(''verification'', JStr ''inconclusive'')] else []))"

definition result_wf :: "PreflightFileResult \<Rightarrow> bool" where
  "result_wf r \<longleftrightarrow> pfr_id r \<noteq> [] \<and> pfr_filename r \<noteq> Some []"

lemma parse_result_json: "result_wf r \<Longrightarrow> parse_preflight_item (result_json r) = Some r"
  by (cases r; cases "pfr_action r")
     (auto simp: result_wf_def parse_preflight_item_def result_json_def parsePreflightAction_def nonempty_string_def
       split: option.splits)

lemma parsed_item_wf: "parse_preflight_item v = Some r \<Longrightarrow> result_wf r"
  by (auto simp: parse_preflight_item_def result_wf_def nonempty_string_def split: if_splits option.splits)

text \<open>
  C21. Whatever body the desktop answers a preflight with, the parsed response is well
  typed: every result has an identifier and no empty file name; and a response that the
  desktop encodes from well-formed results is parsed to exactly these.
\<close>

theorem preflight_response_typed:
  "(\<forall>r \<in> set (parsePreflightResponse body). result_wf r) \<and>
   (list_all result_wf rs \<longrightarrow> parsePreflightResponse (JObj [(''files'', JArr (map result_json rs))]) = rs)"
proof -
  have "keep_valid parse_preflight_item (map result_json rs) = rs" if "list_all result_wf rs"
    using that by (induction rs) (simp_all add: keep_valid_def List.map_filter_simps parse_result_json)
  then show ?thesis
    by (auto simp: parsePreflightResponse_def keep_valid_set parsed_item_wf split: option.splits)
qed

theorem preflight_response_typed_witness:
  "parsePreflightResponse (JObj [(''files'', JArr (map result_json
      [\<lparr>pfr_id = ''1'', pfr_action = Skip, pfr_filename = Some ''a'', pfr_inconclusive = False\<rparr>]))]) =
     [\<lparr>pfr_id = ''1'', pfr_action = Skip, pfr_filename = Some ''a'', pfr_inconclusive = False\<rparr>] \<and>
   list_all result_wf (parsePreflightResponse (JObj [(''files'', JArr [JNull, JObj [(''id'', JStr [])]])]))"
  using preflight_response_typed [of "JObj [(''files'', JArr [JNull, JObj [(''id'', JStr [])]])]"
      "[\<lparr>pfr_id = ''1'', pfr_action = Skip, pfr_filename = Some ''a'', pfr_inconclusive = False\<rparr>]"]
  by (simp add: result_wf_def list_all_iff)

end
