(* ===== verification/Pairing.thy ===== *)
theory Pairing
  imports ApiClient Interfaces
begin

text \<open>
  Establishing a connection to a desktop: the state of \<open>app/hooks/useConnectionController.ts\<close>,
  the alerts of \<open>useAlertGate.ts\<close>, \<open>pairingTransport.ts\<close>, \<open>pairingHandshake.ts\<close>,
  \<open>useTrustedConnection.ts\<close>, \<open>usePairingController.ts\<close> and the handlers of
  \<open>app/AppShell.tsx\<close> that use them.

  The state is one record: the client, the controller, the screen, the refs and the stored
  items. A handler is a function on it from its first statement to its last; while it runs,
  the attempt flag keeps the others out. What the environment decides is the record
  \<open>world\<close>: the network, the native module, the answer of the user to a confirmation, the
  random identity, and which operations on the storage fail. Of an alert the title is kept.
\<close>

subsection \<open>useConnectionController.ts\<close>

datatype ScreenState = S_home | S_transfers | S_connect | S_history | S_settings | S_picker | S_transfer

datatype ConnectionLifecycle =
    L_idle
  | L_connecting
  | L_waitingForApproval string
  | L_connected_https
  | L_connected_http
  | L_disconnected

record ConnectionControllerState =
  cc_lifecycle :: ConnectionLifecycle
  cc_isServerConnected :: bool
  cc_isConnecting :: bool
  cc_pairingDesktopName :: "string option"
  cc_security :: ConnectionSecurityState

datatype ConnectionControllerAction =
    A_connecting bool
  | A_serverConnected bool
  | A_pairingDesktop "string option"
  | A_security ConnectionSecurityState
  | A_connectedSecure "string option" bool
  | A_connectedHttp
  | A_disconnected

definition disconnectedSecurity :: ConnectionSecurityState where
  "disconnectedSecurity = \<lparr>cs_mode = Mode_disconnected, cs_tlsVersion = None, cs_certificateVerified = False\<rparr>"

definition initialConnectionControllerState :: ConnectionControllerState where
  "initialConnectionControllerState = \<lparr>cc_lifecycle = L_idle, cc_isServerConnected = False, cc_isConnecting = False,
     cc_pairingDesktopName = None, cc_security = disconnectedSecurity\<rparr>"

fun connectionControllerReducer ::
  "ConnectionControllerAction \<Rightarrow> ConnectionControllerState \<Rightarrow> ConnectionControllerState" where
  "connectionControllerReducer (A_connecting v) s =
     s\<lparr>cc_lifecycle := (if v then L_connecting else cc_lifecycle s), cc_isConnecting := v\<rparr>"
| "connectionControllerReducer (A_serverConnected v) s =
     s\<lparr>cc_lifecycle := (if v then cc_lifecycle s else L_disconnected), cc_isServerConnected := v\<rparr>"
| "connectionControllerReducer (A_pairingDesktop v) s =
     s\<lparr>cc_lifecycle := (case v of Some n \<Rightarrow> (if n \<noteq> [] then L_waitingForApproval n else cc_lifecycle s) | None \<Rightarrow> cc_lifecycle s),
       cc_pairingDesktopName := v\<rparr>"
| "connectionControllerReducer (A_security v) s = s\<lparr>cc_security := v\<rparr>"
| "connectionControllerReducer (A_connectedSecure tls verified) s =
     s\<lparr>cc_lifecycle := L_connected_https, cc_isServerConnected := True, cc_isConnecting := False, cc_pairingDesktopName := None,
       cc_security := \<lparr>cs_mode = Mode_https, cs_tlsVersion = tls, cs_certificateVerified = verified\<rparr>\<rparr>"
| "connectionControllerReducer A_connectedHttp s =
     s\<lparr>cc_lifecycle := L_connected_http, cc_isServerConnected := True, cc_isConnecting := False, cc_pairingDesktopName := None,
       cc_security := \<lparr>cs_mode = Mode_http, cs_tlsVersion = None, cs_certificateVerified = False\<rparr>\<rparr>"
| "connectionControllerReducer A_disconnected s =
     s\<lparr>cc_lifecycle := L_disconnected, cc_isServerConnected := False, cc_isConnecting := False, cc_pairingDesktopName := None,
       cc_security := disconnectedSecurity\<rparr>"

subsection \<open>State and world\<close>

text \<open>
  A stored item: missing, not parseable as JSON, or a JSON value. The device identifier and
  the credential are plain strings.
\<close>

type_synonym stored_json = "jsval option option"

record conn =
  cn_api :: ApiClient
  cn_ctl :: ConnectionControllerState
  cn_screen :: ScreenState
  cn_attempt :: bool
  cn_httpConfirmed :: bool
  cn_allowHttp :: bool
  cn_alertVisible :: bool
  cn_alerts :: "string list"
  cn_scanRequests :: nat
  cn_lastServer :: stored_json
  cn_legacyIdentity :: stored_json
  cn_deviceId :: "string option"
  cn_credential :: "string option"

datatype storage_key = K_deviceIdentity | K_deviceId | K_deviceCredential | K_lastServer | K_allowInsecureHttp

datatype storage_op = Get_item storage_key | Set_item storage_key | Remove_item storage_key

record world =
  w_net :: network
  w_configure :: "string \<Rightarrow> string \<Rightarrow> string option"
  w_security :: "http_request list \<Rightarrow> string + (string option \<times> bool)"
  w_confirm :: bool
  w_randomId :: string
  w_randomCredential :: string
  w_fails :: "storage_op \<Rightarrow> string option"

abbreviation upd_api :: "(ApiClient \<Rightarrow> ApiClient) \<Rightarrow> conn \<Rightarrow> conn" where
  "upd_api f s \<equiv> s\<lparr>cn_api := f (cn_api s)\<rparr>"

definition dispatch :: "ConnectionControllerAction \<Rightarrow> conn \<Rightarrow> conn" where
  "dispatch a s = s\<lparr>cn_ctl := connectionControllerReducer a (cn_ctl s)\<rparr>"

definition setAppState :: "ScreenState \<Rightarrow> conn \<Rightarrow> conn" where
  "setAppState scr s = s\<lparr>cn_screen := scr\<rparr>"

text \<open>\<open>useAlertGate\<close>: an alert is not shown while another one is.\<close>

definition showAlertOnce :: "string \<Rightarrow> conn \<Rightarrow> conn" where
  "showAlertOnce title s =
     (if cn_alertVisible s then s else s\<lparr>cn_alertVisible := True, cn_alerts := cn_alerts s @ [title]\<rparr>)"

definition alert_dismissed :: "conn \<Rightarrow> conn" where
  "alert_dismissed s = s\<lparr>cn_alertVisible := False\<rparr>"

definition confirmOnce :: "world \<Rightarrow> string \<Rightarrow> conn \<Rightarrow> bool \<times> conn" where
  "confirmOnce w title s =
     (if cn_alertVisible s then (False, s) else (w_confirm w, s\<lparr>cn_alerts := cn_alerts s @ [title]\<rparr>))"

definition unless_silent :: "bool \<Rightarrow> string \<Rightarrow> conn \<Rightarrow> conn" where
  "unless_silent silent title s = (if silent then s else showAlertOnce title s)"

subsection \<open>The native module\<close>

definition clearSecureConnection :: "ApiClient \<Rightarrow> ApiClient" where
  "clearSecureConnection c = c\<lparr>ac_secure := None\<rparr>"

definition configureSecureConnection :: "world \<Rightarrow> string \<Rightarrow> string \<Rightarrow> conn \<Rightarrow> string option \<times> conn" where
  "configureSecureConnection w url fingerprint s =
     (if \<not> ac_native (cn_api s) then (Some ''Pinned HTTPS requires the installed app'', s)
      else case w_configure w url fingerprint of
             Some message \<Rightarrow> (Some message, s)
           | None \<Rightarrow> (None, upd_api (\<lambda>c. c\<lparr>ac_secure := Some (url, fingerprint)\<rparr>) s))"

definition securityState :: "world \<Rightarrow> conn \<Rightarrow> string + (string option \<times> bool)" where
  "securityState w s = (if ac_native (cn_api s) then w_security w (ac_sent (cn_api s)) else Inr (None, False))"

text \<open>Forgetting the desktop: \<open>api.setConfig('', '')\<close> and \<open>clearSecureConnection()\<close>.\<close>

definition forget_desktop :: "conn \<Rightarrow> conn" where
  "forget_desktop s = upd_api clearSecureConnection (upd_api (setConfig [] []) s)"

subsection \<open>pairingTransport.ts\<close>

definition connect_url :: "string \<Rightarrow> string" where
  "connect_url ipOrUrl =
     (let url = trim ipOrUrl in if \<not> startsWith url ''http'' then ''https://'' @ url @ '':8443'' else url)"

definition effectiveAllowInsecureHttp :: "conn \<Rightarrow> bool" where
  "effectiveAllowInsecureHttp s \<longleftrightarrow> cn_allowHttp s \<or> \<not> ac_native (cn_api s)"

definition configurePairingTransport ::
  "world \<Rightarrow> string \<Rightarrow> string \<Rightarrow> PairingPayload option \<Rightarrow> bool \<Rightarrow> conn \<Rightarrow> (string \<times> bool) option \<times> conn" where
  "configurePairingTransport w ipOrUrl token pairing silent s =
     (if (case pairing of Some p \<Rightarrow> pp_environment p \<noteq> ac_expected (cn_api s) | None \<Rightarrow> False)
      then (None, unless_silent silent ''Wrong desktop environment'' s)
      else
        (let url = connect_url ipOrUrl
         in if startsWith url ''http://''
            then (if silent \<or> \<not> effectiveAllowInsecureHttp s
                  then (None, if \<not> silent \<and> \<not> effectiveAllowInsecureHttp s then showAlertOnce ''HTTP disabled'' s else s)
                  else if ac_native (cn_api s) \<and> \<not> cn_httpConfirmed s
                  then (case confirmOnce w ''Use unencrypted HTTP?'' s of
                          (True, s1) \<Rightarrow> (Some (url, True), s1)
                        | (False, s1) \<Rightarrow> (None, s1))
                  else (Some (url, True), s))
            else case pairing of
                   None \<Rightarrow> (None, unless_silent silent ''Fingerprint and token required'' s)
                 | Some p \<Rightarrow>
                     (if pp_certificateFingerprint p = [] \<or> token = []
                      then (None, unless_silent silent ''Fingerprint and token required'' s)
                      else case configureSecureConnection w url (pp_certificateFingerprint p) s of
                             (Some message, s1) \<Rightarrow> (None, unless_silent silent ''Secure connection unavailable'' s1)
                           | (None, s1) \<Rightarrow> (Some (url, cn_httpConfirmed s1), s1))))"

subsection \<open>pairingHandshake.ts\<close>

primrec await_loop ::
  "network \<Rightarrow> string \<Rightarrow> string \<Rightarrow> string \<Rightarrow> nat \<Rightarrow> PairingStatus \<Rightarrow> ApiClient \<Rightarrow> (api_error + PairingStatus) \<times> ApiClient" where
  "await_loop net url deviceId credential 0 status c = (Inr status, c)"
| "await_loop net url deviceId credential (Suc attempts) status c =
     (if status \<noteq> Pending then (Inr status, c)
      else case pairingStatus net url deviceId credential c of
             (Inl e, c1) \<Rightarrow> (Inl e, c1)
           | (Inr status', c1) \<Rightarrow> await_loop net url deviceId credential attempts status' c1)"

definition awaitPairingApproval ::
  "world \<Rightarrow> string \<Rightarrow> string \<Rightarrow> string \<Rightarrow> string \<Rightarrow> conn \<Rightarrow> (api_error + PairingStatus) \<times> conn" where
  "awaitPairingApproval w url deviceId credential desktop s =
     (case requestPairing (w_net w) url deviceId ''iPhone'' credential (cn_api s) of
        (Inl e, c) \<Rightarrow> (Inl e, s\<lparr>cn_api := c\<rparr>)
      | (Inr status, c) \<Rightarrow>
          (let s1 = s\<lparr>cn_api := c\<rparr>
           in if status \<noteq> Pending then (Inr status, s1)
              else (let s2 = dispatch (A_pairingDesktop (Some desktop)) s1;
                        (res, c2) = await_loop (w_net w) url deviceId credential 24 Pending (cn_api s2)
                    in (res, s2\<lparr>cn_api := c2\<rparr>))))"

primrec activate_loop :: "network \<Rightarrow> nat \<Rightarrow> ApiClient \<Rightarrow> bool \<times> ApiClient" where
  "activate_loop net 0 c = (False, c)"
| "activate_loop net (Suc attempts) c =
     (case pingServer net False c of (True, c1) \<Rightarrow> (True, c1) | (False, c1) \<Rightarrow> activate_loop net attempts c1)"

definition activatePairingCredential :: "world \<Rightarrow> string \<Rightarrow> string \<Rightarrow> conn \<Rightarrow> bool \<times> conn" where
  "activatePairingCredential w url credential s =
     (let (ok, c) = activate_loop (w_net w) 3 (setConfig url credential (cn_api s)) in (ok, s\<lparr>cn_api := c\<rparr>))"

subsection \<open>useTrustedConnection.ts\<close>

definition isLegacyDeviceIdentity :: "jsval \<Rightarrow> (string \<times> string) option" where
  "isLegacyDeviceIdentity v =
     (if \<not> is_object v then None
      else case (nonempty_string (prop_of v ''deviceId''), nonempty_string (prop_of v ''credential'')) of
             (Some i, Some cred) \<Rightarrow> Some (i, cred)
           | _ \<Rightarrow> None)"

text \<open>The \<open>try\<close> block of the migration; an exception is caught and leads to \<open>None\<close>.\<close>

definition migrate_identity :: "world \<Rightarrow> jsval \<Rightarrow> conn \<Rightarrow> (string \<times> string) option \<times> conn" where
  "migrate_identity w v s =
     (case isLegacyDeviceIdentity v of
        None \<Rightarrow> (None, s)
      | Some (i, cred) \<Rightarrow>
          (if w_fails w (Set_item K_deviceId) \<noteq> None then (None, s)
           else let s1 = s\<lparr>cn_deviceId := Some i\<rparr>
                in if w_fails w (Set_item K_deviceCredential) \<noteq> None then (None, s1)
                   else let s2 = s1\<lparr>cn_credential := Some cred\<rparr>
                        in if w_fails w (Remove_item K_deviceIdentity) \<noteq> None then (None, s2)
                           else (Some (i, cred), s2\<lparr>cn_legacyIdentity := None\<rparr>)))"

definition present :: "string option \<Rightarrow> string" where
  "present v = (case v of Some x \<Rightarrow> x | None \<Rightarrow> [])"

definition own_identity :: "world \<Rightarrow> conn \<Rightarrow> (string + string \<times> string) \<times> conn" where
  "own_identity w s =
     (case w_fails w (Get_item K_deviceId) of
        Some e \<Rightarrow> (Inl e, s)
      | None \<Rightarrow>
          (case w_fails w (Get_item K_deviceCredential) of
             Some e \<Rightarrow> (Inl e, s)
           | None \<Rightarrow>
               (let existingId = present (cn_deviceId s); existingCredential = present (cn_credential s)
                in if existingId \<noteq> [] \<and> existingCredential \<noteq> [] then (Inr (existingId, existingCredential), s)
                   else
                     (let i = (if existingId \<noteq> [] then existingId else w_randomId w); cred = w_randomCredential w
                      in case w_fails w (Set_item K_deviceId) of
                           Some e \<Rightarrow> (Inl e, s)
                         | None \<Rightarrow>
                             (let s1 = s\<lparr>cn_deviceId := Some i\<rparr>
                              in case w_fails w (Set_item K_deviceCredential) of
                                   Some e \<Rightarrow> (Inl e, s1)
                                 | None \<Rightarrow> (Inr (i, cred), s1\<lparr>cn_credential := Some cred\<rparr>))))))"

definition getDeviceIdentity :: "world \<Rightarrow> conn \<Rightarrow> (string + string \<times> string) \<times> conn" where
  "getDeviceIdentity w s =
     (case w_fails w (Get_item K_deviceIdentity) of
        Some e \<Rightarrow> (Inl e, s)
      | None \<Rightarrow>
          (case cn_legacyIdentity s of
             None \<Rightarrow> own_identity w s
           | Some legacy \<Rightarrow>
               (let (migrated, s1) = (case legacy of Some v \<Rightarrow> migrate_identity w v s | None \<Rightarrow> (None, s))
                in case migrated of
                     Some identity \<Rightarrow> (Inr identity, s1)
                   | None \<Rightarrow> own_identity w
                       (if w_fails w (Remove_item K_deviceIdentity) \<noteq> None then s1 else s1\<lparr>cn_legacyIdentity := None\<rparr>))))"

definition resetConnectionAttempt :: "conn \<Rightarrow> conn" where
  "resetConnectionAttempt s = dispatch (A_pairingDesktop None) (dispatch (A_connecting False) (s\<lparr>cn_attempt := False\<rparr>))"

text \<open>The \<open>try\<close> block of \<open>connectTrusted\<close>: an error message, or success.\<close>

definition trusted_attempt :: "world \<Rightarrow> SavedConnection \<Rightarrow> string \<Rightarrow> conn \<Rightarrow> string option \<times> conn" where
  "trusted_attempt w saved credential s =
     (if sc_environment saved \<noteq> ac_expected (cn_api s) 
      then (Some (''Saved trust belongs to the '' @ env_name (sc_environment saved) @ '' environment, not '' @
                  env_name (ac_expected (cn_api s)) @ ''.''), s)
      else case configureSecureConnection w (sc_httpsUrl saved) (sc_certificateFingerprint saved) s of
             (Some message, s1) \<Rightarrow> (Some message, s1)
           | (None, s1) \<Rightarrow>
               (case pingServer (w_net w) False (setConfig (sc_httpsUrl saved) credential (cn_api s1)) of
                  (False, c) \<Rightarrow>
                    (Some (if ac_failureReason c \<noteq> [] then ac_failureReason c
                           else ''The trusted desktop did not accept this device credential.''), s1\<lparr>cn_api := c\<rparr>)
                | (True, c) \<Rightarrow>
                    (let s2 = s1\<lparr>cn_api := c\<rparr>
                     in case securityState w s2 of
                          Inl message \<Rightarrow> (Some message, s2)
                        | Inr (tls, verified) \<Rightarrow>
                            (if \<not> verified then (Some ''The desktop certificate was not verified.'', s2)
                             else (None, setAppState S_home (dispatch (A_serverConnected True)
                                    (dispatch (A_security \<lparr>cs_mode = Mode_https, cs_tlsVersion = tls, cs_certificateVerified = True\<rparr>) s2)))))))"

definition connectTrusted :: "world \<Rightarrow> SavedConnection \<Rightarrow> string \<Rightarrow> bool \<Rightarrow> conn \<Rightarrow> bool \<times> conn" where
  "connectTrusted w saved credential silent s =
     (case trusted_attempt w saved credential s of
        (None, s1) \<Rightarrow> (True, s1)
      | (Some message, s1) \<Rightarrow>
          (False, unless_silent silent ''Could not reconnect''
             (resetConnectionAttempt
               (dispatch (A_security disconnectedSecurity) (dispatch (A_pairingDesktop None)
                 (dispatch (A_connecting False) (dispatch (A_serverConnected False) (forget_desktop s1))))))))"

subsection \<open>usePairingController.ts\<close>

definition parseSavedConnection :: "stored_json \<Rightarrow> SavedConnection option" where
  "parseSavedConnection stored =
     (case stored of
        Some (Some v) \<Rightarrow>
          (let httpUrl = prop_of v ''httpUrl''; name = prop_of v ''name''
           in case (parse_environment (prop_of v ''environment''), nonempty_string (prop_of v ''serverId''),
                    as_string (prop_of v ''httpsUrl''), as_string (prop_of v ''certificateFingerprint'')) of
                (Some env, Some server, Some httpsUrl, Some fingerprint) \<Rightarrow>
                  (if prop_of v ''version'' = JNum (Fin 3) \<and> startsWith httpsUrl ''https://'' \<and>
                      length (normalizeFingerprint fingerprint) = 64 \<and>
                      (httpUrl = JUndefined \<or> (case as_string httpUrl of Some u \<Rightarrow> startsWith u ''http://'' | None \<Rightarrow> False)) \<and>
                      (name = JUndefined \<or> as_string name \<noteq> None)
                   then Some \<lparr>sc_environment = env, sc_serverId = server, sc_httpsUrl = httpsUrl,
                              sc_httpUrl = as_string httpUrl, sc_certificateFingerprint = fingerprint, sc_name = as_string name\<rparr>
                   else None)
              | _ \<Rightarrow> None)
      | _ \<Rightarrow> None)"

text \<open>\<open>JSON.stringify\<close> of a saved connection leaves out the members that are \<open>undefined\<close>.\<close>

definition saved_json :: "SavedConnection \<Rightarrow> jsval" where
  "saved_json saved =
     JObj ([(''version'', JNum (Fin 3)), (''environment'', JStr (env_name (sc_environment saved))),
            (''serverId'', JStr (sc_serverId saved)), (''httpsUrl'', JStr (sc_httpsUrl saved))] @
           (case sc_httpUrl saved of Some u \<Rightarrow> [(''httpUrl'', JStr u)] | None \<Rightarrow> []) @
           [(''certificateFingerprint'', JStr (sc_certificateFingerprint saved))] @
           (case sc_name saved of Some n \<Rightarrow> [(''name'', JStr n)] | None \<Rightarrow> []))"

definition openQrScanner :: "conn \<Rightarrow> conn" where
  "openQrScanner s =
     (let s1 = dispatch (A_pairingDesktop None) (dispatch (A_connecting False) (setAppState S_connect (s\<lparr>cn_attempt := False\<rparr>)))
      in s1\<lparr>cn_scanRequests := cn_scanRequests s1 + 1\<rparr>)"

text \<open>A failed connection: the diagnostic event, if any, leaves before the desktop is forgotten.\<close>

definition connection_failed :: "world \<Rightarrow> bool \<Rightarrow> bool \<Rightarrow> string \<Rightarrow> conn \<Rightarrow> conn" where
  "connection_failed w logs silent title s =
     (let s1 = (if logs then upd_api (logClientEvent (w_net w) ''WARN'' ''ios_https_pairing_failed'') s else s)
      in unless_silent silent title (dispatch A_disconnected (forget_desktop s1)))"

definition saved_pairing :: "string \<Rightarrow> PairingPayload \<Rightarrow> SavedConnection" where
  "saved_pairing url p =
     \<lparr>sc_environment = pp_environment p, sc_serverId = pp_serverId p, sc_httpsUrl = url, sc_httpUrl = pp_httpUrl p,
      sc_certificateFingerprint = normalizeFingerprint (pp_certificateFingerprint p), sc_name = Some (pp_name p)\<rparr>"

text \<open>The part after the activation of the credential: an error message, or success.\<close>

definition mark_connected :: "world \<Rightarrow> string \<Rightarrow> PairingPayload option \<Rightarrow> conn \<Rightarrow> string option \<times> conn" where
  "mark_connected w url pairing s =
     (case pairing of
        Some p \<Rightarrow>
          (if startsWith url ''https://''
           then case w_fails w (Set_item K_lastServer) of
                  Some message \<Rightarrow> (Some message, s)
                | None \<Rightarrow>
                    (let s1 = s\<lparr>cn_lastServer := Some (Some (saved_json (saved_pairing url p)))\<rparr>
                     in case securityState w s1 of
                          Inl message \<Rightarrow> (Some message, s1)
                        | Inr (tls, verified) \<Rightarrow> (None, dispatch (A_connectedSecure tls verified) s1))
           else (None, dispatch A_connectedHttp s))
      | None \<Rightarrow> (None, dispatch A_connectedHttp s))"

definition connect_ends :: "world \<Rightarrow> bool \<Rightarrow> string option \<times> conn \<Rightarrow> bool \<times> conn" where
  "connect_ends w silent = (\<lambda>(failure, s). (case failure of
     None \<Rightarrow> (True, setAppState S_home s)
   | Some message \<Rightarrow> (False, connection_failed w False silent ''Connection Failed'' s)))"

definition pair_device :: "world \<Rightarrow> string \<Rightarrow> PairingPayload option \<Rightarrow> bool \<Rightarrow> conn \<Rightarrow> bool \<times> conn" where
  "pair_device w url pairing silent s =
     (case getDeviceIdentity w s of
        (Inl message, s1) \<Rightarrow> (False, connection_failed w False silent ''Connection Failed'' s1)
      | (Inr (deviceId, credential), s1) \<Rightarrow>
          (let name = (case pairing of Some p \<Rightarrow> (if pp_name p \<noteq> [] then pp_name p else ''the desktop'') | None \<Rightarrow> ''the desktop'')
           in case awaitPairingApproval w url deviceId credential name s1 of
                (Inl e, s2) \<Rightarrow> (False, connection_failed w False silent ''Connection Failed'' s2)
              | (Inr status, s2) \<Rightarrow>
                  (if status \<noteq> Approved then (False, connection_failed w True silent ''Connection not approved'' s2)
                   else case activatePairingCredential w url credential s2 of
                          (False, s3) \<Rightarrow> (False, connection_failed w True silent ''Pairing Verification Failed'' s3)
                        | (True, s3) \<Rightarrow> connect_ends w silent (mark_connected w url pairing s3))))"

text \<open>The attempt once the client is configured with the address and the token.\<close>

definition connect_attempt :: "world \<Rightarrow> string \<Rightarrow> string \<Rightarrow> PairingPayload option \<Rightarrow> bool \<Rightarrow> conn \<Rightarrow> bool \<times> conn" where
  "connect_attempt w url token pairing silent s =
     (case pingServer (w_net w) False (cn_api s) of
        (False, c) \<Rightarrow> (False, connection_failed w True silent ''Connection Failed'' (s\<lparr>cn_api := c\<rparr>))
      | (True, c) \<Rightarrow>
          (if startsWith url ''https://'' \<and> pairing \<noteq> None \<or> startsWith token ''pair-''
           then pair_device w url pairing silent (s\<lparr>cn_api := c\<rparr>)
           else (True, setAppState S_home (dispatch A_connectedHttp (s\<lparr>cn_api := c\<rparr>)))))"

definition connect_body :: "world \<Rightarrow> string \<Rightarrow> string \<Rightarrow> PairingPayload option \<Rightarrow> bool \<Rightarrow> conn \<Rightarrow> bool \<times> conn" where
  "connect_body w ipOrUrl token pairing silent s =
     (case configurePairingTransport w ipOrUrl token pairing silent s of
        (None, s1) \<Rightarrow> (False, s1)
      | (Some (url, confirmed), s1) \<Rightarrow>
          connect_attempt w url token pairing silent (upd_api (setConfig url token) (s1\<lparr>cn_httpConfirmed := confirmed\<rparr>)))"

definition handleConnect :: "world \<Rightarrow> string \<Rightarrow> string \<Rightarrow> PairingPayload option \<Rightarrow> bool \<Rightarrow> conn \<Rightarrow> bool \<times> conn" where
  "handleConnect w ipOrUrl token pairing silent s =
     (if cn_attempt s then (False, s)
      else case connect_body w ipOrUrl token pairing silent (dispatch (A_connecting True) (s\<lparr>cn_attempt := True\<rparr>)) of
             (ok, s1) \<Rightarrow> (ok, dispatch (A_pairingDesktop None) (dispatch (A_connecting False) (s1\<lparr>cn_attempt := False\<rparr>))))"

text \<open>The saved trust matches a discovered desktop.\<close>

definition trust_matches :: "IosClientEnvironment \<Rightarrow> SavedConnection \<Rightarrow> DiscoveredServer \<Rightarrow> bool" where
  "trust_matches expected saved server \<longleftrightarrow>
     sc_environment saved = ds_environment server \<and> ds_environment server = expected \<and>
     sc_serverId saved = ds_serverId server \<and>
     normalizeFingerprint (sc_certificateFingerprint saved) = normalizeFingerprint (ds_certificateFingerprint server)"

definition discovered_url :: "DiscoveredServer \<Rightarrow> string" where
  "discovered_url server = ''https://'' @ ds_address server @ '':'' @ show_nat (ds_httpsPort server)"

text \<open>The \<open>try\<close> block of \<open>handleDiscoveredServer\<close>: \<open>True\<close> if it ended without an exception.\<close>

definition discovered_body :: "world \<Rightarrow> DiscoveredServer \<Rightarrow> conn \<Rightarrow> bool \<times> conn" where
  "discovered_body w server s =
     (if w_fails w (Get_item K_lastServer) \<noteq> None then (False, s)
      else
        (let stored = cn_lastServer s; saved = parseSavedConnection stored;
             s1 = (if stored \<noteq> None \<and> saved = None \<and> w_fails w (Remove_item K_lastServer) = None
                   then s\<lparr>cn_lastServer := None\<rparr> else s)
         in case saved of
              None \<Rightarrow> (True, showAlertOnce ''Scan QR to trust this desktop'' s1)
            | Some known \<Rightarrow>
                (if \<not> trust_matches (ac_expected (cn_api s1)) known server
                 then (True, showAlertOnce ''Scan QR to trust this desktop'' s1)
                 else if w_fails w (Get_item K_deviceCredential) \<noteq> None then (False, s1)
                 else if present (cn_credential s1) = []
                 then (if w_fails w (Remove_item K_lastServer) \<noteq> None then (False, s1)
                       else (True, showAlertOnce ''Pairing required'' (s1\<lparr>cn_lastServer := None\<rparr>)))
                 else
                   (let refreshed = known\<lparr>sc_httpsUrl := discovered_url server\<rparr>
                    in case connectTrusted w refreshed (present (cn_credential s1)) False s1 of
                         (True, s2) \<Rightarrow>
                           (if w_fails w (Set_item K_lastServer) \<noteq> None then (False, s2)
                            else (True, s2\<lparr>cn_lastServer := Some (Some (saved_json refreshed))\<rparr>))
                       | (False, s2) \<Rightarrow> (True, s2)))))"

definition handleDiscoveredServer :: "world \<Rightarrow> DiscoveredServer \<Rightarrow> conn \<Rightarrow> conn" where
  "handleDiscoveredServer w server s =
     (if cn_attempt s then s
      else case discovered_body w server (dispatch (A_connecting True) (s\<lparr>cn_attempt := True\<rparr>)) of
             (ok, s1) \<Rightarrow>
               dispatch (A_connecting False)
                 ((if ok then s1 else showAlertOnce ''Could not use nearby discovery'' s1)\<lparr>cn_attempt := False\<rparr>))"

definition persistAllowInsecureHttp :: "world \<Rightarrow> bool \<Rightarrow> conn \<Rightarrow> conn" where
  "persistAllowInsecureHttp w enabled s =
     (let s1 = s\<lparr>cn_allowHttp := enabled\<rparr>
      in if w_fails w (Set_item K_allowInsecureHttp) \<noteq> None then showAlertOnce ''Setting not saved'' s1 else s1)"

text \<open>The mode of the connection is the one of the render in which the handler was made.\<close>

definition updateAllowInsecureHttp :: "world \<Rightarrow> bool \<Rightarrow> conn \<Rightarrow> conn" where
  "updateAllowInsecureHttp w enabled s =
     (if \<not> ac_native (cn_api s) then showAlertOnce ''Expo Go uses HTTP'' s
      else
        (let (confirmed, s1) = (if enabled then confirmOnce w ''Allow unencrypted HTTP?'' s else (True, s))
         in if \<not> confirmed then s1
            else
              (let s2 = persistAllowInsecureHttp w enabled (if enabled then s1 else s1\<lparr>cn_httpConfirmed := False\<rparr>)
               in if \<not> enabled \<and> cs_mode (cc_security (cn_ctl s)) = Mode_http
                  then showAlertOnce ''HTTP connection closed''
                         (setAppState S_connect (dispatch A_disconnected (forget_desktop s2)))
                  else s2)))"

subsection \<open>AppShell.tsx\<close>

definition authentication_failed :: "world \<Rightarrow> conn \<Rightarrow> conn" where
  "authentication_failed w s =
     (let s1 = dispatch A_disconnected (forget_desktop s);
          s2 = (if w_fails w (Remove_item K_lastServer) \<noteq> None then s1 else s1\<lparr>cn_lastServer := None\<rparr>)
      in setAppState S_connect (s2\<lparr>cn_scanRequests := 0\<rparr>))"

definition handleTrustedReconnect :: "world \<Rightarrow> SavedConnection option \<Rightarrow> conn \<Rightarrow> conn" where
  "handleTrustedReconnect w savedReceiver s =
     (case savedReceiver of
        None \<Rightarrow> s
      | Some saved \<Rightarrow>
          (if cn_attempt s then s
           else
             (let credential = (if w_fails w (Get_item K_deviceCredential) \<noteq> None then [] else present (cn_credential s))
              in if credential = [] then showAlertOnce ''Pairing required'' s
                 else
                   (let s1 = snd (connectTrusted w saved credential False (dispatch (A_connecting True) (s\<lparr>cn_attempt := True\<rparr>)))
                    in dispatch (A_connecting False) (s1\<lparr>cn_attempt := False\<rparr>)))))"

definition handleDisconnect :: "conn \<Rightarrow> conn" where
  "handleDisconnect s =
     (let s1 = (forget_desktop s)\<lparr>cn_httpConfirmed := False\<rparr>
      in setAppState S_connect ((dispatch A_disconnected s1)\<lparr>cn_scanRequests := 0\<rparr>))"

subsection \<open>Lemmas: frames\<close>

lemma dispatch_frame [simp]:
  "cn_api (dispatch a s) = cn_api s" "cn_httpConfirmed (dispatch a s) = cn_httpConfirmed s"
  "cn_allowHttp (dispatch a s) = cn_allowHttp s" "cn_lastServer (dispatch a s) = cn_lastServer s"
  "cn_attempt (dispatch a s) = cn_attempt s" "cn_screen (dispatch a s) = cn_screen s"
  "cn_ctl (dispatch a s) = connectionControllerReducer a (cn_ctl s)" "cn_credential (dispatch a s) = cn_credential s"
  "cn_alertVisible (dispatch a s) = cn_alertVisible s"
  by (simp_all add: dispatch_def)

lemma alert_frame [simp]:
  "cn_api (showAlertOnce m s) = cn_api s" "cn_httpConfirmed (showAlertOnce m s) = cn_httpConfirmed s"
  "cn_allowHttp (showAlertOnce m s) = cn_allowHttp s" "cn_lastServer (showAlertOnce m s) = cn_lastServer s"
  "cn_attempt (showAlertOnce m s) = cn_attempt s" "cn_ctl (showAlertOnce m s) = cn_ctl s"
  "cn_screen (showAlertOnce m s) = cn_screen s" "cn_credential (showAlertOnce m s) = cn_credential s"
  by (simp_all add: showAlertOnce_def)

lemma silent_frame [simp]:
  "cn_api (unless_silent b m s) = cn_api s" "cn_httpConfirmed (unless_silent b m s) = cn_httpConfirmed s"
  "cn_allowHttp (unless_silent b m s) = cn_allowHttp s" "cn_ctl (unless_silent b m s) = cn_ctl s"
  "cn_lastServer (unless_silent b m s) = cn_lastServer s"
  by (simp_all add: unless_silent_def)

lemma screen_frame [simp]:
  "cn_api (setAppState scr s) = cn_api s" "cn_ctl (setAppState scr s) = cn_ctl s"
  "cn_lastServer (setAppState scr s) = cn_lastServer s" "cn_httpConfirmed (setAppState scr s) = cn_httpConfirmed s"
  "cn_allowHttp (setAppState scr s) = cn_allowHttp s"
  by (simp_all add: setAppState_def)

lemma forget_frame [simp]:
  "ac_sent (cn_api (forget_desktop s)) = ac_sent (cn_api s)" "ac_serverUrl (cn_api (forget_desktop s)) = []"
  "ac_token (cn_api (forget_desktop s)) = []" "ac_secure (cn_api (forget_desktop s)) = None"
  "cn_ctl (forget_desktop s) = cn_ctl s" "cn_httpConfirmed (forget_desktop s) = cn_httpConfirmed s"
  "cn_allowHttp (forget_desktop s) = cn_allowHttp s"
  by (simp_all add: forget_desktop_def setConfig_def clearSecureConnection_def without_slash_def endsWith_def)

lemma identity_frame:
  assumes "getDeviceIdentity w s = (res, s')"
  shows "cn_api s' = cn_api s \<and> cn_ctl s' = cn_ctl s \<and> cn_httpConfirmed s' = cn_httpConfirmed s"
proof -
  have own: "own_identity w t = (res, t') \<Longrightarrow> cn_api t' = cn_api t \<and> cn_ctl t' = cn_ctl t \<and> cn_httpConfirmed t' = cn_httpConfirmed t" for t t' res
    by (auto simp: own_identity_def Let_def split: option.splits if_splits)
  have mig: "migrate_identity w v t = (r, t') \<Longrightarrow> cn_api t' = cn_api t \<and> cn_ctl t' = cn_ctl t \<and> cn_httpConfirmed t' = cn_httpConfirmed t" for v t t' r
    by (auto simp: migrate_identity_def Let_def split: option.splits if_splits)
  show ?thesis using assms
    by (auto simp: getDeviceIdentity_def Let_def split: option.splits if_splits prod.splits dest!: own mig)
qed

subsection \<open>Lemmas: where the requests of a connection go\<close>

definition at_target :: "string \<Rightarrow> (string \<times> string) option \<Rightarrow> ApiClient \<Rightarrow> bool" where
  "at_target url pin c \<longleftrightarrow> ac_serverUrl c = without_slash url \<and> ac_secure c = pin"

definition reaches :: "string \<Rightarrow> (string \<times> string) option \<Rightarrow> http_request \<Rightarrow> bool" where
  "reaches url pin r \<longleftrightarrow> leaves pin url r \<or> leaves pin (without_slash url) r"

abbreviation stays :: "string \<Rightarrow> (string \<times> string) option \<Rightarrow> ApiClient \<Rightarrow> ApiClient \<Rightarrow> bool" where
  "stays url pin c d \<equiv> same_target c d \<and> sends (reaches url pin) c d"

lemma stays_trans: "stays url pin c d \<Longrightarrow> stays url pin d e \<Longrightarrow> stays url pin c e"
  using same_target_trans sends_trans by blast

lemma stays_at: "at_target url pin c \<Longrightarrow> same_target c d \<Longrightarrow> at_target url pin d"
  by (simp add: at_target_def same_target_def)

lemma stays_ping: "pingServer net n c = (ok, d) \<Longrightarrow> at_target url pin c \<Longrightarrow> stays url pin c d"
  using ping_frame [of net n c ok d] by (auto simp: at_target_def reaches_def elim: sends_mono)

lemma stays_pairing:
  "requestPairing net url i n cred c = (res, d) \<or> pairingStatus net url i cred c = (res, d) \<Longrightarrow> at_target url pin c \<Longrightarrow> stays url pin c d"
  using pairing_frame [of net url i n cred c res d] by (auto simp: at_target_def reaches_def elim: sends_mono)

lemma stays_log: "at_target url pin c \<Longrightarrow> stays url pin c (logClientEvent net level event c)"
  using log_frame [of c net level event] by (auto simp: at_target_def reaches_def elim: sends_mono)

lemma stays_await:
  "await_loop net url i cred k st c = (res, d) \<Longrightarrow> at_target url pin c \<Longrightarrow> stays url pin c d"
proof (induction k arbitrary: st c)
  case (Suc k)
  show ?case
  proof (cases "st = Pending")
    case True
    obtain r c1 where p: "pairingStatus net url i cred c = (r, c1)" by fastforce
    have s1: "stays url pin c c1" by (rule stays_pairing [OF disjI2 [OF p] Suc.prems(2)])
    then have a1: "at_target url pin c1" using stays_at [OF Suc.prems(2)] by blast
    show ?thesis
    proof (cases r)
      case (Inl e)
      then have "d = c1" using Suc.prems(1) True p by simp
      then show ?thesis using s1 by blast
    next
      case (Inr st1)
      then have "await_loop net url i cred k st1 c1 = (res, d)" using Suc.prems(1) True p by simp
      then show ?thesis by (rule stays_trans [OF s1 Suc.IH [OF _ a1]])
    qed
  qed (use Suc.prems in simp)
qed simp

lemma stays_activate: "activate_loop net k c = (ok, d) \<Longrightarrow> at_target url pin c \<Longrightarrow> stays url pin c d"
proof (induction k arbitrary: c)
  case (Suc k)
  obtain b c1 where p: "pingServer net False c = (b, c1)" by fastforce
  have s1: "stays url pin c c1" by (rule stays_ping [OF p Suc.prems(2)])
  then have a1: "at_target url pin c1" using stays_at [OF Suc.prems(2)] by blast
  show ?case
  proof (cases b)
    case True
    then have "d = c1" using Suc.prems(1) p by simp
    then show ?thesis using s1 by blast
  next
    case False
    then have "activate_loop net k c1 = (ok, d)" using Suc.prems(1) p by simp
    then show ?thesis by (rule stays_trans [OF s1 Suc.IH [OF _ a1]])
  qed
qed simp

lemma stays_approval:
  assumes "awaitPairingApproval w url i cred n s = (res, s')" and at: "at_target url pin (cn_api s)"
  shows "stays url pin (cn_api s) (cn_api s')"
proof -
  obtain r c where p: "requestPairing (w_net w) url i ''iPhone'' cred (cn_api s) = (r, c)" by fastforce
  have s1: "stays url pin (cn_api s) c" by (rule stays_pairing [OF disjI1 [OF p] at])
  then have a1: "at_target url pin c" using stays_at [OF at] by blast
  obtain res2 c2 where l: "await_loop (w_net w) url i cred 24 Pending c = (res2, c2)" by fastforce
  have "cn_api s' = c \<or> cn_api s' = c2"
    using assms(1) p l by (auto simp: awaitPairingApproval_def Let_def split: sum.splits if_splits)
  then show ?thesis using s1 stays_trans [OF s1 stays_await [OF l a1]] by auto
qed

text \<open>A failed connection forgets the desktop.\<close>

lemma failed_forgets:
  "ac_serverUrl (cn_api (connection_failed w l b m s)) = []" "ac_token (cn_api (connection_failed w l b m s)) = []"
  "ac_secure (cn_api (connection_failed w l b m s)) = None"
  "cn_ctl (connection_failed w l b m s) = connectionControllerReducer A_disconnected (cn_ctl s)"
  by (simp_all add: connection_failed_def Let_def)

lemma failed_sends:
  "at_target url pin (cn_api s) \<Longrightarrow> sends (reaches url pin) (cn_api s) (cn_api (connection_failed w l b m s))"
  using stays_log [of url pin "cn_api s" "w_net w"] by (simp add: connection_failed_def Let_def sends_def)

lemma mark_connected_frame: "mark_connected w url pairing s = (r, s') \<Longrightarrow> cn_api s' = cn_api s"
  by (auto simp: mark_connected_def Let_def split: option.splits if_splits sum.splits prod.splits)

lemma ends_sends:
  assumes "mark_connected w url pairing s = m" and "at_target url pin (cn_api s)"
  shows "sends (reaches url pin) (cn_api s) (cn_api (snd (connect_ends w silent m)))"
proof -
  obtain r t where m: "m = (r, t)" by fastforce
  then have t: "cn_api t = cn_api s" using assms(1) mark_connected_frame by blast
  then show ?thesis using failed_sends [of url pin t w False silent] assms(2) m
    by (cases r) (simp_all add: connect_ends_def)
qed

lemma pair_device_sends:
  assumes "pair_device w url pairing silent s = (ok, s')" and at: "at_target url pin (cn_api s)"
  shows "sends (reaches url pin) (cn_api s) (cn_api s')"
proof -
  let ?f = "connection_failed w"
  obtain idn s1 where i: "getDeviceIdentity w s = (idn, s1)" by fastforce
  then have a1: "cn_api s1 = cn_api s" using identity_frame by blast
  show ?thesis
  proof (cases idn)
    case (Inl e)
    then show ?thesis using assms(1) i a1 failed_sends [of url pin s1] at by (auto simp: pair_device_def)
  next
    case (Inr ic)
    obtain dev cred where ic: "ic = (dev, cred)" by fastforce
    define name where "name = (case pairing of Some p \<Rightarrow> (if pp_name p \<noteq> [] then pp_name p else ''the desktop'') | None \<Rightarrow> ''the desktop'')"
    obtain st s2 where ap: "awaitPairingApproval w url dev cred name s1 = (st, s2)" by fastforce
    have s12: "stays url pin (cn_api s) (cn_api s2)" using stays_approval [OF ap, of pin] at a1 by simp
    then have at2: "at_target url pin (cn_api s2)" using stays_at [OF at] by blast
    obtain act s3 where ac: "activatePairingCredential w url cred s2 = (act, s3)" by fastforce
    obtain b c where al: "activate_loop (w_net w) 3 (setConfig url cred (cn_api s2)) = (b, c)" by fastforce
    have c3: "cn_api s3 = c" "act = b" using ac al by (auto simp: activatePairingCredential_def)
    have "at_target url pin (setConfig url cred (cn_api s2))" using at2 by (simp add: at_target_def setConfig_def)
    then have s3: "stays url pin (setConfig url cred (cn_api s2)) (cn_api s3)" and at3: "at_target url pin (cn_api s3)"
      using stays_activate [OF al] stays_at c3 by auto
    have s23: "sends (reaches url pin) (cn_api s2) (cn_api s3)" using s3 by (simp add: sends_def setConfig_def)
    have "s' \<in> {?f False silent ''Connection Failed'' s2, ?f True silent ''Connection not approved'' s2,
        ?f True silent ''Pairing Verification Failed'' s3, snd (connect_ends w silent (mark_connected w url pairing s3))}"
      using assms(1) i Inr ic ap ac by (auto simp: pair_device_def name_def [symmetric] Let_def split: sum.splits if_splits bool.splits)
    then consider l m where "s' = ?f l silent m s2" | l m where "s' = ?f l silent m s3"
      | "s' = snd (connect_ends w silent (mark_connected w url pairing s3))" by blast
    then show ?thesis
    proof cases
      case 1
      then show ?thesis using sends_trans [OF conjunct2 [OF s12] failed_sends [OF at2]] by simp
    next
      case 2
      then show ?thesis using sends_trans [OF sends_trans [OF conjunct2 [OF s12] s23] failed_sends [OF at3]] by simp
    next
      case 3
      then show ?thesis using sends_trans [OF sends_trans [OF conjunct2 [OF s12] s23] ends_sends [OF refl at3]] by simp
    qed
  qed
qed

end
