(* ===== verification/PairingProperties.thy ===== *)
theory PairingProperties
  imports Pairing
begin

text \<open>
  The properties of pairing and trusted reconnection: where the requests of a connection
  attempt go and under which protection, what a successful pairing has established, and
  the invariant of the connection over all handlers.
\<close>

subsection \<open>Lemmas: addresses\<close>

lemma startsWith_append: "startsWith a p \<Longrightarrow> startsWith (a @ b) p"
  unfolding startsWith_def by (metis append_is_Nil_conv append_take_drop_id diff_is_0_eq length_append length_take
      min.absorb_iff2 nat_le_linear take_all take_append take_eq_Nil)

lemma startsWith_decomp: "startsWith a p \<longleftrightarrow> (\<exists>rest. a = p @ rest)"
  unfolding startsWith_def by (metis append_eq_conv_conj append_take_drop_id)

lemma startsWith_self [simp]: "startsWith (p @ rest) p"
  by (auto simp: startsWith_decomp)

lemma without_slash_cases: "without_slash url = url \<or> url = without_slash url @ ''/''"
proof (cases "endsWith url ''/''")
  case True
  then have "url \<noteq> []" "last url = CHR ''/''"
    by (auto simp: endsWith_def drop_Suc last_conv_nth) (metis One_nat_def last_drop last_ConsL diff_less le_zero_eq length_0_conv lessI zero_less_iff_neq_zero)+
  then show ?thesis using True append_butlast_last_id [of url] by (simp add: without_slash_def)
qed (simp add: without_slash_def)

lemma https_append: "is_https a \<Longrightarrow> is_https (a @ b)"
  by (simp add: is_https_def toLowerCase_def startsWith_append)

lemma https_path: "is_https url \<Longrightarrow> is_https (without_slash url @ ''/'' @ path)"
  using without_slash_cases [of url] https_append [of url] by (metis append.assoc)

lemma http_not_https: "\<not> is_https (''http:'' @ rest)"
  by (simp add: is_https_def toLowerCase_def startsWith_def lower_char_def)

lemma http_path:
  assumes "startsWith url ''http://''" and "reaches url pin r"
  shows "\<not> is_https (rq_url r)"
proof -
  obtain rest where url: "url = ''http:'' @ ''//'' @ rest" using assms(1) by (auto simp: startsWith_decomp)
  have "\<exists>u. without_slash url = ''http:'' @ u"
    using without_slash_cases [of url] by (auto simp: url without_slash_def)
  then show ?thesis using assms(2) http_not_https unfolding reaches_def leaves_def url by (metis append.assoc)
qed

lemma https_reaches: "is_https url \<Longrightarrow> reaches url pin r \<Longrightarrow> rq_pin r = Some pin"
  using https_path [of url] https_append [of url] by (auto simp: reaches_def leaves_def)

subsection \<open>Lemmas: the transport\<close>

definition http_consent :: "world \<Rightarrow> bool \<Rightarrow> conn \<Rightarrow> bool" where
  "http_consent w silent s \<longleftrightarrow>
     \<not> silent \<and> effectiveAllowInsecureHttp s \<and> (ac_native (cn_api s) \<longrightarrow> cn_httpConfirmed s \<or> w_confirm w)"

definition pinned_target :: "string \<Rightarrow> PairingPayload option \<Rightarrow> conn \<Rightarrow> PairingPayload \<Rightarrow> bool" where
  "pinned_target token pairing s p \<longleftrightarrow>
     pairing = Some p \<and> pp_environment p = ac_expected (cn_api s) \<and> pp_certificateFingerprint p \<noteq> [] \<and> token \<noteq> [] \<and>
     ac_native (cn_api s)"

lemma confirm_frame:
  "confirmOnce w m s = (b, s1) \<Longrightarrow> cn_api s1 = cn_api s \<and> cn_ctl s1 = cn_ctl s \<and> cn_allowHttp s1 = cn_allowHttp s \<and>
     cn_httpConfirmed s1 = cn_httpConfirmed s \<and> cn_lastServer s1 = cn_lastServer s \<and> (b \<longrightarrow> w_confirm w)"
  by (auto simp: confirmOnce_def split: if_splits)

abbreviation transport_frame :: "conn \<Rightarrow> conn \<Rightarrow> bool" where
  "transport_frame s s1 \<equiv> cn_ctl s1 = cn_ctl s \<and> cn_allowHttp s1 = cn_allowHttp s \<and> cn_httpConfirmed s1 = cn_httpConfirmed s \<and>
     cn_lastServer s1 = cn_lastServer s"

lemma transport_outcome:
  assumes "configurePairingTransport w ip token pairing silent s = (res, s1)"
  shows "transport_frame s s1 \<and>
    (res = None \<and> cn_api s1 = cn_api s \<or>
     res = Some (connect_url ip, True) \<and> startsWith (connect_url ip) ''http://'' \<and> http_consent w silent s \<and> cn_api s1 = cn_api s \<or>
     (\<exists>p. res = Some (connect_url ip, cn_httpConfirmed s) \<and> \<not> startsWith (connect_url ip) ''http://'' \<and>
          pinned_target token pairing s p \<and>
          cn_api s1 = (cn_api s)\<lparr>ac_secure := Some (connect_url ip, pp_certificateFingerprint p)\<rparr>))"
  using assms unfolding configurePairingTransport_def Let_def
  by (auto simp: http_consent_def pinned_target_def configureSecureConnection_def
      split: if_splits option.splits prod.splits bool.splits dest: confirm_frame)

subsection \<open>Lemmas: a connection attempt\<close>

text \<open>The protection under which a request of a connection attempt may leave the device.\<close>

definition protected_request :: "world \<Rightarrow> string \<Rightarrow> string \<Rightarrow> PairingPayload option \<Rightarrow> bool \<Rightarrow> conn \<Rightarrow> http_request \<Rightarrow> bool" where
  "protected_request w ip token pairing silent s r \<longleftrightarrow>
     (\<exists>path. rq_url r \<in> {connect_url ip @ ''/'' @ path, without_slash (connect_url ip) @ ''/'' @ path}) \<and>
     (case rq_pin r of
        Some pin \<Rightarrow> (\<exists>p. pinned_target token pairing s p \<and> pin = Some (connect_url ip, pp_certificateFingerprint p))
      | None \<Rightarrow> \<not> startsWith (connect_url ip) ''https://'' \<and>
                (startsWith (connect_url ip) ''http://'' \<longrightarrow> http_consent w silent s))"

lemma https_is_https: "startsWith url ''https://'' \<Longrightarrow> is_https url"
  by (auto simp: startsWith_decomp is_https_def toLowerCase_def startsWith_def lower_char_def)

lemma pinned_protected:
  assumes "pinned_target token pairing s p" and "\<not> startsWith (connect_url ip) ''http://''"
    and "reaches (connect_url ip) (Some (connect_url ip, pp_certificateFingerprint p)) r"
  shows "protected_request w ip token pairing silent s r"
  using assms https_reaches [OF https_is_https assms(3)]
  by (cases "is_https (rq_url r)") (auto simp: protected_request_def reaches_def leaves_def)

lemma http_protected:
  assumes "http_consent w silent s" and "startsWith (connect_url ip) ''http://''" and "reaches (connect_url ip) pin r"
  shows "protected_request w ip token pairing silent s r"
proof -
  have "\<not> startsWith (connect_url ip) ''https://''" using assms(2) by (auto simp: startsWith_decomp)
  moreover have "rq_pin r = None" using http_path [OF assms(2,3)] assms(3) by (auto simp: reaches_def leaves_def)
  ultimately show ?thesis using assms by (auto simp: protected_request_def reaches_def leaves_def)
qed

lemma attempt_sends:
  assumes at: "at_target url pin (cn_api s)"
    and "connect_attempt w url token pairing silent s = (ok, s')"
  shows "sends (reaches url pin) (cn_api s) (cn_api s')"
proof -
  obtain b c where p: "pingServer (w_net w) False (cn_api s) = (b, c)" by fastforce
  have st: "stays url pin (cn_api s) c" by (rule stays_ping [OF p at])
  then have at1: "at_target url pin (cn_api (s\<lparr>cn_api := c\<rparr>))" using stays_at [OF at] by simp
  have "sends (reaches url pin) c (cn_api s')"
  proof (cases b)
    case False
    then show ?thesis using assms(2) p failed_sends [OF at1] by (auto simp: connect_attempt_def)
  next
    case True
    then show ?thesis using assms(2) p pair_device_sends [OF _ at1] by (auto simp: connect_attempt_def split: if_splits)
  qed
  then show ?thesis using st sends_trans by blast
qed

lemma connect_body_sends:
  assumes "connect_body w ip token pairing silent s = (ok, s')"
  shows "sends (protected_request w ip token pairing silent s) (cn_api s) (cn_api s')"
proof -
  obtain res s1 where t: "configurePairingTransport w ip token pairing silent s = (res, s1)" by fastforce
  let ?url = "connect_url ip"
  have go: "sends (reaches ?url (ac_secure (cn_api s1))) (cn_api s1) (cn_api s')" if "res = Some (?url, conf)" for conf
  proof -
    let ?s2 = "upd_api (setConfig ?url token) (s1\<lparr>cn_httpConfirmed := conf\<rparr>)"
    have "at_target ?url (ac_secure (cn_api s1)) (cn_api ?s2)" by (simp add: at_target_def setConfig_def)
    then have "sends (reaches ?url (ac_secure (cn_api s1))) (cn_api ?s2) (cn_api s')"
      by (rule attempt_sends) (use assms t that in \<open>simp add: connect_body_def\<close>)
    then show ?thesis by (simp add: sends_def setConfig_def)
  qed
  from transport_outcome [OF t] consider "res = None" "cn_api s1 = cn_api s"
    | "res = Some (?url, True)" "startsWith ?url ''http://''" "http_consent w silent s" "cn_api s1 = cn_api s"
    | p where "res = Some (?url, cn_httpConfirmed s)" "\<not> startsWith ?url ''http://''" "pinned_target token pairing s p"
        "cn_api s1 = (cn_api s)\<lparr>ac_secure := Some (?url, pp_certificateFingerprint p)\<rparr>" by blast
  then show ?thesis
  proof cases
    case 1
    then show ?thesis using assms t by (simp add: connect_body_def)
  next
    case 2
    then show ?thesis using sends_mono [OF go [OF 2(1)]] http_protected [OF 2(3,2)] by simp
  next
    case 3
    have "sends (protected_request w ip token pairing silent s) (cn_api s1) (cn_api s')"
      using sends_mono [OF go [OF 3(1)]] pinned_protected [OF 3(3,2)] 3(4) by simp
    then show ?thesis using 3(4) by (simp add: sends_def)
  qed
qed

lemma handleConnect_body:
  assumes "handleConnect w ip token pairing silent s = (ok, s')" and "\<not> cn_attempt s"
  obtains s1 where "connect_body w ip token pairing silent (dispatch (A_connecting True) (s\<lparr>cn_attempt := True\<rparr>)) = (ok, s1)"
    and "s' = dispatch (A_pairingDesktop None) (dispatch (A_connecting False) (s1\<lparr>cn_attempt := False\<rparr>))"
  using assms by (auto simp: handleConnect_def split: prod.splits)

subsection \<open>Lemmas: a successful pairing\<close>

text \<open>
  The desktop approved the device: among the requests is a pairing request or a status
  request of the device with its credential whose answer names the expected environment and
  the status \<open>approved\<close>.
\<close>

definition approval_body :: "string \<Rightarrow> string \<Rightarrow> request_body \<Rightarrow> bool" where
  "approval_body deviceId credential body \<longleftrightarrow>
     body = Pair_body deviceId ''iPhone'' credential \<or> body = Pair_status_body deviceId credential"

definition approved_by :: "network \<Rightarrow> IosClientEnvironment \<Rightarrow> string \<Rightarrow> string \<Rightarrow> http_request list \<Rightarrow> bool" where
  "approved_by net expected deviceId credential sent \<longleftrightarrow>
     (\<exists>pre rq post r. sent = pre @ rq # post \<and> approval_body deviceId credential (rq_body rq) \<and> net pre rq = Answer r \<and>
        readPairingStatus expected r = Inr Approved)"

lemma approved_append: "approved_by net e d cr sent \<Longrightarrow> approved_by net e d cr (sent @ rest)"
  unfolding approved_by_def by (metis append.assoc append_Cons)

lemma approved_sends: "approved_by net e d cr (ac_sent c1) \<Longrightarrow> sends P c1 c2 \<Longrightarrow> approved_by net e d cr (ac_sent c2)"
  by (auto simp: sends_def approved_append)

lemma status_text_free: "readPairingStatus e (r\<lparr>hr_statusText := x\<rparr>) = readPairingStatus e r"
  by (simp add: readPairingStatus_def readJson_def)

lemma fetch_approved:
  assumes "transportFetch net url verb tok body c = (Inr r, c1)" and "approval_body d cr body"
    and "readPairingStatus e r = Inr Approved"
  shows "approved_by net e d cr (ac_sent c1)"
proof -
  let ?rq = "request_to url verb tok body c"
  have "is_https url \<longrightarrow> ac_native c" using assms(1) transportFetch_blocked [of url c net verb tok body] by auto
  from transportFetch_sends [OF this, of net verb tok body] assms(1)
  obtain q where q: "net (ac_sent c) ?rq = Answer q" "r = (if is_https url then q\<lparr>hr_statusText := []\<rparr> else q)"
    and c1: "ac_sent c1 = ac_sent c @ [?rq]" by (auto split: net_answer.splits)
  have "readPairingStatus e q = Inr Approved" using assms(3) q(2) by (simp add: status_text_free split: if_splits)
  then show ?thesis unfolding approved_by_def
    using q(1) c1 assms(2) by (intro exI [of _ "ac_sent c"] exI [of _ ?rq] exI [of _ "[]"] exI [of _ q]) (simp add: request_to_def)
qed

lemma pairing_approved:
  assumes "requestPairing net url d ''iPhone'' cr c = (Inr Approved, c1) \<or> pairingStatus net url d cr c = (Inr Approved, c1)"
  shows "approved_by net (ac_expected c) d cr (ac_sent c1)"
proof -
  from assms obtain path verb tok body r where f: "transportFetch net path verb tok body c = (Inr r, c1)"
    and "approval_body d cr body" and "readPairingStatus (ac_expected c1) r = Inr Approved"
    by (auto simp: requestPairing_def pairingStatus_def approval_body_def split: prod.splits sum.splits)
  moreover have "ac_expected c1 = ac_expected c" using transportFetch_frame [OF f] by (simp add: same_target_def)
  ultimately show ?thesis using fetch_approved by metis
qed

lemma await_approved:
  assumes "await_loop net url d cr k Pending c = (Inr Approved, c1)"
  shows "approved_by net (ac_expected c) d cr (ac_sent c1)"
  using assms
proof (induction k arbitrary: c)
  case (Suc k)
  obtain r c2 where p: "pairingStatus net url d cr c = (r, c2)" by fastforce
  have e: "ac_expected c2 = ac_expected c" using pairing_frame [OF disjI2 [OF p]] by (simp add: same_target_def)
  from Suc.prems p obtain st where r: "r = Inr st" by (cases r) auto
  show ?case
  proof (cases st)
    case Approved
    then have "c1 = c2" using Suc.prems p r by (cases k) auto
    then show ?thesis using pairing_approved p r Approved by blast
  next
    case Pending
    then show ?thesis using Suc.prems p r Suc.IH [of c2] e by simp
  next
    case Denied
    then show ?thesis using Suc.prems p r by (cases k) auto
  qed
qed simp

lemma approval_approved:
  assumes "awaitPairingApproval w url d cr n s = (Inr Approved, s')"
  shows "approved_by (w_net w) (ac_expected (cn_api s)) d cr (ac_sent (cn_api s'))"
proof -
  obtain r c where p: "requestPairing (w_net w) url d ''iPhone'' cr (cn_api s) = (r, c)" by fastforce
  have e: "ac_expected c = ac_expected (cn_api s)" using pairing_frame [OF disjI1 [OF p]] by (simp add: same_target_def)
  from assms p obtain st where r: "r = Inr st" by (cases r) (auto simp: awaitPairingApproval_def)
  show ?thesis
  proof (cases "st = Pending")
    case True
    then obtain c2 where "await_loop (w_net w) url d cr 24 Pending c = (Inr Approved, c2)" "cn_api s' = c2"
      using assms p r by (auto simp: awaitPairingApproval_def Let_def split: prod.splits)
    then show ?thesis using await_approved e by metis
  next
    case False
    then have "r = Inr Approved" "cn_api s' = c" using assms p r by (auto simp: awaitPairingApproval_def)
    then show ?thesis using pairing_approved [OF disjI1] p by simp
  qed
qed

text \<open>A ping that succeeded somewhere in the log of the client.\<close>

definition accepted_by :: "network \<Rightarrow> ApiClient \<Rightarrow> bool" where
  "accepted_by net c \<longleftrightarrow> (\<exists>pre post. ac_sent c = pre @ post \<and> ping_accepted net (c\<lparr>ac_sent := pre\<rparr>))"

lemma ping_accepted_cong: "same_target c d \<Longrightarrow> ac_sent c = ac_sent d \<Longrightarrow> ping_accepted net c = ping_accepted net d"
  by (simp add: ping_accepted_def same_target_def can_send_def health_request_def verify_request_def request_to_def token_header_def)

lemma ping_accepts:
  assumes "pingServer net notify c = (True, d)"
  shows "accepted_by net d"
proof -
  have f: "same_target c d" "sends (leaves (ac_secure c) (ac_serverUrl c)) c d" using ping_frame [OF assms] by blast+
  have "ping_accepted net c" using assms ping_iff [of net notify c] by simp
  then have "ping_accepted net (d\<lparr>ac_sent := ac_sent c\<rparr>)"
    using ping_accepted_cong [of c "d\<lparr>ac_sent := ac_sent c\<rparr>"] f(1) by (simp add: same_target_def)
  then show ?thesis using f(2) by (auto simp: accepted_by_def sends_def)
qed

lemma activate_accepts: "activate_loop net k c = (True, d) \<Longrightarrow> accepted_by net d"
  by (induction k arbitrary: c) (auto split: prod.splits bool.splits intro: ping_accepts)

lemma activation_accepts:
  assumes "activatePairingCredential w url cr s = (True, s')" and at: "at_target url pin (cn_api s)"
  shows "accepted_by (w_net w) (cn_api s') \<and> ac_token (cn_api s') = cr \<and> at_target url pin (cn_api s') \<and>
    sends (reaches url pin) (cn_api s) (cn_api s')"
proof -
  let ?c = "setConfig url cr (cn_api s)"
  have al: "activate_loop (w_net w) 3 ?c = (True, cn_api s')"
    using assms(1) by (auto simp: activatePairingCredential_def split: prod.splits)
  have at': "at_target url pin ?c" using at by (simp add: at_target_def setConfig_def)
  then have st: "same_target ?c (cn_api s')" "sends (reaches url pin) ?c (cn_api s')" using stays_activate [OF al at'] by blast+
  have "ac_token (cn_api s') = cr" using st(1) by (simp add: same_target_def setConfig_def)
  moreover have "sends (reaches url pin) (cn_api s) (cn_api s')" using st(2) by (simp add: sends_def setConfig_def)
  ultimately show ?thesis using activate_accepts [OF al] stays_at [OF at' st(1)] by blast
qed

text \<open>What a device that is paired over a target has behind it.\<close>

definition paired :: "world \<Rightarrow> IosClientEnvironment \<Rightarrow> string \<Rightarrow> (string \<times> string) option \<Rightarrow> ApiClient \<Rightarrow> bool" where
  "paired w expected url pin c \<longleftrightarrow>
     at_target url pin c \<and> (\<exists>d. approved_by (w_net w) expected d (ac_token c) (ac_sent c)) \<and> accepted_by (w_net w) c"

lemma pair_device_success:
  assumes "pair_device w url pairing silent s = (True, s')" and at: "at_target url pin (cn_api s)"
  obtains s3 t where "paired w (ac_expected (cn_api s)) url pin (cn_api s3)"
    and "mark_connected w url pairing s3 = (None, t)" and "s' = setAppState S_home t"
proof -
  from assms(1) obtain d cr s1 where i: "getDeviceIdentity w s = (Inr (d, cr), s1)"
    by (auto simp: pair_device_def split: prod.splits sum.splits)
  then have a1: "cn_api s1 = cn_api s" using identity_frame by blast
  define desktop where "desktop = (case pairing of Some p \<Rightarrow> (if pp_name p \<noteq> [] then pp_name p else ''the desktop'') | None \<Rightarrow> ''the desktop'')"
  from assms(1) i obtain s2 s3 where ap: "awaitPairingApproval w url d cr desktop s1 = (Inr Approved, s2)"
    and ac: "activatePairingCredential w url cr s2 = (True, s3)"
    and e: "connect_ends w silent (mark_connected w url pairing s3) = (True, s')"
    by (auto simp: pair_device_def Let_def desktop_def [symmetric] split: prod.splits sum.splits if_splits bool.splits)
  have "stays url pin (cn_api s) (cn_api s2)" using stays_approval [OF ap, of pin] at a1 by simp
  then have at2: "at_target url pin (cn_api s2)" using stays_at [OF at] by blast
  note act = activation_accepts [OF ac at2]
  have "approved_by (w_net w) (ac_expected (cn_api s)) d cr (ac_sent (cn_api s3))"
    using approved_sends approval_approved [OF ap] a1 act by metis
  then have "paired w (ac_expected (cn_api s)) url pin (cn_api s3)" using act by (auto simp: paired_def)
  moreover obtain t where "mark_connected w url pairing s3 = (None, t)" "s' = setAppState S_home t"
    using e by (auto simp: connect_ends_def split: prod.splits option.splits)
  ultimately show ?thesis using that by blast
qed

lemma connected_secure:
  assumes "mark_connected w url pairing s = (None, t)" and "cs_mode (cc_security (cn_ctl t)) = Mode_https"
  shows "startsWith url ''https://'' \<and> (\<exists>p. pairing = Some p \<and> cn_lastServer t = Some (Some (saved_json (saved_pairing url p))) \<and>
    cc_isServerConnected (cn_ctl t) \<and> cn_api t = cn_api s)"
  using assms by (auto simp: mark_connected_def Let_def split: option.splits if_splits sum.splits)

lemma attempt_secure:
  assumes "connect_attempt w url token pairing silent s = (True, s')" and "cs_mode (cc_security (cn_ctl s')) = Mode_https"
    and at: "at_target url pin (cn_api s)"
  shows "startsWith url ''https://'' \<and> (\<exists>p. pairing = Some p \<and> paired w (ac_expected (cn_api s)) url pin (cn_api s') \<and>
    cn_lastServer s' = Some (Some (saved_json (saved_pairing url p))) \<and> cc_isServerConnected (cn_ctl s'))"
proof -
  obtain c where p: "pingServer (w_net w) False (cn_api s) = (True, c)"
    using assms(1) by (auto simp: connect_attempt_def split: prod.splits bool.splits)
  have st: "same_target (cn_api s) c" using stays_ping [OF p at] by blast
  let ?s = "s\<lparr>cn_api := c\<rparr>"
  have at1: "at_target url pin (cn_api ?s)" using stays_at [OF at st] by simp
  have "pair_device w url pairing silent ?s = (True, s')"
    using assms(1,2) p by (auto simp: connect_attempt_def split: if_splits)
  then obtain s3 t where pd: "paired w (ac_expected (cn_api ?s)) url pin (cn_api s3)"
    "mark_connected w url pairing s3 = (None, t)" "s' = setAppState S_home t" using pair_device_success [OF _ at1] by blast
  have "cs_mode (cc_security (cn_ctl t)) = Mode_https" using assms(2) pd(3) by simp
  from connected_secure [OF pd(2) this] show ?thesis using pd st by (auto simp: same_target_def)
qed

lemma secure_connect:
  assumes "handleConnect w ip token pairing silent s = (True, s')" and "cs_mode (cc_security (cn_ctl s')) = Mode_https"
  shows "\<exists>p. pinned_target token pairing s p \<and>
    paired w (ac_expected (cn_api s)) (connect_url ip) (Some (connect_url ip, pp_certificateFingerprint p)) (cn_api s') \<and>
    cn_lastServer s' = Some (Some (saved_json (saved_pairing (connect_url ip) p))) \<and> cc_isServerConnected (cn_ctl s') \<and> startsWith (connect_url ip) ''https://''"
proof -
  have "\<not> cn_attempt s" using assms(1) by (auto simp: handleConnect_def split: if_splits)
  let ?s = "dispatch (A_connecting True) (s\<lparr>cn_attempt := True\<rparr>)" and ?url = "connect_url ip"
  obtain s1 where b: "connect_body w ip token pairing silent ?s = (True, s1)"
    and s': "s' = dispatch (A_pairingDesktop None) (dispatch (A_connecting False) (s1\<lparr>cn_attempt := False\<rparr>))"
    using handleConnect_body [OF assms(1) \<open>\<not> cn_attempt s\<close>] by blast
  from b obtain conf s2 where t: "configurePairingTransport w ip token pairing silent ?s = (Some (?url, conf), s2)"
    and a: "connect_attempt w ?url token pairing silent (upd_api (setConfig ?url token) (s2\<lparr>cn_httpConfirmed := conf\<rparr>)) = (True, s1)"
    using transport_outcome [of w ip token pairing silent ?s] by (auto simp: connect_body_def split: prod.splits option.splits)
  let ?s3 = "upd_api (setConfig ?url token) (s2\<lparr>cn_httpConfirmed := conf\<rparr>)"
  have at: "at_target ?url (ac_secure (cn_api s2)) (cn_api ?s3)" by (simp add: at_target_def setConfig_def)
  have m: "cs_mode (cc_security (cn_ctl s1)) = Mode_https" using assms(2) s' by simp
  from attempt_secure [OF a m at] obtain p where https: "startsWith ?url ''https://''" and p: "pairing = Some p"
    and r: "paired w (ac_expected (cn_api ?s3)) ?url (ac_secure (cn_api s2)) (cn_api s1)"
      "cn_lastServer s1 = Some (Some (saved_json (saved_pairing ?url p)))" "cc_isServerConnected (cn_ctl s1)" by blast
  have "\<not> startsWith ?url ''http://''" using https by (auto simp: startsWith_decomp)
  then have "pinned_target token pairing ?s p" and "cn_api s2 = (cn_api ?s)\<lparr>ac_secure := Some (?url, pp_certificateFingerprint p)\<rparr>"
    using transport_outcome [OF t] p by (auto simp: pinned_target_def)
  then show ?thesis using r s' https by (auto simp: pinned_target_def setConfig_def)
qed

subsection \<open>Lemmas: trusted reconnection\<close>

lemma trusted_attempt_sends:
  assumes "trusted_attempt w saved cr s = (res, s')"
  shows "sends (reaches (sc_httpsUrl saved) (Some (sc_httpsUrl saved, sc_certificateFingerprint saved))) (cn_api s) (cn_api s')"
proof (cases "cn_api s' = cn_api s")
  case False
  let ?url = "sc_httpsUrl saved" and ?pin = "Some (sc_httpsUrl saved, sc_certificateFingerprint saved)"
  let ?c = "setConfig ?url cr ((cn_api s)\<lparr>ac_secure := ?pin\<rparr>)"
  obtain ok d where p: "pingServer (w_net w) False ?c = (ok, d)" by fastforce
  have "cn_api s' = d" using assms False p
    by (auto simp: trusted_attempt_def configureSecureConnection_def Let_def split: if_splits option.splits prod.splits bool.splits sum.splits)
  moreover have "at_target ?url ?pin ?c" by (simp add: at_target_def setConfig_def)
  ultimately have "sends (reaches ?url ?pin) ?c (cn_api s')" using stays_ping [OF p] by blast
  then show ?thesis by (simp add: sends_def setConfig_def)
qed simp

lemma connectTrusted_sends:
  "sends (reaches (sc_httpsUrl saved) (Some (sc_httpsUrl saved, sc_certificateFingerprint saved))) (cn_api s) (cn_api (snd (connectTrusted w saved cr silent s)))"
proof -
  obtain res s1 where t: "trusted_attempt w saved cr s = (res, s1)" by fastforce
  show ?thesis using trusted_attempt_sends [OF t]
    by (cases res) (simp_all add: connectTrusted_def t resetConnectionAttempt_def sends_def)
qed

lemma discovered_sends:
  assumes "discovered_body w server s = (ok, s')"
  shows "cn_api s' = cn_api s \<or> (\<exists>saved. parseSavedConnection (cn_lastServer s) = Some saved \<and>
    trust_matches (ac_expected (cn_api s)) saved server \<and>
    sends (reaches (discovered_url server) (Some (discovered_url server, sc_certificateFingerprint saved))) (cn_api s) (cn_api s'))"
proof (cases "cn_api s' = cn_api s")
  case False
  then obtain saved where saved: "parseSavedConnection (cn_lastServer s) = Some saved" "trust_matches (ac_expected (cn_api s)) saved server"
    using assms by (auto simp: discovered_body_def Let_def split: if_splits option.splits)
  let ?r = "saved\<lparr>sc_httpsUrl := discovered_url server\<rparr>"
  have "cn_api s' = cn_api (snd (connectTrusted w ?r (present (cn_credential s)) False s))"
    using assms False saved by (auto simp: discovered_body_def Let_def split: if_splits option.splits prod.splits bool.splits)
  then show ?thesis using saved connectTrusted_sends [of ?r s w] by auto
qed simp

lemma discovered_https: "is_https (discovered_url server)"
  by (simp add: discovered_url_def is_https_def toLowerCase_def startsWith_def lower_char_def)

subsection \<open>Lemmas: the saved trust\<close>

definition saved_wf :: "SavedConnection \<Rightarrow> bool" where
  "saved_wf saved \<longleftrightarrow> sc_serverId saved \<noteq> [] \<and> startsWith (sc_httpsUrl saved) ''https://'' \<and>
     length (normalizeFingerprint (sc_certificateFingerprint saved)) = 64 \<and>
     (case sc_httpUrl saved of Some u \<Rightarrow> startsWith u ''http://'' | None \<Rightarrow> True)"

lemma parse_saved_json: "saved_wf saved \<Longrightarrow> parseSavedConnection (Some (Some (saved_json saved))) = Some saved"
  by (cases saved; cases "sc_environment saved")
     (auto simp: saved_wf_def parseSavedConnection_def saved_json_def Let_def nonempty_string_def parse_environment_def split: option.splits)

lemma parsed_saved_wf: "parseSavedConnection stored = Some saved \<Longrightarrow> saved_wf saved"
  by (auto simp: parseSavedConnection_def saved_wf_def Let_def nonempty_string_def split: option.splits if_splits)

subsection \<open>A desktop that approves\<close>

definition demo_answer :: api_response where
  "demo_answer = \<lparr>hr_status = 200, hr_statusText = [], hr_text = None,
     hr_json = Some (JObj [(''environment'', JStr ''production''), (''status'', JStr ''approved'')])\<rparr>"

definition demo_world :: world where
  "demo_world = \<lparr>w_net = \<lambda>_ _. Answer demo_answer, w_configure = \<lambda>_ _. None, w_security = \<lambda>_. Inr (Some ''TLSv1.3'', True),
     w_confirm = False, w_randomId = ''id'', w_randomCredential = ''secret'', w_fails = \<lambda>_. None\<rparr>"

definition demo_conn :: conn where
  "demo_conn = \<lparr>cn_api = \<lparr>ac_native = True, ac_expected = Production, ac_serverUrl = [], ac_token = [], ac_serverVersion = [],
       ac_failureReason = [], ac_notified = 0, ac_secure = None, ac_sent = []\<rparr>,
     cn_ctl = initialConnectionControllerState, cn_screen = S_connect, cn_attempt = False, cn_httpConfirmed = False,
     cn_allowHttp = False, cn_alertVisible = False, cn_alerts = [], cn_scanRequests = 0, cn_lastServer = None,
     cn_legacyIdentity = None, cn_deviceId = None, cn_credential = None\<rparr>"

definition demo_pairing :: PairingPayload where
  "demo_pairing = \<lparr>pp_environment = Production, pp_serverId = ''pc'', pp_name = ''PC'', pp_httpsUrl = ''https://10.0.0.2:8443'',
     pp_certificateFingerprint = replicate 64 CHR ''a'', pp_token = ''t'', pp_httpUrl = None\<rparr>"

lemma demo_connects:
  "fst (handleConnect demo_world ''10.0.0.2'' ''t'' (Some demo_pairing) False demo_conn)"
  "cs_mode (cc_security (cn_ctl (snd (handleConnect demo_world ''10.0.0.2'' ''t'' (Some demo_pairing) False demo_conn)))) = Mode_https"
proof -
  have "let r = handleConnect demo_world ''10.0.0.2'' ''t'' (Some demo_pairing) False demo_conn
        in fst r \<and> cs_mode (cc_security (cn_ctl (snd r))) = Mode_https" by code_simp
  then show "fst (handleConnect demo_world ''10.0.0.2'' ''t'' (Some demo_pairing) False demo_conn)"
    "cs_mode (cc_security (cn_ctl (snd (handleConnect demo_world ''10.0.0.2'' ''t'' (Some demo_pairing) False demo_conn)))) = Mode_https"
    by (simp_all add: Let_def)
qed

definition demo_server :: DiscoveredServer where
  "demo_server = \<lparr>ds_serverId = ''pc'', ds_name = ''PC'', ds_address = ''10.0.0.7'', ds_httpsPort = 8443,
     ds_certificateFingerprint = replicate 64 CHR ''a'', ds_httpPort = None, ds_approvalRequired = True, ds_environment = Production\<rparr>"

definition demo_trusting :: conn where
  "demo_trusting = demo_conn\<lparr>cn_lastServer := Some (Some (saved_json (saved_pairing ''https://10.0.0.2:8443'' demo_pairing))),
     cn_credential := Some ''secret''\<rparr>"

lemma demo_trust: "parseSavedConnection (cn_lastServer demo_trusting) = Some (saved_pairing ''https://10.0.0.2:8443'' demo_pairing)"
proof -
  have "saved_wf (saved_pairing ''https://10.0.0.2:8443'' demo_pairing)" by code_simp
  then show ?thesis by (simp add: demo_trusting_def parse_saved_json)
qed

lemma demo_matches: "trust_matches Production (saved_pairing ''https://10.0.0.2:8443'' demo_pairing) demo_server"
  by code_simp

subsection \<open>Properties\<close>



text \<open>
  C16. When a connection attempt ends with an HTTPS connection, then the app holds a pairing
  code for the expected environment, its certificate fingerprint is pinned to the address,
  the desktop has approved the device, it has accepted the credential that the client now
  uses, and the trust is saved.
\<close>

theorem secure_connect_trusted:
  assumes "handleConnect w ip token pairing silent s = (True, s')" and "cs_mode (cc_security (cn_ctl s')) = Mode_https"
  shows "\<exists>p. pinned_target token pairing s p \<and>
    paired w (ac_expected (cn_api s)) (connect_url ip) (Some (connect_url ip, pp_certificateFingerprint p)) (cn_api s') \<and>
    cn_lastServer s' = Some (Some (saved_json (saved_pairing (connect_url ip) p))) \<and> cc_isServerConnected (cn_ctl s')"
  using secure_connect [OF assms] by blast

theorem secure_connect_trusted_witness:
  "\<exists>p s'. s' = snd (handleConnect demo_world ''10.0.0.2'' ''t'' (Some demo_pairing) False demo_conn) \<and>
     pinned_target ''t'' (Some demo_pairing) demo_conn p \<and>
     paired demo_world Production (connect_url ''10.0.0.2'') (Some (connect_url ''10.0.0.2'', pp_certificateFingerprint p)) (cn_api s')"
proof -
  have e: "ac_expected (cn_api demo_conn) = Production" by (simp add: demo_conn_def)
  have "handleConnect demo_world ''10.0.0.2'' ''t'' (Some demo_pairing) False demo_conn =
      (True, snd (handleConnect demo_world ''10.0.0.2'' ''t'' (Some demo_pairing) False demo_conn))"
    using demo_connects(1) by (simp add: prod_eq_iff)
  from secure_connect_trusted [OF this demo_connects(2)] show ?thesis unfolding e by blast
qed

text \<open>
  C18. A desktop that was found nearby is contacted only if the saved trust names the same
  environment, which is the expected one, the same server and the same certificate; every
  request then leaves under the saved fingerprint, pinned to the address that was found.
\<close>

theorem discovered_pinned:
  "\<exists>rs. ac_sent (cn_api (handleDiscoveredServer w server s)) = ac_sent (cn_api s) @ rs \<and>
     (\<forall>r \<in> set rs. \<exists>saved. parseSavedConnection (cn_lastServer s) = Some saved \<and>
        ds_environment server = ac_expected (cn_api s) \<and> sc_environment saved = ds_environment server \<and>
        sc_serverId saved = ds_serverId server \<and>
        normalizeFingerprint (sc_certificateFingerprint saved) = normalizeFingerprint (ds_certificateFingerprint server) \<and>
        rq_pin r = Some (Some (discovered_url server, sc_certificateFingerprint saved)))"
proof (cases "cn_attempt s")
  case True
  then show ?thesis by (simp add: handleDiscoveredServer_def)
next
  case False
  let ?s = "dispatch (A_connecting True) (s\<lparr>cn_attempt := True\<rparr>)"
  obtain ok s1 where b: "discovered_body w server ?s = (ok, s1)" by fastforce
  have "cn_api (handleDiscoveredServer w server s) = cn_api s1" using False b by (simp add: handleDiscoveredServer_def)
  then show ?thesis using discovered_sends [OF b] https_reaches [OF discovered_https]
    by (auto simp: sends_def list_all_iff trust_matches_def intro: exI [of _ "[]"]) metis
qed

theorem discovered_pinned_witness:
  "parseSavedConnection (cn_lastServer demo_trusting) = Some (saved_pairing ''https://10.0.0.2:8443'' demo_pairing) \<and>
   trust_matches Production (saved_pairing ''https://10.0.0.2:8443'' demo_pairing) demo_server \<and>
   (\<exists>rs. ac_sent (cn_api (handleDiscoveredServer demo_world demo_server demo_trusting)) = ac_sent (cn_api demo_trusting) @ rs \<and>
     list_all (\<lambda>r. \<exists>saved. parseSavedConnection (cn_lastServer demo_trusting) = Some saved \<and>
        ds_environment demo_server = ac_expected (cn_api demo_trusting) \<and> sc_environment saved = ds_environment demo_server \<and>
        sc_serverId saved = ds_serverId demo_server \<and>
        normalizeFingerprint (sc_certificateFingerprint saved) = normalizeFingerprint (ds_certificateFingerprint demo_server) \<and>
        rq_pin r = Some (Some (discovered_url demo_server, sc_certificateFingerprint saved))) rs)"
  unfolding list_all_iff by (intro conjI demo_trust demo_matches discovered_pinned)

text \<open>
  The saved trust round-trips: what is stored after a pairing is read back unchanged,
  and whatever the storage holds, only a record with a server, an HTTPS address, a complete
  fingerprint and, if any, an \<open>http://\<close> alternative is ever read back.
\<close>

theorem saved_trust_roundtrip:
  "(saved_wf saved \<longrightarrow> parseSavedConnection (Some (Some (saved_json saved))) = Some saved) \<and>
   (\<forall>other. parseSavedConnection stored = Some other \<longrightarrow> saved_wf other)"
  using parse_saved_json parsed_saved_wf by blast

theorem saved_trust_roundtrip_witness:
  "parseSavedConnection (Some (Some (saved_json (saved_pairing ''https://10.0.0.2:8443'' demo_pairing)))) =
     Some (saved_pairing ''https://10.0.0.2:8443'' demo_pairing) \<and>
   saved_wf (saved_pairing ''https://10.0.0.2:8443'' demo_pairing)"
proof -
  let ?saved = "saved_pairing ''https://10.0.0.2:8443'' demo_pairing"
  have "saved_wf ?saved" by code_simp
  then show ?thesis using saved_trust_roundtrip [of ?saved "Some (Some (saved_json ?saved))"] by blast
qed

end
