(* ===== verification/ConnectionInvariant.thy ===== *)
theory ConnectionInvariant
  imports PairingProperties
begin

text \<open>
  The state machine of the connection: every handler of the app shell is a step, and the
  invariant says what the recorded security mode means. A step is a whole handler: while an
  attempt runs, the attempt flag makes the others return at once.
\<close>

abbreviation mode_of :: "conn \<Rightarrow> SecurityMode" where
  "mode_of s \<equiv> cs_mode (cc_security (cn_ctl s))"

inductive conn_step :: "conn \<Rightarrow> conn \<Rightarrow> bool" where
  connect: "conn_step s (snd (handleConnect w ip token pairing silent s))"
| discovered: "conn_step s (handleDiscoveredServer w server s)"
| reconnect: "parseSavedConnection stored = Some saved \<Longrightarrow> conn_step s (handleTrustedReconnect w (Some saved) s)"
| allow_http: "conn_step s (updateAllowInsecureHttp w enabled s)"
| unauthorized: "conn_step s (authentication_failed w s)"
| disconnect: "conn_step s (handleDisconnect s)"
| scanner: "conn_step s (openQrScanner s)"
| dismissed: "conn_step s (alert_dismissed s)"
| health: "conn_step s (dispatch (A_serverConnected ok) s)"
| call: "same_target (cn_api s) c \<Longrightarrow> conn_step s (s\<lparr>cn_api := c\<rparr>)"

definition conn_init :: "bool \<Rightarrow> IosClientEnvironment \<Rightarrow> conn \<Rightarrow> bool" where
  "conn_init native expected s \<longleftrightarrow>
     cn_ctl s = initialConnectionControllerState \<and> \<not> cn_attempt s \<and> \<not> cn_httpConfirmed s \<and>
     ac_native (cn_api s) = native \<and> ac_expected (cn_api s) = expected \<and>
     ac_serverUrl (cn_api s) = [] \<and> ac_token (cn_api s) = [] \<and> ac_secure (cn_api s) = None"

definition http_allowed :: "conn \<Rightarrow> bool" where
  "http_allowed s \<longleftrightarrow> effectiveAllowInsecureHttp s \<and> (ac_native (cn_api s) \<longrightarrow> cn_httpConfirmed s)"

definition pinned_https :: "conn \<Rightarrow> bool" where
  "pinned_https s \<longleftrightarrow> (\<exists>url fingerprint. ac_secure (cn_api s) = Some (url, fingerprint) \<and> ac_native (cn_api s) \<and>
     startsWith url ''https://'' \<and> ac_serverUrl (cn_api s) = without_slash url)"

definition unconfigured :: "ApiClient \<Rightarrow> bool" where
  "unconfigured c \<longleftrightarrow> ac_serverUrl c = [] \<and> ac_token c = [] \<and> ac_secure c = None"

definition mode_inv :: "conn \<Rightarrow> bool" where
  "mode_inv s \<longleftrightarrow> (case mode_of s of
     Mode_disconnected \<Rightarrow> unconfigured (cn_api s)
   | Mode_https \<Rightarrow> pinned_https s
   | Mode_http \<Rightarrow> startsWith (ac_serverUrl (cn_api s)) ''http://'' \<longrightarrow> http_allowed s)"

definition conn_inv :: "conn \<Rightarrow> bool" where
  "conn_inv s \<longleftrightarrow> \<not> cn_attempt s \<and> \<not> cc_isConnecting (cn_ctl s) \<and> mode_inv s"

subsection \<open>Lemmas: what the handlers keep\<close>

definition keeps :: "conn \<Rightarrow> conn \<Rightarrow> bool" where
  "keeps s t \<longleftrightarrow> cn_allowHttp t = cn_allowHttp s \<and> cn_httpConfirmed t = cn_httpConfirmed s \<and>
     ac_native (cn_api t) = ac_native (cn_api s)"

lemma keeps_trans: "keeps s t \<Longrightarrow> keeps t u \<Longrightarrow> keeps s u"
  by (simp add: keeps_def)

lemma mode_inv_cong:
  "cn_ctl t = cn_ctl s \<or> mode_of t = mode_of s \<Longrightarrow> keeps s t \<Longrightarrow> same_target (cn_api s) (cn_api t) \<Longrightarrow> mode_inv t = mode_inv s"
  unfolding mode_inv_def http_allowed_def pinned_https_def unconfigured_def keeps_def same_target_def effectiveAllowInsecureHttp_def
  by (auto split: SecurityMode.splits)

lemma keeps_identity: "getDeviceIdentity w s = (res, s') \<Longrightarrow> keeps s s'"
  by (auto simp: keeps_def getDeviceIdentity_def own_identity_def migrate_identity_def Let_def
      split: option.splits if_splits prod.splits)

lemma keeps_approval:
  assumes "awaitPairingApproval w url d cr n s = (res, s')" and "at_target url pin (cn_api s)"
  shows "keeps s s'"
proof -
  have "ac_native (cn_api s') = ac_native (cn_api s)" using stays_approval [OF assms] by (simp add: same_target_def)
  then show ?thesis using assms(1)
    by (auto simp: keeps_def awaitPairingApproval_def Let_def split: prod.splits sum.splits if_splits)
qed

lemma attempt_frame [simp]: "cn_attempt (setAppState scr s) = cn_attempt s" "cn_attempt (forget_desktop s) = cn_attempt s"
  by (simp_all add: setAppState_def forget_desktop_def)

lemma forget_native [simp]: "ac_native (cn_api (forget_desktop s)) = ac_native (cn_api s)"
  by (simp add: forget_desktop_def setConfig_def clearSecureConnection_def)

lemma failed_keeps: "keeps s (connection_failed w l b m s)"
  using log_frame [of "cn_api s" "w_net w" "''WARN''" "''ios_https_pairing_failed''"]
  by (simp add: keeps_def connection_failed_def Let_def same_target_def)

lemma failed_inv: "mode_inv (connection_failed w l b m s)"
  by (simp add: mode_inv_def unconfigured_def failed_forgets disconnectedSecurity_def)

subsection \<open>Lemmas: a connection attempt keeps the invariant\<close>

definition good_target :: "string \<Rightarrow> (string \<times> string) option \<Rightarrow> conn \<Rightarrow> bool" where
  "good_target url pin s \<longleftrightarrow> at_target url pin (cn_api s) \<and>
     (startsWith url ''https://'' \<longrightarrow> ac_native (cn_api s) \<and> (\<exists>f. pin = Some (url, f))) \<and>
     (startsWith url ''http://'' \<longrightarrow> http_allowed s)"

lemma good_target_keeps: "good_target url pin s \<Longrightarrow> keeps s t \<Longrightarrow> at_target url pin (cn_api t) \<Longrightarrow> good_target url pin t"
  by (simp add: good_target_def keeps_def http_allowed_def effectiveAllowInsecureHttp_def)

lemma without_slash_starts: "startsWith (without_slash url) p \<Longrightarrow> startsWith url p"
  using without_slash_cases [of url] startsWith_append by metis

lemma http_mode_inv: "good_target url pin s \<Longrightarrow> mode_of t = Mode_http \<Longrightarrow> cn_api t = cn_api s \<Longrightarrow> keeps s t \<Longrightarrow> mode_inv t"
  using without_slash_starts [of url "''http://''"]
  by (auto simp: mode_inv_def good_target_def at_target_def keeps_def http_allowed_def effectiveAllowInsecureHttp_def)

lemma https_mode_inv:
  "good_target url pin s \<Longrightarrow> startsWith url ''https://'' \<Longrightarrow> mode_of t = Mode_https \<Longrightarrow> cn_api t = cn_api s \<Longrightarrow> mode_inv t"
  by (auto simp: mode_inv_def good_target_def at_target_def pinned_https_def)

lemma mark_connected_keeps: "mark_connected w url pairing s = (r, t) \<Longrightarrow> keeps s t"
  by (auto simp: keeps_def mark_connected_def Let_def split: option.splits if_splits sum.splits)

lemma mark_connected_inv:
  assumes "mark_connected w url pairing s = (None, t)" and g: "good_target url pin s"
  shows "mode_inv t \<and> keeps s t"
proof -
  note k = mark_connected_keeps [OF assms(1)] and a = mark_connected_frame [OF assms(1)]
  have "mode_of t = Mode_https \<and> startsWith url ''https://'' \<or> mode_of t = Mode_http"
    using assms(1) by (auto simp: mark_connected_def Let_def split: option.splits if_splits sum.splits)
  then have "mode_inv t"
  proof (elim disjE conjE)
    assume "mode_of t = Mode_https" "startsWith url ''https://''"
    then show ?thesis by (intro https_mode_inv [OF g _ _ a])
  next
    assume "mode_of t = Mode_http"
    then show ?thesis by (intro http_mode_inv [OF g _ a k])
  qed
  then show ?thesis using k by (rule conjI)
qed

lemma keeps_activation:
  assumes "activatePairingCredential w url cr s = (ok, s')"
  shows "keeps s s'"
proof -
  have al: "activate_loop (w_net w) 3 (setConfig url cr (cn_api s)) = (ok, cn_api s')"
    using assms by (auto simp: activatePairingCredential_def split: prod.splits)
  have "at_target url (ac_secure (cn_api s)) (setConfig url cr (cn_api s))" by (simp add: at_target_def setConfig_def)
  then have "ac_native (cn_api s') = ac_native (cn_api s)" using stays_activate [OF al] by (simp add: same_target_def setConfig_def)
  then show ?thesis using assms by (auto simp: keeps_def activatePairingCredential_def split: prod.splits)
qed

text \<open>The failures of an attempt, and its last step.\<close>

lemma failed_after: "keeps s t \<Longrightarrow> mode_inv (connection_failed w l b m t) \<and> keeps s (connection_failed w l b m t)"
  using failed_inv failed_keeps keeps_trans by blast

lemma mode_inv_screen [simp]: "mode_inv (setAppState scr s) = mode_inv s" "keeps t (setAppState scr s) = keeps t s"
proof -
  show "mode_inv (setAppState scr s) = mode_inv s"
    by (rule mode_inv_cong) (simp_all add: keeps_def)
qed (simp add: keeps_def)

lemma ends_inv:
  assumes "connect_ends w silent (mark_connected w url pairing s) = (ok, s')" and "good_target url pin s"
  shows "mode_inv s' \<and> keeps s s'"
proof -
  obtain r t where m: "mark_connected w url pairing s = (r, t)" by fastforce
  show ?thesis
  proof (cases r)
    case None
    then have "s' = setAppState S_home t" using assms(1) m by (simp add: connect_ends_def)
    then show ?thesis using mark_connected_inv [OF _ assms(2)] m None by simp
  next
    case (Some e)
    then show ?thesis using assms(1) m failed_after [OF mark_connected_keeps [OF m]] by (auto simp: connect_ends_def)
  qed
qed

lemma pair_device_inv:
  assumes "pair_device w url pairing silent s = (ok, s')" and g: "good_target url pin s"
  shows "mode_inv s' \<and> keeps s s'"
proof -
  have at: "at_target url pin (cn_api s)" using g by (simp add: good_target_def)
  obtain idn s1 where i: "getDeviceIdentity w s = (idn, s1)" by fastforce
  have k1: "keeps s s1" and a1: "cn_api s1 = cn_api s" using keeps_identity [OF i] identity_frame [OF i] by blast+
  show ?thesis
  proof (cases idn)
    case (Inl e)
    then show ?thesis using assms(1) i failed_after [OF k1] by (auto simp: pair_device_def)
  next
    case (Inr ic)
    obtain d cr where ic: "ic = (d, cr)" by fastforce
    define desktop where "desktop = (case pairing of Some p \<Rightarrow> (if pp_name p \<noteq> [] then pp_name p else ''the desktop'') | None \<Rightarrow> ''the desktop'')"
    obtain st s2 where ap: "awaitPairingApproval w url d cr desktop s1 = (st, s2)" by fastforce
    have at1: "at_target url pin (cn_api s1)" using at a1 by simp
    have k2: "keeps s s2" using keeps_trans [OF k1 keeps_approval [OF ap at1]] .
    have at2: "at_target url pin (cn_api s2)" using stays_at [OF at1] stays_approval [OF ap at1] by blast
    obtain act s3 where ac: "activatePairingCredential w url cr s2 = (act, s3)" by fastforce
    have k3: "keeps s s3" using keeps_trans [OF k2 keeps_activation [OF ac]] .
    have last: "connect_ends w silent (mark_connected w url pairing s3) = (ok, s') \<Longrightarrow> act \<Longrightarrow> mode_inv s' \<and> keeps s s'"
    proof -
      assume e: "connect_ends w silent (mark_connected w url pairing s3) = (ok, s')" and act
      then have "at_target url pin (cn_api s3)" using activation_accepts [OF _ at2] ac by simp
      from ends_inv [OF e good_target_keeps [OF g k3 this]] show ?thesis using keeps_trans [OF k3] by simp
    qed
    show ?thesis using assms(1) i Inr ic ap ac failed_after [OF k2] failed_after [OF k3] last
      by (auto simp: pair_device_def desktop_def [symmetric] Let_def split: sum.splits if_splits bool.splits)
  qed
qed

lemma attempt_inv:
  assumes "connect_attempt w url token pairing silent s = (ok, s')" and g: "good_target url pin s"
  shows "mode_inv s' \<and> keeps s s'"
proof -
  have at: "at_target url pin (cn_api s)" using g by (simp add: good_target_def)
  obtain b c where p: "pingServer (w_net w) False (cn_api s) = (b, c)" by fastforce
  let ?s = "s\<lparr>cn_api := c\<rparr>"
  have st: "same_target (cn_api s) c" using stays_ping [OF p at] by blast
  have k: "keeps s ?s" using st by (simp add: keeps_def same_target_def)
  have g1: "good_target url pin ?s" by (rule good_target_keeps [OF g k]) (use stays_at [OF at st] in simp)
  have h: "mode_inv (dispatch A_connectedHttp ?s)" by (rule http_mode_inv [OF g1]) (simp_all add: keeps_def)
  have kh: "keeps s (dispatch A_connectedHttp ?s)" using k by (simp add: keeps_def)
  show ?thesis
  proof (cases "b \<and> (startsWith url ''https://'' \<and> pairing \<noteq> None \<or> startsWith token ''pair-'')")
    case True
    then have "pair_device w url pairing silent ?s = (ok, s')" using assms(1) p by (auto simp: connect_attempt_def)
    then show ?thesis using pair_device_inv [OF _ g1] keeps_trans [OF k] by blast
  next
    case False
    then show ?thesis using assms(1) p failed_after [OF k] h kh by (auto simp: connect_attempt_def split: bool.splits if_splits)
  qed
qed

lemma mode_inv_dispatch [simp]:
  "mode_inv (dispatch (A_connecting v) s) = mode_inv s" "mode_inv (dispatch (A_pairingDesktop n) s) = mode_inv s"
  "mode_inv (dispatch (A_serverConnected v) s) = mode_inv s"
  by (rule mode_inv_cong; simp add: keeps_def)+

lemma mode_inv_fields [simp]:
  "mode_inv (s\<lparr>cn_attempt := b\<rparr>) = mode_inv s" "mode_inv (s\<lparr>cn_lastServer := x\<rparr>) = mode_inv s"
  "mode_inv (s\<lparr>cn_alertVisible := b\<rparr>) = mode_inv s" "mode_inv (s\<lparr>cn_alerts := ms\<rparr>) = mode_inv s" "mode_inv (s\<lparr>cn_scanRequests := n\<rparr>) = mode_inv s"
  "mode_inv (showAlertOnce m s) = mode_inv s" "mode_inv (unless_silent b m s) = mode_inv s"
  by (rule mode_inv_cong; simp add: keeps_def)+

lemma connect_body_inv:
  assumes "connect_body w ip token pairing silent s = (ok, s')" and "mode_inv s"
  shows "mode_inv s'"
proof -
  obtain res s1 where t: "configurePairingTransport w ip token pairing silent s = (res, s1)" by fastforce
  let ?url = "connect_url ip"
  have go: "mode_inv s'" if "res = Some (?url, conf)"
    "good_target ?url (ac_secure (cn_api s1)) (upd_api (setConfig ?url token) (s1\<lparr>cn_httpConfirmed := conf\<rparr>))" for conf
    using assms(1) t that(1) attempt_inv [OF _ that(2)] by (auto simp: connect_body_def)
  from transport_outcome [OF t] consider "res = None" "cn_api s1 = cn_api s" "transport_frame s s1"
    | "res = Some (?url, True)" "startsWith ?url ''http://''" "http_consent w silent s" "cn_api s1 = cn_api s" "transport_frame s s1"
    | p where "res = Some (?url, cn_httpConfirmed s)" "\<not> startsWith ?url ''http://''" "pinned_target token pairing s p"
        "cn_api s1 = (cn_api s)\<lparr>ac_secure := Some (?url, pp_certificateFingerprint p)\<rparr>" "transport_frame s s1" by blast
  then show ?thesis
  proof cases
    case 1
    then have "s' = s1" using assms(1) t by (simp add: connect_body_def)
    moreover have "mode_inv s1 = mode_inv s" by (rule mode_inv_cong) (use 1 in \<open>simp_all add: keeps_def\<close>)
    ultimately show ?thesis using assms(2) by simp
  next
    case 2
    then have "\<not> startsWith ?url ''https://''" by (auto simp: startsWith_decomp)
    then show ?thesis using 2
      by (intro go [OF 2(1)]) (simp add: good_target_def at_target_def setConfig_def http_allowed_def http_consent_def effectiveAllowInsecureHttp_def)
  next
    case 3
    then show ?thesis
      by (intro go [OF 3(1)]) (simp add: good_target_def at_target_def setConfig_def pinned_target_def)
  qed
qed

subsection \<open>Lemmas: the other handlers\<close>

lemma forgotten_inv: "mode_inv (dispatch A_disconnected (forget_desktop s))"
  "mode_inv (dispatch (A_security disconnectedSecurity) (dispatch a (dispatch b (dispatch c (forget_desktop s)))))"
  by (simp_all add: mode_inv_def unconfigured_def disconnectedSecurity_def)

lemma connectTrusted_inv:
  assumes "startsWith (sc_httpsUrl saved) ''https://''"
  shows "mode_inv (snd (connectTrusted w saved cr silent s))"
proof -
  obtain res s1 where t: "trusted_attempt w saved cr s = (res, s1)" by fastforce
  show ?thesis
  proof (cases res)
    case (Some e)
    then show ?thesis by (simp add: connectTrusted_def t resetConnectionAttempt_def forgotten_inv)
  next
    case None
    let ?url = "sc_httpsUrl saved" and ?pin = "Some (sc_httpsUrl saved, sc_certificateFingerprint saved)"
    let ?c = "setConfig ?url cr ((cn_api s)\<lparr>ac_secure := ?pin\<rparr>)"
    from t None obtain c tls where native: "ac_native (cn_api s)" and p: "pingServer (w_net w) False ?c = (True, c)"
      and s1: "cn_api s1 = c" "mode_of s1 = Mode_https"
      by (auto simp: trusted_attempt_def configureSecureConnection_def Let_def
          split: if_splits option.splits prod.splits bool.splits sum.splits)
    have "same_target ?c c" using ping_frame [OF p] by blast
    then show ?thesis using None t s1 native assms
      by (simp add: connectTrusted_def mode_inv_def pinned_https_def same_target_def setConfig_def)
  qed
qed

lemma discovered_starts: "startsWith (discovered_url server) ''https://''"
  by (simp add: discovered_url_def startsWith_def)

lemma discovered_body_inv:
  assumes "discovered_body w server s = (ok, s')" and "mode_inv s"
  shows "mode_inv s'"
proof -
  have "mode_inv u" if "connectTrusted w (k\<lparr>sc_httpsUrl := discovered_url server\<rparr>) cr silent t = (b, u)" for k cr silent t b u
    using that connectTrusted_inv [of "k\<lparr>sc_httpsUrl := discovered_url server\<rparr>" w cr silent t] discovered_starts [of server] by simp
  then show ?thesis using assms
    by (auto simp: discovered_body_def Let_def split: if_splits option.splits prod.splits bool.splits)
qed

lemma confirm_inv: "confirmOnce w m s = (b, t) \<Longrightarrow> mode_inv t = mode_inv s \<and> cn_attempt t = cn_attempt s"
  by (auto simp: confirmOnce_def split: if_splits)

text \<open>Turning HTTP on only widens what is allowed; turning it off closes an HTTP connection.\<close>

lemma persist_fields [simp]:
  "cn_api (persistAllowInsecureHttp w b s) = cn_api s" "cn_ctl (persistAllowInsecureHttp w b s) = cn_ctl s"
  "cn_allowHttp (persistAllowInsecureHttp w b s) = b" "cn_httpConfirmed (persistAllowInsecureHttp w b s) = cn_httpConfirmed s"
  "cn_attempt (persistAllowInsecureHttp w b s) = cn_attempt s"
  by (simp_all add: persistAllowInsecureHttp_def Let_def)

lemma allow_http_inv: "mode_inv s \<Longrightarrow> mode_inv (persistAllowInsecureHttp w True s)"
  by (auto simp: mode_inv_def pinned_https_def http_allowed_def effectiveAllowInsecureHttp_def split: SecurityMode.splits)

lemma forbid_http_inv: "mode_inv s \<Longrightarrow> mode_of s \<noteq> Mode_http \<Longrightarrow> mode_inv (persistAllowInsecureHttp w False (s\<lparr>cn_httpConfirmed := False\<rparr>))"
  by (auto simp: mode_inv_def pinned_https_def split: SecurityMode.splits)

lemma update_http_inv:
  assumes "conn_inv s"
  shows "conn_inv (updateAllowInsecureHttp w enabled s)"
proof -
  have inv: "mode_inv s" "\<not> cn_attempt s" "\<not> cc_isConnecting (cn_ctl s)" using assms by (simp_all add: conn_inv_def)
  show ?thesis
  proof (cases enabled)
    case True
    obtain b t where c: "confirmOnce w ''Allow unencrypted HTTP?'' s = (b, t)" by fastforce
    then show ?thesis using True inv allow_http_inv [of t w] confirm_inv [OF c] confirm_frame [OF c]
      by (auto simp: conn_inv_def updateAllowInsecureHttp_def Let_def)
  next
    case False
    then show ?thesis using inv forbid_http_inv [of s w] forgotten_inv(1)
      by (auto simp: conn_inv_def updateAllowInsecureHttp_def Let_def)
  qed
qed

lemma step_inv:
  assumes "conn_step s t" and "conn_inv s"
  shows "conn_inv t"
  using assms
proof (induction rule: conn_step.induct)
  case (connect s w ip token pairing silent)
  obtain ok s' where h: "handleConnect w ip token pairing silent s = (ok, s')" by fastforce
  obtain s1 where b: "connect_body w ip token pairing silent (dispatch (A_connecting True) (s\<lparr>cn_attempt := True\<rparr>)) = (ok, s1)"
    and s': "s' = dispatch (A_pairingDesktop None) (dispatch (A_connecting False) (s1\<lparr>cn_attempt := False\<rparr>))"
    using handleConnect_body [OF h] connect by (auto simp: conn_inv_def)
  then show ?case using connect_body_inv [OF b] h connect by (simp add: conn_inv_def)
next
  case (discovered s w server)
  obtain ok s1 where b: "discovered_body w server (dispatch (A_connecting True) (s\<lparr>cn_attempt := True\<rparr>)) = (ok, s1)" by fastforce
  then show ?case using discovered_body_inv [OF b] discovered by (simp add: conn_inv_def handleDiscoveredServer_def)
next
  case (reconnect stored saved s w)
  then have "startsWith (sc_httpsUrl saved) ''https://''" using parsed_saved_wf by (simp add: saved_wf_def)
  then show ?case using reconnect connectTrusted_inv [of saved w]
    by (auto simp: conn_inv_def handleTrustedReconnect_def Let_def)
next
  case (allow_http s w enabled)
  then show ?case by (rule update_http_inv)
next
  case (unauthorized s w)
  then show ?case using forgotten_inv(1) by (simp add: conn_inv_def authentication_failed_def Let_def)
next
  case (disconnect s)
  then show ?case by (simp add: conn_inv_def handleDisconnect_def Let_def mode_inv_def unconfigured_def disconnectedSecurity_def)
next
  case (scanner s)
  then show ?case by (simp add: conn_inv_def openQrScanner_def Let_def)
next
  case (dismissed s)
  then show ?case by (simp add: conn_inv_def alert_dismissed_def)
next
  case (health s ok)
  then show ?case by (simp add: conn_inv_def)
next
  case (call s c)
  have "mode_inv (s\<lparr>cn_api := c\<rparr>) = mode_inv s"
    by (rule mode_inv_cong) (use call in \<open>simp_all add: keeps_def same_target_def\<close>)
  then show ?case using call by (simp add: conn_inv_def)
qed

interpretation cm: transition_inv conn_step conn_inv
  by unfold_locales (rule step_inv)

lemma pair_device_fails: "pair_device w url pairing silent s = (False, s') \<Longrightarrow> \<exists>l m t. s' = connection_failed w l silent m t"
  by (auto simp: pair_device_def connect_ends_def Let_def split: prod.splits sum.splits if_splits bool.splits option.splits)

lemma attempt_fails:
  "connect_attempt w url token pairing silent s = (False, s') \<Longrightarrow> \<exists>l m t. s' = connection_failed w l silent m t"
  by (auto simp: connect_attempt_def pair_device_fails split: prod.splits if_splits bool.splits)

subsection \<open>Properties\<close>



text \<open>
  C19. A connection attempt that fails either was refused before anything was sent, and then
  leaves the client and the mode of the connection as they were, or it forgets the desktop:
  no address, no credential and no pinned certificate stay configured, and the app shows no
  connection. In both cases the next attempt is let in.
\<close>

theorem failed_connect_forgets:
  assumes "handleConnect w ip token pairing silent s = (False, s')" and "\<not> cn_attempt s"
  shows "\<not> cn_attempt s' \<and> \<not> cc_isConnecting (cn_ctl s') \<and>
    (cn_api s' = cn_api s \<and> mode_of s' = mode_of s \<or>
     unconfigured (cn_api s') \<and> mode_of s' = Mode_disconnected \<and> \<not> cc_isServerConnected (cn_ctl s'))"
proof -
  let ?s = "dispatch (A_connecting True) (s\<lparr>cn_attempt := True\<rparr>)"
  obtain s1 where b: "connect_body w ip token pairing silent ?s = (False, s1)"
    and s': "s' = dispatch (A_pairingDesktop None) (dispatch (A_connecting False) (s1\<lparr>cn_attempt := False\<rparr>))"
    using handleConnect_body [OF assms] by blast
  obtain res s2 where t: "configurePairingTransport w ip token pairing silent ?s = (res, s2)" by fastforce
  show ?thesis
  proof (cases res)
    case None
    then have "s1 = s2" "cn_api s2 = cn_api s" "mode_of s2 = mode_of s"
      using b t transport_outcome [OF t] by (simp_all add: connect_body_def)
    then show ?thesis using s' by simp
  next
    case (Some x)
    then obtain l m u where "s1 = connection_failed w l silent m u"
      using b t attempt_fails by (cases x) (simp add: connect_body_def, blast)
    then show ?thesis using s' by (simp add: failed_forgets unconfigured_def disconnectedSecurity_def)
  qed
qed

theorem failed_connect_forgets_witness:
  "unconfigured (cn_api (snd (handleConnect demo_world ''http://10.0.0.2'' ''t'' None False demo_conn)))"
proof -
  have f: "fst (handleConnect demo_world ''http://10.0.0.2'' ''t'' None False demo_conn) = False" by code_simp
  have u: "\<not> cn_attempt demo_conn" "unconfigured (cn_api demo_conn)" by (simp_all add: demo_conn_def unconfigured_def)
  have "handleConnect demo_world ''http://10.0.0.2'' ''t'' None False demo_conn =
    (False, snd (handleConnect demo_world ''http://10.0.0.2'' ''t'' None False demo_conn))" using f by (simp add: prod_eq_iff)
  from failed_connect_forgets [OF this u(1)] show ?thesis using u(2) by auto
qed

text \<open>
  A trusted reconnection that succeeds reports the server as connected over HTTPS, but the
  lifecycle of the controller stays at \<open>connecting\<close>: no action of that path moves it on.
\<close>

lemma trusted_reconnect_lifecycle:
  assumes "connectTrusted w saved cr False (dispatch (A_connecting True) (s\<lparr>cn_attempt := True\<rparr>)) = (True, s1)"
  shows "cc_lifecycle (cn_ctl s1) = L_connecting \<and> cc_isServerConnected (cn_ctl s1) \<and> mode_of s1 = Mode_https"
  using assms
  by (auto simp: connectTrusted_def trusted_attempt_def configureSecureConnection_def Let_def
      split: if_splits option.splits prod.splits bool.splits sum.splits)

end
