(* ===== verification/ConnectionEntry.thy ===== *)
theory ConnectionEntry
  imports ConnectionInvariant
begin

text \<open>
  How a user starts a connection: the manual form (\<open>features/connection/hooks/useManualConnection.ts\<close>)
  and the QR scanner (\<open>useQrScanner.ts\<close>), composed with the pairing controller. Their own
  alerts do not pass the alert gate. The results of \<open>JSON.parse\<close> and of the \<open>URL\<close> constructor
  are arguments; haptics and animations are left out.
\<close>

subsection \<open>useManualConnection.ts\<close>

record manual_form =
  mf_ip :: string
  mf_fingerprint :: string
  mf_token :: string

definition manual_url :: "bool \<Rightarrow> string \<Rightarrow> string" where
  "manual_url native ip =
     (let input = trim ip
      in if startsWith input ''http'' then input
         else if native then ''https://'' @ input @ '':8443'' else ''http://'' @ input @ '':8080'')"

definition manual_pairing :: "IosClientEnvironment \<Rightarrow> string \<Rightarrow> manual_form \<Rightarrow> PairingPayload option" where
  "manual_pairing expected secureUrl form =
     (let normalized = normalizeFingerprint (mf_fingerprint form)
      in if startsWith secureUrl ''https://'' \<and> length normalized = 64
         then Some \<lparr>pp_environment = expected, pp_serverId = [], pp_name = ''Manual desktop'', pp_httpsUrl = secureUrl,
                    pp_certificateFingerprint = normalized, pp_token = trim (mf_token form), pp_httpUrl = None\<rparr>
         else None)"

definition plain_alert :: "string \<Rightarrow> conn \<Rightarrow> conn" where
  "plain_alert title s = s\<lparr>cn_alerts := cn_alerts s @ [title]\<rparr>"

definition connectManually :: "world \<Rightarrow> manual_form \<Rightarrow> conn \<Rightarrow> bool \<times> conn" where
  "connectManually w form s =
     (let secureUrl = manual_url (ac_native (cn_api s)) (mf_ip form)
      in if \<not> ac_native (cn_api s) \<and> startsWith secureUrl ''https://''
         then (False, plain_alert ''Expo Go requires HTTP'' s)
         else handleConnect w secureUrl (trim (mf_token form)) (manual_pairing (ac_expected (cn_api s)) secureUrl form) False s)"

definition canConnectManually :: "manual_form \<Rightarrow> bool" where
  "canConnectManually form \<longleftrightarrow> trim (mf_ip form) \<noteq> []"

subsection \<open>useQrScanner.ts\<close>

record scanner =
  qs_isScanning :: bool
  qs_handled :: bool

definition stopScanning :: "scanner \<Rightarrow> scanner" where
  "stopScanning q = q\<lparr>qs_isScanning := False\<rparr>"

text \<open>The camera: permission already granted, granted on request, refused, or an exception.\<close>

datatype camera = Camera_ready | Camera_refused | Camera_fails

definition startScanning :: "camera \<Rightarrow> scanner \<times> conn \<Rightarrow> scanner \<times> conn" where
  "startScanning cam = (\<lambda>(q, s). (case cam of
     Camera_ready \<Rightarrow> (q\<lparr>qs_handled := False, qs_isScanning := True\<rparr>, s)
   | Camera_refused \<Rightarrow> (q, plain_alert ''Permission Required'' s)
   | Camera_fails \<Rightarrow> (q, plain_alert ''Camera unavailable'' s)))"

definition connectFromScan :: "world \<Rightarrow> string \<Rightarrow> string \<Rightarrow> PairingPayload option \<Rightarrow> scanner \<times> conn \<Rightarrow> scanner \<times> conn" where
  "connectFromScan w ipOrUrl token pairing = (\<lambda>(q, s).
     (case handleConnect w ipOrUrl token pairing False s of
        (True, s1) \<Rightarrow> (q, s1)
      | (False, s1) \<Rightarrow> (q\<lparr>qs_handled := False\<rparr>, s1)))"

text \<open>A scanned code: its text and what \<open>JSON.parse\<close> makes of it.\<close>

record qr_code =
  qr_data :: string
  qr_json :: "jsval option"

definition handleBarCodeScanned ::
  "world \<Rightarrow> (string \<Rightarrow> parsed_url option) \<Rightarrow> qr_code \<Rightarrow> scanner \<times> conn \<Rightarrow> scanner \<times> conn" where
  "handleBarCodeScanned w new_URL code = (\<lambda>(q, s).
     (if qs_handled q then (q, s)
      else
        (let q1 = q\<lparr>qs_handled := True, qs_isScanning := False\<rparr>
         in case parsePairingPayload (qr_json code) of
              Inl version \<Rightarrow> (q1, plain_alert ''Update iPhone app'' s)
            | Inr (Some p) \<Rightarrow>
                (case pp_httpUrl p of
                   Some u \<Rightarrow> (if \<not> ac_native (cn_api s) then connectFromScan w u (pp_token p) None (q1, s)
                               else connectFromScan w (pp_httpsUrl p) (pp_token p) (Some p) (q1, s))
                 | None \<Rightarrow> connectFromScan w (pp_httpsUrl p) (pp_token p) (Some p) (q1, s))
            | Inr None \<Rightarrow>
                (case parseLegacyConnectionUrl new_URL (qr_data code) of
                   Some l \<Rightarrow> connectFromScan w (lc_baseUrl l) (lc_token l) None (q1, s)
                 | None \<Rightarrow> (q1, plain_alert ''Unsupported QR code'' s)))))"

subsection \<open>Lemmas\<close>

lemma trim_end_prefix: "p \<noteq> [] \<Longrightarrow> \<not> is_space (last p) \<Longrightarrow> \<exists>r. rev (dropWhile is_space (rev (p @ rest))) = p @ r"
proof (induction rest rule: rev_induct)
  case Nil
  then show ?case by (cases p rule: rev_cases) simp_all
next
  case (snoc x xs)
  then show ?case by (cases "is_space x") simp_all
qed

lemma trim_prefix:
  assumes "p \<noteq> []" and "\<not> is_space (hd p)" and "\<not> is_space (last p)"
  shows "\<exists>r. trim (p @ rest) = p @ r"
proof -
  have "dropWhile is_space (p @ rest) = p @ rest" using assms(1,2) by (cases p) simp_all
  then show ?thesis using trim_end_prefix [OF assms(1,3)] by (simp add: trim_def)
qed

lemma connect_url_https:
  assumes "startsWith url ''https://''"
  shows "startsWith (connect_url url) ''https://''"
proof -
  obtain rest where url: "url = ''https://'' @ rest" using assms by (auto simp: startsWith_decomp)
  obtain r where "trim url = ''https://'' @ r"
    using trim_prefix [of "''https://''" rest] by (auto simp: url is_space_def)
  then show ?thesis by (simp add: connect_url_def Let_def startsWith_def)
qed

text \<open>Over an HTTPS address with a pairing code, success means an HTTPS connection.\<close>

lemma attempt_https:
  assumes "connect_attempt w url token (Some p) silent s = (True, s')" and "startsWith url ''https://''"
  shows "mode_of s' = Mode_https"
  using assms
  by (auto simp: connect_attempt_def pair_device_def connect_ends_def mark_connected_def Let_def
      split: prod.splits sum.splits if_splits bool.splits option.splits)

lemma connect_https:
  assumes "handleConnect w ip token (Some p) silent s = (True, s')" and "startsWith (connect_url ip) ''https://''"
  shows "mode_of s' = Mode_https"
proof -
  have na: "\<not> cn_attempt s" using assms(1) by (auto simp: handleConnect_def split: if_splits)
  let ?s = "dispatch (A_connecting True) (s\<lparr>cn_attempt := True\<rparr>)"
  obtain s1 where b: "connect_body w ip token (Some p) silent ?s = (True, s1)"
    and "s' = dispatch (A_pairingDesktop None) (dispatch (A_connecting False) (s1\<lparr>cn_attempt := False\<rparr>))"
    using handleConnect_body [OF assms(1) na] by blast
  then have s': "mode_of s' = mode_of s1" by simp
  obtain res s2 where t: "configurePairingTransport w ip token (Some p) silent ?s = (res, s2)" by fastforce
  then obtain conf where "res = Some (connect_url ip, conf)"
    using b transport_outcome [OF t] by (auto simp: connect_body_def)
  then show ?thesis using b t attempt_https [OF _ assms(2)] s' by (simp add: connect_body_def)
qed

lemma scan_connects:
  assumes "handleBarCodeScanned w new_URL code (q, s) = (q', s')" and "\<not> qs_handled q"
    and "parsePairingPayload (qr_json code) = Inr (Some p)" and "ac_native (cn_api s)"
  shows "handleConnect w (pp_httpsUrl p) (pp_token p) (Some p) False s = (qs_handled q', s')"
proof -
  have "connectFromScan w (pp_httpsUrl p) (pp_token p) (Some p) (q\<lparr>qs_handled := True, qs_isScanning := False\<rparr>, s) = (q', s')"
    using assms by (cases "pp_httpUrl p") (simp_all add: handleBarCodeScanned_def Let_def)
  then show ?thesis by (auto simp: connectFromScan_def split: prod.splits bool.splits)
qed

lemma saved_pairing_wf:
  assumes "payload_wf p" and "startsWith url ''https://''"
  shows "saved_wf (saved_pairing url p)"
  using assms by (auto simp: payload_wf_def saved_wf_def saved_pairing_def normalize_id split: option.splits)

lemma demo_parses: "parsePairingPayload (Some (payload_json demo_pairing)) = Inr (Some demo_pairing)"
proof -
  have "list_all is_hex (replicate 64 CHR ''a'')" by (simp add: list_all_iff is_hex_def)
  then show ?thesis using normalize_id [of "replicate 64 CHR ''a''"]
    by (simp add: demo_pairing_def parsePairingPayload_def payload_json_def Let_def parse_environment_def startsWith_def)
qed

definition demo_form :: manual_form where
  "demo_form = \<lparr>mf_ip = '' 10.0.0.2'', mf_fingerprint = replicate 64 CHR ''A'', mf_token = ''t''\<rparr>"

lemma demo_manual:
  "fst (connectManually demo_world demo_form demo_conn) = True"
  "mode_of (snd (connectManually demo_world demo_form demo_conn)) = Mode_https"
proof -
  have "let r = connectManually demo_world demo_form demo_conn in fst r = True \<and> mode_of (snd r) = Mode_https" by code_simp
  then show "fst (connectManually demo_world demo_form demo_conn) = True"
    "mode_of (snd (connectManually demo_world demo_form demo_conn)) = Mode_https" by (simp_all add: Let_def)
qed

subsection \<open>Properties\<close>

text \<open>
  C20. A pairing code that the installed app scans and connects with gives an HTTPS
  connection whose trust is remembered: what is stored is read back as the trust in this
  desktop, and a nearby desktop with the identity of the code is recognised by it.
\<close>

theorem scanned_trust_remembered:
  assumes "handleBarCodeScanned w new_URL code (q, s) = (q', s')" and "\<not> qs_handled q" and "qs_handled q'"
    and "parsePairingPayload (qr_json code) = Inr (Some p)" and "ac_native (cn_api s)"
  shows "mode_of s' = Mode_https \<and>
    (\<exists>saved. parseSavedConnection (cn_lastServer s') = Some saved \<and>
       (\<forall>server. ds_environment server = pp_environment p \<and> ds_serverId server = pp_serverId p \<and>
          ds_certificateFingerprint server = pp_certificateFingerprint p \<longrightarrow>
          trust_matches (ac_expected (cn_api s)) saved server))"
proof -
  let ?url = "connect_url (pp_httpsUrl p)"
  have h: "handleConnect w (pp_httpsUrl p) (pp_token p) (Some p) False s = (True, s')"
    using scan_connects [OF assms(1,2,4,5)] assms(3) by simp
  from assms(4) obtain v where "parsePairingPayload (Some v) = Inr (Some p)" by (cases "qr_json code") (auto simp: parsePairingPayload_def)
  then have wf: "payload_wf p" using parsed_payload by blast
  have u: "startsWith ?url ''https://''" using wf connect_url_https by (simp add: payload_wf_def)
  have m: "mode_of s' = Mode_https" by (rule connect_https [OF h u])
  have k: "pp_environment p = ac_expected (cn_api s)" "cn_lastServer s' = Some (Some (saved_json (saved_pairing ?url p)))"
    using secure_connect [OF h m] by (auto simp: pinned_target_def)
  have "parseSavedConnection (cn_lastServer s') = Some (saved_pairing ?url p)"
    using parse_saved_json [OF saved_pairing_wf [OF wf u]] k(2) by simp
  then show ?thesis using m k by (auto simp: trust_matches_def saved_pairing_def normalize_id normalize_hex)
qed

theorem scanned_trust_remembered_witness:
  "mode_of (snd (handleBarCodeScanned demo_world (\<lambda>_. None) \<lparr>qr_data = [], qr_json = Some (payload_json demo_pairing)\<rparr>
     (\<lparr>qs_isScanning = True, qs_handled = False\<rparr>, demo_conn))) = Mode_https"
proof -
  let ?q = "\<lparr>qs_isScanning = True, qs_handled = False\<rparr>" and ?code = "\<lparr>qr_data = [], qr_json = Some (payload_json demo_pairing)\<rparr>"
  have p: "parsePairingPayload (qr_json ?code) = Inr (Some demo_pairing)" using demo_parses by simp
  have n: "ac_native (cn_api demo_conn)" by (simp add: demo_conn_def)
  obtain q' s' where h: "handleBarCodeScanned demo_world (\<lambda>_. None) ?code (?q, demo_conn) = (q', s')" by fastforce
  have "fst (handleConnect demo_world (pp_httpsUrl demo_pairing) (pp_token demo_pairing) (Some demo_pairing) False demo_conn)"
    by code_simp
  then have "qs_handled q'" using scan_connects [OF h _ p n] by simp
  from scanned_trust_remembered [OF h _ this p n] show ?thesis using h by simp
qed

text \<open>
  A desktop that was paired through the manual form is not remembered: the form makes a
  pairing without a server identifier, which is what gets stored, and the stored trust is
  refused when it is read back.
\<close>

theorem manual_trust_not_remembered:
  assumes "connectManually w form s = (True, s')" and "mode_of s' = Mode_https"
  shows "cn_lastServer s' \<noteq> None \<and> parseSavedConnection (cn_lastServer s') = None"
proof -
  let ?url = "manual_url (ac_native (cn_api s)) (mf_ip form)"
  have "handleConnect w ?url (trim (mf_token form)) (manual_pairing (ac_expected (cn_api s)) ?url form) False s = (True, s')"
    using assms(1) by (simp add: connectManually_def Let_def split: if_splits)
  from secure_connect [OF this assms(2)] obtain p
    where p: "manual_pairing (ac_expected (cn_api s)) ?url form = Some p"
      and l: "cn_lastServer s' = Some (Some (saved_json (saved_pairing (connect_url ?url) p)))"
    by (auto simp: pinned_target_def)
  have "pp_serverId p = []" using p by (auto simp: manual_pairing_def Let_def split: if_splits)
  then show ?thesis using l
    by (simp add: parseSavedConnection_def saved_json_def saved_pairing_def nonempty_string_def split: option.splits)
qed

theorem manual_trust_not_remembered_witness:
  "parseSavedConnection (cn_lastServer (snd (connectManually demo_world demo_form demo_conn))) = None"
proof -
  have "connectManually demo_world demo_form demo_conn = (True, snd (connectManually demo_world demo_form demo_conn))"
    using demo_manual(1) by (simp add: prod_eq_iff)
  from manual_trust_not_remembered [OF this demo_manual(2)] show ?thesis by (rule conjunct2)
qed

end
