(* ===== verification/ConnectionHealth.thy ===== *)
theory ConnectionHealth
  imports Pairing
begin

text \<open>
  The monitor of an open connection, \<open>app/hooks/useConnectionHealth.ts\<close>. The effect of the
  hook is a record of its local variables; \<open>validateConnection\<close> is split at its await into
  \<open>validate_start\<close> and \<open>validate_end\<close>. Timers and answers are events: a timer fires once,
  an answer arrives once, also after the effect was stopped. The variable \<open>timer\<close> keeps a
  fired handle, which \<open>cancel\<close> ignores, so the model clears it when the timer fires. The
  calls of \<open>setIsServerConnected\<close> are logged.
\<close>

definition HEALTH_POLL_INTERVAL_MS :: nat where "HEALTH_POLL_INTERVAL_MS = 5000"

definition HEALTH_RETRY_INTERVAL_MS :: nat where "HEALTH_RETRY_INTERVAL_MS = 2000"

definition MAX_CONSECUTIVE_FAILURES :: nat where "MAX_CONSECUTIVE_FAILURES = 3"

record monitor =
  mo_stopped :: bool
  mo_inFlight :: bool
  mo_consecutiveFailures :: nat
  mo_timer :: "nat option"

definition new_monitor :: monitor where
  "new_monitor = \<lparr>mo_stopped = False, mo_inFlight = False, mo_consecutiveFailures = 0, mo_timer = None\<rparr>"

text \<open>The state of the hook: the screen, the status, the running effect and the stopped ones with a ping under way.\<close>

record health =
  he_screen :: ScreenState
  he_status :: ConnectionHealthStatus
  he_reports :: "bool list"
  he_monitor :: "monitor option"
  he_old :: "monitor list"

definition health_schedule :: "nat \<Rightarrow> monitor \<Rightarrow> monitor" where
  "health_schedule delayMs m = (if mo_stopped m then m else m\<lparr>mo_timer := Some delayMs\<rparr>)"

definition validate_start :: "monitor \<Rightarrow> monitor" where
  "validate_start m = (if mo_stopped m \<or> mo_inFlight m then m else m\<lparr>mo_inFlight := True\<rparr>)"

definition validate_end :: "bool \<Rightarrow> monitor \<Rightarrow> health \<Rightarrow> monitor \<times> health" where
  "validate_end ok m h =
     (let m1 = m\<lparr>mo_inFlight := False\<rparr>
      in if mo_stopped m1 then (m1, h)
         else
           (let h1 = h\<lparr>he_reports := he_reports h @ [ok]\<rparr>
            in if ok
               then (health_schedule HEALTH_POLL_INTERVAL_MS (m1\<lparr>mo_consecutiveFailures := 0\<rparr>), h1\<lparr>he_status := H_connected\<rparr>)
               else
                 (let m2 = m1\<lparr>mo_consecutiveFailures := mo_consecutiveFailures m1 + 1\<rparr>
                  in if mo_consecutiveFailures m2 \<ge> MAX_CONSECUTIVE_FAILURES
                     then (m2, h1\<lparr>he_status := H_disconnected\<rparr>)
                     else (health_schedule HEALTH_RETRY_INTERVAL_MS m2, h1\<lparr>he_status := H_retrying\<rparr>))))"

definition not_monitored :: "ScreenState \<Rightarrow> bool" where
  "not_monitored scr \<longleftrightarrow> scr = S_connect \<or> scr = S_picker \<or> scr = S_transfer"

definition health_cleanup :: "health \<Rightarrow> health" where
  "health_cleanup h =
     (case he_monitor h of
        None \<Rightarrow> h
      | Some m \<Rightarrow>
          (let m1 = m\<lparr>mo_stopped := True, mo_timer := None\<rparr>
           in h\<lparr>he_monitor := None, he_old := (if mo_inFlight m1 then he_old h @ [m1] else he_old h)\<rparr>))"

definition health_effect :: "health \<Rightarrow> health" where
  "health_effect h =
     (if not_monitored (he_screen h) then h
      else h\<lparr>he_status := H_checking, he_monitor := Some (validate_start new_monitor)\<rparr>)"

definition new_health :: "ScreenState \<Rightarrow> health" where
  "new_health scr = health_effect \<lparr>he_screen = scr, he_status = H_idle, he_reports = [], he_monitor = None, he_old = []\<rparr>"

definition app_active :: "monitor \<Rightarrow> monitor" where
  "app_active m = validate_start (m\<lparr>mo_consecutiveFailures := 0, mo_timer := None\<rparr>)"

definition retryConnection :: "health \<Rightarrow> health" where
  "retryConnection h = health_effect (health_cleanup (h\<lparr>he_status := H_checking\<rparr>))"

definition shown_health :: "health \<Rightarrow> ConnectionHealthStatus" where
  "shown_health h = (if not_monitored (he_screen h) then H_idle else he_status h)"

datatype health_event =
    Ev_screen ScreenState
  | Ev_retry
  | Ev_timer
  | Ev_pong bool
  | Ev_old_pong nat bool
  | Ev_active

text \<open>An event that cannot happen, such as the timer when none is armed, changes nothing.\<close>

fun health_step :: "health_event \<Rightarrow> health \<Rightarrow> health" where
  "health_step (Ev_screen scr) h =
     (if scr = he_screen h then h else health_effect (health_cleanup (h\<lparr>he_screen := scr\<rparr>)))"
| "health_step Ev_retry h = retryConnection h"
| "health_step Ev_timer h =
     (case he_monitor h of
        Some m \<Rightarrow> (if mo_timer m = None then h else h\<lparr>he_monitor := Some (validate_start (m\<lparr>mo_timer := None\<rparr>))\<rparr>)
      | None \<Rightarrow> h)"
| "health_step (Ev_pong ok) h =
     (case he_monitor h of
        Some m \<Rightarrow> (if mo_inFlight m then (let (m1, h1) = validate_end ok m h in h1\<lparr>he_monitor := Some m1\<rparr>) else h)
      | None \<Rightarrow> h)"
| "health_step (Ev_old_pong i ok) h =
     (if i < length (he_old h) \<and> mo_inFlight (he_old h ! i)
      then (let (m1, h1) = validate_end ok (he_old h ! i) h in h1\<lparr>he_old := (he_old h)[i := m1]\<rparr>)
      else h)"
| "health_step Ev_active h =
     (case he_monitor h of
        Some m \<Rightarrow> h\<lparr>he_status := H_checking, he_monitor := Some (app_active m)\<rparr>
      | None \<Rightarrow> h)"

subsection \<open>Lemmas\<close>

text \<open>The last \<open>n\<close> reports are failures.\<close>

definition failed_last :: "nat \<Rightarrow> bool list \<Rightarrow> bool" where
  "failed_last n rs \<longleftrightarrow> n \<le> length rs \<and> list_all Not (take n (rev rs))"

lemma failed_last_0 [simp]: "failed_last 0 rs" by (simp add: failed_last_def)

lemma failed_last_Suc: "failed_last n rs \<Longrightarrow> failed_last (Suc n) (rs @ [False])"
  by (simp add: failed_last_def)

text \<open>What a running monitor is doing: a ping is under way, a timer is armed, or it has given up.\<close>

definition monitor_inv :: "monitor \<Rightarrow> ConnectionHealthStatus \<Rightarrow> bool list \<Rightarrow> bool" where
  "monitor_inv m status reports \<longleftrightarrow>
     \<not> mo_stopped m \<and> failed_last (mo_consecutiveFailures m) reports \<and>
     (if mo_inFlight m then mo_timer m = None \<and> mo_consecutiveFailures m < MAX_CONSECUTIVE_FAILURES
      else case mo_timer m of
             None \<Rightarrow> status = H_disconnected \<and> mo_consecutiveFailures m = MAX_CONSECUTIVE_FAILURES
           | Some d \<Rightarrow>
               (if mo_consecutiveFailures m = 0 then status = H_connected \<and> d = HEALTH_POLL_INTERVAL_MS
                else status = H_retrying \<and> d = HEALTH_RETRY_INTERVAL_MS \<and> mo_consecutiveFailures m < MAX_CONSECUTIVE_FAILURES))"

definition health_inv :: "health \<Rightarrow> bool" where
  "health_inv h \<longleftrightarrow> list_all mo_stopped (he_old h) \<and>
     (case he_monitor h of
        None \<Rightarrow> not_monitored (he_screen h)
      | Some m \<Rightarrow> \<not> not_monitored (he_screen h) \<and> monitor_inv m (he_status h) (he_reports h))"

lemma validate_end_inv:
  assumes "validate_end ok m h = (m1, h1)" and "monitor_inv m (he_status h) (he_reports h)" and "mo_inFlight m"
  shows "monitor_inv m1 (he_status h1) (he_reports h1) \<and> he_screen h1 = he_screen h \<and> he_old h1 = he_old h"
proof (cases ok)
  case True
  then show ?thesis using assms
    by (auto simp: validate_end_def monitor_inv_def health_schedule_def Let_def MAX_CONSECUTIVE_FAILURES_def)
next
  case False
  then show ?thesis using assms failed_last_Suc [of "mo_consecutiveFailures m" "he_reports h"]
    by (auto simp: validate_end_def monitor_inv_def health_schedule_def Let_def MAX_CONSECUTIVE_FAILURES_def split: if_splits)
qed

lemma old_end: "mo_stopped m \<Longrightarrow> validate_end ok m h = (m\<lparr>mo_inFlight := False\<rparr>, h)"
  by (simp add: validate_end_def)

lemma effect_inv:
  "list_all mo_stopped (he_old h) \<Longrightarrow> he_monitor h = None \<Longrightarrow> health_inv (health_effect h)"
  by (auto simp: health_inv_def health_effect_def validate_start_def new_monitor_def monitor_inv_def MAX_CONSECUTIVE_FAILURES_def)

lemma cleanup_frame:
  "list_all mo_stopped (he_old h) \<Longrightarrow> list_all mo_stopped (he_old (health_cleanup h))"
  "he_monitor (health_cleanup h) = None"
  by (auto simp: health_cleanup_def Let_def split: option.splits)

lemma restart_inv: "list_all mo_stopped (he_old h) \<Longrightarrow> health_inv (health_effect (health_cleanup h))"
  by (intro effect_inv cleanup_frame)

lemma event_inv: "health_inv h \<Longrightarrow> health_inv (health_step e h)"
proof (induction e h rule: health_step.induct)
  case (1 scr h)
  have "list_all mo_stopped (he_old (h\<lparr>he_screen := scr\<rparr>))" using 1 by (simp add: health_inv_def)
  from restart_inv [OF this] show ?case using 1 by simp
next
  case (2 h)
  have "list_all mo_stopped (he_old (h\<lparr>he_status := H_checking\<rparr>))" using 2 by (simp add: health_inv_def)
  from restart_inv [OF this] show ?case by (simp add: retryConnection_def)
next
  case (3 h)
  then show ?case
    by (cases "he_monitor h")
       (auto simp: health_inv_def monitor_inv_def validate_start_def MAX_CONSECUTIVE_FAILURES_def split: if_splits option.splits)
next
  case (4 ok h)
  then show ?case
  proof (cases "he_monitor h")
    case (Some m)
    obtain m1 h1 where v: "validate_end ok m h = (m1, h1)" by fastforce
    show ?thesis using 4 Some v validate_end_inv [OF v] by (auto simp: health_inv_def)
  qed simp
next
  case (5 i ok h)
  then show ?case
    by (auto simp: health_inv_def old_end list_all_length nth_list_update split: option.splits)
next
  case (6 h)
  then show ?case
    by (cases "he_monitor h")
       (auto simp: health_inv_def monitor_inv_def app_active_def validate_start_def MAX_CONSECUTIVE_FAILURES_def split: if_splits option.splits)
qed

subsection \<open>Property\<close>

definition run_health :: "health_event list \<Rightarrow> health \<Rightarrow> health" where
  "run_health evs h = fold health_step evs h"

interpretation hm: event_machine health_step health_inv
  by unfold_locales (rule event_inv)

lemma new_inv: "health_inv (new_health scr)"
  unfolding new_health_def by (rule effect_inv) simp_all

text \<open>
  C22. The monitor never falls asleep: on a monitored screen, after any sequence of screen
  changes, retries, timers, answers and returns to the foreground, exactly one of three
  things holds: a ping is under way, a timer is armed (five seconds after a success, two
  after a failure), or the last three pings failed in a row and the screen says so. On the
  other screens nothing runs and no status is shown. Answers for an effect that was stopped
  change neither the status nor the reports.
\<close>

theorem monitor_never_sleeps:
  assumes "h = run_health evs (new_health scr)"
  shows "(not_monitored (he_screen h) \<longrightarrow> he_monitor h = None \<and> shown_health h = H_idle) \<and>
    (\<not> not_monitored (he_screen h) \<longrightarrow>
       (\<exists>m. he_monitor h = Some m \<and>
          (mo_inFlight m \<and> mo_timer m = None \<or>
           \<not> mo_inFlight m \<and> mo_timer m = Some HEALTH_POLL_INTERVAL_MS \<and> shown_health h = H_connected \<or>
           \<not> mo_inFlight m \<and> mo_timer m = Some HEALTH_RETRY_INTERVAL_MS \<and> shown_health h = H_retrying \<or>
           \<not> mo_inFlight m \<and> mo_timer m = None \<and> shown_health h = H_disconnected \<and> failed_last 3 (he_reports h)))) \<and>
    (\<forall>i ok. he_status (health_step (Ev_old_pong i ok) h) = he_status h \<and>
            he_reports (health_step (Ev_old_pong i ok) h) = he_reports h)"
proof -
  have inv: "health_inv h" unfolding assms run_health_def by (rule hm.run_inv [OF new_inv])
  have old: "he_status (health_step (Ev_old_pong i ok) h) = he_status h \<and>
      he_reports (health_step (Ev_old_pong i ok) h) = he_reports h" for i ok
    using inv by (auto simp: health_inv_def list_all_length old_end)
  show ?thesis
  proof (cases "he_monitor h")
    case None
    then show ?thesis using inv old by (simp add: health_inv_def shown_health_def)
  next
    case (Some m)
    then have "monitor_inv m (he_status h) (he_reports h)" "\<not> not_monitored (he_screen h)" using inv by (simp_all add: health_inv_def)
    then show ?thesis using Some old
      by (auto simp: monitor_inv_def shown_health_def MAX_CONSECUTIVE_FAILURES_def split: if_splits option.splits)
  qed
qed

theorem monitor_never_sleeps_witness:
  "shown_health (run_health [Ev_pong True, Ev_timer, Ev_pong False, Ev_timer, Ev_pong False, Ev_timer, Ev_pong False] (new_health S_home)) = H_disconnected \<and>
   failed_last 3 (he_reports (run_health [Ev_pong True, Ev_timer, Ev_pong False, Ev_timer, Ev_pong False, Ev_timer, Ev_pong False] (new_health S_home)))"
proof -
  let ?h = "run_health [Ev_pong True, Ev_timer, Ev_pong False, Ev_timer, Ev_pong False, Ev_timer, Ev_pong False] (new_health S_home)"
  have "shown_health ?h = H_disconnected" "he_screen ?h = S_home" "map_option mo_inFlight (he_monitor ?h) = Some False" by code_simp+
  then show ?thesis using monitor_never_sleeps [OF refl, of "[Ev_pong True, Ev_timer, Ev_pong False, Ev_timer, Ev_pong False, Ev_timer, Ev_pong False]" S_home]
    by (auto simp: not_monitored_def)
qed

end
