(* ===== verification/ConnectionSettings.thy ===== *)
theory ConnectionSettings
  imports ConnectionSecurity NativeBridge Interfaces
begin

text \<open>
  The stored settings: \<open>app/hooks/useTransferPreferences.ts\<close> and
  \<open>useConnectionPreferences.ts\<close>, and the discovery of nearby desktops,
  \<open>useDiscoveryController.ts\<close>. Reading and writing a setting are asynchronous: the answer of
  the storage and the end of a write are events; writes are chained, so they run in the
  order in which they were requested. The three transfer settings follow one pattern, which
  is a record over the type of the setting.
\<close>

subsection \<open>useTransferPreferences.ts\<close>

text \<open>
  A setting: its value, the revision that a choice of the user increments, the revision at
  the start of the load (\<open>None\<close> once the load has been answered), whether the effect is
  active, the chained writes and what the storage holds.
\<close>

record 'a setting =
  se_current :: 'a
  se_revision :: nat
  se_loading :: "nat option"
  se_active :: bool
  se_writes :: "'a list"
  se_stored :: "string option"
  se_errors :: nat

definition mount_setting :: "'a \<Rightarrow> string option \<Rightarrow> 'a setting" where
  "mount_setting initial stored =
     \<lparr>se_current = initial, se_revision = 0, se_loading = Some 0, se_active = True, se_writes = [], se_stored = stored, se_errors = 0\<rparr>"

definition persist_setting :: "'a \<Rightarrow> 'a setting \<Rightarrow> 'a setting" where
  "persist_setting v p = p\<lparr>se_revision := se_revision p + 1, se_current := v, se_writes := se_writes p @ [v]\<rparr>"

text \<open>The load is answered: with what the storage held when it was read, or with an error.\<close>

definition setting_loaded :: "(string \<Rightarrow> 'a option) \<Rightarrow> (string option) option \<Rightarrow> 'a setting \<Rightarrow> 'a setting" where
  "setting_loaded parse answer p =
     (case se_loading p of
        None \<Rightarrow> p
      | Some atLoadStart \<Rightarrow>
          (let p1 = p\<lparr>se_loading := None\<rparr>
           in case answer of
                None \<Rightarrow> p1\<lparr>se_errors := se_errors p1 + 1\<rparr>
              | Some found \<Rightarrow>
                  (if se_active p1 \<and> se_revision p1 = atLoadStart
                   then (case found of
                           None \<Rightarrow> p1
                         | Some raw \<Rightarrow> (case parse raw of None \<Rightarrow> p1 | Some v \<Rightarrow> p1\<lparr>se_current := v\<rparr>))
                   else p1)))"

definition write_done :: "('a \<Rightarrow> string) \<Rightarrow> bool \<Rightarrow> 'a setting \<Rightarrow> 'a setting" where
  "write_done print_setting ok p =
     (case se_writes p of
        [] \<Rightarrow> p
      | v # rest \<Rightarrow>
          (if ok then p\<lparr>se_writes := rest, se_stored := Some (print_setting v)\<rparr>
           else p\<lparr>se_writes := rest, se_errors := se_errors p + 1\<rparr>))"

definition unmount_setting :: "'a setting \<Rightarrow> 'a setting" where
  "unmount_setting p = p\<lparr>se_active := False\<rparr>"

definition parse_mode :: "string \<Rightarrow> PreparationMode option" where
  "parse_mode raw = (if raw = ''streaming'' then Some Streaming else if raw = ''prepare-first'' then Some Prepare_first else None)"

fun print_mode :: "PreparationMode \<Rightarrow> string" where
  "print_mode Streaming = ''streaming''"
| "print_mode Prepare_first = ''prepare-first''"

definition parse_flag :: "string \<Rightarrow> bool option" where
  "parse_flag raw = (if raw = ''true'' then Some True else if raw = ''false'' then Some False else None)"

definition print_flag :: "bool \<Rightarrow> string" where
  "print_flag b = (if b then ''true'' else ''false'')"

record transfer_preferences =
  tp_preparationMode :: "PreparationMode setting"
  tp_skipExactDuplicates :: "bool setting"
  tp_includeAdditional :: "bool setting"

definition mount_preferences :: "string option \<Rightarrow> string option \<Rightarrow> string option \<Rightarrow> transfer_preferences" where
  "mount_preferences mode skip additional =
     \<lparr>tp_preparationMode = mount_setting Prepare_first mode, tp_skipExactDuplicates = mount_setting True skip,
      tp_includeAdditional = mount_setting False additional\<rparr>"

definition persistPreparationMode :: "PreparationMode \<Rightarrow> transfer_preferences \<Rightarrow> transfer_preferences" where
  "persistPreparationMode mode t = t\<lparr>tp_preparationMode := persist_setting mode (tp_preparationMode t)\<rparr>"

definition persistSkipExactDuplicates :: "bool \<Rightarrow> transfer_preferences \<Rightarrow> transfer_preferences" where
  "persistSkipExactDuplicates enabled t = t\<lparr>tp_skipExactDuplicates := persist_setting enabled (tp_skipExactDuplicates t)\<rparr>"

definition persistIncludeAdditionalMediaComponents :: "bool \<Rightarrow> transfer_preferences \<Rightarrow> transfer_preferences" where
  "persistIncludeAdditionalMediaComponents enabled t = t\<lparr>tp_includeAdditional := persist_setting enabled (tp_includeAdditional t)\<rparr>"

subsection \<open>useConnectionPreferences.ts\<close>

text \<open>The load of a connection setting has no revision: it always sets the value.\<close>

record flag =
  fl_current :: bool
  fl_loading :: bool
  fl_stored :: "string option"
  fl_errors :: nat

definition mount_flag :: "string option \<Rightarrow> flag" where
  "mount_flag stored = \<lparr>fl_current = False, fl_loading = True, fl_stored = stored, fl_errors = 0\<rparr>"

definition flag_loaded :: "(string option) option \<Rightarrow> flag \<Rightarrow> flag" where
  "flag_loaded answer p =
     (if \<not> fl_loading p then p
      else case answer of
             Some found \<Rightarrow> p\<lparr>fl_loading := False, fl_current := (found = Some ''true'')\<rparr>
           | None \<Rightarrow> p\<lparr>fl_loading := False, fl_current := False, fl_errors := fl_errors p + 1\<rparr>)"

definition persist_flag :: "bool \<Rightarrow> bool \<Rightarrow> flag \<Rightarrow> flag" where
  "persist_flag enabled ok p =
     (let p1 = p\<lparr>fl_current := enabled\<rparr>
      in if ok then p1\<lparr>fl_stored := Some (print_flag enabled)\<rparr> else p1\<lparr>fl_errors := fl_errors p1 + 1\<rparr>)"

subsection \<open>useDiscoveryController.ts\<close>

record discovery =
  di_servers :: "DiscoveredServer list"
  di_isDiscovering :: bool
  di_failed :: bool
  di_running :: nat

definition new_discovery :: discovery where
  "new_discovery = \<lparr>di_servers = [], di_isDiscovering = False, di_failed = False, di_running = 0\<rparr>"

definition performDiscovery :: "bool \<Rightarrow> discovery \<Rightarrow> discovery" where
  "performDiscovery available d =
     (if \<not> available then d else d\<lparr>di_isDiscovering := True, di_failed := False, di_running := di_running d + 1\<rparr>)"

definition discovery_done :: "DiscoveredServer list option \<Rightarrow> discovery \<Rightarrow> discovery" where
  "discovery_done answer d =
     (if di_running d = 0 then d
      else
        (let d1 = d\<lparr>di_running := di_running d - 1, di_isDiscovering := False\<rparr>
         in case answer of
              Some servers \<Rightarrow> d1\<lparr>di_servers := servers\<rparr>
            | None \<Rightarrow> d1\<lparr>di_servers := [], di_failed := True\<rparr>))"

definition discoverServers :: "bool \<Rightarrow> bool \<Rightarrow> discovery \<Rightarrow> discovery" where
  "discoverServers enabled available d = (if enabled then performDiscovery available d else d)"

definition clearDiscoveredServers :: "discovery \<Rightarrow> discovery" where
  "clearDiscoveredServers d = d\<lparr>di_servers := [], di_failed := False\<rparr>"

text \<open>The setting and the discovery together: \<open>updateNearbyDiscovery(false)\<close> of \<open>AppShell.tsx\<close>.\<close>

definition disableNearbyDiscovery :: "bool \<Rightarrow> flag \<times> discovery \<Rightarrow> flag \<times> discovery" where
  "disableNearbyDiscovery ok = (\<lambda>(p, d). (persist_flag False ok (p\<lparr>fl_current := False\<rparr>), clearDiscoveredServers d))"

subsection \<open>The events of a setting\<close>

datatype 'a setting_event =
    Choose 'a
  | Loaded "(string option) option"
  | Written bool
  | Unmounted

fun setting_step :: "('a \<Rightarrow> string) \<Rightarrow> (string \<Rightarrow> 'a option) \<Rightarrow> 'a setting_event \<Rightarrow> 'a setting \<Rightarrow> 'a setting" where
  "setting_step pr parse (Choose v) p = persist_setting v p"
| "setting_step pr parse (Loaded answer) p = setting_loaded parse answer p"
| "setting_step pr parse (Written ok) p = write_done pr ok p"
| "setting_step pr parse Unmounted p = unmount_setting p"

fun choices :: "'a setting_event list \<Rightarrow> 'a list" where
  "choices [] = []"
| "choices (Choose v # es) = v # choices es"
| "choices (_ # es) = choices es"

lemma choices_append [simp]: "choices (es @ fs) = choices es @ choices fs"
  by (induction es rule: choices.induct) simp_all

lemma loaded_frame:
  "se_revision (setting_loaded parse answer p) = se_revision p" "se_writes (setting_loaded parse answer p) = se_writes p"
  "se_stored (setting_loaded parse answer p) = se_stored p" "se_loading (setting_loaded parse answer p) = None"
  by (auto simp: setting_loaded_def Let_def split: option.splits)

lemma loaded_later:
  assumes "\<forall>k. se_loading p = Some k \<longrightarrow> k < se_revision p"
  shows "se_current (setting_loaded parse answer p) = se_current p"
  using assms by (auto simp: setting_loaded_def Let_def split: option.splits)

subsection \<open>A setting keeps the choices of the user\<close>

locale stored_setting =
  fixes pr :: "'a \<Rightarrow> string" and parse :: "string \<Rightarrow> 'a option"
  assumes parse_print: "parse (pr v) = Some v"
begin

definition setting_inv :: "string option \<Rightarrow> 'a setting_event list \<Rightarrow> 'a setting \<Rightarrow> bool" where
  "setting_inv stored es p \<longleftrightarrow>
     se_revision p = length (choices es) \<and> (\<forall>k. se_loading p = Some k \<longrightarrow> k = 0) \<and>
     (choices es \<noteq> [] \<longrightarrow> se_current p = last (choices es)) \<and>
     (\<exists>ws. choices es = ws @ se_writes p \<and>
        (Written False \<notin> set es \<longrightarrow> se_stored p = (if ws = [] then stored else Some (pr (last ws)))))"

lemma setting_step_inv: "setting_inv stored es p \<Longrightarrow> setting_inv stored (es @ [e]) (setting_step pr parse e p)"
proof (cases e)
  case (Choose v)
  assume "setting_inv stored es p"
  then show ?thesis by (auto simp: Choose setting_inv_def persist_setting_def)
next
  case (Loaded answer)
  assume inv: "setting_inv stored es p"
  then have r: "se_revision p = length (choices es)" "\<forall>k. se_loading p = Some k \<longrightarrow> k = 0" unfolding setting_inv_def by blast+
  have "choices es \<noteq> [] \<Longrightarrow> se_current (setting_loaded parse answer p) = se_current p"
    by (rule loaded_later) (use r in auto)
  then show ?thesis using inv loaded_frame [of parse answer p] by (auto simp: Loaded setting_inv_def)
next
  case (Written ok)
  assume inv: "setting_inv stored es p"
  then obtain ws where ws: "choices es = ws @ se_writes p"
    "Written False \<notin> set es \<longrightarrow> se_stored p = (if ws = [] then stored else Some (pr (last ws)))" by (auto simp: setting_inv_def)
  show ?thesis
  proof (cases "se_writes p")
    case Nil
    then show ?thesis using inv by (auto simp: Written setting_inv_def write_done_def)
  next
    case (Cons v rest)
    then have "choices es = (ws @ [v]) @ rest" using ws(1) by simp
    then show ?thesis using inv ws(2) Cons unfolding Written setting_inv_def
      by (auto simp: write_done_def intro: exI [of _ "ws @ [v]"])
  qed
next
  case Unmounted
  assume "setting_inv stored es p"
  then show ?thesis by (auto simp: Unmounted setting_inv_def unmount_setting_def)
qed

lemma run_setting_inv: "setting_inv stored es (fold (setting_step pr parse) es (mount_setting initial stored))"
proof (induction es rule: rev_induct)
  case Nil
  then show ?case by (simp add: setting_inv_def mount_setting_def)
next
  case (snoc e es)
  then show ?case using setting_step_inv by simp
qed

lemma choice_kept:
  assumes "p = fold (setting_step pr parse) es (mount_setting initial stored)" and "choices es \<noteq> []"
  shows "se_current p = last (choices es)"
    and "se_writes p = [] \<Longrightarrow> Written False \<notin> set es \<Longrightarrow>
      se_current (setting_loaded parse (Some (se_stored p)) (mount_setting initial' (se_stored p))) = last (choices es)"
proof -
  have inv: "setting_inv stored es p" using run_setting_inv assms(1) by simp
  then show "se_current p = last (choices es)" using assms(2) by (simp add: setting_inv_def)
  assume "se_writes p = []" "Written False \<notin> set es"
  then have "se_stored p = Some (pr (last (choices es)))" using inv assms(2) by (auto simp: setting_inv_def)
  then show "se_current (setting_loaded parse (Some (se_stored p)) (mount_setting initial' (se_stored p))) = last (choices es)"
    by (simp add: setting_loaded_def mount_setting_def parse_print)
qed

end

interpretation mode_setting: stored_setting print_mode parse_mode
proof
  show "parse_mode (print_mode v) = Some v" for v by (cases v) (simp_all add: parse_mode_def)
qed

interpretation flag_setting: stored_setting print_flag parse_flag
  by unfold_locales (simp add: parse_flag_def print_flag_def)

subsection \<open>Properties\<close>

text \<open>
  C23. A transfer setting keeps the choice of the user: whenever the stored value arrives,
  the setting shows the last choice, and once the chained writes have ended without an
  error, the next start of the app reads exactly this choice. This holds for the preparation
  mode and for the two switches.
\<close>

theorem transfer_choice_kept:
  assumes "p = fold (setting_step print_mode parse_mode) es (mount_setting Prepare_first stored)" and "choices es \<noteq> []"
    and "q = fold (setting_step print_flag parse_flag) fs (mount_setting initial stored)" and "choices fs \<noteq> []"
  shows "se_current p = last (choices es) \<and> se_current q = last (choices fs) \<and>
    (se_writes p = [] \<and> Written False \<notin> set es \<longrightarrow>
       se_current (setting_loaded parse_mode (Some (se_stored p)) (mount_setting Prepare_first (se_stored p))) = last (choices es)) \<and>
    (se_writes q = [] \<and> Written False \<notin> set fs \<longrightarrow>
       se_current (setting_loaded parse_flag (Some (se_stored q)) (mount_setting initial (se_stored q))) = last (choices fs))"
  using mode_setting.choice_kept [OF assms(1,2)] flag_setting.choice_kept [OF assms(3,4)] by blast

theorem transfer_choice_kept_witness:
  "se_current (fold (setting_step print_mode parse_mode) [Choose Streaming, Loaded (Some (Some ''prepare-first'')), Written True]
     (mount_setting Prepare_first None)) = Streaming"
  using transfer_choice_kept [OF refl _ refl, of "[Choose Streaming, Loaded (Some (Some ''prepare-first'')), Written True]" "[Choose True]" None True]
  by simp

text \<open>
  Late answers override the user in the connection settings and in the discovery: a choice
  made before the stored value arrives is shown as the old value although the new one is
  stored, and desktops found by a search that was still running when discovery was turned
  off appear again.
\<close>

theorem late_answers_override:
  "flag_loaded (Some None) (persist_flag True True (mount_flag None)) =
     \<lparr>fl_current = False, fl_loading = False, fl_stored = Some ''true'', fl_errors = 0\<rparr> \<and>
   (let (p, d) = disableNearbyDiscovery True (persist_flag True True f, performDiscovery True d0)
    in \<not> fl_current p \<and> di_servers d = [] \<and> di_servers (discovery_done (Some servers) d) = servers)"
  by (simp add: flag_loaded_def persist_flag_def mount_flag_def print_flag_def Let_def disableNearbyDiscovery_def
      performDiscovery_def discovery_done_def clearDiscoveredServers_def)

end
