(* ===== verification/ReceiverHistory.thy ===== *)
theory ReceiverHistory
  imports ApiClient Interfaces
begin

text \<open>
  The transfer history of the receiver: the keys and the status of its items
  (\<open>features/dashboard/hooks/useDashboardHistory.ts\<close>) and the hook that shows it
  (\<open>features/history/useReceiverHistory.ts\<close>). \<open>String(n)\<close> of a number is the parameter
  \<open>show_num\<close>. A refresh is split at its await; answers arrive in any order. Dates are shown
  by the platform and not modelled.
\<close>

subsection \<open>useDashboardHistory.ts\<close>

record HistoryItem =
  hi_item :: TransferHistoryItem
  hi_clientHistoryId :: "string option"

definition history_number :: "string \<Rightarrow> HistoryItem \<Rightarrow> jsnum option" where
  "history_number field item = (case map_of (thi_numbers (hi_item item)) field of Some v \<Rightarrow> v | None \<Rightarrow> None)"

definition number_or_zero :: "string \<Rightarrow> HistoryItem \<Rightarrow> jsnum" where
  "number_or_zero field item = (case history_number field item of Some n \<Rightarrow> n | None \<Rightarrow> Fin 0)"

definition completed_text :: "(jsnum \<Rightarrow> string) \<Rightarrow> HistoryItem \<Rightarrow> string" where
  "completed_text show_num item =
     (case thi_completedAt (hi_item item) of
        Some (JNum n) \<Rightarrow> show_num n
      | Some (JStr t) \<Rightarrow> t
      | _ \<Rightarrow> ''unknown-date'')"

definition fallbackHistoryKey :: "(jsnum \<Rightarrow> string) \<Rightarrow> HistoryItem \<Rightarrow> string" where
  "fallbackHistoryKey show_num item =
     ''history:'' @ completed_text show_num item @ '':'' @ show_num (number_or_zero ''uploadedFiles'' item) @ '':'' @
     show_num (number_or_zero ''skippedFiles'' item) @ '':'' @ show_num (number_or_zero ''failedFiles'' item)"

definition has_session :: "HistoryItem \<Rightarrow> bool" where
  "has_session item \<longleftrightarrow> (case thi_sessionId (hi_item item) of Some i \<Rightarrow> i \<noteq> [] | None \<Rightarrow> False)"

definition historyItemKey :: "(jsnum \<Rightarrow> string) \<Rightarrow> HistoryItem \<Rightarrow> string" where
  "historyItemKey show_num item =
     (case thi_sessionId (hi_item item) of
        Some i \<Rightarrow> (if i \<noteq> [] then i else case hi_clientHistoryId item of
                      Some c \<Rightarrow> (if c \<noteq> [] then c else fallbackHistoryKey show_num item)
                    | None \<Rightarrow> fallbackHistoryKey show_num item)
      | None \<Rightarrow> (case hi_clientHistoryId item of
                    Some c \<Rightarrow> (if c \<noteq> [] then c else fallbackHistoryKey show_num item)
                  | None \<Rightarrow> fallbackHistoryKey show_num item))"

definition client_id :: "string \<Rightarrow> nat \<Rightarrow> string" where
  "client_id baseKey occurrence = (if occurrence = 0 then baseKey else baseKey @ '':duplicate-'' @ show_nat occurrence)"

fun normalize_from :: "(jsnum \<Rightarrow> string) \<Rightarrow> (string \<times> nat) list \<Rightarrow> HistoryItem list \<Rightarrow> HistoryItem list" where
  "normalize_from show_num seen [] = []"
| "normalize_from show_num seen (item # items) =
     (if has_session item then item # normalize_from show_num seen items
      else
        (let baseKey = fallbackHistoryKey show_num item;
             occurrence = (case map_get seen baseKey of Some n \<Rightarrow> n | None \<Rightarrow> 0)
         in item\<lparr>hi_clientHistoryId := Some (client_id baseKey occurrence)\<rparr> #
            normalize_from show_num (map_set baseKey (occurrence + 1) seen) items))"

definition normalizeHistoryItems :: "(jsnum \<Rightarrow> string) \<Rightarrow> TransferHistoryItem list \<Rightarrow> HistoryItem list" where
  "normalizeHistoryItems show_num items =
     normalize_from show_num [] (map (\<lambda>i. \<lparr>hi_item = i, hi_clientHistoryId = None\<rparr>) items)"

text \<open>Addition, and the comparison \<open>===\<close>, of numbers.\<close>

fun num_add :: "jsnum \<Rightarrow> jsnum \<Rightarrow> jsnum" where
  "num_add (Fin a) (Fin b) = Fin (a + b)"
| "num_add NaN b = NaN"
| "num_add a NaN = NaN"
| "num_add PosInf NegInf = NaN"
| "num_add NegInf PosInf = NaN"
| "num_add PosInf b = PosInf"
| "num_add NegInf b = NegInf"
| "num_add a PosInf = PosInf"
| "num_add a NegInf = NegInf"

definition num_eq :: "jsnum \<Rightarrow> jsnum \<Rightarrow> bool" where
  "num_eq a b \<longleftrightarrow> a \<noteq> NaN \<and> a = b"

definition historyStatus :: "HistoryItem \<Rightarrow> string" where
  "historyStatus item =
     (let status = thi_completionStatus (hi_item item);
          failed = number_or_zero ''failedFiles'' item;
          uploaded = number_or_zero ''uploadedFiles'' item;
          skipped = number_or_zero ''skippedFiles'' item;
          terminalFiles = num_add (num_add uploaded skipped) failed;
          expandedFiles = (case history_number ''expandedFiles'' item of Some n \<Rightarrow> Some n | None \<Rightarrow> history_number ''selectedFiles'' item)
      in if status = Some Cancelled_status then ''Canceled''
         else if status = Some Fatal then ''Failed''
         else if num_eq failed (Fin 0) \<and> (case expandedFiles of Some n \<Rightarrow> num_lt terminalFiles n | None \<Rightarrow> False) then ''Canceled''
         else if num_lt (Fin 0) failed then (if num_eq failed terminalFiles then ''Failed'' else ''Completed with errors'')
         else if num_eq uploaded (Fin 0) \<and> num_lt (Fin 0) skipped then ''Skipped duplicates''
         else if status = Some Mixed then ''Completed with errors''
         else ''Completed'')"

subsection \<open>useReceiverHistory.ts\<close>

record receiver_history =
  rh_isConnected :: bool
  rh_items :: "HistoryItem list"
  rh_loading :: bool
  rh_error :: "string option"
  rh_requestId :: nat
  rh_running :: "nat list"

definition new_receiver_history :: receiver_history where
  "new_receiver_history = \<lparr>rh_isConnected = False, rh_items = [], rh_loading = False, rh_error = None, rh_requestId = 0, rh_running = []\<rparr>"

definition invalidate_history :: "receiver_history \<Rightarrow> receiver_history" where
  "invalidate_history h = h\<lparr>rh_requestId := rh_requestId h + 1, rh_items := [], rh_error := None, rh_loading := False\<rparr>"

definition refresh_start :: "receiver_history \<Rightarrow> receiver_history" where
  "refresh_start h =
     (if \<not> rh_isConnected h then invalidate_history h
      else
        (let activeRequest = rh_requestId h + 1
         in h\<lparr>rh_requestId := activeRequest, rh_loading := True, rh_error := None, rh_running := rh_running h @ [activeRequest]\<rparr>))"

definition refresh_done ::
  "(jsnum \<Rightarrow> string) \<Rightarrow> nat \<Rightarrow> api_error + TransferHistoryItem list \<Rightarrow> receiver_history \<Rightarrow> receiver_history" where
  "refresh_done show_num activeRequest answer h =
     (if activeRequest \<notin> set (rh_running h) then h
      else
        (let h1 = h\<lparr>rh_running := removeAll activeRequest (rh_running h)\<rparr>
         in if rh_requestId h1 \<noteq> activeRequest then h1
            else case answer of
                   Inr items \<Rightarrow> h1\<lparr>rh_items := normalizeHistoryItems show_num items, rh_loading := False\<rparr>
                 | Inl e \<Rightarrow> h1\<lparr>rh_error := Some (api_message e), rh_loading := False\<rparr>))"

text \<open>The prop \<open>isConnected\<close> changes; the effect runs when it becomes \<open>false\<close>.\<close>

definition connection_changed :: "bool \<Rightarrow> receiver_history \<Rightarrow> receiver_history" where
  "connection_changed isConnected h =
     (if isConnected = rh_isConnected h then h
      else let h1 = h\<lparr>rh_isConnected := isConnected\<rparr> in if isConnected then h1 else invalidate_history h1)"

text \<open>
  The button \<open>Delete\<close> of the dialog that \<open>confirmClear\<close> opened under the address \<open>scope\<close>:
  the address when it is pressed, the answer of \<open>clearHistory\<close> and the address after it. The
  result says whether the previews of the scope are cleared and which alert is shown.
\<close>

definition delete_pressed ::
  "string \<Rightarrow> string \<Rightarrow> api_error option \<Rightarrow> string \<Rightarrow> receiver_history \<Rightarrow> (bool \<times> string option) \<times> receiver_history" where
  "delete_pressed scope url_before answer url_after h =
     (if url_before \<noteq> scope then ((False, Some ''The connected receiver changed. Try again.''), h)
      else case answer of
             Some e \<Rightarrow> ((False, Some (api_message e)), h)
           | None \<Rightarrow> ((True, None), if url_after = scope then invalidate_history h else h))"

subsection \<open>Lemmas: the keys\<close>

text \<open>What \<open>String\<close> never does to a number: write a colon, or begin with the letter d.\<close>

definition plain_number :: "(jsnum \<Rightarrow> string) \<Rightarrow> bool" where
  "plain_number show_num \<longleftrightarrow> (\<forall>n. CHR '':'' \<notin> set (show_num n) \<and> (\<exists>c cs. show_num n = c # cs \<and> c \<noteq> CHR ''d''))"

definition last_segment :: "string \<Rightarrow> string" where
  "last_segment s = rev (takeWhile (\<lambda>c. c \<noteq> CHR '':'') (rev s))"

lemma last_segment_append: "CHR '':'' \<notin> set t \<Longrightarrow> last_segment (a @ CHR '':'' # t) = t"
  by (auto simp: last_segment_def takeWhile_append takeWhile_eq_all_conv)

lemma show_nat_plain: "CHR '':'' \<notin> set (show_nat n)"
proof (induction n rule: show_nat.induct)
  case (1 n)
  have d: "digit_char k \<noteq> CHR '':''" if "k < 10" for k
  proof
    assume "digit_char k = CHR '':''"
    then have "(of_char (digit_char k) :: nat) = of_char (CHR '':'')" by simp
    then show False using of_char_digit_char [OF that] that by simp
  qed
  show ?case
  proof (cases "n < 10")
    case True
    then show ?thesis using d [OF True] by (simp add: show_nat_small)
  next
    case False
    then show ?thesis using 1 d [of "n mod 10"] by (simp add: show_nat_step)
  qed
qed

definition base_key :: "(jsnum \<Rightarrow> string) \<Rightarrow> string \<Rightarrow> bool" where
  "base_key show_num b \<longleftrightarrow> (\<exists>a n. b = a @ CHR '':'' # show_num n)"

lemma fallback_base: "base_key show_num (fallbackHistoryKey show_num item)"
  unfolding base_key_def fallbackHistoryKey_def
  by (rule exI [of _ "''history:'' @ completed_text show_num item @ '':'' @ show_num (number_or_zero ''uploadedFiles'' item) @ '':'' @
        show_num (number_or_zero ''skippedFiles'' item)"], rule exI [of _ "number_or_zero ''failedFiles'' item"]) simp

lemma base_segment: "plain_number show_num \<Longrightarrow> base_key show_num b \<Longrightarrow> \<exists>n. last_segment b = show_num n"
  by (auto simp: base_key_def plain_number_def last_segment_append)

lemma duplicate_segment: "last_segment (b @ '':duplicate-'' @ show_nat k) = ''duplicate-'' @ show_nat k"
  using last_segment_append [of "''duplicate-'' @ show_nat k" b] show_nat_plain [of k] by simp

lemma base_not_duplicate: "plain_number show_num \<Longrightarrow> base_key show_num b \<Longrightarrow> b \<noteq> b' @ '':duplicate-'' @ show_nat k"
proof
  assume p: "plain_number show_num" "base_key show_num b" and e: "b = b' @ '':duplicate-'' @ show_nat k"
  then obtain n where n: "last_segment b = show_num n" using base_segment by blast
  obtain c cs where "show_num n = c # cs" "c \<noteq> CHR ''d''" using p(1) unfolding plain_number_def by blast
  then show False using n duplicate_segment [of b' k] e by simp
qed

lemma client_id_inj:
  assumes "plain_number show_num" and "base_key show_num b" and "base_key show_num b'" and "client_id b k = client_id b' k'"
  shows "b = b' \<and> k = k'"
proof (cases "k = 0 \<or> k' = 0")
  case True
  then show ?thesis using assms(4) base_not_duplicate [OF assms(1,2), of b' k'] base_not_duplicate [OF assms(1,3), of b k]
    by (auto simp: client_id_def split: if_splits)
next
  case False
  then have e: "b @ '':duplicate-'' @ show_nat k = b' @ '':duplicate-'' @ show_nat k'" using assms(4) by (simp add: client_id_def)
  then have "''duplicate-'' @ show_nat k = ''duplicate-'' @ show_nat k'" using duplicate_segment by metis
  then have "k = k'" by simp
  then show ?thesis using e by simp
qed

text \<open>The keys that the normalization gives to the items without a session, with base and occurrence.\<close>

definition given_keys :: "HistoryItem list \<Rightarrow> string list" where
  "given_keys items = map (\<lambda>i. case hi_clientHistoryId i of Some c \<Rightarrow> c | None \<Rightarrow> []) (filter (\<lambda>i. \<not> has_session i) items)"

lemma has_session_update [simp]: "has_session (item\<lparr>hi_clientHistoryId := x\<rparr>) = has_session item"
  by (simp add: has_session_def)

definition occurrences :: "(string \<times> nat) list \<Rightarrow> string \<Rightarrow> nat" where
  "occurrences seen b = (case map_get seen b of Some n \<Rightarrow> n | None \<Rightarrow> 0)"

lemma occurrences_set [simp]: "occurrences (map_set b n seen) b' = (if b' = b then n else occurrences seen b')"
  by (simp add: occurrences_def)

lemma normalize_keys:
  assumes "plain_number show_num"
  shows "distinct (given_keys (normalize_from show_num seen items)) \<and>
    (\<forall>c \<in> set (given_keys (normalize_from show_num seen items)).
       \<exists>b k. base_key show_num b \<and> c = client_id b k \<and> occurrences seen b \<le> k)"
proof (induction items arbitrary: seen)
  case Nil
  then show ?case by (simp add: given_keys_def)
next
  case (Cons item items)
  show ?case
  proof (cases "has_session item")
    case True
    then have "given_keys (normalize_from show_num seen (item # items)) = given_keys (normalize_from show_num seen items)"
      by (simp add: given_keys_def)
    then show ?thesis using Cons.IH by simp
  next
    case False
    let ?b = "fallbackHistoryKey show_num item" and ?k = "occurrences seen (fallbackHistoryKey show_num item)"
    let ?rest = "given_keys (normalize_from show_num (map_set ?b (?k + 1) seen) items)"
    have k: "given_keys (normalize_from show_num seen (item # items)) = client_id ?b ?k # ?rest"
      using False by (simp add: given_keys_def occurrences_def Let_def)
    have r: "\<exists>b k. base_key show_num b \<and> c = client_id b k \<and> occurrences (map_set ?b (?k + 1) seen) b \<le> k" if "c \<in> set ?rest" for c
      using Cons.IH [of "map_set ?b (?k + 1) seen"] that by blast
    have "client_id ?b ?k \<notin> set ?rest"
    proof
      assume "client_id ?b ?k \<in> set ?rest"
      from r [OF this] obtain b j where b: "base_key show_num b" "client_id ?b ?k = client_id b j"
        "occurrences (map_set ?b (?k + 1) seen) b \<le> j" by blast
      from client_id_inj [OF assms fallback_base b(1,2)] have "b = ?b" "j = ?k" by blast+
      then show False using b(3) by simp
    qed
    moreover have "\<exists>b k. base_key show_num b \<and> c = client_id b k \<and> occurrences seen b \<le> k"
      if c: "c \<in> set (client_id ?b ?k # ?rest)" for c
    proof (cases "c = client_id ?b ?k")
      case True
      then show ?thesis using fallback_base by blast
    next
      case False
      then have "c \<in> set ?rest" using c by simp
      from r [OF this] obtain b j where b: "base_key show_num b" "c = client_id b j"
        "occurrences (map_set ?b (?k + 1) seen) b \<le> j" by blast
      moreover have "occurrences seen b \<le> j" using b(3) by (cases "b = ?b") simp_all
      ultimately show ?thesis by blast
    qed
    ultimately show ?thesis unfolding k using Cons.IH [of "map_set ?b (?k + 1) seen"] by simp
  qed
qed

subsection \<open>Lemmas: the hook\<close>

datatype history_event =
    Hv_connection bool
  | Hv_refresh
  | Hv_answer nat "api_error + TransferHistoryItem list"
  | Hv_delete string string "api_error option" string

fun history_step :: "(jsnum \<Rightarrow> string) \<Rightarrow> history_event \<Rightarrow> receiver_history \<Rightarrow> receiver_history" where
  "history_step show_num (Hv_connection c) h = connection_changed c h"
| "history_step show_num Hv_refresh h = refresh_start h"
| "history_step show_num (Hv_answer i answer) h = refresh_done show_num i answer h"
| "history_step show_num (Hv_delete scope url answer url') h = snd (delete_pressed scope url answer url' h)"

definition history_inv :: "receiver_history \<Rightarrow> bool" where
  "history_inv h \<longleftrightarrow>
     distinct (rh_running h) \<and> (\<forall>i \<in> set (rh_running h). i \<le> rh_requestId h) \<and>
     rh_loading h = (rh_requestId h \<in> set (rh_running h)) \<and>
     (rh_loading h \<longrightarrow> rh_error h = None) \<and>
     (\<not> rh_isConnected h \<longrightarrow> rh_items h = [] \<and> rh_error h = None \<and> \<not> rh_loading h)"

lemma invalidate_inv: "history_inv h \<Longrightarrow> history_inv (invalidate_history h)"
  by (auto simp: history_inv_def invalidate_history_def)

lemma history_step_inv: "history_inv h \<Longrightarrow> history_inv (history_step show_num e h)"
proof (cases e)
  case (Hv_connection c)
  assume "history_inv h"
  then show ?thesis using Hv_connection
    by (auto simp: connection_changed_def Let_def history_inv_def invalidate_history_def)
next
  case Hv_refresh
  assume "history_inv h"
  then show ?thesis using Hv_refresh invalidate_inv [of h]
    by (auto simp: refresh_start_def Let_def history_inv_def)
next
  case (Hv_answer i answer)
  assume "history_inv h"
  then show ?thesis using Hv_answer
    by (auto simp: refresh_done_def Let_def history_inv_def distinct_removeAll split: sum.splits)
next
  case (Hv_delete scope url answer url')
  assume "history_inv h"
  then show ?thesis using Hv_delete invalidate_inv [of h]
    by (auto simp: delete_pressed_def split: option.splits)
qed

interpretation rh: event_machine "history_step show_num" history_inv for show_num
  by unfold_locales (rule history_step_inv)

subsection \<open>Properties\<close>

text \<open>
  C24. The history view never shows an outdated answer: after any sequence of connection
  changes, refreshes, answers in any order and deletions, the view is loading exactly while
  its newest request is under way; without a connection it shows nothing; and the answer of
  a request that a newer one, a deletion or a disconnection superseded changes nothing that
  is shown.
\<close>

theorem history_current:
  assumes "h = fold (history_step show_num) es new_receiver_history"
  shows "rh_loading h = (rh_requestId h \<in> set (rh_running h)) \<and>
    (\<not> rh_isConnected h \<longrightarrow> rh_items h = [] \<and> rh_error h = None \<and> \<not> rh_loading h) \<and>
    (i \<noteq> rh_requestId h \<longrightarrow>
       rh_items (refresh_done show_num i answer h) = rh_items h \<and> rh_error (refresh_done show_num i answer h) = rh_error h \<and>
       rh_loading (refresh_done show_num i answer h) = rh_loading h)"
proof -
  have "history_inv h" unfolding assms
    by (rule rh.run_inv) (simp add: history_inv_def new_receiver_history_def)
  then show ?thesis by (auto simp: history_inv_def refresh_done_def Let_def)
qed

theorem history_current_witness:
  "rh_items (refresh_done (\<lambda>_. ''0'') 1 (Inr [parse_history_item (JObj [])])
     (fold (history_step (\<lambda>_. ''0'')) [Hv_connection True, Hv_refresh, Hv_delete ''a'' ''a'' None ''a''] new_receiver_history)) = []"
proof -
  let ?h = "fold (history_step (\<lambda>_. ''0'')) [Hv_connection True, Hv_refresh, Hv_delete ''a'' ''a'' None ''a''] new_receiver_history"
  have "rh_requestId ?h = 2" "rh_items ?h = []" by code_simp+
  then show ?thesis using history_current [OF refl, of "\<lambda>_. ''0''" "[Hv_connection True, Hv_refresh, Hv_delete ''a'' ''a'' None ''a'']" 1] by simp
qed

text \<open>
  In a loaded history every item without a session identifier has a key of its own,
  also if several items agree in everything the key is made of.
\<close>

theorem history_keys_distinct:
  assumes "plain_number show_num"
  shows "distinct (map (historyItemKey show_num) (filter (\<lambda>i. \<not> has_session i) (normalizeHistoryItems show_num items)))"
proof -
  let ?items = "normalizeHistoryItems show_num items"
  have given: "\<not> has_session i \<longrightarrow> (\<exists>c. hi_clientHistoryId i = Some c \<and> c \<noteq> [])" if "i \<in> set (normalize_from show_num seen xs)" for i seen xs
    using that by (induction xs arbitrary: seen) (auto simp: Let_def client_id_def fallbackHistoryKey_def split: if_splits)
  have "map (historyItemKey show_num) (filter (\<lambda>i. \<not> has_session i) ?items) = given_keys ?items"
    unfolding given_keys_def
  proof (rule map_cong [OF refl])
    fix i assume "i \<in> set (filter (\<lambda>i. \<not> has_session i) ?items)"
    then obtain c where "hi_clientHistoryId i = Some c" "c \<noteq> []" "\<not> has_session i"
      using given [of i] by (auto simp: normalizeHistoryItems_def)
    then show "historyItemKey show_num i = (case hi_clientHistoryId i of Some c \<Rightarrow> c | None \<Rightarrow> [])"
      by (auto simp: historyItemKey_def has_session_def split: option.splits)
  qed
  then show ?thesis using normalize_keys [OF assms] by (simp add: normalizeHistoryItems_def)
qed

theorem history_keys_distinct_witness:
  "distinct (map (historyItemKey (\<lambda>_. ''0'')) (filter (\<lambda>i. \<not> has_session i)
     (normalizeHistoryItems (\<lambda>_. ''0'') [parse_history_item (JObj []), parse_history_item (JObj []), parse_history_item (JObj [])])))"
proof (rule history_keys_distinct)
  show "plain_number (\<lambda>_. ''0'')" by (simp add: plain_number_def)
qed

end
