(* ===== verification/ProblemPreviews.thy ===== *)
theory ProblemPreviews
  imports UploadSession
begin

text \<open>
  The previews of files with problems, \<open>services/history/ProblemPreviewStore.ts\<close>: a bounded
  index with thumbnails in the storage of the app. The chain \<open>work\<close> runs one job after the
  other; a job is split at the awaits after which it looks at the generation of its scope
  again, because a deletion may be requested in between. Between two such points only calls
  that enqueue jobs or raise a generation can run, which do not touch the storage. The
  storage, without the index, is a list of keys and values that also holds the items of the
  rest of the app; \<open>indexKey\<close> is an argument. Listeners are not modelled.
\<close>

definition RETENTION_MS :: number where "RETENTION_MS = 30 * 24 * 60 * 60 * 1000"

record ProblemPreview =
  pv_scope :: string
  pv_sessionId :: string
  pv_fileId :: string
  pv_assetId :: string
  pv_mediaType :: MediaType
  pv_createdAt :: number
  pv_imageKey :: "string option"

definition imagePrefix :: "string \<Rightarrow> string" where
  "imagePrefix indexKey = indexKey @ '':image:''"

text \<open>The character class \<open>[a-z0-9-]\<close>.\<close>

definition key_char :: "char \<Rightarrow> bool" where
  "key_char c \<longleftrightarrow> (97 \<le> (of_char c :: nat) \<and> (of_char c :: nat) \<le> 122) \<or>
                  (48 \<le> (of_char c :: nat) \<and> (of_char c :: nat) \<le> 57) \<or> c = CHR ''-''"

definition ownedKey :: "string \<Rightarrow> string \<Rightarrow> bool" where
  "ownedKey indexKey key \<longleftrightarrow>
     key \<noteq> [] \<and> startsWith key (imagePrefix indexKey) \<and>
     (let rest = drop (length (imagePrefix indexKey)) key in rest \<noteq> [] \<and> list_all key_char rest)"

subsection \<open>Reading the index\<close>

fun falsy :: "jsval \<Rightarrow> bool" where
  "falsy JUndefined = True"
| "falsy JNull = True"
| "falsy (JBool b) = (\<not> b)"
| "falsy (JNum n) = (n = NaN \<or> n = Fin 0)"
| "falsy (JStr s) = (s = [])"
| "falsy _ = False"

definition media_of :: "jsval \<Rightarrow> MediaType option" where
  "media_of v = (if v = JStr ''photo'' then Some Photo else if v = JStr ''video'' then Some Video else None)"

definition finite_of :: "jsval \<Rightarrow> number option" where
  "finite_of v = (case as_number v of Some n \<Rightarrow> (if isFinite n then Some (fin_val n) else None) | None \<Rightarrow> None)"

text \<open>The members of an entry that are checked before its image key.\<close>

definition preview_fields :: "jsval \<Rightarrow> ProblemPreview option" where
  "preview_fields item =
     (if \<not> is_object item then None
      else case (as_string (prop_of item ''scope''), as_string (prop_of item ''sessionId''), as_string (prop_of item ''fileId''),
                 as_string (prop_of item ''assetId''), media_of (prop_of item ''mediaType''), finite_of (prop_of item ''createdAt'')) of
             (Some scope, Some sessionId, Some fileId, Some assetId, Some mediaType, Some createdAt) \<Rightarrow>
               Some \<lparr>pv_scope = scope, pv_sessionId = sessionId, pv_fileId = fileId, pv_assetId = assetId,
                     pv_mediaType = mediaType, pv_createdAt = createdAt, pv_imageKey = None\<rparr>
           | _ \<Rightarrow> None)"

text \<open>An image key that is neither missing nor a string makes \<open>startsWith\<close> throw.\<close>

definition preview_throws :: "jsval \<Rightarrow> bool" where
  "preview_throws item \<longleftrightarrow> preview_fields item \<noteq> None \<and> \<not> falsy (prop_of item ''imageKey'') \<and> as_string (prop_of item ''imageKey'') = None"

definition parse_preview :: "string \<Rightarrow> jsval \<Rightarrow> ProblemPreview option" where
  "parse_preview indexKey item =
     (case preview_fields item of
        None \<Rightarrow> None
      | Some p \<Rightarrow>
          (case nonempty_string (prop_of item ''imageKey'') of
             None \<Rightarrow> Some p
           | Some key \<Rightarrow> (if ownedKey indexKey key then Some (p\<lparr>pv_imageKey := Some key\<rparr>) else None)))"

definition parse_index :: "string \<Rightarrow> jsval \<Rightarrow> ProblemPreview list" where
  "parse_index indexKey v =
     (case v of
        JArr items \<Rightarrow> (if list_ex preview_throws items then [] else keep_valid (parse_preview indexKey) items)
      | _ \<Rightarrow> [])"

fun media_name :: "MediaType \<Rightarrow> string" where
  "media_name Photo = ''photo''"
| "media_name Video = ''video''"

definition preview_json :: "ProblemPreview \<Rightarrow> jsval" where
  "preview_json p =
     JObj ([(''scope'', JStr (pv_scope p)), (''sessionId'', JStr (pv_sessionId p)), (''fileId'', JStr (pv_fileId p)),
            (''assetId'', JStr (pv_assetId p)), (''mediaType'', JStr (media_name (pv_mediaType p))),
            (''createdAt'', JNum (Fin (pv_createdAt p)))] @
           (case pv_imageKey p of Some k \<Rightarrow> [(''imageKey'', JStr k)] | None \<Rightarrow> []))"

subsection \<open>The storage\<close>

text \<open>The index: missing, not parseable, or a JSON value.\<close>

record preview_storage =
  ps_index :: "jsval option option"
  ps_items :: "(string \<times> string) list"

definition readIndex :: "string \<Rightarrow> preview_storage \<Rightarrow> ProblemPreview list" where
  "readIndex indexKey st = (case ps_index st of Some (Some v) \<Rightarrow> parse_index indexKey v | _ \<Rightarrow> [])"

definition last_items :: "nat \<Rightarrow> 'a list \<Rightarrow> 'a list" where
  "last_items n xs = drop (length xs - n) xs"

definition kept_previews :: "number \<Rightarrow> ProblemPreview list \<Rightarrow> ProblemPreview list" where
  "kept_previews now entries = last_items MAX_PROBLEM_PREVIEWS (filter (\<lambda>p. now - RETENTION_MS \<le> pv_createdAt p) entries)"

text \<open>\<open>persist\<close> when the storage works, and when writing the index or removing the keys fails.\<close>

datatype storage_result = Storage_ok | Index_fails | Removal_fails

definition persist_index :: "string \<Rightarrow> number \<Rightarrow> ProblemPreview list \<Rightarrow> preview_storage \<Rightarrow> preview_storage" where
  "persist_index indexKey now entries st = st\<lparr>ps_index := Some (Some (JArr (map preview_json (kept_previews now entries))))\<rparr>"

definition remove_unused :: "string \<Rightarrow> ProblemPreview list \<Rightarrow> preview_storage \<Rightarrow> preview_storage" where
  "remove_unused indexKey kept st =
     st\<lparr>ps_items := filter (\<lambda>(key, _). \<not> (ownedKey indexKey key \<and> Some key \<notin> set (map pv_imageKey kept))) (ps_items st)\<rparr>"

definition persist_previews ::
  "string \<Rightarrow> number \<Rightarrow> storage_result \<Rightarrow> ProblemPreview list \<Rightarrow> preview_storage \<Rightarrow> bool \<times> preview_storage" where
  "persist_previews indexKey now res entries st =
     (case res of
        Index_fails \<Rightarrow> (False, st)
      | Removal_fails \<Rightarrow> (False, persist_index indexKey now entries st)
      | Storage_ok \<Rightarrow> (True, remove_unused indexKey (kept_previews now entries) (persist_index indexKey now entries st)))"

subsection \<open>The jobs\<close>

text \<open>
  A job of the chain: saving previews waits to start, waits for a batch of thumbnails (the
  entries so far and the identifiers that are left), clearing a scope, pruning.
\<close>

record save_job =
  sj_scope :: string
  sj_sessionId :: string
  sj_generation :: nat
  sj_selected :: "(string \<times> string \<times> MediaType) list"

datatype preview_job =
    Save save_job
  | Save_batch save_job "ProblemPreview list" "string list"
  | Clear string
  | Prune

record preview_store =
  st_storage :: preview_storage
  st_generations :: "(string \<times> nat) list"
  st_jobs :: "preview_job list"
  st_pending :: nat

definition generation_of :: "string \<Rightarrow> preview_store \<Rightarrow> nat" where
  "generation_of scope s = (case map_get (st_generations s) scope of Some n \<Rightarrow> n | None \<Rightarrow> 0)"

definition saveProblemPreviews :: "string \<Rightarrow> string \<Rightarrow> PreviewRequest list \<Rightarrow> preview_store \<Rightarrow> preview_store" where
  "saveProblemPreviews scope sessionId requests s =
     (if scope = [] \<or> sessionId = [] \<or> requests = [] \<or> 3 \<le> st_pending s then s
      else s\<lparr>st_pending := st_pending s + 1,
             st_jobs := st_jobs s @
               [Save \<lparr>sj_scope = scope, sj_sessionId = sessionId, sj_generation = generation_of scope s,
                      sj_selected = map (\<lambda>r. (prq_fileId r, ma_id (prq_asset r), ma_type (prq_asset r))) (take MAX_PROBLEM_PREVIEWS requests)\<rparr>]\<rparr>)"

definition clearProblemPreviews :: "string \<Rightarrow> preview_store \<Rightarrow> preview_store" where
  "clearProblemPreviews scope s =
     s\<lparr>st_generations := map_set scope (generation_of scope s + 1) (st_generations s), st_jobs := st_jobs s @ [Clear scope]\<rparr>"

definition pruneProblemPreviews :: "preview_store \<Rightarrow> preview_store" where
  "pruneProblemPreviews s = s\<lparr>st_jobs := st_jobs s @ [Prune]\<rparr>"

definition preview_records :: "save_job \<Rightarrow> number \<Rightarrow> ProblemPreview list" where
  "preview_records j now =
     map (\<lambda>(fileId, assetId, mediaType). \<lparr>pv_scope = sj_scope j, pv_sessionId = sj_sessionId j, pv_fileId = fileId,
            pv_assetId = assetId, pv_mediaType = mediaType, pv_createdAt = now, pv_imageKey = None\<rparr>) (sj_selected j)"

definition of_job :: "save_job \<Rightarrow> ProblemPreview \<Rightarrow> bool" where
  "of_job j p \<longleftrightarrow> pv_scope p = sj_scope j \<and> pv_sessionId p = sj_sessionId j"

text \<open>
  The records of the job are the entries of its scope and session: the earlier ones were
  filtered out. A thumbnail gets a key, and every record of its asset refers to it.
\<close>

definition store_thumbnail ::
  "save_job \<Rightarrow> string \<times> string \<times> string \<Rightarrow> ProblemPreview list \<times> preview_storage \<Rightarrow> ProblemPreview list \<times> preview_storage" where
  "store_thumbnail j = (\<lambda>(imageKey, assetId, jpeg) (entries, st).
     (map (\<lambda>p. if of_job j p \<and> pv_assetId p = assetId then p\<lparr>pv_imageKey := Some imageKey\<rparr> else p) entries,
      st\<lparr>ps_items := AList.update imageKey (''data:image/jpeg;base64,'' @ jpeg) (ps_items st)\<rparr>))"

text \<open>The end of a job; a save gives back its place in the backlog.\<close>

definition job_ends :: "bool \<Rightarrow> preview_storage \<Rightarrow> preview_store \<Rightarrow> preview_store" where
  "job_ends saving st s = s\<lparr>st_storage := st, st_jobs := tl (st_jobs s), st_pending := (if saving then st_pending s - 1 else st_pending s)\<rparr>"

definition job_continues :: "preview_job \<Rightarrow> preview_storage \<Rightarrow> preview_store \<Rightarrow> preview_store" where
  "job_continues job st s = s\<lparr>st_storage := st, st_jobs := job # tl (st_jobs s)\<rparr>"

text \<open>\<open>[...new Set(ids)]\<close>: the first occurrences.\<close>

definition first_ids :: "string list \<Rightarrow> string list" where
  "first_ids ids = rev (remdups (rev ids))"

text \<open>
  One step of the first job. A batch step is given the thumbnails that the native module
  delivered, with their new keys, and, if storing one fails, the number of those stored
  before it.
\<close>

definition run_job ::
  "string \<Rightarrow> number \<Rightarrow> storage_result \<Rightarrow> (string \<times> string \<times> string) list \<Rightarrow> nat option \<Rightarrow> preview_store \<Rightarrow> preview_store" where
  "run_job indexKey now res thumbnails image_fails s =
     (case st_jobs s of
        [] \<Rightarrow> s
      | Clear scope # _ \<Rightarrow>
          job_ends False (snd (persist_previews indexKey now res
            (filter (\<lambda>p. pv_scope p \<noteq> scope) (readIndex indexKey (st_storage s))) (st_storage s))) s
      | Prune # _ \<Rightarrow>
          job_ends False (snd (persist_previews indexKey now res (readIndex indexKey (st_storage s)) (st_storage s))) s
      | Save j # _ \<Rightarrow>
          (if generation_of (sj_scope j) s \<noteq> sj_generation j then job_ends True (st_storage s) s
           else
             (let entries = filter (\<lambda>p. \<not> of_job j p) (readIndex indexKey (st_storage s));
                  records = preview_records j now;
                  entries1 = last_items MAX_PROBLEM_PREVIEWS (entries @ records);
                  (ok, st) = persist_previews indexKey now res entries1 (st_storage s)
              in if ok then job_continues (Save_batch j entries1 (first_ids (map pv_assetId records))) st s
                 else job_ends True st s))
      | Save_batch j entries ids # _ \<Rightarrow>
          (if ids = [] \<or> generation_of (sj_scope j) s \<noteq> sj_generation j then job_ends True (st_storage s) s
           else case image_fails of
                  Some n \<Rightarrow> job_ends True (snd (fold (store_thumbnail j) (take n thumbnails) (entries, st_storage s))) s
                | None \<Rightarrow>
                    (let (entries1, st) = fold (store_thumbnail j) thumbnails (entries, st_storage s);
                         (ok, st1) = persist_previews indexKey now res entries1 st
                     in if ok then job_continues (Save_batch j entries1 (drop 20 ids)) st1 s else job_ends True st1 s)))"

text \<open>\<open>loadProblemPreviews\<close>: the entries of the session by file, with the image or an empty address.\<close>

definition preview_uri :: "preview_storage \<Rightarrow> ProblemPreview \<Rightarrow> string" where
  "preview_uri st p =
     (case pv_imageKey p of
        None \<Rightarrow> []
      | Some key \<Rightarrow> (case map_of (ps_items st) key of
                        Some img \<Rightarrow> (if startsWith img ''data:image/jpeg;base64,'' \<and> length img \<le> 32023 then img else [])
                      | None \<Rightarrow> []))"

definition loadProblemPreviews ::
  "string \<Rightarrow> number \<Rightarrow> string \<Rightarrow> string option \<Rightarrow> preview_storage \<Rightarrow> (string \<times> ProblemPreview \<times> string) list" where
  "loadProblemPreviews indexKey now scope sessionId st =
     (case sessionId of
        None \<Rightarrow> []
      | Some session \<Rightarrow>
          (if session = [] then []
           else map_from (map (\<lambda>p. (pv_fileId p, p, preview_uri st p))
                  (last_items MAX_PROBLEM_PREVIEWS
                    (filter (\<lambda>p. pv_scope p = scope \<and> pv_sessionId p = session \<and> now - RETENTION_MS \<le> pv_createdAt p)
                      (readIndex indexKey st))))))"

subsection \<open>Runs\<close>

datatype preview_event =
    Pe_save string string "PreviewRequest list"
  | Pe_clear string
  | Pe_prune
  | Pe_run number storage_result "(string \<times> string \<times> string) list" "nat option"

fun preview_step :: "string \<Rightarrow> preview_event \<Rightarrow> preview_store \<Rightarrow> preview_store" where
  "preview_step indexKey (Pe_save scope sessionId requests) s = saveProblemPreviews scope sessionId requests s"
| "preview_step indexKey (Pe_clear scope) s = clearProblemPreviews scope s"
| "preview_step indexKey Pe_prune s = pruneProblemPreviews s"
| "preview_step indexKey (Pe_run now res thumbnails image_fails) s = run_job indexKey now res thumbnails image_fails s"

definition new_store :: "preview_storage \<Rightarrow> preview_store" where
  "new_store st = \<lparr>st_storage = st, st_generations = [], st_jobs = [], st_pending = 0\<rparr>"

text \<open>The keys of the thumbnails are made by the store itself, from the prefix, the time and random characters.\<close>

fun own_keys :: "string \<Rightarrow> preview_event \<Rightarrow> bool" where
  "own_keys indexKey (Pe_run now res thumbnails image_fails) = list_all (\<lambda>(key, _). ownedKey indexKey key) thumbnails"
| "own_keys indexKey _ = True"

subsection \<open>Lemmas: what a job does to the storage\<close>

definition other_items :: "string \<Rightarrow> preview_storage \<Rightarrow> (string \<times> string) list" where
  "other_items indexKey st = filter (\<lambda>(key, _). \<not> ownedKey indexKey key) (ps_items st)"

lemma other_update: "ownedKey indexKey k \<Longrightarrow> filter (\<lambda>(key, _). \<not> ownedKey indexKey key) (AList.update k v xs) =
    filter (\<lambda>(key, _). \<not> ownedKey indexKey key) xs"
  by (induction xs) auto

lemma other_store: "ownedKey indexKey (fst t) \<Longrightarrow> other_items indexKey (snd (store_thumbnail j t e)) = other_items indexKey (snd e)"
  by (cases t; cases e) (simp add: store_thumbnail_def other_items_def other_update)

lemma other_thumbnails:
  "list_all (\<lambda>(key, _). ownedKey indexKey key) ts \<Longrightarrow>
   other_items indexKey (snd (fold (store_thumbnail j) ts e)) = other_items indexKey (snd e)"
  by (induction ts arbitrary: e) (auto simp: other_store)

lemma other_persist: "other_items indexKey (snd (persist_previews indexKey now res es st)) = other_items indexKey st"
  by (cases res) (auto simp: persist_previews_def persist_index_def remove_unused_def other_items_def intro: filter_cong)

lemma index_thumbnails: "ps_index (snd (fold (store_thumbnail j) ts e)) = ps_index (snd e)"
  by (induction ts arbitrary: e) (auto simp: store_thumbnail_def split: prod.splits)

lemma read_cong: "ps_index st = ps_index st' \<Longrightarrow> readIndex indexKey st = readIndex indexKey st'"
  by (simp add: readIndex_def)

definition written_index :: "string \<Rightarrow> number \<Rightarrow> ProblemPreview list \<Rightarrow> ProblemPreview list" where
  "written_index indexKey now es = parse_index indexKey (JArr (map preview_json (kept_previews now es)))"

lemma read_persist:
  "readIndex indexKey (snd (persist_previews indexKey now res es st)) =
     (if res = Index_fails then readIndex indexKey st else written_index indexKey now es)"
  by (cases res) (simp_all add: persist_previews_def persist_index_def remove_unused_def readIndex_def written_index_def)

lemma keep_valid_length: "length (keep_valid f xs) \<le> length xs"
  by (induction xs) (auto simp: keep_valid_def List.map_filter_simps split: option.splits)

lemma written_bounded: "length (written_index indexKey now es) \<le> MAX_PROBLEM_PREVIEWS"
proof -
  have "length (kept_previews now es) \<le> MAX_PROBLEM_PREVIEWS" by (simp add: kept_previews_def last_items_def)
  then show ?thesis using keep_valid_length [of "parse_preview indexKey" "map preview_json (kept_previews now es)"]
    by (simp add: written_index_def parse_index_def)
qed

lemma set_last_items: "set (last_items n xs) \<subseteq> set xs"
  by (simp add: last_items_def set_drop_subset)

lemma parse_scope: "parse_preview indexKey (preview_json p) = Some q \<Longrightarrow> pv_scope q = pv_scope p"
  by (auto simp: parse_preview_def preview_fields_def preview_json_def split: option.splits if_splits)

lemma written_scopes: "pv_scope ` set (written_index indexKey now es) \<subseteq> pv_scope ` set es"
proof
  fix x assume "x \<in> pv_scope ` set (written_index indexKey now es)"
  then obtain q p where "p \<in> set (kept_previews now es)" "parse_preview indexKey (preview_json p) = Some q" "x = pv_scope q"
    by (auto simp: written_index_def parse_index_def keep_valid_set split: if_splits)
  then show "x \<in> pv_scope ` set es" using parse_scope set_last_items [of MAX_PROBLEM_PREVIEWS]
    by (fastforce simp: kept_previews_def)
qed

text \<open>A step keeps the storage, stores thumbnails, or persists.\<close>

lemma run_job_storage:
  assumes "own_keys indexKey (Pe_run now res ts fails)"
  shows "other_items indexKey (st_storage (run_job indexKey now res ts fails s)) = other_items indexKey (st_storage s) \<and>
    (readIndex indexKey (st_storage (run_job indexKey now res ts fails s)) = readIndex indexKey (st_storage s) \<or>
     (\<exists>es. readIndex indexKey (st_storage (run_job indexKey now res ts fails s)) = written_index indexKey now es))"
proof -
  let ?fin = "\<lambda>st. other_items indexKey st = other_items indexKey (st_storage s) \<and>
     (readIndex indexKey st = readIndex indexKey (st_storage s) \<or> (\<exists>es. readIndex indexKey st = written_index indexKey now es))"
  have p: "?fin (snd (persist_previews indexKey now res es st))"
    if "other_items indexKey st = other_items indexKey (st_storage s)" "ps_index st = ps_index (st_storage s)" for es st
    using that read_cong [OF that(2), of indexKey] by (auto simp: other_persist read_persist)
  have t: "other_items indexKey (snd (fold (store_thumbnail j) ts' (es, st_storage s))) = other_items indexKey (st_storage s)"
    if "set ts' \<subseteq> set ts" for j ts' es
    using that assms other_thumbnails [of indexKey ts' j "(es, st_storage s)"] by (auto simp: list_all_iff)
  show ?thesis
  proof (cases "st_jobs s")
    case Nil
    then show ?thesis by (simp add: run_job_def)
  next
    case (Cons job rest)
    show ?thesis
    proof (cases job)
      case (Save j)
      then show ?thesis using Cons p [of "st_storage s"]
        by (auto simp: run_job_def job_ends_def job_continues_def Let_def split: prod.splits) (metis snd_conv)+
    next
      case (Save_batch j es ids)
      obtain es1 st1 where f: "fold (store_thumbnail j) ts (es, st_storage s) = (es1, st1)" by fastforce
      have "?fin (snd (persist_previews indexKey now res es1 st1))"
        using p [of st1 es1] t [of ts j es] index_thumbnails [of j ts "(es, st_storage s)"] f by simp
      moreover have "?fin (snd (fold (store_thumbnail j) (take n ts) (es, st_storage s)))" for n
        using t [of "take n ts" j es] set_take_subset [of n ts] read_cong [OF index_thumbnails [of j "take n ts" "(es, st_storage s)"], of indexKey] by simp
      ultimately show ?thesis using Cons Save_batch f
        by (auto simp: run_job_def job_ends_def job_continues_def Let_def split: prod.splits option.splits)
    next
      case (Clear scope)
      then show ?thesis using Cons p [of "st_storage s"] by (simp add: run_job_def job_ends_def)
    next
      case Prune
      then show ?thesis using Cons p [of "st_storage s"] by (simp add: run_job_def job_ends_def)
    qed
  qed
qed

subsection \<open>Lemmas: a cleared scope\<close>

fun save_of :: "preview_job \<Rightarrow> save_job option" where
  "save_of (Save j) = Some j"
| "save_of (Save_batch j es ids) = Some j"
| "save_of _ = None"

definition no_batch :: "preview_job \<Rightarrow> bool" where
  "no_batch job \<longleftrightarrow> (\<forall>j es ids. job \<noteq> Save_batch j es ids)"

definition store_inv :: "preview_store \<Rightarrow> bool" where
  "store_inv s \<longleftrightarrow> list_all no_batch (tl (st_jobs s)) \<and>
     (\<forall>job \<in> set (st_jobs s). \<forall>j. save_of job = Some j \<longrightarrow> sj_generation j \<le> generation_of (sj_scope j) s)"

text \<open>No job of the scope may still write, and its entries are gone or about to be removed.\<close>

definition absent :: "string \<Rightarrow> string \<Rightarrow> preview_store \<Rightarrow> bool" where
  "absent indexKey scope s \<longleftrightarrow> scope \<notin> pv_scope ` set (readIndex indexKey (st_storage s)) \<and>
     (\<forall>j es ids. Save_batch j es ids \<in> set (st_jobs s) \<longrightarrow> scope \<notin> pv_scope ` set es)"

definition clearing :: "string \<Rightarrow> string \<Rightarrow> preview_store \<Rightarrow> bool" where
  "clearing indexKey scope s \<longleftrightarrow>
     (\<forall>job \<in> set (st_jobs s). \<forall>j. save_of job = Some j \<and> sj_scope j = scope \<longrightarrow> sj_generation j < generation_of scope s) \<and>
     (Clear scope \<in> set (st_jobs s) \<or> absent indexKey scope s)"

lemma generation_cong: "st_generations s' = st_generations s \<Longrightarrow> generation_of scope s' = generation_of scope s"
  by (simp add: generation_of_def)

lemma clearing_next:
  assumes c: "clearing indexKey scope s" and jobs: "st_jobs s = job # rest" and nb: "list_all no_batch rest"
    and g: "st_generations s' = st_generations s"
    and jobs': "st_jobs s' = rest \<or> (\<exists>j es ids. st_jobs s' = Save_batch j es ids # rest \<and> save_of job = Some j \<and>
      (absent indexKey scope s \<longrightarrow> scope \<notin> pv_scope ` set es))"
    and read: "job = Clear scope \<or> absent indexKey scope s \<longrightarrow> scope \<notin> pv_scope ` set (readIndex indexKey (st_storage s'))"
  shows "clearing indexKey scope s'"
proof -
  have stale: "\<forall>job' \<in> set (st_jobs s'). \<forall>j. save_of job' = Some j \<and> sj_scope j = scope \<longrightarrow> sj_generation j < generation_of scope s'"
    using c jobs jobs' generation_cong [OF g] by (auto simp: clearing_def)
  have "Clear scope \<in> set (st_jobs s') \<or> absent indexKey scope s'"
  proof (cases "Clear scope \<in> set rest")
    case True
    then show ?thesis using jobs' by auto
  next
    case False
    then have q: "job = Clear scope \<or> absent indexKey scope s" using c jobs by (auto simp: clearing_def)
    have "scope \<notin> pv_scope ` set es" if "Save_batch j es ids \<in> set (st_jobs s')" for j es ids
    proof -
      have "Save_batch j es ids \<notin> set rest" using nb by (auto simp: list_all_iff no_batch_def)
      then show ?thesis using that jobs' q by auto
    qed
    then show ?thesis using read q by (auto simp: absent_def)
  qed
  then show ?thesis using stale by (simp add: clearing_def)
qed

lemma store_scope_list: "map pv_scope (fst (fold (store_thumbnail j) ts e)) = map pv_scope (fst e)"
proof (induction ts arbitrary: e)
  case (Cons t ts)
  have "map pv_scope (fst (store_thumbnail j t e)) = map pv_scope (fst e)"
    by (cases t; cases e) (simp add: store_thumbnail_def)
  then show ?case using Cons by simp
qed simp

lemma store_scopes: "pv_scope ` set (fst (fold (store_thumbnail j) ts e)) = pv_scope ` set (fst e)"
  using store_scope_list [of j ts e] by (metis set_map)

lemma persist_scopes:
  "res \<noteq> Index_fails \<Longrightarrow> pv_scope ` set (readIndex indexKey (snd (persist_previews indexKey now res es st))) \<subseteq> pv_scope ` set es"
  using written_scopes by (simp add: read_persist)

lemma run_job_generations: "st_generations (run_job indexKey now res ts fails s) = st_generations s"
  by (auto simp: run_job_def job_ends_def job_continues_def Let_def split: list.splits preview_job.splits prod.splits option.splits)

lemma run_save:
  fixes indexKey :: string and now :: number
  assumes "st_jobs s = Save j # rest" and "generation_of (sj_scope j) s = sj_generation j"
  defines "es \<equiv> last_items MAX_PROBLEM_PREVIEWS (filter (\<lambda>p. \<not> of_job j p) (readIndex indexKey (st_storage s)) @ preview_records j now)"
  shows "st_storage (run_job indexKey now res ts fails s) = snd (persist_previews indexKey now res es (st_storage s))"
    and "st_jobs (run_job indexKey now res ts fails s) = rest \<or> (\<exists>ids. st_jobs (run_job indexKey now res ts fails s) = Save_batch j es ids # rest)"
  using assms by (auto simp: run_job_def job_ends_def job_continues_def Let_def split: prod.splits)

lemma run_batch:
  assumes "st_jobs s = Save_batch j es ids # rest"
  shows "readIndex indexKey (st_storage (run_job indexKey now res ts fails s)) = readIndex indexKey (st_storage s) \<and>
      st_jobs (run_job indexKey now res ts fails s) = rest \<or>
    (\<exists>es' st ids'. pv_scope ` set es' = pv_scope ` set es \<and>
      st_storage (run_job indexKey now res ts fails s) = snd (persist_previews indexKey now res es' st) \<and>
      (st_jobs (run_job indexKey now res ts fails s) = rest \<or> st_jobs (run_job indexKey now res ts fails s) = Save_batch j es' ids' # rest))"
proof (cases "ids = [] \<or> generation_of (sj_scope j) s \<noteq> sj_generation j \<or> fails \<noteq> None")
  case True
  then have "st_jobs (run_job indexKey now res ts fails s) = rest"
    "ps_index (st_storage (run_job indexKey now res ts fails s)) = ps_index (st_storage s)"
    using assms by (auto simp: run_job_def job_ends_def index_thumbnails split: option.splits)
  then show ?thesis using read_cong by blast
next
  case False
  obtain es' st where f: "fold (store_thumbnail j) ts (es, st_storage s) = (es', st)" by fastforce
  have "pv_scope ` set es' = pv_scope ` set es" using store_scopes [of j ts "(es, st_storage s)"] f by simp
  then show ?thesis using False assms f
    by (intro disjI2 exI [of _ es'] exI [of _ st] exI [of _ "drop 20 ids"])
       (auto simp: run_job_def job_ends_def job_continues_def Let_def split: prod.splits)
qed

lemma run_job_clearing:
  assumes c: "clearing indexKey scope s" and inv: "store_inv s" and res: "res \<noteq> Index_fails"
  shows "clearing indexKey scope (run_job indexKey now res ts fails s)"
proof (cases "st_jobs s")
  case Nil
  then show ?thesis using c by (simp add: run_job_def)
next
  case (Cons job rest)
  let ?s = "run_job indexKey now res ts fails s"
  have nb: "list_all no_batch rest" using inv Cons by (simp add: store_inv_def)
  note nxt = clearing_next [OF c Cons nb run_job_generations]
  show ?thesis
  proof (cases job)
    case (Clear sc)
    have j: "st_jobs ?s = rest" and st: "st_storage ?s = snd (persist_previews indexKey now res
        (filter (\<lambda>p. pv_scope p \<noteq> sc) (readIndex indexKey (st_storage s))) (st_storage s))"
      using Cons Clear by (simp_all add: run_job_def job_ends_def)
    show ?thesis
      by (rule nxt) (use j Clear persist_scopes [OF res, of indexKey now "filter (\<lambda>p. pv_scope p \<noteq> sc) (readIndex indexKey (st_storage s))" "st_storage s"]
          in \<open>auto simp: st absent_def\<close>)
  next
    case Prune
    have j: "st_jobs ?s = rest" and st: "st_storage ?s = snd (persist_previews indexKey now res (readIndex indexKey (st_storage s)) (st_storage s))"
      using Cons Prune by (simp_all add: run_job_def job_ends_def)
    show ?thesis
      by (rule nxt) (use j Prune persist_scopes [OF res, of indexKey now "readIndex indexKey (st_storage s)" "st_storage s"]
          in \<open>auto simp: st absent_def\<close>)
  next
    case (Save j)
    show ?thesis
    proof (cases "generation_of (sj_scope j) s = sj_generation j")
      case False
      then have "st_jobs ?s = rest" "st_storage ?s = st_storage s" using Cons Save by (simp_all add: run_job_def job_ends_def)
      then show ?thesis by (intro nxt) (simp_all add: Save absent_def)
    next
      case True
      let ?es = "last_items MAX_PROBLEM_PREVIEWS (filter (\<lambda>p. \<not> of_job j p) (readIndex indexKey (st_storage s)) @ preview_records j now)"
      have ne: "sj_scope j \<noteq> scope" using c Cons Save True by (auto simp: clearing_def)
      have "pv_scope ` set ?es \<subseteq> pv_scope ` set (readIndex indexKey (st_storage s)) \<union> {sj_scope j}"
        using set_last_items [of MAX_PROBLEM_PREVIEWS "filter (\<lambda>p. \<not> of_job j p) (readIndex indexKey (st_storage s)) @ preview_records j now"]
        by (fastforce simp: preview_records_def)
      then have es: "absent indexKey scope s \<longrightarrow> scope \<notin> pv_scope ` set ?es" using ne by (auto simp: absent_def)
      show ?thesis
      proof (rule nxt)
        show "st_jobs ?s = rest \<or> (\<exists>j es ids. st_jobs ?s = Save_batch j es ids # rest \<and> save_of job = Some j \<and>
            (absent indexKey scope s \<longrightarrow> scope \<notin> pv_scope ` set es))"
          using run_save(2) [OF Cons [unfolded Save] True, of indexKey now res ts fails] es Save by auto
        show "job = Clear scope \<or> absent indexKey scope s \<longrightarrow> scope \<notin> pv_scope ` set (readIndex indexKey (st_storage ?s))"
          using run_save(1) [OF Cons [unfolded Save] True, of indexKey now res ts fails] es Save
            persist_scopes [OF res, of indexKey now ?es "st_storage s"] by auto
      qed
    qed
  next
    case (Save_batch j es ids)
    have e: "absent indexKey scope s \<longrightarrow> scope \<notin> pv_scope ` set es" using Cons Save_batch by (auto simp: absent_def)
    from run_batch [OF Cons [unfolded Save_batch], of indexKey now res ts fails]
    consider "readIndex indexKey (st_storage ?s) = readIndex indexKey (st_storage s)" "st_jobs ?s = rest"
      | es' st ids' where "pv_scope ` set es' = pv_scope ` set es" "st_storage ?s = snd (persist_previews indexKey now res es' st)"
        "st_jobs ?s = rest \<or> st_jobs ?s = Save_batch j es' ids' # rest" by blast
    then show ?thesis
    proof cases
      case 1
      then show ?thesis by (intro nxt) (simp_all add: Save_batch absent_def)
    next
      case 2
      then show ?thesis using e persist_scopes [OF res, of indexKey now es' st]
        by (intro nxt) (auto simp: Save_batch)
    qed
  qed
qed

lemma run_job_next:
  assumes "st_jobs s = job # rest"
  shows "st_jobs (run_job indexKey now res ts fails s) = rest \<or>
    (\<exists>j es ids. st_jobs (run_job indexKey now res ts fails s) = Save_batch j es ids # rest \<and> save_of job = Some j)"
proof (cases job)
  case (Save j)
  show ?thesis
  proof (cases "generation_of (sj_scope j) s = sj_generation j")
    case True
    then show ?thesis using run_save(2) [OF assms [unfolded Save], of indexKey now res ts fails] Save by auto
  qed (use assms Save in \<open>simp add: run_job_def job_ends_def\<close>)
next
  case (Save_batch j es ids)
  then show ?thesis using run_batch [OF assms [unfolded Save_batch], of indexKey now res ts fails] by auto
qed (use assms in \<open>simp_all add: run_job_def job_ends_def\<close>)

lemma generation_clear [simp]:
  "generation_of sc (clearProblemPreviews scope s) = (if sc = scope then generation_of scope s + 1 else generation_of sc s)"
  by (simp add: clearProblemPreviews_def generation_of_def)

lemma jobs_clear [simp]: "st_jobs (clearProblemPreviews scope s) = st_jobs s @ [Clear scope]"
  "st_storage (clearProblemPreviews scope s) = st_storage s"
  by (simp_all add: clearProblemPreviews_def)

lemma store_step_inv:
  assumes inv: "store_inv s"
  shows "store_inv (preview_step indexKey e s)"
proof (cases e)
  case (Pe_run now res ts fails)
  show ?thesis
  proof (cases "st_jobs s")
    case Nil
    then show ?thesis using inv Pe_run by (simp add: run_job_def)
  next
    case (Cons job rest)
    have nb: "list_all no_batch rest" using inv Cons by (simp add: store_inv_def)
    then have "list_all no_batch (tl rest)" by (cases rest) simp_all
    then show ?thesis using run_job_next [OF Cons, of indexKey now res ts fails] inv Cons nb Pe_run
        generation_cong [OF run_job_generations [of indexKey now res ts fails s]]
      by (auto simp: store_inv_def)
  qed
next
  case (Pe_save scope sessionId requests)
  then show ?thesis using inv
    by (cases "st_jobs s") (auto simp: saveProblemPreviews_def store_inv_def no_batch_def generation_of_def)
next
  case (Pe_clear scope)
  then show ?thesis using inv
    by (cases "st_jobs s") (auto simp: store_inv_def no_batch_def le_SucI)
next
  case Pe_prune
  then show ?thesis using inv
    by (cases "st_jobs s") (auto simp: pruneProblemPreviews_def store_inv_def no_batch_def generation_of_def)
qed

text \<open>An event that neither saves previews of the scope nor fails to write the index.\<close>

fun leaves_cleared :: "string \<Rightarrow> preview_event \<Rightarrow> bool" where
  "leaves_cleared scope (Pe_save sc sessionId requests) = (sc \<noteq> scope)"
| "leaves_cleared scope (Pe_run now res ts fails) = (res \<noteq> Index_fails)"
| "leaves_cleared scope _ = True"

lemma clearing_step:
  assumes "clearing indexKey scope s" and "store_inv s" and "leaves_cleared scope e"
  shows "clearing indexKey scope (preview_step indexKey e s)"
proof (cases e)
  case (Pe_run now res ts fails)
  then show ?thesis using run_job_clearing [OF assms(1,2)] assms(3) by simp
next
  case (Pe_save sc sessionId requests)
  then show ?thesis using assms(1,3)
    by (auto simp: saveProblemPreviews_def clearing_def absent_def generation_of_def)
next
  case (Pe_clear sc)
  have "sj_generation j < generation_of scope (clearProblemPreviews sc s)"
    if "job \<in> set (st_jobs s @ [Clear sc])" "save_of job = Some j" "sj_scope j = scope" for job j
  proof -
    have "job \<in> set (st_jobs s)" using that(1,2) by auto
    then have "sj_generation j < generation_of scope s" using assms(1) that(2,3) unfolding clearing_def by blast
    then show ?thesis by (auto simp: less_SucI)
  qed
  moreover have "Clear scope \<in> set (st_jobs s @ [Clear sc]) \<or> absent indexKey scope (clearProblemPreviews sc s)"
    using assms(1) by (simp add: clearing_def absent_def)
  ultimately show ?thesis using Pe_clear by (simp add: clearing_def)
next
  case Pe_prune
  then show ?thesis using assms(1) by (auto simp: pruneProblemPreviews_def clearing_def absent_def generation_of_def)
qed

lemma clear_starts:
  assumes "store_inv s"
  shows "clearing indexKey scope (clearProblemPreviews scope s)"
proof -
  have "sj_generation j < generation_of scope (clearProblemPreviews scope s)"
    if "job \<in> set (st_jobs s)" "save_of job = Some j" "sj_scope j = scope" for job j
    using assms that by (auto simp: store_inv_def less_Suc_eq_le)
  then show ?thesis by (auto simp: clearing_def)
qed

interpretation pv: event_machine "preview_step indexKey" store_inv for indexKey
  by unfold_locales (rule store_step_inv)

lemma clearing_run:
  "clearing indexKey scope s \<Longrightarrow> store_inv s \<Longrightarrow> list_all (leaves_cleared scope) es \<Longrightarrow>
   clearing indexKey scope (fold (preview_step indexKey) es s)"
  by (induction es arbitrary: s) (auto intro: clearing_step store_step_inv)

lemma new_store_inv: "store_inv (new_store st)"
  by (simp add: store_inv_def new_store_def)

subsection \<open>Properties\<close>

text \<open>
  C25. Deleted previews do not come back: when the previews of a receiver are cleared, also
  while saves for it are waiting or in the middle of their work, then once all jobs have
  ended, no preview of that receiver can be loaded, unless new ones were requested after the
  deletion or the index could not be written.
\<close>

theorem cleared_previews_gone:
  assumes "s = fold (preview_step indexKey) before (new_store st)"
    and "t = fold (preview_step indexKey) after (clearProblemPreviews scope s)"
    and "list_all (leaves_cleared scope) after" and "st_jobs t = []"
  shows "loadProblemPreviews indexKey now scope session (st_storage t) = []"
proof -
  have inv: "store_inv s" unfolding assms(1) by (rule pv.run_inv [OF new_store_inv])
  have "store_inv (clearProblemPreviews scope s)" using store_step_inv [OF inv, of indexKey "Pe_clear scope"] by simp
  then have "clearing indexKey scope t" unfolding assms(2) by (rule clearing_run [OF clear_starts [OF inv] _ assms(3)])
  then have "scope \<notin> pv_scope ` set (readIndex indexKey (st_storage t))" using assms(4) by (simp add: clearing_def absent_def)
  then have "filter (\<lambda>p. pv_scope p = scope \<and> P p) (readIndex indexKey (st_storage t)) = []" for P
    by (auto simp: filter_empty_conv)
  then show ?thesis by (simp add: loadProblemPreviews_def last_items_def map_from_def split: option.splits)
qed

definition demo_request :: PreviewRequest where
  "demo_request = \<lparr>prq_fileId = ''f'', prq_asset = \<lparr>ma_id = ''m'', ma_uri = [], ma_type = Photo, ma_duration = None,
     ma_modificationTime = 0, ma_width = 0, ma_height = 0, ma_filename = ''m.jpg''\<rparr>\<rparr>"

definition no_previews :: preview_storage where
  "no_previews = \<lparr>ps_index = None, ps_items = [(''other'', ''x'')]\<rparr>"

theorem cleared_previews_gone_witness:
  "loadProblemPreviews ''i'' 0 ''r'' (Some ''s'') (st_storage (fold (preview_step ''i'') [Pe_run 0 Storage_ok [] None, Pe_run 0 Storage_ok [] None]
     (clearProblemPreviews ''r'' (fold (preview_step ''i'') [Pe_save ''r'' ''s'' [demo_request]] (new_store no_previews))))) = []"
proof (rule cleared_previews_gone [OF refl refl])
  show "list_all (leaves_cleared ''r'') [Pe_run 0 Storage_ok [] None, Pe_run 0 Storage_ok [] None]" by simp
  show "st_jobs (fold (preview_step ''i'') [Pe_run 0 Storage_ok [] None, Pe_run 0 Storage_ok [] None]
     (clearProblemPreviews ''r'' (fold (preview_step ''i'') [Pe_save ''r'' ''s'' [demo_request]] (new_store no_previews)))) = []"
    by (simp add: saveProblemPreviews_def clearProblemPreviews_def new_store_def run_job_def job_ends_def generation_of_def)
qed

text \<open>
  The store stays within its bounds and within its own keys: over any sequence of calls
  and failures of the storage, the index never grows beyond two hundred entries (or what was
  found in it at the start), and no item of the storage that the store does not own is
  changed or removed.
\<close>

theorem previews_bounded:
  assumes "list_all (own_keys indexKey) es" and t: "t = fold (preview_step indexKey) es (new_store st)"
  shows "length (readIndex indexKey (st_storage t)) \<le> max MAX_PROBLEM_PREVIEWS (length (readIndex indexKey st)) \<and>
    filter (\<lambda>(key, _). \<not> ownedKey indexKey key) (ps_items (st_storage t)) = filter (\<lambda>(key, _). \<not> ownedKey indexKey key) (ps_items st)"
proof -
  let ?P = "\<lambda>s. length (readIndex indexKey (st_storage s)) \<le> max MAX_PROBLEM_PREVIEWS (length (readIndex indexKey st)) \<and>
    other_items indexKey (st_storage s) = other_items indexKey st"
  have step: "?P (preview_step indexKey e s)" if "?P s" "own_keys indexKey e" for e s
  proof (cases e)
    case (Pe_run now res ts fails)
    then show ?thesis using that run_job_storage [of indexKey now res ts fails s] written_bounded [of indexKey now]
      by (auto simp: le_max_iff_disj)
  qed (use that in \<open>auto simp: saveProblemPreviews_def clearProblemPreviews_def pruneProblemPreviews_def\<close>)
  have "?P (fold (preview_step indexKey) es s)" if "?P s" for s
    using that assms(1) by (induction es arbitrary: s) (auto simp: step)
  from this [of "new_store st"] show ?thesis by (simp add: t new_store_def other_items_def)
qed

theorem previews_bounded_witness:
  "filter (\<lambda>(key, _). \<not> ownedKey ''i'' key)
     (ps_items (st_storage (fold (preview_step ''i'') [Pe_save ''r'' ''s'' [demo_request], Pe_run 0 Storage_ok [] None] (new_store no_previews)))) =
   filter (\<lambda>(key, _). \<not> ownedKey ''i'' key) (ps_items no_previews)"
proof -
  have "list_all (own_keys ''i'') [Pe_save ''r'' ''s'' [demo_request], Pe_run 0 Storage_ok [] None]" by simp
  from previews_bounded [OF this refl] show ?thesis by (rule conjunct2)
qed

end
