(* ===== verification/WebManager.thy ===== *)
theory WebManager
  imports TransferMetrics
begin

text \<open>
  The browser client that the desktop serves: the data of the upload manager
  (\<open>static/js/upload/manager.js\<close>), its byte, speed and timing accounts, the file items of
  the page (\<open>ui/progress.js\<close>) and the configuration it loads.

  The manager is one record. A file of the queue is a record of its own; operations on a
  file take the file and the manager and return both, \<open>at_file\<close> applies one to the file at
  an index of the queue. Byte counts are natural numbers, times and speeds numbers. A
  text that the page translates is kept by its key. Locals of a running \<open>uploadSingle\<close>
  (\<open>wf_wasFailedBefore\<close>, \<open>wf_flight\<close>) are fields of the file. Three fields are history
  variables that no operation reads: \<open>wf_thisRun\<close> (the file was pending when the run
  started), \<open>wf_accepted\<close> (the byte ranges that the receiver has acknowledged) and
  \<open>wm_failedSkips\<close> (skip verdicts for files that had failed before). The elements of the
  page other than file items, counters, the aggregate bar and the controls are not modelled.
\<close>

subsection \<open>Limits\<close>

definition WebMaxChunksPerFile :: nat where "WebMaxChunksPerFile = 10000"
definition WebMaxFileBytes :: nat where "WebMaxFileBytes = 107374182400"
definition WebNativeChunkBytes :: nat where "WebNativeChunkBytes = 8388608"
definition WebWholeFileBytes :: nat where "WebWholeFileBytes = 104857600"
definition WebMaxChunkBytes :: nat where "WebMaxChunkBytes = 67108864"

definition SPEED_WINDOW_MS :: number where "SPEED_WINDOW_MS = 2000"
definition AGG_ALPHA :: number where "AGG_ALPHA = 1 / 5"

subsection \<open>Truth of a value\<close>

fun truthy :: "jsval \<Rightarrow> bool" where
  "truthy JUndefined = False"
| "truthy JNull = False"
| "truthy (JBool b) = b"
| "truthy (JNum n) = (n \<noteq> Fin 0 \<and> n \<noteq> NaN)"
| "truthy (JStr s) = (s \<noteq> [])"
| "truthy (JArr _) = True"
| "truthy (JObj _) = True"

subsection \<open>File items of the page (progress.js)\<close>

datatype ui_text = Key string | Key_with string string | Plain string

datatype item_class = Item_uploading | Item_success | Item_error

datatype item_icon = Icon_file | Icon_check | Icon_failed

record file_ui =
  fu_class :: item_class
  fu_percent :: number
  fu_text :: ui_text
  fu_icon :: item_icon

definition applyProgressTransform :: "jsnum \<Rightarrow> file_ui \<Rightarrow> file_ui" where
  "applyProgressTransform percent ui =
     ui\<lparr>fu_percent := (if isFinite percent then max 0 (min 100 (fin_val percent)) else 0)\<rparr>"

definition renderFileItem :: file_ui where
  "renderFileItem = \<lparr>fu_class = Item_uploading, fu_percent = 0, fu_text = Key ''file.queued'', fu_icon = Icon_file\<rparr>"

subsection \<open>Files and the manager\<close>

record transfer_timing =
  tt_requestCount :: nat
  tt_requestDurationMs :: number
  tt_serverDurationMs :: number
  tt_serverWriteDurationMs :: number
  tt_serverFinalizeDurationMs :: number
  tt_maxRequestDurationMs :: number

definition new_timing :: transfer_timing where
  "new_timing = \<lparr>tt_requestCount = 0, tt_requestDurationMs = 0, tt_serverDurationMs = 0,
     tt_serverWriteDurationMs = 0, tt_serverFinalizeDurationMs = 0, tt_maxRequestDurationMs = 0\<rparr>"

text \<open>The locals of \<open>uploadChunked\<close> and of the request in flight.\<close>

record chunk_state =
  ck_fileId :: string
  ck_chunkSize :: nat
  ck_totalChunks :: nat
  ck_index :: nat
  ck_attempt :: nat
  ck_uploadedBytes :: nat
  ck_lastLoaded :: nat

record upload_error =
  ue_message :: string
  ue_status :: nat

datatype flight =
    Whole_request number
  | Chunk_request chunk_state number
  | Chunk_backoff chunk_state
  | Settled "upload_error + jsval"

record file_meta =
  wf_id :: string
  wf_name :: string
  wf_size :: nat
  wf_running :: bool
  wf_done :: bool
  wf_failed :: bool
  wf_skipped :: bool
  wf_preflightSkipped :: bool
  wf_lastLoaded :: nat
  wf_lastTime :: number
  wf_speed :: number
  wf_speedEpoch :: "nat option"
  wf_uploadedBytes :: nat
  wf_completedBytes :: nat
  wf_lastUIUpdate :: "number option"
  wf_serverResult :: "jsval option"
  wf_transferTiming :: "transfer_timing option"
  wf_ui :: file_ui
  wf_wasFailedBefore :: bool
  wf_flight :: "flight option"
  wf_thisRun :: bool
  wf_accepted :: "(nat \<times> nat) list"

datatype web_phase = Phase_idle | Phase_checking | Phase_uploading | Phase_verifying | Phase_complete

text \<open>Where the running \<open>uploadFiles\<close> waits.\<close>

datatype web_wait =
    Not_running | Await_config | Await_preflight | Await_workers | Await_cleanup | Await_history

datatype web_modal = No_files_modal | Already_uploaded_modal | Upload_complete_modal nat nat number

record web_page =
  pg_successCount :: nat
  pg_errorCount :: nat
  pg_totalSize :: nat
  pg_selectedCount :: nat
  pg_aggregate :: "number option"
  pg_disabled :: bool
  pg_modals :: "web_modal list"

datatype web_outcome = Out_failed | Out_skipped | Out_duplicate_after_upload | Out_uploaded

record web_history =
  hp_sessionId :: string
  hp_completedAt :: number
  hp_selectedFiles :: nat
  hp_uploadedFiles :: nat
  hp_skippedFiles :: nat
  hp_failedFiles :: nat
  hp_selectedBytes :: nat
  hp_uploadedBytes :: nat
  hp_skippedBytes :: nat
  hp_checkDurationMs :: number
  hp_uploadDurationMs :: number
  hp_totalDurationMs :: number
  hp_averageSpeedMBps :: number
  hp_peakSpeedMBps :: number
  hp_retries :: nat
  hp_files :: "(string \<times> string \<times> string \<times> nat \<times> web_outcome) list"

text \<open>What the manager has posted besides uploads: log events, speed samples, histories.\<close>

record web_posts =
  wp_logSequence :: nat
  wp_logs :: "(string \<times> nat \<times> string) list"
  wp_speeds :: "number list"
  wp_histories :: "web_history list"

record web_manager =
  wm_fileQueue :: "file_meta list"
  wm_running :: nat
  wm_successCount :: nat
  wm_errorCount :: nat
  wm_totalBytes :: nat
  wm_startTime :: "number option"
  wm_displaySpeedEMA :: number
  wm_lastSpeedReportTs :: number
  wm_speedInterval :: bool
  wm_stallWatch :: bool
  wm_lastProgressTs :: number
  wm_sessionId :: string
  wm_isUploadInProgress :: bool
  wm_checkDurationMs :: number
  wm_uploadDurationMs :: number
  wm_skippedBytes :: nat
  wm_networkBytesUploaded :: nat
  wm_peakSpeed :: number
  wm_retryCount :: nat
  wm_currentPhase :: web_phase
  wm_nextUploadIndex :: nat
  wm_pendingCount :: nat
  wm_globalUploadedBytes :: nat
  wm_globalCompletedBytes :: nat
  wm_activeSpeedSum :: number
  wm_speedEpoch :: nat
  wm_CONCURRENCY :: nat
  wm_chunkSizeBytes :: nat
  wm_SINGLE_FILE_MAX_BYTES :: nat
  wm_isMobile :: bool
  wm_configSettled :: bool
  wm_wait :: web_wait
  wm_workers :: nat
  wm_runStartedAt :: number
  wm_segmentStartedAt :: number
  wm_totalDurationMs :: number
  wm_page :: web_page
  wm_posts :: web_posts
  wm_failedSkips :: nat

text \<open>What an event brings from outside: the clock, random parts, the platform.\<close>

record web_env =
  we_now :: number
  we_random :: "nat \<Rightarrow> string"
  we_session :: string
  we_iosLike :: bool
  we_show :: "jsval \<Rightarrow> string"

definition at_file :: "nat \<Rightarrow> (file_meta \<times> web_manager \<Rightarrow> file_meta \<times> web_manager) \<Rightarrow> web_manager \<Rightarrow> web_manager" where
  "at_file i operation m =
     (case operation (wm_fileQueue m ! i, m) of (file, m') \<Rightarrow> m'\<lparr>wm_fileQueue := (wm_fileQueue m')[i := file]\<rparr>)"

subsection \<open>Marking file items\<close>

definition setFileProgress :: "jsnum \<Rightarrow> ui_text \<Rightarrow> file_meta \<Rightarrow> file_meta" where
  "setFileProgress percent t f = f\<lparr>wf_ui := (applyProgressTransform percent (wf_ui f))\<lparr>fu_text := t\<rparr>\<rparr>"

definition markFileSuccess :: "ui_text \<Rightarrow> file_meta \<Rightarrow> file_meta" where
  "markFileSuccess t f =
     f\<lparr>wf_ui := (applyProgressTransform (Fin 100) (wf_ui f))\<lparr>fu_class := Item_success, fu_text := t, fu_icon := Icon_check\<rparr>\<rparr>"

definition markFileSkipped :: "ui_text \<Rightarrow> file_meta \<Rightarrow> file_meta" where
  "markFileSkipped t f =
     f\<lparr>wf_ui := (applyProgressTransform (Fin 100) (wf_ui f))\<lparr>fu_class := Item_success, fu_text := t, fu_icon := Icon_check\<rparr>\<rparr>"

definition markFileError :: "ui_text \<Rightarrow> file_meta \<Rightarrow> file_meta" where
  "markFileError t f = f\<lparr>wf_ui := (wf_ui f)\<lparr>fu_class := Item_error, fu_text := t, fu_icon := Icon_failed\<rparr>\<rparr>"

definition markFileQueued :: "ui_text \<Rightarrow> file_meta \<Rightarrow> file_meta" where
  "markFileQueued t f =
     f\<lparr>wf_ui := (applyProgressTransform (Fin 0) (wf_ui f))\<lparr>fu_class := Item_uploading, fu_text := t, fu_icon := Icon_file\<rparr>\<rparr>"

definition updateStatsUI :: "web_manager \<Rightarrow> web_manager" where
  "updateStatsUI m =
     m\<lparr>wm_page := (wm_page m)\<lparr>pg_successCount := wm_successCount m, pg_errorCount := wm_errorCount m,
         pg_totalSize := wm_totalBytes m, pg_selectedCount := length (wm_fileQueue m)\<rparr>\<rparr>"

definition updateAggregateProgress :: "nat \<Rightarrow> nat \<Rightarrow> number option" where
  "updateAggregateProgress completedBytes totalBytes =
     (if totalBytes = 0 then None
      else Some (max 0 (min 100 (of_int (js_round (real (min completedBytes totalBytes) / real totalBytes * 100))))))"

definition refreshOverallProgress :: "web_manager \<Rightarrow> web_manager" where
  "refreshOverallProgress m =
     m\<lparr>wm_page := (wm_page m)\<lparr>pg_aggregate := updateAggregateProgress (wm_globalCompletedBytes m) (wm_totalBytes m)\<rparr>\<rparr>"

definition updateCurrentSpeedDisplay :: "number \<Rightarrow> number \<Rightarrow> number \<Rightarrow> number" where
  "updateCurrentSpeedDisplay currentInstantSpeed displaySpeedEMA alpha =
     (if 0 < currentInstantSpeed then displaySpeedEMA * (1 - alpha) + currentInstantSpeed * alpha
      else let newSpeedEMA = displaySpeedEMA * (3 / 5) in if newSpeedEMA < 1 then 0 else newSpeedEMA)"

definition setUploadUiState :: "bool \<Rightarrow> web_manager \<Rightarrow> web_manager" where
  "setUploadUiState isUploading m = m\<lparr>wm_page := (wm_page m)\<lparr>pg_disabled := isUploading\<rparr>\<rparr>"

definition show_modal :: "web_modal \<Rightarrow> web_manager \<Rightarrow> web_manager" where
  "show_modal d m = m\<lparr>wm_page := (wm_page m)\<lparr>pg_modals := pg_modals (wm_page m) @ [d]\<rparr>\<rparr>"

subsection \<open>Posts\<close>

definition web_log :: "string \<Rightarrow> web_manager \<Rightarrow> web_manager" where
  "web_log event m =
     m\<lparr>wm_posts := (wm_posts m)\<lparr>wp_logSequence := wp_logSequence (wm_posts m) + 1,
         wp_logs := wp_logs (wm_posts m) @ [(wm_sessionId m, wp_logSequence (wm_posts m) + 1, event)]\<rparr>\<rparr>"

definition reportSpeedSample :: "number \<Rightarrow> bool \<Rightarrow> number \<Rightarrow> web_manager \<Rightarrow> web_manager" where
  "reportSpeedSample bytesPerSecond force now m =
     (if \<not> force \<and> now - wm_lastSpeedReportTs m < 1000 then m
      else m\<lparr>wm_lastSpeedReportTs := now,
             wm_posts := (wm_posts m)\<lparr>wp_speeds := wp_speeds (wm_posts m) @
               [if 0 < bytesPerSecond then bytesPerSecond else 0]\<rparr>\<rparr>)"

subsection \<open>Byte and speed accounts\<close>

fun updateFileTransferProgress :: "nat \<Rightarrow> file_meta \<times> web_manager \<Rightarrow> file_meta \<times> web_manager" where
  "updateFileTransferProgress loadedBytes (file, m) =
     (let fileSize = wf_size file;
          safeLoaded = min loadedBytes fileSize;
          previousUploaded = wf_uploadedBytes file;
          previousCompleted = wf_completedBytes file;
          nextUploaded = max previousUploaded safeLoaded;
          nextCompleted = max previousCompleted safeLoaded;
          uploadDelta = nextUploaded - previousUploaded;
          completedDelta = nextCompleted - previousCompleted;
          m1 = (if 0 < uploadDelta
                then m\<lparr>wm_globalUploadedBytes := wm_globalUploadedBytes m + uploadDelta,
                       wm_networkBytesUploaded := wm_globalUploadedBytes m + uploadDelta\<rparr>
                else m);
          m2 = (if 0 < completedDelta
                then m1\<lparr>wm_globalCompletedBytes := wm_globalCompletedBytes m1 + completedDelta\<rparr>
                else m1)
      in (file\<lparr>wf_uploadedBytes := nextUploaded, wf_completedBytes := nextCompleted\<rparr>, m2))"

fun markFileCompletedWithoutUpload :: "nat \<Rightarrow> file_meta \<times> web_manager \<Rightarrow> file_meta \<times> web_manager" where
  "markFileCompletedWithoutUpload completedBytes (file, m) =
     (let safeCompleted = min completedBytes (wf_size file);
          completedDelta = safeCompleted - wf_completedBytes file;
          m1 = (if 0 < completedDelta
                then m\<lparr>wm_globalCompletedBytes := wm_globalCompletedBytes m + completedDelta\<rparr>
                else m)
      in (file\<lparr>wf_completedBytes := safeCompleted\<rparr>, m1))"

fun updateFileSpeed :: "number \<Rightarrow> file_meta \<times> web_manager \<Rightarrow> file_meta \<times> web_manager" where
  "updateFileSpeed bytesPerSecond (file, m) =
     (let previousSpeed = (if wf_speedEpoch file = Some (wm_speedEpoch m) then wf_speed file else 0);
          nextSpeed = (if 0 < bytesPerSecond then bytesPerSecond else 0)
      in (file\<lparr>wf_speed := nextSpeed, wf_speedEpoch := Some (wm_speedEpoch m)\<rparr>,
          m\<lparr>wm_activeSpeedSum := max 0 (wm_activeSpeedSum m + nextSpeed - previousSpeed)\<rparr>))"

definition clearFileSpeed :: "file_meta \<times> web_manager \<Rightarrow> file_meta \<times> web_manager" where
  "clearFileSpeed = updateFileSpeed 0"

text \<open>The speed to display, and the manager after \<open>getCurrentSpeedForDisplay\<close>.\<close>

definition getCurrentSpeedForDisplay :: "number \<Rightarrow> web_manager \<Rightarrow> number \<times> web_manager" where
  "getCurrentSpeedForDisplay now m =
     (let idleMs = now - wm_lastProgressTs m;
          hasRecentProgress = (idleMs \<le> 2000);
          m1 = (if \<not> hasRecentProgress \<and> 0 < wm_activeSpeedSum m
                then m\<lparr>wm_activeSpeedSum := 0, wm_speedEpoch := wm_speedEpoch m + 1\<rparr> else m);
          m2 = (if 5000 \<le> idleMs then m1\<lparr>wm_displaySpeedEMA := 0\<rparr> else m1)
      in (if hasRecentProgress then wm_activeSpeedSum m2 else 0, m2))"

text \<open>
  \<open>displaySpeedEMA = updateCurrentSpeedDisplay(getCurrentSpeedForDisplay(), displaySpeedEMA, ALPHA)\<close>:
  the arguments are evaluated from left to right.
\<close>

definition refresh_speed :: "number \<Rightarrow> web_manager \<Rightarrow> web_manager" where
  "refresh_speed now m =
     (let (current, m1) = getCurrentSpeedForDisplay now m
      in m1\<lparr>wm_displaySpeedEMA := updateCurrentSpeedDisplay current (wm_displaySpeedEMA m1) AGG_ALPHA\<rparr>)"

subsection \<open>Request timing\<close>

text \<open>The durations \<open>app\<close>, \<open>write\<close> and \<open>finalize\<close> of the header \<open>Server-Timing\<close>.\<close>

record server_timing =
  st_app :: number
  st_write :: number
  st_finalize :: number

definition recordRequestTiming :: "number \<Rightarrow> number \<Rightarrow> server_timing \<Rightarrow> file_meta \<Rightarrow> file_meta" where
  "recordRequestTiming requestStartedAt now server file =
     (let requestDurationMs = min 86400000 (max 0 (now - requestStartedAt));
          timing = (case wf_transferTiming file of Some t \<Rightarrow> t | None \<Rightarrow> new_timing)
      in file\<lparr>wf_transferTiming := Some
           \<lparr>tt_requestCount = tt_requestCount timing + 1,
            tt_requestDurationMs = tt_requestDurationMs timing + requestDurationMs,
            tt_serverDurationMs = tt_serverDurationMs timing + st_app server,
            tt_serverWriteDurationMs = tt_serverWriteDurationMs timing + st_write server,
            tt_serverFinalizeDurationMs = tt_serverFinalizeDurationMs timing + st_finalize server,
            tt_maxRequestDurationMs = max (tt_maxRequestDurationMs timing) requestDurationMs\<rparr>\<rparr>)"

definition add_timing :: "transfer_timing \<Rightarrow> file_meta \<Rightarrow> transfer_timing" where
  "add_timing summary file =
     (case wf_transferTiming file of
        None \<Rightarrow> summary
      | Some v \<Rightarrow>
          \<lparr>tt_requestCount = tt_requestCount summary + tt_requestCount v,
           tt_requestDurationMs = tt_requestDurationMs summary + tt_requestDurationMs v,
           tt_serverDurationMs = tt_serverDurationMs summary + tt_serverDurationMs v,
           tt_serverWriteDurationMs = tt_serverWriteDurationMs summary + tt_serverWriteDurationMs v,
           tt_serverFinalizeDurationMs = tt_serverFinalizeDurationMs summary + tt_serverFinalizeDurationMs v,
           tt_maxRequestDurationMs = max (tt_maxRequestDurationMs summary) (tt_maxRequestDurationMs v)\<rparr>)"

definition round_tenth :: "number \<Rightarrow> number" where
  "round_tenth v = of_int (js_round (v * 10)) / 10"

definition getTimingSummary :: "file_meta list \<Rightarrow> transfer_timing" where
  "getTimingSummary files =
     (let timing = foldl add_timing new_timing files
      in \<lparr>tt_requestCount = tt_requestCount timing,
          tt_requestDurationMs = round_tenth (tt_requestDurationMs timing),
          tt_serverDurationMs = round_tenth (tt_serverDurationMs timing),
          tt_serverWriteDurationMs = round_tenth (tt_serverWriteDurationMs timing),
          tt_serverFinalizeDurationMs = round_tenth (tt_serverFinalizeDurationMs timing),
          tt_maxRequestDurationMs = round_tenth (tt_maxRequestDurationMs timing)\<rparr>)"

subsection \<open>Configuration\<close>

definition MAX_SAFE_INTEGER :: number where "MAX_SAFE_INTEGER = 9007199254740991"

definition isSafeInteger :: "jsnum \<Rightarrow> bool" where
  "isSafeInteger n \<longleftrightarrow> isInteger n \<and> \<bar>fin_val n\<bar> \<le> MAX_SAFE_INTEGER"

definition boundedInteger :: "jsval \<Rightarrow> nat \<Rightarrow> nat \<Rightarrow> nat" where
  "boundedInteger v maximum fallbackValue =
     (case as_number v of
        Some n \<Rightarrow> (if isSafeInteger n \<and> 0 < fin_val n \<and> fin_val n \<le> real maximum
                  then nat \<lfloor>fin_val n\<rfloor> else fallbackValue)
      | None \<Rightarrow> fallbackValue)"

definition fallback_chunkSize :: "bool \<Rightarrow> nat" where
  "fallback_chunkSize mobile = (if mobile then 8 * 1024 * 1024 else 16 * 1024 * 1024)"

definition fallback_parallelFiles :: "bool \<Rightarrow> nat" where
  "fallback_parallelFiles mobile = (if mobile then 2 else 3)"

text \<open>\<open>cfg?.browser?.mobile || cfg?.mobile\<close> and the same for the desktop.\<close>

definition browserConfig :: "bool \<Rightarrow> jsval \<Rightarrow> jsval" where
  "browserConfig mobile cfg =
     (let device = (if mobile then ''mobile'' else ''desktop'');
          nested = prop_of (prop_of cfg ''browser'') device
      in if truthy nested then nested else prop_of cfg device)"

text \<open>The answer is \<open>None\<close> when the request fails, is not \<open>ok\<close> or its body is not JSON.\<close>

definition config_start :: "web_manager \<Rightarrow> web_manager" where
  "config_start m =
     m\<lparr>wm_chunkSizeBytes := fallback_chunkSize (wm_isMobile m), wm_CONCURRENCY := fallback_parallelFiles (wm_isMobile m),
       wm_SINGLE_FILE_MAX_BYTES := WebWholeFileBytes\<rparr>"

definition config_answer :: "jsval option \<Rightarrow> web_manager \<Rightarrow> web_manager" where
  "config_answer answer m =
     (case answer of
        None \<Rightarrow> m
      | Some cfg \<Rightarrow>
          (let defaultSingle = wm_SINGLE_FILE_MAX_BYTES m;
               browser = browserConfig (wm_isMobile m) cfg
           in m\<lparr>wm_SINGLE_FILE_MAX_BYTES := boundedInteger (prop_of (prop_of cfg ''shared'') ''singleFileMaxBytes'') defaultSingle defaultSingle,
                wm_chunkSizeBytes := boundedInteger (prop_of browser ''chunkSizeBytes'') WebMaxChunkBytes (fallback_chunkSize (wm_isMobile m)),
                wm_CONCURRENCY := boundedInteger (prop_of browser ''parallelFiles'') 6 (fallback_parallelFiles (wm_isMobile m))\<rparr>))"

definition loadServerConfig :: "jsval option \<Rightarrow> web_manager \<Rightarrow> web_manager" where
  "loadServerConfig answer m = (config_answer answer (config_start m))\<lparr>wm_configSettled := True\<rparr>"

subsection \<open>The page is opened\<close>

definition new_page :: web_page where
  "new_page = \<lparr>pg_successCount = 0, pg_errorCount = 0, pg_totalSize = 0, pg_selectedCount = 0,
     pg_aggregate = None, pg_disabled = False, pg_modals = []\<rparr>"

definition new_posts :: web_posts where
  "new_posts = \<lparr>wp_logSequence = 0, wp_logs = [], wp_speeds = [], wp_histories = []\<rparr>"

definition init_manager :: "bool \<Rightarrow> string \<Rightarrow> web_manager" where
  "init_manager mobile session = web_log ''ui_initialized'' (config_start
     \<lparr>wm_fileQueue = [], wm_running = 0, wm_successCount = 0, wm_errorCount = 0, wm_totalBytes = 0,
      wm_startTime = None, wm_displaySpeedEMA = 0, wm_lastSpeedReportTs = 0, wm_speedInterval = False,
      wm_stallWatch = False, wm_lastProgressTs = 0, wm_sessionId = session, wm_isUploadInProgress = False,
      wm_checkDurationMs = 0, wm_uploadDurationMs = 0, wm_skippedBytes = 0, wm_networkBytesUploaded = 0,
      wm_peakSpeed = 0, wm_retryCount = 0, wm_currentPhase = Phase_idle, wm_nextUploadIndex = 0,
      wm_pendingCount = 0, wm_globalUploadedBytes = 0, wm_globalCompletedBytes = 0, wm_activeSpeedSum = 0,
      wm_speedEpoch = 0, wm_CONCURRENCY = 4, wm_chunkSizeBytes = 16 * 1024 * 1024,
      wm_SINGLE_FILE_MAX_BYTES = WebWholeFileBytes, wm_isMobile = mobile, wm_configSettled = False,
      wm_wait = Not_running, wm_workers = 0, wm_runStartedAt = 0, wm_segmentStartedAt = 0, wm_totalDurationMs = 0,
      wm_page = new_page, wm_posts = new_posts, wm_failedSkips = 0\<rparr>)"

end
