(* ===== verification/WebUpload.thy ===== *)
theory WebUpload
  imports WebManager
begin

text \<open>
  The browser client at work: uploading one file (\<open>upload/workers.js\<close>), checking for
  duplicates (\<open>upload/preflight.js\<close>), the queue operations and the run of the upload
  manager (\<open>upload/manager.js\<close>), split at its awaits into segments that an event resumes.

  The workers of a run differ only in the file they hold, so the model keeps their number;
  the file that a worker holds has a flight. A flight is a request of the whole file, the
  request of one chunk, the pause before a chunk is sent again, or the settled result of
  the upload that \<open>uploadSingle\<close> has not yet handled. The events of requests, timers and
  buttons come in any order. The duplicate check is one event with the answers it
  receives: the queue is locked while it runs. When the hash of a file fails the check fails
  as a whole; that a second hash worker still marks its files on the page after that is not modelled.
\<close>

subsection \<open>Errors and limits of an upload (workers.js)\<close>

datatype response_text = Empty_text | Json_text jsval | Garbled_text

record xhr_answer =
  xa_status :: nat
  xa_text :: response_text
  xa_timing :: server_timing

definition plain_error :: "string \<Rightarrow> upload_error" where
  "plain_error message = \<lparr>ue_message = message, ue_status = 0\<rparr>"

definition text_or :: "web_env \<Rightarrow> jsval \<Rightarrow> string \<Rightarrow> string" where
  "text_or env v fallback = (if truthy v then (case v of JStr s \<Rightarrow> s | _ \<Rightarrow> we_show env v) else fallback)"

definition createUploadError :: "web_env \<Rightarrow> xhr_answer \<Rightarrow> upload_error" where
  "createUploadError env xhr =
     (let default = ''Upload failed ('' @ show_nat (xa_status xhr) @ '')'';
          of_body = (\<lambda>body. if prop_of body ''code'' = JStr ''filename_conflict''
             then ''A different file named \"'' @ text_or env (prop_of body ''filename'') ''this file'' @ ''\" already exists''
             else text_or env (prop_of body ''error'') default)
      in \<lparr>ue_message = (case xa_text xhr of Json_text body \<Rightarrow> of_body body | _ \<Rightarrow> default),
          ue_status = xa_status xhr\<rparr>)"

definition isRetryableUploadError :: "upload_error \<Rightarrow> bool" where
  "isRetryableUploadError error =
     (let status = ue_status error
      in status = 0 \<or> status = 408 \<or> status = 425 \<or> status = 429 \<or> 500 \<le> status)"

definition WEB_CHUNK_RETRIES :: nat where "WEB_CHUNK_RETRIES = 2"
definition MIN_WHOLE_FILE_BPS :: number where "MIN_WHOLE_FILE_BPS = 3 / 2 * 1024 * 1024"

definition computeWholeFileTimeoutMs :: "nat \<Rightarrow> number" where
  "computeWholeFileTimeoutMs sizeBytes =
     (if sizeBytes = 0 then 180000
      else max 180000 (of_int \<lceil>real sizeBytes / MIN_WHOLE_FILE_BPS * 1000\<rceil> + 120000))"

definition shouldUseChunkedUpload :: "file_meta \<Rightarrow> web_manager \<Rightarrow> bool" where
  "shouldUseChunkedUpload file m \<longleftrightarrow> wm_SINGLE_FILE_MAX_BYTES m < wf_size file"

definition safe_name_char :: "char \<Rightarrow> bool" where
  "safe_name_char c \<longleftrightarrow> c \<in> set ''ABCDEFGHIJKLMNOPQRSTUVWXYZabcdefghijklmnopqrstuvwxyz0123456789._-''"

definition buildChunkFileId :: "string \<Rightarrow> string \<Rightarrow> string" where
  "buildChunkFileId randomPart name = randomPart @ ''-'' @ map (\<lambda>c. if safe_name_char c then c else CHR ''_'') name"

subsection \<open>Progress of a request\<close>

definition percent_of :: "nat \<Rightarrow> nat \<Rightarrow> jsnum" where
  "percent_of loaded totalBytes =
     (if totalBytes = 0 then (if loaded = 0 then NaN else PosInf)
      else Fin (of_int (js_round (real loaded / real totalBytes * 100))))"

fun percent_text :: "jsnum \<Rightarrow> ui_text" where
  "percent_text (Fin x) = Plain (show_nat (nat \<lfloor>x\<rfloor>) @ ''%'')"
| "percent_text NaN = Plain ''NaN%''"
| "percent_text PosInf = Plain ''Infinity%''"
| "percent_text NegInf = Plain ''-Infinity%''"

definition blended_speed :: "file_meta \<Rightarrow> number \<Rightarrow> number \<Rightarrow> number" where
  "blended_speed file deltaLoaded deltaTime =
     (let instantSpeed = deltaLoaded / deltaTime * 1000;
          alpha = min 1 (deltaTime / SPEED_WINDOW_MS)
      in wf_speed file * (1 - alpha) + instantSpeed * alpha)"

definition ui_due :: "(number \<Rightarrow> bool) \<Rightarrow> number \<Rightarrow> file_meta \<Rightarrow> bool" where
  "ui_due elapsed_enough now file =
     (case wf_lastUIUpdate file of None \<Rightarrow> True | Some t \<Rightarrow> t = 0 \<or> elapsed_enough (now - t))"

definition show_percent :: "nat \<Rightarrow> nat \<Rightarrow> number \<Rightarrow> file_meta \<Rightarrow> file_meta" where
  "show_percent loaded totalBytes now file =
     (let percent = percent_of loaded totalBytes
      in (setFileProgress percent (percent_text percent) file)\<lparr>wf_lastUIUpdate := Some now\<rparr>)"

definition whole_progress :: "nat \<Rightarrow> nat \<Rightarrow> number \<Rightarrow> file_meta \<times> web_manager \<Rightarrow> file_meta \<times> web_manager" where
  "whole_progress loaded totalBytes now p =
     (let file = fst p;
          p1 = apsnd (\<lambda>m. m\<lparr>wm_lastProgressTs := now\<rparr>) p;
          deltaLoaded = real loaded - real (wf_lastLoaded file);
          deltaTime = now - wf_lastTime file;
          p2 = (if 0 < deltaTime \<and> 0 < wf_lastTime file
                then updateFileSpeed (blended_speed file deltaLoaded deltaTime) p1 else p1);
          p3 = updateFileTransferProgress loaded (apfst (\<lambda>f. f\<lparr>wf_lastLoaded := loaded, wf_lastTime := now\<rparr>) p2)
      in if ui_due (\<lambda>d. 100 \<le> d) now (fst p3) \<or> loaded = totalBytes
         then apfst (show_percent loaded totalBytes now) p3 else p3)"

text \<open>
  The progress callback of a chunk: the speed, then at most every 200 ms the bytes, the item
  and the displayed speed.
\<close>

definition chunk_speed :: "chunk_state \<Rightarrow> nat \<Rightarrow> number \<Rightarrow> file_meta \<times> web_manager \<Rightarrow> file_meta \<times> web_manager" where
  "chunk_speed c loaded now p =
     (let file = fst p;
          p1 = apsnd (\<lambda>m. m\<lparr>wm_lastProgressTs := now\<rparr>) p;
          deltaLoaded = real loaded - real (ck_lastLoaded c);
          deltaTime = max 1 (now - wf_lastTime file);
          p2 = (if 0 < deltaTime \<and> 0 < deltaLoaded
                then updateFileSpeed (blended_speed file deltaLoaded deltaTime) p1 else p1)
      in apfst (\<lambda>f. f\<lparr>wf_lastTime := now\<rparr>) p2)"

definition chunk_bytes :: "chunk_state \<Rightarrow> nat \<Rightarrow> number \<Rightarrow> file_meta \<times> web_manager \<Rightarrow> file_meta \<times> web_manager" where
  "chunk_bytes c loaded now p =
     (let absoluteLoaded = ck_uploadedBytes c + loaded
      in apfst (show_percent absoluteLoaded (wf_size (fst p)) now) (updateFileTransferProgress absoluteLoaded p))"

definition chunk_progress :: "nat \<Rightarrow> chunk_state \<Rightarrow> nat \<Rightarrow> nat \<Rightarrow> number \<Rightarrow> web_manager \<Rightarrow> web_manager" where
  "chunk_progress i c loaded totalBytes now m =
     (let m1 = at_file i (chunk_speed c loaded now) m
      in if ui_due (\<lambda>d. 200 < d) now (wm_fileQueue m1 ! i) \<or> loaded = totalBytes
         then refresh_speed now (at_file i (chunk_bytes c loaded now) m1)
         else m1)"

subsection \<open>uploadSingle\<close>

definition set_flight :: "nat \<Rightarrow> flight option \<Rightarrow> web_manager \<Rightarrow> web_manager" where
  "set_flight i fl m = at_file i (apfst (\<lambda>f. f\<lparr>wf_flight := fl\<rparr>)) m"

definition chunk_start :: "chunk_state \<Rightarrow> nat" where
  "chunk_start c = ck_index c * ck_chunkSize c"

definition chunk_end :: "file_meta \<Rightarrow> chunk_state \<Rightarrow> nat" where
  "chunk_end file c = min (chunk_start c + ck_chunkSize c) (wf_size file)"

definition chunk_bytes_size :: "file_meta \<Rightarrow> chunk_state \<Rightarrow> nat" where
  "chunk_bytes_size file c = chunk_end file c - chunk_start c"

text \<open>\<open>uploadChunked\<close> up to its first request; it may throw before.\<close>

definition web_chunkSize :: "web_env \<Rightarrow> web_manager \<Rightarrow> nat" where
  "web_chunkSize env m =
     (if we_iosLike env then min (wm_chunkSizeBytes m) WebNativeChunkBytes else wm_chunkSizeBytes m)"

definition web_totalChunks :: "nat \<Rightarrow> nat \<Rightarrow> nat" where
  "web_totalChunks sizeBytes chunkSize = nat \<lceil>real sizeBytes / real chunkSize\<rceil>"

definition uploadChunked_start :: "web_env \<Rightarrow> nat \<Rightarrow> file_meta \<Rightarrow> web_manager \<Rightarrow> flight" where
  "uploadChunked_start env i file m =
     (let chunkSize = web_chunkSize env m;
          totalChunks = web_totalChunks (wf_size file) chunkSize
      in if WebMaxChunksPerFile < totalChunks
         then Settled (Inl (plain_error ''File exceeds the receiver limit of 10,000 chunks. Split it before uploading.''))
         else if WebMaxFileBytes < wf_size file
         then Settled (Inl (plain_error ''File exceeds the receiver file-size limit. Split it before uploading.''))
         else Chunk_request
                \<lparr>ck_fileId = buildChunkFileId (we_random env i) (wf_name file), ck_chunkSize = chunkSize,
                 ck_totalChunks = totalChunks, ck_index = 0, ck_attempt = 0, ck_uploadedBytes = 0, ck_lastLoaded = 0\<rparr>
                (we_now env))"

definition begin_flight :: "web_env \<Rightarrow> nat \<Rightarrow> web_manager \<Rightarrow> file_meta \<Rightarrow> file_meta" where
  "begin_flight env i m file =
     (if shouldUseChunkedUpload file m
      then (case uploadChunked_start env i file m of
              Chunk_request c startedAt \<Rightarrow> file\<lparr>wf_flight := Some (Chunk_request c startedAt), wf_lastTime := we_now env\<rparr>
            | fl \<Rightarrow> file\<lparr>wf_flight := Some fl\<rparr>)
      else file\<lparr>wf_flight := Some (Whole_request (we_now env))\<rparr>)"

definition uploadSingle_start :: "web_env \<Rightarrow> nat \<Rightarrow> file_meta \<times> web_manager \<Rightarrow> file_meta \<times> web_manager" where
  "uploadSingle_start env i p =
     (let p1 = clearFileSpeed (apfst (\<lambda>f. f\<lparr>wf_wasFailedBefore := wf_failed f, wf_failed := False\<rparr>) p);
          p2 = apfst (\<lambda>f. setFileProgress (Fin 0) (Plain ''Uploading...'')
                 (f\<lparr>wf_uploadedBytes := 0, wf_completedBytes := 0, wf_accepted := []\<rparr>)) p1
      in apfst (begin_flight env i (snd p2)) p2)"

text \<open>The upload of the file has returned a result or thrown; the \<open>finally\<close> block included.\<close>

definition result_filename :: "web_env \<Rightarrow> jsval \<Rightarrow> file_meta \<Rightarrow> string" where
  "result_filename env result file = text_or env (prop_of result ''filename'') (wf_name file)"

definition present_result :: "web_env \<Rightarrow> jsval \<Rightarrow> file_meta \<Rightarrow> file_meta" where
  "present_result env result file =
     (let name = result_filename env result file
      in if truthy (prop_of result ''skipped'')
         then markFileSkipped (Plain (if name = wf_name file then ''Already exists'' else ''Already exists as '' @ name))
                (file\<lparr>wf_skipped := True\<rparr>)
         else markFileSuccess (Plain (if name = wf_name file then ''Done'' else ''Saved as '' @ name)) file)"

definition end_single :: "file_meta \<Rightarrow> file_meta" where
  "end_single f = f\<lparr>wf_done := True, wf_running := False, wf_flight := None\<rparr>"

definition single_succeeded :: "web_env \<Rightarrow> jsval \<Rightarrow> file_meta \<times> web_manager \<Rightarrow> file_meta \<times> web_manager" where
  "single_succeeded env result p =
     (let p1 = clearFileSpeed (apfst (\<lambda>f. f\<lparr>wf_serverResult := Some result\<rparr>) p);
          p2 = apsnd (\<lambda>m. if wf_wasFailedBefore (fst p1) \<and> 0 < wm_errorCount m
                          then m\<lparr>wm_errorCount := wm_errorCount m - 1\<rparr> else m) p1;
          p3 = updateFileTransferProgress (wf_size (fst p2)) p2
      in (present_result env result (fst p3), (snd p3)\<lparr>wm_successCount := wm_successCount (snd p3) + 1\<rparr>))"

definition single_failed :: "upload_error \<Rightarrow> file_meta \<times> web_manager \<Rightarrow> file_meta \<times> web_manager" where
  "single_failed error p =
     (let p1 = clearFileSpeed (apfst (\<lambda>f. f\<lparr>wf_failed := True\<rparr>) p);
          m2 = (if \<not> wf_wasFailedBefore (fst p1) then (snd p1)\<lparr>wm_errorCount := wm_errorCount (snd p1) + 1\<rparr> else snd p1)
      in (markFileError (Plain (if ue_message error = [] then ''Error'' else ue_message error)) (fst p1),
          web_log ''file_error'' m2))"

definition uploadSingle_settle :: "web_env \<Rightarrow> upload_error + jsval \<Rightarrow> file_meta \<times> web_manager \<Rightarrow> file_meta \<times> web_manager" where
  "uploadSingle_settle env result p =
     apfst end_single (case result of Inr v \<Rightarrow> single_succeeded env v p | Inl error \<Rightarrow> single_failed error p)"

subsection \<open>Requests in flight\<close>

text \<open>The request of a whole file ends.\<close>

definition whole_result :: "response_text \<Rightarrow> upload_error + jsval" where
  "whole_result body =
     (case body of
        Json_text v \<Rightarrow> Inr v
      | Empty_text \<Rightarrow> Inr (JObj [])
      | Garbled_text \<Rightarrow> Inl (plain_error ''Server returned an invalid response''))"

definition whole_load :: "web_env \<Rightarrow> number \<Rightarrow> xhr_answer \<Rightarrow> file_meta \<times> web_manager \<Rightarrow> file_meta \<times> web_manager" where
  "whole_load env startedAt xhr p =
     (let p1 = apfst (recordRequestTiming startedAt (we_now env) (xa_timing xhr)) p
      in if 200 \<le> xa_status xhr \<and> xa_status xhr < 300
         then apfst (\<lambda>f. f\<lparr>wf_accepted := [(0, wf_size f)], wf_flight := Some (Settled (whole_result (xa_text xhr)))\<rparr>)
                (updateFileTransferProgress (wf_size (fst p1)) (apsnd (\<lambda>m. m\<lparr>wm_lastProgressTs := we_now env\<rparr>) p1))
         else apfst (\<lambda>f. f\<lparr>wf_flight := Some (Settled (Inl (createUploadError env xhr)))\<rparr>) p1)"

definition whole_fail :: "string \<Rightarrow> number \<Rightarrow> number \<Rightarrow> server_timing \<Rightarrow> file_meta \<times> web_manager \<Rightarrow> file_meta \<times> web_manager" where
  "whole_fail message startedAt now timing p =
     apfst (\<lambda>f. (recordRequestTiming startedAt now timing f)\<lparr>wf_flight := Some (Settled (Inl (plain_error message)))\<rparr>) p"

text \<open>The loop of \<open>uploadChunkXHR\<close> after a failed request: wait and send again, or throw.\<close>

definition chunk_failed :: "upload_error \<Rightarrow> nat \<Rightarrow> chunk_state \<Rightarrow> web_manager \<Rightarrow> web_manager" where
  "chunk_failed error i c m =
     (if WEB_CHUNK_RETRIES \<le> ck_attempt c \<or> \<not> isRetryableUploadError error
      then set_flight i (Some (Settled (Inl error))) m
      else set_flight i (Some (Chunk_backoff (c\<lparr>ck_attempt := ck_attempt c + 1\<rparr>)))
             (web_log ''chunk_retry'' (m\<lparr>wm_retryCount := wm_retryCount m + 1\<rparr>)))"

text \<open>The confirmation that the last chunk must carry.\<close>

definition confirmed_result :: "response_text \<Rightarrow> jsval option" where
  "confirmed_result body =
     (case body of Json_text v \<Rightarrow> (if prop_of v ''complete'' = JBool True then Some v else None) | _ \<Rightarrow> None)"

text \<open>The body of the loop of \<open>uploadChunked\<close> after an accepted chunk, up to the next request.\<close>

definition next_chunk :: "web_env \<Rightarrow> chunk_state \<Rightarrow> nat \<Rightarrow> flight" where
  "next_chunk env c uploaded =
     Chunk_request (c\<lparr>ck_index := ck_index c + 1, ck_attempt := 0, ck_uploadedBytes := uploaded, ck_lastLoaded := 0\<rparr>) (we_now env)"

definition chunk_accepted :: "web_env \<Rightarrow> chunk_state \<Rightarrow> response_text \<Rightarrow> file_meta \<times> web_manager \<Rightarrow> file_meta \<times> web_manager" where
  "chunk_accepted env c body p =
     (let lastChunk = (ck_index c = ck_totalChunks c - 1);
          uploaded = ck_uploadedBytes c + chunk_bytes_size (fst p) c;
          p0 = apfst (\<lambda>f. f\<lparr>wf_accepted := wf_accepted f @ [(chunk_start c, chunk_end f c)]\<rparr>) p;
          p1 = updateFileTransferProgress uploaded (apsnd (\<lambda>m. m\<lparr>wm_lastProgressTs := we_now env\<rparr>) p0)
      in if \<not> lastChunk
         then apfst (\<lambda>f. f\<lparr>wf_lastTime := we_now env, wf_flight := Some (next_chunk env c uploaded)\<rparr>) p1
         else case confirmed_result body of
                None \<Rightarrow> apfst (\<lambda>f. f\<lparr>wf_flight := Some (Settled (Inl (plain_error ''Server returned an invalid response'')))\<rparr>) p0
              | Some v \<Rightarrow> apfst (\<lambda>f. f\<lparr>wf_flight := Some (Settled (Inr v))\<rparr>)
                            (updateFileTransferProgress (wf_size (fst p1)) p1))"

definition chunk_load :: "web_env \<Rightarrow> nat \<Rightarrow> chunk_state \<Rightarrow> number \<Rightarrow> xhr_answer \<Rightarrow> web_manager \<Rightarrow> web_manager" where
  "chunk_load env i c startedAt xhr m =
     (let m1 = at_file i (apfst (recordRequestTiming startedAt (we_now env) (xa_timing xhr))) m
      in if 200 \<le> xa_status xhr \<and> xa_status xhr < 300
         then (let finalSize = chunk_bytes_size (wm_fileQueue m1 ! i) c;
                   m2 = (if 0 < finalSize then chunk_progress i c finalSize finalSize (we_now env) m1 else m1)
               in at_file i (chunk_accepted env c (xa_text xhr)) m2)
         else chunk_failed (createUploadError env xhr) i c m1)"

definition chunk_fail :: "string \<Rightarrow> nat \<Rightarrow> chunk_state \<Rightarrow> number \<Rightarrow> number \<Rightarrow> server_timing \<Rightarrow> web_manager \<Rightarrow> web_manager" where
  "chunk_fail message i c startedAt now timing m =
     chunk_failed (plain_error message) i c
       (at_file i (apfst (recordRequestTiming startedAt now timing)) m)"

subsection \<open>worker\<close>

text \<open>
  The inner loop of \<open>worker\<close> over the remaining indices: the first file that is neither
  running nor done is taken and its upload starts; otherwise the worker ends.
\<close>

fun claim_next :: "web_env \<Rightarrow> nat list \<Rightarrow> web_manager \<Rightarrow> web_manager" where
  "claim_next env [] m = m"
| "claim_next env (i # rest) m =
     (let m1 = m\<lparr>wm_nextUploadIndex := i + 1\<rparr>;
          candidate = wm_fileQueue m ! i
      in if wf_running candidate \<or> wf_done candidate then claim_next env rest m1
         else at_file i (uploadSingle_start env i)
                (at_file i (apfst (\<lambda>f. f\<lparr>wf_running := True\<rparr>))
                  (m1\<lparr>wm_running := wm_running m + 1, wm_workers := wm_workers m + 1\<rparr>)))"

definition worker :: "web_env \<Rightarrow> web_manager \<Rightarrow> web_manager" where
  "worker env m = claim_next env [wm_nextUploadIndex m..<length (wm_fileQueue m)] m"

text \<open>The file that a worker holds is settled: the end of \<open>uploadSingle\<close> and the next turn of the loop.\<close>

definition worker_finally :: "nat \<Rightarrow> web_manager \<Rightarrow> web_manager" where
  "worker_finally i m =
     (let m1 = at_file i (apfst (\<lambda>f. f\<lparr>wf_running := False\<rparr>)) m;
          m2 = m1\<lparr>wm_running := wm_running m1 - 1, wm_workers := wm_workers m1 - 1\<rparr>
      in if wf_done (wm_fileQueue m2 ! i) then m2\<lparr>wm_pendingCount := wm_pendingCount m2 - 1\<rparr> else m2)"

definition worker_settle :: "web_env \<Rightarrow> nat \<Rightarrow> upload_error + jsval \<Rightarrow> web_manager \<Rightarrow> web_manager" where
  "worker_settle env i result m =
     worker env (worker_finally i (refresh_speed (we_now env) (updateStatsUI (at_file i (uploadSingle_settle env result) m))))"

subsection \<open>Duplicate check (preflight.js)\<close>

record preflight_answers =
  pa_initial :: "jsval option"
  pa_hash :: "file_meta \<Rightarrow> string option"
  pa_verified :: "jsval option"

text \<open>\<open>answer.files || []\<close>; \<open>None\<close> when reading it or one of its items throws.\<close>

definition nullish :: "jsval \<Rightarrow> bool" where
  "nullish v \<longleftrightarrow> v = JUndefined \<or> v = JNull"

definition answer_items :: "jsval option \<Rightarrow> jsval list option" where
  "answer_items answer =
     (case answer of
        None \<Rightarrow> None
      | Some v \<Rightarrow>
          (if nullish v then None
           else case prop_of v ''files'' of
                  JArr items \<Rightarrow> (if list_ex nullish items then None else Some items)
                | w \<Rightarrow> (if truthy w then None else Some [])))"

definition action_of :: "jsval list \<Rightarrow> file_meta \<Rightarrow> jsval" where
  "action_of items file =
     (case map_get (map_from (map (\<lambda>item. (prop_of item ''id'', prop_of item ''action'')) items)) (JStr (wf_id file)) of
        Some a \<Rightarrow> a | None \<Rightarrow> JUndefined)"

definition result_of :: "jsval list \<Rightarrow> file_meta \<Rightarrow> jsval" where
  "result_of items file =
     (case map_get (map_from (map (\<lambda>item. (prop_of item ''id'', item)) items)) (JStr (wf_id file)) of
        Some a \<Rightarrow> a | None \<Rightarrow> JUndefined)"

definition web_candidates :: "jsval list \<Rightarrow> file_meta list \<Rightarrow> nat list" where
  "web_candidates items queue =
     filter (\<lambda>i. \<not> wf_done (queue ! i) \<and> action_of items (queue ! i) = JStr ''hash_required'') [0..<length queue]"

definition web_skip_file :: "web_env \<Rightarrow> jsval \<Rightarrow> file_meta \<times> web_manager \<Rightarrow> file_meta \<times> web_manager" where
  "web_skip_file env result p =
     (let p0 = apsnd (\<lambda>m. if wf_failed (fst p) then m\<lparr>wm_failedSkips := wm_failedSkips m + 1\<rparr> else m) p;
          p1 = markFileCompletedWithoutUpload (wf_size (fst p0))
            (apfst (\<lambda>f. f\<lparr>wf_done := True, wf_skipped := True, wf_preflightSkipped := True, wf_uploadedBytes := 0\<rparr>) p0);
          filename = prop_of result ''filename''
      in apfst (\<lambda>f. markFileSkipped
            (if truthy filename \<and> filename \<noteq> JStr (wf_name f)
             then Key_with ''file.skipped'' (text_or env filename []) else Key ''file.skipped'')
            (f\<lparr>wf_serverResult := Some (JObj [(''skipped'', JBool True), (''filename'', filename)])\<rparr>)) p1)"

fun apply_verdict :: "web_env \<Rightarrow> jsval list \<Rightarrow> nat \<Rightarrow> web_manager \<times> nat \<times> nat \<Rightarrow> web_manager \<times> nat \<times> nat" where
  "apply_verdict env items i (m, skippedFiles, skippedBytes) =
     (let file = wm_fileQueue m ! i;
          result = result_of items file
      in if prop_of result ''action'' = JStr ''skip''
         then (at_file i (web_skip_file env result) m, skippedFiles + 1, skippedBytes + wf_size file)
         else (at_file i (apfst (markFileQueued
                 (if prop_of result ''action'' = JStr ''upload_name_conflict''
                  then Plain ''Name exists; keeping both'' else Key ''file.ready''))) m,
               skippedFiles, skippedBytes))"

text \<open>\<open>run\<close>: the manager after the check and the counts it returns; \<open>None\<close> when it throws.\<close>

definition preflight_run :: "web_env \<Rightarrow> preflight_answers \<Rightarrow> web_manager \<Rightarrow> (web_manager \<times> nat \<times> nat) option" where
  "preflight_run env answers m =
     (if list_all wf_done (wm_fileQueue m) then Some (m, 0, 0)
      else case answer_items (pa_initial answers) of
             None \<Rightarrow> None
           | Some initial \<Rightarrow>
               (let candidates = web_candidates initial (wm_fileQueue m)
                in if list_ex (\<lambda>i. pa_hash answers (wm_fileQueue m ! i) = None) candidates then None
                   else if candidates = [] then Some (m, 0, 0)
                   else case answer_items (pa_verified answers) of
                          None \<Rightarrow> None
                        | Some verified \<Rightarrow> Some (fold (apply_verdict env verified) candidates (m, 0, 0))))"

subsection \<open>Queue operations (manager.js)\<close>

record web_file =
  fl_id :: string
  fl_name :: string
  fl_size :: nat

definition new_meta :: "web_file \<Rightarrow> file_meta" where
  "new_meta f =
     \<lparr>wf_id = fl_id f, wf_name = fl_name f, wf_size = fl_size f, wf_running = False, wf_done = False,
      wf_failed = False, wf_skipped = False, wf_preflightSkipped = False, wf_lastLoaded = 0, wf_lastTime = 0,
      wf_speed = 0, wf_speedEpoch = None, wf_uploadedBytes = 0, wf_completedBytes = 0, wf_lastUIUpdate = None,
      wf_serverResult = None, wf_transferTiming = None, wf_ui = renderFileItem, wf_wasFailedBefore = False,
      wf_flight = None, wf_thisRun = False, wf_accepted = []\<rparr>"

definition addFiles :: "web_file list \<Rightarrow> web_manager \<Rightarrow> web_manager" where
  "addFiles files m =
     (if wm_isUploadInProgress m then web_log ''queue_mutation_blocked'' m
      else if files = [] then m
      else web_log ''files_added'' (refreshOverallProgress (updateStatsUI
             (m\<lparr>wm_fileQueue := wm_fileQueue m @ map new_meta files,
                wm_totalBytes := wm_totalBytes m + sum_list (map fl_size files)\<rparr>))))"

definition resetFiles :: "web_manager \<Rightarrow> web_manager" where
  "resetFiles m =
     (if wm_isUploadInProgress m then web_log ''queue_reset_blocked'' m
      else web_log ''queue_reset'' (refreshOverallProgress (updateStatsUI
             (m\<lparr>wm_fileQueue := [], wm_running := 0, wm_successCount := 0, wm_errorCount := 0, wm_totalBytes := 0,
                wm_displaySpeedEMA := 0, wm_startTime := None, wm_checkDurationMs := 0, wm_uploadDurationMs := 0,
                wm_skippedBytes := 0, wm_networkBytesUploaded := 0, wm_peakSpeed := 0, wm_retryCount := 0,
                wm_currentPhase := Phase_idle, wm_nextUploadIndex := 0, wm_pendingCount := 0,
                wm_globalUploadedBytes := 0, wm_globalCompletedBytes := 0, wm_activeSpeedSum := 0,
                wm_speedEpoch := wm_speedEpoch m + 1, wm_speedInterval := False, wm_stallWatch := False,
                wm_failedSkips := 0\<rparr>))))"

subsection \<open>uploadFiles\<close>

definition uploadFiles_click :: "web_manager \<Rightarrow> web_manager" where
  "uploadFiles_click m =
     (if wm_isUploadInProgress m then web_log ''upload_reentry_blocked'' m
      else if wm_fileQueue m = []
      then web_log ''upload_requested_no_files'' (show_modal No_files_modal m)
      else setUploadUiState True (m\<lparr>wm_isUploadInProgress := True, wm_wait := Await_config\<rparr>))"

definition requeue_failed :: "file_meta \<Rightarrow> file_meta" where
  "requeue_failed file =
     (if wf_done file \<and> wf_failed file
      then markFileQueued (Key ''file.queued'')
             (file\<lparr>wf_done := False, wf_running := False, wf_uploadedBytes := 0, wf_completedBytes := 0,
                   wf_lastLoaded := 0, wf_lastTime := 0, wf_speed := 0\<rparr>)
      else file)"

definition pending_files :: "file_meta list \<Rightarrow> nat" where
  "pending_files queue = length (filter (\<lambda>f. \<not> wf_done f) queue)"

definition uploadFiles_start :: "web_env \<Rightarrow> web_manager \<Rightarrow> web_manager" where
  "uploadFiles_start env m =
     (let m1 = m\<lparr>wm_fileQueue := map requeue_failed (wm_fileQueue m)\<rparr>
      in if list_all wf_done (wm_fileQueue m1)
         then show_modal Already_uploaded_modal
                (setUploadUiState False (m1\<lparr>wm_isUploadInProgress := False, wm_wait := Not_running\<rparr>))
         else
           (let m2 = m1\<lparr>wm_sessionId := we_session env, wm_posts := (wm_posts m1)\<lparr>wp_logSequence := 0\<rparr>,
                        wm_lastSpeedReportTs := 0, wm_runStartedAt := we_now env, wm_startTime := Some (we_now env),
                        wm_displaySpeedEMA := 0, wm_checkDurationMs := 0, wm_uploadDurationMs := 0, wm_skippedBytes := 0,
                        wm_networkBytesUploaded := 0, wm_peakSpeed := 0, wm_retryCount := 0,
                        wm_globalUploadedBytes := 0, wm_globalCompletedBytes := 0, wm_activeSpeedSum := 0,
                        wm_speedEpoch := wm_speedEpoch m1 + 1, wm_nextUploadIndex := 0,
                        wm_pendingCount := pending_files (wm_fileQueue m1), wm_currentPhase := Phase_checking,
                        wm_fileQueue := map (\<lambda>f. f\<lparr>wf_thisRun := \<not> wf_done f\<rparr>) (wm_fileQueue m1)\<rparr>
            in (web_log ''upload_started'' m2)\<lparr>wm_segmentStartedAt := we_now env, wm_wait := Await_preflight\<rparr>))"

text \<open>The effect of the duplicate check on the manager, its failure included.\<close>

definition preflight_settled :: "web_env \<Rightarrow> preflight_answers \<Rightarrow> web_manager \<Rightarrow> web_manager" where
  "preflight_settled env answers m =
     (case preflight_run env answers m of
        Some (m1, skippedFiles, skippedBytes) \<Rightarrow>
          refreshOverallProgress (updateStatsUI
            (m1\<lparr>wm_skippedBytes := skippedBytes,
                wm_globalCompletedBytes := max (wm_globalCompletedBytes m1) skippedBytes,
                wm_successCount := wm_successCount m1 + skippedFiles\<rparr>))
      | None \<Rightarrow>
          (let m1 = web_log ''preflight_fallback'' m
           in m1\<lparr>wm_fileQueue := map (\<lambda>f. if wf_done f then f else markFileQueued (Key ''file.ready'') f) (wm_fileQueue m1)\<rparr>))"

definition startStallWatchdog :: "number \<Rightarrow> web_manager \<Rightarrow> web_manager" where
  "startStallWatchdog now m = m\<lparr>wm_stallWatch := True, wm_lastProgressTs := now\<rparr>"

text \<open>From the end of the workers to the cleanup.\<close>

definition uploadFiles_finalize :: "web_env \<Rightarrow> web_manager \<Rightarrow> web_manager" where
  "uploadFiles_finalize env m =
     (refreshOverallProgress (m\<lparr>wm_uploadDurationMs := we_now env - wm_segmentStartedAt m\<rparr>))
       \<lparr>wm_currentPhase := Phase_verifying, wm_wait := Await_cleanup\<rparr>"

definition uploadFiles_checked :: "web_env \<Rightarrow> preflight_answers \<Rightarrow> web_manager \<Rightarrow> web_manager" where
  "uploadFiles_checked env answers m =
     (let m1 = preflight_settled env answers m;
          m2 = m1\<lparr>wm_checkDurationMs := we_now env - wm_segmentStartedAt m1,
                  wm_pendingCount := pending_files (wm_fileQueue m1),
                  wm_nextUploadIndex := 0, wm_segmentStartedAt := we_now env\<rparr>
      in if 0 < wm_pendingCount m2
         then (let m3 = startStallWatchdog (we_now env) (m2\<lparr>wm_currentPhase := Phase_uploading\<rparr>);
                   m4 = m3\<lparr>wm_speedInterval := True, wm_wait := Await_workers\<rparr>
               in (worker env ^^ wm_CONCURRENCY m4) m4)
         else uploadFiles_finalize env m2)"

definition web_outcome_of :: "file_meta \<Rightarrow> web_outcome" where
  "web_outcome_of f =
     (if wf_failed f then Out_failed else if wf_preflightSkipped f then Out_skipped
      else if wf_skipped f then Out_duplicate_after_upload else Out_uploaded)"

definition uploaded_item :: "file_meta \<Rightarrow> bool" where
  "uploaded_item f \<longleftrightarrow> wf_done f \<and> \<not> wf_failed f \<and> \<not> wf_preflightSkipped f \<and> \<not> wf_skipped f"

definition skipped_item :: "file_meta \<Rightarrow> bool" where
  "skipped_item f \<longleftrightarrow> wf_preflightSkipped f \<or> wf_skipped f"

definition history_of :: "web_env \<Rightarrow> web_manager \<Rightarrow> web_history" where
  "history_of env m =
     (let uploadedItems = filter uploaded_item (wm_fileQueue m);
          skippedItems = filter skipped_item (wm_fileQueue m)
      in \<lparr>hp_sessionId = wm_sessionId m @ ''-'' @ show_nat (nat \<lfloor>we_now env\<rfloor>), hp_completedAt = we_now env,
          hp_selectedFiles = length (wm_fileQueue m), hp_uploadedFiles = length uploadedItems,
          hp_skippedFiles = length skippedItems, hp_failedFiles = wm_errorCount m,
          hp_selectedBytes = wm_totalBytes m, hp_uploadedBytes = sum_list (map wf_size uploadedItems),
          hp_skippedBytes = sum_list (map wf_size skippedItems),
          hp_checkDurationMs = wm_checkDurationMs m, hp_uploadDurationMs = wm_uploadDurationMs m,
          hp_totalDurationMs = we_now env - wm_runStartedAt m,
          hp_averageSpeedMBps = (if 0 < wm_uploadDurationMs m
            then (real (wm_networkBytesUploaded m) / 1000000) / (wm_uploadDurationMs m / 1000) else 0),
          hp_peakSpeedMBps = wm_peakSpeed m / 1000000, hp_retries = wm_retryCount m,
          hp_files = map (\<lambda>f. (wf_id f, wf_name f,
            case wf_serverResult f of Some r \<Rightarrow> result_filename env r f | None \<Rightarrow> wf_name f,
            wf_size f, web_outcome_of f)) (wm_fileQueue m)\<rparr>)"

text \<open>The cleanup has finished: \<open>submitTransferHistory\<close> posts.\<close>

definition uploadFiles_submit :: "web_env \<Rightarrow> web_manager \<Rightarrow> web_manager" where
  "uploadFiles_submit env m =
     m\<lparr>wm_posts := (wm_posts m)\<lparr>wp_histories := wp_histories (wm_posts m) @ [history_of env m]\<rparr>,
       wm_totalDurationMs := we_now env - wm_runStartedAt m, wm_wait := Await_history\<rparr>"

text \<open>The history is stored or refused; the completion modal and the \<open>finally\<close> block.\<close>

definition uploadFiles_finally :: "number \<Rightarrow> web_manager \<Rightarrow> web_manager" where
  "uploadFiles_finally now m =
     (let m1 = reportSpeedSample 0 True now (m\<lparr>wm_speedInterval := False, wm_stallWatch := False\<rparr>)
      in setUploadUiState False (m1\<lparr>wm_startTime := None, wm_isUploadInProgress := False, wm_wait := Not_running\<rparr>))"

definition uploadFiles_end :: "web_env \<Rightarrow> bool \<Rightarrow> web_manager \<Rightarrow> web_manager" where
  "uploadFiles_end env stored m =
     (let m1 = (if stored then m else web_log ''history_store_failed'' m);
          m2 = m1\<lparr>wm_currentPhase := Phase_complete\<rparr>;
          processedFiles = length (filter (\<lambda>f. wf_done f \<and> \<not> wf_failed f) (wm_fileQueue m2));
          skippedFiles = length (filter skipped_item (wm_fileQueue m2))
      in uploadFiles_finally (we_now env) (web_log ''upload_finished''
           (show_modal (Upload_complete_modal processedFiles skippedFiles (wm_totalDurationMs m2)) m2)))"

subsection \<open>Timers\<close>

definition speed_tick :: "number \<Rightarrow> web_manager \<Rightarrow> web_manager" where
  "speed_tick now m =
     (if \<not> wm_speedInterval m then m
      else let m1 = refresh_speed now m;
               m2 = m1\<lparr>wm_peakSpeed := max (wm_peakSpeed m1) (wm_displaySpeedEMA m1)\<rparr>
           in refreshOverallProgress (reportSpeedSample (wm_displaySpeedEMA m2) False now m2))"

definition stall_tick :: "number \<Rightarrow> web_manager \<Rightarrow> web_manager" where
  "stall_tick now m =
     (if \<not> wm_stallWatch m \<or> wm_running m = 0 then m
      else if 45000 < now - wm_lastProgressTs m
      then (web_log ''stall_detected'' m)\<lparr>wm_lastProgressTs := now\<rparr> else m)"

subsection \<open>Events\<close>

datatype xhr_failure = Network_error | Request_timed_out | Request_aborted

fun whole_failure_text :: "xhr_failure \<Rightarrow> string" where
  "whole_failure_text Network_error = ''Network error''"
| "whole_failure_text Request_timed_out = ''Upload timeout''"
| "whole_failure_text Request_aborted = ''Upload aborted''"

fun chunk_failure_text :: "xhr_failure \<Rightarrow> string" where
  "chunk_failure_text Network_error = ''Network error''"
| "chunk_failure_text Request_timed_out = ''Timeout''"
| "chunk_failure_text Request_aborted = ''Abort''"

datatype web_event =
    Ev_config "jsval option"
  | Ev_add "web_file list"
  | Ev_reset
  | Ev_upload
  | Ev_config_awaited
  | Ev_preflight preflight_answers
  | Ev_progress nat nat nat
  | Ev_load nat xhr_answer
  | Ev_fail nat xhr_failure server_timing
  | Ev_retry nat
  | Ev_settle nat
  | Ev_workers_done
  | Ev_cleaned
  | Ev_history bool
  | Ev_speed_tick
  | Ev_stall_tick

definition flight_of :: "nat \<Rightarrow> web_manager \<Rightarrow> flight option" where
  "flight_of i m = (if i < length (wm_fileQueue m) then wf_flight (wm_fileQueue m ! i) else None)"

definition set_lastLoaded :: "nat \<Rightarrow> chunk_state \<Rightarrow> number \<Rightarrow> nat \<Rightarrow> web_manager \<Rightarrow> web_manager" where
  "set_lastLoaded i c startedAt loaded m = set_flight i (Some (Chunk_request (c\<lparr>ck_lastLoaded := loaded\<rparr>) startedAt)) m"

fun web_step :: "web_env \<times> web_event \<Rightarrow> web_manager \<Rightarrow> web_manager" where
  "web_step (env, Ev_config answer) m = (if wm_configSettled m then m else loadServerConfig answer m)"
| "web_step (env, Ev_add files) m = addFiles files m"
| "web_step (env, Ev_reset) m = resetFiles m"
| "web_step (env, Ev_upload) m = uploadFiles_click m"
| "web_step (env, Ev_config_awaited) m =
     (if wm_wait m = Await_config \<and> wm_configSettled m then uploadFiles_start env m else m)"
| "web_step (env, Ev_preflight answers) m =
     (if wm_wait m = Await_preflight then uploadFiles_checked env answers m else m)"
| "web_step (env, Ev_progress i loaded totalBytes) m =
     (case flight_of i m of
        Some (Whole_request _) \<Rightarrow> at_file i (whole_progress loaded totalBytes (we_now env)) m
      | Some (Chunk_request c startedAt) \<Rightarrow>
          set_lastLoaded i c startedAt loaded (chunk_progress i c loaded totalBytes (we_now env) m)
      | _ \<Rightarrow> m)"
| "web_step (env, Ev_load i xhr) m =
     (case flight_of i m of
        Some (Whole_request startedAt) \<Rightarrow> at_file i (whole_load env startedAt xhr) m
      | Some (Chunk_request c startedAt) \<Rightarrow> chunk_load env i c startedAt xhr m
      | _ \<Rightarrow> m)"
| "web_step (env, Ev_fail i failure timing) m =
     (case flight_of i m of
        Some (Whole_request startedAt) \<Rightarrow>
          at_file i (whole_fail (whole_failure_text failure) startedAt (we_now env) timing) m
      | Some (Chunk_request c startedAt) \<Rightarrow>
          chunk_fail (chunk_failure_text failure) i c startedAt (we_now env) timing m
      | _ \<Rightarrow> m)"
| "web_step (env, Ev_retry i) m =
     (case flight_of i m of
        Some (Chunk_backoff c) \<Rightarrow> set_flight i (Some (Chunk_request c (we_now env))) m
      | _ \<Rightarrow> m)"
| "web_step (env, Ev_settle i) m =
     (case flight_of i m of Some (Settled result) \<Rightarrow> worker_settle env i result m | _ \<Rightarrow> m)"
| "web_step (env, Ev_workers_done) m =
     (if wm_wait m = Await_workers \<and> wm_workers m = 0 then uploadFiles_finalize env m else m)"
| "web_step (env, Ev_cleaned) m = (if wm_wait m = Await_cleanup then uploadFiles_submit env m else m)"
| "web_step (env, Ev_history stored) m = (if wm_wait m = Await_history then uploadFiles_end env stored m else m)"
| "web_step (env, Ev_speed_tick) m = speed_tick (we_now env) m"
| "web_step (env, Ev_stall_tick) m = stall_tick (we_now env) m"

end
