(* ===== verification/WebInvariant.thy ===== *)
theory WebInvariant
  imports WebUpload
begin

text \<open>
  The accounts of the browser client. Every counter of the manager is a sum over the files
  of its queue. An operation on one file is \<^emph>\<open>balanced\<close> when it changes the counters by what
  the weights of the file change; balanced operations compose and keep all sums.
\<close>

subsection \<open>Weights\<close>

definition w_up :: "file_meta \<Rightarrow> nat" where
  "w_up f = (if wf_thisRun f then wf_uploadedBytes f else 0)"

definition w_co :: "file_meta \<Rightarrow> nat" where
  "w_co f = (if wf_thisRun f then wf_completedBytes f else 0)"

definition w_err :: "file_meta \<Rightarrow> nat" where
  "w_err f = of_bool (wf_failed f) + of_bool (wf_flight f \<noteq> None \<and> wf_wasFailedBefore f)"

definition w_ok :: "file_meta \<Rightarrow> nat" where
  "w_ok f = of_bool (wf_done f \<and> \<not> wf_failed f)"

definition w_speed :: "nat \<Rightarrow> file_meta \<Rightarrow> number" where
  "w_speed epoch f = (if wf_speedEpoch f = Some epoch then wf_speed f else 0)"

lemmas weight_defs = w_up_def w_co_def w_err_def w_ok_def

subsection \<open>A file\<close>

text \<open>Byte ranges that follow each other without a gap from \<open>a\<close> to \<open>b\<close>.\<close>

fun covers :: "nat \<Rightarrow> (nat \<times> nat) list \<Rightarrow> nat \<Rightarrow> bool" where
  "covers a [] b \<longleftrightarrow> a = b"
| "covers a ((s, e) # rs) b \<longleftrightarrow> s = a \<and> s \<le> e \<and> covers e rs b"

definition chunk_ok :: "file_meta \<Rightarrow> chunk_state \<Rightarrow> bool" where
  "chunk_ok f c \<longleftrightarrow> 0 < ck_chunkSize c \<and> ck_index c < ck_totalChunks c \<and> ck_totalChunks c \<le> WebMaxChunksPerFile \<and>
     ck_totalChunks c = web_totalChunks (wf_size f) (ck_chunkSize c) \<and> ck_attempt c \<le> WEB_CHUNK_RETRIES \<and>
     ck_uploadedBytes c = chunk_start c \<and> covers 0 (wf_accepted f) (chunk_start c)"

fun flight_ok :: "file_meta \<Rightarrow> flight option \<Rightarrow> bool" where
  "flight_ok f None \<longleftrightarrow> (wf_done f \<and> \<not> wf_failed f \<longrightarrow> wf_preflightSkipped f \<or> covers 0 (wf_accepted f) (wf_size f))"
| "flight_ok f (Some (Whole_request t)) \<longleftrightarrow> True"
| "flight_ok f (Some (Chunk_request c t)) \<longleftrightarrow> chunk_ok f c"
| "flight_ok f (Some (Chunk_backoff c)) \<longleftrightarrow> chunk_ok f c"
| "flight_ok f (Some (Settled (Inr v))) \<longleftrightarrow> covers 0 (wf_accepted f) (wf_size f)"
| "flight_ok f (Some (Settled (Inl e))) \<longleftrightarrow> True"

definition bytes_ok :: "file_meta \<Rightarrow> bool" where
  "bytes_ok f \<longleftrightarrow> wf_uploadedBytes f \<le> wf_completedBytes f \<and> wf_completedBytes f \<le> wf_size f \<and>
     (\<not> wf_done f \<and> wf_flight f = None \<longrightarrow> wf_completedBytes f = 0) \<and>
     (wf_done f \<and> \<not> wf_failed f \<longrightarrow> wf_completedBytes f = wf_size f)"

definition held_ok :: "file_meta \<Rightarrow> bool" where
  "held_ok f \<longleftrightarrow> (wf_flight f \<noteq> None \<longrightarrow> \<not> wf_done f \<and> wf_running f \<and> wf_thisRun f \<and> \<not> wf_failed f)"

definition item_ok :: "file_meta \<Rightarrow> bool" where
  "item_ok f \<longleftrightarrow> 0 \<le> fu_percent (wf_ui f) \<and> fu_percent (wf_ui f) \<le> 100 \<and>
     (wf_done f \<and> \<not> wf_failed f \<longrightarrow> fu_class (wf_ui f) = Item_success \<and> fu_percent (wf_ui f) = 100)"

definition file_ok :: "file_meta \<Rightarrow> bool" where
  "file_ok f \<longleftrightarrow> bytes_ok f \<and> held_ok f \<and> flight_ok f (wf_flight f) \<and> item_ok f"

subsection \<open>The accounts\<close>

definition accounts_ok :: "web_manager \<Rightarrow> bool" where
  "accounts_ok m \<longleftrightarrow>
     wm_totalBytes m = sum_list (map wf_size (wm_fileQueue m)) \<and>
     wm_globalUploadedBytes m = sum_list (map w_up (wm_fileQueue m)) \<and>
     wm_networkBytesUploaded m = wm_globalUploadedBytes m \<and>
     wm_globalCompletedBytes m = sum_list (map w_co (wm_fileQueue m)) \<and>
     wm_errorCount m = sum_list (map w_err (wm_fileQueue m)) \<and>
     wm_successCount m = sum_list (map w_ok (wm_fileQueue m)) + wm_failedSkips m \<and>
     list_all file_ok (wm_fileQueue m)"

definition balanced :: "file_meta \<times> web_manager \<Rightarrow> file_meta \<times> web_manager \<Rightarrow> bool" where
  "balanced p p' \<longleftrightarrow>
     wm_fileQueue (snd p') = wm_fileQueue (snd p) \<and> wm_totalBytes (snd p') = wm_totalBytes (snd p) \<and>
     wf_size (fst p') = wf_size (fst p) \<and>
     (wm_networkBytesUploaded (snd p) = wm_globalUploadedBytes (snd p) \<longrightarrow>
        wm_networkBytesUploaded (snd p') = wm_globalUploadedBytes (snd p')) \<and>
     wm_globalUploadedBytes (snd p') + w_up (fst p) = wm_globalUploadedBytes (snd p) + w_up (fst p') \<and>
     wm_globalCompletedBytes (snd p') + w_co (fst p) = wm_globalCompletedBytes (snd p) + w_co (fst p') \<and>
     wm_errorCount (snd p') + w_err (fst p) = wm_errorCount (snd p) + w_err (fst p') \<and>
     wm_successCount (snd p') + wm_failedSkips (snd p) + w_ok (fst p) =
       wm_successCount (snd p) + wm_failedSkips (snd p') + w_ok (fst p')"

lemma sum_list_update_balance:
  fixes g :: "'a \<Rightarrow> nat"
  shows "i < length xs \<Longrightarrow> sum_list (map g (xs[i := x])) + g (xs ! i) = sum_list (map g xs) + g x"
proof (induction xs arbitrary: i)
  case Nil
  then show ?case by simp
next
  case (Cons y ys)
  show ?case
  proof (cases i)
    case 0
    then show ?thesis by simp
  next
    case (Suc j)
    then show ?thesis using Cons.IH [of j] Cons.prems by simp
  qed
qed

lemma sum_list_update_same: "i < length xs \<Longrightarrow> g x = g (xs ! i) \<Longrightarrow> map g (xs[i := x]) = map g xs"
  by (simp add: map_update) (metis length_map list_update_id nth_map)

lemma balanced_trans [trans]: "balanced p q \<Longrightarrow> balanced q r \<Longrightarrow> balanced p r"
  unfolding balanced_def by (elim conjE, intro conjI) (simp_all | linarith)+

lemma balanced_refl: "balanced p p"
  by (simp add: balanced_def)

lemma at_file_queue:
  assumes "wm_fileQueue (snd (operation (wm_fileQueue m ! i, m))) = wm_fileQueue m"
  shows "wm_fileQueue (at_file i operation m) = (wm_fileQueue m)[i := fst (operation (wm_fileQueue m ! i, m))]"
  using assms by (cases "operation (wm_fileQueue m ! i, m)") (simp add: at_file_def)

text \<open>A balanced operation that leaves a sound file keeps the accounts.\<close>

lemma accounts_at_file:
  assumes inv: "accounts_ok m" and i: "i < length (wm_fileQueue m)"
    and bal: "balanced (wm_fileQueue m ! i, m) (operation (wm_fileQueue m ! i, m))"
    and ok: "file_ok (fst (operation (wm_fileQueue m ! i, m)))"
  shows "accounts_ok (at_file i operation m)"
proof -
  obtain f' m' where op: "operation (wm_fileQueue m ! i, m) = (f', m')" by fastforce
  note upd = sum_list_update_balance [OF i, of _ f']
  have sizes: "map wf_size ((wm_fileQueue m)[i := f']) = map wf_size (wm_fileQueue m)"
    using bal i by (intro sum_list_update_same) (simp_all add: op balanced_def)
  have "list_all file_ok ((wm_fileQueue m)[i := f'])"
    using inv ok by (auto simp: accounts_ok_def op list_all_iff dest: set_update_subset_insert [THEN subsetD])
  then show ?thesis
    using inv bal sizes upd [of w_up] upd [of w_co] upd [of w_err] upd [of w_ok]
    by (simp add: accounts_ok_def balanced_def at_file_def op)
qed

subsection \<open>Balanced operations\<close>

lemma balanced_file:
  assumes "wf_size (g (fst p)) = wf_size (fst p)" "w_up (g (fst p)) = w_up (fst p)" "w_co (g (fst p)) = w_co (fst p)"
    "w_err (g (fst p)) = w_err (fst p)" "w_ok (g (fst p)) = w_ok (fst p)"
  shows "balanced p (apfst g p)"
  using assms by (cases p) (simp add: balanced_def)

text \<open>Fields of the manager that no account reads.\<close>

definition same_accounts :: "web_manager \<Rightarrow> web_manager \<Rightarrow> bool" where
  "same_accounts m m' \<longleftrightarrow>
     wm_fileQueue m' = wm_fileQueue m \<and> wm_totalBytes m' = wm_totalBytes m \<and>
     wm_networkBytesUploaded m' = wm_networkBytesUploaded m \<and> wm_globalUploadedBytes m' = wm_globalUploadedBytes m \<and>
     wm_globalCompletedBytes m' = wm_globalCompletedBytes m \<and> wm_errorCount m' = wm_errorCount m \<and>
     wm_successCount m' = wm_successCount m \<and> wm_failedSkips m' = wm_failedSkips m"

lemma balanced_manager: "same_accounts (snd p) (h (snd p)) \<Longrightarrow> balanced p (apsnd h p)"
  by (cases p) (simp add: balanced_def same_accounts_def)

lemma accounts_same: "accounts_ok m \<Longrightarrow> same_accounts m m' \<Longrightarrow> accounts_ok m'"
  by (simp add: accounts_ok_def same_accounts_def)

declare updateFileTransferProgress.simps [simp del] updateFileSpeed.simps [simp del]
  markFileCompletedWithoutUpload.simps [simp del]

lemmas account_simps = updateFileTransferProgress.simps updateFileSpeed.simps markFileCompletedWithoutUpload.simps

lemma balanced_speed: "balanced p (updateFileSpeed v p)"
  by (cases p) (simp add: balanced_def weight_defs account_simps Let_def)

lemma balanced_progress: "wf_thisRun (fst p) \<Longrightarrow> balanced p (updateFileTransferProgress n p)"
  by (cases p) (simp add: balanced_def weight_defs account_simps Let_def)

text \<open>What the progress account does to the file.\<close>

lemma fst_progress: "fst (updateFileTransferProgress n p) =
   (fst p)\<lparr>wf_uploadedBytes := max (wf_uploadedBytes (fst p)) (min n (wf_size (fst p))),
           wf_completedBytes := max (wf_completedBytes (fst p)) (min n (wf_size (fst p)))\<rparr>"
  by (cases p) (simp add: account_simps Let_def)

lemma fst_speed: "fst (updateFileSpeed v p) =
   (fst p)\<lparr>wf_speed := (if 0 < v then v else 0), wf_speedEpoch := Some (wm_speedEpoch (snd p))\<rparr>"
  by (cases p) (simp add: account_simps Let_def)

text \<open>The same facts as steps of a chain of operations.\<close>

lemma balanced_step_file:
  "balanced p q \<Longrightarrow> wf_size (g (fst q)) = wf_size (fst q) \<Longrightarrow> w_up (g (fst q)) = w_up (fst q) \<Longrightarrow>
   w_co (g (fst q)) = w_co (fst q) \<Longrightarrow> w_err (g (fst q)) = w_err (fst q) \<Longrightarrow> w_ok (g (fst q)) = w_ok (fst q) \<Longrightarrow>
   balanced p (apfst g q)"
  by (blast intro: balanced_trans balanced_file)

lemma balanced_step_manager: "balanced p q \<Longrightarrow> same_accounts (snd q) (h (snd q)) \<Longrightarrow> balanced p (apsnd h q)"
  by (blast intro: balanced_trans balanced_manager)

lemma balanced_step_speed: "balanced p q \<Longrightarrow> balanced p (updateFileSpeed v q)"
  by (blast intro: balanced_trans balanced_speed)

lemma balanced_step_progress: "balanced p q \<Longrightarrow> wf_thisRun (fst q) \<Longrightarrow> balanced p (updateFileTransferProgress n q)"
  by (blast intro: balanced_trans balanced_progress)

lemma balanced_if: "balanced p q \<Longrightarrow> balanced p q' \<Longrightarrow> balanced p (if b then q else q')"
  by simp

lemmas balanced_steps = balanced_refl balanced_step_file balanced_step_manager balanced_step_speed
  balanced_step_progress balanced_if

lemmas fst_ops = fst_progress fst_speed
lemmas ui_defs = show_percent_def setFileProgress_def markFileSuccess_def markFileSkipped_def markFileError_def
  markFileQueued_def applyProgressTransform_def

lemma balanced_whole_progress: "wf_thisRun (fst p) \<Longrightarrow> balanced p (whole_progress loaded totalBytes now p)"
  unfolding whole_progress_def Let_def
  by (intro balanced_steps) (simp_all add: fst_ops weight_defs ui_defs Let_def same_accounts_def)

lemma balanced_chunk_speed: "balanced p (chunk_speed c loaded now p)"
  unfolding chunk_speed_def Let_def
  by (intro balanced_steps) (simp_all add: fst_ops weight_defs Let_def same_accounts_def)

lemma balanced_chunk_bytes: "wf_thisRun (fst p) \<Longrightarrow> balanced p (chunk_bytes c loaded now p)"
  unfolding chunk_bytes_def Let_def
  by (intro balanced_steps) (simp_all add: fst_ops weight_defs ui_defs Let_def)

lemma balanced_timing: "balanced p (apfst (recordRequestTiming t now server) p)"
  by (intro balanced_steps) (simp_all add: recordRequestTiming_def weight_defs Let_def)

lemma balanced_set_flight: "wf_flight (fst p) \<noteq> None \<Longrightarrow> balanced p (apfst (\<lambda>f. f\<lparr>wf_flight := Some fl\<rparr>) p)"
  by (intro balanced_steps) (auto simp: weight_defs)

lemma balanced_whole_load: "wf_thisRun (fst p) \<Longrightarrow> wf_flight (fst p) \<noteq> None \<Longrightarrow> balanced p (whole_load env t xhr p)"
  unfolding whole_load_def Let_def
  by (intro balanced_steps) (auto simp: fst_ops weight_defs recordRequestTiming_def Let_def same_accounts_def)

lemma balanced_whole_fail: "wf_flight (fst p) \<noteq> None \<Longrightarrow> balanced p (whole_fail msg t now timing p)"
  unfolding whole_fail_def
  by (intro balanced_steps) (auto simp: weight_defs recordRequestTiming_def Let_def)

lemma balanced_chunk_accepted:
  assumes "wf_thisRun (fst p)" "wf_flight (fst p) \<noteq> None"
  shows "balanced p (chunk_accepted env c body p)"
proof (cases "confirmed_result body")
  case None
  show ?thesis
    unfolding chunk_accepted_def Let_def None option.case
    using assms by (intro balanced_steps) (auto simp: fst_ops weight_defs same_accounts_def)
next
  case (Some v)
  show ?thesis
    unfolding chunk_accepted_def Let_def Some option.case
    using assms by (intro balanced_steps) (auto simp: fst_ops weight_defs same_accounts_def)
qed

text \<open>The fields that starting a flight and presenting a result leave alone.\<close>

lemma begin_flight_fields [simp]:
  "wf_size (begin_flight env i m f) = wf_size f"
  "wf_running (begin_flight env i m f) = wf_running f"
  "wf_done (begin_flight env i m f) = wf_done f"
  "wf_failed (begin_flight env i m f) = wf_failed f"
  "wf_preflightSkipped (begin_flight env i m f) = wf_preflightSkipped f"
  "wf_speed (begin_flight env i m f) = wf_speed f"
  "wf_speedEpoch (begin_flight env i m f) = wf_speedEpoch f"
  "wf_uploadedBytes (begin_flight env i m f) = wf_uploadedBytes f"
  "wf_completedBytes (begin_flight env i m f) = wf_completedBytes f"
  "wf_wasFailedBefore (begin_flight env i m f) = wf_wasFailedBefore f"
  "wf_thisRun (begin_flight env i m f) = wf_thisRun f"
  "wf_accepted (begin_flight env i m f) = wf_accepted f"
  "wf_skipped (begin_flight env i m f) = wf_skipped f"
  "wf_ui (begin_flight env i m f) = wf_ui f"
  by (simp_all add: begin_flight_def split: flight.split)

lemma begin_flight_Some [simp]: "wf_flight (begin_flight env i m f) \<noteq> None"
  by (simp add: begin_flight_def split: flight.split)

lemma present_result_fields [simp]:
  "wf_size (present_result env v f) = wf_size f"
  "wf_running (present_result env v f) = wf_running f"
  "wf_done (present_result env v f) = wf_done f"
  "wf_failed (present_result env v f) = wf_failed f"
  "wf_preflightSkipped (present_result env v f) = wf_preflightSkipped f"
  "wf_speed (present_result env v f) = wf_speed f"
  "wf_speedEpoch (present_result env v f) = wf_speedEpoch f"
  "wf_uploadedBytes (present_result env v f) = wf_uploadedBytes f"
  "wf_completedBytes (present_result env v f) = wf_completedBytes f"
  "wf_wasFailedBefore (present_result env v f) = wf_wasFailedBefore f"
  "wf_thisRun (present_result env v f) = wf_thisRun f"
  "wf_accepted (present_result env v f) = wf_accepted f"
  "wf_flight (present_result env v f) = wf_flight f"
  by (simp_all add: present_result_def ui_defs Let_def)

lemma present_result_item [simp]:
  "fu_class (wf_ui (present_result env v f)) = Item_success" "fu_percent (wf_ui (present_result env v f)) = 100"
  by (simp_all add: present_result_def ui_defs Let_def)

lemma end_single_fields [simp]:
  "wf_size (end_single f) = wf_size f" "wf_uploadedBytes (end_single f) = wf_uploadedBytes f"
  "wf_completedBytes (end_single f) = wf_completedBytes f" "wf_failed (end_single f) = wf_failed f"
  "wf_thisRun (end_single f) = wf_thisRun f" "wf_done (end_single f)" "\<not> wf_running (end_single f)"
  "wf_flight (end_single f) = None" "wf_accepted (end_single f) = wf_accepted f" "wf_ui (end_single f) = wf_ui f"
  "wf_preflightSkipped (end_single f) = wf_preflightSkipped f"
  by (simp_all add: end_single_def)

lemma balanced_parts:
  "same_accounts (snd p) (snd q) \<Longrightarrow> wf_size (fst q) = wf_size (fst p) \<Longrightarrow> w_up (fst q) = w_up (fst p) \<Longrightarrow>
   w_co (fst q) = w_co (fst p) \<Longrightarrow> w_err (fst q) = w_err (fst p) \<Longrightarrow> w_ok (fst q) = w_ok (fst p) \<Longrightarrow> balanced p q"
  by (simp add: balanced_def same_accounts_def)

lemma same_accounts_speed: "same_accounts (snd p) (snd (updateFileSpeed v p))"
  by (cases p) (simp add: same_accounts_def account_simps Let_def)

lemma balanced_start:
  assumes "\<not> wf_done (fst p)" "wf_flight (fst p) = None" "wf_uploadedBytes (fst p) = 0" "wf_completedBytes (fst p) = 0"
  shows "balanced p (uploadSingle_start env i p)"
proof (rule balanced_parts)
  show "same_accounts (snd p) (snd (uploadSingle_start env i p))"
    using same_accounts_speed [of "apfst (\<lambda>f. f\<lparr>wf_wasFailedBefore := wf_failed f, wf_failed := False\<rparr>) p" 0]
    by (simp add: uploadSingle_start_def clearFileSpeed_def Let_def)
qed (use assms in \<open>simp_all add: uploadSingle_start_def clearFileSpeed_def Let_def fst_ops weight_defs ui_defs\<close>)

lemma balanced_settle:
  assumes "wf_flight (fst p) \<noteq> None" "\<not> wf_failed (fst p)" "\<not> wf_done (fst p)" "wf_thisRun (fst p)"
    and "wf_wasFailedBefore (fst p) \<Longrightarrow> 0 < wm_errorCount (snd p)"
  shows "balanced p (uploadSingle_settle env result p)"
proof (cases result)
  case (Inl e)
  then show ?thesis
    using assms
    by (cases p) (simp add: uploadSingle_settle_def single_failed_def clearFileSpeed_def balanced_def weight_defs ui_defs
        web_log_def account_simps Let_def)
next
  case (Inr v)
  then show ?thesis
    using assms
    by (cases p, cases "wf_wasFailedBefore (fst p)")
      (simp_all add: uploadSingle_settle_def single_succeeded_def clearFileSpeed_def balanced_def weight_defs account_simps Let_def)
qed

lemma balanced_skip:
  assumes "\<not> wf_done (fst p)" "wf_flight (fst p) = None" "wf_uploadedBytes (fst p) = 0" "wf_completedBytes (fst p) = 0"
    "wf_thisRun (fst p)"
  shows "balanced p (apsnd (\<lambda>m. m\<lparr>wm_successCount := wm_successCount m + 1\<rparr>) (web_skip_file env result p))"
  using assms
  by (cases p) (simp add: web_skip_file_def balanced_def weight_defs ui_defs account_simps Let_def)

subsection \<open>Sound files\<close>

lemma chunk_ok_cong: "wf_size f' = wf_size f \<Longrightarrow> wf_accepted f' = wf_accepted f \<Longrightarrow> chunk_ok f' c = chunk_ok f c"
  by (simp add: chunk_ok_def)

lemma flight_ok_cong:
  "wf_size f' = wf_size f \<Longrightarrow> wf_accepted f' = wf_accepted f \<Longrightarrow> wf_done f' = wf_done f \<Longrightarrow> wf_failed f' = wf_failed f \<Longrightarrow>
   wf_preflightSkipped f' = wf_preflightSkipped f \<Longrightarrow> flight_ok f' fl = flight_ok f fl"
  by (induction f fl rule: flight_ok.induct) (simp_all add: chunk_ok_def)

lemma flight_ok_fields [simp]:
  "flight_ok (f\<lparr>wf_speed := x0\<rparr>) fl = flight_ok f fl"
  "flight_ok (f\<lparr>wf_speedEpoch := x1\<rparr>) fl = flight_ok f fl"
  "flight_ok (f\<lparr>wf_lastLoaded := x2\<rparr>) fl = flight_ok f fl"
  "flight_ok (f\<lparr>wf_lastTime := x3\<rparr>) fl = flight_ok f fl"
  "flight_ok (f\<lparr>wf_lastUIUpdate := x4\<rparr>) fl = flight_ok f fl"
  "flight_ok (f\<lparr>wf_transferTiming := x5\<rparr>) fl = flight_ok f fl"
  "flight_ok (f\<lparr>wf_serverResult := x6\<rparr>) fl = flight_ok f fl"
  "flight_ok (f\<lparr>wf_wasFailedBefore := x7\<rparr>) fl = flight_ok f fl"
  "flight_ok (f\<lparr>wf_skipped := x8\<rparr>) fl = flight_ok f fl"
  "flight_ok (f\<lparr>wf_uploadedBytes := x9\<rparr>) fl = flight_ok f fl"
  "flight_ok (f\<lparr>wf_completedBytes := x10\<rparr>) fl = flight_ok f fl"
  "flight_ok (f\<lparr>wf_ui := x11\<rparr>) fl = flight_ok f fl"
  "flight_ok (f\<lparr>wf_running := x12\<rparr>) fl = flight_ok f fl"
  "flight_ok (f\<lparr>wf_flight := x13\<rparr>) fl = flight_ok f fl"
  "flight_ok (f\<lparr>wf_thisRun := x14\<rparr>) fl = flight_ok f fl"
  by (rule flight_ok_cong; simp)+

lemma file_ok_fields [simp]:
  "file_ok (f\<lparr>wf_speed := x0\<rparr>) = file_ok f"
  "file_ok (f\<lparr>wf_speedEpoch := x1\<rparr>) = file_ok f"
  "file_ok (f\<lparr>wf_lastLoaded := x2\<rparr>) = file_ok f"
  "file_ok (f\<lparr>wf_lastTime := x3\<rparr>) = file_ok f"
  "file_ok (f\<lparr>wf_lastUIUpdate := x4\<rparr>) = file_ok f"
  "file_ok (f\<lparr>wf_transferTiming := x5\<rparr>) = file_ok f"
  "file_ok (f\<lparr>wf_serverResult := x6\<rparr>) = file_ok f"
  "file_ok (f\<lparr>wf_wasFailedBefore := x7\<rparr>) = file_ok f"
  "file_ok (f\<lparr>wf_skipped := x8\<rparr>) = file_ok f"
  by (simp_all add: file_ok_def bytes_ok_def held_ok_def item_ok_def)

lemma file_ok_timing [simp]: "file_ok (recordRequestTiming t now server f) = file_ok f"
  by (simp add: recordRequestTiming_def Let_def)

lemma timing_fields [simp]:
  "wf_flight (recordRequestTiming t now server f) = wf_flight f" "wf_size (recordRequestTiming t now server f) = wf_size f"
  "wf_done (recordRequestTiming t now server f) = wf_done f" "wf_thisRun (recordRequestTiming t now server f) = wf_thisRun f"
  "wf_accepted (recordRequestTiming t now server f) = wf_accepted f"
  "wf_failed (recordRequestTiming t now server f) = wf_failed f"
  "wf_running (recordRequestTiming t now server f) = wf_running f"
  "wf_wasFailedBefore (recordRequestTiming t now server f) = wf_wasFailedBefore f"
  by (simp_all add: recordRequestTiming_def Let_def)

lemma file_ok_progress:
  "file_ok f \<Longrightarrow> wf_flight f \<noteq> None \<Longrightarrow>
   file_ok (f\<lparr>wf_uploadedBytes := max (wf_uploadedBytes f) (min n (wf_size f)),
             wf_completedBytes := max (wf_completedBytes f) (min n (wf_size f))\<rparr>)"
  by (auto simp: file_ok_def bytes_ok_def held_ok_def item_ok_def)

lemma file_ok_setFileProgress: "file_ok f \<Longrightarrow> \<not> wf_done f \<Longrightarrow> file_ok (setFileProgress percent t f)"
  by (auto simp: setFileProgress_def applyProgressTransform_def file_ok_def bytes_ok_def held_ok_def item_ok_def
     )

lemma file_ok_queued: "file_ok f \<Longrightarrow> \<not> wf_done f \<Longrightarrow> file_ok (markFileQueued t f)"
  by (auto simp: markFileQueued_def applyProgressTransform_def file_ok_def bytes_ok_def held_ok_def item_ok_def
     )

lemma file_ok_show_percent: "file_ok f \<Longrightarrow> \<not> wf_done f \<Longrightarrow> file_ok (show_percent loaded totalBytes now f)"
  by (simp add: show_percent_def Let_def file_ok_setFileProgress)

lemma file_ok_flight:
  "file_ok f \<Longrightarrow> wf_flight f \<noteq> None \<Longrightarrow> flight_ok f (Some fl) \<Longrightarrow> file_ok (f\<lparr>wf_flight := Some fl\<rparr>)"
  by (auto simp: file_ok_def bytes_ok_def held_ok_def item_ok_def)

lemma held_not_done: "file_ok f \<Longrightarrow> wf_flight f \<noteq> None \<Longrightarrow> \<not> wf_done f"
  by (auto simp: file_ok_def held_ok_def)

lemma file_ok_accounted:
  "file_ok (fst p) \<Longrightarrow> wf_flight (fst p) \<noteq> None \<Longrightarrow> file_ok (fst (updateFileTransferProgress n p))"
  "file_ok (fst p) \<Longrightarrow> file_ok (fst (updateFileSpeed v p))"
  by (simp_all add: fst_ops file_ok_progress)

lemma accounted_fields [simp]:
  "wf_flight (fst (updateFileTransferProgress n p)) = wf_flight (fst p)"
  "wf_size (fst (updateFileTransferProgress n p)) = wf_size (fst p)"
  "wf_done (fst (updateFileTransferProgress n p)) = wf_done (fst p)"
  "wf_thisRun (fst (updateFileTransferProgress n p)) = wf_thisRun (fst p)"
  "wf_failed (fst (updateFileTransferProgress n p)) = wf_failed (fst p)"
  "wf_running (fst (updateFileTransferProgress n p)) = wf_running (fst p)"
  "wf_wasFailedBefore (fst (updateFileTransferProgress n p)) = wf_wasFailedBefore (fst p)"
  "wf_accepted (fst (updateFileTransferProgress n p)) = wf_accepted (fst p)"
  "wf_flight (fst (updateFileSpeed v p)) = wf_flight (fst p)"
  "wf_size (fst (updateFileSpeed v p)) = wf_size (fst p)"
  "wf_done (fst (updateFileSpeed v p)) = wf_done (fst p)"
  "wf_thisRun (fst (updateFileSpeed v p)) = wf_thisRun (fst p)"
  "wf_failed (fst (updateFileSpeed v p)) = wf_failed (fst p)"
  "wf_running (fst (updateFileSpeed v p)) = wf_running (fst p)"
  "wf_wasFailedBefore (fst (updateFileSpeed v p)) = wf_wasFailedBefore (fst p)"
  "wf_accepted (fst (updateFileSpeed v p)) = wf_accepted (fst p)"
  by (simp_all add: fst_ops)

lemma file_ok_whole_progress:
  assumes "file_ok (fst p)" "wf_flight (fst p) \<noteq> None"
  shows "file_ok (fst (whole_progress loaded totalBytes now p))"
  using assms held_not_done [OF assms] unfolding whole_progress_def Let_def
  by (simp add: file_ok_show_percent file_ok_accounted)

lemma file_ok_chunk_speed: "file_ok (fst p) \<Longrightarrow> file_ok (fst (chunk_speed c loaded now p))"
  by (simp add: chunk_speed_def Let_def file_ok_accounted)

lemma file_ok_chunk_bytes:
  assumes "file_ok (fst p)" "wf_flight (fst p) \<noteq> None"
  shows "file_ok (fst (chunk_bytes c loaded now p))"
  using assms held_not_done [OF assms]
  by (simp add: chunk_bytes_def Let_def file_ok_show_percent file_ok_accounted)

text \<open>The chunks of a file: as many as start before its end.\<close>

lemma less_totalChunks: "0 < cs \<Longrightarrow> k < web_totalChunks n cs \<longleftrightarrow> k * cs < n"
proof -
  assume cs: "0 < cs"
  have "k < web_totalChunks n cs \<longleftrightarrow> real k < real n / real cs"
    by (simp add: web_totalChunks_def zless_nat_eq_int_zless less_ceiling_iff)
  also have "\<dots> \<longleftrightarrow> real (k * cs) < real n"
    using cs by (simp add: pos_less_divide_eq)
  finally show ?thesis by (simp only: of_nat_less_iff)
qed

lemma covers_snoc: "covers a rs s \<Longrightarrow> s \<le> e \<Longrightarrow> covers a (rs @ [(s, e)]) e"
  by (induction a rs s rule: covers.induct) auto

lemma chunk_ok_end:
  assumes "chunk_ok f c"
  shows "chunk_start c < chunk_end f c"
    and "ck_index c \<noteq> ck_totalChunks c - 1 \<Longrightarrow> chunk_end f c = (ck_index c + 1) * ck_chunkSize c"
    and "ck_index c = ck_totalChunks c - 1 \<Longrightarrow> chunk_end f c = wf_size f"
proof -
  have cs: "0 < ck_chunkSize c" and t: "ck_totalChunks c = web_totalChunks (wf_size f) (ck_chunkSize c)"
    and lt: "ck_index c < ck_totalChunks c"
    using assms by (simp_all add: chunk_ok_def)
  show "chunk_start c < chunk_end f c"
    using lt less_totalChunks [OF cs] cs by (simp add: chunk_start_def chunk_end_def t)
  have next_lt: "ck_index c + 1 < ck_totalChunks c \<longleftrightarrow> (ck_index c + 1) * ck_chunkSize c < wf_size f"
    using less_totalChunks [OF cs] by (simp add: t)
  show "chunk_end f c = (ck_index c + 1) * ck_chunkSize c" if other: "ck_index c \<noteq> ck_totalChunks c - 1"
  proof -
    have "ck_index c + 1 < ck_totalChunks c" using other lt by linarith
    then show ?thesis using next_lt by (simp add: chunk_end_def chunk_start_def)
  qed
  show "chunk_end f c = wf_size f" if at_end: "ck_index c = ck_totalChunks c - 1"
  proof -
    have "\<not> ck_index c + 1 < ck_totalChunks c" using at_end lt by linarith
    then have "wf_size f \<le> chunk_start c + ck_chunkSize c" using next_lt by (simp add: chunk_start_def)
    then show ?thesis by (simp add: chunk_end_def)
  qed
qed

lemma file_ok_refly:
  assumes "file_ok f" "wf_flight f \<noteq> None" "wf_size f' = wf_size f" "wf_done f' = wf_done f"
    "wf_running f' = wf_running f" "wf_failed f' = wf_failed f" "wf_thisRun f' = wf_thisRun f" "wf_ui f' = wf_ui f"
    "wf_uploadedBytes f' \<le> wf_completedBytes f'" "wf_completedBytes f' \<le> wf_size f"
    "wf_flight f' \<noteq> None" "flight_ok f' (wf_flight f')"
  shows "file_ok f'"
  using assms by (auto simp: file_ok_def bytes_ok_def held_ok_def item_ok_def)

lemma file_ok_bytes: "file_ok f \<Longrightarrow> wf_uploadedBytes f \<le> wf_completedBytes f \<and> wf_completedBytes f \<le> wf_size f"
  by (simp add: file_ok_def bytes_ok_def)

lemma file_ok_whole_load:
  assumes "file_ok (fst p)" "wf_flight (fst p) \<noteq> None"
  shows "file_ok (fst (whole_load env t xhr p))"
  by (rule file_ok_refly [OF assms])
    (use file_ok_bytes [OF assms(1)] assms in
      \<open>auto simp: whole_load_def Let_def fst_ops whole_result_def recordRequestTiming_def split: response_text.split\<close>)

lemma file_ok_whole_fail:
  assumes "file_ok (fst p)" "wf_flight (fst p) \<noteq> None"
  shows "file_ok (fst (whole_fail msg t now timing p))"
  using assms by (simp add: whole_fail_def file_ok_flight)

lemma next_chunk_ok:
  assumes "chunk_ok f c" "ck_index c \<noteq> ck_totalChunks c - 1" "wf_size f' = wf_size f"
    and "wf_accepted f' = wf_accepted f @ [(chunk_start c, chunk_end f c)]"
    and "uploaded = ck_uploadedBytes c + chunk_bytes_size f c"
  shows "flight_ok f' (Some (next_chunk env c uploaded))"
proof -
  note e = chunk_ok_end [OF assms(1)]
  have "covers 0 (wf_accepted f') (chunk_end f c)"
    using assms e(1) by (auto simp: chunk_ok_def intro: covers_snoc)
  then show ?thesis
    using assms e(1) e(2) [OF assms(2)]
    by (auto simp: next_chunk_def chunk_ok_def chunk_start_def chunk_bytes_size_def)
qed

lemma file_ok_chunk_accepted:
  assumes f: "file_ok (fst p)" "wf_flight (fst p) \<noteq> None" and c: "chunk_ok (fst p) c"
  shows "file_ok (fst (chunk_accepted env c body p))"
proof (cases "ck_index c = ck_totalChunks c - 1")
  case False
  show ?thesis
    by (rule file_ok_refly [OF f])
      (use file_ok_bytes [OF f(1)] f False in
        \<open>auto simp: chunk_accepted_def Let_def fst_ops intro!: next_chunk_ok [OF c]\<close>)
next
  case True
  have "covers 0 (wf_accepted (fst p) @ [(chunk_start c, chunk_end (fst p) c)]) (wf_size (fst p))"
    using c chunk_ok_end [OF c] True by (auto simp: chunk_ok_def intro: covers_snoc)
  then show ?thesis
    by (intro file_ok_refly [OF f])
      (use file_ok_bytes [OF f(1)] f True in
        \<open>auto simp: chunk_accepted_def Let_def fst_ops split: option.split\<close>)
qed

lemma begin_flight_ok:
  assumes "wf_accepted f = []" "0 < wm_chunkSizeBytes m"
  shows "flight_ok (begin_flight env i m f) (wf_flight (begin_flight env i m f))"
proof -
  have cs: "0 < web_chunkSize env m"
    using assms by (simp add: web_chunkSize_def WebNativeChunkBytes_def)
  have "0 < web_totalChunks (wf_size f) (web_chunkSize env m)" if "shouldUseChunkedUpload f m"
    using that less_totalChunks [OF cs, of 0] by (simp add: shouldUseChunkedUpload_def)
  then show ?thesis
    using assms cs by (simp add: begin_flight_def uploadChunked_start_def Let_def chunk_ok_def chunk_start_def)
qed

lemma file_ok_start:
  assumes "file_ok (fst p)" "\<not> wf_done (fst p)" "wf_running (fst p)" "wf_thisRun (fst p)" "0 < wm_chunkSizeBytes (snd p)"
  shows "file_ok (fst (uploadSingle_start env i p))"
proof -
  have "wm_chunkSizeBytes (snd (updateFileSpeed v q)) = wm_chunkSizeBytes (snd q)" for v q
    by (cases q) (simp add: account_simps Let_def)
  then show ?thesis
    using assms
    by (simp add: uploadSingle_start_def clearFileSpeed_def Let_def file_ok_def bytes_ok_def held_ok_def item_ok_def
        begin_flight_ok ui_defs fst_ops)
qed

lemma file_ok_settle:
  assumes "file_ok (fst p)" "wf_flight (fst p) = Some (Settled result)"
  shows "file_ok (fst (uploadSingle_settle env result p))"
proof (cases result)
  case (Inl e)
  then show ?thesis
    using assms
    by (simp add: uploadSingle_settle_def single_failed_def clearFileSpeed_def Let_def file_ok_def bytes_ok_def held_ok_def
        item_ok_def ui_defs fst_ops)
next
  case (Inr v)
  then show ?thesis
    using assms
    by (simp add: uploadSingle_settle_def single_succeeded_def clearFileSpeed_def Let_def file_ok_def bytes_ok_def held_ok_def
        item_ok_def fst_ops)
qed

lemma file_ok_skip:
  assumes "file_ok (fst p)" "wf_flight (fst p) = None"
  shows "file_ok (fst (web_skip_file env result p))"
  using assms
  by (cases p) (simp add: web_skip_file_def account_simps Let_def file_ok_def bytes_ok_def held_ok_def item_ok_def ui_defs)

end
