(* ===== verification/WebRun.thy ===== *)
theory WebRun
  imports WebInvariant
begin

text \<open>
  The run of the browser client: where \<open>uploadFiles\<close> waits, which files are done, held by a
  worker or pending, and how many workers there are. The invariant of the run reads only
  this view of the manager; together with the accounts it holds after every sequence of events.
\<close>

subsection \<open>The view of a run\<close>

definition held :: "file_meta \<Rightarrow> bool" where
  "held f \<longleftrightarrow> wf_flight f \<noteq> None"

definition fstate :: "file_meta \<Rightarrow> bool \<times> bool \<times> bool \<times> bool" where
  "fstate f = (wf_done f, held f, wf_running f, wf_thisRun f)"

definition queue_view :: "web_manager \<Rightarrow> (bool \<times> bool \<times> bool \<times> bool) list" where
  "queue_view m = map fstate (wm_fileQueue m)"

definition held_files :: "web_manager \<Rightarrow> nat" where
  "held_files m = length (filter (\<lambda>f. held f) (wm_fileQueue m))"

text \<open>The loop of the workers, of which \<open>n\<close> have been started.\<close>

definition workers_ok :: "nat \<Rightarrow> web_manager \<Rightarrow> bool" where
  "workers_ok n m \<longleftrightarrow>
     wm_workers m \<le> n \<and> wm_nextUploadIndex m \<le> length (wm_fileQueue m) \<and>
     (wm_workers m < n \<longrightarrow> wm_nextUploadIndex m = length (wm_fileQueue m)) \<and>
     list_all (\<lambda>f. wf_done f \<or> held f) (take (wm_nextUploadIndex m) (wm_fileQueue m)) \<and>
     wm_pendingCount m = pending_files (wm_fileQueue m)"

definition held_ok_run :: "web_manager \<Rightarrow> bool" where
  "held_ok_run m \<longleftrightarrow>
     wm_running m = wm_workers m \<and> wm_workers m = held_files m \<and>
     list_all (\<lambda>f. wf_running f = (held f)) (wm_fileQueue m) \<and>
     0 < wm_CONCURRENCY m \<and> 0 < wm_chunkSizeBytes m"

definition run_inv :: "web_manager \<Rightarrow> bool" where
  "run_inv m \<longleftrightarrow> held_ok_run m \<and>
     (wm_wait m = Not_running \<longleftrightarrow> \<not> wm_isUploadInProgress m) \<and>
     (wm_wait m = Not_running \<or> wm_wait m = Await_config \<or> wm_configSettled m) \<and>
     (wm_wait m \<noteq> Await_workers \<longrightarrow> wm_workers m = 0) \<and>
     (wm_wait m = Await_workers \<longrightarrow> workers_ok (wm_CONCURRENCY m) m) \<and>
     (wm_wait m = Await_preflight \<or> wm_wait m = Await_workers \<longrightarrow>
        list_all (\<lambda>f. wf_done f \<or> wf_thisRun f) (wm_fileQueue m)) \<and>
     (wm_wait m = Await_cleanup \<or> wm_wait m = Await_history \<longrightarrow> list_all wf_done (wm_fileQueue m))"

text \<open>Everything the invariant reads.\<close>

definition same_run :: "web_manager \<Rightarrow> web_manager \<Rightarrow> bool" where
  "same_run m m' \<longleftrightarrow>
     queue_view m' = queue_view m \<and> wm_nextUploadIndex m' = wm_nextUploadIndex m \<and>
     wm_running m' = wm_running m \<and> wm_workers m' = wm_workers m \<and> wm_wait m' = wm_wait m \<and>
     wm_CONCURRENCY m' = wm_CONCURRENCY m \<and> wm_chunkSizeBytes m' = wm_chunkSizeBytes m \<and>
     wm_isUploadInProgress m' = wm_isUploadInProgress m \<and> wm_pendingCount m' = wm_pendingCount m \<and>
     wm_configSettled m' = wm_configSettled m"

lemma same_run_refl [simp]: "same_run m m"
  by (simp add: same_run_def)

lemma same_run_trans: "same_run m m' \<Longrightarrow> same_run m' m'' \<Longrightarrow> same_run m m''"
  by (simp add: same_run_def)

text \<open>Predicates of the queue as predicates of its view.\<close>

lemma view_list_all:
  assumes "queue_view m' = queue_view m" and "\<And>f f'. fstate f = fstate f' \<Longrightarrow> P f = P f'"
  shows "list_all P (wm_fileQueue m') = list_all P (wm_fileQueue m)"
    "list_all P (take k (wm_fileQueue m')) = list_all P (take k (wm_fileQueue m))"
    "length (filter P (wm_fileQueue m')) = length (filter P (wm_fileQueue m))"
    "length (wm_fileQueue m') = length (wm_fileQueue m)"
proof -
  have *: "list_all P xs = list_all P ys \<and> list_all P (take k xs) = list_all P (take k ys) \<and>
      length (filter P xs) = length (filter P ys) \<and> length xs = length ys"
    if "map fstate xs = map fstate ys" for xs ys
    using that
  proof (induction xs arbitrary: ys k)
    case Nil
    then show ?case by simp
  next
    case (Cons x xs)
    then obtain y ys' where ys: "ys = y # ys'" and xy: "fstate x = fstate y" and map: "map fstate xs = map fstate ys'"
      by (cases ys) auto
    show ?case
      using Cons.IH [OF map, of "k - 1"] assms(2) [OF xy] by (cases k) (simp_all add: ys)
  qed
  show "list_all P (wm_fileQueue m') = list_all P (wm_fileQueue m)"
    "list_all P (take k (wm_fileQueue m')) = list_all P (take k (wm_fileQueue m))"
    "length (filter P (wm_fileQueue m')) = length (filter P (wm_fileQueue m))"
    "length (wm_fileQueue m') = length (wm_fileQueue m)"
    using * [of "wm_fileQueue m'" "wm_fileQueue m"] assms(1) by (simp_all add: queue_view_def)
qed

lemma same_run_facts:
  assumes "same_run m m'"
  shows "held_ok_run m' = held_ok_run m" "workers_ok n m' = workers_ok n m" "run_inv m' = run_inv m"
proof -
  have v: "queue_view m' = queue_view m" using assms by (simp add: same_run_def)
  have cong: "(wf_done f \<longleftrightarrow> wf_done f') \<and> (held f \<longleftrightarrow> held f') \<and> (wf_running f \<longleftrightarrow> wf_running f') \<and> (wf_thisRun f \<longleftrightarrow> wf_thisRun f')"
    if "fstate f = fstate f'" for f f'
    using that by (simp add: fstate_def)
  have [simp]: "length (wm_fileQueue m') = length (wm_fileQueue m)"
    using v by (metis length_map queue_view_def)
  have [simp]: "list_all (\<lambda>f. wf_running f = held f) (wm_fileQueue m') = list_all (\<lambda>f. wf_running f = held f) (wm_fileQueue m)"
    "list_all (\<lambda>f. wf_done f \<or> wf_thisRun f) (wm_fileQueue m') = list_all (\<lambda>f. wf_done f \<or> wf_thisRun f) (wm_fileQueue m)"
    "list_all wf_done (wm_fileQueue m') = list_all wf_done (wm_fileQueue m)"
    "list_all (\<lambda>f. wf_done f \<or> held f) (take k (wm_fileQueue m')) = list_all (\<lambda>f. wf_done f \<or> held f) (take k (wm_fileQueue m))"
    "held_files m' = held_files m" "pending_files (wm_fileQueue m') = pending_files (wm_fileQueue m)" for k
    unfolding held_files_def pending_files_def by - (rule view_list_all [OF v]; use cong in blast)+
  show h: "held_ok_run m' = held_ok_run m" using assms by (simp add: held_ok_run_def same_run_def)
  show w: "workers_ok n m' = workers_ok n m" for n using assms by (simp add: workers_ok_def same_run_def)
  show "run_inv m' = run_inv m" using assms by (simp add: run_inv_def h w same_run_def)
qed

subsection \<open>Operations that leave the run alone\<close>

definition web_inv :: "web_manager \<Rightarrow> bool" where
  "web_inv m \<longleftrightarrow> accounts_ok m \<and> run_inv m"

definition same_scalars :: "web_manager \<Rightarrow> web_manager \<Rightarrow> bool" where
  "same_scalars m m' \<longleftrightarrow>
     wm_fileQueue m' = wm_fileQueue m \<and> wm_nextUploadIndex m' = wm_nextUploadIndex m \<and>
     wm_running m' = wm_running m \<and> wm_workers m' = wm_workers m \<and> wm_wait m' = wm_wait m \<and>
     wm_CONCURRENCY m' = wm_CONCURRENCY m \<and> wm_chunkSizeBytes m' = wm_chunkSizeBytes m \<and>
     wm_isUploadInProgress m' = wm_isUploadInProgress m \<and> wm_pendingCount m' = wm_pendingCount m \<and>
     wm_configSettled m' = wm_configSettled m"

definition quiet :: "web_manager \<Rightarrow> web_manager \<Rightarrow> bool" where
  "quiet m m' \<longleftrightarrow> same_accounts m m' \<and> same_scalars m m'"

lemma quiet_refl [simp]: "quiet m m"
  by (simp add: quiet_def same_accounts_def same_scalars_def)

lemma quiet_trans [trans]: "quiet m m' \<Longrightarrow> quiet m' m'' \<Longrightarrow> quiet m m''"
  by (simp add: quiet_def same_accounts_def same_scalars_def)

lemma quiet_same_run: "quiet m m' \<Longrightarrow> same_run m m'"
  by (simp add: quiet_def same_scalars_def same_run_def queue_view_def)

lemma quiet_inv: "web_inv m \<Longrightarrow> quiet m m' \<Longrightarrow> web_inv m'"
  using accounts_same same_run_facts(3) [OF quiet_same_run] by (auto simp: web_inv_def quiet_def)

lemmas quiet_defs = quiet_def same_accounts_def same_scalars_def

lemma quiet_page: "quiet m (updateStatsUI m)" "quiet m (refreshOverallProgress m)" "quiet m (show_modal d m)"
  "quiet m (setUploadUiState b m)" "quiet m (web_log e m)" "quiet m (reportSpeedSample v b now m)"
  by (simp_all add: quiet_defs updateStatsUI_def refreshOverallProgress_def show_modal_def setUploadUiState_def
      web_log_def reportSpeedSample_def)

lemma quiet_refresh: "quiet m (refresh_speed now m)"
  by (simp add: quiet_defs refresh_speed_def getCurrentSpeedForDisplay_def Let_def)

lemmas quiet_steps = quiet_refl quiet_page [THEN [2] quiet_trans] quiet_refresh [THEN [2] quiet_trans]

lemma quiet_ticks: "quiet m (speed_tick now m)" "quiet m (stall_tick now m)"
proof -
  have peak: "quiet m m' \<Longrightarrow> quiet m (m'\<lparr>wm_peakSpeed := v\<rparr>)" for m' v by (simp add: quiet_defs)
  show "quiet m (speed_tick now m)"
    unfolding speed_tick_def Let_def by (cases "wm_speedInterval m") (simp_all add: quiet_steps peak)
  show "quiet m (stall_tick now m)"
    by (simp add: stall_tick_def quiet_defs web_log_def)
qed

text \<open>Operations on a file that leave its state and the scalars of the run alone.\<close>

definition calm :: "file_meta \<times> web_manager \<Rightarrow> file_meta \<times> web_manager \<Rightarrow> bool" where
  "calm p q \<longleftrightarrow> fstate (fst q) = fstate (fst p) \<and> same_scalars (snd p) (snd q)"

lemma calm_trans: "calm p q \<Longrightarrow> calm q r \<Longrightarrow> calm p r"
  by (simp add: calm_def same_scalars_def)

lemma calm_refl: "calm p p"
  by (simp add: calm_def same_scalars_def)

lemma calm_step_file: "calm p q \<Longrightarrow> fstate (g (fst q)) = fstate (fst q) \<Longrightarrow> calm p (apfst g q)"
  by (simp add: calm_def)

lemma calm_step_manager: "calm p q \<Longrightarrow> same_scalars (snd q) (h (snd q)) \<Longrightarrow> calm p (apsnd h q)"
  by (simp add: calm_def same_scalars_def)

lemma calm_step_speed: "calm p q \<Longrightarrow> calm p (updateFileSpeed v q)"
  by (cases q) (simp add: calm_def same_scalars_def account_simps Let_def fstate_def held_def)

lemma calm_step_progress: "calm p q \<Longrightarrow> calm p (updateFileTransferProgress n q)"
  by (cases q) (simp add: calm_def same_scalars_def account_simps Let_def fstate_def held_def)

lemma calm_if: "calm p q \<Longrightarrow> calm p q' \<Longrightarrow> calm p (if b then q else q')"
  by simp

lemmas calm_steps = calm_refl calm_step_file calm_step_manager calm_step_speed calm_step_progress calm_if

lemma fstate_fields [simp]:
  "fstate (f\<lparr>wf_lastLoaded := a\<rparr>) = fstate f" "fstate (f\<lparr>wf_lastTime := b\<rparr>) = fstate f"
  "fstate (f\<lparr>wf_ui := c\<rparr>) = fstate f" "fstate (f\<lparr>wf_lastUIUpdate := d\<rparr>) = fstate f"
  "fstate (f\<lparr>wf_transferTiming := e\<rparr>) = fstate f" "fstate (f\<lparr>wf_accepted := g\<rparr>) = fstate f"
  "fstate (show_percent i j k f) = fstate f" "fstate (markFileQueued t f) = fstate f"
  "fstate (recordRequestTiming u v w f) = fstate f"
  by (simp_all add: fstate_def held_def ui_defs Let_def recordRequestTiming_def)

lemma fstate_flight: "wf_flight f \<noteq> None \<Longrightarrow> fstate (f\<lparr>wf_flight := Some fl\<rparr>) = fstate f"
  by (simp add: fstate_def held_def)

lemma calm_operations:
  "calm p (whole_progress loaded totalBytes now p)" "calm p (chunk_speed c loaded now p)"
  "calm p (chunk_bytes c loaded now p)" "calm p (apfst (recordRequestTiming t now server) p)"
  unfolding whole_progress_def chunk_speed_def chunk_bytes_def Let_def
  by (intro calm_steps; simp add: same_scalars_def)+

lemma calm_flights:
  assumes "wf_flight (fst p) \<noteq> None"
  shows "calm p (apfst (\<lambda>f. f\<lparr>wf_flight := Some fl\<rparr>) p)" "calm p (whole_load env t xhr p)"
    "calm p (whole_fail msg t now timing p)" "calm p (chunk_accepted env c body p)"
proof -
  show "calm p (apfst (\<lambda>f. f\<lparr>wf_flight := Some fl\<rparr>) p)"
    using assms by (intro calm_steps) (simp add: fstate_flight)
  show "calm p (whole_load env t xhr p)"
    unfolding whole_load_def Let_def
    using assms by (intro calm_steps) (simp_all add: fstate_flight same_scalars_def)
  show "calm p (whole_fail msg t now timing p)"
    unfolding whole_fail_def
    using assms by (intro calm_steps) (simp_all add: fstate_flight)
  show "calm p (chunk_accepted env c body p)"
    unfolding chunk_accepted_def Let_def
    using assms by (cases "confirmed_result body")
      (simp_all only: option.case, (intro calm_steps; simp add: fstate_flight same_scalars_def)+)
qed

text \<open>A calm, balanced operation on a file keeps the invariant.\<close>

lemma calm_at_file:
  assumes inv: "web_inv m" and i: "i < length (wm_fileQueue m)"
    and calm: "calm (wm_fileQueue m ! i, m) (operation (wm_fileQueue m ! i, m))"
    and bal: "balanced (wm_fileQueue m ! i, m) (operation (wm_fileQueue m ! i, m))"
    and ok: "file_ok (fst (operation (wm_fileQueue m ! i, m)))"
  shows "web_inv (at_file i operation m)"
    and "wm_fileQueue (at_file i operation m) ! i = fst (operation (wm_fileQueue m ! i, m))"
    and "length (wm_fileQueue (at_file i operation m)) = length (wm_fileQueue m)"
proof -
  obtain f' m' where op: "operation (wm_fileQueue m ! i, m) = (f', m')" by fastforce
  have "map fstate ((wm_fileQueue m)[i := f']) = map fstate (wm_fileQueue m)"
    using calm i by (intro sum_list_update_same) (simp_all add: op calm_def)
  then have "same_run m (at_file i operation m)"
    using calm by (simp add: same_run_def queue_view_def at_file_def op calm_def same_scalars_def)
  then show "web_inv (at_file i operation m)"
    using inv accounts_at_file [where operation = operation, OF _ i bal ok] by (simp add: web_inv_def same_run_facts)
  show "wm_fileQueue (at_file i operation m) ! i = fst (operation (wm_fileQueue m ! i, m))"
    "length (wm_fileQueue (at_file i operation m)) = length (wm_fileQueue m)"
    using calm i by (simp_all add: at_file_def op calm_def same_scalars_def)
qed

subsection \<open>Events of requests\<close>

lemma calm_pair [simp]: "calm (f, m) (f', m) \<longleftrightarrow> fstate f' = fstate f"
  by (simp add: calm_def same_scalars_def)

lemma balanced_pairs:
  "balanced (f, m) (recordRequestTiming t now server f, m)"
  "wf_flight f \<noteq> None \<Longrightarrow> balanced (f, m) (f\<lparr>wf_flight := Some fl\<rparr>, m)"
  using balanced_timing [of "(f, m)"] balanced_set_flight [of "(f, m)"] by simp_all

lemma inv_flight:
  assumes "web_inv m" "flight_of i m = Some fl"
  shows "i < length (wm_fileQueue m)" "wf_flight (wm_fileQueue m ! i) = Some fl" "file_ok (wm_fileQueue m ! i)"
    "flight_ok (wm_fileQueue m ! i) (Some fl)" "wf_thisRun (wm_fileQueue m ! i)" "\<not> wf_done (wm_fileQueue m ! i)"
    "\<not> wf_failed (wm_fileQueue m ! i)" "wf_running (wm_fileQueue m ! i)"
proof -
  show i: "i < length (wm_fileQueue m)" and fl: "wf_flight (wm_fileQueue m ! i) = Some fl"
    using assms(2) by (simp_all add: flight_of_def split: if_splits)
  show ok: "file_ok (wm_fileQueue m ! i)"
    using assms(1) i by (simp add: web_inv_def accounts_ok_def list_all_length)
  show "flight_ok (wm_fileQueue m ! i) (Some fl)" "wf_thisRun (wm_fileQueue m ! i)" "\<not> wf_done (wm_fileQueue m ! i)"
    "\<not> wf_failed (wm_fileQueue m ! i)" "wf_running (wm_fileQueue m ! i)"
    using ok fl by (auto simp: file_ok_def held_ok_def)
qed

text \<open>One calm operation on a file in flight.\<close>

lemma inv_at_flight:
  assumes inv: "web_inv m" and fl: "flight_of i m = Some fl"
    and calm: "calm (wm_fileQueue m ! i, m) (operation (wm_fileQueue m ! i, m))"
    and bal: "balanced (wm_fileQueue m ! i, m) (operation (wm_fileQueue m ! i, m))"
    and ok: "file_ok (fst (operation (wm_fileQueue m ! i, m)))"
  shows "web_inv (at_file i operation m)"
    and "flight_of i (at_file i operation m) = wf_flight (fst (operation (wm_fileQueue m ! i, m)))"
  using calm_at_file [where operation = operation, OF inv inv_flight(1) [OF inv fl] calm bal ok] inv_flight(1) [OF inv fl]
  by (simp_all add: flight_of_def)

lemma operation_flights [simp]:
  "wf_flight (fst (chunk_speed c loaded now p)) = wf_flight (fst p)"
  "wf_flight (fst (chunk_bytes c loaded now p)) = wf_flight (fst p)"
  by (simp_all add: chunk_speed_def chunk_bytes_def Let_def ui_defs)

lemma quiet_flight: "quiet m m' \<Longrightarrow> flight_of i m' = flight_of i m"
  by (simp add: flight_of_def quiet_defs)

lemma inv_set_flight:
  assumes inv: "web_inv m" and fl: "flight_of i m = Some fl" and ok: "flight_ok (wm_fileQueue m ! i) (Some fl')"
  shows "web_inv (set_flight i (Some fl') m)"
proof -
  note f = inv_flight [OF inv fl]
  show ?thesis
    unfolding set_flight_def
    by (rule inv_at_flight(1) [OF inv fl]) (use f ok in \<open>simp_all add: fstate_flight balanced_pairs file_ok_flight\<close>)
qed

lemma inv_chunk_progress:
  assumes inv: "web_inv m" and fl: "flight_of i m = Some (Chunk_request c t)"
  shows "web_inv (chunk_progress i c loaded totalBytes now m) \<and>
    flight_of i (chunk_progress i c loaded totalBytes now m) = Some (Chunk_request c t)"
proof -
  note f = inv_flight [OF inv fl]
  let ?m1 = "at_file i (chunk_speed c loaded now) m"
  have inv1: "web_inv ?m1" and fl1: "flight_of i ?m1 = Some (Chunk_request c t)"
    using inv_at_flight [OF inv fl, of "chunk_speed c loaded now"] f
    by (simp_all add: calm_operations balanced_chunk_speed file_ok_chunk_speed)
  note f1 = inv_flight [OF inv1 fl1]
  let ?m2 = "at_file i (chunk_bytes c loaded now) ?m1"
  have "web_inv ?m2" and "flight_of i ?m2 = Some (Chunk_request c t)"
    using inv_at_flight [OF inv1 fl1, of "chunk_bytes c loaded now"] f1
    by (simp_all add: calm_operations balanced_chunk_bytes file_ok_chunk_bytes)
  then show ?thesis
    using inv1 fl1 quiet_inv [OF _ quiet_refresh] quiet_flight [OF quiet_refresh]
    by (simp add: chunk_progress_def Let_def)
qed

lemma inv_chunk_failed:
  assumes inv: "web_inv m" and fl: "flight_of i m = Some (Chunk_request c t)"
  shows "web_inv (chunk_failed error i c m)"
proof (cases "WEB_CHUNK_RETRIES \<le> ck_attempt c \<or> \<not> isRetryableUploadError error")
  case True
  then show ?thesis using inv_set_flight [OF inv fl] by (simp add: chunk_failed_def)
next
  case False
  let ?m = "web_log ''chunk_retry'' (m\<lparr>wm_retryCount := wm_retryCount m + 1\<rparr>)"
  have q: "quiet m ?m" by (simp add: quiet_defs web_log_def)
  then have "wm_fileQueue ?m = wm_fileQueue m" by (simp add: quiet_defs)
  then show ?thesis
    using inv_set_flight [OF quiet_inv [OF inv q], of i] quiet_flight [OF q] inv_flight(4) [OF inv fl] fl False
    by (simp add: chunk_failed_def chunk_ok_def chunk_start_def)
qed

lemma inv_timing:
  assumes inv: "web_inv m" and fl: "flight_of i m = Some fl"
  shows "web_inv (at_file i (apfst (recordRequestTiming t now server)) m) \<and>
    flight_of i (at_file i (apfst (recordRequestTiming t now server)) m) = Some fl"
  using inv_at_flight [OF inv fl, of "apfst (recordRequestTiming t now server)"] inv_flight [OF inv fl]
  by (simp add: balanced_pairs)

lemma inv_chunk_accepted:
  assumes inv: "web_inv m" and fl: "flight_of i m = Some (Chunk_request c t)"
  shows "web_inv (at_file i (chunk_accepted env c body) m)"
  by (rule inv_at_flight(1) [OF inv fl])
    (use inv_flight [OF inv fl] in \<open>simp_all add: calm_flights balanced_chunk_accepted file_ok_chunk_accepted\<close>)

lemma inv_chunk_load:
  assumes inv: "web_inv m" and fl: "flight_of i m = Some (Chunk_request c t)"
  shows "web_inv (chunk_load env i c t xhr m)"
proof -
  let ?m1 = "at_file i (apfst (recordRequestTiming t (we_now env) (xa_timing xhr))) m"
  have i1: "web_inv ?m1" and f1: "flight_of i ?m1 = Some (Chunk_request c t)" using inv_timing [OF inv fl] by auto
  show ?thesis
    using inv_chunk_failed [OF i1 f1] inv_chunk_accepted [OF i1 f1] inv_chunk_progress [OF i1 f1] inv_chunk_accepted
    by (simp add: chunk_load_def Let_def)
qed

lemma inv_request_event:
  assumes inv: "web_inv m"
  shows "web_inv (web_step (env, Ev_progress i loaded totalBytes) m)" "web_inv (web_step (env, Ev_load i xhr) m)"
    "web_inv (web_step (env, Ev_fail i failure timing) m)" "web_inv (web_step (env, Ev_retry i) m)"
proof -
  have whole: "web_inv (at_file i (whole_progress loaded totalBytes now) m)" "web_inv (at_file i (whole_load env t xhr) m)"
    "web_inv (at_file i (whole_fail msg t now timing) m)" if "flight_of i m = Some fl" for fl now msg t
    by (rule inv_at_flight(1) [OF inv that], use inv_flight [OF inv that] in
        \<open>simp_all add: calm_operations calm_flights balanced_whole_progress balanced_whole_load balanced_whole_fail
           file_ok_whole_progress file_ok_whole_load file_ok_whole_fail\<close>)+
  have last: "web_inv (set_lastLoaded i c t loaded (chunk_progress i c loaded totalBytes now m))"
    if fl: "flight_of i m = Some (Chunk_request c t)" for c t now
  proof -
    have p: "web_inv (chunk_progress i c loaded totalBytes now m)"
      "flight_of i (chunk_progress i c loaded totalBytes now m) = Some (Chunk_request c t)"
      using inv_chunk_progress [OF inv fl] by auto
    show ?thesis
      using inv_set_flight [OF p] inv_flight(4) [OF p] by (simp add: set_lastLoaded_def chunk_ok_def chunk_start_def)
  qed
  have retry: "web_inv (set_flight i (Some (Chunk_request c t)) m)" if fl: "flight_of i m = Some (Chunk_backoff c)" for c t
    using inv_set_flight [OF inv fl] inv_flight(4) [OF inv fl] by simp
  show "web_inv (web_step (env, Ev_progress i loaded totalBytes) m)"
    using inv whole last by (auto split: option.split flight.split)
  show "web_inv (web_step (env, Ev_load i xhr) m)"
    using inv whole inv_chunk_load by (auto split: option.split flight.split)
  show "web_inv (web_step (env, Ev_fail i failure timing) m)"
    using inv whole inv_timing [OF inv] inv_chunk_failed by (auto simp: chunk_fail_def split: option.split flight.split)
  show "web_inv (web_step (env, Ev_retry i) m)"
    using inv retry by (auto split: option.split flight.split)
qed

subsection \<open>Workers\<close>

lemma length_filter_update:
  "i < length xs \<Longrightarrow> length (filter P (xs[i := x])) + of_bool (P (xs ! i)) = length (filter P xs) + of_bool (P x)"
proof -
  have count: "length (filter P ys) = sum_list (map (\<lambda>y. of_bool (P y)) ys)" for ys
    by (induction ys) simp_all
  show "i < length xs \<Longrightarrow> ?thesis"
    using sum_list_update_balance [of i xs "\<lambda>y. of_bool (P y)" x] by (simp add: count)
qed

lemma list_all_update: "list_all P xs \<Longrightarrow> P x \<Longrightarrow> list_all P (xs[i := x])"
  by (auto simp: list_all_iff dest: set_update_subset_insert [THEN subsetD])

text \<open>What starting and settling do to the state of the file and to the run.\<close>

lemma start_run:
  "fstate (fst (uploadSingle_start env i p)) = (wf_done (fst p), True, wf_running (fst p), wf_thisRun (fst p))"
  "same_scalars (snd p) (snd (uploadSingle_start env i p))"
proof -
  show "fstate (fst (uploadSingle_start env i p)) = (wf_done (fst p), True, wf_running (fst p), wf_thisRun (fst p))"
    using begin_flight_Some by (simp add: fstate_def held_def uploadSingle_start_def clearFileSpeed_def Let_def ui_defs)
  show "same_scalars (snd p) (snd (uploadSingle_start env i p))"
    by (cases p) (simp add: same_scalars_def uploadSingle_start_def clearFileSpeed_def account_simps Let_def)
qed

lemma settle_run:
  "fstate (fst (uploadSingle_settle env result p)) = (True, False, False, wf_thisRun (fst p))"
  "same_scalars (snd p) (snd (uploadSingle_settle env result p))"
proof -
  show "fstate (fst (uploadSingle_settle env result p)) = (True, False, False, wf_thisRun (fst p))"
    by (cases result) (simp_all add: fstate_def held_def uploadSingle_settle_def single_succeeded_def single_failed_def
        clearFileSpeed_def Let_def ui_defs)
  show "same_scalars (snd p) (snd (uploadSingle_settle env result p))"
    by (cases result; cases p) (simp_all add: same_scalars_def uploadSingle_settle_def single_succeeded_def single_failed_def
        clearFileSpeed_def account_simps web_log_def Let_def)
qed

definition loop_inv :: "nat \<Rightarrow> web_manager \<Rightarrow> bool" where
  "loop_inv n m \<longleftrightarrow> accounts_ok m \<and> held_ok_run m \<and> workers_ok n m \<and>
     list_all (\<lambda>f. wf_done f \<or> wf_thisRun f) (wm_fileQueue m)"

lemma take_Suc_all: "i < length xs \<Longrightarrow> list_all P (take (Suc i) xs) \<longleftrightarrow> list_all P (take i xs) \<and> P (xs ! i)"
  by (simp add: take_Suc_conv_app_nth)

text \<open>A free file at the next index is taken.\<close>

lemma claim_inv:
  assumes inv: "loop_inv n m" and i: "i = wm_nextUploadIndex m" "i < length (wm_fileQueue m)"
    and free: "\<not> wf_running (wm_fileQueue m ! i)" "\<not> wf_done (wm_fileQueue m ! i)"
    and m1: "m1 = m\<lparr>wm_nextUploadIndex := i + 1, wm_running := wm_running m + 1, wm_workers := wm_workers m + 1\<rparr>"
  shows "loop_inv (Suc n) (at_file i (uploadSingle_start env i) (at_file i (apfst (\<lambda>f. f\<lparr>wf_running := True\<rparr>)) m1))"
    (is "loop_inv _ ?r")
proof -
  let ?f = "wm_fileQueue m ! i" and ?g = "(wm_fileQueue m ! i)\<lparr>wf_running := True\<rparr>"
  define m2 where "m2 = at_file i (apfst (\<lambda>f. f\<lparr>wf_running := True\<rparr>)) m1"
  have run: "wf_running ?f = held ?f" and ok: "file_ok ?f" and mine: "wf_thisRun ?f" and cs: "0 < wm_chunkSizeBytes m"
    using inv i free by (auto simp: loop_inv_def held_ok_run_def accounts_ok_def list_all_length)
  have none: "wf_flight ?f = None" using run free by (simp add: held_def)
  have zero: "wf_uploadedBytes ?f = 0" "wf_completedBytes ?f = 0"
    using ok none free by (auto simp: file_ok_def bytes_ok_def)
  have gok: "file_ok ?g" using ok none free by (simp add: file_ok_def bytes_ok_def held_ok_def item_ok_def)
  have q1: "wm_fileQueue m1 = wm_fileQueue m" by (simp add: m1)
  have m2: "m2 = m1\<lparr>wm_fileQueue := (wm_fileQueue m)[i := ?g]\<rparr>" by (simp add: m2_def at_file_def q1)
  have c2: "0 < wm_chunkSizeBytes m2" using cs by (simp add: m2 m1)
  have q2: "wm_fileQueue m2 ! i = ?g" "length (wm_fileQueue m2) = length (wm_fileQueue m)" using i by (simp_all add: m2)
  have "accounts_ok m1" using inv by (simp add: loop_inv_def accounts_ok_def m1)
  then have a2: "accounts_ok m2"
    unfolding m2_def using i gok by (intro accounts_at_file) (simp_all add: q1 balanced_def weight_defs)
  obtain f' m' where op: "uploadSingle_start env i (?g, m2) = (f', m')" by fastforce
  have st: "fstate f' = (False, True, True, True)" and sc: "same_scalars m2 m'"
    using start_run [where p = "(?g, m2)" and env = env and i = i] free mine by (simp_all add: op)
  have bal: "balanced (?g, m2) (f', m')" and fok: "file_ok f'"
    using balanced_start [where p = "(?g, m2)" and env = env and i = i] file_ok_start [where p = "(?g, m2)" and env = env and i = i] gok free none zero mine c2
    by (simp_all add: op)
  define m3 where "m3 = at_file i (uploadSingle_start env i) m2"
  have a3: "accounts_ok m3"
    unfolding m3_def using i(2) by (intro accounts_at_file [OF a2]) (simp_all add: q2 op bal fok)
  have m3: "m3 = m'\<lparr>wm_fileQueue := (wm_fileQueue m')[i := f']\<rparr>" by (simp add: m3_def at_file_def q2 op)
  have q3: "wm_fileQueue m3 = (wm_fileQueue m)[i := f']"
    using sc by (simp add: m3 same_scalars_def m2)
  have s3: "wm_workers m3 = wm_workers m + 1" "wm_running m3 = wm_running m + 1" "wm_nextUploadIndex m3 = i + 1"
    "wm_pendingCount m3 = wm_pendingCount m" "wm_CONCURRENCY m3 = wm_CONCURRENCY m" "wm_chunkSizeBytes m3 = wm_chunkSizeBytes m"
    using sc by (simp_all add: m3 same_scalars_def m2 m1)
  have f': "\<not> wf_done f'" "held f'" "wf_running f'" "wf_thisRun f'" using st by (simp_all add: fstate_def)
  have counts: "held_files m3 = held_files m + 1" "pending_files (wm_fileQueue m3) = pending_files (wm_fileQueue m)"
    using length_filter_update [OF i(2), of held f'] length_filter_update [OF i(2), of "\<lambda>f. \<not> wf_done f" f'] f' free run
    by (simp_all add: held_files_def pending_files_def q3)
  have "wm_workers m = n" using inv i by (auto simp: loop_inv_def workers_ok_def)
  moreover have "list_all (\<lambda>f. wf_done f \<or> held f) (take (Suc i) ((wm_fileQueue m)[i := f']))"
    using inv i f' by (simp add: loop_inv_def workers_ok_def take_Suc_all)
  ultimately have "loop_inv (Suc n) m3"
    using inv a3 f' counts s3 i
    by (simp add: loop_inv_def held_ok_run_def workers_ok_def q3 list_all_update)
  then show ?thesis by (simp add: m3_def m2_def)
qed

lemma claim_next_inv:
  "loop_inv n m \<Longrightarrow> is = [wm_nextUploadIndex m..<length (wm_fileQueue m)] \<Longrightarrow> loop_inv (Suc n) (claim_next env is m)"
proof (induction "is" arbitrary: m)
  case Nil
  then have "length (wm_fileQueue m) \<le> wm_nextUploadIndex m" by (metis upt_eq_Nil_conv not_less_zero le_zero_eq linear)
  then show ?case using Nil.prems(1) by (auto simp: loop_inv_def workers_ok_def)
next
  case (Cons i rest)
  have i: "i = wm_nextUploadIndex m" "i < length (wm_fileQueue m)" and rest: "rest = [Suc i..<length (wm_fileQueue m)]"
    using sym [OF Cons.prems(2)] unfolding upt_eq_Cons_conv by auto
  let ?m1 = "m\<lparr>wm_nextUploadIndex := i + 1\<rparr>"
  show ?case
  proof (cases "wf_running (wm_fileQueue m ! i) \<or> wf_done (wm_fileQueue m ! i)")
    case True
    then have "wf_done (wm_fileQueue m ! i) \<or> held (wm_fileQueue m ! i)"
      using Cons.prems(1) i by (auto simp: loop_inv_def held_ok_run_def list_all_length)
    then have "loop_inv n ?m1"
      using Cons.prems(1) i
      by (auto simp: loop_inv_def workers_ok_def held_ok_run_def held_files_def accounts_ok_def take_Suc_all)
    then show ?thesis using Cons.IH [of ?m1] rest True by (simp add: Let_def)
  next
    case False
    then show ?thesis using claim_inv [OF Cons.prems(1) i _ _ refl, of env] by (simp add: Let_def)
  qed
qed

lemma worker_inv: "loop_inv n m \<Longrightarrow> loop_inv (Suc n) (worker env m)"
  by (simp add: worker_def claim_next_inv)

text \<open>The scalars that no worker changes.\<close>

definition same_wait :: "web_manager \<Rightarrow> web_manager \<Rightarrow> bool" where
  "same_wait m m' \<longleftrightarrow> wm_wait m' = wm_wait m \<and> wm_CONCURRENCY m' = wm_CONCURRENCY m \<and>
     wm_isUploadInProgress m' = wm_isUploadInProgress m \<and> wm_configSettled m' = wm_configSettled m \<and>
     length (wm_fileQueue m') = length (wm_fileQueue m)"

lemma same_wait_at_file:
  "same_scalars m (snd (operation (wm_fileQueue m ! i, m))) \<Longrightarrow> same_wait m (at_file i operation m)"
  by (cases "operation (wm_fileQueue m ! i, m)") (simp add: same_wait_def at_file_def same_scalars_def)

lemma same_wait_trans: "same_wait m m' \<Longrightarrow> same_wait m' m'' \<Longrightarrow> same_wait m m''"
  by (simp add: same_wait_def)

lemma worker_same_wait: "same_wait m (worker env m)"
proof -
  have "same_wait m (claim_next env is m)" for "is"
  proof (induction "is" arbitrary: m)
    case Nil
    then show ?case by (simp add: same_wait_def)
  next
    case (Cons i rest)
    have 1: "same_wait m (m\<lparr>wm_nextUploadIndex := a\<rparr>)" "same_wait m (m\<lparr>wm_nextUploadIndex := a, wm_running := b, wm_workers := c\<rparr>)" for a b c
      by (simp_all add: same_wait_def)
    have 2: "same_wait m' (at_file i (apfst g) m')" "same_wait m' (at_file i (uploadSingle_start env i) m')" for m' g
      using start_run(2) [where p = "(wm_fileQueue m' ! i, m')"]
      by (auto intro!: same_wait_at_file simp: same_scalars_def [of m' m'])
    show ?case
      using 1 2 Cons.IH by (simp add: Let_def same_wait_def)
  qed
  then show ?thesis by (simp add: worker_def)
qed

lemma workers_started: "loop_inv 0 m \<Longrightarrow> loop_inv n ((worker env ^^ n) m) \<and> same_wait m ((worker env ^^ n) m)"
proof (induction n)
  case 0
  then show ?case by (simp add: same_wait_def)
next
  case (Suc n)
  then show ?case using worker_inv worker_same_wait same_wait_trans by fastforce
qed

subsection \<open>A settled upload\<close>

lemma held_waits:
  assumes "run_inv m" "i < length (wm_fileQueue m)" "held (wm_fileQueue m ! i)"
  shows "wm_wait m = Await_workers" "0 < wm_workers m"
proof -
  have "0 < held_files m"
    using assms(2,3) by (auto simp: held_files_def filter_empty_conv intro: nth_mem)
  then show "0 < wm_workers m" "wm_wait m = Await_workers"
    using assms(1) by (auto simp: run_inv_def held_ok_run_def)
qed

lemma accounts_settle:
  assumes inv: "web_inv m" and fl: "flight_of i m = Some (Settled result)"
  shows "accounts_ok (at_file i (uploadSingle_settle env result) m)"
proof -
  note f = inv_flight [OF inv fl]
  have acc: "accounts_ok m" using inv by (simp add: web_inv_def)
  have "w_err (wm_fileQueue m ! i) \<le> wm_errorCount m"
    using acc f(1) by (simp add: accounts_ok_def elem_le_sum_list [of i "map w_err (wm_fileQueue m)", simplified])
  then have "0 < wm_errorCount m" if "wf_wasFailedBefore (wm_fileQueue m ! i)"
    using that f(2) by (simp add: w_err_def)
  then show ?thesis
    using f by (intro accounts_at_file [OF acc] balanced_settle) (simp_all add: file_ok_settle)
qed

lemma finally_eq:
  assumes "i < length (wm_fileQueue m)" "wf_done (wm_fileQueue m ! i)" "\<not> wf_running (wm_fileQueue m ! i)"
  shows "worker_finally i m = m\<lparr>wm_running := wm_running m - 1, wm_workers := wm_workers m - 1,
    wm_pendingCount := wm_pendingCount m - 1\<rparr>"
proof -
  have "(wm_fileQueue m ! i)\<lparr>wf_running := False\<rparr> = wm_fileQueue m ! i"
    using assms(3) by (cases "wm_fileQueue m ! i") simp
  then have "at_file i (apfst (\<lambda>f. f\<lparr>wf_running := False\<rparr>)) m = m"
    by (simp add: at_file_def)
  then show ?thesis using assms by (simp add: worker_finally_def Let_def)
qed

lemma inv_settle:
  assumes inv: "web_inv m" and fl: "flight_of i m = Some (Settled result)"
  shows "web_inv (worker_settle env i result m)"
proof -
  note f = inv_flight [OF inv fl]
  have run: "run_inv m" using inv by (simp add: web_inv_def)
  have held: "held (wm_fileQueue m ! i)" using f by (simp add: held_def)
  note w = held_waits [OF run f(1) held]
  obtain f' m' where op: "uploadSingle_settle env result (wm_fileQueue m ! i, m) = (f', m')" by fastforce
  have st: "fstate f' = (True, False, False, True)" and sc: "same_scalars m m'"
    using settle_run [where p = "(wm_fileQueue m ! i, m)" and env = env and result = result] f by (simp_all add: op)
  define m1 where "m1 = at_file i (uploadSingle_settle env result) m"
  have m1: "m1 = m'\<lparr>wm_fileQueue := (wm_fileQueue m)[i := f']\<rparr>"
    using sc by (simp add: m1_def at_file_def op same_scalars_def)
  define m2 where "m2 = refresh_speed (we_now env) (updateStatsUI m1)"
  have q: "quiet m1 m2" unfolding m2_def by (intro quiet_steps)
  have acc2: "accounts_ok m2"
    using accounts_settle [OF inv fl, of env] q by (auto simp: m1_def quiet_def intro: accounts_same)
  have s2: "wm_fileQueue m2 = (wm_fileQueue m)[i := f']" "same_scalars (m\<lparr>wm_fileQueue := (wm_fileQueue m)[i := f']\<rparr>) m2"
    using q sc by (simp_all add: quiet_defs m1)
  have f': "wf_done f'" "\<not> held f'" "\<not> wf_running f'" "wf_thisRun f'" using st by (simp_all add: fstate_def)
  define m3 where "m3 = worker_finally i m2"
  have m3: "m3 = m2\<lparr>wm_running := wm_running m2 - 1, wm_workers := wm_workers m2 - 1, wm_pendingCount := wm_pendingCount m2 - 1\<rparr>"
    unfolding m3_def using f(1) f' by (intro finally_eq) (simp_all add: s2)
  have counts: "held_files m3 + 1 = held_files m" "pending_files (wm_fileQueue m3) + 1 = pending_files (wm_fileQueue m)"
    using length_filter_update [OF f(1), of held f'] length_filter_update [OF f(1), of "\<lambda>f. \<not> wf_done f" f'] f' held f(6)
    by (simp_all add: held_files_def pending_files_def m3 s2)
  have "loop_inv (wm_CONCURRENCY m - 1) m3"
    using run w counts f' s2 acc2
    by (auto simp: loop_inv_def run_inv_def held_ok_run_def workers_ok_def m3 accounts_ok_def same_scalars_def take_update_swap
        list_all_update)
  then have "loop_inv (wm_CONCURRENCY m) (worker env m3)"
    using worker_inv [of "wm_CONCURRENCY m - 1" m3 env] run by (simp add: run_inv_def held_ok_run_def)
  moreover have "same_wait m (worker env m3)"
    using worker_same_wait [of m3 env] s2 by (simp add: same_wait_def m3 same_scalars_def)
  ultimately show ?thesis
    using run w
    by (simp add: worker_settle_def m3_def m2_def m1_def web_inv_def loop_inv_def run_inv_def same_wait_def)
qed

end
