(* ===== verification/WebProperties.thy ===== *)
theory WebProperties
  imports WebRun
begin

text \<open>
  The invariant of the browser client holds after every sequence of events: the queue
  operations, the duplicate check and the segments of \<open>uploadFiles\<close>; and the properties that follow.
\<close>

subsection \<open>Queue operations\<close>

lemma new_meta_sound: "file_ok (new_meta f)" "w_up (new_meta f) = 0" "w_co (new_meta f) = 0" "w_err (new_meta f) = 0"
  "w_ok (new_meta f) = 0" "wf_size (new_meta f) = fl_size f" "\<not> held (new_meta f)" "\<not> wf_running (new_meta f)"
  by (simp_all add: new_meta_def file_ok_def bytes_ok_def held_ok_def item_ok_def renderFileItem_def weight_defs held_def)

lemma sum_list_zero_map: "(\<And>x. x \<in> set xs \<Longrightarrow> g x = (0 :: nat)) \<Longrightarrow> sum_list (map g xs) = 0"
  by (induction xs) simp_all

lemma inv_addFiles:
  assumes inv: "web_inv m"
  shows "web_inv (addFiles files m)"
proof (cases "wm_isUploadInProgress m \<or> files = []")
  case True
  then show ?thesis using inv quiet_inv quiet_page(5) by (auto simp: addFiles_def)
next
  case False
  let ?m = "m\<lparr>wm_fileQueue := wm_fileQueue m @ map new_meta files,
    wm_totalBytes := wm_totalBytes m + sum_list (map fl_size files)\<rparr>"
  have w: "wm_wait m = Not_running" using inv False by (simp add: web_inv_def run_inv_def)
  have zero: "sum_list (map (g \<circ> new_meta) files) = 0" if "\<And>f. g (new_meta f) = (0 :: nat)" for g
    using that by (intro sum_list_zero_map) simp
  have size: "map (wf_size \<circ> new_meta) files = map fl_size files"
    by (simp add: comp_def new_meta_sound)
  have "accounts_ok ?m"
    using inv zero [of w_up] zero [of w_co] zero [of w_err] zero [of w_ok]
    by (auto simp: web_inv_def accounts_ok_def size new_meta_sound list_all_iff)
  moreover have "held_files ?m = held_files m"
    by (simp add: held_files_def filter_empty_conv new_meta_sound)
  ultimately have "web_inv ?m"
    using inv w False
    by (auto simp: web_inv_def run_inv_def held_ok_run_def new_meta_sound list_all_iff)
  then show ?thesis
    using False quiet_inv [of ?m] by (simp add: addFiles_def quiet_steps)
qed

lemma inv_resetFiles:
  assumes inv: "web_inv m"
  shows "web_inv (resetFiles m)"
proof (cases "wm_isUploadInProgress m")
  case True
  then show ?thesis using inv quiet_inv quiet_page(5) by (simp add: resetFiles_def)
next
  case False
  then have "wm_wait m = Not_running" "wm_workers m = 0" using inv by (auto simp: web_inv_def run_inv_def)
  then show ?thesis
    using inv False
    by (simp add: resetFiles_def web_inv_def accounts_ok_def run_inv_def held_ok_run_def held_files_def updateStatsUI_def
        refreshOverallProgress_def web_log_def)
qed

lemma inv_upload_click:
  assumes inv: "web_inv m"
  shows "web_inv (uploadFiles_click m)"
proof (cases "wm_isUploadInProgress m \<or> wm_fileQueue m = []")
  case True
  then show ?thesis
    using quiet_inv [OF inv] by (auto simp: uploadFiles_click_def quiet_steps)
next
  case False
  have w: "wm_wait m = Not_running" using inv False by (simp add: web_inv_def run_inv_def)
  have "filter held (wm_fileQueue m) = []" using inv w by (auto simp: web_inv_def run_inv_def held_ok_run_def held_files_def)
  then have "web_inv (m\<lparr>wm_isUploadInProgress := True, wm_wait := Await_config\<rparr>)"
    using inv False w by (simp add: web_inv_def accounts_ok_def run_inv_def held_ok_run_def held_files_def)
  then show ?thesis
    using False quiet_inv quiet_page(4) by (simp add: uploadFiles_click_def)
qed

subsection \<open>The start of a run\<close>

lemma requeue_sound:
  assumes "file_ok f" "\<not> held f"
  shows "file_ok (requeue_failed f)" "\<not> held (requeue_failed f)" "wf_size (requeue_failed f) = wf_size f"
    "w_err (requeue_failed f) = w_err f" "w_ok (requeue_failed f) = w_ok f"
    "wf_running (requeue_failed f) \<Longrightarrow> wf_running f"
  using assms
  by (cases "wf_done f \<and> wf_failed f";
      simp add: requeue_failed_def ui_defs file_ok_def bytes_ok_def held_ok_def item_ok_def held_def weight_defs)+

lemma start_weights:
  assumes "file_ok f" "\<not> held f"
  shows "file_ok (f\<lparr>wf_thisRun := \<not> wf_done f\<rparr>)" "w_up (f\<lparr>wf_thisRun := \<not> wf_done f\<rparr>) = 0"
    "w_co (f\<lparr>wf_thisRun := \<not> wf_done f\<rparr>) = 0" "w_err (f\<lparr>wf_thisRun := \<not> wf_done f\<rparr>) = w_err f"
    "w_ok (f\<lparr>wf_thisRun := \<not> wf_done f\<rparr>) = w_ok f"
  using assms by (auto simp: file_ok_def bytes_ok_def held_ok_def item_ok_def held_def weight_defs)

lemma requeue_all_done: "list_all wf_done (map requeue_failed q) \<Longrightarrow> map requeue_failed q = q"
  by (induction q) (auto simp: requeue_failed_def ui_defs split: if_splits)

lemma not_held: "held_files m = 0 \<Longrightarrow> f \<in> set (wm_fileQueue m) \<Longrightarrow> \<not> held f"
  by (simp add: held_files_def filter_empty_conv)

lemma inv_upload_start:
  assumes inv: "web_inv m" and w: "wm_wait m = Await_config" and cfg: "wm_configSettled m"
  shows "web_inv (uploadFiles_start env m)"
proof (cases "list_all wf_done (map requeue_failed (wm_fileQueue m))")
  case True
  have "web_inv (m\<lparr>wm_fileQueue := map requeue_failed (wm_fileQueue m), wm_isUploadInProgress := False, wm_wait := Not_running\<rparr>)"
    using inv w requeue_all_done [OF True] by (auto simp: web_inv_def accounts_ok_def run_inv_def held_ok_run_def held_files_def)
  then show ?thesis
    using True quiet_inv by (simp add: uploadFiles_start_def Let_def quiet_steps)
next
  case False
  have h0: "held_files m = 0" and run: "run_inv m" and acc: "accounts_ok m"
    using inv w by (auto simp: web_inv_def run_inv_def held_ok_run_def)
  let ?g = "\<lambda>f. (requeue_failed f)\<lparr>wf_thisRun := \<not> wf_done (requeue_failed f)\<rparr>"
  have g: "file_ok (?g f)" "w_up (?g f) = 0" "w_co (?g f) = 0" "w_err (?g f) = w_err f" "w_ok (?g f) = w_ok f"
    "wf_size (?g f) = wf_size f" "\<not> held (?g f)" "\<not> wf_running (?g f)" if "f \<in> set (wm_fileQueue m)" for f
  proof -
    have f: "file_ok f" "\<not> held f" "\<not> wf_running f"
      using acc run that not_held [OF h0 that] by (auto simp: accounts_ok_def run_inv_def held_ok_run_def list_all_iff)
    note r = requeue_sound [OF f(1,2)]
    show "file_ok (?g f)" "w_up (?g f) = 0" "w_co (?g f) = 0" "w_err (?g f) = w_err f" "w_ok (?g f) = w_ok f"
      "wf_size (?g f) = wf_size f" "\<not> held (?g f)" "\<not> wf_running (?g f)"
      using start_weights [OF r(1,2)] r f by (auto simp: held_def)
  qed
  define m' where "m' = uploadFiles_start env m"
  have q': "wm_fileQueue m' = map ?g (wm_fileQueue m)"
    using False by (simp add: m'_def uploadFiles_start_def Let_def web_log_def comp_def)
  have sums: "map w_err (wm_fileQueue m') = map w_err (wm_fileQueue m)" "map w_ok (wm_fileQueue m') = map w_ok (wm_fileQueue m)"
    "map wf_size (wm_fileQueue m') = map wf_size (wm_fileQueue m)"
    "sum_list (map w_up (wm_fileQueue m')) = 0" "sum_list (map w_co (wm_fileQueue m')) = 0"
    using g by (simp_all add: q' comp_def)
  have s': "wm_totalBytes m' = wm_totalBytes m" "wm_globalUploadedBytes m' = 0" "wm_networkBytesUploaded m' = 0"
    "wm_globalCompletedBytes m' = 0" "wm_errorCount m' = wm_errorCount m" "wm_successCount m' = wm_successCount m"
    "wm_failedSkips m' = wm_failedSkips m" "wm_wait m' = Await_preflight" "wm_workers m' = wm_workers m"
    "wm_running m' = wm_running m" "wm_CONCURRENCY m' = wm_CONCURRENCY m" "wm_chunkSizeBytes m' = wm_chunkSizeBytes m"
    "wm_isUploadInProgress m' = wm_isUploadInProgress m" "wm_configSettled m' = wm_configSettled m"
    using False by (simp_all add: m'_def uploadFiles_start_def Let_def web_log_def)
  have all: "list_all file_ok (wm_fileQueue m')" "list_all (\<lambda>f. wf_running f = held f) (wm_fileQueue m')"
    "list_all (\<lambda>f. wf_done f \<or> wf_thisRun f) (wm_fileQueue m')"
    using g by (auto simp: list_all_iff q')
  have "accounts_ok m'"
    using acc sums all(1) by (simp add: accounts_ok_def s')
  moreover have "held_files m' = 0"
    using g by (simp add: held_files_def filter_empty_conv q')
  ultimately show ?thesis
    using run w cfg all s' by (simp add: web_inv_def run_inv_def held_ok_run_def flip: m'_def)
qed

subsection \<open>The duplicate check\<close>

text \<open>While verdicts are applied: \<open>k\<close> files and \<open>b\<close> bytes have been skipped and are not yet counted.\<close>

definition check_inv :: "web_manager \<times> nat \<times> nat \<Rightarrow> bool" where
  "check_inv = (\<lambda>(m, k, b). accounts_ok (m\<lparr>wm_successCount := wm_successCount m + k\<rparr>) \<and> b \<le> wm_globalCompletedBytes m \<and>
     run_inv m \<and> wm_wait m = Await_preflight)"

lemma skip_shift:
  "(at_file i (web_skip_file env r) m)\<lparr>wm_successCount := wm_successCount (at_file i (web_skip_file env r) m) + (k + 1)\<rparr> =
   at_file i (\<lambda>p. apsnd (\<lambda>m. m\<lparr>wm_successCount := wm_successCount m + 1\<rparr>) (web_skip_file env r p))
     (m\<lparr>wm_successCount := wm_successCount m + k\<rparr>)"
  by (simp add: at_file_def web_skip_file_def account_simps Let_def)

lemma skip_facts:
  "fstate (fst (web_skip_file env r p)) = (True, held (fst p), wf_running (fst p), wf_thisRun (fst p))"
  "same_scalars (snd p) (snd (web_skip_file env r p))"
  "wf_completedBytes (fst p) = 0 \<Longrightarrow> wm_globalCompletedBytes (snd (web_skip_file env r p)) = wm_globalCompletedBytes (snd p) + wf_size (fst p)"
  by (cases p; simp add: fstate_def held_def web_skip_file_def account_simps Let_def ui_defs same_scalars_def)+

text \<open>An operation on a pending file that at most finishes it keeps the invariant of the run during the check.\<close>

lemma run_check_at_file:
  assumes run: "run_inv m" and w: "wm_wait m = Await_preflight" and i: "i < length (wm_fileQueue m)"
    and op: "operation (wm_fileQueue m ! i, m) = (f', m')" and sc: "same_scalars m m'"
    and st: "held f' = held (wm_fileQueue m ! i)" "wf_running f' = wf_running (wm_fileQueue m ! i)"
      "wf_thisRun f' = wf_thisRun (wm_fileQueue m ! i)" "wf_done (wm_fileQueue m ! i) \<Longrightarrow> wf_done f'"
  shows "run_inv (at_file i operation m)" "wm_wait (at_file i operation m) = Await_preflight"
proof -
  have f: "wf_running (wm_fileQueue m ! i) = held (wm_fileQueue m ! i)" "wf_done (wm_fileQueue m ! i) \<or> wf_thisRun (wm_fileQueue m ! i)"
    using run w i by (auto simp: run_inv_def held_ok_run_def list_all_length)
  have "length (filter held ((wm_fileQueue m)[i := f'])) = length (filter held (wm_fileQueue m))"
    using length_filter_update [OF i, of held f'] st by simp
  then show "run_inv (at_file i operation m)" "wm_wait (at_file i operation m) = Await_preflight"
    using run w sc st f
    by (auto simp: at_file_def op run_inv_def held_ok_run_def held_files_def same_scalars_def list_all_update)
qed

lemma check_pending:
  assumes "check_inv (m, k, b)" "i < length (wm_fileQueue m)" "\<not> wf_done (wm_fileQueue m ! i)"
  shows "file_ok (wm_fileQueue m ! i)" "wf_flight (wm_fileQueue m ! i) = None" "wf_thisRun (wm_fileQueue m ! i)"
    "wf_uploadedBytes (wm_fileQueue m ! i) = 0" "wf_completedBytes (wm_fileQueue m ! i) = 0"
proof -
  have h0: "held_files m = 0" using assms(1) by (auto simp: check_inv_def run_inv_def held_ok_run_def)
  show ok: "file_ok (wm_fileQueue m ! i)"
    using assms by (simp add: check_inv_def accounts_ok_def list_all_length)
  show none: "wf_flight (wm_fileQueue m ! i) = None"
    using not_held [OF h0, of "wm_fileQueue m ! i"] assms(2) by (simp add: held_def)
  show "wf_thisRun (wm_fileQueue m ! i)"
    using assms by (auto simp: check_inv_def run_inv_def list_all_length)
  show "wf_uploadedBytes (wm_fileQueue m ! i) = 0" "wf_completedBytes (wm_fileQueue m ! i) = 0"
    using ok none assms(3) by (auto simp: file_ok_def bytes_ok_def)
qed

lemma check_skip:
  assumes inv: "check_inv (m, k, b)" and i: "i < length (wm_fileQueue m)" "\<not> wf_done (wm_fileQueue m ! i)"
  shows "check_inv (at_file i (web_skip_file env r) m, k + 1, b + wf_size (wm_fileQueue m ! i))"
proof -
  let ?f = "wm_fileQueue m ! i" and ?mk = "m\<lparr>wm_successCount := wm_successCount m + k\<rparr>"
  note p = check_pending [OF inv i]
  obtain f' m' where op: "web_skip_file env r (?f, m) = (f', m')" by fastforce
  note facts = skip_facts [where env = env and r = r and p = "(?f, m)", unfolded op, simplified]
  have acc: "accounts_ok ?mk" using inv by (simp add: check_inv_def)
  have "accounts_ok (at_file i (\<lambda>p. apsnd (\<lambda>m. m\<lparr>wm_successCount := wm_successCount m + 1\<rparr>) (web_skip_file env r p)) ?mk)"
    using i p by (intro accounts_at_file [OF acc] balanced_skip) (simp_all add: file_ok_skip)
  moreover have "run_inv (at_file i (web_skip_file env r) m)" "wm_wait (at_file i (web_skip_file env r) m) = Await_preflight"
    using run_check_at_file [where operation = "web_skip_file env r", OF _ _ i(1) op] inv facts
    by (auto simp: check_inv_def fstate_def)
  moreover have "b + wf_size ?f \<le> wm_globalCompletedBytes (at_file i (web_skip_file env r) m)"
    using facts(3) p(5) inv by (simp add: at_file_def op check_inv_def)
  ultimately show ?thesis
    unfolding check_inv_def prod.case skip_shift by blast
qed

lemma balanced_queued: "balanced (f, m) (markFileQueued t f, m)"
  by (simp add: balanced_def weight_defs ui_defs)

lemma check_queued:
  assumes inv: "check_inv (m, k, b)" and i: "i < length (wm_fileQueue m)" "\<not> wf_done (wm_fileQueue m ! i)"
  shows "check_inv (at_file i (apfst (markFileQueued t)) m, k, b)"
proof -
  let ?f = "wm_fileQueue m ! i" and ?mk = "m\<lparr>wm_successCount := wm_successCount m + k\<rparr>"
  note p = check_pending [OF inv i]
  have shift: "(at_file i (apfst (markFileQueued t)) m)\<lparr>wm_successCount := wm_successCount (at_file i (apfst (markFileQueued t)) m) + k\<rparr> =
      at_file i (apfst (markFileQueued t)) ?mk"
    by (simp add: at_file_def)
  have acc: "accounts_ok ?mk" using inv by (simp add: check_inv_def)
  have "accounts_ok (at_file i (apfst (markFileQueued t)) ?mk)"
    using i p by (intro accounts_at_file [OF acc]) (simp_all add: file_ok_queued balanced_queued)
  moreover have "run_inv (at_file i (apfst (markFileQueued t)) m)" "wm_wait (at_file i (apfst (markFileQueued t)) m) = Await_preflight"
    using run_check_at_file [where operation = "apfst (markFileQueued t)", OF _ _ i(1) apfst_conv] inv
    by (auto simp: check_inv_def same_scalars_def held_def ui_defs)
  ultimately show ?thesis
    using inv by (simp add: check_inv_def shift) (simp add: at_file_def)
qed

declare apply_verdict.simps [simp del]

lemma verdict_elsewhere:
  "j \<noteq> i \<Longrightarrow> wm_fileQueue (fst (apply_verdict env items i (m, k, b))) ! j = wm_fileQueue m ! j"
  "length (wm_fileQueue (fst (apply_verdict env items i (m, k, b)))) = length (wm_fileQueue m)"
  by (simp_all add: apply_verdict.simps Let_def at_file_def web_skip_file_def account_simps)

lemma check_verdicts:
  assumes "check_inv (m, k, b)" "distinct is" "\<And>i. i \<in> set is \<Longrightarrow> i < length (wm_fileQueue m) \<and> \<not> wf_done (wm_fileQueue m ! i)"
  shows "check_inv (fold (apply_verdict env items) is (m, k, b))"
  using assms
proof (induction "is" arbitrary: m k b)
  case Nil
  then show ?case by simp
next
  case (Cons i rest)
  obtain m' k' b' where v: "apply_verdict env items i (m, k, b) = (m', k', b')"
    by (metis prod_cases3)
  have "check_inv (m', k', b')"
    using check_skip [OF Cons.prems(1)] check_queued [OF Cons.prems(1)] Cons.prems(3) v
    by (auto simp: apply_verdict.simps Let_def split: if_splits)
  moreover have "j < length (wm_fileQueue m') \<and> \<not> wf_done (wm_fileQueue m' ! j)" if "j \<in> set rest" for j
  proof -
    have "j \<noteq> i" using Cons.prems(2) that by auto
    then show ?thesis
      using verdict_elsewhere(1) [of j i env items m k b] verdict_elsewhere(2) [of env items i m k b] Cons.prems(3) [of j] that v
      by simp
  qed
  ultimately show ?case
    using Cons.IH Cons.prems(2) v by simp
qed

lemma inv_preflight_settled:
  assumes inv: "web_inv m" and w: "wm_wait m = Await_preflight"
  shows "web_inv (preflight_settled env answers m)" "wm_wait (preflight_settled env answers m) = Await_preflight"
proof -
  have start: "check_inv (m, 0, 0)" using inv w by (simp add: check_inv_def web_inv_def)
  have cands: "check_inv (fold (apply_verdict env items) (web_candidates initial (wm_fileQueue m)) (m, 0, 0))" for items initial
    by (rule check_verdicts [OF start]) (auto simp: web_candidates_def)
  have "web_inv (preflight_settled env answers m) \<and> wm_wait (preflight_settled env answers m) = Await_preflight"
  proof (cases "preflight_run env answers m")
    case (Some result)
    obtain m1 k b where r: "result = (m1, k, b)" by (metis prod_cases3)
    have "check_inv (m1, k, b)"
      using Some start cands by (auto simp: r preflight_run_def Let_def split: if_splits option.splits dest: sym)
    moreover define m2 where "m2 = m1\<lparr>wm_skippedBytes := b, wm_globalCompletedBytes := max (wm_globalCompletedBytes m1) b,
        wm_successCount := wm_successCount m1 + k\<rparr>"
    moreover have "run_inv m2 = run_inv m1"
      by (rule same_run_facts(3)) (simp add: m2_def same_run_def queue_view_def)
    ultimately have "web_inv m2" and "wm_wait m2 = Await_preflight"
      by (simp_all add: check_inv_def web_inv_def accounts_ok_def max_def m2_def)
    then show ?thesis
      using Some r quiet_inv [of m2 "refreshOverallProgress (updateStatsUI m2)"]
      by (simp add: preflight_settled_def quiet_steps flip: m2_def) (simp add: refreshOverallProgress_def updateStatsUI_def)
  next
    case None
    let ?g = "\<lambda>f. if wf_done f then f else markFileQueued (Key ''file.ready'') f"
    have h0: "held_files m = 0" using inv w by (auto simp: web_inv_def run_inv_def held_ok_run_def)
    have g: "w_up (?g f) = w_up f" "w_co (?g f) = w_co f" "w_err (?g f) = w_err f" "w_ok (?g f) = w_ok f"
      "wf_size (?g f) = wf_size f" "fstate (?g f) = fstate f" for f
      by (simp_all add: weight_defs ui_defs fstate_def held_def)
    define m1 where "m1 = web_log ''preflight_fallback'' m"
    have q: "quiet m m1" unfolding m1_def by (rule quiet_page)
    define m2 where "m2 = m1\<lparr>wm_fileQueue := map ?g (wm_fileQueue m1)\<rparr>"
    have "same_run m1 m2"
      by (simp add: same_run_def queue_view_def m2_def g comp_def)
    moreover have "accounts_ok m2"
      using quiet_inv [OF inv q]
      by (auto simp: web_inv_def accounts_ok_def m2_def comp_def list_all_iff g file_ok_queued)
    ultimately have "web_inv m2"
      using quiet_inv [OF inv q] same_run_facts(3) by (simp add: web_inv_def)
    moreover have "wm_wait m2 = Await_preflight" using q w by (simp add: m2_def quiet_defs)
    moreover have "preflight_settled env answers m = m2"
      using None by (simp add: preflight_settled_def m2_def m1_def Let_def)
    ultimately show ?thesis by simp
  qed
  then show "web_inv (preflight_settled env answers m)" "wm_wait (preflight_settled env answers m) = Await_preflight" by auto
qed

subsection \<open>The segments of a run\<close>

lemma inv_finalize:
  assumes inv: "web_inv m" and fin: "list_all wf_done (wm_fileQueue m)" and busy: "wm_isUploadInProgress m" and w0: "wm_workers m = 0"
    and cfg: "wm_configSettled m"
  shows "web_inv (uploadFiles_finalize env m)"
  using assms
  by (simp add: uploadFiles_finalize_def web_inv_def accounts_ok_def run_inv_def held_ok_run_def held_files_def refreshOverallProgress_def)

lemma pending_none: "pending_files q = 0 \<longleftrightarrow> list_all wf_done q"
  by (auto simp: pending_files_def filter_empty_conv list_all_iff)

lemma inv_checked:
  assumes inv: "web_inv m" and w: "wm_wait m = Await_preflight"
  shows "web_inv (uploadFiles_checked env answers m)"
proof -
  define m1 where "m1 = preflight_settled env answers m"
  have i1: "web_inv m1" and w1: "wm_wait m1 = Await_preflight"
    using inv_preflight_settled [OF inv w] by (simp_all add: m1_def)
  define m2 where "m2 = m1\<lparr>wm_checkDurationMs := we_now env - wm_segmentStartedAt m1,
      wm_pendingCount := pending_files (wm_fileQueue m1), wm_nextUploadIndex := 0, wm_segmentStartedAt := we_now env\<rparr>"
  have i2: "web_inv m2" and w2: "wm_wait m2 = Await_preflight" "wm_workers m2 = 0" "wm_isUploadInProgress m2" "wm_configSettled m2"
    using i1 w1 by (auto simp: m2_def web_inv_def accounts_ok_def run_inv_def held_ok_run_def held_files_def)
  let ?m4 = "(startStallWatchdog (we_now env) (m2\<lparr>wm_currentPhase := Phase_uploading\<rparr>))
      \<lparr>wm_speedInterval := True, wm_wait := Await_workers\<rparr>"
  have eq: "uploadFiles_checked env answers m =
      (if 0 < wm_pendingCount m2 then (worker env ^^ wm_CONCURRENCY ?m4) ?m4 else uploadFiles_finalize env m2)"
    by (simp only: uploadFiles_checked_def Let_def m1_def m2_def)
  show ?thesis
  proof (cases "0 < wm_pendingCount m2")
    case False
    then have "list_all wf_done (wm_fileQueue m2)" by (simp add: m2_def pending_none)
    then show ?thesis
      using False inv_finalize [OF i2 _ w2(3,2,4)] by (simp add: eq)
  next
    case True
    define m4 where "m4 = ?m4"
    have "loop_inv 0 m4"
      using i2 w2
      by (simp add: loop_inv_def m4_def startStallWatchdog_def web_inv_def accounts_ok_def run_inv_def held_ok_run_def
          held_files_def workers_ok_def) (simp add: m2_def)
    then have "loop_inv (wm_CONCURRENCY m4) ((worker env ^^ wm_CONCURRENCY m4) m4)"
      "same_wait m4 ((worker env ^^ wm_CONCURRENCY m4) m4)"
      using workers_started by blast+
    then have "web_inv ((worker env ^^ wm_CONCURRENCY m4) m4)"
      using w2 by (simp add: loop_inv_def web_inv_def run_inv_def same_wait_def) (simp add: m4_def startStallWatchdog_def)
    then show ?thesis
      using True by (simp only: eq m4_def if_True)
  qed
qed

lemma workers_all_done:
  assumes "run_inv m" "wm_wait m = Await_workers" "wm_workers m = 0"
  shows "list_all wf_done (wm_fileQueue m)" "wm_isUploadInProgress m" "wm_configSettled m"
proof -
  have "held_files m = 0" using assms by (simp add: run_inv_def held_ok_run_def)
  moreover have "list_all (\<lambda>f. wf_done f \<or> held f) (wm_fileQueue m)"
    using assms by (auto simp: run_inv_def held_ok_run_def workers_ok_def)
  ultimately show "list_all wf_done (wm_fileQueue m)"
    using not_held by (auto simp: list_all_iff)
  show "wm_isUploadInProgress m" "wm_configSettled m" using assms by (auto simp: run_inv_def)
qed

lemma inv_submit: "web_inv m \<Longrightarrow> wm_wait m = Await_cleanup \<Longrightarrow> web_inv (uploadFiles_submit env m)"
  by (auto simp: uploadFiles_submit_def web_inv_def accounts_ok_def run_inv_def held_ok_run_def held_files_def)

lemma inv_end:
  assumes inv: "web_inv m" and w: "wm_wait m = Await_history"
  shows "web_inv (uploadFiles_end env stored m)"
  using assms
  by (auto simp: uploadFiles_end_def uploadFiles_finally_def Let_def web_inv_def accounts_ok_def run_inv_def held_ok_run_def
      held_files_def web_log_def show_modal_def setUploadUiState_def reportSpeedSample_def)

lemma boundedInteger_bounds: "0 < fallback \<Longrightarrow> 0 < boundedInteger v maximum fallback"
  "fallback \<le> maximum \<Longrightarrow> boundedInteger v maximum fallback \<le> maximum"
  by (auto simp: boundedInteger_def isSafeInteger_def isInteger_def le_nat_floor floor_le_iff nat_le_iff split: option.split)

lemma config_positive:
  "0 < wm_CONCURRENCY (loadServerConfig answer m)" "0 < wm_chunkSizeBytes (loadServerConfig answer m)"
  by (simp_all add: loadServerConfig_def config_answer_def config_start_def boundedInteger_bounds fallback_parallelFiles_def
      fallback_chunkSize_def Let_def split: option.split)

lemma inv_config:
  assumes inv: "web_inv m" and fresh: "\<not> wm_configSettled m"
  shows "web_inv (loadServerConfig answer m)"
proof -
  have w: "wm_wait m = Not_running \<or> wm_wait m = Await_config" using assms by (auto simp: web_inv_def run_inv_def)
  have same: "same_accounts m (loadServerConfig answer m)" "wm_wait (loadServerConfig answer m) = wm_wait m"
    "wm_running (loadServerConfig answer m) = wm_running m" "wm_workers (loadServerConfig answer m) = wm_workers m"
    "wm_isUploadInProgress (loadServerConfig answer m) = wm_isUploadInProgress m"
    by (simp_all add: same_accounts_def loadServerConfig_def config_answer_def config_start_def Let_def split: option.split)
  have q: "wm_fileQueue (loadServerConfig answer m) = wm_fileQueue m" using same by (simp add: same_accounts_def)
  have "run_inv (loadServerConfig answer m)"
    using inv w config_positive [of answer m]
    by (elim disjE; simp add: web_inv_def run_inv_def held_ok_run_def held_files_def q same)
  then show ?thesis using inv accounts_same [OF _ same(1)] by (simp add: web_inv_def)
qed

subsection \<open>All events\<close>

lemma inv_web_step: "web_inv m \<Longrightarrow> web_inv (web_step e m)"
proof (cases e)
  case (Pair env ev)
  assume inv: "web_inv m"
  show ?thesis
  proof (cases ev)
    case (Ev_settle i)
    then show ?thesis using inv inv_settle [OF inv] by (simp add: Pair split: option.split flight.split)
  next
    case Ev_workers_done
    then show ?thesis
      using inv workers_all_done [of m] inv_finalize [OF inv] by (simp add: Pair web_inv_def)
  qed (use inv in \<open>simp_all add: Pair inv_config inv_addFiles inv_resetFiles inv_upload_click inv_upload_start inv_checked
        inv_request_event inv_submit inv_end quiet_inv [OF inv quiet_ticks(1)] quiet_inv [OF inv quiet_ticks(2)] del: web_step.simps(7-10)\<close>)
qed

lemma inv_init: "web_inv (init_manager mobile session)"
  by (simp add: web_inv_def accounts_ok_def run_inv_def held_ok_run_def held_files_def init_manager_def web_log_def
      config_start_def fallback_parallelFiles_def fallback_chunkSize_def)

interpretation web: event_machine web_step web_inv
  by unfold_locales (rule inv_web_step)

subsection \<open>Properties\<close>

text \<open>The manager of a page on which the events \<open>es\<close> have happened since it was opened.\<close>

definition reached :: "bool \<Rightarrow> string \<Rightarrow> (web_env \<times> web_event) list \<Rightarrow> web_manager" where
  "reached mobile session es = fold web_step es (init_manager mobile session)"

lemma reached_inv: "web_inv (reached mobile session es)"
  unfolding reached_def by (rule web.run_inv) (rule inv_init)

lemma w_up_le_co: "file_ok f \<Longrightarrow> w_up f \<le> w_co f \<and> w_co f \<le> wf_size f"
  by (simp add: weight_defs file_ok_def bytes_ok_def)

lemma sum_list_le_map: "(\<And>x. x \<in> set xs \<Longrightarrow> g x \<le> (h x :: nat)) \<Longrightarrow> sum_list (map g xs) \<le> sum_list (map h xs)"
  by (rule sum_list_mono) simp

lemma uploaded_item_ok:
  assumes "file_ok f" "uploaded_item f"
  shows "covers 0 (wf_accepted f) (wf_size f) \<and> wf_completedBytes f = wf_size f \<and>
    fu_class (wf_ui f) = Item_success \<and> fu_percent (wf_ui f) = 100"
proof -
  have "wf_flight f = None" using assms by (auto simp: file_ok_def held_ok_def uploaded_item_def)
  then show ?thesis using assms by (simp add: file_ok_def bytes_ok_def item_ok_def uploaded_item_def)
qed

text \<open>
  C11. The byte counts of the browser client are always those of its files: the total is the
  sum of the sizes, the uploaded and completed bytes of the run are the sums over the files
  that were pending when the run started, the bytes reported as sent are the uploaded ones,
  and they never exceed the completed bytes nor those the total.
\<close>

theorem web_bytes_account:
  "let m = reached mobile session es in
     wm_totalBytes m = sum_list (map wf_size (wm_fileQueue m)) \<and>
     wm_globalUploadedBytes m = sum_list (map wf_uploadedBytes (filter wf_thisRun (wm_fileQueue m))) \<and>
     wm_globalCompletedBytes m = sum_list (map wf_completedBytes (filter wf_thisRun (wm_fileQueue m))) \<and>
     wm_networkBytesUploaded m = wm_globalUploadedBytes m \<and>
     wm_globalUploadedBytes m \<le> wm_globalCompletedBytes m \<and> wm_globalCompletedBytes m \<le> wm_totalBytes m"
proof -
  let ?m = "reached mobile session es"
  have acc: "accounts_ok ?m" using reached_inv by (simp add: web_inv_def)
  have run: "sum_list (map w_up q) = sum_list (map wf_uploadedBytes (filter wf_thisRun q))"
    "sum_list (map w_co q) = sum_list (map wf_completedBytes (filter wf_thisRun q))" for q
    by (induction q) (simp_all add: weight_defs)
  have "w_up f \<le> w_co f \<and> w_co f \<le> wf_size f" if "f \<in> set (wm_fileQueue ?m)" for f
    using acc that by (intro w_up_le_co) (simp add: accounts_ok_def list_all_iff)
  then have "sum_list (map w_up (wm_fileQueue ?m)) \<le> sum_list (map w_co (wm_fileQueue ?m))"
    "sum_list (map w_co (wm_fileQueue ?m)) \<le> sum_list (map wf_size (wm_fileQueue ?m))"
    by (auto intro!: sum_list_le_map)
  then show ?thesis using acc by (simp add: accounts_ok_def Let_def flip: run)
qed

text \<open>
  C12. A file that the browser client counts as uploaded has been received completely: the
  byte ranges that the receiver acknowledged follow each other from the first byte of the file to
  its last, and its item is shown as a success at 100 percent.
\<close>

theorem web_uploaded_complete:
  "list_all (\<lambda>f. covers 0 (wf_accepted f) (wf_size f) \<and> wf_completedBytes f = wf_size f \<and>
       fu_class (wf_ui f) = Item_success \<and> fu_percent (wf_ui f) = 100)
     (filter uploaded_item (wm_fileQueue (reached mobile session es)))"
proof -
  have "file_ok f" if "f \<in> set (wm_fileQueue (reached mobile session es))" for f
    using reached_inv [of mobile session es] that by (simp add: web_inv_def accounts_ok_def list_all_iff)
  then show ?thesis by (simp add: list_all_iff uploaded_item_ok)
qed

end
