(* ===== verification/WebEnding.thy ===== *)
theory WebEnding
  imports WebProperties
begin

text \<open>
  A run of the browser client ends. Every answer, failure, retry timer and settled result
  that the workers wait for takes one step of the work that is left, and while a worker is
  active such an event can happen. The bound counts, per chunk, three attempts and the two
  pauses between them.
\<close>

subsection \<open>The work that is left\<close>

definition chunk_work :: nat where
  "chunk_work = 2 * WEB_CHUNK_RETRIES + 1"

definition later_chunks :: "chunk_state \<Rightarrow> nat" where
  "later_chunks c = (ck_totalChunks c - 1 - ck_index c) * chunk_work"

fun flight_work :: "flight \<Rightarrow> nat" where
  "flight_work (Settled _) = 1"
| "flight_work (Whole_request _) = 2"
| "flight_work (Chunk_request c _) = later_chunks c + 2 * (WEB_CHUNK_RETRIES - ck_attempt c) + 2"
| "flight_work (Chunk_backoff c) = later_chunks c + 2 * (WEB_CHUNK_RETRIES - ck_attempt c) + 3"

definition pending_work :: nat where
  "pending_work = WebMaxChunksPerFile * chunk_work + 2"

definition file_work :: "file_meta \<Rightarrow> nat" where
  "file_work f = (if wf_done f then 0 else case wf_flight f of Some fl \<Rightarrow> flight_work fl | None \<Rightarrow> pending_work)"

definition work :: "web_manager \<Rightarrow> nat" where
  "work m = sum_list (map file_work (wm_fileQueue m))"

text \<open>The events that a worker waits for.\<close>

fun effective :: "web_env \<times> web_event \<Rightarrow> web_manager \<Rightarrow> bool" where
  "effective (env, Ev_load i xhr) m =
     (case flight_of i m of Some (Whole_request _) \<Rightarrow> True | Some (Chunk_request _ _) \<Rightarrow> True | _ \<Rightarrow> False)"
| "effective (env, Ev_fail i failure timing) m =
     (case flight_of i m of Some (Whole_request _) \<Rightarrow> True | Some (Chunk_request _ _) \<Rightarrow> True | _ \<Rightarrow> False)"
| "effective (env, Ev_retry i) m = (case flight_of i m of Some (Chunk_backoff _) \<Rightarrow> True | _ \<Rightarrow> False)"
| "effective (env, Ev_settle i) m = (case flight_of i m of Some (Settled _) \<Rightarrow> True | _ \<Rightarrow> False)"
| "effective _ m = False"

subsection \<open>Every such event takes a step\<close>

lemma work_at_file:
  assumes "i < length (wm_fileQueue m)" "wm_fileQueue (snd (operation (wm_fileQueue m ! i, m))) = wm_fileQueue m"
  shows "work (at_file i operation m) + file_work (wm_fileQueue m ! i) =
    work m + file_work (fst (operation (wm_fileQueue m ! i, m)))"
  using sum_list_update_balance [OF assms(1), of file_work "fst (operation (wm_fileQueue m ! i, m))"]
  by (simp add: work_def at_file_queue [where operation = operation and m = m and i = i, OF assms(2)])

lemma work_quiet: "quiet m m' \<Longrightarrow> work m' = work m"
  by (simp add: work_def quiet_defs)

text \<open>An operation on a file in flight, by the flight it leaves.\<close>

lemma work_at_flight:
  assumes inv: "web_inv m" and fl: "flight_of i m = Some fl"
    and calm: "calm (wm_fileQueue m ! i, m) (operation (wm_fileQueue m ! i, m))"
    and fl': "wf_flight (fst (operation (wm_fileQueue m ! i, m))) = Some fl'"
  shows "work (at_file i operation m) + flight_work fl = work m + flight_work fl'"
proof -
  note f = inv_flight [OF inv fl]
  have "\<not> wf_done (fst (operation (wm_fileQueue m ! i, m)))"
    using calm f(6) by (simp add: calm_def fstate_def)
  then show ?thesis
    using work_at_file [OF f(1), of operation] calm f fl' by (simp add: calm_def same_scalars_def file_work_def)
qed

lemma work_set_flight:
  assumes "web_inv m" "flight_of i m = Some fl"
  shows "work (set_flight i (Some fl') m) + flight_work fl = work m + flight_work fl'"
  unfolding set_flight_def
  by (rule work_at_flight [OF assms]) (use inv_flight(2) [OF assms] in \<open>simp_all add: fstate_flight\<close>)

lemma work_timing:
  assumes "web_inv m" "flight_of i m = Some fl"
  shows "work (at_file i (apfst (recordRequestTiming t now server)) m) = work m"
  using work_at_flight [OF assms, of "apfst (recordRequestTiming t now server)"] inv_flight(2) [OF assms] by simp

lemma work_chunk_progress:
  assumes inv: "web_inv m" and fl: "flight_of i m = Some (Chunk_request c t)"
  shows "work (chunk_progress i c loaded totalBytes now m) = work m"
proof -
  note f = inv_flight [OF inv fl]
  let ?m1 = "at_file i (chunk_speed c loaded now) m"
  have inv1: "web_inv ?m1" and fl1: "flight_of i ?m1 = Some (Chunk_request c t)"
    using inv_at_flight [OF inv fl, of "chunk_speed c loaded now"] f
    by (simp_all add: calm_operations balanced_chunk_speed file_ok_chunk_speed)
  have "work ?m1 = work m"
    using work_at_flight [OF inv fl, of "chunk_speed c loaded now"] f by (simp add: calm_operations)
  moreover have "work (at_file i (chunk_bytes c loaded now) ?m1) = work ?m1"
    using work_at_flight [OF inv1 fl1, of "chunk_bytes c loaded now"] inv_flight(2) [OF inv1 fl1] by (simp add: calm_operations)
  ultimately show ?thesis
    using work_quiet [OF quiet_refresh] by (simp add: chunk_progress_def Let_def)
qed

lemma work_chunk_failed:
  assumes inv: "web_inv m" and fl: "flight_of i m = Some (Chunk_request c t)"
  shows "work (chunk_failed error i c m) < work m"
proof (cases "WEB_CHUNK_RETRIES \<le> ck_attempt c \<or> \<not> isRetryableUploadError error")
  case True
  then show ?thesis using work_set_flight [OF inv fl, of "Settled (Inl error)"] by (simp add: chunk_failed_def)
next
  case False
  let ?m = "web_log ''chunk_retry'' (m\<lparr>wm_retryCount := wm_retryCount m + 1\<rparr>)"
  have q: "quiet m ?m" by (simp add: quiet_defs web_log_def)
  have "flight_of i ?m = Some (Chunk_request c t)" using quiet_flight [OF q] fl by simp
  from work_set_flight [OF quiet_inv [OF inv q] this, of "Chunk_backoff (c\<lparr>ck_attempt := ck_attempt c + 1\<rparr>)"]
  show ?thesis using False work_quiet [OF q] by (auto simp: chunk_failed_def later_chunks_def)
qed

lemma accepted_flight:
  "wf_flight (fst (chunk_accepted env c body p)) = Some
     (if ck_index c \<noteq> ck_totalChunks c - 1 then next_chunk env c (ck_uploadedBytes c + chunk_bytes_size (fst p) c)
      else case confirmed_result body of
             None \<Rightarrow> Settled (Inl (plain_error ''Server returned an invalid response'')) | Some v \<Rightarrow> Settled (Inr v))"
  by (simp add: chunk_accepted_def Let_def split: option.split)

lemma work_chunk_accepted:
  assumes inv: "web_inv m" and fl: "flight_of i m = Some (Chunk_request c t)"
  shows "work (at_file i (chunk_accepted env c body) m) < work m"
proof -
  note f = inv_flight [OF inv fl]
  obtain fl' where fl': "wf_flight (fst (chunk_accepted env c body (wm_fileQueue m ! i, m))) = Some fl'"
    by (simp add: accepted_flight)
  have eq: "work (at_file i (chunk_accepted env c body) m) + flight_work (Chunk_request c t) = work m + flight_work fl'"
    using f fl' by (intro work_at_flight [OF inv fl]) (simp_all add: calm_flights)
  have "flight_work fl' < flight_work (Chunk_request c t)"
  proof (cases "ck_index c = ck_totalChunks c - 1")
    case True
    then show ?thesis using fl' by (auto simp: accepted_flight split: option.splits)
  next
    case False
    have "ck_index c < ck_totalChunks c" using f(4) by (simp add: chunk_ok_def)
    then have "ck_totalChunks c - 1 - ck_index c = Suc (ck_totalChunks c - 1 - (ck_index c + 1))" using False by linarith
    then show ?thesis
      using fl' False by (auto simp: accepted_flight next_chunk_def later_chunks_def chunk_work_def)
  qed
  then show ?thesis using eq by linarith
qed

lemma begin_flight_work:
  assumes "wf_flight (begin_flight env i m f) = Some fl"
  shows "flight_work fl \<le> pending_work"
proof (cases "shouldUseChunkedUpload f m")
  case False
  then show ?thesis using assms by (auto simp: begin_flight_def pending_work_def)
next
  case True
  let ?n = "web_totalChunks (wf_size f) (web_chunkSize env m)"
  have "(?n - 1) * chunk_work + 2 * WEB_CHUNK_RETRIES \<le> WebMaxChunksPerFile * chunk_work" if n: "?n \<le> WebMaxChunksPerFile"
  proof (cases "?n")
    case 0
    then show ?thesis by (simp add: chunk_work_def WEB_CHUNK_RETRIES_def WebMaxChunksPerFile_def)
  next
    case (Suc k)
    have "Suc k * chunk_work \<le> WebMaxChunksPerFile * chunk_work" using n Suc by (intro mult_le_mono1) simp
    then show ?thesis using Suc by (simp add: chunk_work_def)
  qed
  then show ?thesis
    using assms True
    by (auto simp: begin_flight_def uploadChunked_start_def Let_def pending_work_def later_chunks_def split: if_splits)
qed

lemma start_work:
  assumes "\<not> wf_done (fst p)"
  shows "file_work (fst (uploadSingle_start env i p)) \<le> pending_work" "wm_fileQueue (snd (uploadSingle_start env i p)) = wm_fileQueue (snd p)"
proof -
  obtain g m' where g: "fst (uploadSingle_start env i p) = begin_flight env i m' g" and "wf_done g = wf_done (fst p)"
    by (simp add: uploadSingle_start_def clearFileSpeed_def Let_def ui_defs that)
  then show "file_work (fst (uploadSingle_start env i p)) \<le> pending_work"
    using begin_flight_work [of env i m' g] assms
    by (auto simp: file_work_def g split: option.split)
  show "wm_fileQueue (snd (uploadSingle_start env i p)) = wm_fileQueue (snd p)"
    using start_run(2) [of p env i] by (simp add: same_scalars_def)
qed

lemma work_claim:
  assumes i: "i < length (wm_fileQueue m)" and f: "\<not> wf_done (wm_fileQueue m ! i)" "wf_flight (wm_fileQueue m ! i) = None"
    and m1: "wm_fileQueue m1 = wm_fileQueue m"
  shows "work (at_file i (uploadSingle_start env i) (at_file i (apfst (\<lambda>f. f\<lparr>wf_running := True\<rparr>)) m1)) \<le> work m"
proof -
  define m2 where "m2 = at_file i (apfst (\<lambda>f. f\<lparr>wf_running := True\<rparr>)) m1"
  have q2: "wm_fileQueue m2 = (wm_fileQueue m)[i := (wm_fileQueue m ! i)\<lparr>wf_running := True\<rparr>]"
    by (simp add: m2_def at_file_def m1)
  have "work m2 = work m"
    using work_at_file [of i m1 "apfst (\<lambda>f. f\<lparr>wf_running := True\<rparr>)"] i f
    by (simp add: m2_def m1 file_work_def work_def)
  moreover have p: "file_work (wm_fileQueue m2 ! i) = pending_work" "\<not> wf_done (wm_fileQueue m2 ! i)"
    using i f by (simp_all add: q2 file_work_def)
  moreover have "work (at_file i (uploadSingle_start env i) m2) + file_work (wm_fileQueue m2 ! i) =
      work m2 + file_work (fst (uploadSingle_start env i (wm_fileQueue m2 ! i, m2)))"
    using i p start_work(2) [of "(wm_fileQueue m2 ! i, m2)" env i] by (intro work_at_file) (simp_all add: q2)
  moreover have "file_work (fst (uploadSingle_start env i (wm_fileQueue m2 ! i, m2))) \<le> pending_work"
    using start_work(1) [of "(wm_fileQueue m2 ! i, m2)" env i] p by simp
  ultimately show ?thesis by (simp flip: m2_def)
qed

lemma work_claim_next:
  assumes "list_all (\<lambda>f. wf_running f = held f) (wm_fileQueue m)" "\<And>i. i \<in> set is \<Longrightarrow> i < length (wm_fileQueue m)"
  shows "work (claim_next env is m) \<le> work m"
  using assms
proof (induction "is" arbitrary: m)
  case Nil
  then show ?case by simp
next
  case (Cons i rest)
  show ?case
  proof (cases "wf_running (wm_fileQueue m ! i) \<or> wf_done (wm_fileQueue m ! i)")
    case True
    have "work (m\<lparr>wm_nextUploadIndex := i + 1\<rparr>) = work m" by (simp add: work_def)
    then show ?thesis using True Cons.IH [of "m\<lparr>wm_nextUploadIndex := i + 1\<rparr>"] Cons.prems by (simp add: Let_def)
  next
    case False
    have "wf_flight (wm_fileQueue m ! i) = None"
      using False Cons.prems(1) Cons.prems(2) [of i] by (simp add: list_all_length held_def)
    then show ?thesis
      using work_claim [of i m "m\<lparr>wm_nextUploadIndex := i + 1, wm_running := wm_running m + 1, wm_workers := wm_workers m + 1\<rparr>" env]
        False Cons.prems(2) by (simp add: Let_def)
  qed
qed

lemma work_settle:
  assumes inv: "web_inv m" and fl: "flight_of i m = Some (Settled result)"
  shows "work (worker_settle env i result m) < work m"
proof -
  note f = inv_flight [OF inv fl]
  obtain f' m' where op: "uploadSingle_settle env result (wm_fileQueue m ! i, m) = (f', m')" by fastforce
  have st: "fstate f' = (True, False, False, True)" and sc: "same_scalars m m'"
    using settle_run [where p = "(wm_fileQueue m ! i, m)" and env = env and result = result] f by (simp_all add: op)
  have f': "wf_done f'" "\<not> held f'" "\<not> wf_running f'" using st by (simp_all add: fstate_def)
  define m1 where "m1 = at_file i (uploadSingle_settle env result) m"
  define m2 where "m2 = refresh_speed (we_now env) (updateStatsUI m1)"
  have q: "quiet m1 m2" unfolding m2_def by (intro quiet_steps)
  have q2: "wm_fileQueue m2 = (wm_fileQueue m)[i := f']"
    using q sc by (simp add: quiet_defs m1_def at_file_def op same_scalars_def)
  define m3 where "m3 = worker_finally i m2"
  have q3: "wm_fileQueue m3 = (wm_fileQueue m)[i := f']"
    unfolding m3_def using f(1) f' by (subst finally_eq) (simp_all add: q2)
  have "work m3 + file_work (wm_fileQueue m ! i) = work m + file_work f'"
    using sum_list_update_balance [OF f(1), of file_work f'] by (simp add: work_def q3)
  then have "work m3 < work m" using f f' by (simp add: file_work_def)
  moreover have "list_all (\<lambda>f. wf_running f = held f) (wm_fileQueue m3)"
    using inv f' by (simp add: q3 list_all_update web_inv_def run_inv_def held_ok_run_def)
  then have "work (worker env m3) \<le> work m3"
    unfolding worker_def by (intro work_claim_next) simp_all
  ultimately show ?thesis by (simp add: worker_settle_def m3_def m2_def m1_def)
qed

lemma work_chunk_load:
  assumes inv: "web_inv m" and fl: "flight_of i m = Some (Chunk_request c t)"
  shows "work (chunk_load env i c t xhr m) < work m"
proof -
  let ?m1 = "at_file i (apfst (recordRequestTiming t (we_now env) (xa_timing xhr))) m"
  have i1: "web_inv ?m1" and f1: "flight_of i ?m1 = Some (Chunk_request c t)" and w1: "work ?m1 = work m"
    using inv_timing [OF inv fl] work_timing [OF inv fl] by auto
  show ?thesis
    using work_chunk_failed [OF i1 f1] work_chunk_accepted [OF i1 f1] work_chunk_accepted inv_chunk_progress [OF i1 f1]
      work_chunk_progress [OF i1 f1] w1
    by (simp add: chunk_load_def Let_def) metis
qed

lemma effective_decreases:
  assumes inv: "web_inv m" and eff: "effective e m"
  shows "work (web_step e m) < work m"
proof -
  have whole: "work (at_file i (whole_load env t xhr) m) < work m" "work (at_file i (whole_fail msg t now timing) m) < work m"
    if fl: "flight_of i m = Some (Whole_request t)" for i env t xhr msg now timing
  proof -
    note f = inv_flight [OF inv fl]
    have "\<exists>r. wf_flight (fst (whole_load env t xhr (wm_fileQueue m ! i, m))) = Some (Settled r)"
      by (simp add: whole_load_def Let_def)
    then obtain r where "wf_flight (fst (whole_load env t xhr (wm_fileQueue m ! i, m))) = Some (Settled r)" ..
    then show "work (at_file i (whole_load env t xhr) m) < work m"
      using work_at_flight [OF inv fl, of "whole_load env t xhr" "Settled r"] f by (simp add: calm_flights)
    show "work (at_file i (whole_fail msg t now timing) m) < work m"
      using work_at_flight [OF inv fl, of "whole_fail msg t now timing" "Settled (Inl (plain_error msg))"] f
      by (simp add: calm_flights) (simp add: whole_fail_def)
  qed
  have retry: "work (set_flight i (Some (Chunk_request c t)) m) < work m" if fl: "flight_of i m = Some (Chunk_backoff c)" for i c t
    using work_set_flight [OF inv fl, of "Chunk_request c t"] by simp
  have fail: "work (chunk_fail msg i c t now timing m) < work m" if fl: "flight_of i m = Some (Chunk_request c t)" for msg i c t now timing
    using work_chunk_failed inv_timing [OF inv fl] work_timing [OF inv fl] by (metis chunk_fail_def)
  show ?thesis
    using eff whole retry fail work_chunk_load [OF inv] work_settle [OF inv]
    by (induction e m rule: effective.induct) (auto split: option.splits flight.splits)
qed

lemma effective_bounded: "web_inv m \<Longrightarrow> run_ok effective web_step es m \<Longrightarrow> length es + work (fold web_step es m) \<le> work m"
proof (induction es arbitrary: m)
  case Nil
  then show ?case by simp
next
  case (Cons e es)
  have "web_inv (web_step e m)" "work (web_step e m) < work m" "run_ok effective web_step es (web_step e m)"
    using Cons.prems inv_web_step effective_decreases by auto
  then show ?case using Cons.IH [of "web_step e m"] by simp
qed

lemma effective_exists:
  assumes inv: "web_inv m" and w: "0 < wm_workers m"
  shows "\<exists>e. effective e m"
proof -
  have "held_files m \<noteq> 0" using inv w by (simp add: web_inv_def run_inv_def held_ok_run_def)
  then obtain f where "f \<in> set (wm_fileQueue m)" "held f" by (auto simp: held_files_def filter_empty_conv)
  then obtain i where "i < length (wm_fileQueue m)" "held (wm_fileQueue m ! i)" by (auto simp: in_set_conv_nth)
  then obtain fl where fl: "flight_of i m = Some fl" by (auto simp: flight_of_def held_def)
  then show ?thesis
  proof (cases fl)
    case (Whole_request t)
    then have "effective (undefined, Ev_load i undefined) m" using fl by simp
    then show ?thesis by blast
  next
    case (Chunk_request c t)
    then have "effective (undefined, Ev_load i undefined) m" using fl by simp
    then show ?thesis by blast
  next
    case (Chunk_backoff c)
    then have "effective (undefined, Ev_retry i) m" using fl by simp
    then show ?thesis by blast
  next
    case (Settled r)
    then have "effective (undefined, Ev_settle i) m" using fl by simp
    then show ?thesis by blast
  qed
qed

subsection \<open>An example\<close>

definition demo_env :: web_env where
  "demo_env = \<lparr>we_now = 1, we_random = (\<lambda>i. ''r''), we_session = ''s'', we_iosLike = False, we_show = (\<lambda>v. [])\<rparr>"

definition no_timing :: server_timing where
  "no_timing = \<lparr>st_app = 0, st_write = 0, st_finalize = 0\<rparr>"

definition no_duplicates :: preflight_answers where
  "no_duplicates = \<lparr>pa_initial = Some (JObj []), pa_hash = (\<lambda>f. Some ''h''), pa_verified = None\<rparr>"

definition a_duplicate :: preflight_answers where
  "a_duplicate =
     (let answer = (\<lambda>a. Some (JObj [(''files'', JArr [JObj [(''id'', JStr ''a''), (''action'', JStr a)]])]))
      in \<lparr>pa_initial = answer ''hash_required'', pa_hash = (\<lambda>f. Some ''h''), pa_verified = answer ''skip''\<rparr>)"

definition demo_start :: "web_event list" where
  "demo_start = [Ev_config None, Ev_add [\<lparr>fl_id = ''a'', fl_name = ''a.jpg'', fl_size = 3\<rparr>],
     Ev_upload, Ev_config_awaited, Ev_preflight no_duplicates]"

definition demo_upload :: "web_event list" where
  "demo_upload = [Ev_load 0 \<lparr>xa_status = 200, xa_text = Empty_text, xa_timing = no_timing\<rparr>, Ev_settle 0]"

definition demo_failure :: "web_event list" where
  "demo_failure = [Ev_fail 0 Network_error no_timing, Ev_settle 0, Ev_workers_done, Ev_cleaned, Ev_history True]"

definition demo_again :: "web_event list" where
  "demo_again = [Ev_upload, Ev_config_awaited, Ev_preflight a_duplicate, Ev_cleaned, Ev_history True]"

definition demo :: "web_event list \<Rightarrow> (web_env \<times> web_event) list" where
  "demo es = map (Pair demo_env) es"

lemma funpow_three: "(f ^^ 3) x = f (f (f x))"
  by (simp add: numeral_3_eq_3)

lemmas web_eval = demo_env_def no_timing_def no_duplicates_def init_manager_def config_start_def fallback_chunkSize_def fallback_parallelFiles_def
  web_log_def loadServerConfig_def config_answer_def addFiles_def new_meta_def renderFileItem_def refreshOverallProgress_def updateStatsUI_def
  updateAggregateProgress_def js_round_def new_page_def new_posts_def uploadFiles_click_def setUploadUiState_def uploadFiles_start_def requeue_failed_def pending_files_def
  uploadFiles_checked_def preflight_settled_def preflight_run_def answer_items_def nullish_def web_candidates_def action_of_def map_from_def
  startStallWatchdog_def worker_def at_file_def uploadSingle_start_def clearFileSpeed_def begin_flight_def shouldUseChunkedUpload_def ui_defs account_simps
  WebWholeFileBytes_def flight_of_def whole_progress_def blended_speed_def ui_due_def show_percent_def percent_of_def whole_load_def recordRequestTiming_def new_timing_def whole_result_def
  worker_settle_def uploadSingle_settle_def single_succeeded_def present_result_def result_filename_def text_or_def end_single_def refresh_speed_def getCurrentSpeedForDisplay_def
  updateCurrentSpeedDisplay_def AGG_ALPHA_def SPEED_WINDOW_MS_def worker_finally_def uploadFiles_finalize_def Let_def
  apply_verdict.simps web_skip_file_def result_of_def whole_fail_def single_failed_def plain_error_def show_modal_def
  uploadFiles_submit_def history_of_def uploadFiles_end_def uploadFiles_finally_def reportSpeedSample_def web_outcome_of_def
  uploaded_item_def skipped_item_def reached_def demo_def demo_start_def demo_upload_def demo_failure_def demo_again_def
  a_duplicate_def funpow_three

text \<open>
  After a retry that completes every file the aggregate bar stays below 100 percent: the
  completed bytes start at zero in every run, the total contains the files of earlier runs.
\<close>

definition demo_two :: "web_event list" where
  "demo_two = [Ev_config None,
     Ev_add [\<lparr>fl_id = ''a'', fl_name = ''a.jpg'', fl_size = 1\<rparr>, \<lparr>fl_id = ''b'', fl_name = ''b.jpg'', fl_size = 1\<rparr>],
     Ev_upload, Ev_config_awaited, Ev_preflight no_duplicates, Ev_fail 0 Network_error no_timing, Ev_settle 0,
     Ev_load 1 \<lparr>xa_status = 200, xa_text = Empty_text, xa_timing = no_timing\<rparr>, Ev_settle 1,
     Ev_workers_done, Ev_cleaned, Ev_history True, Ev_upload, Ev_config_awaited, Ev_preflight no_duplicates,
     Ev_load 0 \<lparr>xa_status = 200, xa_text = Empty_text, xa_timing = no_timing\<rparr>, Ev_settle 0, Ev_workers_done]"

lemma retry_bar_half:
  "let m = reached False ''s'' (demo demo_two) in
     list_all wf_done (wm_fileQueue m) \<and> wm_errorCount m = 0 \<and> pg_aggregate (wm_page m) = Some 50"
  by (simp add: web_eval demo_two_def)

subsection \<open>Properties\<close>

text \<open>
  C13. When the workers of a run are through, every file of the queue is done, the error
  count that the history reports is the number of failed files, and the success count is the
  number of the others plus the skip verdicts for files that had failed before; without such a
  verdict the two counts add up to the queue.
\<close>

theorem web_run_counts:
  assumes "wm_wait (reached mobile session es) = Await_cleanup"
  shows "let m = reached mobile session es; q = wm_fileQueue m in
     list_all wf_done q \<and> hp_failedFiles (history_of env m) = length (filter wf_failed q) \<and>
     wm_successCount m = length (filter (\<lambda>f. \<not> wf_failed f) q) + wm_failedSkips m \<and>
     wm_successCount m + wm_errorCount m = length q + wm_failedSkips m"
proof -
  let ?m = "reached mobile session es"
  have acc: "accounts_ok ?m" and run: "run_inv ?m" using reached_inv by (simp_all add: web_inv_def)
  have fin: "list_all wf_done (wm_fileQueue ?m)" and h0: "held_files ?m = 0"
    using run assms by (auto simp: run_inv_def held_ok_run_def)
  have "wf_done f \<and> wf_flight f = None" if "f \<in> set (wm_fileQueue ?m)" for f
    using fin not_held [OF h0 that] that by (simp add: list_all_iff held_def)
  then have "sum_list (map w_err q) = length (filter wf_failed q) \<and> sum_list (map w_ok q) = length (filter (\<lambda>f. \<not> wf_failed f) q)"
    if "set q \<subseteq> set (wm_fileQueue ?m)" for q
    using that by (induction q) (auto simp: weight_defs)
  then show ?thesis
    using acc fin sum_length_filter_compl [of wf_failed "wm_fileQueue ?m"]
    by (simp add: accounts_ok_def Let_def history_of_def)
qed

theorem web_run_counts_witness:
  "wm_wait (reached False ''s'' (demo (demo_start @ demo_upload @ [Ev_workers_done]))) = Await_cleanup \<and>
   wm_successCount (reached False ''s'' (demo (demo_start @ demo_upload @ [Ev_workers_done]))) = 1 \<and>
   list_all wf_done (wm_fileQueue (reached False ''s'' (demo (demo_start @ demo_upload @ [Ev_workers_done]))))"
proof -
  have w: "wm_wait (reached False ''s'' (demo (demo_start @ demo_upload @ [Ev_workers_done]))) = Await_cleanup"
    "wm_successCount (reached False ''s'' (demo (demo_start @ demo_upload @ [Ev_workers_done]))) = 1"
    by (simp_all add: web_eval)
  show ?thesis using w web_run_counts [OF w(1)] by (simp add: Let_def)
qed




end
