(* ===== verification/WebSecurity.thy ===== *)
theory WebSecurity
  imports WebManager
begin

text \<open>
  The access of the browser client: the one-time link, the stored authorization and their
  check by the server (\<open>core/security.js\<close>), the part of \<open>upload/manager.js\<close> that waits for it,
  and the cleanup of browser storage after a run (\<open>core/storage.js\<close>).

  The parameters of the link are association lists (\<open>URLSearchParams\<close>). \<open>localStorage\<close> is a
  map, or \<open>None\<close> when it is not available or refuses access; \<open>we_canStore\<close> says whether it
  accepts a write. Each request takes its answer as an argument. What \<open>performCleanup\<close> does to
  file inputs, object URLs and attributes of page elements is not modelled.
\<close>

datatype fetch_answer = No_answer | Answer nat "jsval option"

fun answer_ok :: "fetch_answer \<Rightarrow> bool" where
  "answer_ok (Answer status body) = (200 \<le> status \<and> status < 300)"
| "answer_ok No_answer = False"

datatype access_failure = Failure_invalid | Failure_missing

datatype access_request = Exchange_bootstrap string | Verify_token string

record web_security =
  ws_token :: "string option"
  ws_isValid :: bool
  ws_failureReason :: "access_failure option"
  ws_initialized :: bool
  ws_query :: "(string \<times> string) list"
  ws_fragment :: "(string \<times> string) list"
  ws_localStorage :: "(string, string) jsmap option"
  ws_canStore :: bool
  ws_locked :: bool
  ws_modals :: "access_failure list"
  ws_requests :: "access_request list"
  ws_logs :: "string list"

definition storageKey :: string where
  "storageKey = ''lmt.browser.authorization.v1''"

text \<open>\<open>x || null\<close> for a string that may be missing.\<close>

definition nonempty :: "string option \<Rightarrow> string option" where
  "nonempty v = (case v of Some s \<Rightarrow> (if s = [] then None else Some s) | None \<Rightarrow> None)"

definition clearCredentialFromAddressBar :: "web_security \<Rightarrow> web_security" where
  "clearCredentialFromAddressBar s =
     s\<lparr>ws_query := filter (\<lambda>(k, v). k \<noteq> ''token'') (ws_query s), ws_fragment := []\<rparr>"

definition restoreBrowserAuthorization :: "web_security \<Rightarrow> string option" where
  "restoreBrowserAuthorization s = (case ws_localStorage s of None \<Rightarrow> None | Some st \<Rightarrow> map_get st storageKey)"

definition persistBrowserAuthorization :: "string \<Rightarrow> web_security \<Rightarrow> web_security" where
  "persistBrowserAuthorization token s =
     (case ws_localStorage s of
        Some st \<Rightarrow> (if ws_canStore s then s\<lparr>ws_localStorage := Some (map_set storageKey token st)\<rparr> else s)
      | None \<Rightarrow> s)"

definition clearBrowserAuthorization :: "string \<Rightarrow> web_security \<Rightarrow> web_security" where
  "clearBrowserAuthorization expectedToken s =
     (case ws_localStorage s of
        None \<Rightarrow> s
      | Some st \<Rightarrow> (if expectedToken = [] \<or> map_get st storageKey = Some expectedToken
                   then s\<lparr>ws_localStorage := Some (AList.delete storageKey st)\<rparr> else s))"

definition hex_digit :: "char \<Rightarrow> bool" where
  "hex_digit c \<longleftrightarrow> c \<in> set ''abcdef0123456789''"

definition is_bootstrap :: "string \<Rightarrow> bool" where
  "is_bootstrap b \<longleftrightarrow> length b = 64 \<and> list_all hex_digit b"

definition exchangeBootstrap :: "string \<Rightarrow> fetch_answer \<Rightarrow> web_security \<Rightarrow> string option \<times> web_security" where
  "exchangeBootstrap bootstrap answer s =
     (if \<not> is_bootstrap bootstrap then (None, s)
      else
        (let s1 = s\<lparr>ws_requests := ws_requests s @ [Exchange_bootstrap bootstrap]\<rparr>
         in case answer of
              Answer status (Some payload) \<Rightarrow>
                (if answer_ok answer
                 then (case nonempty_string (prop_of payload ''token'') of
                         Some t \<Rightarrow> (Some t, persistBrowserAuthorization t s1)
                       | None \<Rightarrow> (None, s1))
                 else (None, s1))
            | _ \<Rightarrow> (None, s1)))"

definition verifyTokenWithServer :: "string \<Rightarrow> fetch_answer \<Rightarrow> web_security \<Rightarrow> bool \<times> web_security" where
  "verifyTokenWithServer token answer s =
     (if token = [] then (False, s)
      else
        (let s1 = s\<lparr>ws_requests := ws_requests s @ [Verify_token token]\<rparr>
         in case answer of
              No_answer \<Rightarrow> (False, s1)
            | Answer status body \<Rightarrow>
                (if \<not> answer_ok answer
                 then (False, if status = 401 \<or> status = 403 then clearBrowserAuthorization token s1 else s1)
                 else case body of
                        None \<Rightarrow> (False, s1)
                      | Some j \<Rightarrow>
                          (truthy (prop_of j ''valid''),
                           if prop_of j ''valid'' = JBool False then clearBrowserAuthorization token s1 else s1))))"

definition showAccessError :: "access_failure \<Rightarrow> web_security \<Rightarrow> web_security" where
  "showAccessError reason s = s\<lparr>ws_modals := ws_modals s @ [reason]\<rparr>"

definition disableControls :: "web_security \<Rightarrow> web_security" where
  "disableControls s = s\<lparr>ws_locked := True\<rparr>"

definition enableControls :: "web_security \<Rightarrow> web_security" where
  "enableControls s = s\<lparr>ws_locked := False\<rparr>"

text \<open>The token of the link: a bootstrap is exchanged, otherwise the token parameter or the stored one.\<close>

definition obtain_token :: "fetch_answer \<Rightarrow> web_security \<Rightarrow> string option \<times> web_security" where
  "obtain_token exchange s =
     (let legacyToken = nonempty (map_of (ws_query s) ''token'');
          bootstrap = nonempty (map_of (ws_fragment s) ''bootstrap'');
          s1 = clearCredentialFromAddressBar s
      in case bootstrap of
           Some b \<Rightarrow> exchangeBootstrap b exchange s1
         | None \<Rightarrow> (case legacyToken of Some t \<Rightarrow> (Some t, s1) | None \<Rightarrow> (restoreBrowserAuthorization s1, s1)))"

definition initializeCredential :: "fetch_answer \<Rightarrow> fetch_answer \<Rightarrow> web_security \<Rightarrow> web_security" where
  "initializeCredential exchange verdict s =
     (let bootstrap = nonempty (map_of (ws_fragment s) ''bootstrap'');
          (token, s1) = obtain_token exchange s;
          s2 = s1\<lparr>ws_token := token\<rparr>
      in case nonempty token of
           None \<Rightarrow>
             (let reason = (if bootstrap \<noteq> None then Failure_invalid else Failure_missing)
              in disableControls (showAccessError reason (s2\<lparr>ws_failureReason := Some reason\<rparr>)))
         | Some t \<Rightarrow>
             (let (valid, s3) = verifyTokenWithServer t verdict s2
              in if \<not> valid
                 then disableControls (showAccessError Failure_invalid (s3\<lparr>ws_failureReason := Some Failure_invalid\<rparr>))
                 else enableControls (s3\<lparr>ws_failureReason := None, ws_isValid := True\<rparr>)))"

text \<open>\<open>init\<close> runs the initialization once; \<open>initTokenHandling\<close> of the manager waits for it.\<close>

definition init_security :: "fetch_answer \<Rightarrow> fetch_answer \<Rightarrow> web_security \<Rightarrow> web_security" where
  "init_security exchange verdict s =
     (if ws_initialized s then s else (initializeCredential exchange verdict s)\<lparr>ws_initialized := True\<rparr>)"

definition initTokenHandling :: "fetch_answer \<Rightarrow> fetch_answer \<Rightarrow> web_security \<Rightarrow> web_security" where
  "initTokenHandling exchange verdict s =
     (let s1 = init_security exchange verdict s
      in if nonempty (ws_token s1) = None \<or> \<not> ws_isValid s1
         then disableControls (s1\<lparr>ws_logs := ws_logs s1 @
                [if ws_failureReason s1 = Some Failure_invalid then ''access_link_invalid'' else ''access_link_missing'']\<rparr>)
         else s1\<lparr>ws_logs := ws_logs s1 @ [''token_valid'']\<rparr>)"

text \<open>A page that is opened with a link.\<close>

definition open_page ::
  "(string \<times> string) list \<Rightarrow> (string \<times> string) list \<Rightarrow> (string, string) jsmap option \<Rightarrow> bool \<Rightarrow> web_security" where
  "open_page query fragment storage canStore =
     \<lparr>ws_token = None, ws_isValid = False, ws_failureReason = None, ws_initialized = False, ws_query = query,
      ws_fragment = fragment, ws_localStorage = storage, ws_canStore = canStore, ws_locked = False, ws_modals = [],
      ws_requests = [], ws_logs = []\<rparr>"

subsection \<open>Cleanup of browser storage (storage.js)\<close>

definition localStorageCleanupKeys :: "string list" where
  "localStorageCleanupKeys = [''upload_session_data'', ''lmt.upload.session'', ''lmt.transfer.session'']"

definition cacheCleanupNames :: "string list" where
  "cacheCleanupNames = [''LocalMediaTransferUploads'', ''lmt-upload-cache'']"

record browser_stores =
  bs_local :: "(string, string) jsmap"
  bs_session :: "(string, string) jsmap"
  bs_caches :: "string list"

definition remove_keys :: "string list \<Rightarrow> (string, string) jsmap \<Rightarrow> (string, string) jsmap" where
  "remove_keys keys st = fold AList.delete keys st"

definition clearBrowserCaches :: "browser_stores \<Rightarrow> browser_stores" where
  "clearBrowserCaches b =
     \<lparr>bs_local = remove_keys localStorageCleanupKeys (bs_local b),
      bs_session = remove_keys localStorageCleanupKeys (bs_session b),
      bs_caches = filter (\<lambda>c. c \<notin> set cacheCleanupNames) (bs_caches b)\<rparr>"

subsection \<open>Lemmas\<close>

lemma map_get_remove_keys: "map_get (remove_keys keys st) k = (if k \<in> set keys then None else map_get st k)"
  unfolding remove_keys_def by (induction keys arbitrary: st) (auto simp: delete_conv)

lemma persist_auth_fields [simp]:
  "ws_query (persistBrowserAuthorization t s) = ws_query s" "ws_fragment (persistBrowserAuthorization t s) = ws_fragment s"
  "ws_requests (persistBrowserAuthorization t s) = ws_requests s" "ws_token (persistBrowserAuthorization t s) = ws_token s"
  "ws_isValid (persistBrowserAuthorization t s) = ws_isValid s" "ws_locked (persistBrowserAuthorization t s) = ws_locked s"
  by (simp_all add: persistBrowserAuthorization_def split: option.split)

lemma clear_fields [simp]:
  "ws_query (clearBrowserAuthorization t s) = ws_query s" "ws_fragment (clearBrowserAuthorization t s) = ws_fragment s"
  "ws_requests (clearBrowserAuthorization t s) = ws_requests s" "ws_token (clearBrowserAuthorization t s) = ws_token s"
  "ws_isValid (clearBrowserAuthorization t s) = ws_isValid s" "ws_locked (clearBrowserAuthorization t s) = ws_locked s"
  by (simp_all add: clearBrowserAuthorization_def split: option.split)

text \<open>The server accepts: an answer in the 200s whose body says so.\<close>

definition accepts :: "fetch_answer \<Rightarrow> bool" where
  "accepts answer \<longleftrightarrow> answer_ok answer \<and> (case answer of Answer _ (Some j) \<Rightarrow> truthy (prop_of j ''valid'') | _ \<Rightarrow> False)"

text \<open>The server rejects: 401, 403, or a body that says the token is not valid.\<close>

definition rejects :: "fetch_answer \<Rightarrow> bool" where
  "rejects answer \<longleftrightarrow> (case answer of
       Answer status body \<Rightarrow> status = 401 \<or> status = 403 \<or>
         answer_ok answer \<and> (case body of Some j \<Rightarrow> prop_of j ''valid'' = JBool False | None \<Rightarrow> False)
     | No_answer \<Rightarrow> False)"

lemma verify_facts:
  assumes "token \<noteq> []" "verifyTokenWithServer token answer s = (valid, s')"
  shows "valid = accepts answer" "ws_requests s' = ws_requests s @ [Verify_token token]" "ws_token s' = ws_token s"
    "ws_query s' = ws_query s" "ws_fragment s' = ws_fragment s" "ws_isValid s' = ws_isValid s"
    "ws_localStorage s' = ws_localStorage (if rejects answer then clearBrowserAuthorization token s else s)"
  using assms
  by (cases answer; auto simp: verifyTokenWithServer_def accepts_def rejects_def Let_def clearBrowserAuthorization_def
      split: option.splits if_splits)+

lemma obtain_facts:
  assumes "obtain_token exchange s = (token, s')"
  shows "ws_query s' = filter (\<lambda>(k, v). k \<noteq> ''token'') (ws_query s)" "ws_fragment s' = []"
    "ws_isValid s' = ws_isValid s" "ws_locked s' = ws_locked s"
    "\<exists>rs. ws_requests s' = ws_requests s @ rs \<and> list_all (\<lambda>r. \<exists>b. r = Exchange_bootstrap b \<and> is_bootstrap b) rs"
  using assms
  by (auto simp: obtain_token_def exchangeBootstrap_def clearCredentialFromAddressBar_def Let_def
      split: option.splits if_splits fetch_answer.splits)

lemma filter_token: "map_of (filter (\<lambda>(k, v). k \<noteq> ''token'') q) ''token'' = None"
  by (induction q) auto

text \<open>The two ways in which the initialization ends.\<close>

lemma initialize_missing:
  assumes "obtain_token exchange s = (token, s1)" "nonempty token = None" "t = initializeCredential exchange verdict s"
  shows "ws_isValid t = ws_isValid s1" "ws_token t = token" "ws_locked t" "ws_query t = ws_query s1" "ws_fragment t = ws_fragment s1"
    "ws_requests t = ws_requests s1"
  using assms
  by (simp_all add: initializeCredential_def Let_def disableControls_def showAccessError_def)

lemma initialize_verified:
  assumes o: "obtain_token exchange s = (token, s1)" and tok: "nonempty token = Some tok"
    and t: "t = initializeCredential exchange verdict s" and fresh: "\<not> ws_isValid s1"
  shows "ws_isValid t = accepts verdict" "ws_token t = token" "ws_locked t = (\<not> accepts verdict)" "ws_query t = ws_query s1"
    "ws_fragment t = ws_fragment s1" "ws_requests t = ws_requests s1 @ [Verify_token tok]"
    "ws_localStorage t = ws_localStorage (if rejects verdict then clearBrowserAuthorization tok s1 else s1)"
proof -
  obtain valid s3 where v: "verifyTokenWithServer tok verdict (s1\<lparr>ws_token := token\<rparr>) = (valid, s3)" by fastforce
  have "tok \<noteq> []" using tok by (auto simp: nonempty_def split: option.splits if_splits)
  note f = verify_facts [OF this v]
  have t': "t = (if \<not> valid
      then disableControls (showAccessError Failure_invalid (s3\<lparr>ws_failureReason := Some Failure_invalid\<rparr>))
      else enableControls (s3\<lparr>ws_failureReason := None, ws_isValid := True\<rparr>))"
    by (simp add: t initializeCredential_def o tok v Let_def)
  show "ws_isValid t = accepts verdict" "ws_token t = token" "ws_locked t = (\<not> accepts verdict)" "ws_query t = ws_query s1"
    "ws_fragment t = ws_fragment s1" "ws_requests t = ws_requests s1 @ [Verify_token tok]"
    "ws_localStorage t = ws_localStorage (if rejects verdict then clearBrowserAuthorization tok s1 else s1)"
    using f fresh
    by (auto simp: t' disableControls_def enableControls_def showAccessError_def clearBrowserAuthorization_def split: option.split)
qed

text \<open>The initialization does not see whether the manager or the page asked for it.\<close>

lemma handling_fields:
  assumes "\<not> ws_initialized s" "t = initializeCredential exchange verdict s"
    "ws_locked t = (\<not> ws_isValid t)" "ws_isValid t \<Longrightarrow> nonempty (ws_token t) \<noteq> None"
  shows "let u = initTokenHandling exchange verdict s in
     ws_isValid u = ws_isValid t \<and> ws_token u = ws_token t \<and> ws_locked u = ws_locked t \<and> ws_query u = ws_query t \<and>
     ws_fragment u = ws_fragment t \<and> ws_requests u = ws_requests t \<and> ws_localStorage u = ws_localStorage t"
  using assms by (auto simp: initTokenHandling_def init_security_def Let_def disableControls_def)

subsection \<open>Properties\<close>


lemma not_both: "accepts answer \<Longrightarrow> \<not> rejects answer"
  by (cases answer) (auto simp: accepts_def rejects_def split: option.splits)

lemma obtain_bootstrap:
  assumes "is_bootstrap b" "tok \<noteq> []"
  shows "obtain_token (Answer 200 (Some (JObj [(''token'', JStr tok)]))) (open_page [] [(''bootstrap'', b)] (Some st) True) =
    (Some tok, (open_page [] [] (Some (map_set storageKey tok st)) True)\<lparr>ws_requests := [Exchange_bootstrap b]\<rparr>)"
proof -
  have "b \<noteq> []" using assms by (auto simp: is_bootstrap_def)
  then show ?thesis
    using assms
    by (simp add: obtain_token_def exchangeBootstrap_def open_page_def clearCredentialFromAddressBar_def
        persistBrowserAuthorization_def nonempty_def nonempty_string_def Let_def)
qed

lemma obtain_stored:
  "obtain_token exchange (open_page [] [] (Some st) True) = (map_get st storageKey, open_page [] [] (Some st) True)"
  by (simp add: obtain_token_def open_page_def clearCredentialFromAddressBar_def restoreBrowserAuthorization_def nonempty_def Let_def)

lemma handling_verified:
  assumes o: "obtain_token exchange s = (Some tok, s1)" and tok: "tok \<noteq> []" and fresh: "\<not> ws_isValid s1" "\<not> ws_initialized s"
  shows "ws_isValid (initTokenHandling exchange verdict s) = accepts verdict"
    "ws_token (initTokenHandling exchange verdict s) = Some tok"
    "ws_localStorage (initTokenHandling exchange verdict s) =
       ws_localStorage (if rejects verdict then clearBrowserAuthorization tok s1 else s1)"
proof -
  have "nonempty (Some tok) = Some tok" using tok by (simp add: nonempty_def)
  note m = initialize_verified [OF o this refl fresh(1), of verdict]
  show "ws_isValid (initTokenHandling exchange verdict s) = accepts verdict"
    "ws_token (initTokenHandling exchange verdict s) = Some tok"
    "ws_localStorage (initTokenHandling exchange verdict s) =
       ws_localStorage (if rejects verdict then clearBrowserAuthorization tok s1 else s1)"
    using handling_fields [OF fresh(2) refl, of exchange verdict] m tok by (simp_all add: Let_def nonempty_def)
qed

text \<open>The page of a one-time link, and a later visit without a link on the given storage.\<close>

definition first_visit :: "fetch_answer \<Rightarrow> fetch_answer \<Rightarrow> string \<Rightarrow> (string, string) jsmap \<Rightarrow> web_security" where
  "first_visit exchange verdict b st = initTokenHandling exchange verdict (open_page [] [(''bootstrap'', b)] (Some st) True)"

definition later_visit :: "fetch_answer \<Rightarrow> (string, string) jsmap \<Rightarrow> web_security" where
  "later_visit verdict st = initTokenHandling No_answer verdict (open_page [] [] (Some st) True)"

text \<open>
  C27. The authorization of a one-time link lasts: a page that was opened with a bootstrap and
  exchanged it, then cleaned up after a run and was opened again without a link, has the same
  token; when the server rejects that token it is removed from the storage.
\<close>

theorem web_authorization_roundtrip:
  assumes "is_bootstrap b" "tok \<noteq> []" "accepts verdict"
    and s: "s = first_visit (Answer 200 (Some (JObj [(''token'', JStr tok)]))) verdict b st"
    and stores: "Some (bs_local stores) = ws_localStorage s"
    and t: "t = later_visit later (bs_local (clearBrowserCaches stores))"
  shows "ws_isValid s \<and> ws_token t = Some tok \<and> ws_isValid t = accepts later \<and>
     map_get (the (ws_localStorage t)) storageKey = (if rejects later then None else Some tok)"
proof -
  note first = handling_verified [OF obtain_bootstrap [OF assms(1,2), of st] assms(2), of verdict]
  have valid: "ws_isValid s" and storage: "ws_localStorage s = Some (map_set storageKey tok st)"
    using first assms(3) not_both by (simp_all add: s first_visit_def open_page_def)
  have key: "storageKey \<notin> set localStorageCleanupKeys" by (simp add: storageKey_def localStorageCleanupKeys_def)
  define st' where "st' = bs_local (clearBrowserCaches stores)"
  have "bs_local stores = map_set storageKey tok st" using stores storage by simp
  then have st': "map_get st' storageKey = Some tok"
    using key by (simp add: st'_def clearBrowserCaches_def map_get_remove_keys)
  have "obtain_token No_answer (open_page [] [] (Some st') True) = (Some tok, open_page [] [] (Some st') True)"
    using obtain_stored [of No_answer st'] st' by simp
  note again = handling_verified [OF this assms(2), of later]
  show ?thesis
    using valid again st'
    by (auto simp: t later_visit_def open_page_def clearBrowserAuthorization_def delete_conv simp flip: st'_def)
qed

theorem web_authorization_roundtrip_witness:
  "let b = replicate 64 (CHR ''a''); ok = Answer 200 (Some (JObj [(''valid'', JBool True)]));
       s = first_visit (Answer 200 (Some (JObj [(''token'', JStr ''k'')]))) ok b [];
       t = later_visit (Answer 401 None) (bs_local (clearBrowserCaches \<lparr>bs_local = [(storageKey, ''k'')], bs_session = [], bs_caches = []\<rparr>))
   in ws_isValid s \<and> \<not> ws_isValid t \<and> map_get (the (ws_localStorage t)) storageKey = None"
proof -
  let ?b = "replicate 64 (CHR ''a'')" and ?ok = "Answer 200 (Some (JObj [(''valid'', JBool True)]))"
    and ?stores = "\<lparr>bs_local = [(storageKey, ''k'')], bs_session = [], bs_caches = []\<rparr>"
  have b: "is_bootstrap ?b" by (simp add: is_bootstrap_def list_all_iff hex_digit_def)
  have ok: "accepts ?ok" by (simp add: accepts_def)
  have no: "rejects (Answer 401 None)" "\<not> accepts (Answer 401 None)" by (simp_all add: accepts_def rejects_def)
  have st: "Some (bs_local ?stores) = ws_localStorage (first_visit (Answer 200 (Some (JObj [(''token'', JStr ''k'')]))) ?ok ?b [])"
    using handling_verified(3) [OF obtain_bootstrap [OF b, of "''k''" "[]"], of ?ok] ok not_both
    by (simp add: first_visit_def open_page_def)
  show ?thesis
    using web_authorization_roundtrip [OF b _ ok refl st refl, of "Answer 401 None"] no by (simp add: Let_def)
qed

end
