(* ===== verification/WebHash.thy ===== *)
theory WebHash
  imports Interfaces "HOL-Library.Multiset"
begin

text \<open>
  The pool of hash workers of the browser client (\<open>upload/preflight.js\<close>): requests are numbered
  and given to at most two workers in turn, a worker answers with progress messages and one
  result or error, and a worker that breaks down fails its requests and is replaced.

  A pending request is kept with the index of its worker; \<open>hp_settled\<close> records the results
  that were handed to the callers. \<open>hp_issued\<close> and \<open>hp_dropped\<close> are history variables: the
  identifiers of all requests, and those that \<open>dispose\<close> discarded. A worker is present or
  not; what it computes arrives with its messages. Times are in whole milliseconds.
\<close>

subsection \<open>The pool\<close>

record hash_pool =
  hp_workers :: "bool list"
  hp_requests :: "(string, nat) jsmap"
  hp_requestSequence :: nat
  hp_nextWorkerIndex :: nat
  hp_settled :: "(string \<times> (string + string)) list"
  hp_issued :: "string list"
  hp_dropped :: "string list"

definition new_hash_pool :: hash_pool where
  "new_hash_pool = \<lparr>hp_workers = [], hp_requests = [], hp_requestSequence = 0, hp_nextWorkerIndex = 0,
     hp_settled = [], hp_issued = [], hp_dropped = []\<rparr>"

text \<open>\<open>cores\<close> is \<open>Number(navigator.hardwareConcurrency) || 2\<close>.\<close>

definition getHashWorkerCount :: "bool \<Rightarrow> nat \<Rightarrow> nat" where
  "getHashWorkerCount mobile cores = (if mobile then 1 else max 1 (min 2 (cores - 1)))"

text \<open>Writing an element of an array beyond its length fills the gap.\<close>

definition put_worker :: "nat \<Rightarrow> bool \<Rightarrow> bool list \<Rightarrow> bool list" where
  "put_worker index present ws = (ws @ replicate (index + 1 - length ws) False)[index := present]"

definition has_worker :: "nat \<Rightarrow> hash_pool \<Rightarrow> bool" where
  "has_worker index p \<longleftrightarrow> index < length (hp_workers p) \<and> hp_workers p ! index"

definition ensureWorker :: "nat \<Rightarrow> hash_pool \<Rightarrow> hash_pool" where
  "ensureWorker index p = (if has_worker index p then p else p\<lparr>hp_workers := put_worker index True (hp_workers p)\<rparr>)"

definition getNextWorker :: "nat \<Rightarrow> hash_pool \<Rightarrow> nat \<times> hash_pool" where
  "getNextWorker poolSize p =
     (let workerIndex = hp_nextWorkerIndex p mod poolSize
      in (workerIndex, ensureWorker workerIndex (p\<lparr>hp_nextWorkerIndex := hp_nextWorkerIndex p + 1\<rparr>)))"

definition request_id :: "nat \<Rightarrow> nat \<Rightarrow> string" where
  "request_id now sequence = ''hash-'' @ show_nat now @ ''-'' @ show_nat sequence"

definition hashFile :: "nat \<Rightarrow> nat \<Rightarrow> hash_pool \<Rightarrow> hash_pool" where
  "hashFile poolSize now p =
     (let (workerIndex, p1) = getNextWorker poolSize p;
          sequence = hp_requestSequence p1 + 1;
          requestId = request_id now sequence
      in p1\<lparr>hp_requestSequence := sequence, hp_requests := map_set requestId workerIndex (hp_requests p1),
            hp_issued := hp_issued p1 @ [requestId]\<rparr>)"

datatype worker_message =
    Msg_progress nat nat
  | Msg_complete string
  | Msg_error string

fun message_result :: "worker_message \<Rightarrow> (string + string) option" where
  "message_result (Msg_progress _ _) = None"
| "message_result (Msg_complete sha256) = Some (Inr sha256)"
| "message_result (Msg_error e) = Some (Inl (if e = [] then ''Hashing failed'' else e))"

definition on_message :: "string \<Rightarrow> worker_message \<Rightarrow> hash_pool \<Rightarrow> hash_pool" where
  "on_message requestId message p =
     (case map_get (hp_requests p) requestId of
        None \<Rightarrow> p
      | Some _ \<Rightarrow>
          (case message_result message of
             None \<Rightarrow> p
           | Some result \<Rightarrow>
               p\<lparr>hp_requests := AList.delete requestId (hp_requests p), hp_settled := hp_settled p @ [(requestId, result)]\<rparr>))"

definition on_worker_error :: "nat \<Rightarrow> hash_pool \<Rightarrow> hash_pool" where
  "on_worker_error index p =
     (let failed = map fst (filter (\<lambda>(requestId, workerIndex). workerIndex = index) (hp_requests p))
      in p\<lparr>hp_requests := filter (\<lambda>(requestId, workerIndex). workerIndex \<noteq> index) (hp_requests p),
           hp_settled := hp_settled p @ map (\<lambda>i. (i, Inl ''Hash worker failed'')) failed,
           hp_workers := put_worker index False (hp_workers p)\<rparr>)"

definition hash_dispose :: "hash_pool \<Rightarrow> hash_pool" where
  "hash_dispose p =
     p\<lparr>hp_workers := [], hp_requests := [], hp_nextWorkerIndex := 0,
       hp_dropped := hp_dropped p @ map fst (hp_requests p)\<rparr>"

text \<open>The events of the pool; only a worker that is present breaks down.\<close>

datatype hash_event =
    Hash_file nat
  | Hash_message string worker_message
  | Hash_worker_error nat
  | Hash_dispose

fun hash_step :: "nat \<Rightarrow> hash_event \<Rightarrow> hash_pool \<Rightarrow> hash_pool" where
  "hash_step poolSize (Hash_file now) p = hashFile poolSize now p"
| "hash_step poolSize (Hash_message i message) p = on_message i message p"
| "hash_step poolSize (Hash_worker_error index) p = (if has_worker index p then on_worker_error index p else p)"
| "hash_step poolSize Hash_dispose p = hash_dispose p"

subsection \<open>Lemmas: identifiers\<close>

lemma show_nat_no_dash: "CHR ''-'' \<notin> set (show_nat n)"
proof (induction n rule: less_induct)
  case (less n)
  have digit: "d < 10 \<Longrightarrow> digit_char d \<noteq> CHR ''-''" for d
    using of_char_digit_char [of d] by (auto dest: arg_cong [where f = "of_char :: char \<Rightarrow> nat"])
  show ?case
  proof (cases "n < 10")
    case True
    then show ?thesis using digit [of n] by (auto simp: show_nat_small)
  next
    case False
    then show ?thesis using less.IH [of "n div 10"] digit [of "n mod 10"] by (auto simp: show_nat_step)
  qed
qed

lemma dash_suffix: "a @ CHR ''-'' # b = a' @ CHR ''-'' # b' \<Longrightarrow> CHR ''-'' \<notin> set b \<Longrightarrow> CHR ''-'' \<notin> set b' \<Longrightarrow> b = b'"
  by (auto simp: append_eq_append_conv2 append_eq_Cons_conv Cons_eq_append_conv)

lemma request_id_inj: "request_id now s = request_id now' s' \<Longrightarrow> s = s'"
  using dash_suffix [of "''hash-'' @ show_nat now" "show_nat s" "''hash-'' @ show_nat now'" "show_nat s'"]
  by (simp add: request_id_def show_nat_no_dash)

subsection \<open>The invariant\<close>

text \<open>
  Every request that was made is settled, pending or dropped, and only one of these; its
  identifier carries a number that was given out; and the worker of a pending request is
  present.
\<close>

definition request_history :: "hash_pool \<Rightarrow> string list" where
  "request_history p = map fst (hp_settled p) @ map fst (hp_requests p) @ hp_dropped p"

definition pool_inv :: "nat \<Rightarrow> hash_pool \<Rightarrow> bool" where
  "pool_inv poolSize p \<longleftrightarrow>
     distinct (request_history p) \<and> mset (hp_issued p) = mset (request_history p) \<and>
     (\<forall>i \<in> set (hp_issued p). \<exists>now s. i = request_id now s \<and> s \<le> hp_requestSequence p) \<and>
     (\<forall>i w. (i, w) \<in> set (hp_requests p) \<longrightarrow> has_worker w p) \<and> length (hp_workers p) \<le> poolSize"

lemma length_put_worker [simp]: "length (put_worker index b ws) = max (length ws) (index + 1)"
  by (simp add: put_worker_def)

lemma has_put_worker:
  "has_worker w (p\<lparr>hp_workers := put_worker index b (hp_workers p)\<rparr>) \<longleftrightarrow> (if w = index then b else has_worker w p)"
  by (auto simp: has_worker_def put_worker_def nth_append nth_list_update)

lemma has_worker_workers: "hp_workers p = hp_workers q \<Longrightarrow> has_worker w p = has_worker w q"
  by (simp add: has_worker_def)

lemma has_ensureWorker: "has_worker w (ensureWorker index p) \<longleftrightarrow> w = index \<or> has_worker w p"
  by (auto simp: ensureWorker_def has_put_worker)

lemma ensureWorker_frame [simp]:
  "hp_requests (ensureWorker index p) = hp_requests p"
  "hp_requestSequence (ensureWorker index p) = hp_requestSequence p"
  "hp_settled (ensureWorker index p) = hp_settled p" "hp_issued (ensureWorker index p) = hp_issued p"
  "hp_dropped (ensureWorker index p) = hp_dropped p"
  by (simp_all add: ensureWorker_def)

lemma length_ensureWorker: "index < n \<Longrightarrow> length (hp_workers p) \<le> n \<Longrightarrow> length (hp_workers (ensureWorker index p)) \<le> n"
  by (simp add: ensureWorker_def)

lemma fresh_request_id:
  assumes "\<forall>i \<in> A. \<exists>now s. i = request_id now s \<and> s \<le> n"
  shows "request_id now (Suc n) \<notin> A"
proof
  assume "request_id now (Suc n) \<in> A"
  with assms obtain now' s where "request_id now (Suc n) = request_id now' s" "s \<le> n" by blast
  then show False using request_id_inj by fastforce
qed

lemma update_fresh: "k \<notin> fst ` set m \<Longrightarrow> map_set k v m = m @ [(k, v)]"
  by (induction m) auto

lemma hashFile_inv:
  assumes inv: "pool_inv n p" and n: "0 < n"
  shows "pool_inv n (hashFile n now p)"
proof -
  define w where "w = hp_nextWorkerIndex p mod n"
  define q where "q = ensureWorker w (p\<lparr>hp_nextWorkerIndex := hp_nextWorkerIndex p + 1\<rparr>)"
  define i where "i = request_id now (Suc (hp_requestSequence p))"
  have "w < n" using n by (simp add: w_def)
  have q: "hp_requests q = hp_requests p" "hp_requestSequence q = hp_requestSequence p" "hp_settled q = hp_settled p"
    "hp_issued q = hp_issued p" "hp_dropped q = hp_dropped p"
    by (simp_all add: q_def)
  have workers: "has_worker v q \<longleftrightarrow> v = w \<or> has_worker v p" for v
    using has_worker_workers [of "p\<lparr>hp_nextWorkerIndex := hp_nextWorkerIndex p + 1\<rparr>" p v]
    by (simp add: q_def has_ensureWorker)
  have "set (hp_issued p) = set (request_history p)"
    using inv by (metis pool_inv_def mset_eq_setD)
  moreover have "i \<notin> set (hp_issued p)"
    using inv fresh_request_id unfolding pool_inv_def i_def by blast
  ultimately have fresh: "i \<notin> set (request_history p)" by simp
  then have "hashFile n now p = q\<lparr>hp_requestSequence := Suc (hp_requestSequence p),
      hp_requests := hp_requests p @ [(i, w)], hp_issued := hp_issued p @ [i]\<rparr>"
    by (simp add: hashFile_def getNextWorker_def Let_def w_def [symmetric] q_def [symmetric, simplified] q i_def [symmetric]
        update_fresh request_history_def)
  moreover have "length (hp_workers q) \<le> n"
    using inv \<open>w < n\<close> by (simp add: q_def length_ensureWorker pool_inv_def)
  moreover have "\<forall>j \<in> set (hp_issued p @ [i]). \<exists>now s. j = request_id now s \<and> s \<le> Suc (hp_requestSequence p)"
  proof
    fix j assume "j \<in> set (hp_issued p @ [i])"
    then consider "j = i" | now' s where "j = request_id now' s" "s \<le> hp_requestSequence p"
      using inv by (auto simp: pool_inv_def)
    then show "\<exists>now s. j = request_id now s \<and> s \<le> Suc (hp_requestSequence p)"
      by cases (use i_def le_SucI in blast)+
  qed
  ultimately show ?thesis
    using inv fresh workers
    by (auto simp: pool_inv_def request_history_def q has_worker_def)
qed

text \<open>The other events only move requests from pending to settled or dropped.\<close>

lemma pool_inv_move:
  assumes "pool_inv n p" and "mset (request_history q) = mset (request_history p)"
    and "hp_issued q = hp_issued p" "hp_requestSequence q = hp_requestSequence p"
    and "\<And>i w. (i, w) \<in> set (hp_requests q) \<Longrightarrow> has_worker w q" and "length (hp_workers q) \<le> n"
  shows "pool_inv n q"
  using assms mset_eq_imp_distinct_iff [OF assms(2)] by (simp add: pool_inv_def)

lemma pool_inv_parts:
  assumes "pool_inv n p"
  shows "distinct (map fst (hp_requests p))" "length (hp_workers p) \<le> n"
    "(i, w) \<in> set (hp_requests p) \<Longrightarrow> has_worker w p"
  using assms by (auto simp: pool_inv_def request_history_def)

lemma mset_map_partition: "mset (map f (filter P xs)) + mset (map f (filter (\<lambda>x. \<not> P x) xs)) = mset (map f xs)"
  by (induction xs) auto

lemma filter_key_distinct: "distinct (map fst m) \<Longrightarrow> map_get m k = Some v \<Longrightarrow> filter (\<lambda>x. fst x = k) m = [(k, v)]"
  by (induction m) (auto simp: filter_empty_conv rev_image_eqI split: if_splits)

lemma on_message_inv:
  assumes inv: "pool_inv n p" shows "pool_inv n (on_message i message p)"
proof (cases "\<exists>v r. map_get (hp_requests p) i = Some v \<and> message_result message = Some r")
  case True
  then obtain v r where found: "map_get (hp_requests p) i = Some v" "message_result message = Some r" by blast
  have "add_mset i (mset (map fst (AList.delete i (hp_requests p)))) = mset (map fst (hp_requests p))"
    using mset_map_partition [of fst "\<lambda>x. fst x = i" "hp_requests p"] filter_key_distinct [OF pool_inv_parts(1) [OF inv] found(1)]
    by (simp add: AList.delete_eq case_prod_unfold eq_commute [of i])
  then show ?thesis using inv found
    by (intro pool_inv_move [OF inv])
       (auto simp: on_message_def request_history_def has_worker_def AList.delete_eq
         dest: pool_inv_parts(3) [OF inv] pool_inv_parts(2))
qed (use inv in \<open>auto simp: on_message_def split: option.split\<close>)

lemma on_worker_error_inv:
  assumes inv: "pool_inv n p" and w: "has_worker w p" shows "pool_inv n (on_worker_error w p)"
proof (rule pool_inv_move [OF inv])
  show "mset (request_history (on_worker_error w p)) = mset (request_history p)"
    using mset_map_partition [of fst "\<lambda>(_, v). v = w" "hp_requests p"]
    by (simp add: on_worker_error_def request_history_def Let_def comp_def case_prod_unfold)
  show "length (hp_workers (on_worker_error w p)) \<le> n"
    using pool_inv_parts(2) [OF inv] w by (simp add: on_worker_error_def Let_def has_worker_def)
  show "has_worker v (on_worker_error w p)" if "(i, v) \<in> set (hp_requests (on_worker_error w p))" for i v
  proof -
    from that have "v \<noteq> w" "has_worker v p"
      by (auto simp: on_worker_error_def Let_def dest: pool_inv_parts(3) [OF inv])
    then show ?thesis
      using has_put_worker [of v w False p] has_worker_workers [of "on_worker_error w p" "p\<lparr>hp_workers := put_worker w False (hp_workers p)\<rparr>" v]
      by (simp add: on_worker_error_def Let_def)
  qed
qed (simp_all add: on_worker_error_def Let_def)

lemma hash_dispose_inv: "pool_inv n p \<Longrightarrow> pool_inv n (hash_dispose p)"
  by (rule pool_inv_move [of n p]) (simp_all add: hash_dispose_def request_history_def)

lemma hash_step_inv: "pool_inv n p \<Longrightarrow> 0 < n \<Longrightarrow> pool_inv n (hash_step n e p)"
  by (cases e) (simp_all add: hashFile_inv on_message_inv on_worker_error_inv hash_dispose_inv)

lemma pool_inv_init: "pool_inv n new_hash_pool"
  by (simp add: pool_inv_def new_hash_pool_def request_history_def)

lemma getHashWorkerCount_bounds: "1 \<le> getHashWorkerCount mobile cores" "getHashWorkerCount mobile cores \<le> 2"
  by (simp_all add: getHashWorkerCount_def)

interpretation hash_pool: event_machine "hash_step (getHashWorkerCount mobile cores)" "pool_inv (getHashWorkerCount mobile cores)"
  for mobile cores
  using getHashWorkerCount_bounds(1) [of mobile cores] by unfold_locales (simp add: hash_step_inv)

subsection \<open>Every request is settled at most once\<close>

text \<open>
  C29. Whatever happens to the pool, the requests that were made are exactly those that are settled,
  pending or discarded by \<open>dispose\<close>, none of them twice; a pending request has a worker that is
  present, so its answer or its failure can still arrive; and there are at most two workers.
\<close>

theorem hash_requests_settled_once:
  "let p = fold (hash_step (getHashWorkerCount mobile cores)) es new_hash_pool
   in distinct (map fst (hp_settled p) @ map fst (hp_requests p) @ hp_dropped p) \<and>
      mset (hp_issued p) = mset (map fst (hp_settled p) @ map fst (hp_requests p) @ hp_dropped p) \<and>
      list_all (\<lambda>(i, w). has_worker w p) (hp_requests p) \<and> length (hp_workers p) \<le> 2"
  using hash_pool.run_inv [OF pool_inv_init, of mobile cores es] getHashWorkerCount_bounds(2) [of mobile cores]
  by (auto simp: Let_def pool_inv_def request_history_def list_all_iff)

end
