(* ===== verification/Spec2Isabelle.thy ===== *)
theory Spec2Isabelle
  imports ConnectionSecurity DiagnosticStorage SessionProperties MediaGallery
    TransferScreen ConnectionEntry ConnectionHealth ConnectionSettings
    ReceiverHistory ProblemPreviews WebEnding WebSecurity WebHash
begin

text \<open>
  Verification of the clients of LocalMediaTransfer: the iOS app and the browser page.

  The program sends photos and videos from an iPhone to a desktop on the same network. The
  client is TypeScript under \<open>src/src/LocalMediaTransfer.iOS/src\<close> (paths below are relative
  to it). The user pairs with a desktop by a QR code, a form or nearby discovery, selects
  media, and starts a transfer session: a producer prepares windows of assets, asks the
  desktop which of the files it already has, and feeds a bounded queue from which workers
  upload. Counters, diagnostics, the transfer screen and the history are derived from the
  terminal outcome of every file. The desktop also serves a page (JavaScript under
  \<open>src/src/Server/static/js\<close>) with which any browser uploads: it exchanges a one-time link for
  a token, checks the chosen files for duplicates and uploads them with several workers.

  \<^bold>\<open>Modelling conventions.\<close> A class or a hook is a record of its fields, state variables and
  refs; a method or a callback is a function on the record; an enumeration or a tagged union
  is a datatype; an exception is the left side of a sum, an option or a value of an error
  type. Numbers are reals (the rounding of doubles is not modelled), counts are natural
  numbers; where \<open>NaN\<close> or an infinity can enter, at the native bridge and in JSON, a number
  is a \<open>jsnum\<close>. A JSON value is a \<open>jsval\<close>. A JavaScript \<open>Map\<close> is an association list in
  insertion order. The program is single-threaded: an asynchronous function is split at its
  awaits into synchronous segments, and their interleavings are sequences of events or a
  step relation. What is outside the program (network, native module, media library, file
  system, storage, clock, random bytes, answers of the user) is a parameter or an argument.

  \<^bold>\<open>Theories.\<close>
  \<^item> \<open>Prelude\<close>, \<open>Interfaces\<close>: shared types, string and map functions with their lemmas; the
    contracts of the components as locales (event machines with an invariant, step
    relations, grouping, the ledger of outcomes, the ready queue), each interpreted in the
    theory of the component that provides it. \<open>ConnectionSettings\<close> has the locale
    \<open>stored_setting\<close>, interpreted for the preparation mode and the switches.
  \<^item> \<open>UploadTypes\<close>: the data of \<open>services/upload/types.ts\<close>, \<open>errors.ts\<close>, \<open>mediaVariants.ts\<close>,
    \<open>transferLimits.ts\<close>, \<open>api/types.ts\<close>.
  \<^item> \<open>TransferAccounting\<close>, \<open>ReadyQueue\<close>, \<open>Thermal\<close>, \<open>Throughput\<close>, \<open>ClientMetrics\<close>, \<open>Retry\<close>,
    \<open>Pipeline\<close>: the classes and policies of \<open>services/upload\<close>. Shown: the counters are those
    of the first outcome of each file; the idle time and the rates are those of their
    reference definitions; the queue is a bounded FIFO and does not get stuck with one
    producer; heat never stops the first worker; retries are bounded and classified; the
    phases of the pipeline are announced in order.
  \<^item> \<open>NativeBridge\<close>: \<open>services/NativeCapabilities.ts\<close>; nothing malformed enters from the
    native module.
  \<^item> \<open>DuplicatePreflight\<close>, \<open>PrepareAssets\<close>, \<open>FileUpload\<close>: the steps of a file. Shown: every
    file of a window is decided exactly once and a file is skipped only for a reason; every
    asset is prepared or reported; the chunks cover the file exactly, within the limits.
  \<^item> \<open>UploadSession\<close>, \<open>SessionInvariant\<close>, \<open>SessionProgress\<close>, \<open>SessionProperties\<close>: the
    session of \<open>services/UploadManager.ts\<close> over all interleavings of its producer and
    workers. Shown: every prepared file is accounted for exactly once when a session ends;
    the summary, the history entry and the diagnostics agree; a session that has not ended
    can go on (with the exception that the theorem names); cancellation takes effect under
    back-pressure.
  \<^item> \<open>DiagnosticAggregation\<close>, \<open>TransferDiagnostics\<close>, \<open>DiagnosticStorage\<close>:
    \<open>services/diagnostics\<close>. Shown: the totals of a report are the sums over its windows;
    what is persisted is listed; the directory stays within its bounds.
  \<^item> \<open>MediaSelection\<close>, \<open>MediaGallery\<close>: the media picker. Shown: the incremental drag
    selection equals its specification; paging and select all show every asset once.
  \<^item> \<open>TransferMetrics\<close>, \<open>TransferScreen\<close>: the transfer screen. Shown: the counters are those
    of the latest statuses; a finished screen does not change; updates are shown within
    100 ms; the bounds of the remaining time.
  \<^item> \<open>ConnectionSecurity\<close>, \<open>ApiClient\<close>: pairing payloads and profiles; the HTTP client with a
    log of its requests. Shown: a payload is accepted exactly if well formed; when a ping
    succeeds; every parsed answer is well typed.
  \<^item> \<open>Pairing\<close>, \<open>PairingProperties\<close>, \<open>ConnectionInvariant\<close>: the connection, from
    \<open>app/hooks/usePairingController.ts\<close> and the hooks it uses. Shown: under which protection a
    request may leave the device; what an HTTPS connection has established; what the shown
    security mode means, over all sequences of handlers; that a failed attempt forgets the
    desktop.
  \<^item> \<open>ConnectionEntry\<close>, \<open>ConnectionHealth\<close>, \<open>ConnectionSettings\<close>, \<open>ReceiverHistory\<close>,
    \<open>ProblemPreviews\<close>: the form and the scanner, the health monitor, the stored settings and
    discovery, the history and its previews. Shown: a scanned desktop is remembered and a
    desktop from the form is not; the monitor never falls asleep; choices of the user win
    over late loads; superseded answers are ignored; deleted previews do not come back.

  \<^item> \<open>WebManager\<close>, \<open>WebUpload\<close>: the browser client: the accounts, the configuration and the
    file items (\<open>upload/manager.js\<close>, \<open>ui/progress.js\<close>); uploads of a file, chunks and retries
    (\<open>upload/workers.js\<close>), the duplicate check (\<open>upload/preflight.js\<close>), the queue and the run,
    as an event machine (\<open>web_step\<close>).
  \<^item> \<open>WebInvariant\<close>, \<open>WebRun\<close>, \<open>WebProperties\<close>, \<open>WebEnding\<close>: its invariant over all sequences
    of events, in two parts: the counters are sums of weights of the files, which balanced
    operations keep; workers, held files and the next index belong together. Shown: the byte
    counts; an uploaded file was acknowledged without a gap; the counts at the end of a run; a
    run ends, by a measure that every awaited event decreases; and two flaws of retries.
  \<^item> \<open>WebSecurity\<close>: access to the page (\<open>core/security.js\<close>) and the cleanup of browser storage
    (\<open>core/storage.js\<close>). Shown: the controls are unlocked exactly with a token that the server
    accepted; the authorization survives the cleanup and goes when it is rejected.
  \<^item> \<open>WebHash\<close>: the pool of hash workers (\<open>upload/preflight.js\<close>). Shown: every request is
    settled at most once and a pending one has a worker.

  \<^bold>\<open>Bounds.\<close> No model uses fuel: every loop of the source is a recursion on its list or its
  attempts (24 polls of an approval, 3 activations of a credential, the retries of a chunk),
  or a step relation over events without a bound on their number.

  \<^bold>\<open>Not modelled.\<close> The React Native views, the theme and the texts of alerts: they render the
  state that the hooks compute. Of the browser page: its elements, dialogs, translations and
  tips, the code inside a hash worker (the hash of a file is an input) and the parser of the
  timing header. The Swift module, the C++ server and the C# programs: they
  are seen through the answers of the bridge and of the network. Dates and locale-dependent
  formatting. Calls that only log.
\<close>

end
